(* ===== verification/Prelude.thy ===== *)
theory Prelude
  imports Main "HOL-Library.Sublist"
begin

text \<open>
  Shared vocabulary of the development: the collections of simplification rules the component
  theories add to, generic facts on association lists (the model of JavaScript objects with
  string keys in insertion order), and the two interfaces several components rely on: a
  three-way comparison that is a total order, and a deterministic machine with an invariant.
\<close>

named_theorems js_simps \<open>evaluation of the JavaScript value operations\<close>
named_theorems path_simps \<open>step paths and their comparison\<close>
named_theorems runtime_simps \<open>sequencing of effects and exceptions\<close>
named_theorems transport_simps \<open>delivery through the transports\<close>


section \<open>Association lists\<close>

text \<open>
  A JavaScript object is an association list without repeated keys: assignment overwrites a
  present key in place and appends a new one at the end, as property order does for string
  keys that are not array indices.
\<close>

primrec al_set :: "'k \<Rightarrow> 'v \<Rightarrow> ('k \<times> 'v) list \<Rightarrow> ('k \<times> 'v) list" where
  "al_set k v [] = [(k, v)]"
| "al_set k v (e # es) = (if fst e = k then (k, v) # es else e # al_set k v es)"

definition al_remove :: "'k \<Rightarrow> ('k \<times> 'v) list \<Rightarrow> ('k \<times> 'v) list" where
  "al_remove k es = filter (\<lambda>e. fst e \<noteq> k) es"

definition al_keys :: "('k \<times> 'v) list \<Rightarrow> 'k list" where
  "al_keys es = map fst es"

definition al_wf :: "('k \<times> 'v) list \<Rightarrow> bool" where
  "al_wf es \<longleftrightarrow> distinct (map fst es)"

definition al_merge :: "('k \<times> 'v) list \<Rightarrow> ('k \<times> 'v) list \<Rightarrow> ('k \<times> 'v) list" where
  "al_merge base over = fold (\<lambda>(k, v) acc. al_set k v acc) over base"

lemma map_of_al_set [simp]: "map_of (al_set k v es) = (map_of es)(k \<mapsto> v)"
  by (induction es) auto

lemma map_of_al_remove [simp]: "map_of (al_remove k es) = (map_of es)(k := None)"
  by (induction es) (auto simp: al_remove_def)

lemma fst_set_al_set [simp]: "fst ` set (al_set k v es) = insert k (fst ` set es)"
  by (induction es) auto

lemma al_wf_al_set [intro]: "al_wf es \<Longrightarrow> al_wf (al_set k v es)"
  by (induction es) (auto simp: al_wf_def)

lemma al_wf_al_remove [intro]: "al_wf es \<Longrightarrow> al_wf (al_remove k es)"
  by (induction es) (auto simp: al_wf_def al_remove_def)

lemma al_wf_Nil [simp]: "al_wf []"
  by (simp add: al_wf_def)

lemma al_merge_Nil [simp]: "al_merge b [] = b"
  by (simp add: al_merge_def)

lemma al_merge_Cons [simp]: "al_merge b ((k, v) # es) = al_merge (al_set k v b) es"
  by (simp add: al_merge_def)

lemma al_wf_al_merge [intro]: "al_wf b \<Longrightarrow> al_wf (al_merge b es)"
proof (induction es arbitrary: b)
  case (Cons e es)
  then show ?case by (cases e) (simp add: al_wf_al_set)
qed simp

lemma map_of_al_merge:
  "al_wf es \<Longrightarrow> map_of (al_merge b es) = map_of b ++ map_of es"
proof (induction es arbitrary: b)
  case Nil
  then show ?case by simp
next
  case (Cons e es)
  obtain k v where e: "e = (k, v)" by (cases e)
  from Cons.prems e have wf: "al_wf es" and k: "map_of es k = None"
    by (auto simp: al_wf_def map_of_eq_None_iff)
  have "map_of (al_merge b (e # es)) = (map_of b)(k \<mapsto> v) ++ map_of es"
    using Cons.IH [OF wf, of "al_set k v b"] e by (simp add: fun_upd_def)
  also have "\<dots> = map_of b ++ map_of (e # es)"
    using e k by (auto simp: fun_eq_iff map_add_def split: option.splits)
  finally show ?case .
qed

text \<open>The interface of a keyed store, as the components that read and write objects use it.\<close>

locale keyed_store =
  fixes lookup :: "'m \<Rightarrow> 'k \<Rightarrow> 'v option"
    and put :: "'k \<Rightarrow> 'v \<Rightarrow> 'm \<Rightarrow> 'm"
    and del :: "'k \<Rightarrow> 'm \<Rightarrow> 'm"
    and wf :: "'m \<Rightarrow> bool"
  assumes lookup_put: "lookup (put k v m) = (lookup m)(k := Some v)"
    and lookup_del: "lookup (del k m) = (lookup m)(k := None)"
    and wf_put: "wf m \<Longrightarrow> wf (put k v m)"
    and wf_del: "wf m \<Longrightarrow> wf (del k m)"
begin

lemma lookup_put_same: "lookup (put k v m) k = Some v"
  by (simp add: lookup_put)

lemma lookup_put_other: "k \<noteq> j \<Longrightarrow> lookup (put k v m) j = lookup m j"
  by (simp add: lookup_put)

lemma lookup_del_same: "lookup (del k m) k = None"
  by (simp add: lookup_del)

lemma lookup_del_other: "k \<noteq> j \<Longrightarrow> lookup (del k m) j = lookup m j"
  by (simp add: lookup_del)

lemma put_after_del: "lookup (put k v (del k m)) = lookup (put k v m)"
  by (simp add: lookup_put lookup_del)

lemma del_restores: "lookup m k = None \<Longrightarrow> lookup (del k (put k v m)) = lookup m"
  by (auto simp: lookup_put lookup_del)

end

interpretation obj: keyed_store map_of al_set al_remove al_wf
  by unfold_locales auto


section \<open>Searching lists\<close>

text \<open>\<open>findIndex\<close>\<close>

primrec find_index :: "('a \<Rightarrow> bool) \<Rightarrow> 'a list \<Rightarrow> nat option" where
  "find_index P [] = None"
| "find_index P (x # xs) = (if P x then Some 0 else map_option Suc (find_index P xs))"

lemma find_index_less: "find_index P xs = Some k \<Longrightarrow> k < length xs"
  by (induction xs arbitrary: k) (auto split: if_splits)

lemma find_index_Some: "find_index P xs = Some k \<Longrightarrow> P (xs ! k) \<and> (\<forall>i<k. \<not> P (xs ! i))"
proof (induction xs arbitrary: k)
  case (Cons x xs)
  show ?case
  proof (cases "P x")
    case False
    then obtain j where j: "find_index P xs = Some j" "k = Suc j"
      using Cons.prems by auto
    have "\<not> P ((x # xs) ! i)" if "i < k" for i
      using that j Cons.IH [OF j(1)] False by (cases i) auto
    then show ?thesis using Cons.IH [OF j(1)] j(2) by simp
  qed (use Cons.prems in auto)
qed simp

lemma find_index_None: "find_index P xs = None \<longleftrightarrow> (\<forall>x \<in> set xs. \<not> P x)"
  by (induction xs) auto


section \<open>Three-way comparison\<close>

text \<open>
  The checkpoint guards of the page driver and of the resume checks order positions with a
  comparison that returns a negative, zero or positive number. What they rely on is that it
  is a total order with equality as its zero.
\<close>

locale total_compare =
  fixes cmp :: "'a \<Rightarrow> 'a \<Rightarrow> int"
  assumes cmp_zero: "cmp a b = 0 \<longleftrightarrow> a = b"
    and cmp_swap: "cmp b a = - cmp a b"
    and cmp_trans: "cmp a b < 0 \<Longrightarrow> cmp b c < 0 \<Longrightarrow> cmp a c < 0"
begin

lemma cmp_self: "cmp a a = 0"
  by (simp add: cmp_zero)

lemma cmp_irrefl: "\<not> cmp a a < 0"
  by (simp add: cmp_self)

lemma cmp_asym: "cmp a b < 0 \<Longrightarrow> 0 < cmp b a"
  using cmp_swap [of a b] by simp

lemma cmp_total: "cmp a b < 0 \<or> a = b \<or> cmp b a < 0"
  using cmp_zero [of a b] cmp_swap [of a b] by linarith

lemma cmp_le_trans: "cmp a b \<le> 0 \<Longrightarrow> cmp b c \<le> 0 \<Longrightarrow> cmp a c \<le> 0"
  by (metis cmp_trans cmp_zero less_eq_int_def less_le)

lemma cmp_ge_trans: "0 \<le> cmp a b \<Longrightarrow> 0 \<le> cmp b c \<Longrightarrow> 0 \<le> cmp a c"
  using cmp_le_trans [of c b a] cmp_swap [of a b] cmp_swap [of b c] cmp_swap [of a c]
  by linarith

text \<open>A holder that replaces its value only by one that is not older never moves back.\<close>

lemma newest_not_older:
  "0 \<le> cmp (if 0 \<le> cmp new old then new else old) old"
  by (simp add: cmp_self)

end


section \<open>Errors as values\<close>

text \<open>A computation that may throw is a sum, the thrown value on the left; these run it in sequence.\<close>

definition bind_sum :: "'e + 'a \<Rightarrow> ('a \<Rightarrow> 'e + 'b) \<Rightarrow> 'e + 'b" where
  "bind_sum x f = (case x of Inl e \<Rightarrow> Inl e | Inr a \<Rightarrow> f a)"

lemma bind_sum_simps [simp]: "bind_sum (Inl e) f = Inl e" "bind_sum (Inr a) f = f a"
  by (simp_all add: bind_sum_def)

primrec map_sum_list :: "('a \<Rightarrow> 'e + 'b) \<Rightarrow> 'a list \<Rightarrow> 'e + 'b list" where
  "map_sum_list f [] = Inr []"
| "map_sum_list f (x # xs) = bind_sum (f x) (\<lambda>y. bind_sum (map_sum_list f xs) (\<lambda>ys. Inr (y # ys)))"

primrec filter_sum :: "('a \<Rightarrow> 'e + bool) \<Rightarrow> 'a list \<Rightarrow> 'e + 'a list" where
  "filter_sum p [] = Inr []"
| "filter_sum p (x # xs) =
     bind_sum (p x) (\<lambda>b. bind_sum (filter_sum p xs) (\<lambda>ys. Inr (if b then x # ys else ys)))"

lemma bind_sum_Inr: "bind_sum x f = Inr b \<longleftrightarrow> (\<exists>a. x = Inr a \<and> f a = Inr b)"
  by (cases x) auto

lemma bind_sum_Inl: "bind_sum x f = Inl e \<longleftrightarrow> x = Inl e \<or> (\<exists>a. x = Inr a \<and> f a = Inl e)"
  by (cases x) auto

lemma map_sum_list_total: "(\<And>x. x \<in> set xs \<Longrightarrow> f x = Inr (g x)) \<Longrightarrow> map_sum_list f xs = Inr (map g xs)"
  by (induction xs) auto

lemma filter_sum_total: "(\<And>x. x \<in> set xs \<Longrightarrow> p x = Inr (q x)) \<Longrightarrow> filter_sum p xs = Inr (filter q xs)"
  by (induction xs) auto


section \<open>Machines with an invariant\<close>

text \<open>
  A component whose operations are a step function over events: an invariant that holds
  initially and is kept by each step holds after every run.
\<close>

primrec run_events :: "('s \<Rightarrow> 'e \<Rightarrow> 's) \<Rightarrow> 's \<Rightarrow> 'e list \<Rightarrow> 's" where
  "run_events step s [] = s"
| "run_events step s (e # es) = run_events step (step s e) es"

lemma run_events_append: "run_events step s (xs @ ys) = run_events step (run_events step s xs) ys"
  by (induction xs arbitrary: s) auto

locale event_machine =
  fixes step :: "'s \<Rightarrow> 'e \<Rightarrow> 's"
    and inv :: "'s \<Rightarrow> bool"
  assumes step_inv: "inv s \<Longrightarrow> inv (step s e)"
begin

lemma run_inv: "inv s \<Longrightarrow> inv (run_events step s es)"
  by (induction es arbitrary: s) (auto intro: step_inv)

end

end
