(* ===== verification/Step_Path.thy ===== *)
theory Step_Path
  imports Prelude
begin

text \<open>
  Model of \<open>src/scriptcat-engine/step-path.ts\<close>: the position of a step in the step tree of a
  rule, its successor and predecessor at the deepest level, and the depth-first comparison the
  resume checks use. Child indices are \<open>int\<close> because the rollback of a first child yields
  \<open>-1\<close>, which the source allows.
\<close>

section \<open>Frames and paths\<close>

datatype if_branch = ThenBranch | ElseBranch

datatype step_path_frame =
    TopFrame (childIdx: int)
  | IfFrame (branch: if_branch) (childIdx: int)
  | LoopFrame (iter: int) (childIdx: int)
  | SwitchFrame (caseIdx: int) (childIdx: int)
  | GroupFrame (childIdx: int)

type_synonym step_path = "step_path_frame list"

definition EMPTY_PATH :: step_path where
  "EMPTY_PATH = []"

text \<open>The object spread \<open>{ ...last, childIdx: n }\<close>.\<close>

fun with_childIdx :: "step_path_frame \<Rightarrow> int \<Rightarrow> step_path_frame" where
  "with_childIdx (TopFrame _) n = TopFrame n"
| "with_childIdx (IfFrame b _) n = IfFrame b n"
| "with_childIdx (LoopFrame i _) n = LoopFrame i n"
| "with_childIdx (SwitchFrame c _) n = SwitchFrame c n"
| "with_childIdx (GroupFrame _) n = GroupFrame n"

definition nextPendingPath :: "step_path \<Rightarrow> step_path" where
  "nextPendingPath prev =
     (if prev = [] then [TopFrame 0]
      else butlast prev @ [with_childIdx (last prev) (childIdx (last prev) + 1)])"

definition prevPendingPath :: "step_path \<Rightarrow> step_path" where
  "prevPendingPath path =
     (if path = [] then EMPTY_PATH
      else butlast path @ [with_childIdx (last path) (childIdx (last path) - 1)])"


section \<open>Comparison\<close>

fun frameTuple :: "step_path_frame \<Rightarrow> int list" where
  "frameTuple (TopFrame n) = [0, n]"
| "frameTuple (IfFrame b n) = [1, (case b of ThenBranch \<Rightarrow> 0 | ElseBranch \<Rightarrow> 1), n]"
| "frameTuple (LoopFrame i n) = [2, i, n]"
| "frameTuple (SwitchFrame c n) = [3, c, n]"
| "frameTuple (GroupFrame n) = [4, n]"

text \<open>
  The loop over the common prefix followed by the comparison of the lengths, for tuples of
  numbers and, with the frame comparison as the element comparison, for paths.
\<close>

fun compareLex :: "('a \<Rightarrow> 'a \<Rightarrow> int) \<Rightarrow> 'a list \<Rightarrow> 'a list \<Rightarrow> int" where
  "compareLex cmp [] [] = 0"
| "compareLex cmp [] (y # ys) = -1"
| "compareLex cmp (x # xs) [] = 1"
| "compareLex cmp (x # xs) (y # ys) =
     (let c = cmp x y in if c \<noteq> 0 then c else compareLex cmp xs ys)"

definition compareNumber :: "int \<Rightarrow> int \<Rightarrow> int" where
  "compareNumber a b = (if a < b then -1 else if a > b then 1 else 0)"

definition compareFrame :: "step_path_frame \<Rightarrow> step_path_frame \<Rightarrow> int" where
  "compareFrame a b = compareLex compareNumber (frameTuple a) (frameTuple b)"

definition comparePath :: "step_path \<Rightarrow> step_path \<Rightarrow> int" where
  "comparePath a b = compareLex compareFrame a b"


section \<open>Formatting\<close>

definition digit_of :: "nat \<Rightarrow> char" where
  "digit_of n = ''0123456789'' ! n"

fun show_digits :: "nat \<Rightarrow> string" where
  "show_digits n = (if n < 10 then [digit_of n] else show_digits (n div 10) @ [digit_of (n mod 10)])"

declare show_digits.simps [simp del]

definition show_int :: "int \<Rightarrow> string" where
  "show_int i = (if i < 0 then ''-'' @ show_digits (nat (- i)) else show_digits (nat i))"

fun formatFrame :: "step_path_frame \<Rightarrow> string" where
  "formatFrame (TopFrame n) = ''top['' @ show_int n @ '']''"
| "formatFrame (IfFrame b n) =
     ''if.'' @ (case b of ThenBranch \<Rightarrow> ''then'' | ElseBranch \<Rightarrow> ''else'') @ ''['' @ show_int n @ '']''"
| "formatFrame (LoopFrame i n) = ''loop{iter='' @ show_int i @ ''}['' @ show_int n @ '']''"
| "formatFrame (SwitchFrame c n) = ''switch{case='' @ show_int c @ ''}['' @ show_int n @ '']''"
| "formatFrame (GroupFrame n) = ''group['' @ show_int n @ '']''"

primrec join_strings :: "string \<Rightarrow> string list \<Rightarrow> string" where
  "join_strings sep [] = []"
| "join_strings sep (x # xs) = (case xs of [] \<Rightarrow> x | _ \<Rightarrow> x @ sep @ join_strings sep xs)"

definition formatPath :: "step_path \<Rightarrow> string" where
  "formatPath path = (if path = [] then ''<empty>'' else join_strings ''/'' (map formatFrame path))"


section \<open>The comparison is a total order\<close>

text \<open>A lexicographic comparison inherits the order laws of the comparison of its elements.\<close>

lemma compareLex_zero:
  assumes "\<And>x y. cmp x y = 0 \<longleftrightarrow> x = y"
  shows "compareLex cmp xs ys = 0 \<longleftrightarrow> xs = ys"
proof (induction xs arbitrary: ys)
  case Nil
  then show ?case by (cases ys) auto
next
  case (Cons x xs)
  then show ?case using assms by (cases ys) (auto simp: Let_def)
qed

lemma compareLex_swap:
  assumes "\<And>x y. cmp y x = - cmp x y"
  shows "compareLex cmp ys xs = - compareLex cmp xs ys"
proof (induction xs arbitrary: ys)
  case Nil
  then show ?case by (cases ys) auto
next
  case (Cons x xs)
  note IH = Cons.IH
  show ?case
  proof (cases ys)
    case (Cons y ys')
    then show ?thesis
      using IH [of ys'] assms [of y x] by (simp add: Let_def)
  qed simp
qed

lemma compareLex_trans:
  assumes zero: "\<And>x y. cmp x y = 0 \<longleftrightarrow> x = y"
    and trans: "\<And>x y z. cmp x y < 0 \<Longrightarrow> cmp y z < 0 \<Longrightarrow> cmp x z < 0"
  shows "compareLex cmp xs ys < 0 \<Longrightarrow> compareLex cmp ys zs < 0 \<Longrightarrow> compareLex cmp xs zs < 0"
proof (induction xs arbitrary: ys zs)
  case Nil
  then show ?case by (cases ys; cases zs) auto
next
  case (Cons x xs)
  obtain y ys' where ys: "ys = y # ys'"
    using Cons.prems(1) by (cases ys) auto
  obtain z zs' where zs: "zs = z # zs'"
    using Cons.prems(2) ys by (cases zs) auto
  show ?case
  proof (cases "x = y \<and> y = z")
    case True
    then have "cmp x y = 0" "cmp y z = 0" "cmp x z = 0"
      using zero by auto
    then show ?thesis
      using Cons.prems Cons.IH [of ys' zs'] ys zs by simp
  next
    case False
    have "cmp x y \<le> 0" "cmp y z \<le> 0"
      using Cons.prems ys zs by (auto simp: Let_def split: if_splits)
    then have "cmp x z < 0"
      using False zero trans by (metis less_le)
    then show ?thesis using zs by simp
  qed
qed

lemma total_compare_compareLex:
  assumes "total_compare cmp"
  shows "total_compare (compareLex cmp)"
proof -
  note laws = total_compare.cmp_zero [OF assms] total_compare.cmp_swap [OF assms]
    total_compare.cmp_trans [OF assms]
  show ?thesis
    by unfold_locales
      (use laws compareLex_zero [of cmp] compareLex_swap [of cmp] compareLex_trans [of cmp]
        in \<open>metis+\<close>)
qed

interpretation number: total_compare compareNumber
  by unfold_locales (auto simp: compareNumber_def split: if_splits)

lemma frameTuple_inject: "frameTuple f = frameTuple g \<longleftrightarrow> f = g"
  by (cases f; cases g) (auto split: if_branch.splits)

interpretation tuple: total_compare "compareLex compareNumber"
  by (rule total_compare_compareLex) (rule number.total_compare_axioms)

interpretation frame: total_compare compareFrame
proof
  fix a b c
  show "compareFrame a b = 0 \<longleftrightarrow> a = b"
    by (simp add: compareFrame_def tuple.cmp_zero frameTuple_inject)
  show "compareFrame b a = - compareFrame a b"
    unfolding compareFrame_def by (rule tuple.cmp_swap)
  show "compareFrame a b < 0 \<Longrightarrow> compareFrame b c < 0 \<Longrightarrow> compareFrame a c < 0"
    unfolding compareFrame_def by (rule tuple.cmp_trans)
qed

interpretation path: total_compare comparePath
proof -
  have "comparePath = compareLex compareFrame"
    by (intro ext) (simp add: comparePath_def)
  then show "total_compare comparePath"
    using total_compare_compareLex [OF frame.total_compare_axioms] by simp
qed



section \<open>Successor and predecessor of a position\<close>

lemma childIdx_with_childIdx [path_simps]: "childIdx (with_childIdx f n) = n"
  by (cases f) auto

lemma with_childIdx_twice [path_simps]: "with_childIdx (with_childIdx f m) n = with_childIdx f n"
  by (cases f) auto

lemma with_childIdx_same [path_simps]: "with_childIdx f (childIdx f) = f"
  by (cases f) auto

lemma nextPendingPath_snoc [path_simps]:
  "nextPendingPath (b @ [f]) = b @ [with_childIdx f (childIdx f + 1)]"
  by (simp add: nextPendingPath_def)

lemma prevPendingPath_snoc [path_simps]:
  "prevPendingPath (b @ [f]) = b @ [with_childIdx f (childIdx f - 1)]"
  by (simp add: prevPendingPath_def)

lemma compareLex_same_prefix:
  assumes "total_compare cmp"
  shows "compareLex cmp (b @ xs) (b @ ys) = compareLex cmp xs ys"
  using total_compare.cmp_self [OF assms] by (induction b) (auto simp: Let_def)

lemma comparePath_same_prefix [path_simps]: "comparePath (b @ xs) (b @ ys) = comparePath xs ys"
  unfolding comparePath_def by (rule compareLex_same_prefix) (rule frame.total_compare_axioms)

lemma comparePath_Nil [path_simps]:
  "comparePath [] q = (if q = [] then 0 else -1)" "comparePath p [] = (if p = [] then 0 else 1)"
  by (cases q; simp add: comparePath_def) (cases p; simp add: comparePath_def)

lemma comparePath_Cons [path_simps]:
  "comparePath (f # p) (g # q) = (if compareFrame f g \<noteq> 0 then compareFrame f g else comparePath p q)"
  by (simp add: comparePath_def Let_def)

lemma compareFrame_with_childIdx [path_simps]:
  "compareFrame f (with_childIdx f n) = compareNumber (childIdx f) n"
  "compareFrame (with_childIdx f n) f = compareNumber n (childIdx f)"
  by (cases f; simp add: compareFrame_def compareNumber_def)+

text \<open>Nothing lies strictly between a frame and the frame of the next child.\<close>

lemma compareFrame_discrete:
  assumes "compareFrame f g \<le> 0" and "compareFrame g (with_childIdx f (childIdx f + 1)) \<le> 0"
  shows "g = f \<or> g = with_childIdx f (childIdx f + 1)"
  using assms
  by (cases f; cases g)
    (auto simp: compareFrame_def compareNumber_def Let_def split: if_splits if_branch.splits)

lemma comparePath_between_prefix:
  assumes "comparePath (b @ [f]) q < 0" and "comparePath q (b @ [g]) < 0"
  shows "\<exists>q'. q = b @ q' \<and> comparePath [f] q' < 0 \<and> comparePath q' [g] < 0"
  using assms
proof (induction b arbitrary: q)
  case Nil
  then show ?case by simp
next
  case (Cons x b)
  obtain y q2 where q: "q = y # q2"
    using Cons.prems(1) by (cases q) (auto simp: path_simps)
  have "compareFrame x y \<le> 0" "compareFrame y x \<le> 0"
    using Cons.prems q by (auto simp: path_simps split: if_splits)
  then have "compareFrame x y = 0"
    using frame.cmp_swap [of x y] by linarith
  then have "x = y" by (simp add: frame.cmp_zero)
  then show ?case
    using Cons q by (auto simp: path_simps frame.cmp_self)
qed

lemma comparePath_descendant: "r \<noteq> [] \<Longrightarrow> comparePath p (p @ r) < 0"
  using comparePath_same_prefix [of p "[]" r] by (simp add: path_simps)

lemma comparePath_before_next:
  "comparePath (b @ f # r) (b @ [with_childIdx f (childIdx f + 1)]) < 0"
  by (simp add: path_simps compareNumber_def)

text \<open>The three-way comparison of step paths that the checkpoint guards rest on is a total
  order: zero exactly on equal paths, antisymmetric, and transitive.\<close>

theorem comparePath_total_order:
  "(comparePath a b = 0 \<longleftrightarrow> a = b)
   \<and> comparePath b a = - comparePath a b
   \<and> comparePath a b \<in> {-1, 0, 1}
   \<and> (comparePath a b < 0 \<longrightarrow> comparePath b c < 0 \<longrightarrow> comparePath a c < 0)"
proof -
  have "compareFrame f g \<in> {-1, 0, 1}" for f g
    by (cases f; cases g) (auto simp: compareFrame_def compareNumber_def Let_def)
  then have "compareLex compareFrame xs ys \<in> {-1, 0, 1}" for xs ys
    by (induction compareFrame xs ys rule: compareLex.induct) (auto simp: Let_def)
  then have range: "comparePath a b \<in> {-1, 0, 1}"
    by (simp add: comparePath_def)
  show ?thesis
    by (intro conjI impI path.cmp_zero path.cmp_swap range; erule path.cmp_trans; assumption)
qed

theorem comparePath_total_order_witness:
  "comparePath [TopFrame 0] [TopFrame 1, GroupFrame 0] < 0
   \<and> comparePath [TopFrame 1, GroupFrame 0] [TopFrame 2] < 0
   \<and> comparePath [TopFrame 0] [TopFrame 2] < 0"
proof -
  have a: "comparePath [TopFrame 0] [TopFrame 1, GroupFrame 0] < 0"
    and b: "comparePath [TopFrame 1, GroupFrame 0] [TopFrame 2] < 0"
    by (simp_all add: comparePath_def compareFrame_def compareNumber_def)
  show ?thesis
    using a b comparePath_total_order
      [of "[TopFrame 0]" "[TopFrame 1, GroupFrame 0]" "[TopFrame 2]"] by blast
qed

text \<open>The pending path computed from a completed step is its immediate successor: the only
  positions strictly between the two are the descendants of the completed step, so resuming at
  the pending path skips exactly the completed step and what it contains.\<close>

theorem nextPendingPath_successor:
  assumes "p \<noteq> []"
  shows "comparePath p q < 0 \<and> comparePath q (nextPendingPath p) < 0
     \<longleftrightarrow> (\<exists>r. r \<noteq> [] \<and> q = p @ r)"
proof -
  obtain b f where p: "p = b @ [f]"
    using assms by (metis rev_exhaust)
  show ?thesis
  proof
    assume "comparePath p q < 0 \<and> comparePath q (nextPendingPath p) < 0"
    then obtain q' where q': "q = b @ q'" "comparePath [f] q' < 0"
        "comparePath q' [with_childIdx f (childIdx f + 1)] < 0"
      using comparePath_between_prefix [of b f q] p by (auto simp: path_simps)
    then obtain g r where g: "q' = g # r"
      by (cases q') (auto simp: path_simps)
    have "g = f \<and> r \<noteq> []"
      using q' g compareFrame_discrete [of f g]
      by (auto simp: path_simps compareNumber_def frame.cmp_self split: if_splits)
    then show "\<exists>r. r \<noteq> [] \<and> q = p @ r"
      using q'(1) g p by auto
  next
    assume "\<exists>r. r \<noteq> [] \<and> q = p @ r"
    then obtain r where r: "r \<noteq> []" "q = p @ r" by blast
    then have q: "q = b @ f # r" using p by simp
    have "comparePath p q < 0"
      unfolding r(2) by (rule comparePath_descendant) (rule r(1))
    moreover have "comparePath q (nextPendingPath p) < 0"
      unfolding q p nextPendingPath_snoc by (rule comparePath_before_next)
    ultimately show "comparePath p q < 0 \<and> comparePath q (nextPendingPath p) < 0" ..
  qed
qed

theorem nextPendingPath_successor_witness:
  "[TopFrame 2] \<noteq> []
   \<and> (comparePath [TopFrame 2] [TopFrame 2, LoopFrame 3 0] < 0
      \<and> comparePath [TopFrame 2, LoopFrame 3 0] (nextPendingPath [TopFrame 2]) < 0)"
  using nextPendingPath_successor [of "[TopFrame 2]" "[TopFrame 2, LoopFrame 3 0]"] by simp

text \<open>The rollback of a failed step undoes the advance to the pending step, and the
  advance is strict: a failed navigation step is retried, not skipped.\<close>

theorem prev_next_roundtrip:
  "p \<noteq> [] \<Longrightarrow> prevPendingPath (nextPendingPath p) = p \<and> nextPendingPath (prevPendingPath p) = p
     \<and> comparePath (prevPendingPath p) p = -1 \<and> comparePath p (nextPendingPath p) = -1"
  by (cases p rule: rev_cases) (auto simp: path_simps compareNumber_def)

theorem prev_next_roundtrip_witness:
  "[TopFrame 0, IfFrame ThenBranch 0] \<noteq> []
   \<and> prevPendingPath [TopFrame 0, IfFrame ThenBranch 0] = [TopFrame 0, IfFrame ThenBranch (-1)]
   \<and> nextPendingPath [TopFrame 0, IfFrame ThenBranch (-1)] = [TopFrame 0, IfFrame ThenBranch 0]"
  using prev_next_roundtrip [of "[TopFrame 0, IfFrame ThenBranch 0]"]
  by (simp add: prevPendingPath_def)

end
