(* ===== verification/Js_Value.thy ===== *)
theory Js_Value
  imports Complex_Main Step_Path "HOL-Library.Char_ord"
begin

text \<open>
  The JavaScript values and the parts of the language's standard library the modelled code uses:
  property reads, truthiness, \<open>??\<close>, \<open>String(v)\<close>, \<open>Number(v)\<close>, string search, splitting and
  trimming. A string is the list of its code units (the model covers units below 256); a number is
  an exact rational or one of the three special values, so binary rounding is not modelled. An
  object is an association list of its own properties in insertion order.
\<close>

section \<open>Values\<close>

datatype jnum = Fin rat | NaN | PosInf | NegInf

datatype jval =
    JUndef
  | JNull
  | JBool bool
  | JNum jnum
  | JStr string
  | JArr "jval list"
  | JObj "(string \<times> jval) list"

type_synonym jobj = "(string \<times> jval) list"

abbreviation jint :: "int \<Rightarrow> jval" where
  "jint i \<equiv> JNum (Fin (of_int i))"

fun is_nullish :: "jval \<Rightarrow> bool" where
  "is_nullish JUndef = True"
| "is_nullish JNull = True"
| "is_nullish _ = False"

text \<open>\<open>a ?? b\<close>\<close>

definition coalesce :: "jval \<Rightarrow> jval \<Rightarrow> jval" where
  "coalesce a b = (if is_nullish a then b else a)"

fun truthy :: "jval \<Rightarrow> bool" where
  "truthy JUndef = False"
| "truthy JNull = False"
| "truthy (JBool b) = b"
| "truthy (JNum (Fin r)) = (r \<noteq> 0)"
| "truthy (JNum NaN) = False"
| "truthy (JNum _) = True"
| "truthy (JStr s) = (s \<noteq> [])"
| "truthy (JArr _) = True"
| "truthy (JObj _) = True"

fun is_string :: "jval \<Rightarrow> bool" where
  "is_string (JStr _) = True" | "is_string _ = False"

fun is_number :: "jval \<Rightarrow> bool" where
  "is_number (JNum _) = True" | "is_number _ = False"

fun is_boolean :: "jval \<Rightarrow> bool" where
  "is_boolean (JBool _) = True" | "is_boolean _ = False"

fun is_array :: "jval \<Rightarrow> bool" where
  "is_array (JArr _) = True" | "is_array _ = False"

text \<open>\<open>typeof v === 'object' \<and> v !== null \<and> !Array.isArray(v)\<close>\<close>

fun is_record :: "jval \<Rightarrow> bool" where
  "is_record (JObj _) = True" | "is_record _ = False"


section \<open>Numbers\<close>

fun num_is_finite :: "jnum \<Rightarrow> bool" where
  "num_is_finite (Fin _) = True" | "num_is_finite _ = False"

fun num_is_integer :: "jnum \<Rightarrow> bool" where
  "num_is_integer (Fin r) = (r = of_int \<lfloor>r\<rfloor>)" | "num_is_integer _ = False"

fun num_less :: "jnum \<Rightarrow> jnum \<Rightarrow> bool" where
  "num_less (Fin a) (Fin b) = (a < b)"
| "num_less NaN _ = False"
| "num_less _ NaN = False"
| "num_less NegInf y = (y \<noteq> NegInf)"
| "num_less x PosInf = (x \<noteq> PosInf)"
| "num_less _ _ = False"

fun num_le :: "jnum \<Rightarrow> jnum \<Rightarrow> bool" where
  "num_le NaN _ = False"
| "num_le _ NaN = False"
| "num_le x y = (x = y \<or> num_less x y)"


section \<open>Strings\<close>

definition digit_char :: "char \<Rightarrow> bool" where
  "digit_char c \<longleftrightarrow> CHR ''0'' \<le> c \<and> c \<le> CHR ''9''"

text \<open>White space and line terminators below 256.\<close>

definition ws_char :: "char \<Rightarrow> bool" where
  "ws_char c \<longleftrightarrow> of_char c \<in> {9, 10, 11, 12, 13, 32, 160 :: nat}"

definition js_trim :: "string \<Rightarrow> string" where
  "js_trim s = rev (dropWhile ws_char (rev (dropWhile ws_char s)))"

primrec js_includes :: "string \<Rightarrow> string \<Rightarrow> bool" where
  "js_includes [] n = (n = [])"
| "js_includes (c # cs) n = (prefix n (c # cs) \<or> js_includes cs n)"

definition js_startsWith :: "string \<Rightarrow> string \<Rightarrow> bool" where
  "js_startsWith s p = prefix p s"

definition js_endsWith :: "string \<Rightarrow> string \<Rightarrow> bool" where
  "js_endsWith s p = suffix p s"

text \<open>\<open>s.split(c)\<close> for a one-character separator\<close>

fun js_split :: "char \<Rightarrow> string \<Rightarrow> string list" where
  "js_split sep [] = [[]]"
| "js_split sep (c # cs) =
     (if c = sep then [] # js_split sep cs
      else (case js_split sep cs of [] \<Rightarrow> [[c]] | w # ws \<Rightarrow> (c # w) # ws))"

primrec fraction_digits :: "nat \<Rightarrow> rat \<Rightarrow> string" where
  "fraction_digits 0 r = []"
| "fraction_digits (Suc n) r =
     (if r = 0 then []
      else (let d = \<lfloor>10 * r\<rfloor> in digit_of (nat d) # fraction_digits n (10 * r - of_int d)))"

text \<open>Decimal notation; the digits after the point are cut after twenty places.\<close>

fun num_to_string :: "jnum \<Rightarrow> string" where
  "num_to_string NaN = ''NaN''"
| "num_to_string PosInf = ''Infinity''"
| "num_to_string NegInf = ''-Infinity''"
| "num_to_string (Fin r) =
     (if r = of_int \<lfloor>r\<rfloor> then show_int \<lfloor>r\<rfloor>
      else (if r < 0 then ''-'' else []) @ show_int \<lfloor>\<bar>r\<bar>\<rfloor> @ ''.''
             @ fraction_digits 20 (\<bar>r\<bar> - of_int \<lfloor>\<bar>r\<bar>\<rfloor>))"

text \<open>\<open>String(v)\<close>\<close>

fun js_String :: "jval \<Rightarrow> string"
  and js_join_elems :: "jval list \<Rightarrow> string" where
  "js_String JUndef = ''undefined''"
| "js_String JNull = ''null''"
| "js_String (JBool b) = (if b then ''true'' else ''false'')"
| "js_String (JNum n) = num_to_string n"
| "js_String (JStr s) = s"
| "js_String (JArr vs) = js_join_elems vs"
| "js_String (JObj _) = ''[object Object]''"
| "js_join_elems [] = []"
| "js_join_elems (v # vs) =
     (if is_nullish v then [] else js_String v) @ (if vs = [] then [] else '','' @ js_join_elems vs)"

definition digits_value :: "nat \<Rightarrow> (char \<Rightarrow> nat) \<Rightarrow> string \<Rightarrow> nat" where
  "digits_value b val s = foldl (\<lambda>n c. b * n + val c) 0 s"

definition dec_val :: "char \<Rightarrow> nat" where
  "dec_val c = of_char c - 48"

definition hex_val :: "char \<Rightarrow> nat option" where
  "hex_val c =
     (let n = of_char c :: nat in
      if 48 \<le> n \<and> n \<le> 57 then Some (n - 48)
      else if 97 \<le> n \<and> n \<le> 102 then Some (n - 87)
      else if 65 \<le> n \<and> n \<le> 70 then Some (n - 55) else None)"

definition radix_number :: "nat \<Rightarrow> string \<Rightarrow> jnum" where
  "radix_number b s =
     (if s \<noteq> [] \<and> list_all (\<lambda>c. case hex_val c of None \<Rightarrow> False | Some d \<Rightarrow> d < b) s
      then Fin (of_nat (digits_value b (\<lambda>c. the (hex_val c)) s)) else NaN)"

definition exponent_part :: "string \<Rightarrow> int option" where
  "exponent_part s =
     (case s of [] \<Rightarrow> Some 0
      | c # rest \<Rightarrow>
          if c \<noteq> CHR ''e'' \<and> c \<noteq> CHR ''E'' then None
          else (let (neg, ds) = (case rest of
                       CHR ''-'' # ds \<Rightarrow> (True, ds) | CHR ''+'' # ds \<Rightarrow> (False, ds) | _ \<Rightarrow> (False, rest))
                in if ds \<noteq> [] \<and> list_all digit_char ds
                   then Some ((if neg then -1 else 1) * int (digits_value 10 dec_val ds)) else None))"

definition decimal_number :: "string \<Rightarrow> jnum" where
  "decimal_number s =
     (let ip = takeWhile digit_char s; r1 = dropWhile digit_char s;
          (fp, r2) = (case r1 of CHR ''.'' # t \<Rightarrow> (takeWhile digit_char t, dropWhile digit_char t)
                      | _ \<Rightarrow> ([], r1))
      in if ip = [] \<and> fp = [] then NaN
         else (case exponent_part r2 of
                 None \<Rightarrow> NaN
               | Some e \<Rightarrow>
                   let m = of_nat (digits_value 10 dec_val (ip @ fp)) :: rat;
                       k = e - int (length fp)
                   in Fin (if 0 \<le> k then m * 10 ^ nat k else m / 10 ^ nat (- k))))"

fun num_negate :: "jnum \<Rightarrow> jnum" where
  "num_negate (Fin r) = Fin (- r)"
| "num_negate NaN = NaN"
| "num_negate PosInf = NegInf"
| "num_negate NegInf = PosInf"

definition signless_number :: "string \<Rightarrow> jnum" where
  "signless_number s = (if s = ''Infinity'' then PosInf else decimal_number s)"

definition string_to_number :: "string \<Rightarrow> jnum" where
  "string_to_number str =
     (case js_trim str of
        [] \<Rightarrow> Fin 0
      | CHR ''0'' # CHR ''x'' # t \<Rightarrow> radix_number 16 t
      | CHR ''0'' # CHR ''X'' # t \<Rightarrow> radix_number 16 t
      | CHR ''0'' # CHR ''o'' # t \<Rightarrow> radix_number 8 t
      | CHR ''0'' # CHR ''O'' # t \<Rightarrow> radix_number 8 t
      | CHR ''0'' # CHR ''b'' # t \<Rightarrow> radix_number 2 t
      | CHR ''0'' # CHR ''B'' # t \<Rightarrow> radix_number 2 t
      | CHR ''-'' # t \<Rightarrow> num_negate (signless_number t)
      | CHR ''+'' # t \<Rightarrow> signless_number t
      | t \<Rightarrow> signless_number t)"

text \<open>\<open>Number(v)\<close>: arrays and objects go through their string form.\<close>

fun js_Number :: "jval \<Rightarrow> jnum" where
  "js_Number JUndef = NaN"
| "js_Number JNull = Fin 0"
| "js_Number (JBool b) = Fin (if b then 1 else 0)"
| "js_Number (JNum n) = n"
| "js_Number (JStr s) = string_to_number s"
| "js_Number v = string_to_number (js_String v)"


section \<open>Properties\<close>

definition obj_get :: "jobj \<Rightarrow> string \<Rightarrow> jval" where
  "obj_get o' k = (case map_of o' k of None \<Rightarrow> JUndef | Some v \<Rightarrow> v)"

definition obj_has :: "jobj \<Rightarrow> string \<Rightarrow> bool" where
  "obj_has o' k = (map_of o' k \<noteq> None)"

text \<open>The methods every object inherits\<close>

definition prototype_methods :: "string list" where
  "prototype_methods = [''constructor'', ''hasOwnProperty'', ''isPrototypeOf'', ''propertyIsEnumerable'',
     ''toLocaleString'', ''toString'', ''valueOf'', ''__defineGetter__'', ''__defineSetter__'',
     ''__lookupGetter__'', ''__lookupSetter__'']"

text \<open>\<open>key in data\<close>\<close>

definition key_in :: "string \<Rightarrow> jobj \<Rightarrow> bool" where
  "key_in k d \<longleftrightarrow> obj_has d k \<or> k \<in> set prototype_methods \<or> k = ''__proto__''"

text \<open>A canonical array index: \<open>0\<close> or digits without a leading zero.\<close>

definition array_index :: "string \<Rightarrow> nat option" where
  "array_index k =
     (if k \<noteq> [] \<and> list_all digit_char k \<and> (hd k \<noteq> CHR ''0'' \<or> k = ''0'')
      then Some (digits_value 10 dec_val k) else None)"

text \<open>\<open>v[k]\<close> on a value that is neither \<open>null\<close> nor \<open>undefined\<close>, own properties only\<close>

fun get_prop :: "jval \<Rightarrow> string \<Rightarrow> jval" where
  "get_prop (JObj o') k = obj_get o' k"
| "get_prop (JArr vs) k =
     (if k = ''length'' then jint (int (length vs))
      else (case array_index k of
              Some i \<Rightarrow> if i < length vs then vs ! i else JUndef | None \<Rightarrow> JUndef))"
| "get_prop (JStr s) k =
     (if k = ''length'' then jint (int (length s))
      else (case array_index k of
              Some i \<Rightarrow> if i < length s then JStr [s ! i] else JUndef | None \<Rightarrow> JUndef))"
| "get_prop _ k = JUndef"

text \<open>\<open>Array.prototype.slice(0, n)\<close> and \<open>String.prototype.slice(0, n)\<close> are \<^const>\<open>take\<close>.\<close>


section \<open>Facts\<close>

lemma size_field: "(k, v) \<in> set fs \<Longrightarrow> size v < size (JObj fs)"
  by (induction fs) auto

lemma size_elem: "v \<in> set vs \<Longrightarrow> size v < size (JArr vs)"
  by (induction vs) auto

lemma size_obj_get: "obj_get fs k = v \<Longrightarrow> v \<noteq> JUndef \<Longrightarrow> size v < size (JObj fs)"
  by (auto simp: obj_get_def split: option.splits dest!: map_of_SomeD size_field)

lemma obj_get_set [js_simps]: "obj_get (al_set k v o') j = (if j = k then v else obj_get o' j)"
  by (simp add: obj_get_def)

lemma obj_has_set [js_simps]: "obj_has (al_set k v o') j = (j = k \<or> obj_has o' j)"
  by (simp add: obj_has_def)

lemma obj_get_remove [js_simps]: "obj_get (al_remove k o') j = (if j = k then JUndef else obj_get o' j)"
  by (simp add: obj_get_def)

lemma js_includes_iff: "js_includes s n \<longleftrightarrow> (\<exists>a b. s = a @ n @ b)"
proof
  show "js_includes s n \<Longrightarrow> \<exists>a b. s = a @ n @ b"
  proof (induction s)
    case (Cons c cs)
    then consider "prefix n (c # cs)" | "js_includes cs n" by auto
    then show ?case
    proof cases
      case 1
      then show ?thesis by (metis append_Nil prefixE)
    next
      case 2
      then show ?thesis using Cons.IH by (metis append_Cons)
    qed
  qed simp
  show "\<exists>a b. s = a @ n @ b \<Longrightarrow> js_includes s n"
  proof (induction s)
    case (Cons c cs)
    note IH = Cons.IH
    obtain a b where ab: "c # cs = a @ n @ b" using Cons.prems by blast
    show ?case
    proof (cases a)
      case Nil
      then have "prefix n (c # cs)" using ab by simp
      then show ?thesis by simp
    next
      case (Cons d a')
      then have "\<exists>a b. cs = a @ n @ b" using ab by auto
      then show ?thesis using IH by simp
    qed
  qed simp
qed

lemma js_split_nonempty [simp]: "js_split sep s \<noteq> []"
  by (cases s) (auto split: list.split)

lemma js_split_plain: "sep \<notin> set x \<Longrightarrow> js_split sep x = [x]"
  by (induction x) auto

lemma js_split_append: "js_split sep (a @ sep # b) = js_split sep a @ js_split sep b"
  by (induction a) (auto split: list.split)

lemma js_split_snoc: "sep \<notin> set x \<Longrightarrow> js_split sep (a @ [sep] @ x) = js_split sep a @ [x]"
  by (simp add: js_split_append js_split_plain)

lemma join_split: "join_strings [sep] (js_split sep s) = s"
proof (induction s)
  case (Cons c cs)
  have "js_split sep cs \<noteq> []" by (cases cs) (auto split: list.splits)
  then obtain w ws where w: "js_split sep cs = w # ws" by (cases "js_split sep cs") auto
  show ?case
  proof (cases "c = sep")
    case True
    then show ?thesis using Cons w by simp
  next
    case False
    then show ?thesis using Cons w by (cases ws) auto
  qed
qed simp

end
