(* ===== verification/Rule_Types.thy ===== *)
theory Rule_Types
  imports Js_Value
begin

text \<open>
  Model of the rule language, \<open>src/rule-engine/types/action.ts\<close>. The fields every action shares
  (\<open>BaseAction\<close>) are a record. The flow-control actions, whose bodies the runtime enters itself,
  are constructors of their own; every other action is a \<open>Leaf\<close>: its \<open>action\<close> string, its own
  fields as an object (the handlers read them as \<open>any\<close>), and its fields that hold arrays of
  steps (\<open>retry.steps\<close>, \<open>requestHuman.then\<close>, \<open>circuitBreaker.onOpen\<close>, \<dots>). Times, counts and
  attempt numbers are whole numbers.
\<close>

section \<open>Shared fields\<close>

text \<open>\<open>Target\<close>: an open object, since it is merged and interpolated field by field.\<close>

type_synonym target = jobj

datatype retry_delay = DelayMs int | DelayRange int int

record retry_config =
  maxAttempts :: int
  delay :: "retry_delay option"
  backoff :: "string option"
  retryOn :: "string list option"

text \<open>\<open>number | RetryConfig\<close>, where the configuration read from a rule may lack \<open>maxAttempts\<close>.\<close>

datatype retry_spec =
    RetryNumber int
  | RetryObject "int option" "retry_delay option" "string option" "string list option"

record rule_condition =
  condType :: string
  condTarget :: "target option"
  condText :: jval
  condPattern :: jval
  condValue :: jval
  condScript :: "string option"
  condTimeout :: "int option"
  idleTime :: "int option"

record base_action =
  stepId :: "string option"
  timeout :: "int option"
  softTimeout :: "int option"
  hardTimeout :: "int option"
  retry :: "retry_spec option"
  onError :: "string option"
  critical :: bool
  checkpointBefore :: bool
  condition :: "rule_condition option"
  trusted :: bool

definition empty_base :: base_action where
  "empty_base = \<lparr>stepId = None, timeout = None, softTimeout = None, hardTimeout = None,
     retry = None, onError = None, critical = False, checkpointBefore = False,
     condition = None, trusted = False\<rparr>"


section \<open>Actions\<close>

datatype loop_kind =
    FixedCount jval
  | WhileElementExists "target option"
  | WhileElementNotExists "target option"
  | WhileCondition "rule_condition option"
  | ForEach jval
  | OtherLoop string

datatype action =
    Leaf (base: base_action) string jobj "(string \<times> action list) list"
  | IfA (base: base_action) rule_condition "action list" "action list option"
  | LoopA (base: base_action) loop_kind "int option" "action list"
  | SwitchA (base: base_action) string "(jval \<times> action list option) list option" "action list option"
  | GroupA (base: base_action) "action list"

text \<open>The discriminating string \<open>action.action\<close>\<close>

fun actionType :: "action \<Rightarrow> string" where
  "actionType (Leaf _ t _ _) = t"
| "actionType (IfA _ _ _ _) = ''if''"
| "actionType (LoopA _ _ _ _) = ''loop''"
| "actionType (SwitchA _ _ _ _) = ''switch''"
| "actionType (GroupA _ _) = ''group''"

fun loopType :: "loop_kind \<Rightarrow> string" where
  "loopType (FixedCount _) = ''fixedCount''"
| "loopType (WhileElementExists _) = ''whileElementExists''"
| "loopType (WhileElementNotExists _) = ''whileElementNotExists''"
| "loopType (WhileCondition _) = ''whileCondition''"
| "loopType (ForEach _) = ''forEach''"
| "loopType (OtherLoop t) = t"

text \<open>A field of the action object that is neither a base field nor an array of steps\<close>

fun leafField :: "action \<Rightarrow> string \<Rightarrow> jval" where
  "leafField (Leaf _ _ fs _) k = obj_get fs k"
| "leafField _ k = JUndef"


section \<open>Rules\<close>

record send_policy =
  batchSize :: "int option"
  flushInterval :: "int option"
  sendOnFailure :: "bool option"

record rule_hooks =
  beforeAll :: "action list option"
  afterAll :: "action list option"
  onErrorHook :: "action list option"
  cleanupHook :: "action list option"

record rule =
  ruleIdOf :: string
  version :: string
  domain :: "string list"
  entry :: "string option"
  ruleVariables :: jobj
  selectors :: jobj
  ruleHumanize :: "jval option"
  ruleRetry :: "retry_spec option"
  screenshotOnError :: bool
  outputSchema :: "jval option"
  outputOnInvalid :: "string option"
  sendPolicy :: "send_policy option"
  ruleTimeout :: "int option"
  maxRetries :: "int option"
  hooks :: rule_hooks
  steps :: "action list"

end
