(* ===== verification/Interpolation.thy ===== *)
theory Interpolation
  imports Rule_Types
begin

text \<open>
  Model of \<open>src/scriptcat-engine/utils.ts\<close>: resolution of \<open>{{expr}}\<close> templates against the
  runtime scopes, selector aliases, retry configuration and tolerant number parsing.
\<close>

section \<open>Scopes and expressions\<close>

text \<open>The part of the runtime context that templates can see; absent values are \<open>undefined\<close>.\<close>

record scope =
  variables :: jobj
  extracted :: jobj
  evaluated :: jobj
  captured :: jobj
  loopIndex :: jval
  loopItem :: jval
  pageInfo :: jval

text \<open>\<open>obj == null ? undefined : obj[key]\<close>, folded over the remaining path segments\<close>

definition safe_prop :: "jval \<Rightarrow> string \<Rightarrow> jval" where
  "safe_prop v k = (if is_nullish v then JUndef else get_prop v k)"

definition expression_root :: "string \<Rightarrow> 'a scope_scheme \<Rightarrow> jval" where
  "expression_root rootName ctx =
     (if rootName = ''loopItem'' then loopItem ctx
      else if rootName = ''variables'' then JObj (variables ctx)
      else if rootName = ''extracted'' then JObj (extracted ctx)
      else if rootName = ''evaluated'' then JObj (evaluated ctx)
      else if rootName = ''captured'' then JObj (captured ctx)
      else if rootName = ''page'' then pageInfo ctx
      else coalesce (coalesce (obj_get (variables ctx) rootName) (obj_get (extracted ctx) rootName))
             (obj_get (evaluated ctx) rootName))"

definition resolveExpression :: "string \<Rightarrow> 'a scope_scheme \<Rightarrow> jval" where
  "resolveExpression expr ctx =
     (let parts = js_split CHR ''.'' expr; rootName = hd parts in
      if rootName = ''loopIndex'' then loopIndex ctx
      else foldl safe_prop (expression_root rootName ctx) (tl parts))"


section \<open>Templates\<close>

text \<open>
  The pattern \<open>{{[^}]+}}\<close> at the head of a string: its inner text and what follows. The inner
  part is greedy and cannot contain a closing brace, so the match, if any, is unique.
\<close>

definition template_at :: "string \<Rightarrow> (string \<times> string) option" where
  "template_at s =
     (case s of
        CHR ''{'' # CHR ''{'' # t \<Rightarrow>
          (let body = takeWhile (\<lambda>c. c \<noteq> CHR ''}'') t; rest = dropWhile (\<lambda>c. c \<noteq> CHR ''}'') t in
           if body \<noteq> [] \<and> prefix ''}}'' rest then Some (body, drop 2 rest) else None)
      | _ \<Rightarrow> None)"

lemma template_at_shorter: "template_at s = Some (body, rest) \<Longrightarrow> length rest < length s"
proof -
  assume "template_at s = Some (body, rest)"
  then obtain t where "s = CHR ''{'' # CHR ''{'' # t"
      "rest = drop 2 (dropWhile (\<lambda>c. c \<noteq> CHR ''}'') t)"
    by (auto simp: template_at_def Let_def split: list.splits char.splits bool.splits if_splits)
  then show ?thesis
    using length_dropWhile_le [of "\<lambda>c. c \<noteq> CHR ''}''" t] by simp
qed

text \<open>\<open>value.replace(/.../g, f)\<close>\<close>

function replace_templates :: "(string \<Rightarrow> string) \<Rightarrow> string \<Rightarrow> string" where
  "replace_templates f s =
     (case template_at s of
        Some (body, rest) \<Rightarrow> f body @ replace_templates f rest
      | None \<Rightarrow> (case s of [] \<Rightarrow> [] | c # cs \<Rightarrow> c # replace_templates f cs))"
  by pat_completeness auto
termination
  by (relation "measure (\<lambda>(f, s). length s)") (auto dest: template_at_shorter)

declare replace_templates.simps [simp del]

definition resolve_template :: "'a scope_scheme \<Rightarrow> string \<Rightarrow> jval" where
  "resolve_template ctx body = coalesce (resolveExpression (js_trim body) ctx) (JStr [])"

definition interpolate_string :: "'a scope_scheme \<Rightarrow> string \<Rightarrow> jval" where
  "interpolate_string ctx s =
     (case template_at (js_trim s) of
        Some (body, []) \<Rightarrow> resolve_template ctx body
      | _ \<Rightarrow> JStr (replace_templates (\<lambda>body. js_String (resolve_template ctx body)) s))"

fun interpolate :: "'a scope_scheme \<Rightarrow> jval \<Rightarrow> jval"
  and interpolate_list :: "'a scope_scheme \<Rightarrow> jval list \<Rightarrow> jval list"
  and interpolate_fields :: "'a scope_scheme \<Rightarrow> jobj \<Rightarrow> jobj" where
  "interpolate ctx (JStr s) = interpolate_string ctx s"
| "interpolate ctx (JArr vs) = JArr (interpolate_list ctx vs)"
| "interpolate ctx (JObj fs) = JObj (interpolate_fields ctx fs)"
| "interpolate ctx v = v"
| "interpolate_list ctx [] = []"
| "interpolate_list ctx (v # vs) = interpolate ctx v # interpolate_list ctx vs"
| "interpolate_fields ctx [] = []"
| "interpolate_fields ctx ((k, v) # fs) = (k, interpolate ctx v) # interpolate_fields ctx fs"


section \<open>Selector aliases and retry configuration\<close>

text \<open>The own enumerable properties an object spread copies\<close>

definition spread_of :: "jval \<Rightarrow> jobj" where
  "spread_of v =
     (case v of
        JObj fs \<Rightarrow> fs
      | JArr vs \<Rightarrow> map (\<lambda>i. (show_int (int i), vs ! i)) [0..<length vs]
      | JStr s \<Rightarrow> map (\<lambda>i. (show_int (int i), JStr [s ! i])) [0..<length s]
      | _ \<Rightarrow> [])"

definition resolveSelectorAlias :: "target \<Rightarrow> jval \<Rightarrow> string + target" where
  "resolveSelectorAlias tgt sels =
     (case obj_get tgt ''$ref'' of
        JStr r \<Rightarrow>
          if js_trim r \<noteq> [] \<and> truthy sels
          then (let ref = get_prop sels r in
                if \<not> truthy ref then Inl (''Selector alias not found: '' @ r)
                else Inr (al_set ''$ref'' JUndef (al_merge (spread_of ref) tgt)))
          else Inr tgt
      | _ \<Rightarrow> Inr tgt)"

definition parseRetry :: "retry_spec option \<Rightarrow> int \<Rightarrow> int option \<Rightarrow> retry_config" where
  "parseRetry spec defaults maxCeiling =
     (let parsed =
        (case spec of
           None \<Rightarrow> \<lparr>maxAttempts = defaults, delay = None, backoff = None, retryOn = None\<rparr>
         | Some (RetryNumber n) \<Rightarrow> \<lparr>maxAttempts = n, delay = None, backoff = None, retryOn = None\<rparr>
         | Some (RetryObject m d b on) \<Rightarrow>
             \<lparr>maxAttempts = (case m of None \<Rightarrow> defaults | Some n \<Rightarrow> n),
              delay = d, backoff = b, retryOn = on\<rparr>)
      in case maxCeiling of
           None \<Rightarrow> parsed
         | Some c \<Rightarrow> parsed\<lparr>maxAttempts := min (maxAttempts parsed) c\<rparr>)"

text \<open>\<open>Math.floor(range[0] + Math.random() * (range[1] - range[0]))\<close> with the random draw as argument\<close>

definition randomBetween :: "rat \<Rightarrow> int \<Rightarrow> int \<Rightarrow> int" where
  "randomBetween draw lo hi = \<lfloor>of_int lo + draw * of_int (hi - lo)\<rfloor>"


section \<open>Tolerant number parsing\<close>

text \<open>
  The first match of an optional sign, a digit, a run of digits, commas and white space, and an
  optional decimal part.
\<close>

definition number_run_char :: "char \<Rightarrow> bool" where
  "number_run_char c \<longleftrightarrow> digit_char c \<or> c = CHR '','' \<or> ws_char c"

definition unsigned_match :: "string \<Rightarrow> string option" where
  "unsigned_match s =
     (case s of [] \<Rightarrow> None
      | c # cs \<Rightarrow>
          if \<not> digit_char c then None
          else (let run = takeWhile number_run_char cs; rest = dropWhile number_run_char cs;
                    dec = (case rest of CHR ''.'' # t \<Rightarrow> takeWhile digit_char t | _ \<Rightarrow> [])
                in Some (c # run @ (if dec = [] then [] else CHR ''.'' # dec))))"

definition signed_match :: "string \<Rightarrow> string option" where
  "signed_match s =
     (case s of
        [] \<Rightarrow> None
      | c # cs \<Rightarrow>
          if c = CHR ''+'' \<or> c = CHR ''-''
          then map_option (\<lambda>m. c # m) (unsigned_match cs)
          else unsigned_match s)"

primrec first_number_match :: "string \<Rightarrow> string option" where
  "first_number_match [] = None"
| "first_number_match (c # cs) =
     (case signed_match (c # cs) of Some m \<Rightarrow> Some m | None \<Rightarrow> first_number_match cs)"

fun toNumber :: "jval \<Rightarrow> jval" where
  "toNumber (JNum n) = JNum n"
| "toNumber (JStr s) =
     (case first_number_match s of
        None \<Rightarrow> JNull
      | Some m \<Rightarrow>
          (let parsed = string_to_number (filter (\<lambda>c. c \<noteq> CHR '','' \<and> \<not> ws_char c) m) in
           if num_is_finite parsed then JNum parsed else JNull))"
| "toNumber _ = JNull"

end
