(* ===== verification/Runtime.thy ===== *)
theory Runtime
  imports Interpolation
begin

text \<open>
  The runtime of the rule engine: \<open>src/scriptcat-engine/types.ts\<close> and \<open>signals.ts\<close>. The context
  of a run, the errors and control signals an action may raise, and the environment the host
  provides. An asynchronous function of the source that awaits each effect is a function from the
  state (the mutable context and the world behind the environment) to an outcome and the next
  state; a rejected promise is a \<open>Throw\<close>. The environment is a parameter: a record of arbitrary
  functions of that shape.
\<close>

section \<open>Signals, errors, outcomes\<close>

datatype flow_signal = BreakSignal | ContinueSignal

datatype run_status = Success | Failure | Cancelled

fun status_string :: "run_status \<Rightarrow> string" where
  "status_string Success = ''success''"
| "status_string Failure = ''failure''"
| "status_string Cancelled = ''cancelled''"

text \<open>
  What is thrown: an \<open>Error\<close> with its name and message, the error class of the HTTP transport
  with its message and status, or one of the two signal classes. The parameter property of \<open>ExitSignal\<close> replaces the message its superclass was given.
\<close>

datatype exn =
    JsError string string
  | HttpTransportError string int
  | FlowControlSignal flow_signal
  | ExitSignal run_status string

fun exn_message :: "exn \<Rightarrow> string" where
  "exn_message (JsError _ m) = m"
| "exn_message (HttpTransportError m _) = m"
| "exn_message (FlowControlSignal BreakSignal) = ''FlowControl:break''"
| "exn_message (FlowControlSignal ContinueSignal) = ''FlowControl:continue''"
| "exn_message (ExitSignal _ m) = m"

fun is_signal :: "exn \<Rightarrow> bool" where
  "is_signal (JsError _ _) = False"
| "is_signal (HttpTransportError _ _) = False"
| "is_signal (FlowControlSignal _) = True"
| "is_signal (ExitSignal _ _) = True"

fun is_abort :: "exn \<Rightarrow> bool" where
  "is_abort (JsError n _) = (n = ''AbortError'')"
| "is_abort _ = False"

definition Error :: "string \<Rightarrow> exn" where
  "Error m = JsError ''Error'' m"

datatype 'a outcome = Ret 'a | Throw exn

record execution_error =
  errType :: string
  errMessage :: string
  errStepId :: "string option"
  errRetryCount :: "int option"
  recoverable :: bool

type_synonym step_result = "execution_error option"


section \<open>Context and environment\<close>

record checkpoint_record =
  cpStepId :: string
  cpUrl :: string
  cpVariables :: jobj
  cpExtracted :: jobj
  cpTimestamp :: int

record rule_defaults =
  defHumanize :: "jval option"
  defRetry :: "retry_spec option"
  defTimeout :: "int option"
  defMaxRetries :: "int option"

record runtime_context = scope +
  taskId :: string
  ruleId :: string
  ruleVersion :: string
  workerId :: string
  lastStepId :: "string option"
  lastError :: "execution_error option"
  checkpoint :: "checkpoint_record option"
  resultsSent :: nat
  logsSent :: nat
  tags :: "jobj option"
  ruleDefaults :: "rule_defaults option"

type_synonym 'w st = "runtime_context \<times> 'w"

type_synonym ('w, 'a) run = "'w st \<Rightarrow> 'a outcome \<times> 'w st"

text \<open>The two properties of a DOM element the conditions read\<close>

record element =
  textContent :: "string option"
  elValue :: jval

record human_request =
  reqType :: string
  reqPrompt :: string
  reqTimeoutMs :: int
  reqStepId :: string
  reqUrl :: string

record human_decision =
  decisionId :: string
  checkpointId :: string
  decisionStatus :: string

record 'w env =
  findElement :: "target \<Rightarrow> int \<Rightarrow> ('w, element option) run"
  sleepMs :: "int \<Rightarrow> ('w, unit) run"
  nowMs :: "'w st \<Rightarrow> int"
  getUrl :: "'w st \<Rightarrow> string"
  getTitle :: "'w st \<Rightarrow> string"
  evaluate :: "string \<Rightarrow> jobj \<Rightarrow> ('w, jval) run"
  saveSnapshot :: "string \<Rightarrow> string \<Rightarrow> ('w, jval) run"
  waitForNetworkIdle :: "(int \<Rightarrow> int \<Rightarrow> ('w, unit) run) option"
  aborted :: "'w st \<Rightarrow> bool"
  random :: "('w, rat) run"
  regexTest :: "string \<Rightarrow> string \<Rightarrow> string + bool"
  sendResult :: "jval \<Rightarrow> bool \<Rightarrow> ('w, unit) run"
  sendLog :: "string \<Rightarrow> string \<Rightarrow> jobj option \<Rightarrow> ('w, unit) run"
  sendStatus :: "string \<Rightarrow> string \<Rightarrow> ('w, unit) run"
  sendSnapshot :: "jval \<Rightarrow> ('w, unit) run"
  requestHuman :: "(human_request \<Rightarrow> ('w, human_decision) run) option"
  flushResults :: "('w, unit) run option"
  sendHeartbeat :: "jobj option \<Rightarrow> ('w, bool) run"
  fetchRule :: "string \<Rightarrow> ('w, rule option) run"


section \<open>Sequencing\<close>

definition returnR :: "'a \<Rightarrow> ('w, 'a) run" where
  "returnR a = (\<lambda>s. (Ret a, s))"

definition throwR :: "exn \<Rightarrow> ('w, 'a) run" where
  "throwR e = (\<lambda>s. (Throw e, s))"

definition bindR :: "('w, 'a) run \<Rightarrow> ('a \<Rightarrow> ('w, 'b) run) \<Rightarrow> ('w, 'b) run" where
  "bindR m k = (\<lambda>s. case m s of (Ret a, s') \<Rightarrow> k a s' | (Throw e, s') \<Rightarrow> (Throw e, s'))"

definition thenR :: "('w, unit) run \<Rightarrow> ('w, 'b) run \<Rightarrow> ('w, 'b) run" where
  "thenR m k = bindR m (\<lambda>_. k)"

text \<open>\<open>try m catch (err) { h err }\<close>\<close>

definition catchR :: "('w, 'a) run \<Rightarrow> (exn \<Rightarrow> ('w, 'a) run) \<Rightarrow> ('w, 'a) run" where
  "catchR m h = (\<lambda>s. case m s of (Ret a, s') \<Rightarrow> (Ret a, s') | (Throw e, s') \<Rightarrow> h e s')"

text \<open>A promise whose rejection is ignored\<close>

definition ignoreR :: "('w, unit) run \<Rightarrow> ('w, unit) run" where
  "ignoreR m = catchR m (\<lambda>_. returnR ())"

definition modifyCtx :: "(runtime_context \<Rightarrow> runtime_context) \<Rightarrow> ('w, unit) run" where
  "modifyCtx f = (\<lambda>(c, w). (Ret (), (f c, w)))"

definition readR :: "('w st \<Rightarrow> 'a) \<Rightarrow> ('w, 'a) run" where
  "readR f = (\<lambda>s. (Ret (f s), s))"

definition whenR :: "bool \<Rightarrow> ('w, unit) run \<Rightarrow> ('w, unit) run" where
  "whenR b m = (if b then m else returnR ())"

lemma returnR_apply [simp, runtime_simps]: "returnR a s = (Ret a, s)"
  by (simp add: returnR_def)

lemma throwR_apply [simp, runtime_simps]: "throwR e s = (Throw e, s)"
  by (simp add: throwR_def)

lemma readR_apply [simp, runtime_simps]: "readR f s = (Ret (f s), s)"
  by (simp add: readR_def)

lemma modifyCtx_apply [simp, runtime_simps]: "modifyCtx f s = (Ret (), (f (fst s), snd s))"
  by (cases s) (simp add: modifyCtx_def)

lemma bindR_apply [runtime_simps]:
  "bindR m k s = (case m s of (Ret a, s') \<Rightarrow> k a s' | (Throw e, s') \<Rightarrow> (Throw e, s'))"
  by (simp add: bindR_def)

lemma thenR_apply [runtime_simps]:
  "thenR m k s = (case m s of (Ret a, s') \<Rightarrow> k s' | (Throw e, s') \<Rightarrow> (Throw e, s'))"
  by (simp add: thenR_def bindR_def)

lemma catchR_apply [runtime_simps]:
  "catchR m h s = (case m s of (Ret a, s') \<Rightarrow> (Ret a, s') | (Throw e, s') \<Rightarrow> h e s')"
  by (simp add: catchR_def)

lemma whenR_apply [runtime_simps]: "whenR b m s = (if b then m s else (Ret (), s))"
  by (simp add: whenR_def)

lemma bindR_cong [fundef_cong]:
  "m = m' \<Longrightarrow> (\<And>a. k a = k' a) \<Longrightarrow> bindR m k = bindR m' k'"
  by (metis ext)

text \<open>The algebra of sequencing: \<^const>\<open>bindR\<close> with \<^const>\<open>returnR\<close> is a monad in which a throw is a left zero.\<close>

lemma bindR_return_left [runtime_simps]: "bindR (returnR a) k = k a"
  by (simp add: bindR_def)

lemma bindR_throw [runtime_simps]: "bindR (throwR e) k = throwR e"
  by (rule ext) (simp add: bindR_def)

lemma bindR_assoc: "bindR (bindR m f) g = bindR m (\<lambda>a. bindR (f a) g)"
  by (rule ext) (simp add: bindR_def split: prod.split outcome.split)

text \<open>A sequence that returns returned at each step.\<close>

lemma bindR_RetD: "bindR m f s = (Ret b, s') \<Longrightarrow> \<exists>a s1. m s = (Ret a, s1) \<and> f a s1 = (Ret b, s')"
  by (auto simp: bindR_apply split: prod.splits outcome.splits)

lemma thenR_RetD: "thenR m f s = (Ret b, s') \<Longrightarrow> \<exists>s1. m s = (Ret (), s1) \<and> f s1 = (Ret b, s')"
  by (auto simp: thenR_apply split: prod.splits outcome.splits)

end
