(* ===== verification/Executor_Utils.thy ===== *)
theory Executor_Utils
  imports Runtime
begin

text \<open>
  Model of \<open>src/scriptcat-engine/executor-utils.ts\<close>, the interpreter of a rule's step tree: error
  classification and retry delays, conditions, one leaf step with its retries, the sequential loop
  over the steps of a container with its resume cursor and its callbacks, and the flow-control
  steps. The handler of leaf actions (\<open>executeAction\<close>) is a parameter, as it is in the source; it
  is observed up to the deadline of the step and is either settled by then or still pending.
\<close>

section \<open>Classification of errors\<close>

definition classify_message :: "string \<Rightarrow> string" where
  "classify_message msg =
     (if js_includes msg ''ScriptError'' then ''ScriptError''
      else if js_startsWith msg ''ElementNotFound'' then ''ElementNotFound''
      else if js_startsWith msg ''ElementDisabled'' then ''ElementDisabled''
      else if js_startsWith msg ''ElementVerificationFailed'' then ''ElementVerificationFailed''
      else if js_startsWith msg ''ConditionError'' then ''ConditionError''
      else if js_startsWith msg ''ValidationError'' then ''ValidationError''
      else if js_includes msg ''ConfigError'' then ''ConfigError''
      else if js_startsWith msg ''TimeoutError'' then ''TimeoutError''
      else if js_includes msg ''Navigation'' then ''NavigationError''
      else if js_includes msg ''Network'' then ''NetworkError''
      else if js_includes msg ''Authentication'' \<or> js_includes msg ''login'' then ''AuthenticationError''
      else if js_includes msg ''Captcha'' then ''CaptchaError''
      else if js_includes msg ''Rate'' then ''RateLimited''
      else if js_includes msg ''Blocked'' then ''Blocked''
      else if js_includes msg ''Session'' then ''SessionExpired''
      else if js_startsWith msg ''QuotaExceeded'' then ''QuotaExceeded''
      else if js_startsWith msg ''HumanTimeout'' then ''HumanTimeout''
      else if js_includes msg ''UnsupportedInEnvironment'' then ''UnsupportedInEnvironment''
      else ''UnknownError'')"

definition classifyError :: "exn \<Rightarrow> string" where
  "classifyError e = classify_message (exn_message e)"

definition isRecoverable :: "string \<Rightarrow> bool" where
  "isRecoverable t \<longleftrightarrow> t \<in> set [''ElementNotFound'', ''TimeoutError'', ''NetworkError'', ''RateLimited'',
     ''Blocked'', ''SessionExpired'', ''HumanTimeout'']"

definition backoff_delay :: "string option \<Rightarrow> int \<Rightarrow> nat \<Rightarrow> int" where
  "backoff_delay b d attempt =
     (if b = Some ''linear'' then d * (int attempt + 1)
      else if b = Some ''exponential'' then d * 2 ^ attempt
      else d)"

definition calculateDelay :: "'w env \<Rightarrow> retry_config \<Rightarrow> nat \<Rightarrow> ('w, int) run" where
  "calculateDelay env rc attempt =
     bindR (case delay rc of
              None \<Rightarrow> returnR 1000
            | Some (DelayMs d) \<Rightarrow> returnR d
            | Some (DelayRange lo hi) \<Rightarrow> bindR (random env) (\<lambda>r. returnR (randomBetween r lo hi)))
       (\<lambda>d. returnR (backoff_delay (backoff rc) d attempt))"


section \<open>Cancellation and navigation\<close>

definition checkAborted :: "'w env \<Rightarrow> ('w, unit) run" where
  "checkAborted env =
     bindR (readR (aborted env))
       (\<lambda>a. if a then throwR (JsError ''AbortError'' ''Task was cancelled'') else returnR ())"

definition actionMayNavigate :: "action \<Rightarrow> bool" where
  "actionMayNavigate a =
     (let t = actionType a in
      t \<in> set [''navigate'', ''reload'', ''goBack'', ''goForward'']
      \<or> t \<in> set [''click'', ''doubleClick'', ''hoverClick'']
      \<or> t \<in> set [''pressKey'', ''keyCombination'']
      \<or> (t = ''type'' \<and> leafField a ''submit'' = JBool True)
      \<or> t \<in> set [''submit'', ''requestHuman''])"


section \<open>Conditions\<close>

definition interpolate_target :: "target \<Rightarrow> ('w, target) run" where
  "interpolate_target tgt = (\<lambda>s. (Ret (interpolate_fields (fst s) tgt), s))"

text \<open>\<open>interpolate(resolveSelectorAlias(target, ctx.variables.__selectors), ctx)\<close>\<close>

definition resolve_target :: "target \<Rightarrow> ('w, target) run" where
  "resolve_target tgt =
     bindR (readR (\<lambda>s. resolveSelectorAlias tgt (obj_get (variables (fst s)) ''__selectors'')))
       (\<lambda>r. case r of Inl msg \<Rightarrow> throwR (Error msg) | Inr t \<Rightarrow> interpolate_target t)"

definition condition_target :: "rule_condition \<Rightarrow> ('w, target option) run" where
  "condition_target c =
     (case condTarget c of
        None \<Rightarrow> returnR None
      | Some t \<Rightarrow> bindR (resolve_target t) (\<lambda>t'. returnR (Some t')))"

definition cond_timeout :: "rule_condition \<Rightarrow> int" where
  "cond_timeout c = (case condTimeout c of None \<Rightarrow> 3000 | Some t \<Rightarrow> t)"

text \<open>\<open>env.findElement\<close> for the target of a condition, \<open>None\<close> without a target\<close>

definition find_condition_element ::
  "'w env \<Rightarrow> rule_condition \<Rightarrow> (target \<Rightarrow> target) \<Rightarrow> ('w, element option option) run" where
  "find_condition_element env c f =
     bindR (condition_target c)
       (\<lambda>t. case t of
              None \<Rightarrow> returnR None
            | Some t' \<Rightarrow> bindR (findElement env (f t') (cond_timeout c)) (\<lambda>el. returnR (Some el)))"

definition require_visible :: "target \<Rightarrow> target" where
  "require_visible t = al_set ''visible'' (JBool True) t"

definition found :: "element option option \<Rightarrow> bool" where
  "found r = (case r of Some (Some _) \<Rightarrow> True | _ \<Rightarrow> False)"

definition regex_source :: "jval \<Rightarrow> string" where
  "regex_source v = (if v = JUndef then ''(?:)'' else js_String v)"

definition interp :: "jval \<Rightarrow> ('w, jval) run" where
  "interp v = (\<lambda>s. (Ret (interpolate (fst s) v), s))"

definition text_or_empty :: "element option \<Rightarrow> string" where
  "text_or_empty el = (case el of None \<Rightarrow> [] | Some e \<Rightarrow> (case textContent e of None \<Rightarrow> [] | Some t \<Rightarrow> t))"

definition evaluateCondition :: "'w env \<Rightarrow> rule_condition \<Rightarrow> ('w, bool) run" where
  "evaluateCondition env c =
    (if condType c = ''elementExists'' then
       bindR (find_condition_element env c id) (\<lambda>r. returnR (found r))
     else if condType c = ''elementNotExists'' then
       bindR (find_condition_element env c id) (\<lambda>r. returnR (\<not> found r))
     else if condType c = ''textContains'' then
       bindR (find_condition_element env c id)
         (\<lambda>r. bindR (interp (condText c))
           (\<lambda>t. returnR (case r of
                  Some (Some e) \<Rightarrow>
                    (case textContent e of Some x \<Rightarrow> js_includes x (js_String t) | None \<Rightarrow> False)
                | _ \<Rightarrow> False)))
     else if condType c = ''urlContains'' then
       bindR (interp (condPattern c))
         (\<lambda>p. readR (\<lambda>s. js_includes (getUrl env s) (js_String p)))
     else if condType c = ''urlMatches'' then
       bindR (interp (condPattern c))
         (\<lambda>p. bindR (readR (getUrl env))
           (\<lambda>u. case regexTest env (regex_source p) u of
                  Inl msg \<Rightarrow> throwR (JsError ''SyntaxError'' msg) | Inr b \<Rightarrow> returnR b))
     else if condType c = ''jsTruthy'' then
       catchR (bindR (readR (\<lambda>s. al_merge (al_merge (variables (fst s)) (extracted (fst s))) (evaluated (fst s))))
         (\<lambda>scriptCtx. bindR (evaluate env (''return '' @ (case condScript c of None \<Rightarrow> ''false'' | Some x \<Rightarrow> x)) scriptCtx)
           (\<lambda>v. returnR (truthy v))))
         (\<lambda>_. returnR False)
     else if condType c = ''elementVisible'' then
       bindR (find_condition_element env c require_visible) (\<lambda>r. returnR (found r))
     else if condType c = ''elementHidden'' then
       bindR (find_condition_element env c require_visible) (\<lambda>r. returnR (\<not> found r))
     else if condType c = ''textEquals'' then
       bindR (find_condition_element env c id)
         (\<lambda>r. case r of
                None \<Rightarrow> returnR False
              | Some el \<Rightarrow> bindR (interp (condText c))
                  (\<lambda>t. returnR (js_trim (text_or_empty el) = js_trim (js_String (coalesce t (JStr []))))))
     else if condType c = ''textMatches'' then
       bindR (find_condition_element env c id)
         (\<lambda>r. case r of
                None \<Rightarrow> returnR False
              | Some el \<Rightarrow> bindR (interp (condPattern c))
                  (\<lambda>p. case regexTest env (regex_source p) (text_or_empty el) of
                         Inl msg \<Rightarrow> throwR (Error (''ConditionError: invalid textMatches pattern: '' @ msg))
                       | Inr b \<Rightarrow> returnR b))
     else if condType c = ''valueEquals'' then
       bindR (find_condition_element env c id)
         (\<lambda>r. case r of
                None \<Rightarrow> returnR False
              | Some el \<Rightarrow> bindR (interp (condValue c))
                  (\<lambda>v. returnR (case el of None \<Rightarrow> False | Some e \<Rightarrow> elValue e = JStr (js_String v))))
     else if condType c = ''networkIdle'' then
       (case waitForNetworkIdle env of
          None \<Rightarrow> throwR (Error ''ConditionError: networkIdle requires env.waitForNetworkIdle'')
        | Some wait \<Rightarrow>
            catchR (bindR (wait (case idleTime c of None \<Rightarrow> 500 | Some t \<Rightarrow> t) (cond_timeout c)) (\<lambda>_. returnR True))
              (\<lambda>e. if js_startsWith (exn_message e) ''TimeoutError'' then returnR False
                   else throwR (Error (''ConditionError: networkIdle failed: '' @ exn_message e))))
     else throwR (Error (''ConditionError: unsupported condition type: '' @ condType c)))"



section \<open>One leaf step\<close>

text \<open>
  The outcome of a leaf action observed until the deadline: settled with its result, or still
  pending, in the state reached by then.
\<close>

datatype settle = Settled "jval outcome" | Pending

type_synonym 'w handler = "action \<Rightarrow> int \<Rightarrow> 'w st \<Rightarrow> settle \<times> 'w st"

definition step_label :: "action \<Rightarrow> string" where
  "step_label a = (case stepId (base a) of None \<Rightarrow> actionType a | Some i \<Rightarrow> i)"

definition opt_str :: "string option \<Rightarrow> jval" where
  "opt_str o' = (case o' of None \<Rightarrow> JUndef | Some x \<Rightarrow> JStr x)"

text \<open>The timer of a soft timeout, when it is scheduled at all\<close>

definition scheduleSoftTimeout :: "int option \<Rightarrow> int option \<Rightarrow> int option" where
  "scheduleSoftTimeout soft hard =
     (case soft of
        None \<Rightarrow> None
      | Some t \<Rightarrow> (case hard of None \<Rightarrow> Some t | Some h \<Rightarrow> if t \<ge> h then None else Some t))"

definition softTimeoutWarning :: "'w env \<Rightarrow> action \<Rightarrow> int \<Rightarrow> int option \<Rightarrow> ('w, unit) run" where
  "softTimeoutWarning env a soft hard =
     ignoreR (sendLog env ''warn'' (''Soft timeout exceeded for step '' @ step_label a)
       (Some ([(''stepId'', opt_str (stepId (base a))), (''action'', JStr (actionType a)),
               (''softTimeout'', jint soft)]
              @ (case hard of None \<Rightarrow> [] | Some h \<Rightarrow> [(''hardTimeout'', jint h)]))))"

text \<open>The warning is sent when the work took longer than the timer, or did not settle.\<close>

definition afterSoftTimeout :: "'w env \<Rightarrow> action \<Rightarrow> int option \<Rightarrow> int option \<Rightarrow> int \<Rightarrow> bool \<Rightarrow> ('w, unit) run" where
  "afterSoftTimeout env a timer hard start pending =
     (case timer of
        None \<Rightarrow> returnR ()
      | Some t \<Rightarrow> bindR (readR (nowMs env))
          (\<lambda>n. whenR (pending \<or> n - start > t) (softTimeoutWarning env a t hard)))"

definition markCheckpoint :: "'w env \<Rightarrow> action \<Rightarrow> ('w, unit) run" where
  "markCheckpoint env a =
     whenR (checkpointBefore (base a))
       (\<lambda>s. modifyCtx (\<lambda>c. c\<lparr>checkpoint := Some
          \<lparr>cpStepId = (case stepId (base a) of None \<Rightarrow> ''unknown'' | Some i \<Rightarrow> i),
           cpUrl = getUrl env s, cpVariables = variables (fst s), cpExtracted = extracted (fst s),
           cpTimestamp = nowMs env s\<rparr>\<rparr>) s)"

definition executeWithTimeout ::
  "'w env \<Rightarrow> 'w handler \<Rightarrow> action \<Rightarrow> int \<Rightarrow> int option \<Rightarrow> ('w, unit) run" where
  "executeWithTimeout env exec a t soft =
     bindR (readR (nowMs env))
       (\<lambda>start. thenR (markCheckpoint env a)
         (\<lambda>s. case exec a (t + 100) s of
                (Settled r, s') \<Rightarrow>
                  thenR (afterSoftTimeout env a (scheduleSoftTimeout soft (Some t)) (Some t) start False)
                    (case r of Ret _ \<Rightarrow> returnR () | Throw e \<Rightarrow> throwR e) s'
              | (Pending, s') \<Rightarrow>
                  thenR (afterSoftTimeout env a (scheduleSoftTimeout soft (Some t)) (Some t) start True)
                    (throwR (Error ''TimeoutError'')) s'))"

datatype attempt_result = StepDone | GaveUp "exn option"

text \<open>
  \<open>for (attempt = 0; attempt <= maxAttempts; attempt++)\<close>: the first argument counts the attempts
  that remain, so the last one is the one after which none remains.
\<close>

primrec step_attempts ::
  "nat \<Rightarrow> 'w env \<Rightarrow> 'w handler \<Rightarrow> action \<Rightarrow> int \<Rightarrow> retry_config \<Rightarrow> nat \<Rightarrow> exn option
   \<Rightarrow> ('w, attempt_result) run" where
  "step_attempts 0 env exec a t rc attempt lastErr = returnR (GaveUp lastErr)"
| "step_attempts (Suc n) env exec a t rc attempt lastErr =
     catchR (thenR (executeWithTimeout env exec a t (softTimeout (base a))) (returnR StepDone))
       (\<lambda>e. if is_signal e then throwR e
            else if \<not> isRecoverable (classifyError e) \<or> n = 0 then returnR (GaveUp (Some e))
            else bindR (calculateDelay env rc attempt)
              (\<lambda>d. thenR (sendLog env ''warn'' (''Retrying step '' @ step_label a)
                     (Some [(''attempt'', jint (int attempt)), (''errorType'', JStr (classifyError e)),
                            (''delay'', jint d)]))
                (thenR (sleepMs env d)
                  (step_attempts n env exec a t rc (Suc attempt) (Some e)))))"

definition step_timeout :: "action \<Rightarrow> runtime_context \<Rightarrow> int" where
  "step_timeout a c =
     (case hardTimeout (base a) of
        Some h \<Rightarrow> h
      | None \<Rightarrow>
          if actionType a = ''requestHuman''
          then (case timeout (base a) of None \<Rightarrow> 120000 | Some t \<Rightarrow> t) + 5000
          else (case timeout (base a) of
                  Some t \<Rightarrow> t
                | None \<Rightarrow> (case Option.bind (ruleDefaults c) defTimeout of Some t \<Rightarrow> t | None \<Rightarrow> 30000)))"

definition step_retry :: "action \<Rightarrow> runtime_context \<Rightarrow> retry_config" where
  "step_retry a c =
     parseRetry (case retry (base a) of Some r \<Rightarrow> Some r | None \<Rightarrow> Option.bind (ruleDefaults c) defRetry)
       0 (Option.bind (ruleDefaults c) defMaxRetries)"

definition requestHumanIntervention :: "'w env \<Rightarrow> human_request \<Rightarrow> ('w, unit) run" where
  "requestHumanIntervention env req =
     (case requestHuman env of
        None \<Rightarrow> throwR (Error ''HumanInterventionUnavailable: transport does not support resumable operator decisions'')
      | Some ask \<Rightarrow>
          bindR (\<lambda>s. ask (req\<lparr>reqUrl := getUrl env s\<rparr>) s)
            (\<lambda>d. if decisionStatus d \<noteq> ''approved''
                 then throwR (Error (''HumanInterventionInvalidStatus: '' @ decisionStatus d))
                 else thenR (sendLog env ''info'' ''human intervention approved''
                        (Some [(''interventionId'', JStr (decisionId d)), (''checkpointId'', JStr (checkpointId d)),
                               (''stepId'', JStr (reqStepId req))]))
                      (modifyCtx (\<lambda>c. c\<lparr>lastError := None\<rparr>))))"

text \<open>What follows the last failed attempt: record, report, and apply the \<open>onError\<close> strategy.\<close>

definition error_of_step :: "action \<Rightarrow> retry_config \<Rightarrow> exn option \<Rightarrow> execution_error" where
  "error_of_step a rc e =
     (let msg = (case e of None \<Rightarrow> ''undefined'' | Some x \<Rightarrow> exn_message x) in
      \<lparr>errType = classify_message msg, errMessage = msg, errStepId = stepId (base a),
       errRetryCount = Some (maxAttempts rc), recoverable = False\<rparr>)"

definition error_payload :: "execution_error \<Rightarrow> jval" where
  "error_payload e =
     JObj [(''type'', JStr (errType e)), (''message'', JStr (errMessage e)),
           (''stepId'', opt_str (errStepId e)),
           (''retryCount'', case errRetryCount e of None \<Rightarrow> JUndef | Some n \<Rightarrow> jint n),
           (''recoverable'', JBool (recoverable e))]"

definition stepFailed ::
  "'w env \<Rightarrow> action \<Rightarrow> execution_error \<Rightarrow> ('w, step_result) run" where
  "stepFailed env a err =
     thenR (modifyCtx (\<lambda>c. c\<lparr>lastError := Some err\<rparr>))
    (thenR (sendLog env ''error'' (''Step failed: '' @ step_label a)
              (Some [(''error'', JStr (errMessage err)), (''type'', JStr (errType err))]))
    (thenR (whenR (critical (base a))
              (sendResult env (JObj [(''__criticalFailure'', JBool True), (''error'', error_payload err)]) True))
    (let strategy = (case onError (base a) of None \<Rightarrow> ''stop'' | Some x \<Rightarrow> x) in
     if strategy = ''continue'' \<or> strategy = ''skip'' then returnR None
     else if strategy = ''requestHuman'' then
       thenR (requestHumanIntervention env
                \<lparr>reqType = ''generic'',
                 reqPrompt = ''Step '' @ step_label a @ '' requires approved manual recovery before continuing'',
                 reqTimeoutMs = (case timeout (base a) of None \<Rightarrow> 120000 | Some t \<Rightarrow> t),
                 reqStepId = step_label a, reqUrl = []\<rparr>)
         (returnR None)
     else if strategy \<noteq> ''stop'' then throwR (Error (''ConfigError: unsupported onError strategy: '' @ strategy))
     else returnR (Some err))))"

definition runStepBody :: "'w env \<Rightarrow> 'w handler \<Rightarrow> action \<Rightarrow> ('w, step_result) run" where
  "runStepBody env exec a =
     bindR (readR (\<lambda>s. (step_timeout a (fst s), step_retry a (fst s))))
       (\<lambda>(t, rc). bindR (step_attempts (nat (maxAttempts rc + 1)) env exec a t rc 0 None)
         (\<lambda>r. case r of
                StepDone \<Rightarrow> returnR None
              | GaveUp e \<Rightarrow> stepFailed env a (error_of_step a rc e)))"

definition runStep :: "'w env \<Rightarrow> 'w handler \<Rightarrow> action \<Rightarrow> ('w, step_result) run" where
  "runStep env exec a =
     (case condition (base a) of
        None \<Rightarrow> runStepBody env exec a
      | Some c \<Rightarrow> bindR (evaluateCondition env c)
          (\<lambda>met. if met then runStepBody env exec a else returnR None))"


section \<open>The steps of a container\<close>

record 'w run_options =
  resumePath :: "step_path option"
  pathPrefix :: "step_path option"
  frameFor :: "(int \<Rightarrow> step_path_frame) option"
  onStepStart :: "(step_path \<Rightarrow> action \<Rightarrow> ('w, unit) run) option"
  onStepComplete :: "(step_path \<Rightarrow> action \<Rightarrow> ('w, unit) run) option"
  onStepFailure :: "(step_path \<Rightarrow> ('w, unit) run) option"

type_synonym 'w run_one = "action \<Rightarrow> 'w run_options option \<Rightarrow> step_path \<Rightarrow> ('w, step_result) run"

definition opt_prefix :: "'w run_options option \<Rightarrow> step_path" where
  "opt_prefix opts = (case Option.bind opts pathPrefix of None \<Rightarrow> EMPTY_PATH | Some p \<Rightarrow> p)"

definition opt_frame :: "'w run_options option \<Rightarrow> int \<Rightarrow> step_path_frame" where
  "opt_frame opts i = (case Option.bind opts frameFor of None \<Rightarrow> TopFrame i | Some f \<Rightarrow> f i)"

definition child_path :: "'w run_options option \<Rightarrow> int \<Rightarrow> step_path" where
  "child_path opts i = opt_prefix opts @ [opt_frame opts i]"

definition set_resume :: "step_path option \<Rightarrow> 'w run_options option \<Rightarrow> 'w run_options option" where
  "set_resume p opts = map_option (\<lambda>o'. o'\<lparr>resumePath := p\<rparr>) opts"

definition is_resume_target :: "step_path option \<Rightarrow> int \<Rightarrow> bool" where
  "is_resume_target pending i = (case pending of Some (f # _) \<Rightarrow> childIdx f = i | _ \<Rightarrow> False)"

text \<open>\<open>dispatchOptions\<close>: the resume path handed to the child at index \<open>i\<close>\<close>

definition dispatch_options ::
  "step_path option \<Rightarrow> int \<Rightarrow> 'w run_options option \<Rightarrow> 'w run_options option" where
  "dispatch_options pending i opts =
     (case pending of
        None \<Rightarrow> set_resume None opts
      | Some fs \<Rightarrow>
          if is_resume_target pending i \<and> length fs > 1 then set_resume (Some (tl fs)) opts
          else opts)"

definition start_index :: "step_path option \<Rightarrow> int" where
  "start_index resume = (case resume of Some (f # _) \<Rightarrow> max 0 (childIdx f) | _ \<Rightarrow> 0)"

definition call_opt :: "('b \<Rightarrow> ('w, unit) run) option \<Rightarrow> 'b \<Rightarrow> ('w, unit) run" where
  "call_opt cb x = (case cb of None \<Rightarrow> returnR () | Some f \<Rightarrow> f x)"

primrec steps_loop ::
  "'w env \<Rightarrow> 'w run_one \<Rightarrow> 'w run_options option \<Rightarrow> step_path option \<Rightarrow> int \<Rightarrow> action list
   \<Rightarrow> ('w, step_result) run" where
  "steps_loop env one opts pending i [] = returnR None"
| "steps_loop env one opts pending i (a # as) =
     thenR (checkAborted env)
    (thenR (modifyCtx (\<lambda>c. c\<lparr>lastStepId := stepId (base a)\<rparr>))
    (thenR (whenR (actionMayNavigate a)
              (call_opt (map_option (\<lambda>f p. f p a) (Option.bind opts onStepStart)) (child_path opts i)))
    (bindR (one a (dispatch_options pending i opts) (child_path opts i))
      (\<lambda>r. case r of
             Some e \<Rightarrow>
               thenR (whenR (actionMayNavigate a)
                        (call_opt (Option.bind opts onStepFailure) (child_path opts i)))
                 (returnR (Some e))
           | None \<Rightarrow>
               thenR (call_opt (map_option (\<lambda>f p. f p a) (Option.bind opts onStepComplete)) (child_path opts i))
                 (steps_loop env one opts
                    (if is_resume_target pending i then None else pending) (i + 1) as)))))"

definition run_steps_with ::
  "'w env \<Rightarrow> 'w run_one \<Rightarrow> action list \<Rightarrow> 'w run_options option \<Rightarrow> ('w, step_result) run" where
  "run_steps_with env one as opts =
     (let resume = Option.bind opts resumePath; i = start_index resume in
      steps_loop env one opts resume i (drop (nat i) as))"

lemma steps_loop_cong:
  "(\<And>a. a \<in> set as \<Longrightarrow> one a = one' a) \<Longrightarrow>
   steps_loop env one opts pending i as = steps_loop env one' opts pending i as"
proof (induction as arbitrary: pending i)
  case (Cons a as)
  then have "one a = one' a"
    and "\<And>p j. steps_loop env one opts p j as = steps_loop env one' opts p j as" by auto
  then show ?case by (simp cong: option.case_cong)
qed simp

lemma run_steps_with_cong [fundef_cong]:
  assumes "env = env'" "as = as'" "opts = opts'"
    and "\<And>a o' p s. a \<in> set as' \<Longrightarrow> one a o' p s = one' a o' p s"
  shows "run_steps_with env one as opts = run_steps_with env' one' as' opts'"
proof -
  have "one a = one' a" if "a \<in> set as'" for a
    using assms(4) that by blast
  then have "steps_loop env one opts p i (drop k as) = steps_loop env one' opts p i (drop k as)" for p i k
    using assms(2) by (intro steps_loop_cong) (auto dest: in_set_dropD)
  then show ?thesis
    using assms(1-3) by (simp add: run_steps_with_def Let_def)
qed



section \<open>Flow control\<close>

definition child_options ::
  "'w run_options option \<Rightarrow> step_path \<Rightarrow> (int \<Rightarrow> step_path_frame) \<Rightarrow> 'w run_options option" where
  "child_options opts path ff =
     map_option (\<lambda>o'. o'\<lparr>pathPrefix := Some path, frameFor := Some ff\<rparr>) opts"

definition resume_frame :: "'w run_options option \<Rightarrow> step_path_frame option" where
  "resume_frame opts =
     (case Option.bind opts resumePath of Some (f # _) \<Rightarrow> Some f | _ \<Rightarrow> None)"

text \<open>\<open>if (result.error) throw new Error(result.error.message)\<close>\<close>

definition throw_on_error :: "('w, step_result) run \<Rightarrow> ('w, unit) run" where
  "throw_on_error m =
     bindR m (\<lambda>r. case r of None \<Rightarrow> returnR () | Some e \<Rightarrow> throwR (Error (errMessage e)))"

definition branch_steps :: "if_branch \<Rightarrow> action list \<Rightarrow> action list option \<Rightarrow> action list" where
  "branch_steps b th el =
     (case b of ThenBranch \<Rightarrow> th | ElseBranch \<Rightarrow> (case el of None \<Rightarrow> [] | Some ss \<Rightarrow> ss))"

text \<open>The branch to take: the recorded one on resume, else by the condition.\<close>

definition choose_branch ::
  "'w env \<Rightarrow> rule_condition \<Rightarrow> 'w run_options option \<Rightarrow> ('w, if_branch) run" where
  "choose_branch env c opts =
     (case resume_frame opts of
        Some (IfFrame b _) \<Rightarrow> returnR b
      | _ \<Rightarrow> bindR (evaluateCondition env c)
               (\<lambda>met. returnR (if met then ThenBranch else ElseBranch)))"

definition loop_limit :: "int option \<Rightarrow> int" where
  "loop_limit m = (case m of None \<Rightarrow> 100 | Some n \<Rightarrow> n)"

definition resume_iter :: "'w run_options option \<Rightarrow> int" where
  "resume_iter opts = (case resume_frame opts of Some (LoopFrame k _) \<Rightarrow> k | _ \<Rightarrow> -1)"

definition loop_child_options ::
  "'w run_options option \<Rightarrow> step_path \<Rightarrow> int \<Rightarrow> 'w run_options option" where
  "loop_child_options opts path i =
     child_options (if i = resume_iter opts then opts else set_resume None opts) path (LoopFrame i)"

text \<open>
  The loop skeleton the five loop types share. The first argument counts the iterations that the
  bounds still allow; \<open>guard\<close> is the check at the head of an iteration, \<open>enter\<close> the assignments of
  the loop variables.
\<close>

primrec loop_iterations ::
  "nat \<Rightarrow> 'w env \<Rightarrow> (int \<Rightarrow> ('w, bool) run) \<Rightarrow> (int \<Rightarrow> ('w, unit) run) \<Rightarrow> int
   \<Rightarrow> (int \<Rightarrow> ('w, step_result) run) \<Rightarrow> int \<Rightarrow> ('w, unit) run" where
  "loop_iterations 0 env guard enter resumeIter body i = returnR ()"
| "loop_iterations (Suc n) env guard enter resumeIter body i =
     thenR (checkAborted env)
    (bindR (guard i)
      (\<lambda>go. if \<not> go then returnR ()
            else thenR (enter i)
              (if i < resumeIter then loop_iterations n env guard enter resumeIter body (i + 1)
               else (\<lambda>s. case throw_on_error (body i) s of
                       (Ret _, s') \<Rightarrow> loop_iterations n env guard enter resumeIter body (i + 1) s'
                     | (Throw (FlowControlSignal BreakSignal), s') \<Rightarrow> (Ret (), s')
                     | (Throw (FlowControlSignal ContinueSignal), s') \<Rightarrow>
                         loop_iterations n env guard enter resumeIter body (i + 1) s'
                     | (Throw e, s') \<Rightarrow> (Throw e, s')))))"

definition set_loop_index :: "int \<Rightarrow> ('w, unit) run" where
  "set_loop_index i = modifyCtx (\<lambda>c. c\<lparr>loopIndex := jint i\<rparr>)"

definition set_loop_item :: "jval list \<Rightarrow> int \<Rightarrow> ('w, unit) run" where
  "set_loop_item vs i = modifyCtx (\<lambda>c. c\<lparr>loopIndex := jint i, loopItem := vs ! nat i\<rparr>)"

text \<open>\<open>Number(interpolate(count)) || 0\<close>, and the number of iterations \<open>i < count \<and> i < limit\<close> allows\<close>

fun count_iterations :: "jnum \<Rightarrow> int \<Rightarrow> nat" where
  "count_iterations (Fin r) limit = nat (min \<lceil>r\<rceil> limit)"
| "count_iterations PosInf limit = nat limit"
| "count_iterations _ limit = 0"

text \<open>Loop targets are interpolated, their aliases are not resolved.\<close>

definition find_loop_element :: "'w env \<Rightarrow> target \<Rightarrow> ('w, element option) run" where
  "find_loop_element env t = bindR (interpolate_target t) (\<lambda>t'. findElement env t' 2000)"

definition forEach_items :: "jval \<Rightarrow> runtime_context \<Rightarrow> jval" where
  "forEach_items items c =
     (let v = interpolate c items in
      if is_array v then v
      else case items of JStr e \<Rightarrow> resolveExpression e c | _ \<Rightarrow> v)"

definition runLoopAction ::
  "'w env \<Rightarrow> loop_kind \<Rightarrow> int option \<Rightarrow> 'w run_options option
   \<Rightarrow> (int \<Rightarrow> ('w, step_result) run) \<Rightarrow> ('w, unit) run" where
  "runLoopAction env kind m opts body =
     (let limit = loop_limit m; k = resume_iter opts in
      case kind of
        FixedCount count \<Rightarrow>
          bindR (interp count)
            (\<lambda>v. loop_iterations (count_iterations (js_Number v) limit) env
                   (\<lambda>_. returnR True) set_loop_index k body 0)
      | WhileElementExists t \<Rightarrow>
          loop_iterations (nat limit) env
            (\<lambda>_. case t of
                   None \<Rightarrow> returnR False
                 | Some t' \<Rightarrow> bindR (find_loop_element env t') (\<lambda>el. returnR (el \<noteq> None)))
            set_loop_index k body 0
      | WhileElementNotExists t \<Rightarrow>
          (case t of
             None \<Rightarrow> throwR (Error ''ConfigError: whileElementNotExists requires a target'')
           | Some t' \<Rightarrow>
               loop_iterations (nat limit) env
                 (\<lambda>_. bindR (find_loop_element env t') (\<lambda>el. returnR (el = None)))
                 set_loop_index k body 0)
      | WhileCondition c \<Rightarrow>
          (case c of
             None \<Rightarrow> throwR (Error ''ConfigError: whileCondition requires a condition'')
           | Some c' \<Rightarrow>
               loop_iterations (nat limit) env (\<lambda>_. evaluateCondition env c') set_loop_index k body 0)
      | ForEach items \<Rightarrow>
          bindR (readR (\<lambda>s. forEach_items items (fst s)))
            (\<lambda>v. case v of
                   JArr vs \<Rightarrow>
                     loop_iterations (nat (min (int (length vs)) limit)) env
                       (\<lambda>_. returnR True) (set_loop_item vs) k body 0
                 | _ \<Rightarrow> returnR ())
      | OtherLoop _ \<Rightarrow> returnR ())"

definition expression_roots :: "string list" where
  "expression_roots = [''variables'', ''extracted'', ''evaluated'', ''captured'', ''loopItem'', ''loopIndex'', ''page'']"

definition looksLikeExpression :: "string \<Rightarrow> bool" where
  "looksLikeExpression expr \<longleftrightarrow> list_ex (\<lambda>r. expr = r \<or> js_startsWith expr (r @ ''.'')) expression_roots"

definition switch_value :: "string \<Rightarrow> runtime_context \<Rightarrow> string" where
  "switch_value expr c =
     (let v = interpolate c (JStr expr);
          v' = (if v = JStr expr \<and> \<not> js_includes expr ''{{'' \<and> \<not> js_includes expr ''}}''
                   \<and> looksLikeExpression expr
                then resolveExpression expr c else v)
      in js_String (coalesce v' (JStr [])))"

definition or_empty :: "action list option \<Rightarrow> action list" where
  "or_empty ss = (case ss of None \<Rightarrow> [] | Some xs \<Rightarrow> xs)"

text \<open>The chosen case index, \<open>-1\<close> for the default branch, and its steps\<close>

definition choose_case ::
  "string \<Rightarrow> (jval \<times> action list option) list \<Rightarrow> action list option \<Rightarrow> step_path_frame option
   \<Rightarrow> runtime_context \<Rightarrow> int \<times> action list" where
  "choose_case expr cs def rf c =
     (case rf of
        Some (SwitchFrame k _) \<Rightarrow>
          (k, if 0 \<le> k \<and> k < int (length cs) then or_empty (snd (cs ! nat k)) else or_empty def)
      | _ \<Rightarrow>
          (case find_index (\<lambda>cse. js_String (interpolate c (fst cse)) = switch_value expr c) cs of
             Some k \<Rightarrow> (int k, or_empty (snd (cs ! k)))
           | None \<Rightarrow> (-1, or_empty def)))"

text \<open>\<open>switch\<close> and \<open>group\<close> turn what their bodies throw, signals apart, into an error result.\<close>

definition error_of_exn :: "exn \<Rightarrow> execution_error" where
  "error_of_exn e = \<lparr>errType = classifyError e, errMessage = exn_message e, errStepId = None,
     errRetryCount = None, recoverable = False\<rparr>"

definition catch_as_error :: "('w, unit) run \<Rightarrow> ('w, step_result) run" where
  "catch_as_error m =
     catchR (thenR m (returnR None))
       (\<lambda>e. if is_signal e then throwR e else returnR (Some (error_of_exn e)))"

text \<open>Sub-steps of a flow-control step, for the termination of the interpreter\<close>

lemma size_list_member: "a \<in> set as \<Longrightarrow> size (a :: action) < Suc (size_list size as)"
  by (induction as) auto

lemma choose_case_steps:
  "a \<in> set (snd (choose_case expr cs def rf c)) \<Longrightarrow>
   (\<exists>v ss. (v, Some ss) \<in> set cs \<and> a \<in> set ss) \<or> (\<exists>ss. def = Some ss \<and> a \<in> set ss)"
proof -
  have member: "a \<in> set (or_empty (snd (cs ! k))) \<Longrightarrow> k < length cs
      \<Longrightarrow> \<exists>v ss. (v, Some ss) \<in> set cs \<and> a \<in> set ss" for k
    by (metis nth_mem option.exhaust option.simps(4,5) or_empty_def empty_iff list.set(1) prod.collapse)
  assume "a \<in> set (snd (choose_case expr cs def rf c))"
  then have "a \<in> set (or_empty def) \<or> (\<exists>k<length cs. a \<in> set (or_empty (snd (cs ! k))))"
    by (auto simp: choose_case_def dest: find_index_less split: option.splits step_path_frame.splits if_splits
        intro: exI [of _ "nat _"])
  then show ?thesis
    using member by (auto simp: or_empty_def split: option.splits)
qed



section \<open>The interpreter\<close>

text \<open>
  One step of a container: leaf steps run with their retries; flow-control steps enter their
  bodies with the path of the container and the resume payload, under an optional soft-timeout
  warning.
\<close>

definition with_soft_timer :: "'w env \<Rightarrow> action \<Rightarrow> ('w, step_result) run \<Rightarrow> ('w, step_result) run" where
  "with_soft_timer env a m =
     bindR (readR (nowMs env))
       (\<lambda>start s. case m s of
          (r, s') \<Rightarrow> thenR (afterSoftTimeout env a (scheduleSoftTimeout (softTimeout (base a)) None) None start False)
                      (\<lambda>s''. (r, s'')) s')"

lemma with_soft_timer_cong [fundef_cong]:
  "env = env' \<Longrightarrow> a = a' \<Longrightarrow> (\<And>s. m s = m' s) \<Longrightarrow> with_soft_timer env a m = with_soft_timer env' a' m'"
  by (metis ext)

function run_action :: "'w env \<Rightarrow> 'w handler \<Rightarrow> 'w run_one" where
  "run_action env exec (Leaf b t fs nested) opts path = runStep env exec (Leaf b t fs nested)"
| "run_action env exec (IfA b c th el) opts path =
     with_soft_timer env (IfA b c th el)
       (bindR (choose_branch env c opts)
         (\<lambda>br. thenR (throw_on_error
              (run_steps_with env (\<lambda>a o' p. run_action env exec a o' p) (branch_steps br th el)
                (child_options opts path (IfFrame br))))
            (returnR None)))"
| "run_action env exec (LoopA b kind m body) opts path =
     with_soft_timer env (LoopA b kind m body)
       (thenR (runLoopAction env kind m opts
           (\<lambda>i. run_steps_with env (\<lambda>a o' p. run_action env exec a o' p) body
                  (loop_child_options opts path i)))
         (returnR None))"
| "run_action env exec (SwitchA b expr cases def) opts path =
     with_soft_timer env (SwitchA b expr cases def)
       (catch_as_error
         (case cases of
            None \<Rightarrow> throwR (Error ''ScriptError: switch requires a cases array'')
          | Some cs \<Rightarrow>
              (\<lambda>s. case choose_case expr cs def (resume_frame opts) (fst s) of
                 (k, chosen) \<Rightarrow>
                   throw_on_error
                     (run_steps_with env (\<lambda>a o' p. run_action env exec a o' p) chosen
                       (child_options opts path (SwitchFrame k))) s)))"
| "run_action env exec (GroupA b body) opts path =
     with_soft_timer env (GroupA b body)
       (catch_as_error
         (throw_on_error
           (run_steps_with env (\<lambda>a o' p. run_action env exec a o' p) body
             (child_options opts path GroupFrame))))"
  by pat_completeness auto

lemma size_switch_case:
  assumes "(v, Some ss) \<in> set cs" and "a \<in> set ss"
  shows "size a < size (SwitchA b expr (Some cs) def)"
proof -
  have "size a \<le> size_list size ss"
    using size_list_member [OF assms(2)] by simp
  moreover have "size_list size ss < size_list (size_prod (\<lambda>_. 0) (size_option (size_list size))) cs"
    using assms(1) by (induction cs) auto
  ultimately show ?thesis by simp
qed

lemma size_branch_steps: "a \<in> set (branch_steps br th el) \<Longrightarrow> size a < size (IfA b c th el)"
  by (cases br; cases el) (auto simp: branch_steps_def dest: size_list_member)

lemma size_choose_case:
  assumes "a \<in> set (snd (choose_case expr cs def rf c))"
  shows "size a < size (SwitchA b expr (Some cs) def)"
  using choose_case_steps [OF assms]
proof
  assume "\<exists>v ss. (v, Some ss) \<in> set cs \<and> a \<in> set ss"
  then show ?thesis using size_switch_case by blast
next
  assume "\<exists>ss. def = Some ss \<and> a \<in> set ss"
  then show ?thesis using size_list_member by fastforce
qed

termination run_action
proof (relation "measure (\<lambda>(env, exec, a, opts, path). size a)", goal_cases)
  case (2 env exec b c th el opts path s br a o' p sa)
  then show ?case using size_branch_steps by simp
next
  case (4 env exec b expr cases def opts path s cs x k chosen a o' p sa)
  then have "a \<in> set (snd (choose_case expr cs def (resume_frame opts) (fst x)))"
    by (metis snd_conv)
  then show ?case using size_choose_case 4(1) by simp
qed (auto dest: size_list_member)

declare run_action.simps [simp del]

definition runSteps ::
  "'w env \<Rightarrow> 'w handler \<Rightarrow> action list \<Rightarrow> 'w run_options option \<Rightarrow> ('w, step_result) run" where
  "runSteps env exec as opts = run_steps_with env (run_action env exec) as opts"

end
