(* ===== verification/Buffering_Transport.thy ===== *)
theory Buffering_Transport
  imports Runtime "HOL-Library.Sublist"
begin

text \<open>
  Model of \<open>src/scriptcat-engine/buffering-transport.ts\<close> and \<open>tagged-transport.ts\<close>. The first
  part is the transport as one caller sees it, every call completing before the next: operations on
  a world that carries the buffer beside the world of the wrapped transport. The second part is the
  buffer under concurrency, where rows arrive and flushes are requested while a batch is in flight:
  a machine over those events.
\<close>

section \<open>The buffer\<close>

record buffer_policy =
  polBatch :: int
  polInterval :: "int option"
  polOnFailure :: "bool option"

record buffer_state =
  rows :: "jval list"
  retryBatch :: "jval list option"
  timerOn :: bool

record 'w buffered =
  inner :: 'w
  buffer :: buffer_state

definition fresh_buffer :: "buffer_policy option \<Rightarrow> buffer_state" where
  "fresh_buffer pol = \<lparr>rows = [], retryBatch = None,
     timerOn = (case Option.bind pol polInterval of Some n \<Rightarrow> n > 0 | None \<Rightarrow> False)\<rparr>"

definition max_buffer :: "buffer_policy \<Rightarrow> int" where
  "max_buffer pol = max (polBatch pol * 10) 1000"

text \<open>The cap: the oldest row makes room for the new one.\<close>

definition push_row :: "buffer_policy \<Rightarrow> jval \<Rightarrow> jval list \<Rightarrow> jval list" where
  "push_row pol x rs = (if int (length rs) \<ge> max_buffer pol then tl rs else rs) @ [x]"


section \<open>Calls that complete before the next\<close>

text \<open>A call on the wrapped transport, as a call on the world with the buffer\<close>

definition lift_run :: "('w, 'a) run \<Rightarrow> (('w, 'z) buffered_scheme, 'a) run" where
  "lift_run m = (\<lambda>(c, b). case m (c, inner b) of (r, (c', w')) \<Rightarrow> (r, (c', b\<lparr>inner := w'\<rparr>)))"

definition modify_buffer :: "(buffer_state \<Rightarrow> buffer_state) \<Rightarrow> (('w, 'z) buffered_scheme, unit) run" where
  "modify_buffer f = (\<lambda>(c, b). (Ret (), (c, b\<lparr>buffer := f (buffer b)\<rparr>)))"

definition send_batch :: "'w env \<Rightarrow> jval list \<Rightarrow> (('w, 'z) buffered_scheme, unit) run" where
  "send_batch env items =
     catchR (thenR (lift_run (sendResult env (JArr items) True)) (modify_buffer (\<lambda>b. b\<lparr>retryBatch := None\<rparr>)))
       (\<lambda>e. thenR (modify_buffer (\<lambda>b. b\<lparr>retryBatch := Some items\<rparr>)) (throwR e))"

text \<open>
  The loop of \<open>doFlush\<close>. One caller needs at most two rounds, for a batch to retry and for the rows
  after it, since nothing is added while it waits; the third round finds nothing to send.
\<close>

primrec doFlush_loop :: "nat \<Rightarrow> 'w env \<Rightarrow> (('w, 'z) buffered_scheme, unit) run" where
  "doFlush_loop 0 env = returnR ()"
| "doFlush_loop (Suc n) env =
     (\<lambda>s. case retryBatch (buffer (snd s)) of
        Some items \<Rightarrow>
          if items = [] \<and> rows (buffer (snd s)) = [] then (Ret (), s)
          else thenR (send_batch env items) (doFlush_loop n env) s
      | None \<Rightarrow>
          if rows (buffer (snd s)) = [] then (Ret (), s)
          else thenR (modify_buffer (\<lambda>b. b\<lparr>rows := []\<rparr>))
                 (thenR (send_batch env (rows (buffer (snd s)))) (doFlush_loop n env)) s)"

definition flush :: "'w env \<Rightarrow> (('w, 'z) buffered_scheme, unit) run" where
  "flush env = doFlush_loop 3 env"

definition buffered_sendResult ::
  "buffer_policy \<Rightarrow> 'w env \<Rightarrow> jval \<Rightarrow> bool \<Rightarrow> (('w, 'z) buffered_scheme, unit) run" where
  "buffered_sendResult pol env x immediate =
     (if immediate then lift_run (sendResult env x True)
      else thenR (modify_buffer (\<lambda>b. b\<lparr>rows := push_row pol x (rows b)\<rparr>))
        (\<lambda>s. if int (length (rows (buffer (snd s)))) \<ge> polBatch pol then flush env s else (Ret (), s)))"

definition dispose :: "(('w, 'z) buffered_scheme, unit) run" where
  "dispose = modify_buffer (\<lambda>b. b\<lparr>timerOn := False\<rparr>)"

text \<open>\<open>try m finally f\<close>\<close>

definition finallyR :: "('w, 'a) run \<Rightarrow> ('w, unit) run \<Rightarrow> ('w, 'a) run" where
  "finallyR m f = (\<lambda>s. case m s of
     (r, s') \<Rightarrow> (case f s' of (Ret _, s'') \<Rightarrow> (r, s'') | (Throw e, s'') \<Rightarrow> (Throw e, s'')))"

definition drain :: "buffer_policy \<Rightarrow> 'w env \<Rightarrow> bool \<Rightarrow> (('w, 'z) buffered_scheme, unit) run" where
  "drain pol env success =
     finallyR
       (if success \<or> polOnFailure pol \<noteq> Some False then flush env
        else modify_buffer (\<lambda>b. b\<lparr>rows := [], retryBatch := None\<rparr>))
       dispose"

text \<open>\<open>requestHuman\<close> of the two wrappers is always there; without an inner one it throws.\<close>

definition wrapped_requestHuman ::
  "(human_request \<Rightarrow> ('w, human_decision) run) option \<Rightarrow> human_request \<Rightarrow> ('w, human_decision) run" where
  "wrapped_requestHuman ask req =
     (case ask of None \<Rightarrow> throwR (Error ''HumanInterventionUnavailable'') | Some f \<Rightarrow> f req)"

text \<open>The environment with the wrapped world, and with the buffering transport in it\<close>

definition lift_env :: "'w env \<Rightarrow> (('w, 'z) buffered_scheme) env" where
  "lift_env env = \<lparr>
     findElement = (\<lambda>t ms. lift_run (findElement env t ms)),
     sleepMs = (\<lambda>d. lift_run (sleepMs env d)),
     nowMs = (\<lambda>(c, b). nowMs env (c, inner b)),
     getUrl = (\<lambda>(c, b). getUrl env (c, inner b)),
     getTitle = (\<lambda>(c, b). getTitle env (c, inner b)),
     evaluate = (\<lambda>x vs. lift_run (evaluate env x vs)),
     saveSnapshot = (\<lambda>n t. lift_run (saveSnapshot env n t)),
     waitForNetworkIdle = map_option (\<lambda>f i t. lift_run (f i t)) (waitForNetworkIdle env),
     aborted = (\<lambda>(c, b). aborted env (c, inner b)),
     random = lift_run (random env),
     regexTest = regexTest env,
     sendResult = (\<lambda>v i. lift_run (sendResult env v i)),
     sendLog = (\<lambda>l m x. lift_run (sendLog env l m x)),
     sendStatus = (\<lambda>st m. lift_run (sendStatus env st m)),
     sendSnapshot = (\<lambda>v. lift_run (sendSnapshot env v)),
     requestHuman = map_option (\<lambda>f req. lift_run (f req)) (requestHuman env),
     flushResults = map_option lift_run (flushResults env),
     sendHeartbeat = (\<lambda>p. lift_run (sendHeartbeat env p)),
     fetchRule = (\<lambda>i. lift_run (fetchRule env i))\<rparr>"

definition buffering_env :: "buffer_policy \<Rightarrow> 'w env \<Rightarrow> (('w, 'z) buffered_scheme) env" where
  "buffering_env pol env = (lift_env env)\<lparr>
     sendResult := buffered_sendResult pol env,
     flushResults := Some (flush env),
     requestHuman := Some (wrapped_requestHuman (requestHuman (lift_env env)))\<rparr>"


section \<open>The tag proxy\<close>

text \<open>\<open>{ ...tags, ...extra }\<close>; the tags are read when the log entry is sent.\<close>

definition tagged_extra :: "jobj option \<Rightarrow> jobj option \<Rightarrow> jobj option" where
  "tagged_extra tgs extra =
     (case (tgs, extra) of
        (Some t, Some x) \<Rightarrow> Some (al_merge (al_merge [] t) x)
      | (Some t, None) \<Rightarrow> Some (al_merge [] t)
      | (None, x) \<Rightarrow> x)"

definition tagged_env :: "'w env \<Rightarrow> 'w env" where
  "tagged_env env = env\<lparr>
     sendLog := (\<lambda>l m x s. sendLog env l m (tagged_extra (tags (fst s)) x) s),
     flushResults := Some (case flushResults env of None \<Rightarrow> returnR () | Some f \<Rightarrow> f),
     requestHuman := Some (wrapped_requestHuman (requestHuman env))\<rparr>"


section \<open>The buffer under concurrency\<close>

text \<open>
  Rows arrive, and flushes are requested by callers and by the timer, while a batch is in flight.
  \<open>mSending\<close> is the batch whose send is outstanding, \<open>mWaiting\<close> the number of flush calls chained
  behind it. \<open>mAccepted\<close>, \<open>mDelivered\<close> and \<open>mLost\<close> only record the history: the rows accepted, the
  rows whose send succeeded, and how many rows were given up.
\<close>

record flush_machine =
  mRows :: "jval list"
  mRetry :: "jval list option"
  mSending :: "jval list option"
  mWaiting :: nat
  mAccepted :: "jval list"
  mDelivered :: "jval list"
  mLost :: nat

datatype flush_event = PushRow jval | FlushRequest | SendSucceeded | SendFailed | DropAll

definition empty_machine :: flush_machine where
  "empty_machine = \<lparr>mRows = [], mRetry = None, mSending = None, mWaiting = 0,
     mAccepted = [], mDelivered = [], mLost = 0\<rparr>"

text \<open>The head of the loop of \<open>doFlush\<close>: what to send next\<close>

definition start_flush :: "flush_machine \<Rightarrow> flush_machine" where
  "start_flush m =
     (case mRetry m of
        Some items \<Rightarrow> m\<lparr>mSending := Some items\<rparr>
      | None \<Rightarrow> if mRows m = [] then m else m\<lparr>mSending := Some (mRows m), mRows := []\<rparr>)"

definition request_flush :: "flush_machine \<Rightarrow> flush_machine" where
  "request_flush m = (if mSending m = None then start_flush m else m\<lparr>mWaiting := mWaiting m + 1\<rparr>)"

text \<open>After a failed send its flush call ends, and the next one of the chain begins.\<close>

definition next_waiting :: "flush_machine \<Rightarrow> flush_machine" where
  "next_waiting m = (if mWaiting m = 0 then m else start_flush (m\<lparr>mWaiting := mWaiting m - 1\<rparr>))"

fun flush_step :: "buffer_policy \<Rightarrow> flush_machine \<Rightarrow> flush_event \<Rightarrow> flush_machine" where
  "flush_step pol m (PushRow x) =
     (let full = int (length (mRows m)) \<ge> max_buffer pol;
          m' = m\<lparr>mRows := push_row pol x (mRows m), mAccepted := mAccepted m @ [x],
                 mLost := mLost m + (if full then 1 else 0)\<rparr>
      in if int (length (mRows m')) \<ge> polBatch pol then request_flush m' else m')"
| "flush_step pol m FlushRequest = request_flush m"
| "flush_step pol m SendSucceeded =
     (case mSending m of
        None \<Rightarrow> m
      | Some items \<Rightarrow>
          (let m' = m\<lparr>mDelivered := mDelivered m @ items, mRetry := None, mSending := None\<rparr>
           in if mRows m' = [] then m'\<lparr>mWaiting := 0\<rparr> else start_flush m'))"
| "flush_step pol m SendFailed =
     (case mSending m of
        None \<Rightarrow> m
      | Some items \<Rightarrow> next_waiting (m\<lparr>mRetry := Some items, mSending := None\<rparr>))"
| "flush_step pol m DropAll =
     (if mSending m \<noteq> None then m
      else m\<lparr>mRows := [], mRetry := None,
             mLost := mLost m + length (mRows m) + (case mRetry m of None \<Rightarrow> 0 | Some r \<Rightarrow> length r)\<rparr>)"

text \<open>The batch in flight or waiting to be retried\<close>

definition in_transit :: "flush_machine \<Rightarrow> jval list" where
  "in_transit m = (case mSending m of Some items \<Rightarrow> items
     | None \<Rightarrow> (case mRetry m of Some items \<Rightarrow> items | None \<Rightarrow> []))"

definition accounted :: "flush_machine \<Rightarrow> jval list" where
  "accounted m = mDelivered m @ in_transit m @ mRows m"

definition flush_inv :: "buffer_policy \<Rightarrow> flush_machine \<Rightarrow> bool" where
  "flush_inv pol m \<longleftrightarrow>
     subseq (accounted m) (mAccepted m)
     \<and> length (accounted m) + mLost m = length (mAccepted m)
     \<and> int (length (mRows m)) \<le> max_buffer pol
     \<and> (mSending m \<noteq> None \<longrightarrow> mRetry m = None \<or> mRetry m = mSending m)
     \<and> (mSending m = None \<longrightarrow> mWaiting m = 0)
     \<and> mSending m \<noteq> Some [] \<and> mRetry m \<noteq> Some []
     \<and> (mSending m = None \<and> mRetry m = None \<longrightarrow> mRows m = [] \<or> int (length (mRows m)) < polBatch pol)"

lemma flush_invD:
  assumes "flush_inv pol m"
  shows "subseq (accounted m) (mAccepted m)" "length (accounted m) + mLost m = length (mAccepted m)"
    "int (length (mRows m)) \<le> max_buffer pol" "mSending m \<noteq> None \<longrightarrow> mRetry m = None \<or> mRetry m = mSending m"
    "mSending m = None \<longrightarrow> mWaiting m = 0" "mSending m \<noteq> Some []" "mRetry m \<noteq> Some []"
  using assms by (simp_all add: flush_inv_def)

lemma max_buffer_pos: "1000 \<le> max_buffer pol"
  by (simp add: max_buffer_def)

lemma length_push_row:
  "int (length rs) \<le> max_buffer pol \<Longrightarrow> int (length (push_row pol x rs)) \<le> max_buffer pol"
  using max_buffer_pos [of pol] by (auto simp: push_row_def)

text \<open>What a flush call leaves alone, and what it sends next\<close>

lemma start_flush_accounted: "mSending m = None \<Longrightarrow> accounted (start_flush m) = accounted m"
  by (auto simp: start_flush_def accounted_def in_transit_def split: option.split)

lemma start_flush_history [simp]:
  "mAccepted (start_flush m) = mAccepted m" "mDelivered (start_flush m) = mDelivered m"
  "mLost (start_flush m) = mLost m" "mRetry (start_flush m) = mRetry m" "mWaiting (start_flush m) = mWaiting m"
  by (auto simp: start_flush_def split: option.split)

lemma start_flush_inv:
  assumes "subseq (accounted m) (mAccepted m)" "length (accounted m) + mLost m = length (mAccepted m)"
    and "int (length (mRows m)) \<le> max_buffer pol" and "mSending m = None" and "mRetry m \<noteq> Some []"
    and "mRetry m \<noteq> None \<or> mRows m \<noteq> [] \<or> mWaiting m = 0"
  shows "flush_inv pol (start_flush m)"
proof -
  have "int (length (mRows (start_flush m))) \<le> max_buffer pol"
    using assms(3) max_buffer_pos [of pol] by (auto simp: start_flush_def split: option.split)
  moreover have "mSending (start_flush m) \<noteq> None \<longrightarrow> mRetry m = None \<or> mRetry m = mSending (start_flush m)"
    by (auto simp: start_flush_def split: option.split)
  moreover have "mSending (start_flush m) = None \<longrightarrow> mRows (start_flush m) = [] \<and> mWaiting m = 0"
    using assms(4,6) by (auto simp: start_flush_def split: option.splits if_splits)
  moreover have "mSending (start_flush m) \<noteq> Some []"
    using assms(4,5) by (auto simp: start_flush_def split: option.splits if_splits)
  ultimately show ?thesis
    using assms(1,2,4,5) by (auto simp: flush_inv_def start_flush_accounted)
qed

lemma request_flush_inv:
  assumes "subseq (accounted m) (mAccepted m)" "length (accounted m) + mLost m = length (mAccepted m)"
    and "int (length (mRows m)) \<le> max_buffer pol"
    and "mSending m \<noteq> None \<longrightarrow> mRetry m = None \<or> mRetry m = mSending m"
    and "mSending m = None \<longrightarrow> mWaiting m = 0" and "mSending m \<noteq> Some []" "mRetry m \<noteq> Some []"
  shows "flush_inv pol (request_flush m)"
proof (cases "mSending m = None")
  case True
  then show ?thesis using assms start_flush_inv by (simp add: request_flush_def)
next
  case False
  then show ?thesis
    using assms by (auto simp: request_flush_def flush_inv_def accounted_def in_transit_def)
qed

lemma push_row_accounted:
  assumes "subseq (p @ rs) acc" and "length (p @ rs) + lost = length acc"
  shows "subseq (p @ push_row pol x rs) (acc @ [x])"
    and "length (p @ push_row pol x rs) + (lost + (if int (length rs) \<ge> max_buffer pol then 1 else 0)) = length (acc @ [x])"
proof -
  have "subseq (p @ tl rs) (p @ rs)"
    by (intro list_emb_append_mono) (auto simp: subseq_order.order_refl intro: suffix_imp_subseq suffix_tl)
  then have "subseq (p @ tl rs) acc" using assms(1) by (rule subseq_order.order_trans)
  then have "subseq ((p @ tl rs) @ [x]) (acc @ [x])" "subseq ((p @ rs) @ [x]) (acc @ [x])"
    using assms(1) by (auto intro: list_emb_append_mono simp del: append_assoc)
  then show "subseq (p @ push_row pol x rs) (acc @ [x])" by (simp add: push_row_def)
  show "length (p @ push_row pol x rs) + (lost + (if int (length rs) \<ge> max_buffer pol then 1 else 0)) = length (acc @ [x])"
    using assms(2) max_buffer_pos [of pol] by (cases rs) (auto simp: push_row_def)
qed

lemma flush_step_inv: "flush_inv pol m \<Longrightarrow> flush_inv pol (flush_step pol m e)"
proof -
  assume inv: "flush_inv pol m"
  show ?thesis
  proof (cases e)
    case (PushRow x)
    define L where "L = mLost m + (if int (length (mRows m)) \<ge> max_buffer pol then 1 else 0)"
    define r where "r = push_row pol x (mRows m)"
    let ?m = "m\<lparr>mRows := r, mAccepted := mAccepted m @ [x], mLost := L\<rparr>"
    have tr: "in_transit ?m = in_transit m" by (simp add: in_transit_def cong: option.case_cong)
    have acc: "subseq (accounted ?m) (mAccepted ?m)" "length (accounted ?m) + mLost ?m = length (mAccepted ?m)"
      using push_row_accounted [of "mDelivered m @ in_transit m" "mRows m" "mAccepted m" "mLost m" pol x] inv
      unfolding L_def [symmetric] r_def [symmetric]
      by (simp_all add: flush_inv_def accounted_def tr)
    have len: "int (length (mRows ?m)) \<le> max_buffer pol"
      using inv length_push_row by (simp add: flush_inv_def r_def)
    have "flush_inv pol (request_flush ?m)"
      by (rule request_flush_inv [OF acc len]) (use inv in \<open>auto simp: flush_inv_def\<close>)
    moreover have "int (length (mRows ?m)) < polBatch pol \<Longrightarrow> flush_inv pol ?m"
      using acc len inv by (auto simp: flush_inv_def)
    ultimately show ?thesis using PushRow by (auto simp: Let_def L_def r_def)
  next
    case FlushRequest
    then show ?thesis using request_flush_inv [OF flush_invD [OF inv]] by simp
  next
    case SendSucceeded
    show ?thesis
    proof (cases "mSending m")
      case (Some items)
      let ?m = "m\<lparr>mDelivered := mDelivered m @ items, mRetry := None, mSending := None\<rparr>"
      have "accounted ?m = accounted m" "accounted (?m\<lparr>mWaiting := 0\<rparr>) = accounted m"
        using Some by (simp_all add: accounted_def in_transit_def)
      then have "mRows m \<noteq> [] \<Longrightarrow> flush_inv pol (start_flush ?m)" and "mRows m = [] \<Longrightarrow> flush_inv pol (?m\<lparr>mWaiting := 0\<rparr>)"
        using flush_invD [OF inv] max_buffer_pos [of pol] by (simp_all add: start_flush_inv) (simp add: flush_inv_def)
      then show ?thesis using SendSucceeded Some by (auto simp: Let_def)
    qed (use inv SendSucceeded in simp)
  next
    case SendFailed
    show ?thesis
    proof (cases "mSending m")
      case (Some items)
      let ?m = "m\<lparr>mRetry := Some items, mSending := None\<rparr>"
      have acc: "accounted ?m = accounted m" "accounted (?m\<lparr>mWaiting := n\<rparr>) = accounted m" for n
        using Some by (simp_all add: accounted_def in_transit_def)
      have "flush_inv pol (start_flush (?m\<lparr>mWaiting := mWaiting m - 1\<rparr>))"
        by (rule start_flush_inv) (use flush_invD [OF inv] acc Some in auto)
      moreover have "mWaiting m = 0 \<Longrightarrow> flush_inv pol ?m"
        using inv acc Some by (auto simp: flush_inv_def)
      ultimately show ?thesis using SendFailed Some by (auto simp: next_waiting_def)
    qed (use inv SendFailed in simp)
  next
    case DropAll
    have "subseq (mDelivered m) (mAccepted m)" if "subseq (mDelivered m @ xs) (mAccepted m)" for xs
      using that by (rule subseq_order.order_trans [rotated]) (rule prefix_imp_subseq, simp)
    then show ?thesis
      using inv DropAll max_buffer_pos [of pol]
      by (auto simp: flush_inv_def accounted_def in_transit_def split: option.splits)
  qed
qed

interpretation flushing: event_machine "flush_step pol" "flush_inv pol" for pol
  by unfold_locales (rule flush_step_inv)

lemma empty_machine_inv: "flush_inv pol empty_machine"
  using max_buffer_pos [of pol] by (simp add: flush_inv_def empty_machine_def accounted_def in_transit_def)


text \<open>C13. The buffer neither loses nor duplicates nor reorders rows: after any interleaving of
  arriving rows, flush requests, completed and failed sends, the rows delivered so far followed by
  the batch in flight and the rows still buffered are a subsequence of the rows accepted, missing
  exactly the rows counted as given up; and the buffer never grows past its cap.\<close>

theorem buffer_accounts_for_rows:
  "(let m = run_events (flush_step pol) empty_machine es in
    subseq (mDelivered m @ in_transit m @ mRows m) (mAccepted m)
    \<and> length (mDelivered m @ in_transit m @ mRows m) + mLost m = length (mAccepted m)
    \<and> int (length (mRows m)) \<le> max (polBatch pol * 10) 1000)"
  using flushing.run_inv [OF empty_machine_inv, of pol es]
  by (simp add: Let_def flush_inv_def accounted_def max_buffer_def)

text \<open>When nothing was given up, delivery is exact: delivered, in flight and buffered rows
  together are the accepted rows, in order, so once the buffer is empty everything was delivered.\<close>

theorem buffer_exact_without_loss:
  assumes "mLost (run_events (flush_step pol) empty_machine es) = 0"
  shows "(let m = run_events (flush_step pol) empty_machine es in
    mDelivered m @ in_transit m @ mRows m = mAccepted m)"
proof -
  define m where "m = run_events (flush_step pol) empty_machine es"
  have inv: "flush_inv pol m" unfolding m_def by (rule flushing.run_inv [OF empty_machine_inv])
  have "accounted m = mAccepted m"
    by (rule subseq_same_length [OF flush_invD(1) [OF inv]]) (use flush_invD(2) [OF inv] assms [folded m_def] in simp)
  then show ?thesis unfolding Let_def m_def [symmetric] accounted_def .
qed

definition demo_policy :: buffer_policy where
  "demo_policy = \<lparr>polBatch = 2, polInterval = None, polOnFailure = None\<rparr>"

theorem buffer_exact_without_loss_witness:
  "mLost (run_events (flush_step demo_policy) empty_machine
     [PushRow (jint 1), PushRow (jint 2), PushRow (jint 3), FlushRequest, SendFailed, SendSucceeded, SendSucceeded]) = 0
   \<and> mDelivered (run_events (flush_step demo_policy) empty_machine
     [PushRow (jint 1), PushRow (jint 2), PushRow (jint 3), FlushRequest, SendFailed, SendSucceeded, SendSucceeded])
     = [jint 1, jint 2, jint 3]"
proof -
  let ?m = "run_events (flush_step demo_policy) empty_machine
     [PushRow (jint 1), PushRow (jint 2), PushRow (jint 3), FlushRequest, SendFailed, SendSucceeded, SendSucceeded]"
  have lost: "mLost ?m = 0" and rest: "in_transit ?m = []" "mRows ?m = []" "mAccepted ?m = [jint 1, jint 2, jint 3]"
    by code_simp+
  have "mDelivered ?m @ in_transit ?m @ mRows ?m = mAccepted ?m"
    using buffer_exact_without_loss [OF lost] unfolding Let_def .
  then have "mDelivered ?m = [jint 1, jint 2, jint 3]" unfolding rest append_Nil2 .
  with lost show ?thesis ..
qed


section \<open>A flush of one caller\<close>

text \<open>The buffer after a flush: empty when it returns, and the batch kept for retry when it throws.\<close>

lemma lift_run_buffer: "lift_run m s = (r, s') \<Longrightarrow> buffer (snd s') = buffer (snd s)"
  by (auto simp: lift_run_def split: prod.splits)

lemma send_batch_result:
  assumes "send_batch env items s = (r, s')"
  shows "(r = Ret () \<longrightarrow> retryBatch (buffer (snd s')) = None) \<and> (r \<noteq> Ret () \<longrightarrow> retryBatch (buffer (snd s')) = Some items)
     \<and> rows (buffer (snd s')) = rows (buffer (snd s))"
proof -
  obtain r1 s1 where m: "lift_run (sendResult env (JArr items) True) s = (r1, s1)"
    by (cases "lift_run (sendResult env (JArr items) True) s")
  from lift_run_buffer [OF m] show ?thesis
    using assms m by (cases r1; cases s1) (auto simp: send_batch_def modify_buffer_def runtime_simps)
qed

lemma flush_result:
  assumes "flush env s = (r, s')"
  shows "(case r of
      Ret _ \<Rightarrow> rows (buffer (snd s')) = [] \<and> (retryBatch (buffer (snd s')) = None \<or> retryBatch (buffer (snd s')) = Some [])
    | Throw _ \<Rightarrow> (\<exists>items. retryBatch (buffer (snd s')) = Some items
        \<and> suffix (items @ rows (buffer (snd s')))
            ((case retryBatch (buffer (snd s)) of None \<Rightarrow> [] | Some q \<Rightarrow> q) @ rows (buffer (snd s)))))"
proof -
  have rows_round: "(case r of
      Ret _ \<Rightarrow> rows (buffer (snd s')) = [] \<and> retryBatch (buffer (snd s')) = None
    | Throw _ \<Rightarrow> retryBatch (buffer (snd s')) = Some (rows (buffer (snd s))) \<and> rows (buffer (snd s')) = [])"
    if run: "doFlush_loop (Suc (Suc n)) env s = (r, s')" and none: "retryBatch (buffer (snd s)) = None"
    for n s and r :: "unit outcome" and s' :: "('a, 'b) buffered_scheme st"
  proof (cases "rows (buffer (snd s)) = []")
    case True
    then show ?thesis using run none by (auto split: outcome.splits)
  next
    case False
    obtain s1 where s1: "modify_buffer (\<lambda>b. b\<lparr>rows := []\<rparr>) s = (Ret (), s1)" "rows (buffer (snd s1)) = []"
      by (cases s) (simp add: modify_buffer_def)
    obtain r2 s2 where b: "send_batch env (rows (buffer (snd s))) s1 = (r2, s2)"
      by (cases "send_batch env (rows (buffer (snd s))) s1")
    then show ?thesis
      using send_batch_result [OF b] run none False s1 by (cases r2) (auto simp: thenR_apply)
  qed
  have run: "doFlush_loop (Suc (Suc (Suc 0))) env s = (r, s')"
    using assms by (simp add: flush_def numeral_3_eq_3)
  show ?thesis
  proof (cases "retryBatch (buffer (snd s))")
    case None
    then show ?thesis using rows_round [OF run None] by (auto split: outcome.splits simp: None)
  next
    case (Some items)
    show ?thesis
    proof (cases "items = [] \<and> rows (buffer (snd s)) = []")
      case True
      then show ?thesis using run Some by (auto split: outcome.splits)
    next
      case False
      obtain r2 s2 where b: "send_batch env items s = (r2, s2)" by (cases "send_batch env items s")
      show ?thesis
      proof (cases r2)
        case (Ret u)
        then have run2: "doFlush_loop (Suc (Suc 0)) env s2 = (r, s')"
          using run Some False b
          by (simp del: doFlush_loop.simps add: doFlush_loop.simps(2) [of "Suc (Suc 0)"] thenR_apply split: if_splits)
        have "retryBatch (buffer (snd s2)) = None" "rows (buffer (snd s2)) = rows (buffer (snd s))"
          using send_batch_result [OF b] Ret by auto
        then show ?thesis
          using rows_round [OF run2] Some by (cases r) (auto simp: suffix_def)
      next
        case (Throw e)
        then have "r = Throw e" "s' = s2" using run Some False b by (auto simp: thenR_apply)
        then show ?thesis using send_batch_result [OF b] Throw Some by auto
      qed
    qed
  qed
qed

text \<open>A flush whose calls complete one after the other empties the buffer when it returns; when
  it throws, the batch that failed is kept as the batch to retry, ahead of every newer row, and no
  row is forgotten: the failed batch and the rows kept are a final part of what was buffered.\<close>

theorem flush_empties_or_keeps:
  "case flush env s of
      (Ret _, s') \<Rightarrow> rows (buffer (snd s')) = [] \<and> (retryBatch (buffer (snd s')) = None \<or> retryBatch (buffer (snd s')) = Some [])
    | (Throw _, s') \<Rightarrow> (\<exists>items. retryBatch (buffer (snd s')) = Some items
        \<and> suffix (items @ rows (buffer (snd s')))
            ((case retryBatch (buffer (snd s)) of None \<Rightarrow> [] | Some q \<Rightarrow> q) @ rows (buffer (snd s))))"
  using flush_result [of env s "fst (flush env s)" "snd (flush env s)"]
  by (cases "flush env s"; cases "fst (flush env s)") auto

end
