(* ===== verification/Effects.thy ===== *)
theory Effects
  imports Executor_Utils Buffering_Transport
begin

text \<open>
  How the interpreter composes effects on the world. An effect discipline grades how far a run may
  move the world: nothing costs grade 0, and grades add up along a sequence. The locale proves once
  that the interpreter respects any such discipline that its environment and its handler respect;
  it is used for counting (how often a handler is called) and for invariance (what a run cannot
  touch).
\<close>

section \<open>Effect disciplines\<close>

definition eff :: "(nat \<Rightarrow> 'w \<Rightarrow> 'w \<Rightarrow> bool) \<Rightarrow> nat \<Rightarrow> ('w, 'a) run \<Rightarrow> bool" where
  "eff R n m \<longleftrightarrow> (\<forall>s r s'. m s = (r, s') \<longrightarrow> R n (snd s) (snd s'))"

text \<open>The services a step calls, and the lookups of its conditions, cost nothing.\<close>

definition services_free :: "(nat \<Rightarrow> 'w \<Rightarrow> 'w \<Rightarrow> bool) \<Rightarrow> 'w env \<Rightarrow> bool" where
  "services_free R env \<longleftrightarrow>
     (\<forall>d. eff R 0 (sleepMs env d)) \<and> eff R 0 (random env)
     \<and> (\<forall>l m d. eff R 0 (sendLog env l m d)) \<and> (\<forall>v p. eff R 0 (sendResult env v p))
     \<and> (\<forall>ask req. requestHuman env = Some ask \<longrightarrow> eff R 0 (ask req))"

definition lookups_free :: "(nat \<Rightarrow> 'w \<Rightarrow> 'w \<Rightarrow> bool) \<Rightarrow> 'w env \<Rightarrow> bool" where
  "lookups_free R env \<longleftrightarrow>
     (\<forall>t ms. eff R 0 (findElement env t ms)) \<and> (\<forall>x vs. eff R 0 (evaluate env x vs))
     \<and> (\<forall>wait i t. waitForNetworkIdle env = Some wait \<longrightarrow> eff R 0 (wait i t))"

text \<open>One call of the handler costs at most \<open>h\<close>.\<close>

definition handler_costs :: "(nat \<Rightarrow> 'w \<Rightarrow> 'w \<Rightarrow> bool) \<Rightarrow> nat \<Rightarrow> 'w handler \<Rightarrow> bool" where
  "handler_costs R h exec \<longleftrightarrow> (\<forall>a t s r s'. exec a t s = (r, s') \<longrightarrow> R h (snd s) (snd s'))"

text \<open>The callbacks of a run cost nothing.\<close>

definition callbacks_free :: "(nat \<Rightarrow> 'w \<Rightarrow> 'w \<Rightarrow> bool) \<Rightarrow> 'w run_options option \<Rightarrow> bool" where
  "callbacks_free R opts \<longleftrightarrow>
     (\<forall>f p a. Option.bind opts onStepStart = Some f \<longrightarrow> eff R 0 (f p a))
     \<and> (\<forall>f p a. Option.bind opts onStepComplete = Some f \<longrightarrow> eff R 0 (f p a))
     \<and> (\<forall>f p. Option.bind opts onStepFailure = Some f \<longrightarrow> eff R 0 (f p))"

locale effect_discipline =
  fixes R :: "nat \<Rightarrow> 'w \<Rightarrow> 'w \<Rightarrow> bool"
  assumes free: "R 0 w w"
    and compose: "R m w w' \<Longrightarrow> R n w' w'' \<Longrightarrow> R (m + n) w w''"
    and weaken: "R m w w' \<Longrightarrow> m \<le> n \<Longrightarrow> R n w w'"
begin

lemma effI: "(\<And>s r s'. m s = (r, s') \<Longrightarrow> R n (snd s) (snd s')) \<Longrightarrow> eff R n m"
  by (simp add: eff_def)

lemma effD: "eff R n m \<Longrightarrow> m s = (r, s') \<Longrightarrow> R n (snd s) (snd s')"
  unfolding eff_def by blast

lemma stay: "R n w w"
  by (rule weaken [OF free]) simp

lemma eff_pure: "eff R n (returnR a)" "eff R n (throwR e)" "eff R n (readR f)" "eff R n (modifyCtx g)"
  by (simp_all add: eff_def stay)

lemma eff_Pair: "eff R n (Pair (Ret a))" "eff R n (\<lambda>s. (Throw e, s))"
  by (simp_all add: eff_def stay)

lemma eff_mono: "eff R n m \<Longrightarrow> n \<le> k \<Longrightarrow> eff R k m"
  unfolding eff_def using weaken by blast

lemma eff_bindR:
  assumes "eff R n m" and "\<And>a. eff R k (f a)"
  shows "eff R (n + k) (bindR m f)"
proof (rule effI)
  fix s r s' assume b: "bindR m f s = (r, s')"
  obtain r1 s1 where m: "m s = (r1, s1)" by (cases "m s")
  note first = effD [OF assms(1) m]
  show "R (n + k) (snd s) (snd s')"
  proof (cases r1)
    case (Ret a)
    then have "f a s1 = (r, s')" using b m by (simp add: bindR_apply)
    then show ?thesis using compose [OF first] effD [OF assms(2)] by blast
  next
    case (Throw e)
    then have "s' = s1" using b m by (simp add: bindR_apply)
    then show ?thesis using weaken [OF first] by simp
  qed
qed

lemma eff_catchR:
  assumes "eff R n m" and "\<And>e. eff R k (h e)"
  shows "eff R (n + k) (catchR m h)"
proof (rule effI)
  fix s r s' assume b: "catchR m h s = (r, s')"
  obtain r1 s1 where m: "m s = (r1, s1)" by (cases "m s")
  note first = effD [OF assms(1) m]
  show "R (n + k) (snd s) (snd s')"
  proof (cases r1)
    case (Throw e)
    then have "h e s1 = (r, s')" using b m by (simp add: catchR_apply)
    then show ?thesis using compose [OF first] effD [OF assms(2)] by blast
  next
    case (Ret a)
    then have "s' = s1" using b m by (simp add: catchR_apply)
    then show ?thesis using weaken [OF first] by simp
  qed
qed

lemma eff_bindR0: "eff R 0 m \<Longrightarrow> (\<And>a. eff R k (f a)) \<Longrightarrow> eff R k (bindR m f)"
  using eff_bindR [of 0 m k f] by simp

lemma eff_bindR_last: "eff R n m \<Longrightarrow> (\<And>a. eff R 0 (f a)) \<Longrightarrow> eff R n (bindR m f)"
  using eff_bindR [of n m 0 f] by simp

lemma eff_thenR0: "eff R 0 m \<Longrightarrow> eff R k f \<Longrightarrow> eff R k (thenR m f)"
  by (simp add: thenR_def eff_bindR0)

lemma eff_thenR_last: "eff R n m \<Longrightarrow> eff R 0 f \<Longrightarrow> eff R n (thenR m f)"
  by (simp add: thenR_def eff_bindR_last)

lemma eff_catchR0: "eff R 0 m \<Longrightarrow> (\<And>e. eff R k (h e)) \<Longrightarrow> eff R k (catchR m h)"
  using eff_catchR [of 0 m k h] by simp

lemma eff_catchR_last: "eff R n m \<Longrightarrow> (\<And>e. eff R 0 (h e)) \<Longrightarrow> eff R n (catchR m h)"
  using eff_catchR [of n m 0 h] by simp

lemma eff_ignoreR: "eff R n m \<Longrightarrow> eff R n (ignoreR m)"
  unfolding ignoreR_def by (rule eff_catchR_last) (simp_all add: eff_pure)

lemma eff_whenR: "eff R n m \<Longrightarrow> eff R n (whenR b m)"
  by (simp add: whenR_def eff_pure)

lemma eff_finallyR: "eff R 0 m \<Longrightarrow> eff R 0 f \<Longrightarrow> eff R 0 (finallyR m f)"
proof (rule effI)
  fix s r s' assume m: "eff R 0 m" and f: "eff R 0 f" and run: "finallyR m f s = (r, s')"
  obtain r1 s1 where 1: "m s = (r1, s1)" by (cases "m s")
  obtain r2 s2 where 2: "f s1 = (r2, s2)" by (cases "f s1")
  have "s' = s2" using run 1 2 by (cases r2) (simp_all add: finallyR_def)
  then show "R 0 (snd s) (snd s')" using compose [OF effD [OF m 1] effD [OF f 2]] by simp
qed

lemmas eff_intros = eff_pure eff_bindR0 eff_thenR0 eff_ignoreR eff_whenR eff_catchR0

lemma services:
  assumes "services_free R env"
  shows "eff R 0 (sleepMs env d)" "eff R 0 (random env)" "eff R 0 (sendLog env l m dt)"
    "eff R 0 (sendResult env v p)" "requestHuman env = Some ask \<Longrightarrow> eff R 0 (ask req)"
  using assms by (auto simp: services_free_def)

lemma lookups:
  assumes "lookups_free R env"
  shows "eff R 0 (findElement env t ms)" "eff R 0 (evaluate env x vs)"
    "waitForNetworkIdle env = Some wait \<Longrightarrow> eff R 0 (wait i t')"
  using assms by (auto simp: lookups_free_def)

lemma eff_afterSoftTimeout:
  "services_free R env \<Longrightarrow> eff R 0 (afterSoftTimeout env a timer hard start pnd)"
  unfolding afterSoftTimeout_def softTimeoutWarning_def
  by (cases timer) (simp_all add: eff_intros services(3))

lemma eff_markCheckpoint: "eff R 0 (markCheckpoint env a)"
  unfolding markCheckpoint_def by (rule eff_whenR) (simp add: eff_def free)

lemma eff_executeWithTimeout:
  assumes "services_free R env" and "handler_costs R h exec"
  shows "eff R h (executeWithTimeout env exec a t soft)"
proof -
  have body: "eff R h (\<lambda>s. case exec a (t + 100) s of
                (Settled r, s') \<Rightarrow> thenR (w False) (case r of Ret _ \<Rightarrow> returnR () | Throw e \<Rightarrow> throwR e) s'
              | (Pending, s') \<Rightarrow> thenR (w True) (throwR (Error ''TimeoutError'')) s')" (is "eff R h ?m")
    if w: "\<And>b. eff R 0 (w b)" for w
  proof (rule effI)
    fix s r s' assume eq: "?m s = (r, s')"
    obtain x s1 where x: "exec a (t + 100) s = (x, s1)" by (cases "exec a (t + 100) s")
    then have le: "R h (snd s) (snd s1)"
      using assms(2) unfolding handler_costs_def by blast
    have settled: "eff R 0 (thenR (w False) (case r of Ret _ \<Rightarrow> returnR () | Throw e \<Rightarrow> throwR e))"
      for r :: "jval outcome"
      by (rule eff_thenR0 [OF w]) (auto simp: eff_pure split: outcome.split)
    have pnd: "eff R 0 (thenR (w True) (throwR (Error ''TimeoutError'')) :: ('w, unit) run)"
      by (rule eff_thenR0 [OF w]) (rule eff_pure)
    have "R 0 (snd s1) (snd s')"
    proof (cases x)
      case (Settled r1)
      then show ?thesis using eq x effD [OF settled [of r1], of s1] by simp
    next
      case Pending
      then show ?thesis using eq x effD [OF pnd, of s1] by simp
    qed
    from compose [OF le this] show "R h (snd s) (snd s')" by simp
  qed
  show ?thesis
    unfolding executeWithTimeout_def
    by (intro eff_bindR0 eff_thenR0 eff_pure eff_markCheckpoint body eff_afterSoftTimeout assms(1))
qed

lemma eff_calculateDelay: "services_free R env \<Longrightarrow> eff R 0 (calculateDelay env rc n)"
  by (auto simp: calculateDelay_def eff_intros services(2) split: option.split retry_delay.split)

lemma eff_step_attempts:
  assumes "services_free R env" and "handler_costs R h exec"
  shows "eff R (n * h) (step_attempts n env exec a t rc k lastErr)"
proof (induction n arbitrary: k lastErr)
  case (Suc n)
  have "eff R (h + n * h) (step_attempts (Suc n) env exec a t rc k lastErr)"
    unfolding step_attempts.simps
    by (intro eff_catchR eff_thenR_last eff_executeWithTimeout eff_pure assms)
      (auto simp: eff_intros eff_calculateDelay services assms Suc.IH)
  then show ?case by simp
qed (simp add: eff_pure)

lemma eff_requestHumanIntervention:
  assumes "services_free R env" shows "eff R 0 (requestHumanIntervention env req)"
proof (cases "requestHuman env")
  case (Some ask)
  have "eff R 0 (\<lambda>s. ask (req\<lparr>reqUrl := getUrl env s\<rparr>) s)"
    unfolding eff_def using services(5) [OF assms Some] effD by fast
  then show ?thesis
    using Some by (simp add: requestHumanIntervention_def eff_intros services(3) [OF assms])
qed (simp add: requestHumanIntervention_def eff_pure)

lemma eff_stepFailed: "services_free R env \<Longrightarrow> eff R 0 (stepFailed env a err)"
  unfolding stepFailed_def Let_def
  by (auto simp: eff_intros eff_requestHumanIntervention services)

lemma eff_runStepBody_at:
  assumes "services_free R env" and "handler_costs R h exec" and "runStepBody env exec a s = (r, s')"
  shows "R (nat (maxAttempts (step_retry a (fst s)) + 1) * h) (snd s) (snd s')"
proof -
  let ?t = "step_timeout a (fst s)" and ?rc = "step_retry a (fst s)"
  let ?m = "bindR (step_attempts (nat (maxAttempts ?rc + 1)) env exec a ?t ?rc 0 None)
         (\<lambda>r. case r of StepDone \<Rightarrow> returnR None | GaveUp e \<Rightarrow> stepFailed env a (error_of_step a ?rc e))"
  have "runStepBody env exec a s = ?m s"
    by (simp add: runStepBody_def bindR_apply)
  moreover have "eff R (nat (maxAttempts ?rc + 1) * h) ?m"
    by (rule eff_bindR_last)
      (auto intro: eff_step_attempts eff_stepFailed eff_pure assms(1,2) split: attempt_result.split)
  ultimately show ?thesis using effD assms(3) by metis
qed

lemma eff_interpolate_target: "eff R 0 (interpolate_target t)"
  by (simp add: interpolate_target_def eff_def free)

lemma eff_resolve_target: "eff R 0 (resolve_target t)"
  by (auto simp: resolve_target_def interpolate_target_def eff_def free runtime_simps split: sum.splits)

lemma eff_interp: "eff R 0 (interp v)"
  by (simp add: interp_def eff_def free)

lemma eff_find_condition_element:
  "lookups_free R env \<Longrightarrow> eff R 0 (find_condition_element env c f)"
  unfolding find_condition_element_def condition_target_def
  by (auto simp: eff_bindR0 eff_pure eff_resolve_target lookups split: option.split)

lemma eff_evaluateCondition:
  assumes "lookups_free R env" shows "eff R 0 (evaluateCondition env c)"
  unfolding evaluateCondition_def
  by (auto simp: eff_bindR0 eff_catchR0 eff_pure eff_interp eff_find_condition_element [OF assms]
      lookups [OF assms] split: option.split sum.split)

lemma eff_runStep:
  assumes "services_free R env" and "lookups_free R env" and "handler_costs R 0 exec"
  shows "eff R 0 (runStep env exec a)"
proof -
  have "eff R 0 (runStepBody env exec a)"
    using eff_runStepBody_at [OF assms(1,3)] by (auto intro: effI)
  then show ?thesis
    unfolding runStep_def by (auto simp: eff_bindR0 eff_evaluateCondition [OF assms(2)] eff_pure split: option.split)
qed

lemma eff_checkAborted: "eff R n (checkAborted env)"
  by (rule eff_mono [of 0]) (simp_all add: checkAborted_def eff_intros)

lemma eff_throw_on_error: "eff R n m \<Longrightarrow> eff R n (throw_on_error m)"
  unfolding throw_on_error_def by (rule eff_bindR_last) (auto simp: eff_pure split: option.split)

lemma eff_loop_iterations:
  assumes "\<And>i. eff R 0 (guard i)" and "\<And>i. eff R 0 (enter i)" and "\<And>i. eff R b (body i)"
  shows "eff R (n * b) (loop_iterations n env guard enter k body i)"
proof (induction n arbitrary: i)
  case (Suc n)
  have "eff R (b + n * b) (\<lambda>s. case throw_on_error (body i) s of
                       (Ret _, s') \<Rightarrow> loop_iterations n env guard enter k body (i + 1) s'
                     | (Throw (FlowControlSignal BreakSignal), s') \<Rightarrow> (Ret (), s')
                     | (Throw (FlowControlSignal ContinueSignal), s') \<Rightarrow>
                         loop_iterations n env guard enter k body (i + 1) s'
                     | (Throw e, s') \<Rightarrow> (Throw e, s'))" (is "eff _ _ ?m")
  proof (rule effI)
    fix s r s' assume m: "?m s = (r, s')"
    obtain r1 s1 where t: "throw_on_error (body i) s = (r1, s1)" by (cases "throw_on_error (body i) s")
    note first = effD [OF eff_throw_on_error [OF assms(3)] t]
    have "loop_iterations n env guard enter k body (i + 1) s1 = (r, s') \<or> s' = s1"
      using m t by (auto split: outcome.splits exn.splits flow_signal.splits)
    then have "R (n * b) (snd s1) (snd s')"
      by (elim disjE) (erule effD [OF Suc.IH], simp add: stay)
    with first show "R (b + n * b) (snd s) (snd s')" by (rule compose)
  qed
  moreover have "eff R (b + n * b) (loop_iterations n env guard enter k body (i + 1))"
    using Suc.IH by (rule eff_mono) simp
  ultimately show ?case
    by (auto simp: assms eff_intros eff_checkAborted)
qed (simp add: eff_pure)

lemma eff_runLoopAction:
  assumes "lookups_free R env" and "\<And>i. eff R b (body i)"
  shows "eff R (nat (loop_limit m) * b) (runLoopAction env kind m opts body)"
proof -
  let ?L = "nat (loop_limit m)"
  have le: "eff R (?L * b) (loop_iterations n env g e k body 0)"
    if "n \<le> ?L" "\<And>i. eff R 0 (g i)" "\<And>i. eff R 0 (e i)" for n g e k
    by (rule eff_mono [of "n * b"]) (use that assms(2) eff_loop_iterations in auto)
  have idx: "eff R 0 (set_loop_index i)" "eff R 0 (set_loop_item vs i)" for i vs
    by (simp_all add: set_loop_index_def set_loop_item_def eff_pure)
  have find: "eff R 0 (find_loop_element env t)" for t
    unfolding find_loop_element_def by (rule eff_bindR0 [OF eff_interpolate_target]) (rule lookups [OF assms(1)])
  have count: "count_iterations v (loop_limit m) \<le> ?L" for v
    by (cases v) auto
  have each: "eff R (?L * b) (case v of JArr vs \<Rightarrow> loop_iterations (nat (min (int (length vs)) (loop_limit m)))
      env (\<lambda>_. returnR True) (set_loop_item vs) k body 0 | _ \<Rightarrow> returnR ())" for v k
    by (cases v) (auto intro!: le simp: idx eff_pure)
  show ?thesis
    by (cases kind)
      (auto simp: runLoopAction_def Let_def idx find eff_pure eff_evaluateCondition [OF assms(1)] eff_interp each count
         intro!: eff_bindR0 le split: option.split)
qed

lemma eff_call_opt: "(\<And>f. cb = Some f \<Longrightarrow> eff R 0 (f x)) \<Longrightarrow> eff R 0 (call_opt cb x)"
  by (cases cb) (auto simp: call_opt_def eff_pure)

lemma callbacks_dispatch: "callbacks_free R opts \<Longrightarrow> callbacks_free R (dispatch_options pnd i opts)"
  by (cases opts) (auto simp: callbacks_free_def dispatch_options_def set_resume_def split: option.split)

lemma callbacks_child: "callbacks_free R opts \<Longrightarrow> callbacks_free R (child_options opts p ff)"
  by (cases opts) (auto simp: callbacks_free_def child_options_def)

lemma callbacks_loop_child: "callbacks_free R opts \<Longrightarrow> callbacks_free R (loop_child_options opts p i)"
  by (cases opts) (auto simp: callbacks_free_def loop_child_options_def child_options_def set_resume_def)

lemma eff_steps_loop:
  assumes "callbacks_free R opts" and "\<And>a o' p. a \<in> set as \<Longrightarrow> callbacks_free R o' \<Longrightarrow> eff R 0 (one a o' p)"
  shows "eff R 0 (steps_loop env one opts pnd i as)"
  using assms(2)
proof (induction as arbitrary: i pnd)
  case (Cons a as)
  have cb: "eff R 0 (call_opt (map_option (\<lambda>f p. f p a) (Option.bind opts onStepStart)) p)"
    "eff R 0 (call_opt (map_option (\<lambda>f p. f p a) (Option.bind opts onStepComplete)) p)"
    "eff R 0 (call_opt (Option.bind opts onStepFailure) p)" for p
    using assms(1) by (auto simp: callbacks_free_def intro!: eff_call_opt)
  have one: "eff R 0 (one a (dispatch_options pnd i opts) p)" for p
    by (rule Cons.prems) (simp_all add: callbacks_dispatch assms(1))
  have rest: "eff R 0 (steps_loop env one opts p (i + 1) as)" for p
    by (rule Cons.IH) (simp add: Cons.prems)
  show ?case
    unfolding steps_loop.simps
    by (intro eff_thenR0 eff_checkAborted eff_pure eff_whenR cb eff_bindR0 one)
      (auto simp: eff_intros cb rest split: option.split)
qed (simp add: eff_pure)

lemma eff_run_steps_with:
  assumes "callbacks_free R opts" and "\<And>a o' p. a \<in> set as \<Longrightarrow> callbacks_free R o' \<Longrightarrow> eff R 0 (one a o' p)"
  shows "eff R 0 (run_steps_with env one as opts)"
  unfolding run_steps_with_def Let_def
  by (rule eff_steps_loop [OF assms(1)]) (auto dest: in_set_dropD intro: assms(2))

lemma eff_catch_as_error: "eff R 0 m \<Longrightarrow> eff R 0 (catch_as_error m)"
  unfolding catch_as_error_def by (intro eff_catchR0 eff_thenR0 eff_pure) (auto simp: eff_pure)

lemma eff_with_soft_timer:
  assumes "services_free R env" and "eff R 0 m"
  shows "eff R 0 (with_soft_timer env a m)"
proof (rule effI)
  fix s r s' assume c: "with_soft_timer env a m s = (r, s')"
  obtain r1 s1 where m: "m s = (r1, s1)" by (cases "m s")
  obtain x s2 where t: "afterSoftTimeout env a (scheduleSoftTimeout (softTimeout (base a)) None) None (nowMs env s) False s1 = (x, s2)"
    by (cases "afterSoftTimeout env a (scheduleSoftTimeout (softTimeout (base a)) None) None (nowMs env s) False s1")
  have "s' = s2" using c m t by (cases x) (simp_all add: with_soft_timer_def runtime_simps)
  then show "R 0 (snd s) (snd s')"
    using compose [OF effD [OF assms(2) m] effD [OF eff_afterSoftTimeout [OF assms(1)] t]] by simp
qed

lemma eff_run_action:
  assumes env: "services_free R env" "lookups_free R env" and exec: "handler_costs R 0 exec"
  shows "callbacks_free R opts \<Longrightarrow> eff R 0 (run_action env exec a opts p)"
proof (induction a arbitrary: opts p rule: measure_induct_rule [of size])
  case (less a)
  note steps = eff_run_steps_with [where one = "run_action env exec" and env = env]
  show ?case
  proof (cases a)
    case (Leaf b t fs nested)
    then show ?thesis using eff_runStep env exec by (simp add: run_action.simps)
  next
    case (IfA b c th el)
    have "eff R 0 (run_steps_with env (run_action env exec) (branch_steps br th el) (child_options opts p (IfFrame br)))" for br
      by (rule steps) (use less IfA size_branch_steps callbacks_child in blast)+
    moreover have "eff R 0 (choose_branch env c opts)"
      unfolding choose_branch_def
      by (auto simp: eff_pure eff_bindR0 eff_evaluateCondition [OF env(2)] split: option.split step_path_frame.split)
    ultimately show ?thesis
      unfolding IfA run_action.simps
      by (intro eff_with_soft_timer env eff_bindR0 eff_thenR0 eff_throw_on_error eff_pure) auto
  next
    case (LoopA b kind m body)
    have "eff R 0 (run_steps_with env (run_action env exec) body (loop_child_options opts p i))" for i
      by (rule steps) (use less LoopA size_list_member callbacks_loop_child in auto)
    then have "eff R (nat (loop_limit m) * 0) (runLoopAction env kind m opts
        (\<lambda>i. run_steps_with env (run_action env exec) body (loop_child_options opts p i)))"
      by (intro eff_runLoopAction env) auto
    then show ?thesis
      unfolding LoopA run_action.simps by (intro eff_with_soft_timer env eff_thenR0 eff_pure) simp
  next
    case (SwitchA b expr cases' def)
    show ?thesis
    proof (cases cases')
      case None
      then show ?thesis
        unfolding SwitchA run_action.simps None option.case
        by (intro eff_with_soft_timer env eff_catch_as_error eff_pure)
    next
      case (Some cs)
      have r: "eff R 0 (throw_on_error (run_steps_with env (run_action env exec) chosen (child_options opts p (SwitchFrame k))))"
        if "choose_case expr cs def rf c = (k, chosen)" for rf c k chosen
      proof (intro eff_throw_on_error steps)
        show "callbacks_free R (child_options opts p (SwitchFrame k))" using less.prems by (rule callbacks_child)
        show "eff R 0 (run_action env exec x o' q)" if "x \<in> set chosen" "callbacks_free R o'" for x o' q
          using less.IH [of x o' q] size_choose_case [of x expr cs def rf c b] that
            \<open>choose_case expr cs def rf c = (k, chosen)\<close> SwitchA Some by simp
      qed
      have "eff R 0 (\<lambda>s. case choose_case expr cs def (resume_frame opts) (fst s) of
          (k, chosen) \<Rightarrow> throw_on_error (run_steps_with env (run_action env exec) chosen (child_options opts p (SwitchFrame k))) s)"
      proof (rule effI)
        fix s x s'
        assume m: "(case choose_case expr cs def (resume_frame opts) (fst s) of
          (k, chosen) \<Rightarrow> throw_on_error (run_steps_with env (run_action env exec) chosen (child_options opts p (SwitchFrame k))) s) = (x, s')"
        obtain k chosen where c: "choose_case expr cs def (resume_frame opts) (fst s) = (k, chosen)"
          by (cases "choose_case expr cs def (resume_frame opts) (fst s)")
        show "R 0 (snd s) (snd s')" using effD [OF r [OF c], of s x s'] m c by simp
      qed
      then show ?thesis
        unfolding SwitchA run_action.simps Some option.case
        by (intro eff_with_soft_timer env eff_catch_as_error)
    qed
  next
    case (GroupA b body)
    have "eff R 0 (run_steps_with env (run_action env exec) body (child_options opts p GroupFrame))"
      by (rule steps) (use less GroupA size_list_member callbacks_child in auto)
    then show ?thesis
      unfolding GroupA run_action.simps by (intro eff_with_soft_timer env eff_catch_as_error eff_throw_on_error)
  qed
qed

lemma eff_runSteps:
  assumes "services_free R env" "lookups_free R env" "handler_costs R 0 exec" "callbacks_free R opts"
  shows "eff R 0 (runSteps env exec as opts)"
  unfolding runSteps_def by (rule eff_run_steps_with [OF assms(4)]) (rule eff_run_action [OF assms(1-3)])

end


section \<open>The disciplines in use\<close>

text \<open>Counting: a measure of the world grows by at most the grade.\<close>

definition counts :: "('w \<Rightarrow> nat) \<Rightarrow> nat \<Rightarrow> 'w \<Rightarrow> 'w \<Rightarrow> bool" where
  "counts cnt n w w' \<longleftrightarrow> cnt w' \<le> cnt w + n"

interpretation counting: effect_discipline "counts cnt" for cnt
  by unfold_locales (auto simp: counts_def)

text \<open>Invariance: a view of the world is the same before and after a free run.\<close>

definition keeps :: "('w \<Rightarrow> 'v) \<Rightarrow> nat \<Rightarrow> 'w \<Rightarrow> 'w \<Rightarrow> bool" where
  "keeps view n w w' \<longleftrightarrow> 0 < n \<or> view w' = view w"

interpretation keeping: effect_discipline "keeps view" for view
  by unfold_locales (auto simp: keeps_def)

text \<open>Preservation: a property of the world survives a free run.\<close>

definition preserves :: "('w \<Rightarrow> bool) \<Rightarrow> nat \<Rightarrow> 'w \<Rightarrow> 'w \<Rightarrow> bool" where
  "preserves P n w w' \<longleftrightarrow> 0 < n \<or> (P w \<longrightarrow> P w')"

interpretation preserving: effect_discipline "preserves P" for P
  by unfold_locales (auto simp: preserves_def)

lemma eff_keeps_preserves:
  assumes "eff (keeps view) 0 m" shows "eff (preserves (\<lambda>w. P (view w))) 0 m"
  using assms unfolding eff_def keeps_def preserves_def by fastforce


section \<open>Relations on the whole state\<close>

text \<open>
  What holds between the states before and after a computation, context included, when it is
  reflexive and transitive: \<open>holds P m\<close>.
\<close>

definition holds :: "('w st \<Rightarrow> 'w st \<Rightarrow> bool) \<Rightarrow> ('w, 'a) run \<Rightarrow> bool" where
  "holds P m \<longleftrightarrow> (\<forall>s r s'. m s = (r, s') \<longrightarrow> P s s')"

lemma holdsI: "(\<And>s r s'. m s = (r, s') \<Longrightarrow> P s s') \<Longrightarrow> holds P m"
  unfolding holds_def by blast

lemma holdsD: "holds P m \<Longrightarrow> m s = (r, s') \<Longrightarrow> P s s'"
  unfolding holds_def by blast

lemma holds_fun: "(\<And>s. holds P (f s)) \<Longrightarrow> holds P (\<lambda>s. f s s)"
  unfolding holds_def by blast

locale state_discipline =
  fixes P :: "'w st \<Rightarrow> 'w st \<Rightarrow> bool"
  assumes stay: "P s s" and step: "P s s' \<Longrightarrow> P s' s'' \<Longrightarrow> P s s''"
begin

lemma holds_bindR:
  assumes "holds P m" "\<And>a. holds P (f a)" shows "holds P (bindR m f)"
proof (rule holdsI)
  fix s r s' assume run: "bindR m f s = (r, s')"
  obtain r1 s1 where 1: "m s = (r1, s1)" by (cases "m s")
  show "P s s'"
  proof (cases r1)
    case (Ret a)
    then have "f a s1 = (r, s')" using run 1 by (simp add: bindR_apply)
    from step [OF holdsD [OF assms(1) 1] holdsD [OF assms(2) this]] show ?thesis .
  next
    case (Throw e)
    then show ?thesis using run 1 holdsD [OF assms(1) 1] by (simp add: bindR_apply)
  qed
qed

lemma holds_catchR:
  assumes "holds P m" "\<And>e. holds P (h e)" shows "holds P (catchR m h)"
proof (rule holdsI)
  fix s r s' assume run: "catchR m h s = (r, s')"
  obtain r1 s1 where 1: "m s = (r1, s1)" by (cases "m s")
  show "P s s'"
  proof (cases r1)
    case (Throw e)
    then have "h e s1 = (r, s')" using run 1 by (simp add: catchR_apply)
    from step [OF holdsD [OF assms(1) 1] holdsD [OF assms(2) this]] show ?thesis .
  next
    case (Ret a)
    then show ?thesis using run 1 holdsD [OF assms(1) 1] by (simp add: catchR_apply)
  qed
qed

lemma holds_thenR: "holds P m \<Longrightarrow> holds P f \<Longrightarrow> holds P (thenR m f)"
  unfolding thenR_def by (rule holds_bindR)

lemma holds_finallyR:
  assumes "holds P m" "holds P f" shows "holds P (finallyR m f)"
proof (rule holdsI)
  fix s r s' assume run: "finallyR m f s = (r, s')"
  obtain r1 s1 where 1: "m s = (r1, s1)" by (cases "m s")
  obtain r2 s2 where 2: "f s1 = (r2, s2)" by (cases "f s1")
  have "s2 = s'" using run 1 2 by (cases r2) (simp_all add: finallyR_def)
  with step [OF holdsD [OF assms(1) 1] holdsD [OF assms(2) 2]] show "P s s'" by simp
qed

lemma holds_pure: "holds P (returnR a)" "holds P (throwR e)" "holds P (\<lambda>s. (Ret (g s), s))" "holds P (Pair (Ret a))"
  by (auto simp: holds_def stay)

lemma holds_whenR: "holds P m \<Longrightarrow> holds P (whenR b m)"
  by (simp add: whenR_def holds_pure)

end

end
