(* ===== verification/Demo_Env.thy ===== *)
theory Demo_Env
  imports Effects
begin

text \<open>
  A concrete environment and a concrete leaf handler, on which the properties of the interpreter
  are evaluated. The world records what happened as a list of events, a clock, whether the run
  was cancelled, and the completed paths. The handler understands a few leaf actions: \<open>note\<close> records its text, \<open>fail\<close> throws
  its message, \<open>flaky\<close> fails once with a network error, \<open>hang\<close> never settles, \<open>stop\<close> cancels the
  run, and \<open>break\<close>, \<open>continue\<close> and \<open>exit\<close> raise the signals the source's handlers raise.
\<close>

record demo =
  events :: "string list"
  clock :: int
  cancelled :: bool
  completed :: "step_path list"

definition demo_event :: "string \<Rightarrow> (demo, unit) run" where
  "demo_event e = (\<lambda>(c, w). (Ret (), (c, w\<lparr>events := events w @ [e]\<rparr>)))"

definition demo_env :: "demo env" where
  "demo_env = \<lparr>
     findElement = (\<lambda>t ms. returnR (if obj_get t ''present'' = JBool True
                                    then Some \<lparr>textContent = Some ''text'', elValue = JStr ''value''\<rparr> else None)),
     sleepMs = (\<lambda>d (c, w). (Ret (), (c, w\<lparr>clock := clock w + d\<rparr>))),
     nowMs = (\<lambda>(c, w). clock w),
     getUrl = (\<lambda>_. ''https://shop.example/list''),
     getTitle = (\<lambda>_. ''List''),
     evaluate = (\<lambda>src vars. returnR (JBool (src = ''return true''))),
     saveSnapshot = (\<lambda>name fmt. returnR JNull),
     waitForNetworkIdle = None,
     aborted = (\<lambda>(c, w). cancelled w),
     random = returnR (1 / 2),
     regexTest = (\<lambda>p x. Inr (js_includes x p)),
     sendResult = (\<lambda>v partial. demo_event ''result''),
     sendLog = (\<lambda>level m d. demo_event (''log:'' @ level)),
     sendStatus = (\<lambda>st m. demo_event (''status:'' @ st)),
     sendSnapshot = (\<lambda>v. demo_event ''snapshot''),
     requestHuman = Some (\<lambda>req. thenR (demo_event ''human'')
        (returnR \<lparr>decisionId = ''d1'', checkpointId = ''c1'', decisionStatus = ''approved''\<rparr>)),
     flushResults = None, sendHeartbeat = (\<lambda>p. returnR False), fetchRule = (\<lambda>i. returnR None)\<rparr>"

definition demo_exec :: "demo handler" where
  "demo_exec a t = (\<lambda>(c, w).
     let k = actionType a; x = js_String (leafField a ''text'');
         w' = w\<lparr>events := events w @ [k @ '':'' @ x]\<rparr> in
     if k = ''fail'' then (Settled (Throw (Error x)), (c, w'))
     else if k = ''flaky'' then
       (Settled (if (k @ '':'' @ x) \<in> set (events w) then Ret JUndef else Throw (Error ''NetworkError'')), (c, w'))
     else if k = ''hang'' then (Pending, (c, w'\<lparr>clock := clock w + t\<rparr>))
     else if k = ''stop'' then (Settled (Ret JUndef), (c, w'\<lparr>cancelled := True\<rparr>))
     else if k = ''break'' then (Settled (Throw (FlowControlSignal BreakSignal)), (c, w'))
     else if k = ''continue'' then (Settled (Throw (FlowControlSignal ContinueSignal)), (c, w'))
     else if k = ''exit'' then (Settled (Throw (ExitSignal Success x)), (c, w'))
     else (Settled (Ret JUndef), (c, w')))"

definition leaf_step :: "string \<Rightarrow> string \<Rightarrow> action" where
  "leaf_step t x = Leaf empty_base t [(''text'', JStr x)] []"

definition demo_ctx :: runtime_context where
  "demo_ctx = \<lparr>variables = [], extracted = [], evaluated = [], captured = [], loopIndex = JUndef,
     loopItem = JUndef, pageInfo = JUndef, taskId = ''t1'', ruleId = ''r1'', ruleVersion = ''1.0.0'',
     workerId = ''w1'', lastStepId = None, lastError = None, checkpoint = None, resultsSent = 0,
     logsSent = 0, tags = None, ruleDefaults = None\<rparr>"

definition demo_start :: "demo st" where
  "demo_start = (demo_ctx, \<lparr>events = [], clock = 0, cancelled = False, completed = []\<rparr>)"

definition plain_options :: "'w run_options" where
  "plain_options = \<lparr>resumePath = None, pathPrefix = None, frameFor = None,
     onStepStart = None, onStepComplete = None, onStepFailure = None\<rparr>"

definition resume_at :: "step_path \<Rightarrow> 'w run_options" where
  "resume_at p = plain_options\<lparr>resumePath := Some p\<rparr>"

definition recording_options :: "demo run_options" where
  "recording_options = plain_options\<lparr>onStepComplete :=
     Some (\<lambda>p a (c, w). (Ret (), (c, w\<lparr>completed := completed w @ [p]\<rparr>)))\<rparr>"

definition demo_run :: "action list \<Rightarrow> demo run_options option \<Rightarrow> step_result outcome \<times> string list" where
  "demo_run as opts = (case runSteps demo_env demo_exec as opts demo_start of (r, (c, w)) \<Rightarrow> (r, events w))"

text \<open>How often an event happened, and that the services of the environment cause no leaf event\<close>

definition demo_count :: "string \<Rightarrow> demo \<Rightarrow> nat" where
  "demo_count e w = length (filter ((=) e) (events w))"

lemma demo_event_effect:
  "eff (keeps completed) 0 (demo_event x)"
  "e \<noteq> x \<Longrightarrow> eff (counts (demo_count e)) 0 (demo_event x)"
  by (simp_all add: eff_def demo_event_def keeps_def counts_def demo_count_def split_beta)

lemma demo_env_fields:
  "sleepMs demo_env d = (\<lambda>(c, w). (Ret (), (c, w\<lparr>clock := clock w + d\<rparr>)))"
  "random demo_env = returnR (1 / 2)"
  "sendLog demo_env l m x = demo_event (''log:'' @ l)"
  "sendResult demo_env v b = demo_event ''result''"
  "requestHuman demo_env = Some (\<lambda>req. thenR (demo_event ''human'')
        (returnR \<lparr>decisionId = ''d1'', checkpointId = ''c1'', decisionStatus = ''approved''\<rparr>))"
  "findElement demo_env = (\<lambda>t ms. returnR (if obj_get t ''present'' = JBool True
                                    then Some \<lparr>textContent = Some ''text'', elValue = JStr ''value''\<rparr> else None))"
  "evaluate demo_env = (\<lambda>src vars. returnR (JBool (src = ''return true'')))"
  "waitForNetworkIdle demo_env = None"
  by (simp_all add: demo_env_def)

lemma demo_services:
  assumes "e \<noteq> ''human''" "e \<noteq> ''result''" and "\<And>l. e \<noteq> ''log:'' @ l"
  shows "services_free (counts (demo_count e)) demo_env"
proof -
  have "eff (counts (demo_count e)) 0 (sleepMs demo_env d)" for d
    by (simp add: demo_env_fields eff_def counts_def demo_count_def split_beta)
  then show ?thesis
    using assms unfolding services_free_def demo_env_fields(2-5)
    by (auto intro!: counting.eff_pure counting.eff_thenR0 demo_event_effect(2) simp del: append_Cons)
qed

lemma demo_lookups: "lookups_free (counts cnt) demo_env"
  by (simp add: lookups_free_def demo_env_fields counting.eff_pure)

lemma demo_handler: "handler_costs (counts (demo_count e)) 1 demo_exec"
  by (auto simp: handler_costs_def counts_def demo_exec_def demo_count_def Let_def split: if_splits prod.splits)

lemma demo_keeps_services: "services_free (keeps completed) demo_env"
proof -
  have "eff (keeps completed) 0 (sleepMs demo_env d)" for d
    by (simp add: demo_env_fields eff_def keeps_def split_beta)
  then show ?thesis
    unfolding services_free_def demo_env_fields(2-5)
    by (auto intro!: keeping.eff_pure keeping.eff_thenR0 demo_event_effect(1) simp del: append_Cons)
qed

lemma demo_keeps_lookups: "lookups_free (keeps completed) demo_env"
  by (simp add: lookups_free_def demo_env_fields keeping.eff_pure)

lemma demo_keeps_handler: "handler_costs (keeps completed) 0 demo_exec"
  by (auto simp: handler_costs_def keeps_def demo_exec_def Let_def split: if_splits prod.splits)

end
