(* ===== verification/Step_Laws.thy ===== *)
theory Step_Laws
  imports Demo_Env
begin

text \<open>
  Laws of the sequential loop of \<open>runSteps\<close>: how a run splits at a position, that the resume cursor
  is consumed once, and that resuming at a leaf or a loop continues the interrupted run.
\<close>

section \<open>Sequencing\<close>

text \<open>The resume cursor after the steps at the positions \<open>i, \<dots>, i + n - 1\<close>\<close>

definition pending_after :: "step_path option \<Rightarrow> int \<Rightarrow> nat \<Rightarrow> step_path option" where
  "pending_after pending i n =
     (if \<exists>j \<in> {i..<i + int n}. is_resume_target pending j then None else pending)"

lemma is_resume_target_None [simp]: "\<not> is_resume_target None i"
  by (simp add: is_resume_target_def)

lemma pending_after_0 [simp]: "pending_after p i 0 = p"
  by (simp add: pending_after_def)

lemma pending_after_None [simp]: "pending_after None i n = None"
  by (simp add: pending_after_def)

lemma pending_after_Suc:
  "pending_after p i (Suc n) = pending_after (if is_resume_target p i then None else p) (i + 1) n"
proof -
  have "{i..<i + int (Suc n)} = insert i {i + 1..<i + 1 + int n}" by auto
  then show ?thesis by (auto simp: pending_after_def)
qed

lemma steps_loop_append:
  "steps_loop env one opts p i (as @ bs) s =
     (case steps_loop env one opts p i as s of
        (Ret None, s') \<Rightarrow> steps_loop env one opts (pending_after p i (length as)) (i + int (length as)) bs s'
      | (r, s') \<Rightarrow> (r, s'))"
proof (induction as arbitrary: p i s)
  case (Cons a as)
  have i: "i + 1 + int (length as) = i + int (length (a # as))" by simp
  show ?case
    by (simp add: thenR_apply bindR_apply Cons.IH pending_after_Suc i
        split: outcome.split prod.split option.split)
qed (simp add: returnR_apply)

text \<open>Once the cursor is consumed, the resume path of the options no longer matters.\<close>

lemma dispatch_None: "dispatch_options None i opts = set_resume None opts"
  by (simp add: dispatch_options_def)

lemma set_resume_simps [simp]:
  "set_resume None None = None"
  "set_resume p (Some o') = Some (o'\<lparr>resumePath := p\<rparr>)"
  "set_resume p (set_resume q opts) = set_resume p opts"
  by (auto simp: set_resume_def option.map_comp comp_def)

lemma child_path_set_resume [simp]: "child_path (set_resume p opts) i = child_path opts i"
  by (cases opts) (auto simp: child_path_def opt_prefix_def opt_frame_def set_resume_def)

lemma callbacks_set_resume [simp]:
  "Option.bind (set_resume p opts) onStepStart = Option.bind opts onStepStart"
  "Option.bind (set_resume p opts) onStepComplete = Option.bind opts onStepComplete"
  "Option.bind (set_resume p opts) onStepFailure = Option.bind opts onStepFailure"
  by (cases opts; simp add: set_resume_def)+

lemma steps_loop_forgets_resume:
  "steps_loop env one (set_resume q opts) None i as = steps_loop env one opts None i as"
  by (induction as arbitrary: i) (auto simp: dispatch_None)

lemma run_steps_with_no_resume:
  "Option.bind opts resumePath = None \<Longrightarrow>
   run_steps_with env one as opts = steps_loop env one opts None 0 as"
  by (simp add: run_steps_with_def start_index_def)

lemma set_resume_None_id: "Option.bind opts resumePath = None \<Longrightarrow> set_resume None opts = opts"
  by (cases opts) (auto simp: set_resume_def)


section \<open>Resuming at a step\<close>

text \<open>A leaf ignores the resume payload; a loop ignores a payload whose head is not a loop frame.\<close>

definition resume_insensitive :: "action \<Rightarrow> bool" where
  "resume_insensitive a = (case a of Leaf _ _ _ _ \<Rightarrow> True | LoopA _ _ _ _ \<Rightarrow> True | _ \<Rightarrow> False)"

definition not_loop_frame :: "step_path_frame \<Rightarrow> bool" where
  "not_loop_frame f = (case f of LoopFrame _ _ \<Rightarrow> False | _ \<Rightarrow> True)"

lemma resume_iter_none:
  "Option.bind opts resumePath = None \<Longrightarrow> resume_iter opts = -1"
  by (simp add: resume_iter_def resume_frame_def)

lemma resume_iter_other:
  "not_loop_frame f \<Longrightarrow> resume_iter (set_resume (Some (f # p)) opts) = -1"
  by (cases f; cases opts) (auto simp: resume_iter_def resume_frame_def not_loop_frame_def set_resume_def)

lemma loop_iterations_body_cong:
  assumes "\<And>j. i \<le> j \<Longrightarrow> body j = body' j"
  shows "loop_iterations n env g e k body i = loop_iterations n env g e k body' i"
  using assms
proof (induction n arbitrary: i)
  case (Suc n)
  have "loop_iterations n env g e k body (i + 1) = loop_iterations n env g e k body' (i + 1)"
    and "body i = body' i"
    by (auto intro: Suc.IH simp: Suc.prems)
  then show ?case unfolding loop_iterations.simps by (simp only:)
qed simp

lemma runLoopAction_body_cong:
  assumes "\<And>j. 0 \<le> j \<Longrightarrow> body j = body' j" and "resume_iter opts = resume_iter opts'"
  shows "runLoopAction env kind m opts body = runLoopAction env kind m opts' body'"
proof -
  have eq: "loop_iterations n env g e k body 0 = loop_iterations n env g e k body' 0" for n g e k
    by (rule loop_iterations_body_cong) (rule assms(1))
  show ?thesis
    unfolding runLoopAction_def Let_def assms(2) eq ..
qed

lemma run_action_resume_insensitive:
  assumes "resume_insensitive a" and "not_loop_frame f"
  shows "run_action env exec a (set_resume (Some [f]) opts) path = run_action env exec a (set_resume None opts) path"
proof (cases a)
  case (LoopA b kind m body)
  have k: "resume_iter (set_resume (Some [f]) opts) = -1" "resume_iter (set_resume None opts) = -1"
    using assms(2) by (rule resume_iter_other) (rule resume_iter_none, cases opts, auto)
  have "loop_child_options (set_resume (Some [f]) opts) path j = loop_child_options (set_resume None opts) path j"
    if "0 \<le> j" for j
    using that k by (simp add: loop_child_options_def)
  then show ?thesis
    unfolding LoopA run_action.simps
    by (intro arg_cong2 [where f = "with_soft_timer env"] refl arg_cong2 [where f = thenR]
        runLoopAction_body_cong) (simp_all add: k)
qed (use assms in \<open>auto simp: resume_insensitive_def run_action.simps\<close>)

text \<open>C5. Resuming a run at a top-level step is continuing it: when the steps before it have
  completed, a second run with the resume path of that step does from the reached state exactly
  what the uninterrupted run does next, for any callbacks, provided the step is a leaf or a loop.\<close>

theorem resume_is_continuation:
  assumes "resumePath o' = None" and "childIdx f = int (length as)" and "not_loop_frame f"
    and "bs \<noteq> [] \<longrightarrow> resume_insensitive (hd bs)"
  shows "runSteps env exec (as @ bs) (Some o') s =
     (case runSteps env exec as (Some o') s of
        (Ret None, s') \<Rightarrow> runSteps env exec (as @ bs) (Some (o'\<lparr>resumePath := Some [f]\<rparr>)) s'
      | (r, s') \<Rightarrow> (r, s'))"
proof -
  let ?n = "int (length as)" and ?r = "Some (o'\<lparr>resumePath := Some [f]\<rparr>)"
  let ?one = "run_action env exec"
  have start: "run_steps_with env ?one (as @ bs) ?r = steps_loop env ?one ?r (Some [f]) ?n bs"
    using assms(2) by (simp add: run_steps_with_def start_index_def Let_def)
  have "steps_loop env ?one ?r (Some [f]) ?n bs = steps_loop env ?one (Some o') None ?n bs"
  proof (cases bs)
    case (Cons b bs')
    have r: "?r = set_resume (Some [f]) (Some o')" by simp
    have tgt: "is_resume_target (Some [f]) ?n" using assms(2) by (simp add: is_resume_target_def)
    have one: "run_action env exec b (dispatch_options (Some [f]) ?n ?r) p
        = run_action env exec b (dispatch_options None ?n (Some o')) p" for p
      unfolding dispatch_options_def r
      using run_action_resume_insensitive [of b f env exec "Some o'" p] assms Cons by simp
    have rest: "steps_loop env ?one ?r None (?n + 1) bs' = steps_loop env ?one (Some o') None (?n + 1) bs'"
      unfolding r by (rule steps_loop_forgets_resume)
    have cp: "child_path ?r = child_path (Some o')" unfolding r by (rule ext) (simp only: child_path_set_resume)
    show ?thesis
      unfolding Cons steps_loop.simps one cp using tgt rest by simp
  qed simp
  with start show ?thesis
    using assms(1) by (simp add: runSteps_def run_steps_with_no_resume steps_loop_append
        split: outcome.split prod.split option.split)
qed

theorem resume_is_continuation_witness:
  "(let p = [leaf_step ''note'' ''a'']; q = [LoopA empty_base (FixedCount (jint 2)) None [leaf_step ''note'' ''b'']] in
    runSteps demo_env demo_exec (p @ q) (Some plain_options) demo_start
    = (case runSteps demo_env demo_exec p (Some plain_options) demo_start of
        (Ret None, s') \<Rightarrow> runSteps demo_env demo_exec (p @ q) (Some (plain_options\<lparr>resumePath := Some [TopFrame 1]\<rparr>)) s'
      | (r, s') \<Rightarrow> (r, s')))
   \<and> demo_run [leaf_step ''note'' ''a'', LoopA empty_base (FixedCount (jint 2)) None [leaf_step ''note'' ''b'']]
       (Some plain_options) = (Ret None, [''note:a'', ''note:b'', ''note:b''])"
proof -
  have run: "demo_run [leaf_step ''note'' ''a'', LoopA empty_base (FixedCount (jint 2)) None [leaf_step ''note'' ''b'']]
       (Some plain_options) = (Ret None, [''note:a'', ''note:b'', ''note:b''])"
    by code_simp
  show ?thesis
    unfolding Let_def
    using resume_is_continuation [of plain_options "TopFrame 1" "[leaf_step ''note'' ''a'']"
        "[LoopA empty_base (FixedCount (jint 2)) None [leaf_step ''note'' ''b'']]" demo_env demo_exec demo_start] run
    by (simp add: plain_options_def not_loop_frame_def resume_insensitive_def)
qed

text \<open>A container is not resumed that way: with the resume path of the container itself, a
  group at position \<open>k\<close> silently skips its first \<open>k\<close> steps, because the path of the outer level is
  handed on to its body. Here the second step of the list is a group of two steps, and the run
  resumed at the group performs only the group's second step.\<close>

theorem resumed_group_skips_steps:
  "demo_run [leaf_step ''note'' ''a'', GroupA empty_base [leaf_step ''note'' ''b'', leaf_step ''note'' ''c'']]
     (Some plain_options) = (Ret None, [''note:a'', ''note:b'', ''note:c''])
   \<and> demo_run [leaf_step ''note'' ''a'', GroupA empty_base [leaf_step ''note'' ''b'', leaf_step ''note'' ''c'']]
     (Some (resume_at [TopFrame 1])) = (Ret None, [''note:c''])"
  by (rule conjI) code_simp+

end
