(* ===== verification/Resume_Laws.thy ===== *)
theory Resume_Laws
  imports Step_Laws
begin

text \<open>
  Resuming at a nested position: without callbacks the interpreter does not depend on where a step
  stands, and a resume path selects a residual program.
\<close>

section \<open>Resuming inside nested containers\<close>

text \<open>Options without callbacks: then the position of a step has no influence on what it does.\<close>

definition quiet :: "'w run_options \<Rightarrow> bool" where
  "quiet o' \<longleftrightarrow> onStepStart o' = None \<and> onStepComplete o' = None \<and> onStepFailure o' = None"

definition alike :: "'w run_options \<Rightarrow> 'w run_options \<Rightarrow> bool" where
  "alike o1 o2 \<longleftrightarrow> quiet o1 \<and> quiet o2 \<and> resumePath o1 = resumePath o2"

definition position_free :: "'w run_one \<Rightarrow> action \<Rightarrow> bool" where
  "position_free one a \<longleftrightarrow> (\<forall>o1 o2 p q. alike o1 o2 \<longrightarrow> one a (Some o1) p = one a (Some o2) q)"

lemma call_opt_None [simp]: "call_opt None x = returnR ()"
  by (simp add: call_opt_def)

lemma alike_resume: "alike o1 o2 \<Longrightarrow> alike (o1\<lparr>resumePath := r\<rparr>) (o2\<lparr>resumePath := r\<rparr>)"
  by (simp add: alike_def quiet_def)

lemma dispatch_options_alike:
  assumes "alike o1 o2"
  shows "\<exists>o1' o2'. dispatch_options p i (Some o1) = Some o1' \<and> dispatch_options p' j (Some o2) = Some o2'
      \<and> (p = p' \<and> is_resume_target p i = is_resume_target p' j \<longrightarrow> alike o1' o2')"
  using assms by (auto simp: dispatch_options_def alike_def quiet_def split: option.split)

lemma steps_loop_alike:
  assumes "alike o1 o2" and "\<And>a. a \<in> set as \<Longrightarrow> position_free one a"
  shows "steps_loop env one (Some o1) p i as = steps_loop env one (Some o2) p i as"
  using assms(2)
proof (induction as arbitrary: p i)
  case (Cons a as)
  have "one a (dispatch_options p i (Some o1)) (child_path (Some o1) i)
      = one a (dispatch_options p i (Some o2)) (child_path (Some o2) i)"
    using dispatch_options_alike [OF assms(1), of p i p i] Cons.prems unfolding position_free_def
    by (metis list.set_intros(1))
  moreover have "steps_loop env one (Some o1) p' (i + 1) as = steps_loop env one (Some o2) p' (i + 1) as" for p'
    by (rule Cons.IH) (use Cons.prems in simp)
  ultimately show ?case
    using assms(1) unfolding alike_def quiet_def steps_loop.simps by (simp add: whenR_def)
qed simp

lemma steps_loop_shift:
  assumes "quiet o'" and "\<And>a. a \<in> set as \<Longrightarrow> position_free one a"
  shows "steps_loop env one (Some o') None i as = steps_loop env one (Some o') None j as"
  using assms(2)
proof (induction as arbitrary: i j)
  case (Cons a as)
  have "alike (o'\<lparr>resumePath := None\<rparr>) (o'\<lparr>resumePath := None\<rparr>)"
    using assms(1) by (simp add: alike_def quiet_def)
  then have "one a (dispatch_options None i (Some o')) (child_path (Some o') i)
      = one a (dispatch_options None j (Some o')) (child_path (Some o') j)"
    using Cons.prems unfolding position_free_def dispatch_None set_resume_simps by (metis list.set_intros(1))
  moreover have "steps_loop env one (Some o') None (i + 1) as = steps_loop env one (Some o') None (j + 1) as"
    by (rule Cons.IH) (use Cons.prems in simp)
  ultimately show ?case
    using assms(1) unfolding quiet_def steps_loop.simps by (simp add: whenR_def)
qed simp

lemma run_steps_with_alike:
  assumes "alike o1 o2" and "\<And>a. a \<in> set as \<Longrightarrow> position_free one a"
  shows "run_steps_with env one as (Some o1) = run_steps_with env one as (Some o2)"
proof -
  have "resumePath o1 = resumePath o2" using assms(1) by (simp add: alike_def)
  moreover have "steps_loop env one (Some o1) p i (drop k as) = steps_loop env one (Some o2) p i (drop k as)" for p i k
    by (rule steps_loop_alike [OF assms(1)]) (auto dest: in_set_dropD intro: assms(2))
  ultimately show ?thesis by (simp add: run_steps_with_def Let_def)
qed

lemma child_options_alike:
  "alike o1 o2 \<Longrightarrow> \<exists>o1' o2'. child_options (Some o1) p f = Some o1' \<and> child_options (Some o2) q g = Some o2' \<and> alike o1' o2'"
  by (simp add: child_options_def alike_def quiet_def)

lemma resume_frame_alike: "alike o1 o2 \<Longrightarrow> resume_frame (Some o1) = resume_frame (Some o2)"
  by (simp add: resume_frame_def alike_def)

lemma run_children_alike:
  assumes "alike o1 o2" and "\<And>a. a \<in> set as \<Longrightarrow> position_free one a"
  shows "run_steps_with env one as (child_options (Some o1) p f) = run_steps_with env one as (child_options (Some o2) q g)"
  using child_options_alike [OF assms(1), of p f q g] run_steps_with_alike assms(2) by metis

lemma position_free_run_action: "position_free (run_action env exec) a"
proof (induction a rule: measure_induct_rule [of size])
  case (less a)
  note IH = less
  have "run_action env exec a (Some o1) p = run_action env exec a (Some o2) q" if al: "alike o1 o2" for o1 o2 p q
  proof (cases a)
    case (IfA b c th el)
    have "run_steps_with env (run_action env exec) (branch_steps br th el) (child_options (Some o1) p (IfFrame br))
        = run_steps_with env (run_action env exec) (branch_steps br th el) (child_options (Some o2) q (IfFrame br))" for br
      by (rule run_children_alike [OF al]) (use IH size_branch_steps IfA in blast)
    moreover have "choose_branch env c (Some o1) = choose_branch env c (Some o2)"
      by (simp add: choose_branch_def resume_frame_alike [OF al])
    ultimately show ?thesis unfolding IfA run_action.simps by (simp only:)
  next
    case (LoopA b kind m body)
    have k: "resume_iter (Some o1) = resume_iter (Some o2)"
      by (simp add: resume_iter_def resume_frame_alike [OF al])
    have pf: "position_free (run_action env exec) x" if "x \<in> set body" for x
      using IH that LoopA size_list_member by simp
    have "run_steps_with env (run_action env exec) body (loop_child_options (Some o1) p i)
        = run_steps_with env (run_action env exec) body (loop_child_options (Some o2) q i)" for i
    proof (cases "i = resume_iter (Some o2)")
      case True
      then show ?thesis using run_children_alike [OF al pf] k by (simp add: loop_child_options_def)
    next
      case False
      then show ?thesis
        using run_children_alike [OF alike_resume [OF al] pf] k by (simp add: loop_child_options_def)
    qed
    then show ?thesis
      unfolding LoopA run_action.simps
      by (intro arg_cong2 [where f = "with_soft_timer env"] refl arg_cong2 [where f = thenR]
        runLoopAction_body_cong) (simp_all add: k)
  next
    case (SwitchA b expr cases' def)
    have r: "run_steps_with env (run_action env exec) chosen (child_options (Some o1) p (SwitchFrame k))
        = run_steps_with env (run_action env exec) chosen (child_options (Some o2) q (SwitchFrame k))"
      if "cases' = Some cs" "choose_case expr cs def rf c = (k, chosen)" for cs rf c k chosen
      by (rule run_children_alike [OF al])
        (use IH SwitchA that size_choose_case in \<open>metis snd_conv\<close>)
    show ?thesis
    proof (cases cases')
      case (Some cs)
      have "(\<lambda>s. case choose_case expr cs def (resume_frame (Some o1)) (fst s) of
                 (k, chosen) \<Rightarrow> throw_on_error (run_steps_with env (run_action env exec) chosen
                       (child_options (Some o1) p (SwitchFrame k))) s)
          = (\<lambda>s. case choose_case expr cs def (resume_frame (Some o2)) (fst s) of
                 (k, chosen) \<Rightarrow> throw_on_error (run_steps_with env (run_action env exec) chosen
                       (child_options (Some o2) q (SwitchFrame k))) s)"
        unfolding resume_frame_alike [OF al]
        by (rule ext) (auto split: prod.split dest!: r [OF Some])
      then show ?thesis unfolding SwitchA run_action.simps Some by simp
    qed (simp add: SwitchA run_action.simps)
  next
    case (GroupA b body)
    have "run_steps_with env (run_action env exec) body (child_options (Some o1) p GroupFrame)
        = run_steps_with env (run_action env exec) body (child_options (Some o2) q GroupFrame)"
      by (rule run_children_alike [OF al]) (use IH GroupA size_list_member in simp)
    then show ?thesis unfolding GroupA run_action.simps by (simp only:)
  qed (simp add: run_action.simps)
  then show ?case by (simp add: position_free_def)
qed

section \<open>The residual program of a position\<close>

text \<open>Conditions that hold, or fail, whatever the page is: how a recorded branch is retaken.\<close>

definition recorded_branch :: "if_branch \<Rightarrow> rule_condition" where
  "recorded_branch b = \<lparr>condType = (case b of ThenBranch \<Rightarrow> ''elementNotExists'' | ElseBranch \<Rightarrow> ''elementExists''),
     condTarget = None, condText = JUndef, condPattern = JUndef, condValue = JUndef,
     condScript = None, condTimeout = None, idleTime = None\<rparr>"

definition frame_steps :: "step_path_frame \<Rightarrow> action \<Rightarrow> action list" where
  "frame_steps f a =
     (case (f, a) of
        (GroupFrame _, GroupA _ body) \<Rightarrow> body
      | (IfFrame br _, IfA _ _ th el) \<Rightarrow> branch_steps br th el
      | (SwitchFrame k _, SwitchA _ _ (Some cs) def) \<Rightarrow>
          (if 0 \<le> k \<and> k < int (length cs) then or_empty (snd (cs ! nat k)) else or_empty def)
      | _ \<Rightarrow> [])"

text \<open>The container with its remaining steps in place of the branch the frame names\<close>

definition with_steps :: "step_path_frame \<Rightarrow> action \<Rightarrow> action list \<Rightarrow> action" where
  "with_steps f a rest =
     (case (f, a) of
        (GroupFrame _, GroupA b _) \<Rightarrow> GroupA b rest
      | (IfFrame br _, IfA b _ _ _) \<Rightarrow> IfA b (recorded_branch br) rest (Some rest)
      | (SwitchFrame _ _, SwitchA b _ _ _) \<Rightarrow> SwitchA b [] (Some [(JStr [], Some rest)]) None
      | _ \<Rightarrow> a)"

text \<open>What is left to do at a position: the step it names, or its rest, and the later siblings.\<close>

fun residual :: "step_path \<Rightarrow> action list \<Rightarrow> action list" where
  "residual [] as = as"
| "residual (f # p) as =
     (case drop (nat (childIdx f)) as of
        [] \<Rightarrow> []
      | a # rest \<Rightarrow>
          (case p of [] \<Rightarrow> a # rest
           | g # _ \<Rightarrow> with_steps g a (residual p (frame_steps g a)) # rest))"

text \<open>A position of the step tree that crosses no loop and ends at a leaf or at a whole loop\<close>

fun resumable :: "step_path \<Rightarrow> action list \<Rightarrow> bool" where
  "resumable [] as = False"
| "resumable (f # p) as =
     (0 \<le> childIdx f \<and> nat (childIdx f) < length as \<and> not_loop_frame f
      \<and> (case p of
           [] \<Rightarrow> resume_insensitive (as ! nat (childIdx f))
         | g # _ \<Rightarrow>
             (case (g, as ! nat (childIdx f)) of
                (GroupFrame _, GroupA _ _) \<Rightarrow> True
              | (IfFrame _ _, IfA _ _ _ _) \<Rightarrow> True
              | (SwitchFrame _ _, SwitchA _ _ cs _) \<Rightarrow> cs \<noteq> None
              | _ \<Rightarrow> False) \<and> resumable p (frame_steps g (as ! nat (childIdx f)))))"

lemma evaluateCondition_recorded:
  "evaluateCondition env (recorded_branch br) = returnR (br = ThenBranch)"
  by (rule ext, cases br)
    (simp_all add: evaluateCondition_def recorded_branch_def find_condition_element_def
      condition_target_def found_def runtime_simps)

lemma choose_branch_recorded:
  "resume_frame opts = None \<Longrightarrow> choose_branch env (recorded_branch br) opts = returnR br"
  by (rule ext, cases br) (simp_all add: choose_branch_def evaluateCondition_recorded runtime_simps)

lemma choose_case_recorded:
  "choose_case [] [(JStr [], Some ss)] None None c = (0, ss)"
  by (simp add: choose_case_def switch_value_def interpolate_string_def template_at_def js_trim_def
      replace_templates.simps looksLikeExpression_def expression_roots_def js_startsWith_def coalesce_def
      or_empty_def)

lemma timer_of_container:
  "base a = base a' \<Longrightarrow> actionType a = actionType a' \<Longrightarrow> with_soft_timer env a m = with_soft_timer env a' m"
proof -
  assume eqs: "base a = base a'" "actionType a = actionType a'"
  have "softTimeoutWarning env a = softTimeoutWarning env a'"
    by (intro ext) (simp only: softTimeoutWarning_def step_label_def eqs)
  then show ?thesis unfolding with_soft_timer_def afterSoftTimeout_def by (simp only: eqs)
qed

lemma with_steps_base [simp]:
  "base (with_steps f a rest) = base a" "actionType (with_steps f a rest) = actionType a"
  by (cases a; cases f; simp add: with_steps_def)+

lemma mayNavigate_with_steps [simp]: "actionMayNavigate (with_steps f a rest) = actionMayNavigate a"
  by (cases a; cases f; simp add: with_steps_def actionMayNavigate_def)

lemma resume_frame_simps [simp]:
  "resume_frame (Some (o'\<lparr>resumePath := None\<rparr>)) = None"
  "resume_frame (Some (o'\<lparr>resumePath := Some (f # p)\<rparr>)) = Some f"
  by (simp_all add: resume_frame_def)

text \<open>Entering a container with a payload runs the remaining steps of the branch it names.\<close>

lemma enter_container:
  assumes "quiet o'" and "p = g # p'"
    and shape: "case (g, a) of (GroupFrame _, GroupA _ _) \<Rightarrow> True | (IfFrame _ _, IfA _ _ _ _) \<Rightarrow> True
              | (SwitchFrame _ _, SwitchA _ _ cs _) \<Rightarrow> cs \<noteq> None | _ \<Rightarrow> False"
    and IH: "\<And>o2. quiet o2 \<Longrightarrow>
      run_steps_with env (run_action env exec) (frame_steps g a) (Some (o2\<lparr>resumePath := Some p\<rparr>))
      = run_steps_with env (run_action env exec) rest (Some (o2\<lparr>resumePath := None\<rparr>))"
  shows "run_action env exec a (Some (o'\<lparr>resumePath := Some p\<rparr>)) q
     = run_action env exec (with_steps g a rest) (Some (o'\<lparr>resumePath := None\<rparr>)) q'"
proof -
  have enter: "run_steps_with env (run_action env exec) (frame_steps g a)
        (child_options (Some (o'\<lparr>resumePath := Some p\<rparr>)) q ff)
      = run_steps_with env (run_action env exec) rest (child_options (Some (o'\<lparr>resumePath := None\<rparr>)) q' ff')" for ff ff'
  proof -
    have "run_steps_with env (run_action env exec) (frame_steps g a)
        (child_options (Some (o'\<lparr>resumePath := Some p\<rparr>)) q ff)
      = run_steps_with env (run_action env exec) rest (child_options (Some (o'\<lparr>resumePath := None\<rparr>)) q ff)"
      using IH [of "o'\<lparr>pathPrefix := Some q, frameFor := Some ff\<rparr>"] assms(1)
      by (cases o') (simp add: child_options_def quiet_def)
    also have "\<dots> = run_steps_with env (run_action env exec) rest (child_options (Some (o'\<lparr>resumePath := None\<rparr>)) q' ff')"
      by (rule run_children_alike) (use assms(1) in \<open>auto simp: alike_def quiet_def position_free_run_action\<close>)
    finally show ?thesis .
  qed
  show ?thesis
  proof (cases a)
    case (GroupA b body)
    then obtain k where g: "g = GroupFrame k" using shape by (cases g) auto
    have "frame_steps g a = body" using g GroupA by (simp add: frame_steps_def)
    then show ?thesis
      using enter [of GroupFrame GroupFrame] by (simp add: g GroupA with_steps_def run_action.simps timer_of_container [of "GroupA b body" "GroupA b rest"])
  next
    case (IfA b c th el)
    then obtain br k where g: "g = IfFrame br k" using shape by (cases g) auto
    have fs: "frame_steps g a = branch_steps br th el" using g IfA by (simp add: frame_steps_def)
    have "branch_steps br rest (Some rest) = rest" by (cases br) (simp_all add: branch_steps_def)
    moreover have "choose_branch env c (Some (o'\<lparr>resumePath := Some p\<rparr>)) = returnR br"
      using assms(2) g by (simp add: choose_branch_def)
    ultimately show ?thesis
      using enter [of "IfFrame br" "IfFrame br"] fs
      by (simp add: g IfA with_steps_def run_action.simps choose_branch_recorded bindR_return_left
          timer_of_container [of "IfA b c th el" "IfA b (recorded_branch br) rest (Some rest)"])
  next
    case (SwitchA b expr cs def)
    then obtain k i xs where g: "g = SwitchFrame k i" "cs = Some xs" using shape by (cases g) auto
    have fs: "choose_case expr xs def (Some g) c = (k, frame_steps g a)" for c
      using g SwitchA by (simp add: choose_case_def frame_steps_def)
    show ?thesis
      using enter [of "SwitchFrame k" "SwitchFrame 0"] assms(2) fs
      by (simp add: g SwitchA with_steps_def run_action.simps choose_case_recorded
          timer_of_container [of "SwitchA b expr (Some xs) def" "SwitchA b [] (Some [(JStr [], Some rest)]) None"])
  qed (use shape in \<open>cases g; simp\<close>)+
qed

lemma one_step_alike:
  assumes "base a = base a'" "actionMayNavigate a = actionMayNavigate a'" and "quiet o'" "quiet o2"
    and "one a (dispatch_options p i (Some o')) (child_path (Some o') i)
       = one a' (dispatch_options p' j (Some o2)) (child_path (Some o2) j)"
    and "steps_loop env one (Some o') (if is_resume_target p i then None else p) (i + 1) as
       = steps_loop env one (Some o2) (if is_resume_target p' j then None else p') (j + 1) as"
  shows "steps_loop env one (Some o') p i (a # as) = steps_loop env one (Some o2) p' j (a' # as)"
  using assms unfolding quiet_def steps_loop.simps by (simp add: whenR_def)



end
