(* ===== verification/Trail_Laws.thy ===== *)
theory Trail_Laws
  imports Step_Laws
begin

text \<open>
  The positions the interpreter reports as completed, in order: with a world that logs them, the
  pending positions computed from them strictly increase.
\<close>

section \<open>The order of completed positions\<close>

text \<open>A run appends paths with property \<open>P\<close> to the log \<open>lg\<close> of the world.\<close>

definition logged :: "('w \<Rightarrow> step_path list) \<Rightarrow> (step_path list \<Rightarrow> bool) \<Rightarrow> ('w, 'a) run \<Rightarrow> bool" where
  "logged lg P m \<longleftrightarrow> (\<forall>s r s'. m s = (r, s') \<longrightarrow> (\<exists>ps. lg (snd s') = lg (snd s) @ ps \<and> P ps))"

lemma loggedD: "logged lg P m \<Longrightarrow> m s = (r, s') \<Longrightarrow> \<exists>ps. lg (snd s') = lg (snd s) @ ps \<and> P ps"
  unfolding logged_def by blast

lemma loggedI: "(\<And>s r s'. m s = (r, s') \<Longrightarrow> \<exists>ps. lg (snd s') = lg (snd s) @ ps \<and> P ps) \<Longrightarrow> logged lg P m"
  by (simp add: logged_def)

lemma logged_mono: "logged lg P m \<Longrightarrow> (\<And>ps. P ps \<Longrightarrow> Q ps) \<Longrightarrow> logged lg Q m"
  unfolding logged_def by blast

lemma logged_kept: "eff (keeps lg) 0 m \<Longrightarrow> P [] \<Longrightarrow> logged lg P m"
  by (fastforce simp: logged_def eff_def keeps_def)

lemma logged_bindR:
  assumes "logged lg P m" and "\<And>a. logged lg Q (f a)" and "\<And>ps qs. P ps \<Longrightarrow> Q qs \<Longrightarrow> S (ps @ qs)"
    and "\<And>ps. P ps \<Longrightarrow> S ps"
  shows "logged lg S (bindR m f)"
proof (rule loggedI)
  fix s r s' assume b: "bindR m f s = (r, s')"
  obtain r1 s1 where m: "m s = (r1, s1)" by (cases "m s")
  obtain ps where ps: "lg (snd s1) = lg (snd s) @ ps" "P ps" using loggedD [OF assms(1) m] by blast
  show "\<exists>ps. lg (snd s') = lg (snd s) @ ps \<and> S ps"
  proof (cases r1)
    case (Ret a)
    then have "f a s1 = (r, s')" using b m by (simp add: bindR_apply)
    from loggedD [OF assms(2) this] obtain qs where "lg (snd s') = lg (snd s1) @ qs" "Q qs" by blast
    then show ?thesis using ps assms(3) by (intro exI [of _ "ps @ qs"]) simp
  next
    case (Throw e)
    then have "s' = s1" using b m by (simp add: bindR_apply)
    then show ?thesis using ps assms(4) by blast
  qed
qed

lemma logged_bindR0: "eff (keeps lg) 0 m \<Longrightarrow> (\<And>a. logged lg P (f a)) \<Longrightarrow> P [] \<Longrightarrow> logged lg P (bindR m f)"
  by (rule logged_bindR [of lg "\<lambda>ps. ps = []" m P f]) (auto intro: logged_kept)

lemma logged_thenR0: "eff (keeps lg) 0 m \<Longrightarrow> logged lg P f \<Longrightarrow> P [] \<Longrightarrow> logged lg P (thenR m f)"
  by (simp add: thenR_def logged_bindR0)

lemma logged_then_free: "logged lg P m \<Longrightarrow> (\<And>a. eff (keeps lg) 0 (f a)) \<Longrightarrow> logged lg P (bindR m f)"
  by (rule logged_bindR [of lg P m "\<lambda>ps. ps = []" f]) (auto intro: logged_kept)

text \<open>The callbacks of a recording run: completion appends the path, the others do not log.\<close>

definition recording :: "('w \<Rightarrow> step_path list) \<Rightarrow> 'w run_options \<Rightarrow> bool" where
  "recording lg o' \<longleftrightarrow>
     (\<exists>f. onStepComplete o' = Some f \<and> (\<forall>p a. logged lg (\<lambda>ps. ps = [p]) (f p a)))
     \<and> (\<forall>f. onStepStart o' = Some f \<longrightarrow> (\<forall>p a. eff (keeps lg) 0 (f p a)))
     \<and> (\<forall>f. onStepFailure o' = Some f \<longrightarrow> (\<forall>p. eff (keeps lg) 0 (f p)))"

text \<open>The pending positions of a list of completed ones strictly increase.\<close>

definition pending_less :: "step_path \<Rightarrow> step_path \<Rightarrow> bool" where
  "pending_less p q \<longleftrightarrow> comparePath (nextPendingPath p) (nextPendingPath q) < 0"

definition from_child :: "step_path \<Rightarrow> (int \<Rightarrow> step_path_frame) \<Rightarrow> int \<Rightarrow> step_path list \<Rightarrow> bool" where
  "from_child X f i ps \<longleftrightarrow> sorted_wrt pending_less ps \<and> (\<forall>q \<in> set ps. \<exists>j r. i \<le> j \<and> q = X @ f j # r)"

definition trail :: "step_path \<Rightarrow> step_path list \<Rightarrow> bool" where
  "trail X ps \<longleftrightarrow> sorted_wrt pending_less ps \<and> (\<forall>q \<in> set ps. \<exists>f r. q = X @ f # r)"

definition frame_family :: "(int \<Rightarrow> step_path_frame) \<Rightarrow> bool" where
  "frame_family f \<longleftrightarrow> (\<forall>j k. f k = with_childIdx (f j) k \<and> childIdx (f j) = j)"

lemma next_inner: "r \<noteq> [] \<Longrightarrow> nextPendingPath (X @ r) = X @ nextPendingPath r"
  by (simp add: nextPendingPath_def butlast_append)

lemma next_Cons: "r \<noteq> [] \<Longrightarrow> nextPendingPath (g # r) = g # nextPendingPath r"
  using next_inner [of r "[g]"] by simp

lemma next_single: "nextPendingPath [g] = [with_childIdx g (childIdx g + 1)]"
  by (simp add: nextPendingPath_def)

lemma next_nonempty [simp]: "nextPendingPath p \<noteq> []"
  by (simp add: nextPendingPath_def)

lemma pending_less_prefix: "r \<noteq> [] \<Longrightarrow> q \<noteq> [] \<Longrightarrow> pending_less (X @ r) (X @ q) = pending_less r q"
  by (simp add: pending_less_def next_inner comparePath_same_prefix)

lemma frame_familyD:
  assumes "frame_family f"
  shows "childIdx (f j) = j" "with_childIdx (f j) k = f k" "j < k \<Longrightarrow> compareFrame (f j) (f k) = -1"
proof -
  show c: "childIdx (f j) = j" and w: "with_childIdx (f j) k = f k"
    using assms by (simp_all add: frame_family_def)
  show "compareFrame (f j) (f k) = -1" if "j < k"
    using compareFrame_with_childIdx(1) [of "f j" k] w c that by (simp add: compareNumber_def)
qed

lemma pending_less_sibling:
  assumes f: "frame_family f" and "j < k"
  shows "pending_less (X @ f j # r) (X @ f k # r')"
proof -
  have "pending_less (f j # r) (f k # r')"
  proof (cases "r = []")
    case True
    have "compareFrame (f (j + 1)) (f k) = (if j + 1 < k then -1 else 0)"
    proof (cases "j + 1 < k")
      case False
      then have "k = j + 1" using assms(2) by simp
      then show ?thesis by (simp add: frame.cmp_self)
    qed (use frame_familyD(3) [OF f, of "j + 1" k] in simp)
    moreover have "compareFrame (f (j + 1)) (f (k + 1)) = -1"
      using frame_familyD(3) [OF f, of "j + 1" "k + 1"] assms(2) by simp
    ultimately show ?thesis
      by (cases "r' = []") (simp_all add: True pending_less_def next_single next_Cons frame_familyD(1,2) [OF f] path_simps)
  next
    case False
    have "compareFrame (f j) (f k) = -1" "compareFrame (f j) (f (k + 1)) = -1"
      using frame_familyD(3) [OF f] assms(2) by auto
    then show ?thesis
      by (cases "r' = []") (simp_all add: False pending_less_def next_single next_Cons frame_familyD(1,2) [OF f] path_simps)
  qed
  then show ?thesis by (simp add: pending_less_prefix)
qed

lemma pending_less_parent:
  assumes "frame_family f" shows "pending_less (X @ f j # g # r) (X @ [f j])"
proof -
  have "compareFrame (f j) (f (j + 1)) = -1" using frame_familyD(3) [OF assms] by simp
  then have "pending_less (f j # g # r) [f j]"
    by (simp add: pending_less_def next_single next_Cons frame_familyD(1,2) [OF assms] path_simps)
  then show ?thesis by (simp add: pending_less_prefix)
qed

lemma from_child_Nil [simp]: "from_child X f i []"
  by (simp add: from_child_def)

lemma trail_Nil [simp]: "trail X []"
  by (simp add: trail_def)

text \<open>The trail of a child, the child itself, and what the later siblings add\<close>

lemma trailD: "trail (X @ [g]) ps \<Longrightarrow> p \<in> set ps \<Longrightarrow> \<exists>h r. p = X @ g # h # r"
  by (fastforce simp: trail_def)

lemma from_childD: "from_child X f i ps \<Longrightarrow> p \<in> set ps \<Longrightarrow> \<exists>j r. i \<le> j \<and> p = X @ f j # r"
  by (simp add: from_child_def)

lemma from_child_of_trail: "trail (X @ [f i]) ps \<Longrightarrow> from_child X f i ps"
  unfolding from_child_def by (auto simp: trail_def intro!: exI [of _ i])

lemma from_child_step:
  assumes "frame_family f" and "trail (X @ [f i]) ps" and "from_child X f (i + 1) qs"
  shows "from_child X f i (ps @ (X @ [f i]) # qs)"
proof -
  have "pending_less p (X @ [f i])" if "p \<in> set ps" for p
    using trailD [OF assms(2) that] pending_less_parent [OF assms(1)] by blast
  moreover have "pending_less p q" if "p \<in> set ps \<or> p = X @ [f i]" "q \<in> set qs" for p q
  proof -
    note h = that
    obtain r where "p = X @ f i # r" using h(1) trailD [OF assms(2)] by blast
    moreover obtain k r' where "i + 1 \<le> k" "q = X @ f k # r'" using from_childD [OF assms(3) h(2)] by blast
    ultimately show ?thesis using pending_less_sibling [OF assms(1)] by simp
  qed
  moreover have "\<exists>j r. i \<le> j \<and> q = X @ f j # r" if "q \<in> set (ps @ (X @ [f i]) # qs)" for q
  proof -
    from that consider "q \<in> set ps" | "q = X @ [f i]" | "q \<in> set qs" by auto
    then show ?thesis
    proof cases
      case 1
      then obtain g r where "q = (X @ [f i]) @ g # r" using assms(2) by (auto simp: trail_def)
      then show ?thesis by (intro exI [of _ i] exI [of _ "g # r"]) simp
    next
      case 2
      then show ?thesis by (intro exI [of _ i] exI [of _ "[]"]) simp
    next
      case 3
      then obtain j r where "i + 1 \<le> j" "q = X @ f j # r" using assms(3) by (auto simp: from_child_def)
      then show ?thesis by (intro exI [of _ j] exI [of _ r]) simp
    qed
  qed
  moreover have "sorted_wrt pending_less ps" "sorted_wrt pending_less qs"
    using assms(2,3) by (auto simp: trail_def from_child_def)
  ultimately show ?thesis
    unfolding from_child_def by (simp add: sorted_wrt_append)
qed

lemma trail_of_from_child: "from_child X f i ps \<Longrightarrow> trail X ps"
  unfolding trail_def by (auto simp: from_child_def)

text \<open>The same for the iterations of a loop, whose positions differ in the iteration of the frame\<close>

definition from_iter :: "step_path \<Rightarrow> int \<Rightarrow> step_path list \<Rightarrow> bool" where
  "from_iter X i ps \<longleftrightarrow> sorted_wrt pending_less ps \<and> (\<forall>q \<in> set ps. \<exists>k j r. i \<le> k \<and> q = X @ LoopFrame k j # r)"

lemma from_iter_Nil [simp]: "from_iter X i []"
  by (simp add: from_iter_def)

lemma from_iterD: "from_iter X i ps \<Longrightarrow> p \<in> set ps \<Longrightarrow> \<exists>k j r. i \<le> k \<and> p = X @ LoopFrame k j # r"
  by (simp add: from_iter_def)

lemma pending_less_iter: "k < k' \<Longrightarrow> pending_less (X @ LoopFrame k j # r) (X @ LoopFrame k' j' # r')"
proof -
  assume "k < k'"
  then have "compareFrame (LoopFrame k a) (LoopFrame k' b) = -1" for a b
    by (simp add: compareFrame_def compareNumber_def)
  then have "pending_less (LoopFrame k j # r) (LoopFrame k' j' # r')"
    by (cases "r = []"; cases "r' = []") (simp_all add: pending_less_def next_single next_Cons path_simps)
  then show ?thesis by (simp add: pending_less_prefix)
qed

lemma from_iter_step:
  assumes "from_child X (LoopFrame i) c ps" and "from_iter X (i + 1) qs"
  shows "from_iter X i (ps @ qs)"
proof -
  have "pending_less p q" if "p \<in> set ps" "q \<in> set qs" for p q
  proof -
    note h = that
    obtain j r where "p = X @ LoopFrame i j # r" using from_childD [OF assms(1) h(1)] by blast
    moreover obtain k j' r' where "i + 1 \<le> k" "q = X @ LoopFrame k j' # r'" using from_iterD [OF assms(2) h(2)] by blast
    ultimately show ?thesis using pending_less_iter by simp
  qed
  moreover have "\<exists>k j r. i \<le> k \<and> q = X @ LoopFrame k j # r" if "q \<in> set ps \<union> set qs" for q
    using that
  proof
    assume "q \<in> set ps"
    from from_childD [OF assms(1) this] show ?thesis by blast
  next
    assume "q \<in> set qs"
    from from_iterD [OF assms(2) this] show ?thesis by force
  qed
  moreover have "sorted_wrt pending_less ps" "sorted_wrt pending_less qs"
    using assms by (auto simp: from_child_def from_iter_def)
  ultimately show ?thesis
    unfolding from_iter_def by (simp add: sorted_wrt_append)
qed

lemma from_iter_skip: "from_iter X (i + 1) ps \<Longrightarrow> from_iter X i ps"
  unfolding from_iter_def by force

lemma trail_of_from_iter: "from_iter X i ps \<Longrightarrow> trail X ps"
  unfolding trail_def from_iter_def by blast

section \<open>The interpreter logs increasing pending positions\<close>

definition logs_trails :: "('w \<Rightarrow> step_path list) \<Rightarrow> 'w run_one \<Rightarrow> action \<Rightarrow> bool" where
  "logs_trails lg one a \<longleftrightarrow> (\<forall>o' p. recording lg o' \<longrightarrow> logged lg (trail p) (one a (Some o') p))"

lemma recording_dispatch:
  "recording lg o' \<Longrightarrow> \<exists>o2. dispatch_options pnd i (Some o') = Some o2 \<and> recording lg o2"
  by (auto simp: dispatch_options_def recording_def split: option.split)

lemma recording_child:
  "recording lg o' \<Longrightarrow> \<exists>o2. child_options (Some o') p ff = Some o2 \<and> recording lg o2
     \<and> opt_prefix (Some o2) = p \<and> opt_frame (Some o2) = ff"
  by (auto simp: child_options_def recording_def opt_prefix_def opt_frame_def)

lemma steps_loop_logged:
  assumes "recording lg o'" and "frame_family (opt_frame (Some o'))" and "\<And>a. a \<in> set as \<Longrightarrow> logs_trails lg one a"
  shows "logged lg (from_child (opt_prefix (Some o')) (opt_frame (Some o')) i) (steps_loop env one (Some o') pnd i as)"
  using assms(3)
proof (induction as arbitrary: i pnd)
  case (Cons a as)
  let ?X = "opt_prefix (Some o')" and ?f = "opt_frame (Some o')"
  have cp: "child_path (Some o') i = ?X @ [?f i]" by (simp add: child_path_def)
  have start: "eff (keeps lg) 0 (whenR b (call_opt (map_option (\<lambda>f p. f p a) (onStepStart o')) p))" for b p
    using assms(1) by (cases "onStepStart o'") (auto simp: recording_def call_opt_def keeping.eff_pure keeping.eff_whenR)
  have failure: "eff (keeps lg) 0 (whenR b (call_opt (onStepFailure o') p))" for b p
    using assms(1) by (cases "onStepFailure o'") (auto simp: recording_def call_opt_def keeping.eff_pure keeping.eff_whenR)
  obtain g where g: "onStepComplete o' = Some g" "\<And>p a. logged lg (\<lambda>ps. ps = [p]) (g p a)"
    using assms(1) by (auto simp: recording_def)
  have rest: "logged lg (from_child ?X ?f (i + 1)) (steps_loop env one (Some o') p' (i + 1) as)" for p'
    by (rule Cons.IH) (use Cons.prems in simp)
  have fin: "logged lg (\<lambda>qs. \<exists>ps. qs = (?X @ [?f i]) # ps \<and> from_child ?X ?f (i + 1) ps)
      (thenR (g (?X @ [?f i]) a) (steps_loop env one (Some o') p' (i + 1) as))" for p'
    unfolding thenR_def by (rule logged_bindR [OF g(2) rest]) auto
  have one: "logged lg (trail (?X @ [?f i])) (one a (dispatch_options pnd i (Some o')) (?X @ [?f i]))"
    using recording_dispatch [OF assms(1), of pnd i] Cons.prems unfolding logs_trails_def by fastforce
  have "logged lg (from_child ?X ?f i)
     (bindR (one a (dispatch_options pnd i (Some o')) (?X @ [?f i]))
      (\<lambda>r. case r of
             Some e \<Rightarrow> thenR (whenR (actionMayNavigate a) (call_opt (onStepFailure o') (?X @ [?f i]))) (returnR (Some e))
           | None \<Rightarrow> thenR (g (?X @ [?f i]) a)
                 (steps_loop env one (Some o') (if is_resume_target pnd i then None else pnd) (i + 1) as)))"
  proof (rule logged_bindR [OF one, where Q = "\<lambda>qs. qs = [] \<or> (\<exists>ps. qs = (?X @ [?f i]) # ps \<and> from_child ?X ?f (i + 1) ps)"])
    fix r :: step_result
    show "logged lg (\<lambda>qs. qs = [] \<or> (\<exists>ps. qs = (?X @ [?f i]) # ps \<and> from_child ?X ?f (i + 1) ps))
      (case r of
             Some e \<Rightarrow> thenR (whenR (actionMayNavigate a) (call_opt (onStepFailure o') (?X @ [?f i]))) (returnR (Some e))
           | None \<Rightarrow> thenR (g (?X @ [?f i]) a)
                 (steps_loop env one (Some o') (if is_resume_target pnd i then None else pnd) (i + 1) as))"
    proof (cases r)
      case None
      then show ?thesis using logged_mono [OF fin] by auto
    next
      case (Some e)
      then show ?thesis by (auto intro!: logged_kept keeping.eff_thenR0 failure keeping.eff_pure)
    qed
  next
    fix ps qs
    assume ps: "trail (?X @ [?f i]) ps" and "qs = [] \<or> (\<exists>ps. qs = (?X @ [?f i]) # ps \<and> from_child ?X ?f (i + 1) ps)"
    then show "from_child ?X ?f i (ps @ qs)"
      using from_child_of_trail [where f = ?f and i = i, OF ps] from_child_step [OF assms(2) ps] by auto
  next
    fix ps assume "trail (?X @ [?f i]) ps"
    then show "from_child ?X ?f i ps" by (rule from_child_of_trail)
  qed
  moreover have "call_opt (map_option (\<lambda>f p. f p a) (onStepComplete o')) p = g p a" for p
    by (simp add: call_opt_def g(1))
  ultimately show ?case
    unfolding steps_loop.simps cp Option.bind.simps
    by (intro logged_thenR0 from_child_Nil keeping.eff_checkAborted keeping.eff_pure start) simp_all
qed (auto intro: logged_kept keeping.eff_pure)

lemma run_steps_logged:
  assumes "recording lg o'" and "frame_family (opt_frame (Some o'))" and "\<And>a. a \<in> set as \<Longrightarrow> logs_trails lg one a"
  shows "\<exists>i. logged lg (from_child (opt_prefix (Some o')) (opt_frame (Some o')) i) (run_steps_with env one as (Some o'))"
proof -
  have "logged lg (from_child (opt_prefix (Some o')) (opt_frame (Some o')) i)
      (steps_loop env one (Some o') pnd i (drop k as))" for i pnd k
    by (rule steps_loop_logged [OF assms(1,2)]) (auto dest: in_set_dropD intro: assms(3))
  then show ?thesis unfolding run_steps_with_def Let_def by blast
qed

lemma run_children_logged:
  assumes "recording lg o'" and "frame_family ff" and "\<And>a. a \<in> set as \<Longrightarrow> logs_trails lg one a"
  shows "\<exists>i. logged lg (from_child p ff i) (run_steps_with env one as (child_options (Some o') p ff))"
proof -
  obtain o2 where o2: "child_options (Some o') p ff = Some o2" "recording lg o2"
      "opt_prefix (Some o2) = p" "opt_frame (Some o2) = ff"
    using recording_child [OF assms(1)] by blast
  then show ?thesis using run_steps_logged [OF o2(2), of as one env] assms(2,3) by simp
qed

lemma logged_throw_on_error: "logged lg P m \<Longrightarrow> logged lg P (throw_on_error m)"
  unfolding throw_on_error_def by (rule logged_then_free) (auto simp: keeping.eff_pure split: option.split)

lemma logged_catch_as_error:
  assumes "logged lg P m" shows "logged lg P (catch_as_error m)"
proof (rule loggedI)
  fix s r s' assume c: "catch_as_error m s = (r, s')"
  obtain r1 s1 where m: "m s = (r1, s1)" by (cases "m s")
  then have "s' = s1"
    using c by (cases r1) (auto simp: catch_as_error_def catchR_apply thenR_apply split: if_splits)
  then show "\<exists>ps. lg (snd s') = lg (snd s) @ ps \<and> P ps" using loggedD [OF assms m] by simp
qed

lemma logged_with_soft_timer:
  assumes "services_free (keeps lg) env" and "logged lg P m"
  shows "logged lg P (with_soft_timer env a m)"
proof (rule loggedI)
  fix s r s' assume c: "with_soft_timer env a m s = (r, s')"
  obtain r1 s1 where m: "m s = (r1, s1)" by (cases "m s")
  obtain x s2 where t: "afterSoftTimeout env a (scheduleSoftTimeout (softTimeout (base a)) None) None (nowMs env s) False s1 = (x, s2)"
    by (cases "afterSoftTimeout env a (scheduleSoftTimeout (softTimeout (base a)) None) None (nowMs env s) False s1")
  have "s' = s2" using c m t by (cases x) (simp_all add: with_soft_timer_def runtime_simps)
  moreover have "lg (snd s2) = lg (snd s1)"
    using keeping.effD [OF keeping.eff_afterSoftTimeout [OF assms(1)] t] by (simp add: keeps_def)
  ultimately show "\<exists>ps. lg (snd s') = lg (snd s) @ ps \<and> P ps" using loggedD [OF assms(2) m] by simp
qed

lemma loop_iterations_logged:
  assumes "\<And>i. eff (keeps lg) 0 (guard i)" and "\<And>i. eff (keeps lg) 0 (enter i)"
    and body: "\<And>i. \<exists>c. logged lg (from_child X (LoopFrame i) c) (body i)"
  shows "logged lg (from_iter X i) (loop_iterations n env guard enter k body i)"
proof (induction n arbitrary: i)
  case (Suc n)
  note rest = Suc.IH [of "i + 1"]
  obtain c where c: "logged lg (from_child X (LoopFrame i) c) (throw_on_error (body i))"
    using body logged_throw_on_error by blast
  have "logged lg (from_iter X i) (\<lambda>s. case throw_on_error (body i) s of
                       (Ret _, s') \<Rightarrow> loop_iterations n env guard enter k body (i + 1) s'
                     | (Throw (FlowControlSignal BreakSignal), s') \<Rightarrow> (Ret (), s')
                     | (Throw (FlowControlSignal ContinueSignal), s') \<Rightarrow>
                         loop_iterations n env guard enter k body (i + 1) s'
                     | (Throw e, s') \<Rightarrow> (Throw e, s'))" (is "logged _ _ ?m")
  proof (rule loggedI)
    fix s r s' assume m: "?m s = (r, s')"
    obtain r1 s1 where t: "throw_on_error (body i) s = (r1, s1)" by (cases "throw_on_error (body i) s")
    obtain ps where ps: "lg (snd s1) = lg (snd s) @ ps" "from_child X (LoopFrame i) c ps" using loggedD [OF c t] by blast
    have "loop_iterations n env guard enter k body (i + 1) s1 = (r, s') \<or> s' = s1"
      using m t by (auto split: outcome.splits exn.splits flow_signal.splits)
    then obtain qs where "lg (snd s') = lg (snd s1) @ qs" "from_iter X (i + 1) qs"
    proof
      assume "loop_iterations n env guard enter k body (i + 1) s1 = (r, s')"
      from loggedD [OF rest this] show ?thesis using that by blast
    next
      assume "s' = s1"
      then show ?thesis using that [of "[]"] by simp
    qed
    then show "\<exists>ps. lg (snd s') = lg (snd s) @ ps \<and> from_iter X i ps"
      using ps from_iter_step by (intro exI [of _ "ps @ qs"]) auto
  qed
  moreover have "logged lg (from_iter X i) (loop_iterations n env guard enter k body (i + 1))"
    using rest by (rule logged_mono) (rule from_iter_skip)
  moreover have "logged lg (from_iter X i) (returnR ())"
    by (rule logged_kept) (simp_all add: keeping.eff_pure)
  ultimately show ?case
    by (auto intro!: logged_bindR0 logged_thenR0 assms keeping.eff_checkAborted)
qed (auto intro: logged_kept keeping.eff_pure)

lemma runLoopAction_logged:
  assumes "lookups_free (keeps lg) env" and "\<And>i. \<exists>c. logged lg (from_child X (LoopFrame i) c) (body i)"
  shows "logged lg (trail X) (runLoopAction env kind m opts body)"
proof -
  have it: "logged lg (trail X) (loop_iterations n env g e k body 0)"
    if "\<And>i. eff (keeps lg) 0 (g i)" "\<And>i. eff (keeps lg) 0 (e i)" for n g e k
    by (rule logged_mono [OF loop_iterations_logged [OF that assms(2)]]) (rule trail_of_from_iter)
  have idx: "eff (keeps lg) 0 (set_loop_index i)" "eff (keeps lg) 0 (set_loop_item vs i)" for i vs
    by (simp_all add: set_loop_index_def set_loop_item_def keeping.eff_pure)
  have find: "eff (keeps lg) 0 (find_loop_element env t)" for t
    unfolding find_loop_element_def
    by (rule keeping.eff_bindR0 [OF keeping.eff_interpolate_target]) (rule keeping.lookups [OF assms(1)])
  have free: "logged lg (trail X) (returnR ())" "logged lg (trail X) (throwR e)" for e
    by (auto intro!: logged_kept keeping.eff_pure)
  have each: "logged lg (trail X) (case v of JArr vs \<Rightarrow> loop_iterations (nat (min (int (length vs)) (loop_limit m)))
      env (\<lambda>_. returnR True) (set_loop_item vs) k body 0 | _ \<Rightarrow> returnR ())" for v k
    by (cases v) (auto intro!: it free simp: idx keeping.eff_pure)
  show ?thesis
    by (cases kind)
      (auto simp: runLoopAction_def Let_def idx find free keeping.eff_pure keeping.eff_bindR0
         keeping.eff_evaluateCondition [OF assms(1)] keeping.eff_interp each
         intro!: logged_bindR0 it split: option.split)
qed

lemma frame_family_constructors:
  "frame_family TopFrame" "frame_family (IfFrame b)" "frame_family (LoopFrame i)"
  "frame_family (SwitchFrame k)" "frame_family GroupFrame"
  by (simp_all add: frame_family_def)

lemma run_action_logged:
  assumes env: "services_free (keeps lg) env" "lookups_free (keeps lg) env" and exec: "handler_costs (keeps lg) 0 exec"
  shows "logs_trails lg (run_action env exec) a"
proof (induction a rule: measure_induct_rule [of size])
  case (less a)
  have "logged lg (trail p) (run_action env exec a (Some o') p)" if rec: "recording lg o'" for o' p
  proof (cases a)
    case (Leaf b t fs nested)
    then show ?thesis
      by (auto simp: run_action.simps intro!: logged_kept keeping.eff_runStep env exec)
  next
    case (IfA b c th el)
    have "logged lg (trail p) (run_steps_with env (run_action env exec) (branch_steps br th el) (child_options (Some o') p (IfFrame br)))" for br
      using run_children_logged [OF rec frame_family_constructors(2), of "branch_steps br th el" "run_action env exec" p br env]
        less IfA size_branch_steps logged_mono trail_of_from_child by metis
    moreover have "eff (keeps lg) 0 (choose_branch env c (Some o'))"
      unfolding choose_branch_def
      by (auto simp: keeping.eff_pure keeping.eff_bindR0 keeping.eff_evaluateCondition [OF env(2)]
          split: option.split step_path_frame.split)
    ultimately show ?thesis
      unfolding IfA run_action.simps thenR_def
      by (intro logged_with_soft_timer env logged_bindR0 logged_then_free logged_throw_on_error keeping.eff_pure) auto
  next
    case (LoopA b kind m body)
    have sub: "logs_trails lg (run_action env exec) x" if "x \<in> set body" for x
      using less that LoopA size_list_member by simp
    have "\<exists>c. logged lg (from_child p (LoopFrame i) c)
        (run_steps_with env (run_action env exec) body (loop_child_options (Some o') p i))" for i
    proof -
      have "recording lg (o'\<lparr>resumePath := None\<rparr>)" using rec by (simp add: recording_def)
      then show ?thesis
        using run_children_logged [OF _ frame_family_constructors(3) sub] rec
        by (cases "i = resume_iter (Some o')") (simp_all add: loop_child_options_def set_resume_def)
    qed
    then show ?thesis
      unfolding LoopA run_action.simps thenR_def
      by (intro logged_with_soft_timer env logged_then_free runLoopAction_logged keeping.eff_pure)
  next
    case (SwitchA b expr cases' def)
    have r: "logged lg (trail p) (throw_on_error (run_steps_with env (run_action env exec) chosen
            (child_options (Some o') p (SwitchFrame k))))"
      if "cases' = Some cs" "choose_case expr cs def rf c = (k, chosen)" for cs rf c k chosen
    proof (rule logged_throw_on_error)
      have "size x < size a" if "x \<in> set chosen" for x
        using size_choose_case [of x expr cs def rf c b] that \<open>choose_case _ _ _ _ _ = _\<close> \<open>cases' = Some cs\<close> SwitchA by simp
      then show "logged lg (trail p) (run_steps_with env (run_action env exec) chosen (child_options (Some o') p (SwitchFrame k)))"
        using run_children_logged [OF rec frame_family_constructors(4), of chosen "run_action env exec" p k env]
          less logged_mono trail_of_from_child by metis
    qed
    show ?thesis
    proof (cases cases')
      case None
      then show ?thesis
        unfolding SwitchA run_action.simps None option.case
        by (intro logged_with_soft_timer env logged_catch_as_error logged_kept keeping.eff_pure) simp
    next
      case (Some cs)
      have "logged lg (trail p) (\<lambda>s. case choose_case expr cs def (resume_frame (Some o')) (fst s) of
                 (k, chosen) \<Rightarrow> throw_on_error (run_steps_with env (run_action env exec) chosen
                       (child_options (Some o') p (SwitchFrame k))) s)"
      proof (rule loggedI)
        fix s x s'
        assume m: "(case choose_case expr cs def (resume_frame (Some o')) (fst s) of
            (k, chosen) \<Rightarrow> throw_on_error (run_steps_with env (run_action env exec) chosen
                (child_options (Some o') p (SwitchFrame k))) s) = (x, s')"
        obtain k chosen where c: "choose_case expr cs def (resume_frame (Some o')) (fst s) = (k, chosen)"
          by (cases "choose_case expr cs def (resume_frame (Some o')) (fst s)")
        show "\<exists>ps. lg (snd s') = lg (snd s) @ ps \<and> trail p ps"
          using loggedD [OF r [OF Some c], of s] m c by simp
      qed
      then show ?thesis
        unfolding SwitchA run_action.simps Some option.case
        by (intro logged_with_soft_timer env logged_catch_as_error)
    qed
  next
    case (GroupA b body)
    have "logged lg (trail p) (run_steps_with env (run_action env exec) body (child_options (Some o') p GroupFrame))"
    proof -
      have "logs_trails lg (run_action env exec) x" if "x \<in> set body" for x
        using less that GroupA size_list_member by simp
      then show ?thesis
        using run_children_logged [OF rec frame_family_constructors(5), of body "run_action env exec" p env]
          logged_mono trail_of_from_child by blast
    qed
    then show ?thesis
      unfolding GroupA run_action.simps
      by (intro logged_with_soft_timer env logged_catch_as_error logged_throw_on_error)
  qed
  then show ?case by (simp add: logs_trails_def)
qed

text \<open>C6. The pending positions recorded when steps complete strictly increase in the order of the
  step tree, whatever the nesting, the loops and the outcome: a later checkpoint of a run never
  points before an earlier one, although a container completes after its children.\<close>

theorem pending_positions_increase:
  assumes "services_free (keeps lg) env" and "lookups_free (keeps lg) env" and "handler_costs (keeps lg) 0 exec"
    and "recording lg o'" and "frameFor o' = None" and "runSteps env exec as (Some o') s = (r, s')"
  shows "\<exists>ps. lg (snd s') = lg (snd s) @ ps
      \<and> sorted_wrt (\<lambda>p q. comparePath p q < 0) (map nextPendingPath ps)"
proof -
  have "opt_frame (Some o') = TopFrame" using assms(5) by (auto simp: opt_frame_def)
  then obtain X f i where "logged lg (from_child X f i) (runSteps env exec as (Some o'))"
    using run_steps_logged [OF assms(4), of as "run_action env exec" env] run_action_logged [OF assms(1-3)]
      frame_family_constructors(1) unfolding runSteps_def by auto
  from loggedD [OF this assms(6)] obtain ps
    where ps: "lg (snd s') = lg (snd s) @ ps" "sorted_wrt pending_less ps" by (auto simp: from_child_def)
  have "pending_less = (\<lambda>p q. comparePath (nextPendingPath p) (nextPendingPath q) < 0)"
    by (intro ext) (simp add: pending_less_def)
  then show ?thesis using ps by (intro exI [of _ ps]) (simp add: sorted_wrt_map)
qed


lemma recording_demo: "recording completed recording_options"
  by (auto simp: recording_def recording_options_def plain_options_def logged_def)

theorem pending_positions_increase_witness:
  "completed (snd (snd (runSteps demo_env demo_exec
      [GroupA empty_base [leaf_step ''note'' ''a'', leaf_step ''note'' ''b''],
       LoopA empty_base (FixedCount (jint 2)) None [leaf_step ''note'' ''c'']] (Some recording_options) demo_start)))
   = [[TopFrame 0, GroupFrame 0], [TopFrame 0, GroupFrame 1], [TopFrame 0],
      [TopFrame 1, LoopFrame 0 0], [TopFrame 1, LoopFrame 1 0], [TopFrame 1]]
   \<and> sorted_wrt (\<lambda>p q. comparePath p q < 0) (map nextPendingPath
     [[TopFrame 0, GroupFrame 0], [TopFrame 0, GroupFrame 1], [TopFrame 0],
      [TopFrame 1, LoopFrame 0 0], [TopFrame 1, LoopFrame 1 0], [TopFrame 1]])"
proof -
  let ?as = "[GroupA empty_base [leaf_step ''note'' ''a'', leaf_step ''note'' ''b''],
       LoopA empty_base (FixedCount (jint 2)) None [leaf_step ''note'' ''c'']]"
  have run: "completed (snd (snd (runSteps demo_env demo_exec ?as (Some recording_options) demo_start)))
   = [[TopFrame 0, GroupFrame 0], [TopFrame 0, GroupFrame 1], [TopFrame 0],
      [TopFrame 1, LoopFrame 0 0], [TopFrame 1, LoopFrame 1 0], [TopFrame 1]]"
    by code_simp
  have start: "completed (snd demo_start) = []" "frameFor recording_options = None"
    by (simp_all add: demo_start_def recording_options_def plain_options_def)
  obtain r s' where rs: "runSteps demo_env demo_exec ?as (Some recording_options) demo_start = (r, s')"
    by (cases "runSteps demo_env demo_exec ?as (Some recording_options) demo_start")
  show ?thesis
    using pending_positions_increase [OF demo_keeps_services demo_keeps_lookups demo_keeps_handler recording_demo start(2) rs]
      run rs start(1) by auto
qed

end
