(* ===== verification/Step_Errors.thy ===== *)
theory Step_Errors
  imports Demo_Env
begin

text \<open>
  What steps and containers do on failure: the bound on the attempts of a step, the shape of error
  results, cancellation, what escapes a container, and the bounds and order of loops.
\<close>

section \<open>Attempts\<close>

text \<open>C7. A step calls its handler at most \<open>maxAttempts + 1\<close> times, where \<open>maxAttempts\<close> is what the
  step, the rule defaults and the rule's ceiling give: no error, delay, timeout or strategy leads to
  another attempt.\<close>

theorem retry_attempt_bound:
  assumes "services_free (counts cnt) env" and "handler_costs (counts cnt) 1 exec"
    and "runStepBody env exec a s = (r, s')"
  shows "cnt (snd s') \<le> cnt (snd s) + nat (maxAttempts (step_retry a (fst s)) + 1)"
  using counting.eff_runStepBody_at [OF assms] by (simp add: counts_def)

theorem retry_attempt_bound_witness:
  "demo_count ''fail:NetworkError'' (snd (snd (runStepBody demo_env demo_exec
      (Leaf (empty_base\<lparr>retry := Some (RetryNumber 2)\<rparr>) ''fail'' [(''text'', JStr ''NetworkError'')] []) demo_start))) = 3
   \<and> (3::nat) \<le> 0 + nat (2 + 1)"
proof -
  let ?a = "Leaf (empty_base\<lparr>retry := Some (RetryNumber 2)\<rparr>) ''fail'' [(''text'', JStr ''NetworkError'')] []"
  have run: "demo_count ''fail:NetworkError'' (snd (snd (runStepBody demo_env demo_exec ?a demo_start))) = 3"
    by code_simp
  have "maxAttempts (step_retry ?a (fst demo_start)) = 2" "demo_count ''fail:NetworkError'' (snd demo_start) = 0"
    by code_simp+
  moreover have "services_free (counts (demo_count ''fail:NetworkError'')) demo_env"
    by (rule demo_services) simp_all
  ultimately show ?thesis
    using retry_attempt_bound [of "demo_count ''fail:NetworkError''" demo_env demo_exec ?a demo_start] demo_handler run
    by (cases "runStepBody demo_env demo_exec ?a demo_start") auto
qed


section \<open>Errors of a step\<close>

lemma stepFailed_error:
  assumes "stepFailed env a err s = (Ret (Some e), s')"
  shows "e = err \<and> onError (base a) \<in> {None, Some ''stop''}"
  using assms unfolding stepFailed_def Let_def
  by (cases "onError (base a)") (auto dest!: thenR_RetD split: if_splits)

text \<open>A leaf step gives an error result only when its strategy is to stop; the result carries
  the step's id, the classification of its own message, and is never marked recoverable. In
  particular a step with \<open>onError\<close> of \<open>continue\<close>, \<open>skip\<close> or \<open>requestHuman\<close> never ends a run by an
  error result.\<close>

theorem step_error_result:
  assumes "runStep env exec a s = (Ret (Some e), s')"
  shows "onError (base a) \<in> {None, Some ''stop''}
     \<and> errType e = classify_message (errMessage e) \<and> errStepId e = stepId (base a) \<and> \<not> recoverable e"
proof -
  obtain s1 where "runStepBody env exec a s1 = (Ret (Some e), s')"
    using assms unfolding runStep_def by (auto dest!: bindR_RetD split: option.splits if_splits)
  then obtain s2 rc x where "stepFailed env a (error_of_step a rc x) s2 = (Ret (Some e), s')"
    unfolding runStepBody_def by (auto dest!: bindR_RetD split: attempt_result.splits)
  from stepFailed_error [OF this] show ?thesis
    by (auto simp: error_of_step_def Let_def)
qed

theorem step_error_result_witness:
  "\<exists>e s'. runStep demo_env demo_exec (leaf_step ''fail'' ''Captcha shown'') demo_start = (Ret (Some e), s')
     \<and> errType e = ''CaptchaError'' \<and> errMessage e = ''Captcha shown'' \<and> \<not> recoverable e"
proof -
  let ?run = "runStep demo_env demo_exec (leaf_step ''fail'' ''Captcha shown'') demo_start"
  have "case ?run of (Ret (Some e), s') \<Rightarrow> errMessage e = ''Captcha shown'' | _ \<Rightarrow> False"
    by code_simp
  then obtain e s' where run: "?run = (Ret (Some e), s')" and m: "errMessage e = ''Captcha shown''"
    by (auto split: prod.splits outcome.splits option.splits)
  have "classify_message ''Captcha shown'' = ''CaptchaError''" by code_simp
  then show ?thesis using step_error_result [OF run] run m by auto
qed

text \<open>A failure that is not recoverable is not retried: whatever attempts remain, the step
  gives up with that error in the state the attempt left, without delay or log entry.\<close>

theorem unrecoverable_not_retried:
  assumes "executeWithTimeout env exec a t (softTimeout (base a)) s = (Throw e, s1)"
    and "\<not> is_signal e" and "\<not> isRecoverable (classifyError e)"
  shows "step_attempts (Suc n) env exec a t rc k l s = (Ret (GaveUp (Some e)), s1)"
  using assms by (simp add: catchR_apply thenR_apply)

theorem unrecoverable_not_retried_witness:
  "\<exists>e s1. step_attempts 3 demo_env demo_exec (leaf_step ''fail'' ''ScriptError: no'') 1000
      \<lparr>maxAttempts = 2, delay = None, backoff = None, retryOn = None\<rparr> 0 None demo_start = (Ret (GaveUp (Some e)), s1)
     \<and> e = Error ''ScriptError: no'' \<and> events (snd s1) = [''fail:ScriptError: no'']"
proof -
  let ?a = "leaf_step ''fail'' ''ScriptError: no''"
  let ?run = "executeWithTimeout demo_env demo_exec ?a 1000 (softTimeout (base ?a)) demo_start"
  have "case ?run of (Throw e, s1) \<Rightarrow> e = Error ''ScriptError: no'' \<and> events (snd s1) = [''fail:ScriptError: no''] | _ \<Rightarrow> False"
    by code_simp
  then obtain e s1 where run: "?run = (Throw e, s1)" and e: "e = Error ''ScriptError: no''" "events (snd s1) = [''fail:ScriptError: no'']"
    by (auto split: prod.splits outcome.splits)
  have "\<not> is_signal e" "\<not> isRecoverable (classifyError e)" unfolding e by code_simp+
  from unrecoverable_not_retried [OF run this, of 2 "\<lparr>maxAttempts = 2, delay = None, backoff = None, retryOn = None\<rparr>" 0 None]
  show ?thesis using e by (auto simp: numeral_3_eq_3 numeral_2_eq_2)
qed


definition demo_cancelled :: "demo st" where
  "demo_cancelled = (fst demo_start, (snd demo_start)\<lparr>cancelled := True\<rparr>)"

lemma aborted_demo_cancelled: "aborted demo_env demo_cancelled"
  by code_simp


lemma catch_as_error_throws: "catch_as_error m s = (Throw e, s') \<Longrightarrow> is_signal e"
  by (auto simp: catch_as_error_def catchR_apply split: prod.splits outcome.splits if_splits)

lemma ignoreR_Ret: "\<exists>s'. ignoreR m s = (Ret (), s')"
  by (auto simp: ignoreR_def catchR_apply split: prod.splits outcome.splits)

lemma afterSoftTimeout_Ret: "\<exists>s'. afterSoftTimeout env a timer hard start pnd s = (Ret (), s')"
proof -
  have "\<exists>s'. softTimeoutWarning env a t hard s = (Ret (), s')" for t
    unfolding softTimeoutWarning_def by (rule ignoreR_Ret)
  then show ?thesis by (cases timer) (simp_all add: afterSoftTimeout_def bindR_apply whenR_apply)
qed

lemma with_soft_timer_result:
  "with_soft_timer env a m s = (r, s') \<Longrightarrow> \<exists>s1. m s = (r, s1)"
  by (auto simp: with_soft_timer_def bindR_apply thenR_apply split: prod.splits outcome.splits)
    (metis afterSoftTimeout_Ret outcome.distinct(1) prod.inject)+

text \<open>A group or a switch lets only control signals escape: every other exception of its body,
  of its conditions and of its handlers ends as an error result.\<close>

theorem container_throws_only_signals:
  assumes "run_action env exec (GroupA b body) opts p s = (Throw e, s')
     \<or> run_action env exec (SwitchA b expr cs def) opts p s = (Throw e, s')"
  shows "is_signal e"
  using assms by (auto simp: run_action.simps dest!: with_soft_timer_result catch_as_error_throws)

theorem container_throws_only_signals_witness:
  "\<exists>e s'. run_action demo_env demo_exec (GroupA empty_base [leaf_step ''break'' []]) None [TopFrame 0] demo_start = (Throw e, s')
     \<and> is_signal e"
proof -
  let ?run = "run_action demo_env demo_exec (GroupA empty_base [leaf_step ''break'' []]) None [TopFrame 0] demo_start"
  have "case ?run of (Throw e, s1) \<Rightarrow> True | _ \<Rightarrow> False" by code_simp
  then obtain e s1 where "?run = (Throw e, s1)" by (auto split: prod.splits outcome.splits)
  then show ?thesis using container_throws_only_signals by blast
qed

text \<open>The price is that cancellation is among the exceptions a group turns into a result: a
  cancelled run that stands before the first step of a group ends with an unknown error, where the
  abort error was to mark it cancelled.\<close>

theorem group_hides_cancellation:
  assumes "aborted env s" and "body \<noteq> []" and "softTimeout b = None"
  shows "run_action env exec (GroupA b body) (Some plain_options) p s
     = (Ret (Some \<lparr>errType = ''UnknownError'', errMessage = ''Task was cancelled'', errStepId = None,
          errRetryCount = None, recoverable = False\<rparr>), s)"
proof -
  have "run_steps_with env (run_action env exec) body (child_options (Some plain_options) p GroupFrame) s
      = (Throw (JsError ''AbortError'' ''Task was cancelled''), s)"
    using assms(1,2)
    by (cases body) (simp_all add: child_options_def plain_options_def run_steps_with_def start_index_def
        checkAborted_def runtime_simps)
  moreover have "classify_message ''Task was cancelled'' = ''UnknownError''" by code_simp
  ultimately show ?thesis
    using assms(3)
    by (simp add: run_action.simps with_soft_timer_def catch_as_error_def throw_on_error_def
        afterSoftTimeout_def scheduleSoftTimeout_def error_of_exn_def classifyError_def runtime_simps)
qed

theorem group_hides_cancellation_witness:
  "run_action demo_env demo_exec (GroupA empty_base [leaf_step ''note'' ''a'']) (Some plain_options) [TopFrame 0] demo_cancelled
     = (Ret (Some \<lparr>errType = ''UnknownError'', errMessage = ''Task was cancelled'', errStepId = None,
          errRetryCount = None, recoverable = False\<rparr>), demo_cancelled)"
  by (rule group_hides_cancellation [OF aborted_demo_cancelled]) (simp_all add: empty_base_def)


section \<open>Loops\<close>

text \<open>A loop enters its body at most \<open>maxIterations\<close> times (100 by default), for every loop
  type, whatever its body, its condition or its count do.\<close>

theorem loop_iteration_bound:
  assumes "lookups_free (counts cnt) env" and "\<And>i. eff (counts cnt) 1 (body i)"
    and "runLoopAction env kind m opts body s = (r, s')"
  shows "cnt (snd s') \<le> cnt (snd s) + nat (loop_limit m)"
  using counting.effD [OF counting.eff_runLoopAction [OF assms(1,2)] assms(3)] by (simp add: counts_def)

definition count_body :: "int \<Rightarrow> (demo, step_result) run" where
  "count_body i = thenR (demo_event ''body'') (returnR None)"

theorem loop_iteration_bound_witness:
  "demo_count ''body'' (snd (snd (runLoopAction demo_env
      (WhileElementExists (Some [(''present'', JBool True)])) (Some 4) None count_body demo_start))) = 4
   \<and> (4::nat) \<le> 0 + nat (loop_limit (Some 4))"
proof -
  let ?run = "runLoopAction demo_env (WhileElementExists (Some [(''present'', JBool True)])) (Some 4) None count_body demo_start"
  have run: "demo_count ''body'' (snd (snd ?run)) = 4" by code_simp
  have "eff (counts (demo_count ''body'')) 1 (count_body i)" for i
    by (simp add: count_body_def eff_def counts_def demo_event_def demo_count_def runtime_simps split: prod.splits)
  moreover obtain r s' where "?run = (r, s')" by (cases ?run)
  moreover have "demo_count ''body'' (snd demo_start) = 0" by code_simp
  ultimately show ?thesis
    using loop_iteration_bound [of "demo_count ''body''" demo_env count_body
        "WhileElementExists (Some [(''present'', JBool True)])" "Some 4" None demo_start r s'] demo_lookups run
    by simp
qed

text \<open>A resumed loop whose guard always holds passes over the iterations before the recorded one with
  the loop variables set and the body not entered.\<close>

lemma loop_skips:
  assumes "\<And>s. \<not> aborted env s" and "int m \<le> max 0 (k - i)"
    and "\<And>j s. \<exists>s'. enter j s = (Ret (), s')"
  shows "loop_iterations (m + n) env (\<lambda>_. returnR True) enter k body i s
     = loop_iterations n env (\<lambda>_. returnR True) enter k body (i + int m)
         (foldl (\<lambda>s j. snd (enter j s)) s (map (\<lambda>j. i + int j) [0..<m]))"
  using assms(2)
proof (induction m arbitrary: i s)
  case (Suc m)
  obtain s1 where s1: "enter i s = (Ret (), s1)" using assms(3) by blast
  have "i < k" using Suc.prems by linarith
  have "loop_iterations (Suc m + n) env (\<lambda>_. returnR True) enter k body i s
      = loop_iterations (m + n) env (\<lambda>_. returnR True) enter k body (i + 1) s1"
    using assms(1) \<open>i < k\<close> s1 by (simp add: checkAborted_def runtime_simps)
  also have "\<dots> = loop_iterations n env (\<lambda>_. returnR True) enter k body (i + 1 + int m)
         (foldl (\<lambda>s j. snd (enter j s)) s1 (map (\<lambda>j. i + 1 + int j) [0..<m]))"
    by (rule Suc.IH) (use Suc.prems in simp)
  finally have run: "loop_iterations (Suc m + n) env (\<lambda>_. returnR True) enter k body i s = \<dots>" .
  have "map (\<lambda>j. i + int j) [0..<Suc m] = i # map (\<lambda>j. i + 1 + int j) [0..<m]"
    and "i + int (Suc m) = i + 1 + int m"
    by (rule nth_equalityI) (auto simp: nth_Cons nth_append split: nat.split)
  then show ?case by (simp only: run foldl.simps s1 snd_conv)
qed simp

text \<open>A loop whose body never fails or signals runs it once for every iteration, in order.\<close>

lemma loop_runs_all:
  assumes "\<And>s. \<not> aborted env s" and "\<And>j s. \<exists>s'. enter j s = (Ret (), s')"
    and "\<And>j s. \<exists>s'. body j s = (Ret None, s')" and "k \<le> i"
  shows "loop_iterations n env (\<lambda>_. returnR True) enter k body i s
     = (Ret (), foldl (\<lambda>s j. snd (body j (snd (enter j s)))) s (map (\<lambda>j. i + int j) [0..<n]))"
  using assms(4)
proof (induction n arbitrary: i s)
  case (Suc n)
  obtain s1 where s1: "enter i s = (Ret (), s1)" using assms(2) by blast
  obtain s2 where s2: "body i s1 = (Ret None, s2)" using assms(3) by blast
  have "loop_iterations (Suc n) env (\<lambda>_. returnR True) enter k body i s
      = loop_iterations n env (\<lambda>_. returnR True) enter k body (i + 1) s2"
    using assms(1) Suc.prems s1 s2 by (simp add: checkAborted_def throw_on_error_def runtime_simps)
  also have "\<dots> = (Ret (), foldl (\<lambda>s j. snd (body j (snd (enter j s)))) s2 (map (\<lambda>j. i + 1 + int j) [0..<n]))"
    by (rule Suc.IH) (use Suc.prems in simp)
  finally have run: "loop_iterations (Suc n) env (\<lambda>_. returnR True) enter k body i s = \<dots>" .
  have "map (\<lambda>j. i + int j) [0..<Suc n] = i # map (\<lambda>j. i + 1 + int j) [0..<n]"
    by (rule nth_equalityI) (auto simp: nth_Cons nth_append split: nat.split)
  then show ?case by (simp only: run foldl.simps s1 s2 snd_conv)
qed simp

lemma set_loop_item_Ret: "\<exists>s'. set_loop_item vs j s = (Ret (), s')"
  by (simp add: set_loop_item_def)

text \<open>A \<open>forEach\<close> resumed at its iteration \<open>k\<close>, uncancelled and with a body that succeeds, visits
  exactly the items from the \<open>k\<close>-th on, up to the iteration limit, in order and with the loop
  variables of each item; from a fresh start it visits them all.\<close>

theorem forEach_visits_remaining:
  assumes "\<And>s. \<not> aborted env s" and "\<And>j s. \<exists>s'. body j s = (Ret None, s')"
    and "k = (if resume_iter opts < 0 then 0 else nat (resume_iter opts))" and "k \<le> length vs" and "int k \<le> loop_limit m"
  shows "runLoopAction env (ForEach (JArr vs)) m opts body s
     = (Ret (), foldl (\<lambda>u j. snd (body j (snd (set_loop_item (interpolate_list (fst s) vs) j u))))
         (foldl (\<lambda>u j. snd (set_loop_item (interpolate_list (fst s) vs) j u)) s (map int [0..<k]))
         (map int [k..<min (length vs) (nat (loop_limit m))]))"
proof -
  let ?vs = "interpolate_list (fst s) vs"
  let ?n = "min (length vs) (nat (loop_limit m))"
  have len: "length (interpolate_list c vs) = length vs" for c :: runtime_context by (induction vs) auto
  have kn: "k \<le> ?n" using assms(4,5) by auto
  then obtain n where n: "?n = k + n" using le_Suc_ex by blast
  have "nat (min (int (length ?vs)) (loop_limit m)) = ?n" using len by auto
  then have "runLoopAction env (ForEach (JArr vs)) m opts body s
     = loop_iterations (k + n) env (\<lambda>_. returnR True) (set_loop_item ?vs) (resume_iter opts) body 0 s"
    by (simp add: runLoopAction_def Let_def forEach_items_def bindR_apply n)
  also have "\<dots> = loop_iterations n env (\<lambda>_. returnR True) (set_loop_item ?vs) (resume_iter opts) body (0 + int k)
         (foldl (\<lambda>s j. snd (set_loop_item ?vs j s)) s (map (\<lambda>j. 0 + int j) [0..<k]))"
    by (rule loop_skips [OF assms(1) _ set_loop_item_Ret]) (use assms(3) in auto)
  also have "\<dots> = (Ret (), foldl (\<lambda>s j. snd (body j (snd (set_loop_item ?vs j s))))
         (foldl (\<lambda>s j. snd (set_loop_item ?vs j s)) s (map (\<lambda>j. 0 + int j) [0..<k]))
         (map (\<lambda>j. int k + int j) [0..<n]))"
    using loop_runs_all [OF assms(1) set_loop_item_Ret assms(2), where k = "resume_iter opts" and i = "int k"] assms(3) by auto
  also have "map (\<lambda>j. int k + int j) [0..<n] = map int [k..<?n]"
    unfolding n by (rule nth_equalityI) auto
  finally show ?thesis by simp
qed

theorem forEach_visits_remaining_witness:
  "(case runLoopAction (demo_env\<lparr>aborted := \<lambda>_. False\<rparr>) (ForEach (JArr [JStr ''x'', JStr ''y'', JStr ''z''])) None
       (Some (resume_at [LoopFrame 1 0])) count_body demo_start of
      (r, (c, w)) \<Rightarrow> (r, events w, loopItem c)) = (Ret (), [''body'', ''body''], JStr ''z'')"
proof -
  have 1: "\<exists>s'. count_body j s = (Ret None, s')" for j s
    by (cases s) (simp add: count_body_def demo_event_def runtime_simps)
  have k: "1 = (if resume_iter (Some (resume_at [LoopFrame 1 0])) < 0 then 0
      else nat (resume_iter (Some (resume_at [LoopFrame 1 0]))))"
    by (simp add: resume_iter_def resume_frame_def resume_at_def)
  have run: "runLoopAction (demo_env\<lparr>aborted := \<lambda>_. False\<rparr>) (ForEach (JArr [JStr ''x'', JStr ''y'', JStr ''z''])) None
       (Some (resume_at [LoopFrame 1 0])) count_body demo_start
     = (Ret (), foldl (\<lambda>s j. snd (count_body j (snd (set_loop_item (interpolate_list (fst demo_start) [JStr ''x'', JStr ''y'', JStr ''z'']) j s))))
         (foldl (\<lambda>s j. snd (set_loop_item (interpolate_list (fst demo_start) [JStr ''x'', JStr ''y'', JStr ''z'']) j s)) demo_start (map int [0..<1]))
         (map int [1..<min (length [JStr ''x'', JStr ''y'', JStr ''z'']) (nat (loop_limit None))]))"
    by (rule forEach_visits_remaining [OF _ _ k]) (simp_all add: 1 [simplified split_paired_Ex] loop_limit_def)
  show ?thesis unfolding run by code_simp
qed

end
