(* ===== verification/Output_Validation.thy ===== *)
theory Output_Validation
  imports Runtime
begin

text \<open>
  Model of \<open>src/scriptcat-engine/output-validation.ts\<close>: the interpreter of the JSON Schema subset
  that checks the extracted data of a run. A thrown error is \<open>Inl\<close> of its message; otherwise the
  list of violations. The regular-expression engine is the parameter \<open>rx\<close> (\<open>Inl\<close> for an invalid
  pattern). Property reads on the data and on \<open>properties\<close> see the members of
  \<open>Object.prototype\<close>, as the source's \<open>in\<close> and bracket accesses do.
\<close>

section \<open>Keywords and property access\<close>

definition ANNOTATION_KEYWORDS :: "string list" where
  "ANNOTATION_KEYWORDS = [''$schema'', ''$id'', ''$comment'', ''title'', ''description'', ''default'',
     ''examples'', ''format'', ''readOnly'', ''writeOnly'', ''deprecated'']"

definition SUPPORTED_KEYWORDS :: "string list" where
  "SUPPORTED_KEYWORDS = ANNOTATION_KEYWORDS @ [''type'', ''enum'', ''const'',
     ''properties'', ''required'', ''additionalProperties'', ''minProperties'', ''maxProperties'',
     ''items'', ''minItems'', ''maxItems'', ''uniqueItems'',
     ''minLength'', ''maxLength'', ''pattern'',
     ''minimum'', ''maximum'', ''exclusiveMinimum'', ''exclusiveMaximum'', ''multipleOf'',
     ''anyOf'', ''oneOf'', ''allOf'', ''not'']"

definition checkedSchema :: "jval \<Rightarrow> string \<Rightarrow> string + jobj" where
  "checkedSchema schema label =
     (case schema of
        JObj fs \<Rightarrow>
          (case find (\<lambda>k. k \<notin> set SUPPORTED_KEYWORDS) (al_keys fs) of
             None \<Rightarrow> Inr fs
           | Some k \<Rightarrow> Inl (label @ '' keyword \"'' @ k @ ''\" is not supported by the browser-safe output validator''))
      | _ \<Rightarrow> Inl (label @ '' must be a JSON object''))"

text \<open>\<open>properties[key]\<close>: \<open>None\<close> for \<open>undefined\<close>; an inherited method is a function, which the
  schema check rejects like any value that is not an object; the prototype itself has no keys.\<close>

definition property_schema :: "jobj \<Rightarrow> string \<Rightarrow> jval option" where
  "property_schema ps k =
     (if obj_has ps k then (if obj_get ps k = JUndef then None else Some (obj_get ps k))
      else if k \<in> set prototype_methods then Some (JStr ''function'')
      else if k = ''__proto__'' then Some (JObj [])
      else None)"


section \<open>Types and equality\<close>

fun typeOf :: "jval \<Rightarrow> string" where
  "typeOf JNull = ''null''"
| "typeOf (JArr _) = ''array''"
| "typeOf (JNum n) = (if num_is_integer n then ''integer'' else ''number'')"
| "typeOf JUndef = ''undefined''"
| "typeOf (JBool _) = ''boolean''"
| "typeOf (JStr _) = ''string''"
| "typeOf (JObj _) = ''object''"

definition matchesType :: "jval \<Rightarrow> string \<Rightarrow> bool" where
  "matchesType d t =
     (if t = ''number'' then (case d of JNum n \<Rightarrow> num_is_finite n | _ \<Rightarrow> False)
      else if t = ''integer'' then (case d of JNum n \<Rightarrow> num_is_integer n | _ \<Rightarrow> False)
      else if t = ''object'' then is_record d
      else typeOf d = t)"

text \<open>Values of different kinds, and values of a primitive kind, are equal when identical.\<close>

function (sequential) deepEqual :: "jval \<Rightarrow> jval \<Rightarrow> bool" where
  "deepEqual (JNum m) (JNum n) = (m = n \<and> m \<noteq> NaN)"
| "deepEqual (JArr xs) (JArr ys) =
     (length xs = length ys \<and> list_all (\<lambda>(x, y). deepEqual x y) (zip xs ys))"
| "deepEqual (JObj fs) (JObj gs) =
     (length fs = length gs \<and> list_all (\<lambda>(k, v). deepEqual v (obj_get gs k)) fs)"
| "deepEqual a b = (a = b)"
  by pat_completeness auto
termination
  by (relation "measure (\<lambda>(a, b). size a)")
    (auto dest!: set_zip_leftD dest: size_elem size_field)


section \<open>Sequencing of checks\<close>

text \<open>
  The violations found by a sequence of checks, in order; the first thrown error ends it.
\<close>

fun also_check :: "string + string list \<Rightarrow> string + string list \<Rightarrow> string + string list" where
  "also_check (Inl e) _ = Inl e"
| "also_check (Inr xs) (Inl e) = Inl e"
| "also_check (Inr xs) (Inr ys) = Inr (xs @ ys)"

primrec check_each :: "('a \<Rightarrow> string + string list) \<Rightarrow> 'a list \<Rightarrow> string + string list" where
  "check_each f [] = Inr []"
| "check_each f (x # xs) = also_check (f x) (check_each f xs)"

lemma check_each_cong [fundef_cong]:
  "xs = ys \<Longrightarrow> (\<And>x. x \<in> set ys \<Longrightarrow> f x = g x) \<Longrightarrow> check_each f xs = check_each g ys"
  by (induction xs arbitrary: ys) auto

text \<open>\<open>list.some(f)\<close> stops at the first element whose check is empty; a throw before it escapes.\<close>

primrec some_valid :: "('a \<Rightarrow> string + string list) \<Rightarrow> 'a list \<Rightarrow> string + bool" where
  "some_valid f [] = Inr False"
| "some_valid f (x # xs) =
     (case f x of Inl e \<Rightarrow> Inl e | Inr [] \<Rightarrow> Inr True | Inr (_ # _) \<Rightarrow> some_valid f xs)"

lemma some_valid_cong [fundef_cong]:
  "xs = ys \<Longrightarrow> (\<And>x. x \<in> set ys \<Longrightarrow> f x = g x) \<Longrightarrow> some_valid f xs = some_valid g ys"
  by (induction xs arbitrary: ys) (auto split: sum.splits list.splits)

primrec count_valid :: "('a \<Rightarrow> string + string list) \<Rightarrow> 'a list \<Rightarrow> string + nat" where
  "count_valid f [] = Inr 0"
| "count_valid f (x # xs) =
     (case f x of Inl e \<Rightarrow> Inl e
      | Inr es \<Rightarrow> map_sum id (\<lambda>n. if es = [] then Suc n else n) (count_valid f xs))"

lemma count_valid_cong [fundef_cong]:
  "xs = ys \<Longrightarrow> (\<And>x. x \<in> set ys \<Longrightarrow> f x = g x) \<Longrightarrow> count_valid f xs = count_valid g ys"
  by (induction xs arbitrary: ys) (auto split: sum.splits)

definition fail_if :: "bool \<Rightarrow> string \<Rightarrow> string \<Rightarrow> string + string list" where
  "fail_if b path msg = Inr (if b then [path @ '' '' @ msg] else [])"



section \<open>The validator\<close>

text \<open>The checks of a schema node, group by group in the order of the source\<close>

definition check_const_enum :: "jval \<Rightarrow> jobj \<Rightarrow> string \<Rightarrow> string + string list" where
  "check_const_enum d sc path =
     also_check
       (fail_if (obj_get sc ''const'' \<noteq> JUndef \<and> \<not> deepEqual d (obj_get sc ''const'')) path
          ''must be equal to constant'')
       (case obj_get sc ''enum'' of
          JArr vs \<Rightarrow> fail_if (\<not> list_ex (deepEqual d) vs) path ''must be equal to one of the allowed values''
        | _ \<Rightarrow> Inr [])"

definition schema_types :: "jval \<Rightarrow> string + string list" where
  "schema_types t =
     (let ts = (case t of JArr vs \<Rightarrow> vs | v \<Rightarrow> [v]) in
      if list_all is_string ts then Inr (map js_String ts)
      else Inl ''output schema \"type\" must be a string or an array of strings'')"

definition check_type :: "jval \<Rightarrow> jobj \<Rightarrow> string \<Rightarrow> string + string list" where
  "check_type d sc path =
     (if obj_get sc ''type'' = JUndef then Inr []
      else (case schema_types (obj_get sc ''type'') of
              Inl e \<Rightarrow> Inl e
            | Inr ts \<Rightarrow> fail_if (\<not> list_ex (matchesType d) ts) path
                          (''must be '' @ join_strings '' or '' ts)))"

definition check_required :: "jobj \<Rightarrow> jobj \<Rightarrow> string \<Rightarrow> string + string list" where
  "check_required fs sc path =
     (case obj_get sc ''required'' of
        JUndef \<Rightarrow> Inr []
      | JArr ks \<Rightarrow>
          check_each (\<lambda>k. fail_if (\<not> key_in (js_String k) fs) path
             (''must have required property '' @ [CHR 0x27] @ js_String k @ [CHR 0x27])) ks
      | _ \<Rightarrow> Inl ''output schema \"required\" must be an array'')"

definition num_bound :: "jval \<Rightarrow> (jnum \<Rightarrow> bool) \<Rightarrow> bool" where
  "num_bound v p = (case v of JNum n \<Rightarrow> p n | _ \<Rightarrow> False)"

definition size_num :: "nat \<Rightarrow> jnum" where
  "size_num n = Fin (of_nat n)"

text \<open>A lower and an upper bound on a count, with the unit named in the message\<close>

definition unit_verb :: "string \<Rightarrow> string" where
  "unit_verb u = (if u = ''characters'' then ''be'' else ''have'')"

definition check_counts :: "string \<Rightarrow> string \<Rightarrow> string \<Rightarrow> nat \<Rightarrow> jobj \<Rightarrow> string \<Rightarrow> string + string list" where
  "check_counts lo hi unit n sc path =
     also_check
       (fail_if (num_bound (obj_get sc lo) (\<lambda>m. num_less (size_num n) m)) path
          (''must '' @ unit_verb unit @ '' at least '' @ js_String (obj_get sc lo) @ '' '' @ unit))
       (fail_if (num_bound (obj_get sc hi) (\<lambda>m. num_less m (size_num n))) path
          (''must '' @ unit_verb unit @ '' at most '' @ js_String (obj_get sc hi) @ '' '' @ unit))"

definition check_string :: "(string \<Rightarrow> string \<Rightarrow> string + bool) \<Rightarrow> string \<Rightarrow> jobj \<Rightarrow> string \<Rightarrow> string + string list" where
  "check_string rx x sc path =
     also_check (check_counts ''minLength'' ''maxLength'' ''characters'' (length x) sc path)
       (case obj_get sc ''pattern'' of
          JStr p \<Rightarrow>
            (case rx p x of
               Inl e \<Rightarrow> Inl e
             | Inr b \<Rightarrow> fail_if (\<not> b) path (''must match pattern '' @ p))
        | _ \<Rightarrow> Inr [])"

text \<open>\<open>Math.abs(q - Math.round(q)) > 1e-9\<close> for the exact quotient; a zero or infinite divisor
  gives no violation, since every comparison with \<open>NaN\<close> is false.\<close>

definition not_multiple :: "jnum \<Rightarrow> jnum \<Rightarrow> bool" where
  "not_multiple n d =
     (case (n, d) of
        (Fin a, Fin b) \<Rightarrow>
          b \<noteq> 0 \<and> \<bar>a / b - of_int \<lfloor>a / b + 1 / 2\<rfloor>\<bar> > 1 / 1000000000
      | _ \<Rightarrow> False)"

definition check_number :: "jnum \<Rightarrow> jobj \<Rightarrow> string \<Rightarrow> string + string list" where
  "check_number n sc path =
     also_check
       (fail_if (num_bound (obj_get sc ''minimum'')
          (\<lambda>m. if obj_get sc ''exclusiveMinimum'' = JBool True then num_le n m else num_less n m)) path
          (''must be >= '' @ js_String (obj_get sc ''minimum'')))
    (also_check
       (fail_if (num_bound (obj_get sc ''maximum'')
          (\<lambda>m. if obj_get sc ''exclusiveMaximum'' = JBool True then num_le m n else num_less m n)) path
          (''must be <= '' @ js_String (obj_get sc ''maximum'')))
    (also_check
       (fail_if (num_bound (obj_get sc ''exclusiveMinimum'') (num_le n)) path
          (''must be > '' @ js_String (obj_get sc ''exclusiveMinimum'')))
    (also_check
       (fail_if (num_bound (obj_get sc ''exclusiveMaximum'') (\<lambda>m. num_le m n)) path
          (''must be < '' @ js_String (obj_get sc ''exclusiveMaximum'')))
       (fail_if (num_bound (obj_get sc ''multipleOf'') (not_multiple n)) path
          (''must be a multiple of '' @ js_String (obj_get sc ''multipleOf''))))))"

primrec first_duplicate :: "nat \<Rightarrow> jval list \<Rightarrow> (nat \<times> nat) option" where
  "first_duplicate i [] = None"
| "first_duplicate i (x # xs) =
     (case find_index (deepEqual x) xs of
        Some j \<Rightarrow> Some (i, i + 1 + j)
      | None \<Rightarrow> first_duplicate (i + 1) xs)"

definition check_unique :: "jval list \<Rightarrow> jobj \<Rightarrow> string \<Rightarrow> string + string list" where
  "check_unique vs sc path =
     (if obj_get sc ''uniqueItems'' = JBool True
      then (case first_duplicate 0 vs of
              None \<Rightarrow> Inr []
            | Some (i, j) \<Rightarrow> fail_if True path
                (''must not have duplicate items ('' @ show_int (int i) @ '' and '' @ show_int (int j) @ '')''))
      else Inr [])"

definition declared_keys :: "jobj \<Rightarrow> string list" where
  "declared_keys sc = (case obj_get sc ''properties'' of JObj ps \<Rightarrow> al_keys ps | _ \<Rightarrow> [])"

definition extra_fields :: "jobj \<Rightarrow> jobj \<Rightarrow> jobj" where
  "extra_fields fs sc = filter (\<lambda>(k, v). k \<notin> set (declared_keys sc)) fs"

lemma size_property_schema:
  assumes "property_schema ps k = Some (JObj cs)" and "obj_get sc p = JObj ps"
  shows "size (JObj cs) < size (JObj sc)"
proof -
  have le: "size (JObj cs) \<le> size (JObj ps)"
    using assms(1) by (auto simp: property_schema_def split: if_splits dest!: size_obj_get)
  have "size (JObj ps) < size (JObj sc)"
    using size_obj_get [OF assms(2)] by simp
  with le show ?thesis by simp
qed

lemma checkedSchema_Inr [dest!]: "checkedSchema v l = Inr fs \<Longrightarrow> v = JObj fs"
  by (auto simp: checkedSchema_def split: jval.splits option.splits)

text \<open>The sub-schemas of a keyword that holds an array of schemas are smaller than the schema.\<close>

lemma size_sub_schema: "obj_get sc p = JArr vs \<Longrightarrow> v \<in> set vs \<Longrightarrow> size v < size (JObj sc)"
  by (metis jval.distinct(9) less_trans size_elem size_obj_get)

function validateNode ::
  "(string \<Rightarrow> string \<Rightarrow> string + bool) \<Rightarrow> jval \<Rightarrow> jobj \<Rightarrow> string \<Rightarrow> string + string list" where
  "validateNode rx d sc path =
     also_check (check_const_enum d sc path)
    (also_check (check_type d sc path)
    (also_check
      (case d of
         JObj fs \<Rightarrow>
           also_check (check_required fs sc path)
          (also_check
            (case obj_get sc ''properties'' of
               JUndef \<Rightarrow> Inr []
             | JObj ps \<Rightarrow>
                 check_each (\<lambda>(k, v).
                   case property_schema ps k of
                     None \<Rightarrow> Inr []
                   | Some child \<Rightarrow>
                       (case checkedSchema child ''output schema \"properties\"'' of
                          Inl e \<Rightarrow> Inl e
                        | Inr cs \<Rightarrow> validateNode rx v cs (path @ ''/'' @ k))) fs
             | _ \<Rightarrow> Inl ''output schema \"properties\" must be an object'')
          (also_check
            (case obj_get sc ''additionalProperties'' of
               JBool False \<Rightarrow>
                 fail_if (extra_fields fs sc \<noteq> []) path
                   (''must NOT have additional properties (''
                      @ join_strings '', '' (al_keys (extra_fields fs sc)) @ '')'')
             | JObj as \<Rightarrow>
                 (case checkedSchema (JObj as) ''output schema \"additionalProperties\"'' of
                    Inl e \<Rightarrow> Inl e
                  | Inr cs \<Rightarrow> check_each (\<lambda>(k, v). validateNode rx v cs (path @ ''/'' @ k)) (extra_fields fs sc))
             | JArr _ \<Rightarrow> Inl ''output schema \"additionalProperties\" must be a JSON object''
             | _ \<Rightarrow> Inr [])
            (check_counts ''minProperties'' ''maxProperties'' ''properties'' (length fs) sc path)))
       | JArr vs \<Rightarrow>
           also_check
             (if obj_get sc ''items'' = JUndef then Inr []
              else (case checkedSchema (obj_get sc ''items'') ''output schema \"items\"'' of
                      Inl e \<Rightarrow> Inl e
                    | Inr cs \<Rightarrow>
                        check_each (\<lambda>(i, v). validateNode rx v cs (path @ ''/'' @ show_int (int i)))
                          (zip [0..<length vs] vs)))
          (also_check (check_counts ''minItems'' ''maxItems'' ''items'' (length vs) sc path)
             (check_unique vs sc path))
       | JStr x \<Rightarrow> check_string rx x sc path
       | JNum n \<Rightarrow> check_number n sc path
       | _ \<Rightarrow> Inr [])
    (also_check
      (case obj_get sc ''anyOf'' of
         JArr ss \<Rightarrow>
           (case some_valid (\<lambda>child. case checkedSchema child ''output schema \"anyOf\"'' of
                    Inl e \<Rightarrow> Inl e | Inr cs \<Rightarrow> validateNode rx d cs path) ss of
              Inl e \<Rightarrow> Inl e
            | Inr b \<Rightarrow> fail_if (\<not> b) path ''must match at least one anyOf schema'')
       | _ \<Rightarrow> Inr [])
    (also_check
      (case obj_get sc ''allOf'' of
         JArr ss \<Rightarrow>
           check_each (\<lambda>child. case checkedSchema child ''output schema \"allOf\"'' of
                    Inl e \<Rightarrow> Inl e | Inr cs \<Rightarrow> validateNode rx d cs path) ss
       | _ \<Rightarrow> Inr [])
    (also_check
      (case obj_get sc ''oneOf'' of
         JArr ss \<Rightarrow>
           (case count_valid (\<lambda>child. case checkedSchema child ''output schema \"oneOf\"'' of
                    Inl e \<Rightarrow> Inl e | Inr cs \<Rightarrow> validateNode rx d cs path) ss of
              Inl e \<Rightarrow> Inl e
            | Inr m \<Rightarrow> fail_if (m \<noteq> 1) path
                (''must match exactly one oneOf schema (matched '' @ show_int (int m) @ '')''))
       | _ \<Rightarrow> Inr [])
      (if obj_get sc ''not'' = JUndef then Inr []
       else (case checkedSchema (obj_get sc ''not'') ''output schema \"not\"'' of
               Inl e \<Rightarrow> Inl e
             | Inr cs \<Rightarrow>
                 (case validateNode rx d cs path of
                    Inl e \<Rightarrow> Inl e
                  | Inr es \<Rightarrow> fail_if (es = []) path ''must not match the \"not\" schema''))))))))"
  by pat_completeness auto
termination
  by (relation "measure (\<lambda>(rx, d, sc, path). size (JObj sc))")
    (auto dest: size_property_schema size_obj_get size_sub_schema)

declare validateNode.simps [simp del]


definition validateOutput ::
  "'w env \<Rightarrow> jval \<Rightarrow> jval \<Rightarrow> string \<Rightarrow> ('w, bool \<times> string option) run" where
  "validateOutput env d schema onInvalid =
     (case checkedSchema schema ''output schema'' of
        Inl e \<Rightarrow> throwR (Error e)
      | Inr sc \<Rightarrow>
          (case validateNode (regexTest env) d sc ''data'' of
             Inl e \<Rightarrow> throwR (Error e)
           | Inr [] \<Rightarrow> returnR (True, None)
           | Inr errors \<Rightarrow>
               (let text = join_strings '', '' errors in
                if onInvalid = ''warn''
                then thenR (sendLog env ''warn'' ''output schema validation failed'' (Some [(''errors'', JStr text)]))
                       (returnR (True, Some text))
                else returnR (False, Some text))))"

end
