(* ===== verification/Executor.thy ===== *)
theory Executor
  imports Executor_Utils Buffering_Transport Output_Validation
begin

text \<open>
  Model of \<open>src/scriptcat-engine/executor.ts\<close>: one run of a rule. The world of a run holds, beside
  the world of the environment, the buffer of the transport and the local variables of \<open>runRule\<close>
  that its inner functions assign. The leaf handler is a parameter that receives the environment of
  the run, whose transport is wrapped.
\<close>

section \<open>State of a run\<close>

datatype hook_phase = BeforeAll | AfterAll | OnError | Cleanup

datatype url_policy = ExpectedPath | SameOrigin

datatype checkpoint_phase = BeforeNavigation | AfterStep

record navigation_expectation =
  phase :: checkpoint_phase
  expectedUrl :: string
  urlPolicy :: url_policy

record checkpoint_state =
  lastCompletedStepPath :: step_path
  csExtracted :: jobj
  csEvaluated :: jobj
  csCaptured :: jobj
  hooksCompletedAt :: "hook_phase list"
  navigation :: "navigation_expectation option"

record run_locals =
  rStatus :: run_status
  rMessage :: string
  fatalError :: "execution_error option"
  skipMain :: bool
  screenshotCaptured :: bool
  hooksCompleted :: "hook_phase list"

record 'w run_world = "'w buffered" +
  locals :: run_locals

type_synonym 'w rst = "'w run_world st"

record execution_result =
  resStatus :: run_status
  resMessage :: string
  partialData :: jobj
  resError :: "execution_error option"

record 'w executor_options =
  optRule :: rule
  optTaskId :: string
  optWorkerId :: string
  optVariables :: jobj
  resumeStepPath :: "step_path option"
  initialContext :: "(jobj option \<times> jobj option \<times> jobj option) option"
  initialHooksCompleted :: "hook_phase list option"
  onCheckpoint :: "(checkpoint_state \<Rightarrow> ('w run_world, unit) run) option"
  onStepFailureOpt :: "(step_path \<Rightarrow> ('w run_world, unit) run) option"
  humanizeReplay :: bool

definition locals_of :: "'w rst \<Rightarrow> run_locals" where
  "locals_of s = locals (snd s)"

definition set_locals :: "(run_locals \<Rightarrow> run_locals) \<Rightarrow> ('w run_world, unit) run" where
  "set_locals f = (\<lambda>(c, w). (Ret (), (c, w\<lparr>locals := f (locals w)\<rparr>)))"

definition int_pair :: "int \<Rightarrow> int \<Rightarrow> jval" where
  "int_pair a b = JArr [jint a, jint b]"

definition DEFAULT_REPLAY_HUMANIZE :: jval where
  "DEFAULT_REPLAY_HUMANIZE = JObj [(''preDelay'', int_pair 80 180), (''postDelay'', int_pair 100 240),
     (''moveMouse'', JBool True), (''randomOffset'', jint 3), (''typingDelay'', int_pair 45 110),
     (''keyDuration'', int_pair 35 90)]"


section \<open>Fatal errors, exits and aborts\<close>

text \<open>The environment of the run: lifted to its world, buffered when the rule asks for batches, tagged\<close>

definition rule_policy :: "rule \<Rightarrow> buffer_policy option" where
  "rule_policy rl =
     (case sendPolicy rl of
        None \<Rightarrow> None
      | Some p \<Rightarrow>
          (case batchSize p of
             None \<Rightarrow> None
           | Some n \<Rightarrow> if n = 0 then None
                       else Some \<lparr>polBatch = n, polInterval = flushInterval p, polOnFailure = sendOnFailure p\<rparr>))"

definition run_env :: "rule \<Rightarrow> 'w env \<Rightarrow> 'w run_world env" where
  "run_env rl env = tagged_env (case rule_policy rl of None \<Rightarrow> lift_env env | Some pol \<Rightarrow> buffering_env pol env)"

definition markFatalError :: "'w run_world env \<Rightarrow> rule \<Rightarrow> execution_error \<Rightarrow> ('w run_world, unit) run" where
  "markFatalError env rl err =
     thenR (set_locals (\<lambda>l. l\<lparr>fatalError := Some err, rStatus := Failure, rMessage := errMessage err\<rparr>))
       (\<lambda>s. if screenshotOnError rl \<and> \<not> screenshotCaptured (locals_of s)
            then thenR (set_locals (\<lambda>l. l\<lparr>screenshotCaptured := True\<rparr>))
              (catchR
                (bindR (saveSnapshot env ''error'' ''html'')
                  (\<lambda>snap. whenR (truthy snap) (sendSnapshot env snap)))
                (\<lambda>e. sendLog env ''warn'' ''screenshotOnError failed'' (Some [(''error'', JStr (exn_message e))]))) s
            else (Ret (), s))"

definition plain_error :: "string \<Rightarrow> string \<Rightarrow> execution_error" where
  "plain_error t m = \<lparr>errType = t, errMessage = m, errStepId = None, errRetryCount = None, recoverable = False\<rparr>"

text \<open>\<open>applyExit\<close>: whether the exception was an exit, after applying it\<close>

definition applyExit :: "'w run_world env \<Rightarrow> rule \<Rightarrow> exn \<Rightarrow> ('w run_world, bool) run" where
  "applyExit env rl e =
     (case e of
        ExitSignal Failure m \<Rightarrow>
          (\<lambda>s. thenR (markFatalError env rl
                 (if m \<noteq> [] then plain_error ''ExitFailure'' m
                  else (case fatalError (locals_of s) of Some f \<Rightarrow> f
                        | None \<Rightarrow> plain_error ''ExitFailure'' (rMessage (locals_of s)))))
               (returnR True) s)
      | ExitSignal Cancelled m \<Rightarrow>
          thenR (set_locals (\<lambda>l. l\<lparr>rStatus := Cancelled, rMessage := m\<rparr>)) (returnR True)
      | ExitSignal Success m \<Rightarrow>
          thenR (set_locals (\<lambda>l. if fatalError l = None then l\<lparr>rStatus := Success, rMessage := m\<rparr> else l)) (returnR True)
      | _ \<Rightarrow> returnR False)"

definition applyAbort :: "exn \<Rightarrow> ('w run_world, bool) run" where
  "applyAbort e =
     (if is_abort e
      then thenR (set_locals (\<lambda>l. l\<lparr>rStatus := Cancelled,
                    rMessage := (if exn_message e = [] then ''cancelled'' else exn_message e)\<rparr>)) (returnR True)
      else returnR False)"

text \<open>\<open>await applyExit(err) || applyAbort(err)\<close>\<close>

definition exit_or_abort :: "'w run_world env \<Rightarrow> rule \<Rightarrow> exn \<Rightarrow> ('w run_world, bool) run" where
  "exit_or_abort env rl e = bindR (applyExit env rl e) (\<lambda>b. if b then returnR True else applyAbort e)"


section \<open>Checkpoints\<close>

text \<open>A template error would be a thrown exception of \<open>interpolate\<close>, which has none in this model.\<close>

definition navigation_of :: "'w run_world env \<Rightarrow> checkpoint_phase \<Rightarrow> action \<Rightarrow> 'w rst \<Rightarrow> navigation_expectation" where
  "navigation_of env ph a s =
     (if ph = BeforeNavigation \<and> actionType a = ''navigate''
      then \<lparr>phase = ph, expectedUrl = js_String (interpolate (fst s) (leafField a ''url'')), urlPolicy = ExpectedPath\<rparr>
      else if ph = BeforeNavigation \<and> actionType a \<noteq> ''reload''
      then \<lparr>phase = ph, expectedUrl = getUrl env s, urlPolicy = SameOrigin\<rparr>
      else \<lparr>phase = ph, expectedUrl = getUrl env s, urlPolicy = ExpectedPath\<rparr>)"

definition checkpoint_at :: "step_path \<Rightarrow> navigation_expectation option \<Rightarrow> 'w rst \<Rightarrow> checkpoint_state" where
  "checkpoint_at p nav s = \<lparr>lastCompletedStepPath = p, csExtracted = extracted (fst s), csEvaluated = evaluated (fst s),
     csCaptured = captured (fst s), hooksCompletedAt = hooksCompleted (locals_of s), navigation = nav\<rparr>"

definition emit_checkpoint ::
  "'w executor_options \<Rightarrow> ('w rst \<Rightarrow> checkpoint_state) \<Rightarrow> ('w run_world, unit) run" where
  "emit_checkpoint opts f = (case onCheckpoint opts of None \<Rightarrow> returnR () | Some cb \<Rightarrow> (\<lambda>s. cb (f s) s))"

definition step_checkpoint ::
  "'w run_world env \<Rightarrow> 'w executor_options \<Rightarrow> checkpoint_phase \<Rightarrow> step_path \<Rightarrow> action \<Rightarrow> ('w run_world, unit) run" where
  "step_checkpoint env opts ph p a =
     emit_checkpoint opts (\<lambda>s. checkpoint_at p (Some (navigation_of env ph a s)) s)"

definition resume_or_empty :: "'w executor_options \<Rightarrow> step_path" where
  "resume_or_empty opts = (case resumeStepPath opts of None \<Rightarrow> EMPTY_PATH | Some p \<Rightarrow> p)"

text \<open>The \<open>finally\<close> block of a hook\<close>

definition hook_done :: "'w executor_options \<Rightarrow> hook_phase \<Rightarrow> ('w run_world, unit) run" where
  "hook_done opts h =
     thenR (set_locals (\<lambda>l. l\<lparr>hooksCompleted := hooksCompleted l @ [h]\<rparr>))
       (emit_checkpoint opts (checkpoint_at (resume_or_empty opts) None))"


section \<open>Hooks\<close>

definition page_value :: "'w run_world env \<Rightarrow> 'w rst \<Rightarrow> jval" where
  "page_value env s = JObj [(''url'', JStr (getUrl env s)), (''title'', JStr (getTitle env s))]"

definition refresh_page :: "'w run_world env \<Rightarrow> ('w run_world, unit) run" where
  "refresh_page env = (\<lambda>s. modifyCtx (\<lambda>c. c\<lparr>pageInfo := page_value env s\<rparr>) s)"

definition log_error :: "'w run_world env \<Rightarrow> string \<Rightarrow> string \<Rightarrow> string \<Rightarrow> ('w run_world, unit) run" where
  "log_error env level m detail = sendLog env level m (Some [(''error'', JStr detail)])"

text \<open>\<open>afterAll\<close>, \<open>onError\<close> and \<open>cleanup\<close>: their failures are logged and the run goes on.\<close>

definition late_hook ::
  "('w run_world env \<Rightarrow> 'w run_world handler) \<Rightarrow> 'w run_world env \<Rightarrow> 'w executor_options
   \<Rightarrow> hook_phase \<Rightarrow> string \<Rightarrow> action list option \<Rightarrow> ('w run_world, unit) run" where
  "late_hook exec env opts h name as =
     (\<lambda>s. case as of
        None \<Rightarrow> (Ret (), s)
      | Some ss \<Rightarrow>
          if h \<in> set (hooksCompleted (locals_of s)) then (Ret (), s)
          else finallyR
            (catchR
              (thenR (refresh_page env)
                (bindR (runSteps env (exec env) ss None)
                  (\<lambda>r. case r of None \<Rightarrow> returnR ()
                       | Some e \<Rightarrow> log_error env ''warn'' (name @ '' hook failed'') (errMessage e))))
              (\<lambda>e. bindR (exit_or_abort env (optRule opts) e)
                 (\<lambda>b. if b then returnR () else log_error env ''warn'' (name @ '' hook failed'') (exn_message e))))
            (hook_done opts h) s)"

definition onError_hook ::
  "('w run_world env \<Rightarrow> 'w run_world handler) \<Rightarrow> 'w run_world env \<Rightarrow> 'w executor_options \<Rightarrow> ('w run_world, unit) run" where
  "onError_hook exec env opts =
     (\<lambda>s. case (fatalError (locals_of s), onErrorHook (hooks (optRule opts))) of
        (Some f, Some ss) \<Rightarrow>
          if OnError \<in> set (hooksCompleted (locals_of s)) then (Ret (), s)
          else thenR (modifyCtx (\<lambda>c. c\<lparr>lastError := Some f\<rparr>))
                 (late_hook exec env opts OnError ''onError'' (Some ss)) s
      | _ \<Rightarrow> (Ret (), s))"


section \<open>Ends of a run\<close>

definition critical_payload :: "execution_error \<Rightarrow> runtime_context \<Rightarrow> jval" where
  "critical_payload err c = JObj [(''__criticalFailure'', JBool True), (''error'', error_payload err), (''partialData'', JObj (extracted c))]"

text \<open>
  \<open>finalize\<close> after a failed \<open>beforeAll\<close>. Its promise is returned, not awaited, inside the
  \<open>try\<close> blocks: the \<open>finally\<close> blocks of the hook and of the run, \<open>epilogue\<close> here, take place at its first
  suspension, which is in the drain when the run is buffered and in the send otherwise. After it
  the environment has its original transport again, here the lifted one.
\<close>

definition finalize ::
  "'w env \<Rightarrow> 'w run_world env \<Rightarrow> rule \<Rightarrow> execution_error \<Rightarrow> ('w run_world, unit) run
   \<Rightarrow> ('w run_world, execution_result) run" where
  "finalize base_env env rl err epilogue =
     thenR (modifyCtx (\<lambda>c. c\<lparr>lastError := Some err\<rparr>))
       (thenR
         (case rule_policy rl of
            Some pol \<Rightarrow>
              thenR epilogue
                (thenR
                  (catchR (drain pol base_env False)
                    (\<lambda>e. log_error (lift_env base_env) ''error'' ''sendPolicy drain failed in finalize'' (exn_message e)))
                  (\<lambda>s. sendResult (lift_env base_env) (critical_payload err (fst s)) True s))
          | None \<Rightarrow> finallyR (\<lambda>s. sendResult env (critical_payload err (fst s)) True s) epilogue)
         (thenR (sendStatus (lift_env base_env) ''failed'' (errMessage err))
           (\<lambda>s. (Ret \<lparr>resStatus = Failure, resMessage = errMessage err,
                      partialData = extracted (fst s), resError = Some err\<rparr>, s))))"

text \<open>The end of a run that was not cut short by \<open>beforeAll\<close>\<close>

definition check_output :: "'w run_world env \<Rightarrow> rule \<Rightarrow> ('w run_world, unit) run" where
  "check_output env rl =
     (case outputSchema rl of
        None \<Rightarrow> returnR ()
      | Some schema \<Rightarrow>
          if \<not> truthy schema then returnR ()
          else catchR
            (bindR (\<lambda>s. validateOutput env (JObj (extracted (fst s))) schema
                      (case outputOnInvalid rl of None \<Rightarrow> ''fail'' | Some x \<Rightarrow> x) s)
              (\<lambda>(valid, errors). if valid then returnR ()
                 else markFatalError env rl
                   (plain_error ''ValidationError'' (''output: '' @ (case errors of None \<Rightarrow> ''undefined'' | Some t \<Rightarrow> t)))))
            (\<lambda>e. markFatalError env rl (plain_error ''ConfigError'' (''output schema compile failed: '' @ exn_message e))))"

definition drain_buffer :: "'w env \<Rightarrow> 'w run_world env \<Rightarrow> rule \<Rightarrow> ('w run_world, unit) run" where
  "drain_buffer base_env env rl =
     (case rule_policy rl of
        None \<Rightarrow> returnR ()
      | Some pol \<Rightarrow>
          (\<lambda>s. catchR (drain pol base_env (rStatus (locals_of s) = Success))
            (\<lambda>e. thenR (log_error env ''error'' ''sendPolicy drain failed'' (exn_message e))
               (markFatalError env rl (plain_error ''TransportError'' (''sendPolicy drain failed: '' @ exn_message e)))) s))"

definition report_result :: "'w run_world env \<Rightarrow> string \<Rightarrow> ('w run_world, execution_result) run" where
  "report_result env tid =
     thenR (sendResult env (JObj [(''__final'', JBool True), (''taskId'', JStr tid)]) True)
       (\<lambda>s. let l = locals_of s;
                result = \<lparr>resStatus = rStatus l, resMessage = rMessage l,
                          partialData = extracted (fst s), resError = fatalError l\<rparr>
            in thenR (sendStatus env (status_string (rStatus l)) (rMessage l)) (returnR result) s)"


section \<open>The run\<close>

text \<open>Before the context exists the environment is asked for the page with this one.\<close>

definition blank_context :: runtime_context where
  "blank_context = \<lparr>variables = [], extracted = [], evaluated = [], captured = [], loopIndex = JUndef,
     loopItem = JUndef, pageInfo = JUndef, taskId = [], ruleId = [], ruleVersion = [], workerId = [],
     lastStepId = None, lastError = None, checkpoint = None, resultsSent = 0, logsSent = 0, tags = None,
     ruleDefaults = None\<rparr>"

definition initial_context :: "'w executor_options \<Rightarrow> 'w env \<Rightarrow> 'w st \<Rightarrow> runtime_context" where
  "initial_context opts env s =
     (let rl = optRule opts;
          pick = (\<lambda>sel. case Option.bind (initialContext opts) sel of None \<Rightarrow> [] | Some x \<Rightarrow> x)
      in \<lparr>variables = al_set ''__selectors'' (JObj (selectors rl)) (al_merge (ruleVariables rl) (optVariables opts)),
          extracted = pick fst, evaluated = pick (fst \<circ> snd), captured = pick (snd \<circ> snd),
          loopIndex = JUndef, loopItem = JUndef,
          pageInfo = JObj [(''url'', JStr (getUrl env s)), (''title'', JStr (getTitle env s))],
          taskId = optTaskId opts, ruleId = ruleIdOf rl, ruleVersion = version rl, workerId = optWorkerId opts,
          lastStepId = None, lastError = None, checkpoint = None, resultsSent = 0, logsSent = 0, tags = None,
          ruleDefaults =
            (if humanizeReplay opts \<or> ruleHumanize rl \<noteq> None \<or> ruleRetry rl \<noteq> None
                \<or> ruleTimeout rl \<noteq> None \<or> maxRetries rl \<noteq> None
             then Some \<lparr>defHumanize = (case ruleHumanize rl of Some h \<Rightarrow> Some h
                          | None \<Rightarrow> if humanizeReplay opts then Some DEFAULT_REPLAY_HUMANIZE else None),
                        defRetry = ruleRetry rl, defTimeout = ruleTimeout rl, defMaxRetries = maxRetries rl\<rparr>
             else None)\<rparr>)"

definition initial_locals :: "'w executor_options \<Rightarrow> run_locals" where
  "initial_locals opts = \<lparr>rStatus = Success, rMessage = [], fatalError = None, skipMain = False,
     screenshotCaptured = False,
     hooksCompleted = (case initialHooksCompleted opts of None \<Rightarrow> [] | Some hs \<Rightarrow> hs)\<rparr>"

definition main_options :: "'w run_world env \<Rightarrow> 'w executor_options \<Rightarrow> 'w run_world run_options" where
  "main_options env opts = \<lparr>resumePath = resumeStepPath opts, pathPrefix = None, frameFor = None,
     onStepStart = Some (step_checkpoint env opts BeforeNavigation),
     onStepComplete = Some (step_checkpoint env opts AfterStep),
     onStepFailure = onStepFailureOpt opts\<rparr>"

text \<open>The main steps: what they throw is an exit, an abort, or the main error.\<close>

definition main_steps ::
  "('w run_world env \<Rightarrow> 'w run_world handler) \<Rightarrow> 'w run_world env \<Rightarrow> 'w executor_options \<Rightarrow> ('w run_world, unit) run" where
  "main_steps exec env opts =
     (\<lambda>s. if skipMain (locals_of s) then (Ret (), s)
          else bindR
            (catchR (runSteps env (exec env) (steps (optRule opts)) (Some (main_options env opts)))
              (\<lambda>e. bindR (exit_or_abort env (optRule opts) e)
                 (\<lambda>b. returnR (if b then None else Some (plain_error (classifyError e) (exn_message e))))))
            (\<lambda>r. case r of None \<Rightarrow> returnR () | Some err \<Rightarrow> markFatalError env (optRule opts) err) s)"

text \<open>
  The \<open>beforeAll\<close> hook: \<open>Some err\<close> when the run ends there. \<open>resumeStepPath === EMPTY_PATH\<close>
  compares array identities; the constant is the only empty path its callers pass by reference.
\<close>

definition beforeAll_due :: "'w executor_options \<Rightarrow> run_locals \<Rightarrow> bool" where
  "beforeAll_due opts l \<longleftrightarrow> beforeAll (hooks (optRule opts)) \<noteq> None
     \<and> (resumeStepPath opts = None \<or> resumeStepPath opts = Some EMPTY_PATH) \<and> BeforeAll \<notin> set (hooksCompleted l)"

definition beforeAll_body ::
  "('w run_world env \<Rightarrow> 'w run_world handler) \<Rightarrow> 'w run_world env \<Rightarrow> 'w executor_options
   \<Rightarrow> ('w run_world, execution_error option) run" where
  "beforeAll_body exec env opts =
     catchR
       (thenR (refresh_page env) (runSteps env (exec env) (or_empty (beforeAll (hooks (optRule opts)))) None))
       (\<lambda>e. bindR (exit_or_abort env (optRule opts) e)
          (\<lambda>b. if b then thenR (set_locals (\<lambda>l. l\<lparr>skipMain := True\<rparr>)) (returnR None)
               else returnR (Some (plain_error (classifyError e) (exn_message e)))))"

definition after_main ::
  "'w env \<Rightarrow> ('w run_world env \<Rightarrow> 'w run_world handler) \<Rightarrow> 'w run_world env \<Rightarrow> 'w executor_options
   \<Rightarrow> ('w run_world, execution_result) run" where
  "after_main base_env exec env opts =
     (let rl = optRule opts in
      thenR (late_hook exec env opts AfterAll ''afterAll'' (afterAll (hooks rl)))
     (thenR (onError_hook exec env opts)
     (thenR (late_hook exec env opts Cleanup ''cleanup'' (cleanupHook (hooks rl)))
     (thenR (check_output env rl)
     (thenR (drain_buffer base_env env rl)
       (report_result env (optTaskId opts)))))))"

definition run_body ::
  "'w env \<Rightarrow> ('w run_world env \<Rightarrow> 'w run_world handler) \<Rightarrow> 'w run_world env \<Rightarrow> 'w executor_options
   \<Rightarrow> ('w run_world, execution_result) run" where
  "run_body base_env exec env opts =
     thenR (sendStatus env ''running'' (''Started rule '' @ ruleIdOf (optRule opts)))
       (\<lambda>s. if beforeAll_due opts (locals_of s)
            then (case beforeAll_body exec env opts s of
                    (Ret (Some err), s') \<Rightarrow>
                      finalize base_env env (optRule opts) err (hook_done opts BeforeAll) s'
                  | (Ret None, s') \<Rightarrow>
                      thenR (hook_done opts BeforeAll)
                        (thenR (main_steps exec env opts) (after_main base_env exec env opts)) s'
                  | (Throw e, s') \<Rightarrow> thenR (hook_done opts BeforeAll) (throwR e) s')
            else thenR (main_steps exec env opts) (after_main base_env exec env opts) s)"

definition runRule ::
  "('w run_world env \<Rightarrow> 'w run_world handler) \<Rightarrow> 'w env \<Rightarrow> 'w executor_options \<Rightarrow> 'w
   \<Rightarrow> execution_result outcome \<times> 'w rst" where
  "runRule exec env opts w =
     finallyR (run_body env exec (run_env (optRule opts) env) opts) dispose
       (initial_context opts env (blank_context, w),
        \<lparr>inner = w, buffer = fresh_buffer (rule_policy (optRule opts)), locals = initial_locals opts\<rparr>)"

end
