(* ===== verification/Executor_Laws.thy ===== *)
theory Executor_Laws
  imports Executor Demo_Env
begin

text \<open>
  Properties of a whole run: the reported status agrees with the error, every hook runs once, a
  successful run has validated output, cancellation and exits are reported as such, and the
  checkpoints of the hooks.
\<close>

section \<open>What the environment of a run cannot touch\<close>

text \<open>The wrapped services change the wrapped world and the buffer, not the variables of the run.\<close>

lemma keeps_lift_run: "eff (keeps locals) 0 (lift_run m :: ('w run_world, 'a) run)"
  by (auto simp: eff_def keeps_def lift_run_def split: prod.splits)

lemma keeps_modify_buffer: "eff (keeps locals) 0 (modify_buffer f :: ('w run_world, unit) run)"
  by (auto simp: eff_def keeps_def modify_buffer_def)

lemma keeps_state:
  "(\<And>s r s'. m s = (r, s') \<Longrightarrow> locals (snd s') = locals (snd s)) \<Longrightarrow> eff (keeps locals) 0 m"
  by (simp add: eff_def keeps_def)

lemma keeps_stateD: "eff (keeps locals) 0 m \<Longrightarrow> m s = (r, s') \<Longrightarrow> locals (snd s') = locals (snd s)"
  using keeping.effD by (fastforce simp: keeps_def)

lemma keeps_send_batch: "eff (keeps locals) 0 (send_batch env items :: ('w run_world, unit) run)"
  unfolding send_batch_def
  by (intro keeping.eff_catchR0 keeping.eff_thenR0 keeps_lift_run keeps_modify_buffer keeping.eff_pure)

lemma keeps_doFlush_loop: "eff (keeps locals) 0 (doFlush_loop n env :: ('w run_world, unit) run)"
proof (induction n)
  case (Suc n)
  have 1: "eff (keeps locals) 0 (thenR (send_batch env items) (doFlush_loop n env) :: ('w run_world, unit) run)" for items
    by (intro keeping.eff_thenR0 keeps_send_batch Suc.IH)
  have 2: "eff (keeps locals) 0 (thenR (modify_buffer f) (thenR (send_batch env items) (doFlush_loop n env)) :: ('w run_world, unit) run)" for f items
    by (intro keeping.eff_thenR0 keeps_modify_buffer 1)
  show ?case
    by (rule keeps_state)
      (auto split: option.splits if_splits dest: keeps_stateD [OF 1] keeps_stateD [OF 2])
qed (simp add: keeping.eff_Pair)

lemma keeps_flush: "eff (keeps locals) 0 (flush env :: ('w run_world, unit) run)"
  by (simp add: flush_def keeps_doFlush_loop)

lemma keeps_buffered_sendResult: "eff (keeps locals) 0 (buffered_sendResult pol env x i :: ('w run_world, unit) run)"
proof -
  have "eff (keeps locals) 0 (\<lambda>s :: 'w run_world st. if int (length (rows (buffer (snd s)))) \<ge> polBatch pol then flush env s else (Ret (), s))"
    by (rule keeps_state) (auto split: if_splits dest: keeps_stateD [OF keeps_flush])
  then show ?thesis
    unfolding buffered_sendResult_def by (simp add: keeps_lift_run keeping.eff_thenR0 keeps_modify_buffer)
qed

lemma keeps_wrapped_requestHuman:
  "(\<And>f. ask = Some f \<Longrightarrow> eff (keeps locals) 0 (f req)) \<Longrightarrow> eff (keeps locals) 0 (wrapped_requestHuman ask req)"
  by (cases ask) (auto simp: wrapped_requestHuman_def keeping.eff_pure)

lemma keeps_tagged_sendLog:
  "eff (keeps locals) 0 (\<lambda>s. lift_run (sendLog env l m (tagged_extra (tags (fst s)) x)) s :: unit outcome \<times> 'w run_world st)"
  by (rule keeps_state) (auto dest: keeps_stateD [OF keeps_lift_run])

lemma run_env_services:
  fixes env :: "'w env"
  shows "services_free (keeps locals) (run_env rl env)" and "lookups_free (keeps locals) (run_env rl env)"
proof -
  let ?e = "run_env rl env"
  have fields: "sleepMs ?e = sleepMs (lift_env env)" "random ?e = random (lift_env env)"
    "findElement ?e = findElement (lift_env env)" "evaluate ?e = evaluate (lift_env env)"
    "waitForNetworkIdle ?e = waitForNetworkIdle (lift_env env)"
    "sendLog ?e = (\<lambda>l m x s. sendLog (lift_env env) l m (tagged_extra (tags (fst s)) x) s)"
    by (auto simp: run_env_def tagged_env_def buffering_env_def split: option.split)
  have res: "eff (keeps locals) 0 (sendResult ?e v i)" for v i
    by (auto simp: run_env_def tagged_env_def buffering_env_def lift_env_def keeps_lift_run keeps_buffered_sendResult
        split: option.split)
  have lifted: "eff (keeps locals) 0 (wrapped_requestHuman (requestHuman (lift_env env :: 'w run_world env)) req)" for req
    by (rule keeps_wrapped_requestHuman) (auto simp: lift_env_def keeps_lift_run)
  have human: "eff (keeps locals) 0 (ask req)" if "requestHuman ?e = Some ask" for ask req
  proof (cases "rule_policy rl")
    case None
    then show ?thesis using that lifted by (auto simp: run_env_def tagged_env_def)
  next
    case (Some pol)
    have "eff (keeps locals) 0 (wrapped_requestHuman (Some (wrapped_requestHuman (requestHuman (lift_env env :: 'w run_world env)))) req)"
      by (rule keeps_wrapped_requestHuman) (auto simp: lifted)
    then show ?thesis using that Some by (auto simp: run_env_def tagged_env_def buffering_env_def)
  qed
  show "services_free (keeps locals) ?e"
    unfolding services_free_def fields
    by (auto simp: lift_env_def keeps_lift_run keeps_tagged_sendLog res human)
  show "lookups_free (keeps locals) ?e"
    unfolding lookups_free_def fields by (auto simp: lift_env_def keeps_lift_run)
qed

lemma run_env_reports:
  "eff (keeps locals) 0 (sendStatus (run_env rl env) st m)" "eff (keeps locals) 0 (sendSnapshot (run_env rl env) v)"
  "eff (keeps locals) 0 (saveSnapshot (run_env rl env) n t)" "eff (keeps locals) 0 (sendLog (run_env rl env) l m x)"
  "eff (keeps locals) 0 (sendResult (run_env rl env) v i)"
proof -
  show "eff (keeps locals) 0 (sendLog (run_env rl env) l m x)" "eff (keeps locals) 0 (sendResult (run_env rl env) v i)"
    using run_env_services(1) [of rl env] by (auto simp: services_free_def)
qed (auto simp: run_env_def tagged_env_def buffering_env_def lift_env_def keeps_lift_run split: option.split)

lemma keeps_drain: "eff (keeps locals) 0 (drain pol env b :: ('w run_world, unit) run)"
  unfolding drain_def dispose_def by (rule keeping.eff_finallyR) (auto intro: keeps_flush keeps_modify_buffer)


section \<open>Disciplines on the variables of a run\<close>

definition local_env :: "'w run_world env \<Rightarrow> bool" where
  "local_env env \<longleftrightarrow> services_free (keeps locals) env \<and> lookups_free (keeps locals) env
     \<and> (\<forall>st m. eff (keeps locals) 0 (sendStatus env st m)) \<and> (\<forall>v. eff (keeps locals) 0 (sendSnapshot env v))
     \<and> (\<forall>n t. eff (keeps locals) 0 (saveSnapshot env n t))"

text \<open>What a run relies on: its handler and its host callbacks do not write the run's own variables.\<close>

definition local_options ::
  "('w run_world env \<Rightarrow> 'w run_world handler) \<Rightarrow> 'w run_world env \<Rightarrow> 'w executor_options \<Rightarrow> bool" where
  "local_options exec env opts \<longleftrightarrow> handler_costs (keeps locals) 0 (exec env)
     \<and> (\<forall>cb cp. onCheckpoint opts = Some cb \<longrightarrow> eff (keeps locals) 0 (cb cp))
     \<and> (\<forall>cb p. onStepFailureOpt opts = Some cb \<longrightarrow> eff (keeps locals) 0 (cb p))"

lemma local_env_run_env: "local_env (run_env rl env)"
  by (simp add: local_env_def run_env_services run_env_reports)

lemma runSteps_keeps_locals:
  assumes "local_env env" and "handler_costs (keeps locals) 0 (exec env)" and "callbacks_free (keeps locals) o'"
  shows "eff (keeps locals) 0 (runSteps env (exec env) as o')"
  using keeping.eff_runSteps assms by (auto simp: local_env_def)

lemma keeps_emit_checkpoint:
  "local_options exec env opts \<Longrightarrow> eff (keeps locals) 0 (emit_checkpoint opts f)"
  unfolding emit_checkpoint_def
  by (cases "onCheckpoint opts") (auto simp: local_options_def keeping.eff_Pair intro!: keeps_state dest!: keeps_stateD)

lemma main_callbacks_free:
  "local_options exec env opts \<Longrightarrow> callbacks_free (keeps locals) (Some (main_options env opts))"
  by (auto simp: callbacks_free_def main_options_def step_checkpoint_def keeps_emit_checkpoint)
    (auto simp: local_options_def)

locale run_discipline = effect_discipline R for R :: "nat \<Rightarrow> 'w run_world \<Rightarrow> 'w run_world \<Rightarrow> bool" +
  assumes same_locals: "locals w' = locals w \<Longrightarrow> R 0 w w'"
    and fatal: "R 0 w (w\<lparr>locals := (locals w)\<lparr>fatalError := Some err, rStatus := Failure, rMessage := errMessage err\<rparr>\<rparr>)"
    and cancel: "R 0 w (w\<lparr>locals := (locals w)\<lparr>rStatus := Cancelled, rMessage := m\<rparr>\<rparr>)"
    and succeed: "fatalError (locals w) = None \<Longrightarrow> R 0 w (w\<lparr>locals := (locals w)\<lparr>rStatus := Success, rMessage := m\<rparr>\<rparr>)"
    and shot: "R 0 w (w\<lparr>locals := (locals w)\<lparr>screenshotCaptured := True\<rparr>\<rparr>)"
    and skip: "R 0 w (w\<lparr>locals := (locals w)\<lparr>skipMain := True\<rparr>\<rparr>)"
begin

lemma eff_local: "eff (keeps locals) 0 m \<Longrightarrow> eff R 0 m"
  unfolding eff_def by (auto simp: keeps_def intro: same_locals)

lemma eff_set_locals: "(\<And>w. R 0 w (w\<lparr>locals := f (locals w)\<rparr>)) \<Longrightarrow> eff R 0 (set_locals f)"
  by (auto simp: eff_def set_locals_def)

lemma eff_fun: "(\<And>s. eff R 0 (f s)) \<Longrightarrow> eff R 0 (\<lambda>s. f s s)"
  unfolding eff_def by blast

lemma eff_markFatalError:
  assumes "local_env env" shows "eff R 0 (markFatalError env rl err)"
proof -
  have "eff R 0 (saveSnapshot env n t)" "eff R 0 (sendSnapshot env v)" "eff R 0 (sendLog env l m x)" for n t v l m x
    using assms by (auto simp: local_env_def services_free_def intro!: eff_local)
  then have "eff R 0 (thenR (set_locals (\<lambda>l. l\<lparr>screenshotCaptured := True\<rparr>))
      (catchR (bindR (saveSnapshot env ''error'' ''html'') (\<lambda>snap. whenR (truthy snap) (sendSnapshot env snap)))
        (\<lambda>e. sendLog env ''warn'' ''screenshotOnError failed'' (Some [(''error'', JStr (exn_message e))]))))"
    by (intro eff_thenR0 eff_set_locals shot eff_catchR0 eff_bindR0 eff_whenR)
  then have "eff R 0 (\<lambda>s. if screenshotOnError rl \<and> \<not> screenshotCaptured (locals_of s)
      then thenR (set_locals (\<lambda>l. l\<lparr>screenshotCaptured := True\<rparr>))
        (catchR (bindR (saveSnapshot env ''error'' ''html'') (\<lambda>snap. whenR (truthy snap) (sendSnapshot env snap)))
          (\<lambda>e. sendLog env ''warn'' ''screenshotOnError failed'' (Some [(''error'', JStr (exn_message e))]))) s
      else (Ret (), s))"
    unfolding eff_def using free by (auto split: if_splits)
  then show ?thesis
    unfolding markFatalError_def by (intro eff_thenR0 eff_set_locals fatal)
qed

lemma eff_applyExit:
  assumes "local_env env" shows "eff R 0 (applyExit env rl e)"
proof (cases e)
  case (ExitSignal st m)
  have f: "eff R 0 (\<lambda>s. thenR (markFatalError env rl (err s)) (returnR True) s)" for err
    by (rule eff_fun) (intro eff_thenR0 eff_markFatalError assms eff_pure)
  have "eff R 0 (set_locals (\<lambda>l. if fatalError l = None then l\<lparr>rStatus := Success, rMessage := m\<rparr> else l))"
    by (rule eff_set_locals) (auto simp: succeed free)
  then show ?thesis
    using ExitSignal f
    by (cases st) (simp_all add: applyExit_def eff_thenR0 eff_pure eff_set_locals cancel)
qed (simp_all add: applyExit_def eff_pure eff_Pair)

lemma eff_exit_or_abort: "local_env env \<Longrightarrow> eff R 0 (exit_or_abort env rl e)"
  unfolding exit_or_abort_def applyAbort_def
  by (auto intro!: eff_bindR0 eff_applyExit eff_thenR0 eff_pure eff_set_locals cancel)

lemma eff_log_error: "local_env env \<Longrightarrow> eff R 0 (log_error env l m d)"
  unfolding log_error_def by (rule eff_local) (simp add: local_env_def services_free_def)

lemma eff_refresh_page: "eff R 0 (refresh_page env)"
  unfolding refresh_page_def by (rule eff_fun) (rule eff_pure)

lemma eff_hook_steps:
  assumes "local_env env" "local_options exec env opts"
  shows "eff R 0 (runSteps env (exec env) ss None)"
  by (rule eff_local, rule runSteps_keeps_locals) (use assms in \<open>auto simp: local_options_def callbacks_free_def\<close>)

text \<open>The part of a late hook before its \<open>finally\<close> block\<close>

lemma eff_late_body:
  assumes "local_env env" "local_options exec env opts"
  shows "eff R 0 (catchR
        (thenR (refresh_page env)
          (bindR (runSteps env (exec env) ss None)
            (\<lambda>r. case r of None \<Rightarrow> returnR () | Some e \<Rightarrow> log_error env ''warn'' (name @ '' hook failed'') (errMessage e))))
        (\<lambda>e. bindR (exit_or_abort env (optRule opts) e)
           (\<lambda>b. if b then returnR () else log_error env ''warn'' (name @ '' hook failed'') (exn_message e))))"
  using assms
  by (auto intro!: eff_catchR0 eff_thenR0 eff_bindR0 eff_refresh_page eff_hook_steps eff_exit_or_abort
      simp: eff_pure eff_log_error split: option.split)

lemma eff_main_steps:
  assumes "local_env env" "local_options exec env opts"
  shows "eff R 0 (main_steps exec env opts)"
proof -
  have run: "eff R 0 (runSteps env (exec env) ss (Some (main_options env opts)))" for ss
    by (rule eff_local, rule runSteps_keeps_locals)
      (use assms main_callbacks_free in \<open>auto simp: local_options_def\<close>)
  have "eff R 0 (bindR
      (catchR (runSteps env (exec env) (steps (optRule opts)) (Some (main_options env opts)))
        (\<lambda>e. bindR (exit_or_abort env (optRule opts) e)
           (\<lambda>b. returnR (if b then None else Some (plain_error (classifyError e) (exn_message e))))))
      (\<lambda>r. case r of None \<Rightarrow> returnR () | Some err \<Rightarrow> markFatalError env (optRule opts) err))"
    using assms
    by (intro eff_bindR0 eff_catchR0 run eff_exit_or_abort eff_pure)
      (auto simp: eff_pure eff_markFatalError split: option.split)
  then show ?thesis
    unfolding main_steps_def eff_def using free by (auto split: if_splits)
qed

lemma eff_check_output:
  assumes "local_env env" shows "eff R 0 (check_output env rl)"
proof -
  have log: "eff R 0 (sendLog env l m x)" for l m x
    using assms by (auto simp: local_env_def services_free_def intro: eff_local)
  have "eff R 0 (validateOutput env d schema mode)" for d schema mode
    unfolding validateOutput_def Let_def
    by (auto simp: eff_pure eff_Pair log eff_thenR0 split: sum.split list.split)
  then have "eff R 0 (\<lambda>s. validateOutput env (JObj (extracted (fst s))) schema mode s)" for schema mode
    unfolding eff_def by blast
  then show ?thesis
    unfolding check_output_def
    by (auto intro!: eff_catchR0 eff_bindR0 eff_markFatalError assms simp: eff_pure eff_Pair split: option.split)
qed

lemma eff_drain_buffer:
  assumes "local_env env" shows "eff R 0 (drain_buffer env0 env rl)"
proof -
  have "eff R 0 (catchR (drain pol env0 b) (\<lambda>e. thenR (log_error env ''error'' ''sendPolicy drain failed'' (exn_message e))
               (markFatalError env rl (plain_error ''TransportError'' (''sendPolicy drain failed: '' @ exn_message e)))))" for pol b
    by (intro eff_catchR0 eff_thenR0 eff_log_error eff_markFatalError assms) (rule eff_local, rule keeps_drain)
  then have "eff R 0 (\<lambda>s. catchR (drain pol env0 (rStatus (locals_of s) = Success))
      (\<lambda>e. thenR (log_error env ''error'' ''sendPolicy drain failed'' (exn_message e))
               (markFatalError env rl (plain_error ''TransportError'' (''sendPolicy drain failed: '' @ exn_message e)))) s)" for pol
    unfolding eff_def by blast
  then show ?thesis
    unfolding drain_buffer_def by (auto simp: eff_pure eff_Pair split: option.split)
qed

lemma eff_beforeAll_body:
  assumes "local_env env" "local_options exec env opts"
  shows "eff R 0 (beforeAll_body exec env opts)"
  unfolding beforeAll_body_def using assms
  by (auto intro!: eff_catchR0 eff_thenR0 eff_bindR0 eff_refresh_page eff_hook_steps eff_exit_or_abort eff_set_locals skip
      simp: eff_pure)

end


text \<open>A status and its error agree.\<close>

definition consistent :: "run_locals \<Rightarrow> bool" where
  "consistent l \<longleftrightarrow> (rStatus l = Success \<longrightarrow> fatalError l = None)
     \<and> (rStatus l = Failure \<longrightarrow> (case fatalError l of None \<Rightarrow> False | Some e \<Rightarrow> rMessage l = errMessage e))"

interpretation consistency: run_discipline "preserves (\<lambda>w. consistent (locals w))"
  by unfold_locales (auto simp: preserves_def consistent_def split: option.splits)

interpretation hook_log: run_discipline "keeps (\<lambda>w. hooksCompleted (locals w))"
  by unfold_locales (auto simp: keeps_def)


section \<open>The result of a run\<close>

context run_discipline begin

text \<open>A discipline that also allows a hook to be recorded allows the whole run.\<close>

lemma eff_late_hook:
  assumes "local_env env" "local_options exec env opts"
    and "\<And>w. h \<notin> set (hooksCompleted (locals w)) \<Longrightarrow>
      R 0 w (w\<lparr>locals := (locals w)\<lparr>hooksCompleted := hooksCompleted (locals w) @ [h]\<rparr>\<rparr>)"
  shows "eff R 0 (late_hook exec env opts h name as)"
proof (cases as)
  case (Some ss)
  let ?body = "catchR
        (thenR (refresh_page env)
          (bindR (runSteps env (exec env) ss None)
            (\<lambda>r. case r of None \<Rightarrow> returnR () | Some e \<Rightarrow> log_error env ''warn'' (name @ '' hook failed'') (errMessage e))))
        (\<lambda>e. bindR (exit_or_abort env (optRule opts) e)
           (\<lambda>b. if b then returnR () else log_error env ''warn'' (name @ '' hook failed'') (exn_message e)))"
  have body: "eff R 0 ?body" by (rule eff_late_body [OF assms(1,2)])
  have keeps: "eff (keeps (\<lambda>w. hooksCompleted (locals w))) 0 ?body"
    by (rule hook_log.eff_late_body [OF assms(1,2)])
  have step: "R 0 (snd s) (snd s')"
    if fresh: "h \<notin> set (hooksCompleted (locals_of s))" and run: "finallyR ?body (hook_done opts h) s = (r, s')" for s r s'
  proof -
    obtain r1 s1 where 1: "?body s = (r1, s1)" by (cases "?body s")
    obtain r2 s2 where 2: "hook_done opts h s1 = (r2, s2)" by (cases "hook_done opts h s1")
    have "s' = s2" using run 1 2 by (cases r2) (simp_all add: finallyR_def)
    have "hooksCompleted (locals (snd s1)) = hooksCompleted (locals (snd s))"
      using keeping.effD [OF keeps 1] by (simp add: keeps_def)
    then have "h \<notin> set (hooksCompleted (locals (snd s1)))" using fresh by (simp add: locals_of_def)
    then have h: "R 0 (snd s1) ((snd s1)\<lparr>locals := (locals (snd s1))\<lparr>hooksCompleted := hooksCompleted (locals (snd s1)) @ [h]\<rparr>\<rparr>)"
      by (rule assms(3))
    obtain s3 where s3: "set_locals (\<lambda>l. l\<lparr>hooksCompleted := hooksCompleted l @ [h]\<rparr>) s1 = (Ret (), s3)"
        "snd s3 = (snd s1)\<lparr>locals := (locals (snd s1))\<lparr>hooksCompleted := hooksCompleted (locals (snd s1)) @ [h]\<rparr>\<rparr>"
      by (cases s1) (simp add: set_locals_def)
    have "emit_checkpoint opts (checkpoint_at (resume_or_empty opts) None) s3 = (r2, s2)"
      using 2 s3 by (simp add: hook_done_def thenR_apply)
    then have "R 0 (snd s3) (snd s2)"
      by (rule effD [OF eff_local [OF keeps_emit_checkpoint [OF assms(2)]]])
    then show ?thesis
      using compose [OF effD [OF body 1] compose [OF h [folded s3(2)]]] \<open>s' = s2\<close> by simp
  qed
  show ?thesis
    unfolding late_hook_def Some option.case
    by (rule effI) (auto simp: free split: if_splits dest!: step)
qed (simp add: late_hook_def eff_Pair)

lemma eff_onError_hook:
  assumes "local_env env" "local_options exec env opts"
    and "\<And>w. OnError \<notin> set (hooksCompleted (locals w)) \<Longrightarrow>
      R 0 w (w\<lparr>locals := (locals w)\<lparr>hooksCompleted := hooksCompleted (locals w) @ [OnError]\<rparr>\<rparr>)"
  shows "eff R 0 (onError_hook exec env opts)"
proof -
  have "eff R 0 (thenR (modifyCtx f) (late_hook exec env opts OnError ''onError'' (Some ss)))" for f ss
    by (intro eff_thenR0 eff_pure eff_late_hook assms)
  then show ?thesis
    unfolding onError_hook_def by (intro effI) (auto simp: free split: option.splits if_splits dest: effD)
qed

end


text \<open>Recording a hook changes neither the status nor the error.\<close>

lemma consistency_record:
  "preserves (\<lambda>w. consistent (locals w)) 0 w (w\<lparr>locals := (locals w)\<lparr>hooksCompleted := hs\<rparr>\<rparr>)"
  by (auto simp: preserves_def consistent_def split: option.splits)

text \<open>The record of completed hooks is only extended, and without repetition.\<close>

definition extends_hooks :: "nat \<Rightarrow> 'w run_world \<Rightarrow> 'w run_world \<Rightarrow> bool" where
  "extends_hooks n w w' \<longleftrightarrow> 0 < n \<or>
     (prefix (hooksCompleted (locals w)) (hooksCompleted (locals w'))
      \<and> (distinct (hooksCompleted (locals w)) \<longrightarrow> distinct (hooksCompleted (locals w'))))"

interpretation hook_record: run_discipline extends_hooks
  by unfold_locales (auto simp: extends_hooks_def intro: prefix_order.order_trans)

lemma hook_record_once:
  "h \<notin> set (hooksCompleted (locals w)) \<Longrightarrow>
   extends_hooks 0 w (w\<lparr>locals := (locals w)\<lparr>hooksCompleted := hooksCompleted (locals w) @ [h]\<rparr>\<rparr>)"
  by (simp add: extends_hooks_def)

lemma report_result_locals:
  assumes "local_env env" and "report_result env tid s = (r, s')"
  shows "locals (snd s') = locals (snd s)
     \<and> (\<forall>res. r = Ret res \<longrightarrow> resStatus res = rStatus (locals (snd s)) \<and> resMessage res = rMessage (locals (snd s))
          \<and> resError res = fatalError (locals (snd s)))"
proof -
  have send: "eff (keeps locals) 0 (sendResult env v b)" "eff (keeps locals) 0 (sendStatus env st m)" for v b st m
    using assms(1) by (auto simp: local_env_def services_free_def)
  obtain r1 s1 where 1: "sendResult env (JObj [(''__final'', JBool True), (''taskId'', JStr tid)]) True s = (r1, s1)"
    by (cases "sendResult env (JObj [(''__final'', JBool True), (''taskId'', JStr tid)]) True s")
  have l1: "locals (snd s1) = locals (snd s)" using keeps_stateD [OF send(1) 1] .
  obtain r2 s2 where 2: "sendStatus env (status_string (rStatus (locals_of s1))) (rMessage (locals_of s1)) s1 = (r2, s2)"
    by (cases "sendStatus env (status_string (rStatus (locals_of s1))) (rMessage (locals_of s1)) s1")
  have "locals (snd s2) = locals (snd s1)" using keeps_stateD [OF send(2) 2] .
  then show ?thesis
    using assms(2) 1 2 l1
    by (cases r1; cases r2) (auto simp: report_result_def thenR_apply Let_def locals_of_def)
qed

lemma after_main_consistent:
  assumes "local_env env" "local_options exec env opts" and "consistent (locals (snd s))"
    and "after_main env0 exec env opts s = (Ret res, s')"
  shows "(resStatus res = Success \<longrightarrow> resError res = None)
     \<and> (resStatus res = Failure \<longrightarrow> (case resError res of None \<Rightarrow> False | Some e \<Rightarrow> resMessage res = errMessage e))"
proof -
  note E = consistency.eff_late_hook [OF assms(1,2) consistency_record]
    consistency.eff_onError_hook [OF assms(1,2) consistency_record]
    consistency.eff_check_output [OF assms(1)] consistency.eff_drain_buffer [OF assms(1)]
  obtain s1 s2 s3 s4 s5 where
    1: "late_hook exec env opts AfterAll ''afterAll'' (afterAll (hooks (optRule opts))) s = (Ret (), s1)"
    and 2: "onError_hook exec env opts s1 = (Ret (), s2)"
    and 3: "late_hook exec env opts Cleanup ''cleanup'' (cleanupHook (hooks (optRule opts))) s2 = (Ret (), s3)"
    and 4: "check_output env (optRule opts) s3 = (Ret (), s4)"
    and 5: "drain_buffer env0 env (optRule opts) s4 = (Ret (), s5)"
    and 6: "report_result env (optTaskId opts) s5 = (Ret res, s')"
    using assms(4) unfolding after_main_def Let_def by (blast dest: thenR_RetD)
  have "consistent (locals (snd s5))"
    using assms(3) preserving.effD [OF E(1) 1] preserving.effD [OF E(2) 2] preserving.effD [OF E(1) 3]
      preserving.effD [OF E(3) 4] preserving.effD [OF E(4) 5] by (simp add: preserves_def)
  then show ?thesis
    using report_result_locals [OF assms(1) 6] by (auto simp: consistent_def split: option.splits)
qed

lemma finalize_result:
  "finalize env0 env rl err m s = (Ret res, s') \<Longrightarrow> resStatus res = Failure \<and> resError res = Some err \<and> resMessage res = errMessage err"
  unfolding finalize_def by (auto dest!: thenR_RetD)

lemma finallyR_RetD: "finallyR m f s = (Ret a, s') \<Longrightarrow> \<exists>s1 u. m s = (Ret a, s1) \<and> f s1 = (Ret u, s')"
  by (auto simp: finallyR_def split: prod.splits outcome.splits)

text \<open>The ways a run body can return: cut short by \<open>beforeAll\<close>, or through the main steps.\<close>

lemma run_body_cases:
  assumes "run_body env0 exec env opts s = (Ret res, s')"
  obtains (cut) s2 err s3 where "sendStatus env ''running'' (''Started rule '' @ ruleIdOf (optRule opts)) s = (Ret (), s2)"
      and "beforeAll_due opts (locals_of s2)" and "beforeAll_body exec env opts s2 = (Ret (Some err), s3)"
      and "finalize env0 env (optRule opts) err (hook_done opts BeforeAll) s3 = (Ret res, s')"
  | (direct) s2 s3 where "sendStatus env ''running'' (''Started rule '' @ ruleIdOf (optRule opts)) s = (Ret (), s2)"
      and "main_steps exec env opts s2 = (Ret (), s3)" and "after_main env0 exec env opts s3 = (Ret res, s')"
  | (hooked) s2 s3 s4 s5 where "sendStatus env ''running'' (''Started rule '' @ ruleIdOf (optRule opts)) s = (Ret (), s2)"
      and "beforeAll_due opts (locals_of s2)" and "beforeAll_body exec env opts s2 = (Ret None, s3)"
      and "hook_done opts BeforeAll s3 = (Ret (), s4)"
      and "main_steps exec env opts s4 = (Ret (), s5)" and "after_main env0 exec env opts s5 = (Ret res, s')"
proof -
  let ?main = "thenR (main_steps exec env opts) (after_main env0 exec env opts)"
  obtain s2 where st: "sendStatus env ''running'' (''Started rule '' @ ruleIdOf (optRule opts)) s = (Ret (), s2)"
    and body: "(if beforeAll_due opts (locals_of s2)
            then (case beforeAll_body exec env opts s2 of
                    (Ret (Some err), s') \<Rightarrow> finalize env0 env (optRule opts) err (hook_done opts BeforeAll) s'
                  | (Ret None, s') \<Rightarrow> thenR (hook_done opts BeforeAll) ?main s'
                  | (Throw e, s') \<Rightarrow> thenR (hook_done opts BeforeAll) (throwR e) s')
            else ?main s2) = (Ret res, s')"
    using assms unfolding run_body_def by (blast dest: thenR_RetD)
  show thesis
  proof (cases "beforeAll_due opts (locals_of s2)")
    case False
    then have "?main s2 = (Ret res, s')" using body by simp
    from thenR_RetD [OF this] show thesis using direct [OF st] by blast
  next
    case True
    obtain r3 s3 where b: "beforeAll_body exec env opts s2 = (r3, s3)" by (cases "beforeAll_body exec env opts s2")
    consider err where "r3 = Ret (Some err)" | "r3 = Ret None" | e where "r3 = Throw e"
      by (metis not_None_eq outcome.exhaust)
    then show thesis
    proof cases
      case 1
      then show thesis using cut [OF st True] body True b by simp
    next
      case 2
      then have "thenR (hook_done opts BeforeAll) ?main s3 = (Ret res, s')" using body True b by simp
      from thenR_RetD [OF this] obtain s4 where 4: "hook_done opts BeforeAll s3 = (Ret (), s4)" "?main s4 = (Ret res, s')" by blast
      from thenR_RetD [OF this(2)] show thesis using hooked [OF st True] b 2 4(1) by blast
    next
      case 3
      then have "thenR (hook_done opts BeforeAll) (throwR e) s3 = (Ret res, s')" using body True b by simp
      from thenR_RetD [OF this] show thesis by simp
    qed
  qed
qed

lemma hook_done_locals:
  assumes "local_options exec env opts" and "hook_done opts h s = (Ret (), s')"
  shows "locals (snd s') = (locals (snd s))\<lparr>hooksCompleted := hooksCompleted (locals (snd s)) @ [h]\<rparr>"
proof -
  obtain s1 where 1: "set_locals (\<lambda>l. l\<lparr>hooksCompleted := hooksCompleted l @ [h]\<rparr>) s = (Ret (), s1)"
    and 2: "emit_checkpoint opts (checkpoint_at (resume_or_empty opts) None) s1 = (Ret (), s')"
    using assms(2) unfolding hook_done_def by (blast dest: thenR_RetD)
  from 1 have "locals (snd s1) = (locals (snd s))\<lparr>hooksCompleted := hooksCompleted (locals (snd s)) @ [h]\<rparr>"
    by (cases s) (auto simp: set_locals_def)
  with keeps_stateD [OF keeps_emit_checkpoint [OF assms(1)] 2] show ?thesis by simp
qed

lemma consistent_hooks: "consistent l \<Longrightarrow> consistent (l\<lparr>hooksCompleted := hs\<rparr>)"
  by (simp add: consistent_def split: option.splits)

lemma main_then_after_consistent:
  assumes "local_env env" "local_options exec env opts" and "consistent (locals (snd s))"
    and "main_steps exec env opts s = (Ret (), s1)" and "after_main env0 exec env opts s1 = (Ret res, s')"
  shows "(resStatus res = Success \<longrightarrow> resError res = None)
     \<and> (resStatus res = Failure \<longrightarrow> (case resError res of None \<Rightarrow> False | Some e \<Rightarrow> resMessage res = errMessage e))"
proof (rule after_main_consistent [OF assms(1,2) _ assms(5)])
  show "consistent (locals (snd s1))"
    using preserving.effD [OF consistency.eff_main_steps [OF assms(1,2)] assms(4)] assms(3) by (simp add: preserves_def)
qed

text \<open>C9. The result of a run is consistent: success is reported only without a fatal error, and a
  failure carries the error whose message it reports, whatever the steps, hooks, exits, output
  checks and the drain of the buffer did.\<close>

theorem run_result_consistent:
  assumes "local_options exec (run_env (optRule opts) env) opts"
    and "runRule exec env opts w = (Ret res, s')"
  shows "(resStatus res = Success \<longrightarrow> resError res = None)
     \<and> (resStatus res = Failure \<longrightarrow> (case resError res of None \<Rightarrow> False | Some e \<Rightarrow> resMessage res = errMessage e))"
proof -
  note le = local_env_run_env [of "optRule opts" env]
  note main = main_then_after_consistent [OF le assms(1)]
  obtain s1 where run: "run_body env exec (run_env (optRule opts) env) opts (initial_context opts env (blank_context, w),
        \<lparr>inner = w, buffer = fresh_buffer (rule_policy (optRule opts)), locals = initial_locals opts\<rparr>) = (Ret res, s1)"
    using assms(2) unfolding runRule_def by (blast dest: finallyR_RetD)
  have c0: "consistent (initial_locals opts)" by (simp add: consistent_def initial_locals_def)
  from run show ?thesis
  proof (cases rule: run_body_cases)
    case (cut s2 err s3)
    from finalize_result [OF cut(4)] show ?thesis by simp
  next
    case (direct s2 s3)
    have "consistent (locals (snd s2))"
      using keeps_stateD [OF run_env_reports(1) direct(1)] c0 by simp
    then show ?thesis by (rule main [OF _ direct(2,3)])
  next
    case (hooked s2 s3 s4 s5)
    have "consistent (locals (snd s3))"
      using preserving.effD [OF consistency.eff_beforeAll_body [OF le assms(1)] hooked(3)]
        keeps_stateD [OF run_env_reports(1) hooked(1)] c0 by (simp add: preserves_def)
    then have "consistent (locals (snd s4))"
      using hook_done_locals [OF assms(1) hooked(4)] consistent_hooks by simp
    then show ?thesis using main hooked(5,6) by blast
  qed
qed

text \<open>A run of a concrete rule, on the demonstration environment lifted to the world of a run\<close>

definition demo_rule_exec :: "demo run_world env \<Rightarrow> demo run_world handler" where
  "demo_rule_exec env a t = (\<lambda>(c, b).
     case demo_exec a t (c, inner b) of (r, (c', w')) \<Rightarrow> (r, (c', b\<lparr>inner := w'\<rparr>)))"

definition demo_rule :: "action list \<Rightarrow> rule_hooks \<Rightarrow> rule" where
  "demo_rule ss hs = \<lparr>ruleIdOf = ''r1'', version = ''1.0.0'', domain = [''shop.example''], entry = None,
     ruleVariables = [], selectors = [], ruleHumanize = None, ruleRetry = None, screenshotOnError = True,
     outputSchema = None, outputOnInvalid = None,
     sendPolicy = Some \<lparr>batchSize = Some 2, flushInterval = None, sendOnFailure = None\<rparr>,
     ruleTimeout = None, maxRetries = None, hooks = hs, steps = ss\<rparr>"

definition demo_options :: "rule \<Rightarrow> demo executor_options" where
  "demo_options rl = \<lparr>optRule = rl, optTaskId = ''t1'', optWorkerId = ''w1'', optVariables = [],
     resumeStepPath = None, initialContext = None, initialHooksCompleted = None,
     onCheckpoint = Some (\<lambda>cp (c, b). (Ret (), (c, b\<lparr>inner := (inner b)\<lparr>completed :=
        completed (inner b) @ [lastCompletedStepPath cp]\<rparr>\<rparr>))),
     onStepFailureOpt = None, humanizeReplay = False\<rparr>"

definition demo_world :: demo where
  "demo_world = \<lparr>events = [], clock = 0, cancelled = False, completed = []\<rparr>"

definition demo_result :: "rule \<Rightarrow> execution_result outcome \<times> demo" where
  "demo_result rl = (case runRule demo_rule_exec demo_env (demo_options rl) demo_world of (r, (c, b)) \<Rightarrow> (r, inner b))"

lemma demo_local_options: "local_options demo_rule_exec env (demo_options rl)"
  by (auto simp: local_options_def demo_options_def handler_costs_def demo_rule_exec_def keeps_def eff_def
      split: prod.splits)

definition demo_hooks :: rule_hooks where
  "demo_hooks = \<lparr>beforeAll = Some [leaf_step ''note'' ''before''], afterAll = Some [leaf_step ''note'' ''after''],
     onErrorHook = Some [leaf_step ''note'' ''error''], cleanupHook = Some [leaf_step ''note'' ''clean'']\<rparr>"

definition failing_rule :: rule where
  "failing_rule = demo_rule [leaf_step ''note'' ''a'', leaf_step ''fail'' ''boom'', leaf_step ''note'' ''b''] demo_hooks"

lemma failing_run:
  "fst (runRule demo_rule_exec demo_env (demo_options failing_rule) demo_world)
     = Ret \<lparr>resStatus = Failure, resMessage = ''boom'', partialData = [], resError =
         Some \<lparr>errType = ''UnknownError'', errMessage = ''boom'', errStepId = None, errRetryCount = Some 0,
                recoverable = False\<rparr>\<rparr>"
  "hooksCompleted (locals (snd (snd (runRule demo_rule_exec demo_env (demo_options failing_rule) demo_world))))
     = [BeforeAll, AfterAll, OnError, Cleanup]"
  by code_simp+

theorem run_result_consistent_witness:
  "\<exists>res s'. runRule demo_rule_exec demo_env (demo_options failing_rule) demo_world = (Ret res, s')
     \<and> resStatus res = Failure \<and> (case resError res of None \<Rightarrow> False | Some e \<Rightarrow> resMessage res = errMessage e)"
proof -
  obtain r s' where run: "runRule demo_rule_exec demo_env (demo_options failing_rule) demo_world = (r, s')"
    by (cases "runRule demo_rule_exec demo_env (demo_options failing_rule) demo_world")
  obtain res where res: "r = Ret res" "resStatus res = Failure" using failing_run(1) run by simp
  have opts: "local_options demo_rule_exec (run_env (optRule (demo_options failing_rule)) demo_env) (demo_options failing_rule)"
    by (rule demo_local_options)
  have "case resError res of None \<Rightarrow> False | Some e \<Rightarrow> resMessage res = errMessage e"
    using run_result_consistent [OF opts run [unfolded res(1)]] res(2) by blast
  then show ?thesis using run res by blast
qed


section \<open>Hooks\<close>

lemma report_keeps: "local_env env \<Longrightarrow> eff (keeps locals) 0 (report_result env tid)"
  by (rule keeps_state) (use report_result_locals in blast)

lemma hook_record_after_main:
  assumes "local_env env" "local_options exec env opts"
  shows "eff extends_hooks 0 (after_main env0 exec env opts)"
  unfolding after_main_def Let_def
  by (intro hook_record.eff_thenR0 hook_record.eff_late_hook hook_record.eff_onError_hook hook_record_once
      hook_record.eff_check_output hook_record.eff_drain_buffer hook_record.eff_local report_keeps assms)

lemma thenR_cases:
  assumes "thenR m k s = (r, s')"
  obtains (throw) e where "m s = (Throw e, s')" "r = Throw e"
  | (go) s1 where "m s = (Ret (), s1)" "k s1 = (r, s')"
  using assms by (auto simp: thenR_apply split: prod.splits outcome.splits)

lemma hook_done_hooks:
  assumes "local_options exec env opts" and "hook_done opts h s = (r, s')"
  shows "hooksCompleted (locals (snd s')) = hooksCompleted (locals (snd s)) @ [h]"
proof -
  obtain s1 where 1: "set_locals (\<lambda>l. l\<lparr>hooksCompleted := hooksCompleted l @ [h]\<rparr>) s = (Ret (), s1)"
    and h: "hooksCompleted (locals (snd s1)) = hooksCompleted (locals (snd s)) @ [h]"
    by (cases s) (simp add: set_locals_def)
  have "emit_checkpoint opts (checkpoint_at (resume_or_empty opts) None) s1 = (r, s')"
    using assms(2) 1 by (simp add: hook_done_def thenR_apply)
  from keeps_stateD [OF keeps_emit_checkpoint [OF assms(1)] this] h show ?thesis by simp
qed

lemma keeps_hooks_state:
  "eff (keeps (\<lambda>w. hooksCompleted (locals w))) 0 m \<Longrightarrow> m s = (r, s')
   \<Longrightarrow> hooksCompleted (locals (snd s')) = hooksCompleted (locals (snd s))"
  using keeping.effD by (fastforce simp: keeps_def)

lemma finallyR_cases:
  assumes "finallyR m f s = (r, s')"
  obtains r1 s1 r2 where "m s = (r1, s1)" "f s1 = (r2, s')"
proof -
  obtain r1 s1 where 1: "m s = (r1, s1)" by (cases "m s")
  obtain r2 s2 where 2: "f s1 = (r2, s2)" by (cases "f s1")
  have "s2 = s'" using assms 1 2 by (cases r2) (simp_all add: finallyR_def)
  then show thesis using that 1 2 by blast
qed

lemma late_hook_hooks:
  assumes "local_env env" "local_options exec env opts"
    and "late_hook exec env opts h name as s = (r, s')"
  shows "hooksCompleted (locals (snd s')) =
    hooksCompleted (locals (snd s)) @ (if as \<noteq> None \<and> h \<notin> set (hooksCompleted (locals (snd s))) then [h] else [])"
proof (cases "as \<noteq> None \<and> h \<notin> set (hooksCompleted (locals (snd s)))")
  case True
  then obtain ss where ss: "as = Some ss" by blast
  with True assms(3) obtain r1 s1 r2 where
    1: "catchR (thenR (refresh_page env)
            (bindR (runSteps env (exec env) ss None)
              (\<lambda>r. case r of None \<Rightarrow> returnR ()
                   | Some e \<Rightarrow> log_error env ''warn'' (name @ '' hook failed'') (errMessage e))))
          (\<lambda>e. bindR (exit_or_abort env (optRule opts) e)
             (\<lambda>b. if b then returnR () else log_error env ''warn'' (name @ '' hook failed'') (exn_message e))) s = (r1, s1)"
    and 2: "hook_done opts h s1 = (r2, s')"
    unfolding late_hook_def by (auto simp: locals_of_def elim: finallyR_cases)
  from keeps_hooks_state [OF hook_log.eff_late_body [OF assms(1,2)] 1] hook_done_hooks [OF assms(2) 2] True
  show ?thesis by simp
next
  case False
  then have "s' = s" using assms(3) by (auto simp: late_hook_def locals_of_def split: option.splits)
  with False show ?thesis by auto
qed

lemma keeps_finalize_tail:
  "eff (keeps locals) 0 (thenR (sendStatus (lift_env base_env) ''failed'' m)
      (\<lambda>s. (Ret (f s), s)) :: ('w run_world, 'a) run)"
  by (intro keeping.eff_thenR0) (simp add: lift_env_def keeps_lift_run, simp add: keeps_def eff_def)

lemma finalize_hooks:
  fixes base_env :: "'w env" and s :: "'w run_world st"
  assumes "local_options exec env opts"
    and "finalize base_env (run_env rl base_env) rl err (hook_done opts h) s = (r, s')"
  shows "hooksCompleted (locals (snd s')) = hooksCompleted (locals (snd s)) @ [h]"
proof -
  let ?send = "\<lambda>e s. sendResult e (critical_payload err (fst s)) True s"
  have send: "eff (keeps locals) 0 (?send (lift_env base_env) :: ('w run_world, unit) run)"
    "eff (keeps locals) 0 (?send (run_env rl base_env) :: ('w run_world, unit) run)" for base_env :: "'w env"
    using run_env_reports(5) [of rl base_env] by (auto simp: eff_def lift_env_def keeps_def dest: keeps_stateD [OF keeps_lift_run])
  have tail: "locals (snd s2) = locals (snd s1)"
    if "thenR (sendStatus (lift_env base_env) ''failed'' (errMessage err))
           (\<lambda>s. (Ret \<lparr>resStatus = Failure, resMessage = errMessage err,
                      partialData = extracted (fst s), resError = Some err\<rparr>, s)) s1 = (r2, s2)"
      for s1 s2 :: "'w run_world st" and r2 by (rule keeps_stateD [OF keeps_finalize_tail that])
  have mid: "hooksCompleted (locals (snd s2)) = hooksCompleted (locals (snd s1)) @ [h]"
    if "(case rule_policy rl of
            Some pol \<Rightarrow>
              thenR (hook_done opts h)
                (thenR
                  (catchR (drain pol base_env False)
                    (\<lambda>e. log_error (lift_env base_env) ''error'' ''sendPolicy drain failed in finalize'' (exn_message e)))
                  (?send (lift_env base_env)))
          | None \<Rightarrow> finallyR (?send (run_env rl base_env)) (hook_done opts h)) s1 = (r2, s2)" for s1 s2 r2
  proof (cases "rule_policy rl")
    case None
    with that obtain r3 s3 r4 where "?send (run_env rl base_env) s1 = (r3, s3)" "hook_done opts h s3 = (r4, s2)"
      by (auto elim: finallyR_cases)
    then show ?thesis using keeps_stateD [OF send(2)] hook_done_hooks [OF assms(1)] by metis
  next
    case (Some pol)
    have "eff (keeps locals) 0 (thenR
                  (catchR (drain pol base_env False)
                    (\<lambda>e. log_error (lift_env base_env) ''error'' ''sendPolicy drain failed in finalize'' (exn_message e)))
                  (?send (lift_env base_env)) :: ('w run_world, unit) run)"
      by (intro keeping.eff_thenR0 keeping.eff_catchR0 keeps_drain send(1)) (simp add: log_error_def lift_env_def keeps_lift_run)
    from keeps_stateD [OF this] show ?thesis
      using that Some hook_done_hooks [OF assms(1)]
      by (auto simp: thenR_apply split: prod.splits outcome.splits)
  qed
  from assms(2) show ?thesis
    unfolding finalize_def
  proof (cases rule: thenR_cases)
    case (go s1)
    from go(2) have "hooksCompleted (locals (snd s')) = hooksCompleted (locals (snd s1)) @ [h]"
      by (cases rule: thenR_cases) (simp_all only: mid tail)
    with go(1) show ?thesis by auto
  qed simp
qed

lemma main_steps_hooks:
  assumes "local_env env" "local_options exec env opts" and "main_steps exec env opts s = (r, s')"
  shows "hooksCompleted (locals (snd s')) = hooksCompleted (locals (snd s))"
  by (rule keeps_hooks_state [OF hook_log.eff_main_steps [OF assms(1,2)] assms(3)])

text \<open>The hooks a run has recorded at its end, whatever its outcome\<close>

lemma hook_record_run_body:
  fixes env :: "'w env" and s :: "'w run_world st" and opts :: "'w executor_options"
  defines "renv \<equiv> run_env (optRule opts) env"
  assumes opts: "local_options exec renv opts" and run: "run_body env exec renv opts s = (r, s')"
  shows "extends_hooks 0 (snd s) (snd s')"
proof -
  have le: "local_env renv" unfolding renv_def by (rule local_env_run_env)
  let ?main = "thenR (main_steps exec renv opts) (after_main env exec renv opts)"
  have main: "eff extends_hooks 0 ?main"
    by (intro hook_record.eff_thenR0 hook_record.eff_main_steps hook_record_after_main le opts)
  have status: "locals (snd s2) = locals (snd s1)"
    if "sendStatus renv st m s1 = (r2, s2)" for s1 s2 r2 st m
    using that unfolding renv_def by (rule keeps_stateD [OF run_env_reports(1)])
  have done1: "extends_hooks 0 (snd s1) (snd s2)"
    if "hooksCompleted (locals (snd s2)) = hooksCompleted (locals (snd s1)) @ [BeforeAll]"
      and "beforeAll_due opts (locals (snd s1))" for s1 s2 :: "'w run_world st"
    using that by (auto simp: extends_hooks_def beforeAll_due_def)
  from run show ?thesis
    unfolding run_body_def
  proof (cases rule: thenR_cases)
    case (throw e)
    from status [OF throw(1)] show ?thesis by (simp add: extends_hooks_def)
  next
    case (go s1)
    have l1: "locals (snd s1) = locals (snd s)" by (rule status [OF go(1)])
    show ?thesis
    proof (cases "beforeAll_due opts (locals_of s1)")
      case False
      then have "?main s1 = (r, s')" using go(2) by simp
      from hook_record.effD [OF main this] l1 show ?thesis by (simp add: extends_hooks_def)
    next
      case True
      then have due: "beforeAll_due opts (locals (snd s1))" by (simp add: locals_of_def)
      obtain r2 s2 where b: "beforeAll_body exec renv opts s1 = (r2, s2)" by (cases "beforeAll_body exec renv opts s1")
      have h2: "hooksCompleted (locals (snd s2)) = hooksCompleted (locals (snd s1))"
        by (rule keeps_hooks_state [OF hook_log.eff_beforeAll_body [OF le opts] b])
      consider err where "r2 = Ret (Some err)" | "r2 = Ret None" | e where "r2 = Throw e"
        by (metis not_None_eq outcome.exhaust)
      then have "extends_hooks 0 (snd s1) (snd s')"
      proof cases
        case 1
        then have "finalize env renv (optRule opts) err (hook_done opts BeforeAll) s2 = (r, s')"
          using go(2) True b by simp
        from finalize_hooks [OF opts this [unfolded renv_def]] h2 show ?thesis by (intro done1 due) simp
      next
        case 2
        then have "thenR (hook_done opts BeforeAll) ?main s2 = (r, s')" using go(2) True b by simp
        then show ?thesis
        proof (cases rule: thenR_cases)
          case (throw e)
          from hook_done_hooks [OF opts throw(1)] h2 show ?thesis by (intro done1 due) simp
        next
          case (go s3)
          have "extends_hooks 0 (snd s1) (snd s3)"
            using hook_done_hooks [OF opts go(1)] h2 by (intro done1 due) simp
          then show ?thesis using hook_record.compose [of 0 _ _ 0] hook_record.effD [OF main go(2)] by fastforce
        qed
      next
        case 3
        then have "thenR (hook_done opts BeforeAll) (throwR e) s2 = (r, s')" using go(2) True b by simp
        then show ?thesis
        proof (cases rule: thenR_cases)
          case (throw e)
          from hook_done_hooks [OF opts throw(1)] h2 show ?thesis by (intro done1 due) simp
        next
          case (go s3)
          from hook_done_hooks [OF opts go(1)] h2 go(2) show ?thesis by (intro done1 due) simp
        qed
      qed
      then show ?thesis using l1 by (simp add: extends_hooks_def)
    qed
  qed
qed

lemma runRule_parts:
  assumes "runRule exec env opts w = (r, s')"
  obtains r1 s1 where "run_body env exec (run_env (optRule opts) env) opts (initial_context opts env (blank_context, w),
        \<lparr>inner = w, buffer = fresh_buffer (rule_policy (optRule opts)), locals = initial_locals opts\<rparr>) = (r1, s1)"
    and "locals (snd s') = locals (snd s1)" and "\<And>x. r = Ret x \<Longrightarrow> r1 = Ret x"
  using assms unfolding runRule_def finallyR_def dispose_def modify_buffer_def
  by (auto split: prod.splits outcome.splits)

text \<open>C11. The record of the completed hooks of a run extends the record it was started with, and
  never holds a hook twice, whether the run returns or throws.\<close>

theorem hooks_complete_once:
  assumes "local_options exec (run_env (optRule opts) env) opts"
    and "distinct (hooksCompleted (initial_locals opts))" and "runRule exec env opts w = (r, s')"
  shows "prefix (hooksCompleted (initial_locals opts)) (hooksCompleted (locals (snd s')))
     \<and> distinct (hooksCompleted (locals (snd s')))"
proof -
  from assms(3) show ?thesis
  proof (cases rule: runRule_parts)
    case (1 r1 s1)
    from hook_record_run_body [OF assms(1) 1(1)] 1(2) assms(2) show ?thesis by (simp add: extends_hooks_def)
  qed
qed

text \<open>C12. A run that returns has completed its cleanup hook, unless it failed in its \<open>beforeAll\<close>
  hook: then that hook is the only one it adds to the record.\<close>

theorem cleanup_unless_beforeAll_fails:
  assumes "local_options exec (run_env (optRule opts) env) opts"
    and "cleanupHook (hooks (optRule opts)) \<noteq> None" and "runRule exec env opts w = (Ret res, s')"
  shows "Cleanup \<in> set (hooksCompleted (locals (snd s'))) \<or>
     (resStatus res = Failure \<and> hooksCompleted (locals (snd s')) = hooksCompleted (initial_locals opts) @ [BeforeAll])"
proof -
  let ?renv = "run_env (optRule opts) env"
  have le: "local_env ?renv" by (rule local_env_run_env)
  have fin: "Cleanup \<in> set (hooksCompleted (locals (snd s2)))"
    if after: "after_main env exec ?renv opts s1 = (Ret res, s2)" for s1 s2
  proof -
    obtain s3 s4 s5 r6 where "late_hook exec ?renv opts Cleanup ''cleanup'' (cleanupHook (hooks (optRule opts))) s3 = (Ret (), s4)"
        and 5: "thenR (check_output ?renv (optRule opts)) (thenR (drain_buffer env ?renv (optRule opts))
                (report_result ?renv (optTaskId opts))) s4 = (Ret res, s2)"
      using after unfolding after_main_def Let_def by (blast dest: thenR_RetD)
    from late_hook_hooks [OF le assms(1) this(1)] assms(2) have "Cleanup \<in> set (hooksCompleted (locals (snd s4)))"
      by (auto split: if_splits)
    moreover have rest: "eff extends_hooks 0 (thenR (check_output ?renv (optRule opts)) (thenR (drain_buffer env ?renv (optRule opts))
                (report_result ?renv (optTaskId opts))))"
      by (intro hook_record.eff_thenR0 hook_record.eff_check_output hook_record.eff_drain_buffer hook_record.eff_local report_keeps le)
    ultimately show ?thesis using hook_record.effD [OF rest 5] by (auto simp: extends_hooks_def dest: set_mono_prefix)
  qed
  from assms(3) show ?thesis
  proof (cases rule: runRule_parts)
    case (1 r1 s1)
    have body: "run_body env exec ?renv opts (initial_context opts env (blank_context, w),
        \<lparr>inner = w, buffer = fresh_buffer (rule_policy (optRule opts)), locals = initial_locals opts\<rparr>) = (Ret res, s1)"
      using 1(1) 1(3) [OF refl] by simp
    then show ?thesis
    proof (cases rule: run_body_cases)
      case (cut s2 err s3)
      have "hooksCompleted (locals (snd s3)) = hooksCompleted (locals (snd s2))"
        by (rule keeps_hooks_state [OF hook_log.eff_beforeAll_body [OF le assms(1)] cut(3)])
      with finalize_hooks [OF assms(1) cut(4)] finalize_result [OF cut(4)] keeps_stateD [OF run_env_reports(1) cut(1)] 1(2)
      show ?thesis by simp
    next
      case (direct s2 s3)
      from fin [OF direct(3)] 1(2) show ?thesis by simp
    next
      case (hooked s2 s3 s4 s5)
      from fin [OF hooked(6)] 1(2) show ?thesis by simp
    qed
  qed
qed

theorem hooks_complete_once_witness:
  "distinct (hooksCompleted (locals (snd (snd (runRule demo_rule_exec demo_env (demo_options failing_rule) demo_world)))))"
proof -
  obtain r s' where run: "runRule demo_rule_exec demo_env (demo_options failing_rule) demo_world = (r, s')"
    by (cases "runRule demo_rule_exec demo_env (demo_options failing_rule) demo_world")
  have "distinct (hooksCompleted (initial_locals (demo_options failing_rule)))"
    by (simp add: initial_locals_def demo_options_def)
  from hooks_complete_once [OF demo_local_options this run] run show ?thesis by simp
qed

theorem cleanup_unless_beforeAll_fails_witness:
  "Cleanup \<in> set (hooksCompleted (locals (snd (snd (runRule demo_rule_exec demo_env (demo_options failing_rule) demo_world)))))"
proof -
  obtain r s' where run: "runRule demo_rule_exec demo_env (demo_options failing_rule) demo_world = (r, s')"
    by (cases "runRule demo_rule_exec demo_env (demo_options failing_rule) demo_world")
  obtain res where res: "r = Ret res" using failing_run(1) run by simp
  have "cleanupHook (hooks (optRule (demo_options failing_rule))) \<noteq> None"
    by (simp add: demo_options_def failing_rule_def demo_rule_def demo_hooks_def)
  from cleanup_unless_beforeAll_fails [OF demo_local_options this run [unfolded res]] failing_run(2) run
  show ?thesis by auto
qed


section \<open>Validated output\<close>

text \<open>The transport of an environment does not touch the rows the rule has extracted.\<close>

definition same_rows :: "'w st \<Rightarrow> 'w st \<Rightarrow> bool" where
  "same_rows s s' \<longleftrightarrow> extracted (fst s') = extracted (fst s)"

definition quiet_transport :: "'w env \<Rightarrow> bool" where
  "quiet_transport env \<longleftrightarrow> (\<forall>v b. holds same_rows (sendResult env v b)) \<and> (\<forall>l m x. holds same_rows (sendLog env l m x))
     \<and> (\<forall>st m. holds same_rows (sendStatus env st m)) \<and> (\<forall>v. holds same_rows (sendSnapshot env v))
     \<and> (\<forall>n t. holds same_rows (saveSnapshot env n t))"

text \<open>What the end of a run may do: neither touch the rows nor turn a failure into a success\<close>

definition settled :: "'w rst \<Rightarrow> 'w rst \<Rightarrow> bool" where
  "settled s s' \<longleftrightarrow> same_rows s s' \<and> (rStatus (locals (snd s')) = Success \<longrightarrow> rStatus (locals (snd s)) = Success)"

interpretation settling: state_discipline settled
  by unfold_locales (auto simp: settled_def same_rows_def)

lemma settled_kept: "holds same_rows m \<Longrightarrow> eff (keeps locals) 0 m \<Longrightarrow> holds settled m"
  by (rule holdsI, unfold settled_def) (metis holdsD keeps_stateD)

lemma settled_lift_run:
  assumes "holds same_rows m" shows "holds settled (lift_run m)"
proof (rule settled_kept [OF _ keeps_lift_run], rule holdsI)
  fix s r s' assume run: "lift_run m s = (r, s' :: 'a run_world st)"
  obtain r1 s1 where "m (fst s, inner (snd s)) = (r1, s1)" by (cases "m (fst s, inner (snd s))")
  with holdsD [OF assms this] run show "same_rows s s'"
    by (cases s; cases s1) (auto simp: lift_run_def same_rows_def)
qed

lemma settled_modify_buffer: "holds settled (modify_buffer f)"
  by (auto simp: holds_def settled_def same_rows_def modify_buffer_def)

lemma settled_flush:
  assumes "quiet_transport env" shows "holds settled (flush env)"
proof -
  have batch: "holds settled (send_batch env items)" for items
    using assms unfolding send_batch_def quiet_transport_def
    by (intro settling.holds_catchR settling.holds_thenR settled_lift_run settled_modify_buffer settling.holds_pure) blast
  have "holds settled (doFlush_loop n env)" for n
  proof (induction n)
    case (Suc n)
    have 1: "holds settled (thenR (send_batch env items) (doFlush_loop n env))"
      and 2: "holds settled (thenR (modify_buffer f) (thenR (send_batch env items) (doFlush_loop n env)))" for items f
      by (intro settling.holds_thenR settled_modify_buffer batch Suc.IH)+
    show ?case
      by (rule holdsI)
        (auto simp: settling.stay split: option.splits if_splits dest: holdsD [OF 1] holdsD [OF 2])
  qed (simp add: settling.holds_pure)
  then show ?thesis by (simp add: flush_def)
qed

text \<open>The services of the environment of a run, as its end uses them\<close>

lemma settled_services:
  fixes env :: "'w env"
  assumes "quiet_transport env"
  shows "holds settled (sendLog (run_env rl env) l m x)" "holds settled (sendSnapshot (run_env rl env) v)"
    "holds settled (saveSnapshot (run_env rl env) n t)" "holds settled (sendStatus (run_env rl env) st m)"
    "holds settled (sendResult (run_env rl env) v True)"
proof -
  have lift: "holds settled (lift_run (sendLog env l m x))" for l m x
    using assms by (simp add: quiet_transport_def settled_lift_run)
  have "holds settled (\<lambda>s. lift_run (sendLog env l m (tagged_extra (tags (fst s)) x)) s)" for l m x
    by (rule holds_fun) (rule lift)
  then show "holds settled (sendLog (run_env rl env) l m x)"
    by (auto simp: run_env_def tagged_env_def buffering_env_def lift_env_def split: option.split)
qed (use assms in \<open>auto simp: run_env_def tagged_env_def buffering_env_def lift_env_def buffered_sendResult_def
   quiet_transport_def settled_lift_run split: option.split\<close>)

lemma settled_markFatalError:
  assumes "quiet_transport env" shows "holds settled (markFatalError (run_env rl env) rl err)"
proof -
  let ?e = "run_env rl env"
  have shot: "holds settled (thenR (set_locals (\<lambda>l. l\<lparr>screenshotCaptured := True\<rparr>))
      (catchR (bindR (saveSnapshot ?e ''error'' ''html'') (\<lambda>snap. whenR (truthy snap) (sendSnapshot ?e snap)))
        (\<lambda>e. sendLog ?e ''warn'' ''screenshotOnError failed'' (Some [(''error'', JStr (exn_message e))]))))"
    by (intro settling.holds_thenR settling.holds_catchR settling.holds_bindR settling.holds_whenR settled_services assms)
      (auto simp: holds_def settled_def same_rows_def set_locals_def)
  have fail: "holds settled (set_locals (\<lambda>l. l\<lparr>fatalError := Some err, rStatus := Failure, rMessage := errMessage err\<rparr>))"
    by (auto simp: holds_def settled_def same_rows_def set_locals_def)
  show ?thesis
    unfolding markFatalError_def
    by (intro settling.holds_thenR fail, rule holdsI)
      (auto simp: settling.stay split: if_splits dest: holdsD [OF shot])
qed

lemma markFatalError_fails:
  assumes "quiet_transport env" and "markFatalError (run_env rl env) rl err s = (r, s')"
  shows "rStatus (locals (snd s')) \<noteq> Success"
proof -
  let ?set = "set_locals (\<lambda>l. l\<lparr>fatalError := Some err, rStatus := Failure, rMessage := errMessage err\<rparr>)"
  have "markFatalError (run_env rl env) rl err (snd (?set s)) = (r, s')"
    using assms(2) by (cases s) (simp add: markFatalError_def thenR_apply set_locals_def)
  from holdsD [OF settled_markFatalError [OF assms(1)] this]
  show ?thesis by (cases s) (simp add: settled_def set_locals_def)
qed

lemma settled_drain_buffer:
  assumes "quiet_transport env" shows "holds settled (drain_buffer env (run_env rl env) rl)"
proof -
  have drain: "holds settled (drain pol env b)" for pol b
    unfolding drain_def dispose_def
    by (intro settling.holds_finallyR settled_modify_buffer) (simp add: settled_flush assms settled_modify_buffer)
  have "holds settled (catchR (drain pol env b)
            (\<lambda>e. thenR (log_error (run_env rl env) ''error'' ''sendPolicy drain failed'' (exn_message e))
               (markFatalError (run_env rl env) rl (plain_error ''TransportError'' (''sendPolicy drain failed: '' @ exn_message e)))))" for pol b
    unfolding log_error_def
    by (intro settling.holds_catchR settling.holds_thenR drain settled_services settled_markFatalError assms)
  then show ?thesis
    unfolding drain_buffer_def by (auto simp: settling.holds_pure split: option.split intro: holds_fun)
qed

text \<open>An output check after which the run is still successful found the rows valid.\<close>

lemma check_output_valid:
  assumes "quiet_transport env" and "check_output (run_env rl env) rl s = (Ret (), s')"
    and "rStatus (locals (snd s')) = Success" and "outputSchema rl = Some schema" "truthy schema"
    and "outputOnInvalid rl \<noteq> Some ''warn''"
  shows "s' = s \<and> (\<exists>sc. schema = JObj sc \<and> validateNode (regexTest env) (JObj (extracted (fst s))) sc ''data'' = Inr [])"
proof -
  let ?e = "run_env rl env"
  let ?mode = "case outputOnInvalid rl of None \<Rightarrow> ''fail'' | Some x \<Rightarrow> x"
  have mode: "?mode \<noteq> ''warn''" using assms(6) by (auto split: option.splits)
  have rx: "regexTest ?e = regexTest env"
    by (auto simp: run_env_def tagged_env_def buffering_env_def lift_env_def split: option.split)
  have fails: False if "markFatalError ?e rl err s1 = (r, s')" for err s1 r
    using markFatalError_fails [OF assms(1) that] assms(3) by simp
  have run: "catchR
            (bindR (\<lambda>s. validateOutput ?e (JObj (extracted (fst s))) schema ?mode s)
              (\<lambda>(valid, errors). if valid then returnR ()
                 else markFatalError ?e rl
                   (plain_error ''ValidationError'' (''output: '' @ (case errors of None \<Rightarrow> ''undefined'' | Some t \<Rightarrow> t)))))
            (\<lambda>e. markFatalError ?e rl (plain_error ''ConfigError'' (''output schema compile failed: '' @ exn_message e))) s = (Ret (), s')"
    using assms(2,4,5) by (simp add: check_output_def)
  show ?thesis
  proof (cases "checkedSchema schema ''output schema''")
    case (Inl e)
    then show ?thesis using run by (auto simp: validateOutput_def catchR_apply bindR_apply dest: fails)
  next
    case (Inr sc)
    have sc: "schema = JObj sc" using Inr by blast
    show ?thesis
    proof (cases "validateNode (regexTest env) (JObj (extracted (fst s))) sc ''data''")
      case (Inl e)
      then show ?thesis using run Inr rx by (auto simp: validateOutput_def catchR_apply bindR_apply dest: fails)
    next
      case errs: (Inr es)
      show ?thesis
      proof (cases es)
        case Nil
        then show ?thesis using run Inr errs rx sc by (simp add: validateOutput_def catchR_apply bindR_apply)
      next
        case (Cons x xs)
        then have "markFatalError ?e rl (plain_error ''ValidationError'' (''output: '' @ join_strings '', '' es)) s = (Ret (), s') \<or>
            (\<exists>e s1. markFatalError ?e rl e s1 = (Ret (), s'))"
          using run Inr errs rx mode
          by (auto simp: validateOutput_def catchR_apply bindR_apply Let_def split: prod.splits outcome.splits)
        then show ?thesis by (blast dest: fails)
      qed
    qed
  qed
qed

lemma after_main_valid:
  fixes env :: "'w env" and opts :: "'w executor_options"
  defines "rl \<equiv> optRule opts"
  assumes quiet: "quiet_transport env"
    and run: "after_main env exec (run_env rl env) opts s = (Ret res, s')" and "resStatus res = Success"
    and "outputSchema rl = Some schema" "truthy schema" "outputOnInvalid rl \<noteq> Some ''warn''"
  shows "\<exists>sc. schema = JObj sc \<and> validateNode (regexTest env) (JObj (partialData res)) sc ''data'' = Inr []"
proof -
  let ?e = "run_env rl env"
  obtain s3 s4 s5 where 4: "check_output ?e rl s3 = (Ret (), s4)" and 5: "drain_buffer env ?e rl s4 = (Ret (), s5)"
      and 6: "report_result ?e (optTaskId opts) s5 = (Ret res, s')"
    using run unfolding after_main_def Let_def rl_def by (blast dest: thenR_RetD)
  obtain s6 where 7: "sendResult ?e (JObj [(''__final'', JBool True), (''taskId'', JStr (optTaskId opts))]) True s5 = (Ret (), s6)"
      and res: "resStatus res = rStatus (locals (snd s6))" "partialData res = extracted (fst s6)"
    using 6 unfolding report_result_def
    by (auto simp: thenR_apply locals_of_def Let_def split: prod.splits outcome.splits)
  have end_: "settled s4 s6"
    by (rule settling.step [OF holdsD [OF settled_drain_buffer [OF quiet] 5] holdsD [OF settled_services(5) [OF quiet] 7]])
  then have "rStatus (locals (snd s4)) = Success" using assms(4) res by (simp add: settled_def)
  from check_output_valid [OF quiet 4 this assms(5-7)] end_ res(2) show ?thesis
    by (simp add: settled_def same_rows_def)
qed



lemma demo_quiet: "quiet_transport demo_env"
  by (auto simp: quiet_transport_def holds_def same_rows_def demo_env_def demo_event_def)

definition checked_rule :: rule where
  "checked_rule = (demo_rule [leaf_step ''note'' ''a''] demo_hooks)
     \<lparr>outputSchema := Some (JObj [(''type'', JStr ''object'')])\<rparr>"

definition returned_status :: "execution_result outcome \<Rightarrow> run_status option" where
  "returned_status r = (case r of Ret x \<Rightarrow> Some (resStatus x) | Throw _ \<Rightarrow> None)"

lemma checked_run:
  "returned_status (fst (runRule demo_rule_exec demo_env (demo_options checked_rule) demo_world)) = Some Success"
  by code_simp



section \<open>Cancellation and checkpoints of concrete runs\<close>

definition no_hooks :: rule_hooks where
  "no_hooks = \<lparr>beforeAll = None, afterAll = None, onErrorHook = None, cleanupHook = None\<rparr>"

text \<open>Cancelling a run in a top-level step is reported as \<open>cancelled\<close>, while cancelling it in a
  step of a group, in a rule without hooks, is reported as \<open>failure\<close>.\<close>

theorem cancellation_in_group_reported_as_failure:
  "returned_status (fst (demo_result (demo_rule [leaf_step ''stop'' '''', leaf_step ''note'' ''b''] no_hooks)))
     = Some Cancelled
   \<and> returned_status (fst (demo_result (demo_rule
       [GroupA empty_base [leaf_step ''stop'' '''', leaf_step ''note'' ''b'']] no_hooks))) = Some Failure"
  by code_simp

text \<open>The checkpoints a run hands to its host do not only advance: after the steps, each hook
  hands over the path the run was started with, so that the last checkpoint of a run with a
  cleanup hook is again the empty path.\<close>

theorem hook_checkpoints_move_back:
  "completed (snd (demo_result (demo_rule [leaf_step ''note'' ''a'', leaf_step ''note'' ''b''] demo_hooks)))
     = [EMPTY_PATH, [TopFrame 0], [TopFrame 1], EMPTY_PATH, EMPTY_PATH]
   \<and> comparePath EMPTY_PATH [TopFrame 1] < 0"
  by code_simp

end
