(* ===== verification/Json.thy ===== *)
theory Json
  imports Js_Value
begin

text \<open>
  The serialisations of the standard library the transports use: \<open>JSON.stringify\<close> and
  \<open>encodeURIComponent\<close>. \<open>None\<close> stands for the \<open>undefined\<close> that \<open>JSON.stringify\<close> returns for
  \<open>undefined\<close>; property values that are undefined are left out, array elements become \<open>null\<close>.
\<close>

definition hex_digit :: "nat \<Rightarrow> char" where
  "hex_digit n = ''0123456789abcdef'' ! (n mod 16)"

definition hex_upper :: "nat \<Rightarrow> char" where
  "hex_upper n = ''0123456789ABCDEF'' ! (n mod 16)"

definition json_char :: "char \<Rightarrow> string" where
  "json_char c =
     (let n = of_char c :: nat in
      if n = 34 then [CHR 0x5C, CHR 0x22]
      else if n = 92 then [CHR 0x5C, CHR 0x5C]
      else if n = 8 then [CHR 0x5C, CHR ''b'']
      else if n = 9 then [CHR 0x5C, CHR ''t'']
      else if n = 10 then [CHR 0x5C, CHR ''n'']
      else if n = 12 then [CHR 0x5C, CHR ''f'']
      else if n = 13 then [CHR 0x5C, CHR ''r'']
      else if n < 32 then CHR 0x5C # ''u00'' @ [hex_digit (n div 16), hex_digit n]
      else [c])"

definition json_quote :: "string \<Rightarrow> string" where
  "json_quote s = CHR 0x22 # concat (map json_char s) @ [CHR 0x22]"

fun json_text :: "jval \<Rightarrow> string option"
  and json_elems :: "jval list \<Rightarrow> string list"
  and json_fields :: "(string \<times> jval) list \<Rightarrow> string list" where
  "json_text JUndef = None"
| "json_text JNull = Some ''null''"
| "json_text (JBool b) = Some (if b then ''true'' else ''false'')"
| "json_text (JNum n) = Some (if num_is_finite n then num_to_string n else ''null'')"
| "json_text (JStr s) = Some (json_quote s)"
| "json_text (JArr vs) = Some (''['' @ join_strings '','' (json_elems vs) @ '']'')"
| "json_text (JObj fs) = Some (''{'' @ join_strings '','' (json_fields fs) @ ''}'')"
| "json_elems [] = []"
| "json_elems (v # vs) = (case json_text v of None \<Rightarrow> ''null'' | Some t \<Rightarrow> t) # json_elems vs"
| "json_fields [] = []"
| "json_fields ((k, v) # fs) =
     (case json_text v of None \<Rightarrow> json_fields fs | Some t \<Rightarrow> (json_quote k @ '':'' @ t) # json_fields fs)"

text \<open>\<open>JSON.stringify(v)?.length ?? 0\<close>\<close>

definition json_length :: "jval \<Rightarrow> int" where
  "json_length v = (case json_text v of None \<Rightarrow> 0 | Some t \<Rightarrow> int (length t))"


section \<open>Percent encoding\<close>

definition alnum :: "char \<Rightarrow> bool" where
  "alnum c \<longleftrightarrow> (let n = of_char c :: nat in (48 \<le> n \<and> n \<le> 57) \<or> (65 \<le> n \<and> n \<le> 90) \<or> (97 \<le> n \<and> n \<le> 122))"

text \<open>The UTF-8 bytes of a code unit below 256\<close>

definition utf8_bytes :: "char \<Rightarrow> nat list" where
  "utf8_bytes c = (let n = of_char c :: nat in if n < 128 then [n] else [192 + n div 64, 128 + n mod 64])"

definition percent_byte :: "nat \<Rightarrow> string" where
  "percent_byte n = CHR ''%'' # [hex_upper (n div 16), hex_upper n]"

definition encodeURIComponent :: "string \<Rightarrow> string" where
  "encodeURIComponent s =
     concat (map (\<lambda>c. if alnum c \<or> c \<in> set (CHR 0x27 # ''-_.!~*()'') then [c] else concat (map percent_byte (utf8_bytes c))) s)"

text \<open>The serialisation of \<open>URLSearchParams\<close>\<close>

definition form_encode :: "string \<Rightarrow> string" where
  "form_encode s =
     concat (map (\<lambda>c. if c = CHR '' '' then ''+'' else if alnum c \<or> c \<in> set ''*-._'' then [c]
                      else concat (map percent_byte (utf8_bytes c))) s)"

definition search_params :: "(string \<times> string) list \<Rightarrow> string" where
  "search_params ps = join_strings ''&'' (map (\<lambda>(k, v). form_encode k @ ''='' @ form_encode v) ps)"


section \<open>Decimal numerals\<close>

text \<open>Reading the digits of a number back gives the number, so numerals name their numbers.\<close>

lemma digits_value_snoc: "digits_value b val (s @ [c]) = b * digits_value b val s + val c"
  by (simp add: digits_value_def)

lemma digit_of_less_10: "d < 10 \<Longrightarrow> dec_val (digit_of d) = d \<and> digit_char (digit_of d)"
proof -
  assume "d < 10"
  then have "d \<in> set [0, 1, 2, 3, 4, 5, 6, 7, 8, 9]" by auto
  moreover have "\<forall>d \<in> set [0, 1, 2, 3, 4, 5, 6, 7, 8, 9]. dec_val (digit_of d) = d \<and> digit_char (digit_of d)"
    by code_simp
  ultimately show ?thesis by blast
qed

lemma show_digits_value: "digits_value 10 dec_val (show_digits n) = n \<and> list_all digit_char (show_digits n)"
proof (induction n rule: show_digits.induct)
  case (1 n)
  show ?case
  proof (cases "n < 10")
    case True
    then show ?thesis using digit_of_less_10 by (simp add: show_digits.simps [of n] digits_value_def)
  next
    case False
    then show ?thesis
      using 1 digit_of_less_10 [of "n mod 10"] by (simp add: show_digits.simps [of n] digits_value_snoc)
  qed
qed

lemma show_int_nat: "0 \<le> q \<Longrightarrow> digits_value 10 dec_val (show_int q) = nat q \<and> list_all digit_char (show_int q)"
  using show_digits_value by (simp add: show_int_def)

lemma show_int_inject: "0 \<le> p \<Longrightarrow> 0 \<le> q \<Longrightarrow> show_int p = show_int q \<longleftrightarrow> p = q"
  using show_int_nat [of p] show_int_nat [of q] by auto

end
