(* ===== verification/Bridge_Protocol.thy ===== *)
theory Bridge_Protocol
  imports Runtime Json
begin

text \<open>
  Model of \<open>src/worker-host/bridge-protocol.ts\<close>: the validation of the calls a page makes to its
  host. A rejected call is a \<open>BridgeValidationError\<close>, here its message on the left of a sum. The
  payload of a call is a JSON value: the cyclic values \<open>JSON.stringify\<close> throws on cannot occur.
\<close>

section \<open>Calls\<close>

definition MAX_BRIDGE_PAYLOAD_BYTES :: int where
  "MAX_BRIDGE_PAYLOAD_BYTES = 1024 * 1024"

definition MAX_BRIDGE_STRING :: int where
  "MAX_BRIDGE_STRING = 64 * 1024"

record complete_payload =
  cpStatus :: run_status
  cpMessage :: "string option"
  cpError :: "(string option \<times> string option) option"
  cpPartialData :: jval

text \<open>The frames of a step path are checked only for a \<open>kind\<close> and a numeric \<open>childIdx\<close>.\<close>

record checkpoint_context =
  ccTaskId :: string
  ccLastCompleted :: "jval list"
  ccExtracted :: jobj
  ccEvaluated :: jobj
  ccCaptured :: jobj

record bridge_human =
  bhType :: string
  bhPrompt :: string
  bhTimeoutMs :: jnum
  bhStepId :: string
  bhUrl :: string

datatype bridge_call =
    SendResult jval bool
  | SendLog string string "jobj option"
  | SendStatus string "string option"
  | SendSnapshot string string string
  | SendHeartbeat "jobj option"
  | RequestHuman bridge_human
  | CheckpointContext checkpoint_context
  | Complete complete_payload

type_synonym 'a checked = "string + 'a"

definition bind_checked :: "'a checked \<Rightarrow> ('a \<Rightarrow> 'b checked) \<Rightarrow> 'b checked" where
  "bind_checked m k = (case m of Inl e \<Rightarrow> Inl e | Inr a \<Rightarrow> k a)"

lemma bind_checked_simps [simp]:
  "bind_checked (Inl e) k = Inl e" "bind_checked (Inr a) k = k a"
  by (simp_all add: bind_checked_def)

lemma bind_checked_Inr:
  "bind_checked m k = Inr b \<longleftrightarrow> (\<exists>a. m = Inr a \<and> k a = Inr b)"
  by (simp add: bind_checked_def split: sum.split)


section \<open>Fields\<close>

definition requireString :: "jval \<Rightarrow> string \<Rightarrow> bool \<Rightarrow> string checked" where
  "requireString v field nonEmpty =
     (case v of
        JStr s \<Rightarrow>
          if nonEmpty \<and> length s = 0 then Inl (field @ '' must be a non-empty string'')
          else if int (length s) > MAX_BRIDGE_STRING then Inl (field @ '' exceeds the string budget'')
          else Inr s
      | _ \<Rightarrow> Inl (field @ '' must be a string''))"

definition optionalString :: "jval \<Rightarrow> string \<Rightarrow> string option checked" where
  "optionalString v field =
     (if is_nullish v then Inr None else bind_checked (requireString v field False) (\<lambda>s. Inr (Some s)))"

definition well_formed_frame :: "jval \<Rightarrow> bool" where
  "well_formed_frame f = (case f of JObj fs \<Rightarrow> is_string (obj_get fs ''kind'') \<and> is_number (obj_get fs ''childIdx'') | _ \<Rightarrow> False)"

definition requireStepPath :: "jval \<Rightarrow> string \<Rightarrow> jval list checked" where
  "requireStepPath v field =
     (case v of
        JArr fs \<Rightarrow> if list_all well_formed_frame fs then Inr fs else Inl (field @ '' contains a malformed frame'')
      | _ \<Rightarrow> Inl (field @ '' must be an array''))"

definition requireRecord :: "jval \<Rightarrow> string \<Rightarrow> jobj checked" where
  "requireRecord v field = (case v of JObj fs \<Rightarrow> Inr fs | _ \<Rightarrow> Inl (field @ '' must be an object''))"

text \<open>\<open>v === undefined || v === null ? undefined : requireRecord(v, field)\<close>\<close>

definition optionalRecord :: "jval \<Rightarrow> string \<Rightarrow> jobj option checked" where
  "optionalRecord v field =
     (if is_nullish v then Inr None else bind_checked (requireRecord v field) (\<lambda>fs. Inr (Some fs)))"


section \<open>Methods\<close>

definition validateSendResult :: "jval \<Rightarrow> bridge_call checked" where
  "validateSendResult raw =
     bind_checked (requireRecord raw ''sendResult payload'')
       (\<lambda>p. Inr (SendResult (obj_get p ''payload'') (obj_get p ''immediate'' = JBool True)))"

definition validateSendLog :: "jval \<Rightarrow> bridge_call checked" where
  "validateSendLog raw =
     bind_checked (requireRecord raw ''sendLog payload'')
    (\<lambda>p. bind_checked (requireString (obj_get p ''level'') ''sendLog.level'' True)
    (\<lambda>level. bind_checked (requireString (obj_get p ''message'') ''sendLog.message'' False)
    (\<lambda>message. bind_checked (optionalRecord (obj_get p ''extra'') ''sendLog.extra'')
    (\<lambda>extra. Inr (SendLog level message extra)))))"

definition validateSendStatus :: "jval \<Rightarrow> bridge_call checked" where
  "validateSendStatus raw =
     bind_checked (requireRecord raw ''sendStatus payload'')
    (\<lambda>p. bind_checked (requireString (obj_get p ''status'') ''sendStatus.status'' True)
    (\<lambda>status. bind_checked (optionalString (obj_get p ''message'') ''sendStatus.message'')
    (\<lambda>message. Inr (SendStatus status message))))"

definition SNAPSHOT_TYPES :: "string list" where
  "SNAPSHOT_TYPES = [''html'', ''dom'', ''screenshot'']"

definition validateSendSnapshot :: "jval \<Rightarrow> bridge_call checked" where
  "validateSendSnapshot raw =
     bind_checked (requireRecord raw ''sendSnapshot payload'')
    (\<lambda>p. bind_checked (requireString (obj_get p ''name'') ''sendSnapshot.name'' True)
    (\<lambda>name. case obj_get p ''type'' of
       JStr t \<Rightarrow>
         if t \<in> set SNAPSHOT_TYPES
         then bind_checked (requireString (obj_get p ''data'') ''sendSnapshot.data'' False)
           (\<lambda>data. Inr (SendSnapshot name t data))
         else Inl ''sendSnapshot.type must be html, dom, or screenshot''
     | _ \<Rightarrow> Inl ''sendSnapshot.type must be html, dom, or screenshot''))"

definition validateSendHeartbeat :: "jval \<Rightarrow> bridge_call checked" where
  "validateSendHeartbeat raw =
     bind_checked (if is_nullish raw then Inr [] else requireRecord raw ''sendHeartbeat payload'')
    (\<lambda>p. bind_checked (optionalRecord (obj_get p ''payload'') ''sendHeartbeat.payload'')
    (\<lambda>inner. Inr (SendHeartbeat inner)))"

definition HUMAN_TYPES :: "string list" where
  "HUMAN_TYPES = [''captcha'', ''2fa'', ''confirmation'', ''generic'']"

definition positive_finite :: "jnum \<Rightarrow> bool" where
  "positive_finite n \<longleftrightarrow> num_is_finite n \<and> \<not> num_le n (Fin 0)"

definition validateRequestHuman :: "jval \<Rightarrow> bridge_call checked" where
  "validateRequestHuman raw =
     bind_checked (requireRecord raw ''requestHuman payload'')
    (\<lambda>p. case obj_get p ''type'' of
       JStr t \<Rightarrow>
         if t \<in> set HUMAN_TYPES
         then bind_checked (requireString (obj_get p ''prompt'') ''requestHuman.prompt'' True)
          (\<lambda>prompt. case obj_get p ''timeoutMs'' of
             JNum n \<Rightarrow>
               if positive_finite n
               then bind_checked (requireRecord (obj_get p ''checkpoint'') ''requestHuman.checkpoint'')
                (\<lambda>c. bind_checked (requireString (obj_get c ''stepId'') ''requestHuman.checkpoint.stepId'' True)
                (\<lambda>stepId. bind_checked (requireString (obj_get c ''url'') ''requestHuman.checkpoint.url'' True)
                (\<lambda>url. Inr (RequestHuman \<lparr>bhType = t, bhPrompt = prompt, bhTimeoutMs = n,
                               bhStepId = stepId, bhUrl = url\<rparr>))))
               else Inl ''requestHuman.timeoutMs must be a positive number''
           | _ \<Rightarrow> Inl ''requestHuman.timeoutMs must be a positive number'')
         else Inl ''requestHuman.type is not a supported intervention type''
     | _ \<Rightarrow> Inl ''requestHuman.type is not a supported intervention type'')"

definition validateCheckpointContext :: "jval \<Rightarrow> bridge_call checked" where
  "validateCheckpointContext raw =
     bind_checked (requireRecord raw ''checkpointContext payload'')
    (\<lambda>p. bind_checked (requireString (obj_get p ''taskId'') ''checkpointContext.taskId'' True)
    (\<lambda>tid. bind_checked (requireStepPath (obj_get p ''lastCompletedStepPath'') ''checkpointContext.lastCompletedStepPath'')
    (\<lambda>path. bind_checked (requireRecord (coalesce (obj_get p ''extracted'') (JObj [])) ''checkpointContext.extracted'')
    (\<lambda>ex. bind_checked (requireRecord (coalesce (obj_get p ''evaluated'') (JObj [])) ''checkpointContext.evaluated'')
    (\<lambda>ev. bind_checked (requireRecord (coalesce (obj_get p ''captured'') (JObj [])) ''checkpointContext.captured'')
    (\<lambda>ca. Inr (CheckpointContext \<lparr>ccTaskId = tid, ccLastCompleted = path, ccExtracted = ex,
                   ccEvaluated = ev, ccCaptured = ca\<rparr>)))))))"

definition complete_status :: "jval \<Rightarrow> run_status option" where
  "complete_status v =
     (if v = JStr ''success'' then Some Success else if v = JStr ''failure'' then Some Failure
      else if v = JStr ''cancelled'' then Some Cancelled else None)"

definition validate_complete_error :: "jval \<Rightarrow> (string option \<times> string option) option checked" where
  "validate_complete_error v =
     (if is_nullish v then Inr None
      else bind_checked (requireRecord v ''complete.error'')
        (\<lambda>e. bind_checked (optionalString (obj_get e ''type'') ''complete.error.type'')
        (\<lambda>t. bind_checked (optionalString (obj_get e ''message'') ''complete.error.message'')
        (\<lambda>m. Inr (Some (t, m))))))"

definition validateComplete :: "jval \<Rightarrow> bridge_call checked" where
  "validateComplete raw =
     bind_checked (requireRecord raw ''complete payload'')
    (\<lambda>p. case complete_status (obj_get p ''status'') of
       None \<Rightarrow> Inl ''complete.status must be success, failure, or cancelled''
     | Some st \<Rightarrow>
         bind_checked (validate_complete_error (obj_get p ''error''))
        (\<lambda>err. bind_checked (optionalString (obj_get p ''message'') ''complete.message'')
        (\<lambda>m. Inr (Complete \<lparr>cpStatus = st, cpMessage = m, cpError = err, cpPartialData = obj_get p ''partialData''\<rparr>))))"

definition VALIDATORS :: "(string \<times> (jval \<Rightarrow> bridge_call checked)) list" where
  "VALIDATORS =
     [(''sendResult'', validateSendResult), (''sendLog'', validateSendLog), (''sendStatus'', validateSendStatus),
      (''sendSnapshot'', validateSendSnapshot), (''sendHeartbeat'', validateSendHeartbeat),
      (''requestHuman'', validateRequestHuman), (''checkpointContext'', validateCheckpointContext),
      (''complete'', validateComplete)]"

definition BRIDGE_METHODS :: "string list" where
  "BRIDGE_METHODS = al_keys VALIDATORS"

definition validateBridgeCall :: "jval \<Rightarrow> jval \<Rightarrow> bridge_call checked" where
  "validateBridgeCall meth raw =
     (case meth of
        JStr m \<Rightarrow>
          (case map_of VALIDATORS m of
             None \<Rightarrow> Inl (''unknown bridge method: '' @ js_String meth)
           | Some validate \<Rightarrow>
               if json_length raw > MAX_BRIDGE_PAYLOAD_BYTES
               then Inl (''bridge payload exceeds the '' @ show_int MAX_BRIDGE_PAYLOAD_BYTES @ ''-byte budget'')
               else validate raw)
      | _ \<Rightarrow> Inl (''unknown bridge method: '' @ js_String meth))"


section \<open>Sanitised copies\<close>

fun call_method :: "bridge_call \<Rightarrow> string" where
  "call_method (SendResult _ _) = ''sendResult''"
| "call_method (SendLog _ _ _) = ''sendLog''"
| "call_method (SendStatus _ _) = ''sendStatus''"
| "call_method (SendSnapshot _ _ _) = ''sendSnapshot''"
| "call_method (SendHeartbeat _) = ''sendHeartbeat''"
| "call_method (RequestHuman _) = ''requestHuman''"
| "call_method (CheckpointContext _) = ''checkpointContext''"
| "call_method (Complete _) = ''complete''"

definition opt_string :: "string option \<Rightarrow> jval" where
  "opt_string x = (case x of None \<Rightarrow> JUndef | Some s \<Rightarrow> JStr s)"

definition opt_record :: "jobj option \<Rightarrow> jval" where
  "opt_record x = (case x of None \<Rightarrow> JUndef | Some fs \<Rightarrow> JObj fs)"

text \<open>The payload object of a validated call, with the fields the validators build\<close>

fun call_payload :: "bridge_call \<Rightarrow> jval" where
  "call_payload (SendResult v imm) = JObj [(''payload'', v), (''immediate'', JBool imm)]"
| "call_payload (SendLog l m x) = JObj [(''level'', JStr l), (''message'', JStr m), (''extra'', opt_record x)]"
| "call_payload (SendStatus st m) = JObj [(''status'', JStr st), (''message'', opt_string m)]"
| "call_payload (SendSnapshot n t d) = JObj [(''name'', JStr n), (''type'', JStr t), (''data'', JStr d)]"
| "call_payload (SendHeartbeat x) = JObj [(''payload'', opt_record x)]"
| "call_payload (RequestHuman h) =
     JObj [(''type'', JStr (bhType h)), (''prompt'', JStr (bhPrompt h)), (''timeoutMs'', JNum (bhTimeoutMs h)),
           (''checkpoint'', JObj [(''stepId'', JStr (bhStepId h)), (''url'', JStr (bhUrl h))])]"
| "call_payload (CheckpointContext c) =
     JObj [(''taskId'', JStr (ccTaskId c)), (''lastCompletedStepPath'', JArr (ccLastCompleted c)),
           (''extracted'', JObj (ccExtracted c)), (''evaluated'', JObj (ccEvaluated c)), (''captured'', JObj (ccCaptured c))]"
| "call_payload (Complete p) =
     JObj [(''status'', JStr (status_string (cpStatus p))), (''message'', opt_string (cpMessage p)),
           (''error'', case cpError p of None \<Rightarrow> JUndef
                       | Some (t, m) \<Rightarrow> JObj [(''type'', opt_string t), (''message'', opt_string m)]),
           (''partialData'', cpPartialData p)]"


section \<open>What a validated call satisfies\<close>

definition budget :: "string \<Rightarrow> bool" where
  "budget s \<longleftrightarrow> int (length s) \<le> MAX_BRIDGE_STRING"

definition budget1 :: "string \<Rightarrow> bool" where
  "budget1 s \<longleftrightarrow> s \<noteq> [] \<and> budget s"

definition budget_opt :: "string option \<Rightarrow> bool" where
  "budget_opt x \<longleftrightarrow> (case x of None \<Rightarrow> True | Some s \<Rightarrow> budget s)"

fun call_wf :: "bridge_call \<Rightarrow> bool" where
  "call_wf (SendResult _ _) = True"
| "call_wf (SendLog l m _) = (budget1 l \<and> budget m)"
| "call_wf (SendStatus st m) = (budget1 st \<and> budget_opt m)"
| "call_wf (SendSnapshot n t d) = (budget1 n \<and> t \<in> set SNAPSHOT_TYPES \<and> budget d)"
| "call_wf (SendHeartbeat _) = True"
| "call_wf (RequestHuman h) = (bhType h \<in> set HUMAN_TYPES \<and> budget1 (bhPrompt h)
     \<and> positive_finite (bhTimeoutMs h) \<and> budget1 (bhStepId h) \<and> budget1 (bhUrl h))"
| "call_wf (CheckpointContext c) = (budget1 (ccTaskId c) \<and> list_all well_formed_frame (ccLastCompleted c))"
| "call_wf (Complete p) = (budget_opt (cpMessage p) \<and>
     (case cpError p of None \<Rightarrow> True | Some (t, m) \<Rightarrow> budget_opt t \<and> budget_opt m))"

named_theorems bridge_simps \<open>when the checks of a field succeed\<close>

lemma requireString_Inr [bridge_simps]:
  "requireString v f ne = Inr s \<longleftrightarrow> v = JStr s \<and> (if ne then budget1 s else budget s)"
  by (auto simp: requireString_def budget1_def budget_def split: jval.split)

lemma optionalString_Inr [bridge_simps]:
  "optionalString v f = Inr x \<longleftrightarrow> (is_nullish v \<and> x = None \<or> (\<exists>s. v = JStr s \<and> x = Some s \<and> budget s))"
  by (auto simp: optionalString_def bind_checked_Inr requireString_Inr)

lemma requireRecord_Inr [bridge_simps]: "requireRecord v f = Inr fs \<longleftrightarrow> v = JObj fs"
  by (auto simp: requireRecord_def split: jval.split)

lemma optionalRecord_Inr [bridge_simps]:
  "optionalRecord v f = Inr x \<longleftrightarrow> (is_nullish v \<and> x = None \<or> (\<exists>fs. v = JObj fs \<and> x = Some fs))"
  by (auto simp: optionalRecord_def bind_checked_Inr requireRecord_Inr)

lemma requireStepPath_Inr [bridge_simps]:
  "requireStepPath v f = Inr fs \<longleftrightarrow> v = JArr fs \<and> list_all well_formed_frame fs"
  by (auto simp: requireStepPath_def split: jval.split)

lemma validate_complete_error_Inr [bridge_simps]:
  "validate_complete_error v = Inr x \<longleftrightarrow> (is_nullish v \<and> x = None \<or>
     (\<exists>e t m. v = JObj e \<and> x = Some (t, m) \<and> optionalString (obj_get e ''type'') ''complete.error.type'' = Inr t
        \<and> optionalString (obj_get e ''message'') ''complete.error.message'' = Inr m))"
  by (auto simp: validate_complete_error_def bind_checked_Inr requireRecord_Inr)

lemma optionalString_budget: "optionalString v f = Inr x \<Longrightarrow> budget_opt x"
  by (auto simp: optionalString_Inr budget_opt_def)

lemma optionalString_opt_string: "budget_opt x \<Longrightarrow> optionalString (opt_string x) f = Inr x"
  by (cases x) (auto simp: optionalString_Inr opt_string_def budget_opt_def)

lemma optionalRecord_opt_record: "optionalRecord (opt_record x) f = Inr x"
  by (cases x) (auto simp: optionalRecord_Inr opt_record_def)

text \<open>Each validator accepts only well-formed calls of its own method.\<close>

lemma validators_wf:
  "validateSendResult raw = Inr c \<Longrightarrow> call_wf c \<and> call_method c = ''sendResult''"
  "validateSendLog raw = Inr c \<Longrightarrow> call_wf c \<and> call_method c = ''sendLog''"
  "validateSendStatus raw = Inr c \<Longrightarrow> call_wf c \<and> call_method c = ''sendStatus''"
  "validateSendHeartbeat raw = Inr c \<Longrightarrow> call_wf c \<and> call_method c = ''sendHeartbeat''"
  "validateCheckpointContext raw = Inr c \<Longrightarrow> call_wf c \<and> call_method c = ''checkpointContext''"
  by (auto simp: validateSendResult_def validateSendLog_def validateSendStatus_def
      validateSendHeartbeat_def validateCheckpointContext_def bind_checked_Inr bridge_simps budget_opt_def)

lemma validateSendSnapshot_wf:
  assumes "validateSendSnapshot raw = Inr c" shows "call_wf c \<and> call_method c = ''sendSnapshot''"
proof -
  obtain p where p: "raw = JObj p" using assms by (auto simp: validateSendSnapshot_def bind_checked_Inr bridge_simps)
  show ?thesis
    using assms p by (cases "obj_get p ''type''")
      (auto simp: validateSendSnapshot_def bind_checked_Inr bridge_simps split: if_splits)
qed

lemma validateRequestHuman_wf:
  assumes "validateRequestHuman raw = Inr c" shows "call_wf c \<and> call_method c = ''requestHuman''"
proof -
  obtain p where p: "raw = JObj p" using assms by (auto simp: validateRequestHuman_def bind_checked_Inr bridge_simps)
  show ?thesis
    using assms p by (cases "obj_get p ''type''"; cases "obj_get p ''timeoutMs''")
      (auto simp: validateRequestHuman_def bind_checked_Inr bridge_simps split: if_splits)
qed

lemma validateComplete_wf:
  assumes "validateComplete raw = Inr c" shows "call_wf c \<and> call_method c = ''complete''"
proof -
  obtain p st err m where c: "c = Complete \<lparr>cpStatus = st, cpMessage = m, cpError = err, cpPartialData = obj_get p ''partialData''\<rparr>"
    and err: "validate_complete_error (obj_get p ''error'') = Inr err"
    and m: "optionalString (obj_get p ''message'') ''complete.message'' = Inr m"
    using assms by (auto simp: validateComplete_def bind_checked_Inr split: option.splits)
  have "case err of None \<Rightarrow> True | Some (t, m) \<Rightarrow> budget_opt t \<and> budget_opt m"
    using err by (auto simp: validate_complete_error_Inr optionalString_budget)
  with c optionalString_budget [OF m] show ?thesis by simp
qed

lemmas all_validators_wf = validators_wf validateSendSnapshot_wf validateRequestHuman_wf validateComplete_wf

lemma validateBridgeCall_cases:
  assumes "validateBridgeCall meth raw = Inr c"
  obtains m validate where "meth = JStr m" "map_of VALIDATORS m = Some validate"
    "json_length raw \<le> MAX_BRIDGE_PAYLOAD_BYTES" "validate raw = Inr c"
  using assms by (auto simp: validateBridgeCall_def split: jval.splits option.splits if_splits)

lemma VALIDATORS_wf:
  assumes "map_of VALIDATORS m = Some validate" "validate raw = Inr c"
  shows "call_wf c \<and> call_method c = m"
  using assms by (auto simp: VALIDATORS_def dest: all_validators_wf split: if_splits)

text \<open>A call the host forwards is one of the eight methods, under the name the page called it by,
  and each of its fields has its declared type and fits the string budget.\<close>

theorem validated_call_wf:
  assumes "validateBridgeCall meth raw = Inr c"
  shows "meth = JStr (call_method c) \<and> call_method c \<in> set BRIDGE_METHODS \<and> call_wf c"
  using assms
proof (cases rule: validateBridgeCall_cases)
  case (1 m validate)
  then have "call_wf c \<and> call_method c = m" using VALIDATORS_wf by blast
  moreover have "m \<in> set BRIDGE_METHODS"
    using 1(2) by (auto simp: BRIDGE_METHODS_def al_keys_def dest!: map_of_SomeD intro: rev_image_eqI)
  ultimately show ?thesis using 1(1) by simp
qed

lemma complete_status_string: "complete_status (JStr (status_string st)) = Some st"
  by (cases st) (simp_all add: complete_status_def)

lemma obj_get_Cons [simp]: "obj_get ((k, v) # fs) j = (if j = k then v else obj_get fs j)"
  by (simp add: obj_get_def)

lemma well_formed_call_validates:
  "call_wf c \<Longrightarrow> \<exists>validate. map_of VALIDATORS (call_method c) = Some validate \<and> validate (call_payload c) = Inr c"
proof (cases c)
  case (Complete p)
  assume wf: "call_wf c"
  have "validate_complete_error (case cpError p of None \<Rightarrow> JUndef
          | Some (t, m) \<Rightarrow> JObj [(''type'', opt_string t), (''message'', opt_string m)]) = Inr (cpError p)"
    using wf Complete by (cases "cpError p") (auto simp: validate_complete_error_Inr optionalString_opt_string)
  then show ?thesis
    using wf Complete
    by (simp add: VALIDATORS_def validateComplete_def bind_checked_Inr requireRecord_Inr complete_status_string
        optionalString_opt_string)
next
  case (CheckpointContext cc)
  assume "call_wf c"
  then show ?thesis
    using CheckpointContext
    by (simp add: VALIDATORS_def validateCheckpointContext_def bind_checked_Inr bridge_simps coalesce_def)
qed (auto simp: VALIDATORS_def validateSendResult_def validateSendLog_def validateSendStatus_def
    validateSendSnapshot_def validateSendHeartbeat_def validateRequestHuman_def bind_checked_Inr
    requireString_Inr requireRecord_Inr optionalString_opt_string optionalRecord_opt_record)

text \<open>C14. Sanitising is faithful: the payload of every well-formed call, as the page side builds it,
  is accepted unchanged when it fits the byte budget.\<close>

theorem well_formed_call_roundtrip:
  assumes "call_wf c" and "json_length (call_payload c) \<le> MAX_BRIDGE_PAYLOAD_BYTES"
  shows "validateBridgeCall (JStr (call_method c)) (call_payload c) = Inr c"
  using well_formed_call_validates [OF assms(1)] assms(2) by (auto simp: validateBridgeCall_def)

lemma demo_log_call: "validateBridgeCall (JStr ''sendLog'')
    (JObj [(''level'', JStr ''info''), (''message'', JStr ''hi''), (''secret'', jint 1)]) = Inr (SendLog ''info'' ''hi'' None)"
  by code_simp

theorem validated_call_wf_witness:
  "validateBridgeCall (JStr ''sendLog'') (JObj [(''level'', JStr ''info''), (''message'', JStr ''hi''), (''secret'', jint 1)])
     = Inr (SendLog ''info'' ''hi'' None) \<and> call_wf (SendLog ''info'' ''hi'' None)"
  using validated_call_wf [OF demo_log_call] demo_log_call by blast

theorem well_formed_call_roundtrip_witness:
  "validateBridgeCall (JStr (call_method (SendStatus ''running'' None))) (call_payload (SendStatus ''running'' None))
     = Inr (SendStatus ''running'' None)"
proof (rule well_formed_call_roundtrip)
  show "call_wf (SendStatus ''running'' None)"
    by (simp add: budget1_def budget_def budget_opt_def MAX_BRIDGE_STRING_def)
  show "json_length (call_payload (SendStatus ''running'' None)) \<le> MAX_BRIDGE_PAYLOAD_BYTES"
    by code_simp
qed

end
