(* ===== verification/Url_Policy.thy ===== *)
theory Url_Policy
  imports Runtime
begin

text \<open>
  Model of \<open>src/worker-page/url-policy.ts\<close> and \<open>src/worker-page/resume-guard.ts\<close>: which URLs a run
  may enter and navigate to, and when an interrupted run may resume on the page that has loaded.
  The URL parser of the platform is a parameter: a function from a string to the parts of the URL,
  or to \<open>None\<close> where \<open>new URL\<close> throws.
\<close>

section \<open>Domains\<close>

record url =
  protocol :: string
  host :: string
  hostname :: string
  pathname :: string
  origin :: string

type_synonym url_parser = "string \<Rightarrow> url option"

text \<open>A single domain string is the list of that one string in \<^typ>\<open>rule\<close>.\<close>

definition ruleDomainList :: "rule \<Rightarrow> string list" where
  "ruleDomainList rl = domain rl"

definition hostMatchesDomain :: "string \<Rightarrow> string list \<Rightarrow> bool" where
  "hostMatchesDomain h ds = list_ex (\<lambda>d. h = d \<or> js_endsWith h (''.'' @ d)) ds"

definition isValidDomainEntry :: "string \<Rightarrow> bool" where
  "isValidDomainEntry d \<longleftrightarrow> d = ''localhost'' \<or>
     (length d \<ge> 3 \<and> js_includes d ''.'' \<and> \<not> js_startsWith d ''.'' \<and> \<not> js_endsWith d ''.'')"

definition http_protocol :: "url \<Rightarrow> bool" where
  "http_protocol u \<longleftrightarrow> protocol u = ''http:'' \<or> protocol u = ''https:''"

definition assertEntryUrlAllowed :: "url_parser \<Rightarrow> string \<Rightarrow> rule \<Rightarrow> exn + url" where
  "assertEntryUrlAllowed parse entryUrl rl =
     (case parse entryUrl of
        None \<Rightarrow> Inl (Error (''Entry URL is not a valid URL: '' @ entryUrl))
      | Some u \<Rightarrow>
          if \<not> http_protocol u then Inl (Error (''Entry URL protocol '' @ protocol u @ '' is not allowed''))
          else (let ds = ruleDomainList rl; invalid = filter (\<lambda>d. \<not> isValidDomainEntry d) ds in
            if invalid \<noteq> []
            then Inl (Error (''rule.domain contains overly-broad entries ['' @ join_strings '', '' invalid @ '']; refusing to run''))
            else if \<not> hostMatchesDomain (hostname u) ds
            then Inl (Error (''Entry URL host '' @ hostname u @ '' is not in rule.domain ['' @ join_strings '', '' ds @ '']''))
            else Inr u))"

definition isNavigationAllowed :: "url_parser \<Rightarrow> string \<Rightarrow> rule \<Rightarrow> bool" where
  "isNavigationAllowed parse raw rl =
     (case parse raw of
        None \<Rightarrow> False
      | Some u \<Rightarrow> if \<not> http_protocol u then False else hostMatchesDomain (hostname u) (ruleDomainList rl))"

text \<open>\<open>new URL(rawUrl, base)\<close> with a base is another parameter.\<close>

definition normalizeRunUrl :: "url_parser \<Rightarrow> string \<Rightarrow> string option" where
  "normalizeRunUrl parse raw = map_option (\<lambda>u. origin u @ pathname u) (parse raw)"

definition pathnameMatches :: "string \<Rightarrow> string \<Rightarrow> bool" where
  "pathnameMatches actual expected =
     (if actual = expected then True
      else js_startsWith actual (if js_endsWith expected ''/'' then expected else expected @ ''/''))"


section \<open>Labels and segments\<close>

text \<open>
  The reference notion of a covered host: the dot-separated labels of the domain end the labels of
  the host. Comparing whole labels is what keeps \<open>evil-example.com\<close> out of \<open>example.com\<close>.
\<close>

definition labels :: "string \<Rightarrow> string list" where
  "labels = js_split CHR ''.''"

lemma js_split_inject: "js_split sep a = js_split sep b \<longleftrightarrow> a = b"
  using join_split by metis

lemma join_strings_append:
  "xs \<noteq> [] \<Longrightarrow> ys \<noteq> [] \<Longrightarrow> join_strings sep (xs @ ys) = join_strings sep xs @ sep @ join_strings sep ys"
proof (induction xs)
  case (Cons x xs)
  then show ?case by (cases xs; cases ys) auto
qed simp

lemma js_split_join: "xs \<noteq> [] \<Longrightarrow> (\<And>x. x \<in> set xs \<Longrightarrow> sep \<notin> set x) \<Longrightarrow> js_split sep (join_strings [sep] xs) = xs"
proof (induction xs)
  case (Cons x xs)
  have single: "sep \<notin> set w \<Longrightarrow> js_split sep w = [w]" for w
    by (induction w) auto
  show ?case
  proof (cases xs)
    case Nil
    then show ?thesis using Cons.prems single by simp
  next
    case (Cons y ys)
    then show ?thesis using Cons.IH Cons.prems single by (simp add: js_split_append)
  qed
qed simp

lemma js_split_pieces: "w \<in> set (js_split sep s) \<Longrightarrow> sep \<notin> set w"
  by (induction s arbitrary: w) (auto split: list.splits if_splits)

lemma suffix_labels:
  "h = d \<or> suffix (''.'' @ d) h \<longleftrightarrow> suffix (labels d) (labels h)"
proof
  assume "h = d \<or> suffix (''.'' @ d) h"
  then show "suffix (labels d) (labels h)"
    by (auto simp: labels_def js_split_append suffix_def)
next
  assume "suffix (labels d) (labels h)"
  then obtain ws where ws: "labels h = ws @ labels d" by (auto simp: suffix_def)
  show "h = d \<or> suffix (''.'' @ d) h"
  proof (cases "ws = []")
    case True
    then show ?thesis using ws by (simp add: labels_def js_split_inject)
  next
    case False
    have "h = join_strings ''.'' (labels h)" by (simp add: labels_def join_split)
    also have "\<dots> = join_strings ''.'' ws @ ''.'' @ join_strings ''.'' (labels d)"
      unfolding ws using False by (intro join_strings_append) (simp_all add: labels_def)
    also have "join_strings ''.'' (labels d) = d" by (simp add: labels_def join_split)
    finally show ?thesis by (auto simp: suffix_def)
  qed
qed

text \<open>A host is covered by a rule's domains exactly when the labels of one of the domains end
  the labels of the host.\<close>

theorem host_covered_by_labels:
  "hostMatchesDomain h ds \<longleftrightarrow> (\<exists>d \<in> set ds. suffix (labels d) (labels h))"
  by (auto simp: hostMatchesDomain_def js_endsWith_def list_ex_iff simp flip: suffix_labels)

lemma valid_entry_labels:
  assumes "isValidDomainEntry d" "d \<noteq> ''localhost''"
  shows "2 \<le> length (labels d)"
proof -
  from assms obtain a b where "d = a @ ''.'' @ b"
    by (auto simp: isValidDomainEntry_def js_includes_iff)
  then have "labels d = labels a @ labels b" by (simp add: labels_def js_split_append)
  moreover have "labels a \<noteq> []" "labels b \<noteq> []" by (simp_all add: labels_def)
  ultimately show ?thesis
    by (cases "labels a"; cases "labels b") auto
qed

text \<open>An entry URL that is accepted is an http(s) URL whose host has, unless it is in the
  \<open>localhost\<close> tree, at least two labels, and it also passes the check of later navigations.\<close>

theorem entry_allowed_is_navigable:
  assumes "assertEntryUrlAllowed parse raw rl = Inr u"
  shows "isNavigationAllowed parse raw rl \<and> http_protocol u
     \<and> (2 \<le> length (labels (hostname u)) \<or> hostname u = ''localhost'')"
proof -
  have u: "parse raw = Some u" "http_protocol u" "hostMatchesDomain (hostname u) (ruleDomainList rl)"
    and valid: "\<forall>d \<in> set (ruleDomainList rl). isValidDomainEntry d"
    using assms by (auto simp: assertEntryUrlAllowed_def Let_def filter_empty_conv split: option.splits if_splits)
  from u(3) obtain d where d: "d \<in> set (ruleDomainList rl)" "suffix (labels d) (labels (hostname u))"
    by (auto simp: host_covered_by_labels)
  have "length (labels d) \<le> length (labels (hostname u))" using d(2) by (rule suffix_length_le)
  moreover have "2 \<le> length (labels d) \<or> d = ''localhost''" using valid d(1) valid_entry_labels by blast
  moreover have "2 \<le> length (labels h) \<or> h = e" if "suffix (labels e) (labels h)" for h e
  proof -
    from that obtain ws where "labels h = ws @ labels e" by (auto simp: suffix_def)
    then show ?thesis
      by (cases ws; cases "labels e") (auto simp: labels_def js_split_inject)
  qed
  ultimately show ?thesis using u d(2) by (auto simp: isNavigationAllowed_def)
qed

text \<open>A parser for the witnesses: \<open>https\<close> URLs with no port, query or fragment\<close>

definition simple_url :: url_parser where
  "simple_url s =
     (if js_startsWith s ''https://''
      then (let r = drop 8 s; h = takeWhile (\<lambda>c. c \<noteq> CHR ''/'') r; p = dropWhile (\<lambda>c. c \<noteq> CHR ''/'') r
            in if h = [] then None
               else Some \<lparr>protocol = ''https:'', host = h, hostname = h,
                          pathname = (if p = [] then ''/'' else p), origin = ''https://'' @ h\<rparr>)
      else None)"

definition shop_rule :: rule where
  "shop_rule = \<lparr>ruleIdOf = ''r1'', version = ''1.0.0'', domain = [''example.com''], entry = Some ''https://shop.example.com/list'',
     ruleVariables = [], selectors = [], ruleHumanize = None, ruleRetry = None, screenshotOnError = False,
     outputSchema = None, outputOnInvalid = None, sendPolicy = None, ruleTimeout = None, maxRetries = None,
     hooks = \<lparr>beforeAll = None, afterAll = None, onErrorHook = None, cleanupHook = None\<rparr>, steps = []\<rparr>"

lemma shop_entry: "assertEntryUrlAllowed simple_url ''https://shop.example.com/list'' shop_rule =
    Inr \<lparr>protocol = ''https:'', host = ''shop.example.com'', hostname = ''shop.example.com'', pathname = ''/list'',
         origin = ''https://shop.example.com''\<rparr>"
  by code_simp

lemma evil_host: "\<not> isNavigationAllowed simple_url ''https://evil-example.com/list'' shop_rule"
  by code_simp

theorem entry_allowed_is_navigable_witness:
  "isNavigationAllowed simple_url ''https://shop.example.com/list'' shop_rule
   \<and> \<not> isNavigationAllowed simple_url ''https://evil-example.com/list'' shop_rule"
  using entry_allowed_is_navigable [OF shop_entry] evil_host by blast


section \<open>Paths\<close>

definition segments :: "string \<Rightarrow> string list" where
  "segments = js_split CHR ''/''"

lemma prefix_segments: "a = e \<or> prefix (e @ ''/'') a \<longleftrightarrow> prefix (segments e) (segments a)"
proof
  assume "a = e \<or> prefix (e @ ''/'') a"
  then show "prefix (segments e) (segments a)"
    by (auto simp: segments_def js_split_append prefix_def)
next
  assume "prefix (segments e) (segments a)"
  then obtain ws where ws: "segments a = segments e @ ws" by (auto simp: prefix_def)
  show "a = e \<or> prefix (e @ ''/'') a"
  proof (cases "ws = []")
    case True
    then show ?thesis using ws by (simp add: segments_def js_split_inject)
  next
    case False
    have "a = join_strings ''/'' (segments a)" by (simp add: segments_def join_split)
    also have "\<dots> = join_strings ''/'' (segments e) @ ''/'' @ join_strings ''/'' ws"
      unfolding ws using False by (intro join_strings_append) (simp_all add: segments_def)
    also have "join_strings ''/'' (segments e) = e" by (simp add: segments_def join_split)
    finally show ?thesis by (auto simp: prefix_def)
  qed
qed

text \<open>A path is matched by an expected path without a trailing slash iff it has its segments first.\<close>

lemma pathnameMatches_segments:
  "\<not> js_endsWith expected ''/'' \<Longrightarrow> pathnameMatches actual expected \<longleftrightarrow> prefix (segments expected) (segments actual)"
  by (auto simp: pathnameMatches_def js_startsWith_def simp flip: prefix_segments)

lemma pathnameMatches_slash:
  "js_endsWith expected ''/'' \<Longrightarrow> pathnameMatches actual expected \<longleftrightarrow> prefix expected actual"
  by (auto simp: pathnameMatches_def js_startsWith_def)

lemma pathnameMatches_refl [simp]: "pathnameMatches p p"
  by (simp add: pathnameMatches_def)

lemma pathnameMatches_trans:
  assumes "pathnameMatches a b" "pathnameMatches b c" shows "pathnameMatches a c"
proof -
  let ?child = "\<lambda>e. if js_endsWith e ''/'' then e else e @ ''/''"
  have child: "prefix e (?child e)" for e by simp
  show ?thesis
  proof (cases "a = b \<or> b = c")
    case False
    then have ab: "prefix (?child b) a" and bc: "prefix (?child c) b"
      using assms by (auto simp: pathnameMatches_def js_startsWith_def split: if_splits)
    have "prefix (?child c) a"
      using bc child [of b] ab by (meson prefix_order.order_trans)
    then show ?thesis by (auto simp: pathnameMatches_def js_startsWith_def)
  qed (use assms in auto)
qed


section \<open>Resuming\<close>

datatype run_phase = Running | Done | Failed

record worker_run_state =
  wsTaskId :: string
  wsRuleId :: string
  wsLastCompleted :: step_path
  wsExpectedUrl :: string
  wsSameOrigin :: bool
  wsStatus :: run_phase

record resume_context =
  rcLastCompleted :: step_path
  rcExtracted :: jobj
  rcEvaluated :: jobj
  rcCaptured :: jobj

text \<open>\<open>None\<close> is the verdict \<open>ok\<close>, \<open>Some reason\<close> a refusal.\<close>

definition validateResume ::
  "url_parser \<Rightarrow> worker_run_state option \<Rightarrow> string \<Rightarrow> string \<Rightarrow> resume_context option \<Rightarrow> string option" where
  "validateResume parse prior tid currentUrl ctx =
     (case prior of
        None \<Rightarrow> Some ''no running checkpoint state for this task''
      | Some p \<Rightarrow>
          if wsStatus p \<noteq> Running then Some ''no running checkpoint state for this task''
          else if wsTaskId p \<noteq> tid
          then Some (''checkpoint task '' @ wsTaskId p @ '' does not match resume task '' @ tid)
          else if wsExpectedUrl p = []
          then Some ''resume refused: expectedUrl empty (first-step pre-checkpoint anomaly)''
          else (case (parse (wsExpectedUrl p), parse currentUrl) of
             (Some expected, Some actual) \<Rightarrow>
               if host actual \<noteq> host expected \<or> protocol actual \<noteq> protocol expected
                  \<or> \<not> (wsSameOrigin p \<or> pathnameMatches (pathname actual) (pathname expected))
               then Some (''resume URL mismatch: '' @ currentUrl @ '' vs expected '' @ wsExpectedUrl p)
               else (case ctx of
                  None \<Rightarrow> None
                | Some c \<Rightarrow>
                    if comparePath (rcLastCompleted c) (wsLastCompleted p) < 0
                    then Some (''resume refused: host context stale (ctx='' @ formatPath (rcLastCompleted c)
                                @ '' < session='' @ formatPath (wsLastCompleted p) @ '')'')
                    else None)
           | _ \<Rightarrow> Some (''resume URL parse failed: '' @ currentUrl)))"

text \<open>A resume is accepted exactly when the session holds a running state of this task with a
  well-formed expected URL, the page has the host, the protocol and, under the path policy, a path
  below the expected one, and the context of the host is not older than the session.\<close>

lemma resume_accepted_iff:
  "validateResume parse prior tid currentUrl ctx = None \<longleftrightarrow>
     (\<exists>p expected actual. prior = Some p \<and> wsStatus p = Running \<and> wsTaskId p = tid \<and> wsExpectedUrl p \<noteq> []
       \<and> parse (wsExpectedUrl p) = Some expected \<and> parse currentUrl = Some actual
       \<and> host actual = host expected \<and> protocol actual = protocol expected
       \<and> (wsSameOrigin p \<or> pathnameMatches (pathname actual) (pathname expected))
       \<and> list_all (\<lambda>c. 0 \<le> comparePath (rcLastCompleted c) (wsLastCompleted p)) (case ctx of None \<Rightarrow> [] | Some c \<Rightarrow> [c]))"
  by (auto simp: validateResume_def not_less split: option.splits if_splits)

end
