(* ===== verification/Page_Driver.thy ===== *)
theory Page_Driver
  imports Bridge_Protocol Url_Policy
begin

text \<open>
  Model of \<open>src/worker-host/page-driver.ts\<close>: one task executed in a browser page. The browser, the
  page and the operator act on the driver through events; between two events the code runs without
  interruption, so each event is one step of a machine. What the driver does to the page and to the
  transport is recorded, in order, in \<open>performed\<close>.
\<close>

section \<open>Paths as the page sends them\<close>

text \<open>
  The host compares the step paths of two checkpoint calls as they came, having checked only the
  \<open>kind\<close> and \<open>childIdx\<close> fields. A frame of an unknown kind has no tuple, and comparing it throws a
  type error: \<open>None\<close>. A missing number compares as \<open>NaN\<close>, neither below nor above anything.
\<close>

definition js_prim :: "jval \<Rightarrow> jval" where
  "js_prim v = (case v of JArr _ \<Rightarrow> JStr (js_String v) | JObj _ \<Rightarrow> JStr (js_String v) | _ \<Rightarrow> v)"

fun string_less :: "string \<Rightarrow> string \<Rightarrow> bool" where
  "string_less _ [] = False"
| "string_less [] (_ # _) = True"
| "string_less (c # cs) (d # ds) =
     ((of_char c :: nat) < of_char d \<or> (c = d \<and> string_less cs ds))"

definition js_less :: "jval \<Rightarrow> jval \<Rightarrow> bool" where
  "js_less a b =
     (case (js_prim a, js_prim b) of
        (JStr x, JStr y) \<Rightarrow> string_less x y
      | (x, y) \<Rightarrow> num_less (js_Number x) (js_Number y))"

definition raw_tuple :: "jval \<Rightarrow> jval list option" where
  "raw_tuple f =
     (let g = get_prop f; k = g ''kind'' in
      if k = JStr ''top'' then Some [jint 0, g ''childIdx'']
      else if k = JStr ''if'' then Some [jint 1, jint (if g ''branch'' = JStr ''then'' then 0 else 1), g ''childIdx'']
      else if k = JStr ''loop'' then Some [jint 2, g ''iter'', g ''childIdx'']
      else if k = JStr ''switch'' then Some [jint 3, g ''caseIdx'', g ''childIdx'']
      else if k = JStr ''group'' then Some [jint 4, g ''childIdx'']
      else None)"

definition raw_compareNumber :: "jval \<Rightarrow> jval \<Rightarrow> int" where
  "raw_compareNumber a b = (if js_less a b then -1 else if js_less b a then 1 else 0)"

definition raw_compareFrame :: "jval \<Rightarrow> jval \<Rightarrow> int option" where
  "raw_compareFrame a b =
     (case (raw_tuple a, raw_tuple b) of
        (Some x, Some y) \<Rightarrow> Some (compareLex raw_compareNumber x y)
      | _ \<Rightarrow> None)"

fun raw_comparePath :: "jval list \<Rightarrow> jval list \<Rightarrow> int option" where
  "raw_comparePath [] [] = Some 0"
| "raw_comparePath [] (_ # _) = Some (-1)"
| "raw_comparePath (_ # _) [] = Some 1"
| "raw_comparePath (x # xs) (y # ys) =
     (case raw_compareFrame x y of
        None \<Rightarrow> None
      | Some c \<Rightarrow> if c \<noteq> 0 then Some c else raw_comparePath xs ys)"

text \<open>The JSON form of a path of the engine\<close>

fun frame_jval :: "step_path_frame \<Rightarrow> jval" where
  "frame_jval (TopFrame n) = JObj [(''kind'', JStr ''top''), (''childIdx'', jint n)]"
| "frame_jval (IfFrame b n) =
     JObj [(''kind'', JStr ''if''), (''branch'', JStr (case b of ThenBranch \<Rightarrow> ''then'' | ElseBranch \<Rightarrow> ''else'')), (''childIdx'', jint n)]"
| "frame_jval (LoopFrame i n) = JObj [(''kind'', JStr ''loop''), (''iter'', jint i), (''childIdx'', jint n)]"
| "frame_jval (SwitchFrame c n) = JObj [(''kind'', JStr ''switch''), (''caseIdx'', jint c), (''childIdx'', jint n)]"
| "frame_jval (GroupFrame n) = JObj [(''kind'', JStr ''group''), (''childIdx'', jint n)]"

definition path_jval :: "step_path \<Rightarrow> jval list" where
  "path_jval p = map frame_jval p"

lemma raw_compareNumber_jint [simp]: "raw_compareNumber (jint a) (jint b) = compareNumber a b"
  by (simp add: raw_compareNumber_def js_less_def js_prim_def compareNumber_def)

lemma raw_tuple_frame: "raw_tuple (frame_jval f) = Some (map jint (frameTuple f))"
  by (cases f) (auto simp: raw_tuple_def obj_get_def split: if_branch.split)

lemma compareLex_jint:
  "compareLex raw_compareNumber (map jint xs) (map jint ys) = compareLex compareNumber xs ys"
  by (induction compareNumber xs ys rule: compareLex.induct) (auto simp: Let_def)

lemma raw_compareFrame_jval: "raw_compareFrame (frame_jval f) (frame_jval g) = Some (compareFrame f g)"
  by (simp add: raw_compareFrame_def raw_tuple_frame compareFrame_def compareLex_jint)

text \<open>On the paths the engine sends, the host's comparison of the raw JSON frames is the
  comparison of step paths.\<close>

theorem raw_comparePath_agrees: "raw_comparePath (path_jval p) (path_jval q) = Some (comparePath p q)"
  unfolding path_jval_def comparePath_def
  by (induction compareFrame p q rule: compareLex.induct) (simp_all add: raw_compareFrame_jval Let_def)


section \<open>State, events and actions\<close>

record rule_result =
  rrStatus :: run_status
  rrMessage :: "string option"
  rrData :: jval

record driver_config =
  cfgRule :: rule
  cfgTaskId :: string
  cfgVariables :: jobj
  cfgHopLimit :: int
  cfgHumanAvailable :: bool

datatype main_phase = Opening | InstallingEntry | BootingEntry | AwaitingCompletion | Ended

text \<open>The navigation that is being handled; the others wait in the chain.\<close>

datatype nav_phase = NavIdle | NavLoading string | NavProbing string | NavInstalling string | NavResuming string

datatype driver_action =
    GoTo string
  | InstallRuntime
  | BootPage
  | AbortPage
  | WarnLog string
  | Forward bridge_call
  | RejectCall string
  | ResumePage string "checkpoint_context option"
  | ClosePage

datatype driver_event =
    EntryLoaded string
  | EntryInstalled
  | EntryBooted
  | EntryFailed string
  | CompletionSeen "string option"
  | BridgeCalled jval jval
  | Navigated string
  | NavLoaded
  | MarkerRead "string option"
  | NavInstalled
  | NavResumed
  | NavFailed string
  | AbortRequested
  | GraceElapsed
  | PageCrashed
  | PageClosed

record driver =
  mainPhase :: main_phase
  armed :: bool
  settled :: "rule_result option"
  tornDown :: bool
  dCheckpoint :: "checkpoint_context option"
  hopCount :: int
  navPhase :: nav_phase
  navQueue :: "string list"
  aborting :: bool
  outcome :: "(string + rule_result) option"
  performed :: "driver_action list"

definition DEFAULT_HOP_LIMIT :: int where
  "DEFAULT_HOP_LIMIT = 50"

definition perform :: "driver_action \<Rightarrow> driver \<Rightarrow> driver" where
  "perform a m = m\<lparr>performed := performed m @ [a]\<rparr>"


section \<open>Entry\<close>

definition entry_scope :: "jobj \<Rightarrow> scope" where
  "entry_scope vs = \<lparr>variables = vs, extracted = [], evaluated = [], captured = [], loopIndex = JUndef,
     loopItem = JUndef, pageInfo = JUndef\<rparr>"

definition resolveEntryUrl :: "rule \<Rightarrow> jobj \<Rightarrow> string + string" where
  "resolveEntryUrl rl vs =
     (case entry rl of
        None \<Rightarrow> Inl (''Rule '' @ ruleIdOf rl @ '' has no entry URL'')
      | Some raw \<Rightarrow>
          if raw = [] then Inl (''Rule '' @ ruleIdOf rl @ '' has no entry URL'')
          else Inr (js_String (interpolate (entry_scope (al_merge (al_merge [] (ruleVariables rl)) vs)) (JStr raw))))"

definition fresh_driver :: driver where
  "fresh_driver = \<lparr>mainPhase = Opening, armed = False, settled = None, tornDown = False, dCheckpoint = None,
     hopCount = 0, navPhase = NavIdle, navQueue = [], aborting = False, outcome = None, performed = []\<rparr>"

text \<open>Up to the first navigation: nothing is opened for an entry URL that is not allowed.\<close>

definition start_driver :: "url_parser \<Rightarrow> driver_config \<Rightarrow> string + driver" where
  "start_driver parse cfg =
     (case resolveEntryUrl (cfgRule cfg) (cfgVariables cfg) of
        Inl e \<Rightarrow> Inl e
      | Inr url \<Rightarrow>
          (case assertEntryUrlAllowed parse url (cfgRule cfg) of
             Inl e \<Rightarrow> Inl (exn_message e)
           | Inr _ \<Rightarrow> Inr (perform (GoTo url) fresh_driver)))"

definition finishOnce :: "rule_result \<Rightarrow> driver \<Rightarrow> driver" where
  "finishOnce r m = (if settled m \<noteq> None then m else m\<lparr>settled := Some r\<rparr>)"

definition failRun :: "string \<Rightarrow> driver \<Rightarrow> driver" where
  "failRun msg m =
     finishOnce \<lparr>rrStatus = Failure, rrMessage = Some msg, rrData = JUndef\<rparr>
       (perform AbortPage (perform (WarnLog (''worker host policy failure: '' @ msg)) m))"

definition settleFromPage :: "complete_payload \<Rightarrow> driver \<Rightarrow> driver" where
  "settleFromPage p =
     finishOnce \<lparr>rrStatus = cpStatus p,
       rrMessage = (case cpMessage p of Some s \<Rightarrow> Some s | None \<Rightarrow> Option.bind (cpError p) snd),
       rrData = cpPartialData p\<rparr>"

text \<open>The \<open>finally\<close> block of the run\<close>

definition tearDown :: "string + rule_result \<Rightarrow> driver \<Rightarrow> driver" where
  "tearDown r m = perform ClosePage (m\<lparr>tornDown := True, mainPhase := Ended, outcome := Some r\<rparr>)"


section \<open>Bridge calls\<close>

text \<open>The monotonic guard; \<open>None\<close> where the comparison throws.\<close>

definition newer_checkpoint :: "checkpoint_context option \<Rightarrow> checkpoint_context \<Rightarrow> checkpoint_context option" where
  "newer_checkpoint old new =
     (case old of
        None \<Rightarrow> Some new
      | Some c \<Rightarrow> map_option (\<lambda>k. if 0 \<le> k then new else c) (raw_comparePath (ccLastCompleted new) (ccLastCompleted c)))"

definition bridgeHandler :: "driver_config \<Rightarrow> jval \<Rightarrow> jval \<Rightarrow> driver \<Rightarrow> driver" where
  "bridgeHandler cfg meth raw m =
     (case validateBridgeCall meth raw of
        Inl e \<Rightarrow> perform (RejectCall e) m
      | Inr call \<Rightarrow>
          if settled m \<noteq> None \<and> call_method call \<noteq> ''complete'' then perform (RejectCall ''run already finished'') m
          else (case call of
             RequestHuman h \<Rightarrow>
               if cfgHumanAvailable cfg then perform (Forward call) m
               else perform (RejectCall ''human interventions are unavailable for this task'') m
           | CheckpointContext c \<Rightarrow>
               if ccTaskId c \<noteq> cfgTaskId cfg then perform (RejectCall ''checkpoint task mismatch'') m
               else (case newer_checkpoint (dCheckpoint m) c of
                       None \<Rightarrow> perform (RejectCall ''TypeError'') m
                     | Some c' \<Rightarrow> m\<lparr>dCheckpoint := Some c'\<rparr>)
           | Complete p \<Rightarrow> settleFromPage p m
           | _ \<Rightarrow> perform (Forward call) m))"


section \<open>Navigations\<close>

definition over :: "driver \<Rightarrow> bool" where
  "over m \<longleftrightarrow> settled m \<noteq> None \<or> tornDown m"

definition nextNavigation :: "driver \<Rightarrow> driver" where
  "nextNavigation m =
     (case navQueue m of
        [] \<Rightarrow> m\<lparr>navPhase := NavIdle\<rparr>
      | u # us \<Rightarrow> m\<lparr>navPhase := NavLoading u, navQueue := us\<rparr>)"

definition onNavigated :: "string \<Rightarrow> driver \<Rightarrow> driver" where
  "onNavigated u m =
     (if \<not> armed m \<or> over m then m
      else if navPhase m = NavIdle then m\<lparr>navPhase := NavLoading u\<rparr>
      else m\<lparr>navQueue := navQueue m @ [u]\<rparr>)"

definition blocked_host :: "url_parser \<Rightarrow> string \<Rightarrow> string" where
  "blocked_host parse u = (case parse u of None \<Rightarrow> ''<unparseable>'' | Some x \<Rightarrow> hostname x)"

definition navigationProbed :: "url_parser \<Rightarrow> driver_config \<Rightarrow> string \<Rightarrow> string option \<Rightarrow> driver \<Rightarrow> driver" where
  "navigationProbed parse cfg u marker m =
     (if over m \<or> marker = Some (cfgTaskId cfg) then nextNavigation m
      else (let m' = m\<lparr>hopCount := hopCount m + 1\<rparr> in
        if hopCount m' > cfgHopLimit cfg
        then nextNavigation (failRun (''navigation hop limit '' @ show_int (cfgHopLimit cfg) @ '' exceeded'') m')
        else if \<not> isNavigationAllowed parse u (cfgRule cfg)
        then nextNavigation (failRun (''navigation to '' @ blocked_host parse u @ '' blocked: outside rule.domain'') m')
        else perform InstallRuntime (m'\<lparr>navPhase := NavInstalling u\<rparr>)))"

definition handleNavigation :: "url_parser \<Rightarrow> driver_config \<Rightarrow> driver_event \<Rightarrow> driver \<Rightarrow> driver" where
  "handleNavigation parse cfg e m =
     (case (navPhase m, e) of
        (NavLoading u, NavLoaded) \<Rightarrow> if over m then nextNavigation m else m\<lparr>navPhase := NavProbing u\<rparr>
      | (NavProbing u, MarkerRead marker) \<Rightarrow> navigationProbed parse cfg u marker m
      | (NavInstalling u, NavInstalled) \<Rightarrow>
          if over m then nextNavigation m
          else perform (ResumePage u (dCheckpoint m)) (m\<lparr>navPhase := NavResuming u\<rparr>)
      | (NavResuming u, NavResumed) \<Rightarrow> nextNavigation m
      | (NavIdle, _) \<Rightarrow> m
      | (NavProbing _, NavFailed _) \<Rightarrow> m
      | (_, NavFailed msg) \<Rightarrow>
          nextNavigation (if over m then m else failRun (''resume after navigation failed: '' @ msg) m)
      | _ \<Rightarrow> m)"


section \<open>The machine\<close>

definition entryLoaded :: "url_parser \<Rightarrow> driver_config \<Rightarrow> string \<Rightarrow> driver \<Rightarrow> driver" where
  "entryLoaded parse cfg landed m =
     (if \<not> isNavigationAllowed parse landed (cfgRule cfg)
      then tearDown (Inl (''entry URL redirected outside rule.domain: '' @ landed)) m
      else perform InstallRuntime (m\<lparr>mainPhase := InstallingEntry\<rparr>))"

definition completionSeen :: "string option \<Rightarrow> driver \<Rightarrow> driver" where
  "completionSeen observer m =
     (case settled m of
        None \<Rightarrow> m
      | Some r \<Rightarrow>
          (case observer of
             Some msg \<Rightarrow> tearDown (if rrStatus r = Success then Inl msg else Inr r) m
           | None \<Rightarrow> tearDown (Inr r) m))"

fun driver_step :: "url_parser \<Rightarrow> driver_config \<Rightarrow> driver \<Rightarrow> driver_event \<Rightarrow> driver" where
  "driver_step parse cfg m (EntryLoaded landed) =
     (if mainPhase m = Opening then entryLoaded parse cfg landed m else m)"
| "driver_step parse cfg m EntryInstalled =
     (if mainPhase m = InstallingEntry then perform BootPage (m\<lparr>mainPhase := BootingEntry\<rparr>) else m)"
| "driver_step parse cfg m EntryBooted =
     (if mainPhase m = BootingEntry then m\<lparr>mainPhase := AwaitingCompletion, armed := True\<rparr> else m)"
| "driver_step parse cfg m (EntryFailed msg) =
     (if mainPhase m \<in> {Opening, InstallingEntry, BootingEntry} then tearDown (Inl msg) m else m)"
| "driver_step parse cfg m (CompletionSeen observer) =
     (if mainPhase m = AwaitingCompletion then completionSeen observer m else m)"
| "driver_step parse cfg m (BridgeCalled meth raw) = bridgeHandler cfg meth raw m"
| "driver_step parse cfg m (Navigated u) = onNavigated u m"
| "driver_step parse cfg m AbortRequested =
     (if tornDown m \<or> aborting m then m else perform AbortPage (m\<lparr>aborting := True\<rparr>))"
| "driver_step parse cfg m GraceElapsed =
     (if aborting m
      then finishOnce \<lparr>rrStatus = Cancelled, rrMessage = Some ''Task cancelled by operator'', rrData = JUndef\<rparr> m
      else m)"
| "driver_step parse cfg m PageCrashed = failRun ''page crashed during execution'' m"
| "driver_step parse cfg m PageClosed =
     (if over m then m
      else finishOnce \<lparr>rrStatus = Failure, rrMessage = Some ''page closed unexpectedly during execution'', rrData = JUndef\<rparr> m)"
| "driver_step parse cfg m e = handleNavigation parse cfg e m"

end
