(* ===== verification/Driver_Laws.thy ===== *)
theory Driver_Laws
  imports Page_Driver
begin

text \<open>
  Properties of the page driver: its invariant, that a run ends once and with one result, the
  policy on the pages a run is resumed on, and the checkpoint the host holds.
\<close>

section \<open>The invariant\<close>

definition is_resume :: "driver_action \<Rightarrow> bool" where
  "is_resume a = (case a of ResumePage _ _ \<Rightarrow> True | _ \<Rightarrow> False)"

definition is_forward :: "driver_action \<Rightarrow> bool" where
  "is_forward a = (case a of Forward _ \<Rightarrow> True | _ \<Rightarrow> False)"

definition resumes :: "driver \<Rightarrow> int" where
  "resumes m = int (length (filter is_resume (performed m)))"

definition installing :: "driver \<Rightarrow> int" where
  "installing m = (case navPhase m of NavInstalling _ \<Rightarrow> 1 | _ \<Rightarrow> 0)"

text \<open>What may be done to the page and to the transport\<close>

definition action_allowed :: "url_parser \<Rightarrow> driver_config \<Rightarrow> driver_action \<Rightarrow> bool" where
  "action_allowed parse cfg a =
     (case a of
        ResumePage u _ \<Rightarrow> isNavigationAllowed parse u (cfgRule cfg)
      | Forward c \<Rightarrow> call_wf c \<and> call_method c \<noteq> ''checkpointContext'' \<and> call_method c \<noteq> ''complete''
      | _ \<Rightarrow> True)"

definition driver_inv :: "url_parser \<Rightarrow> driver_config \<Rightarrow> driver \<Rightarrow> bool" where
  "driver_inv parse cfg m \<longleftrightarrow>
     list_all (action_allowed parse cfg) (performed m)
     \<and> (case navPhase m of NavInstalling u \<Rightarrow> isNavigationAllowed parse u (cfgRule cfg) | _ \<Rightarrow> True)
     \<and> resumes m + installing m \<le> hopCount m \<and> resumes m + installing m \<le> max 0 (cfgHopLimit cfg)
     \<and> (hopCount m \<le> max 0 (cfgHopLimit cfg) \<or> over m)
     \<and> (tornDown m \<longleftrightarrow> mainPhase m = Ended) \<and> (tornDown m \<longleftrightarrow> outcome m \<noteq> None)
     \<and> (armed m \<longrightarrow> mainPhase m \<in> {AwaitingCompletion, Ended})
     \<and> (\<forall>r. outcome m = Some (Inr r) \<longrightarrow> settled m = Some r)
     \<and> (navPhase m \<noteq> NavIdle \<or> navQueue m \<noteq> [] \<longrightarrow> armed m)"

lemma driver_invD:
  assumes "driver_inv parse cfg m"
  shows "list_all (action_allowed parse cfg) (performed m)"
    "navPhase m = NavInstalling u \<Longrightarrow> isNavigationAllowed parse u (cfgRule cfg)"
    "resumes m + installing m \<le> hopCount m" "resumes m + installing m \<le> max 0 (cfgHopLimit cfg)"
    "hopCount m \<le> max 0 (cfgHopLimit cfg) \<or> over m"
    "tornDown m \<longleftrightarrow> mainPhase m = Ended" "tornDown m \<longleftrightarrow> outcome m \<noteq> None"
    "armed m \<longrightarrow> mainPhase m \<in> {AwaitingCompletion, Ended}"
    "outcome m = Some (Inr r) \<Longrightarrow> settled m = Some r"
    "navPhase m \<noteq> NavIdle \<or> navQueue m \<noteq> [] \<longrightarrow> armed m"
  using assms by (auto simp: driver_inv_def)

named_theorems driver_simps \<open>what the parts of a step of the driver change\<close>

lemma perform_simps [driver_simps]:
  "mainPhase (perform a m) = mainPhase m" "armed (perform a m) = armed m" "settled (perform a m) = settled m"
  "tornDown (perform a m) = tornDown m" "dCheckpoint (perform a m) = dCheckpoint m" "hopCount (perform a m) = hopCount m"
  "navPhase (perform a m) = navPhase m" "navQueue (perform a m) = navQueue m" "aborting (perform a m) = aborting m"
  "outcome (perform a m) = outcome m" "performed (perform a m) = performed m @ [a]"
  by (simp_all add: perform_def)

lemma finishOnce_simps [driver_simps]:
  "mainPhase (finishOnce r m) = mainPhase m" "armed (finishOnce r m) = armed m"
  "tornDown (finishOnce r m) = tornDown m" "dCheckpoint (finishOnce r m) = dCheckpoint m" "hopCount (finishOnce r m) = hopCount m"
  "navPhase (finishOnce r m) = navPhase m" "navQueue (finishOnce r m) = navQueue m" "aborting (finishOnce r m) = aborting m"
  "outcome (finishOnce r m) = outcome m" "performed (finishOnce r m) = performed m"
  "settled (finishOnce r m) = (case settled m of None \<Rightarrow> Some r | Some r' \<Rightarrow> Some r')"
  by (auto simp: finishOnce_def split: option.split)

text \<open>Steps that neither act nor navigate keep the invariant.\<close>

lemma driver_inv_perform:
  assumes "driver_inv parse cfg m" "action_allowed parse cfg a" "\<not> is_resume a"
  shows "driver_inv parse cfg (perform a m)"
  using assms by (auto simp: driver_inv_def driver_simps resumes_def installing_def over_def)

lemma driver_inv_finishOnce:
  assumes "driver_inv parse cfg m" shows "driver_inv parse cfg (finishOnce r m)"
  using assms by (auto simp: driver_inv_def driver_simps resumes_def installing_def over_def split: option.splits)

lemma driver_inv_failRun: "driver_inv parse cfg m \<Longrightarrow> driver_inv parse cfg (failRun msg m)"
  unfolding failRun_def
  by (intro driver_inv_finishOnce driver_inv_perform) (simp_all add: action_allowed_def is_resume_def)

lemma driver_inv_tearDown:
  assumes "driver_inv parse cfg m" "\<And>r'. r = Inr r' \<Longrightarrow> settled m = Some r'"
  shows "driver_inv parse cfg (tearDown r m)"
  using assms unfolding tearDown_def
  by (auto simp: driver_inv_def driver_simps resumes_def installing_def over_def action_allowed_def is_resume_def)

lemma driver_inv_next:
  assumes "driver_inv parse cfg m" shows "driver_inv parse cfg (nextNavigation m)"
  using assms by (auto simp: driver_inv_def nextNavigation_def resumes_def installing_def over_def
      split: list.split nav_phase.splits)

lemma driver_inv_bridge:
  assumes "driver_inv parse cfg m" shows "driver_inv parse cfg (bridgeHandler cfg meth raw m)"
proof (cases "validateBridgeCall meth raw")
  case (Inl e)
  then show ?thesis using assms by (simp add: bridgeHandler_def driver_inv_perform action_allowed_def is_resume_def)
next
  case (Inr call)
  have wf: "call_wf call" using Inr by (cases rule: validateBridgeCall_cases) (use VALIDATORS_wf in blast)
  have reject: "driver_inv parse cfg (perform (RejectCall e) m)" for e
    using assms by (simp add: driver_inv_perform action_allowed_def is_resume_def)
  have forward: "call_method call \<noteq> ''checkpointContext'' \<Longrightarrow> call_method call \<noteq> ''complete'' \<Longrightarrow>
      driver_inv parse cfg (perform (Forward call) m)"
    using assms wf by (simp add: driver_inv_perform action_allowed_def is_resume_def)
  have checkpoint: "driver_inv parse cfg (m\<lparr>dCheckpoint := c\<rparr>)" for c
    using assms by (auto simp: driver_inv_def resumes_def installing_def over_def)
  show ?thesis
    using Inr reject forward checkpoint driver_inv_finishOnce [OF assms]
    by (cases call) (auto simp: bridgeHandler_def settleFromPage_def split: option.split)
qed

lemma driver_inv_probed:
  assumes "driver_inv parse cfg m" "navPhase m = NavProbing u"
  shows "driver_inv parse cfg (navigationProbed parse cfg u marker m)"
proof (cases "over m \<or> marker = Some (cfgTaskId cfg)")
  case True
  then show ?thesis using driver_inv_next [OF assms(1)] by (simp add: navigationProbed_def)
next
  case False
  let ?m = "m\<lparr>hopCount := hopCount m + 1\<rparr>"
  have fail: "driver_inv parse cfg (failRun msg ?m)" for msg
  proof -
    have "over (failRun msg ?m)" by (simp add: failRun_def over_def driver_simps split: option.split)
    moreover have "driver_inv parse cfg m" by (rule assms(1))
    ultimately show ?thesis
      using False by (auto simp: driver_inv_def failRun_def driver_simps resumes_def installing_def over_def
          action_allowed_def is_resume_def split: option.split)
  qed
  show ?thesis
  proof (cases "hopCount ?m > cfgHopLimit cfg \<or> \<not> isNavigationAllowed parse u (cfgRule cfg)")
    case True
    then show ?thesis
      using False driver_inv_next [OF fail] by (auto simp: navigationProbed_def Let_def)
  next
    case ok: False
    then show ?thesis
      using False assms
      by (auto simp: navigationProbed_def driver_inv_def driver_simps resumes_def installing_def over_def
          action_allowed_def is_resume_def)
  qed
qed

lemma driver_inv_navigation:
  assumes "driver_inv parse cfg m" shows "driver_inv parse cfg (handleNavigation parse cfg e m)"
proof -
  have resume: "driver_inv parse cfg (perform (ResumePage u c) (m\<lparr>navPhase := NavResuming u\<rparr>))"
    if "navPhase m = NavInstalling u" for u c
    using assms that
    by (auto simp: driver_inv_def driver_simps resumes_def installing_def over_def action_allowed_def is_resume_def)
  have failed: "driver_inv parse cfg (nextNavigation (if over m then m else failRun msg m))" for msg
    using assms by (simp add: driver_inv_next driver_inv_failRun)
  have loaded: "driver_inv parse cfg (m\<lparr>navPhase := NavProbing u\<rparr>)" if "navPhase m = NavLoading u" for u
    using assms that by (auto simp: driver_inv_def resumes_def installing_def over_def)
  show ?thesis
    using assms driver_inv_next [OF assms] driver_inv_probed [OF assms] resume failed loaded
    by (cases "navPhase m"; cases e) (simp_all add: handleNavigation_def)
qed

lemma driver_step_inv:
  assumes "driver_inv parse cfg m" shows "driver_inv parse cfg (driver_step parse cfg m e)"
proof (cases e)
  case (EntryLoaded landed)
  have "mainPhase m = Opening \<Longrightarrow> driver_inv parse cfg (entryLoaded parse cfg landed m)"
    using assms driver_inv_tearDown [OF assms]
    by (auto simp: entryLoaded_def driver_inv_def driver_simps resumes_def installing_def over_def
        action_allowed_def is_resume_def)
  then show ?thesis using EntryLoaded assms by simp
next
  case EntryInstalled
  then show ?thesis using assms
    by (auto simp: driver_inv_def driver_simps resumes_def installing_def over_def action_allowed_def is_resume_def)
next
  case EntryBooted
  then show ?thesis using assms by (auto simp: driver_inv_def resumes_def installing_def over_def)
next
  case (EntryFailed msg)
  then show ?thesis using assms driver_inv_tearDown [OF assms] by auto
next
  case (CompletionSeen obs)
  then show ?thesis
    using assms driver_inv_tearDown [OF assms] by (auto simp: completionSeen_def split: option.split)
next
  case (BridgeCalled meth raw)
  then show ?thesis using driver_inv_bridge [OF assms] by simp
next
  case (Navigated u)
  then show ?thesis
    using assms by (auto simp: onNavigated_def driver_inv_def resumes_def installing_def over_def)
next
  case AbortRequested
  then show ?thesis
    using assms by (auto simp: driver_inv_def driver_simps resumes_def installing_def over_def action_allowed_def is_resume_def)
next
  case GraceElapsed
  then show ?thesis using assms driver_inv_finishOnce [OF assms] by simp
next
  case PageCrashed
  then show ?thesis using driver_inv_failRun [OF assms] by simp
next
  case PageClosed
  then show ?thesis using assms driver_inv_finishOnce [OF assms] by simp
qed (use driver_inv_navigation [OF assms] in simp_all)

interpretation driving: event_machine "driver_step parse cfg" "driver_inv parse cfg" for parse cfg
  by unfold_locales (rule driver_step_inv)


section \<open>One result\<close>

lemma step_keeps_settled: "settled m = Some r \<Longrightarrow> settled (driver_step parse cfg m e) = Some r"
  by (cases e) (auto simp: entryLoaded_def completionSeen_def tearDown_def bridgeHandler_def settleFromPage_def
      onNavigated_def handleNavigation_def navigationProbed_def nextNavigation_def failRun_def Let_def driver_simps over_def
      split: option.split sum.split bridge_call.split nav_phase.split list.split)

text \<open>The first result a run gets is the one it keeps: a page that completes after its host has
  failed, cancelled or finished the run does not change it, and a run that ends normally ends with it.\<close>

theorem driver_result_is_final:
  assumes "driver_inv parse cfg m" and "settled m = Some r"
  shows "settled (run_events (driver_step parse cfg) m es) = Some r
     \<and> (\<forall>r'. outcome (run_events (driver_step parse cfg) m es) = Some (Inr r') \<longrightarrow> r' = r)"
proof -
  have "settled (run_events (driver_step parse cfg) m es) = Some r"
    using assms(2) by (induction es arbitrary: m) (auto intro: step_keeps_settled)
  then show ?thesis using driver_invD(9) [OF driving.run_inv [OF assms(1)]] by fastforce
qed

lemma forward_needs_open:
  assumes "settled m \<noteq> None"
  shows "filter is_forward (performed (driver_step parse cfg m e)) = filter is_forward (performed m)"
proof (cases e)
  case (BridgeCalled meth raw)
  then show ?thesis
    using assms by (auto simp: bridgeHandler_def settleFromPage_def driver_simps is_forward_def
        split: sum.split option.split bridge_call.split)
qed (auto simp: entryLoaded_def completionSeen_def tearDown_def
      onNavigated_def handleNavigation_def navigationProbed_def nextNavigation_def failRun_def Let_def driver_simps
      is_forward_def split: option.split nav_phase.split list.split)

text \<open>After a run has its result, nothing the page sends reaches the transport of the task.\<close>

theorem nothing_forwarded_after_result:
  assumes "settled m \<noteq> None"
  shows "filter is_forward (performed (run_events (driver_step parse cfg) m es)) = filter is_forward (performed m)"
  using assms
proof (induction es arbitrary: m)
  case (Cons e es)
  obtain r where "settled m = Some r" using Cons.prems by blast
  then have "settled (driver_step parse cfg m e) \<noteq> None" by (simp add: step_keeps_settled)
  from Cons.IH [OF this] forward_needs_open [OF Cons.prems] show ?case by simp
qed simp


section \<open>The pages a run is resumed on\<close>

lemma start_driver_inv: "start_driver parse cfg = Inr m \<Longrightarrow> driver_inv parse cfg m"
  by (auto simp: start_driver_def driver_inv_def fresh_driver_def perform_def resumes_def installing_def over_def
      action_allowed_def is_resume_def split: sum.splits)



section \<open>The checkpoint of the host\<close>

text \<open>The checkpoint calls a run accepts, in order\<close>

definition accepted_checkpoint :: "driver_config \<Rightarrow> driver \<Rightarrow> driver_event \<Rightarrow> checkpoint_context list" where
  "accepted_checkpoint cfg m e =
     (case e of
        BridgeCalled meth raw \<Rightarrow>
          (case validateBridgeCall meth raw of
             Inr (CheckpointContext c) \<Rightarrow> if settled m = None \<and> ccTaskId c = cfgTaskId cfg then [c] else []
           | _ \<Rightarrow> [])
      | _ \<Rightarrow> [])"

primrec accepted_checkpoints ::
  "url_parser \<Rightarrow> driver_config \<Rightarrow> driver \<Rightarrow> driver_event list \<Rightarrow> checkpoint_context list" where
  "accepted_checkpoints parse cfg m [] = []"
| "accepted_checkpoints parse cfg m (e # es) =
     accepted_checkpoint cfg m e @ accepted_checkpoints parse cfg (driver_step parse cfg m e) es"

text \<open>The abstract component: a register that keeps the newest of the values written to it.\<close>

definition checkpoint_path :: "checkpoint_context \<Rightarrow> step_path \<Rightarrow> bool" where
  "checkpoint_path c p \<longleftrightarrow> ccLastCompleted c = path_jval p"

definition newest_of :: "checkpoint_context option \<Rightarrow> checkpoint_context list \<Rightarrow> checkpoint_context option" where
  "newest_of = foldl (\<lambda>old new. case newer_checkpoint old new of None \<Rightarrow> old | Some c \<Rightarrow> Some c)"

lemma step_checkpoint_register:
  "dCheckpoint (driver_step parse cfg m e) = newest_of (dCheckpoint m) (accepted_checkpoint cfg m e)"
proof (cases e)
  case (BridgeCalled meth raw)
  then show ?thesis
    by (auto simp: bridgeHandler_def settleFromPage_def driver_simps accepted_checkpoint_def newest_of_def
        split: sum.split option.split bridge_call.split)
qed (auto simp: accepted_checkpoint_def newest_of_def entryLoaded_def completionSeen_def tearDown_def
      onNavigated_def handleNavigation_def navigationProbed_def nextNavigation_def failRun_def Let_def driver_simps
      split: option.split nav_phase.split list.split)

lemma register_run:
  "dCheckpoint (run_events (driver_step parse cfg) m es) = newest_of (dCheckpoint m) (accepted_checkpoints parse cfg m es)"
proof (induction es arbitrary: m)
  case (Cons e es)
  show ?case
    by (simp add: Cons.IH step_checkpoint_register) (simp add: newest_of_def)
qed (simp add: newest_of_def)


lemma newer_checkpoint_path:
  assumes "checkpoint_path old p" "checkpoint_path new q"
  shows "newer_checkpoint (Some old) new = Some (if 0 \<le> comparePath q p then new else old)"
  using assms by (simp add: newer_checkpoint_def checkpoint_path_def raw_comparePath_agrees)

lemma newest_of_register:
  assumes "\<forall>c \<in> set cs. \<exists>p. checkpoint_path c p" and "old = None \<or> (\<exists>c p. old = Some c \<and> checkpoint_path c p)"
    and "newest_of old cs = Some c"
  shows "(old = Some c \<or> c \<in> set cs) \<and> (\<exists>p. checkpoint_path c p
     \<and> (\<forall>c' \<in> set cs \<union> set_option old. \<forall>q. checkpoint_path c' q \<longrightarrow> 0 \<le> comparePath p q))"
  using assms
proof (induction cs arbitrary: old)
  case Nil
  then show ?case
    by (auto simp: newest_of_def checkpoint_path_def)
      (metis path.cmp_self raw_comparePath_agrees option.inject order_refl)
next
  case (Cons c1 cs)
  obtain q1 where q1: "checkpoint_path c1 q1" using Cons.prems(1) by auto
  show ?case
  proof (cases old)
    case None
    have "newest_of (Some c1) cs = Some c"
      using Cons.prems(3) None by (simp add: newest_of_def newer_checkpoint_def)
    from Cons.IH [OF _ _ this] Cons.prems(1) q1 None show ?thesis by auto
  next
    case (Some c0)
    then obtain p0 where p0: "checkpoint_path c0 p0" using Cons.prems(2) by auto
    define n where "n = (if 0 \<le> comparePath q1 p0 then c1 else c0)"
    define pn where "pn = (if 0 \<le> comparePath q1 p0 then q1 else p0)"
    have n: "checkpoint_path n pn" "n = c1 \<or> n = c0" using q1 p0 by (auto simp: n_def pn_def)
    have above: "0 \<le> comparePath pn q1" "0 \<le> comparePath pn p0"
      using path.cmp_self path.cmp_total [of q1 p0] path.cmp_asym [of q1 p0]
      by (auto simp: pn_def not_le)
    have run: "newest_of (Some n) cs = Some c"
      using Cons.prems(3) Some newer_checkpoint_path [OF p0 q1] by (simp add: newest_of_def n_def)
    from Cons.IH [OF _ _ run] Cons.prems(1) n(1)
    obtain p where c: "n = c \<or> c \<in> set cs" and p: "checkpoint_path c p"
      and top: "\<And>c' q. c' \<in> set cs \<Longrightarrow> checkpoint_path c' q \<Longrightarrow> 0 \<le> comparePath p q" "0 \<le> comparePath p pn"
      by fastforce
    have unique: "q = q'" if "checkpoint_path x q" "checkpoint_path x q'" for x q q'
      using that path.cmp_zero [of q q'] raw_comparePath_agrees [of q q'] raw_comparePath_agrees [of q q]
        path.cmp_self [of q] by (auto simp: checkpoint_path_def)
    have earlier: "0 \<le> comparePath p q1" "0 \<le> comparePath p p0"
      using top(2) above by (auto intro: path.cmp_ge_trans)
    have "0 \<le> comparePath p q" if "c' \<in> set (c1 # cs) \<union> set_option old" "checkpoint_path c' q" for c' q
    proof -
      note c' = that
      consider "c' \<in> set cs" | "c' = c1" | "c' = c0" using c'(1) Some by auto
      then show ?thesis
      proof cases
        case 1
        then show ?thesis using top(1) c'(2) by blast
      next
        case 2
        then have "q = q1" using unique c'(2) q1 by blast
        then show ?thesis using earlier by simp
      next
        case 3
        then have "q = p0" using unique c'(2) p0 by blast
        then show ?thesis using earlier by simp
      qed
    qed
    then show ?thesis using c n(2) p Some by auto
  qed
qed

text \<open>When the page sends paths of the engine, the checkpoint the host would resume from is one of
  those it accepted, and none it accepted is later in the rule: a checkpoint that arrives late from
  a page that has been left does not replace a newer one.\<close>

theorem host_checkpoint_never_regresses:
  assumes "\<forall>c \<in> set (accepted_checkpoints parse cfg m es). \<exists>p. checkpoint_path c p"
    and "dCheckpoint m = None" and "dCheckpoint (run_events (driver_step parse cfg) m es) = Some c"
  shows "c \<in> set (accepted_checkpoints parse cfg m es) \<and> (\<exists>p. checkpoint_path c p
     \<and> (\<forall>c' \<in> set (accepted_checkpoints parse cfg m es). \<forall>q. checkpoint_path c' q \<longrightarrow> 0 \<le> comparePath p q))"
  using newest_of_register [OF assms(1) disjI1 [OF refl]] assms(2,3) register_run [of parse cfg m es]
  by simp

section \<open>Concrete runs\<close>

definition demo_config :: driver_config where
  "demo_config = \<lparr>cfgRule = shop_rule, cfgTaskId = ''t1'', cfgVariables = [], cfgHopLimit = 1, cfgHumanAvailable = True\<rparr>"

definition opened :: driver where
  "opened = perform (GoTo ''https://shop.example.com/list'') fresh_driver"

lemma demo_start: "start_driver simple_url demo_config = Inr opened"
  by code_simp

definition demo_drive :: "driver_event list \<Rightarrow> driver" where
  "demo_drive es = run_events (driver_step simple_url demo_config) opened es"

definition boot_events :: "driver_event list" where
  "boot_events = [EntryLoaded ''https://shop.example.com/list'', EntryInstalled, EntryBooted]"

definition hop_events :: "driver_event list" where
  "hop_events = [NavLoaded, MarkerRead None, NavInstalled, NavResumed]"

definition checkpoint_call :: "step_path \<Rightarrow> driver_event" where
  "checkpoint_call p = BridgeCalled (JStr ''checkpointContext'')
     (JObj [(''taskId'', JStr ''t1''), (''lastCompletedStepPath'', JArr (path_jval p))])"

definition complete_call :: driver_event where
  "complete_call = BridgeCalled (JStr ''complete'') (JObj [(''status'', JStr ''success''), (''message'', JStr ''ok'')])"

definition success_result :: rule_result where
  "success_result = \<lparr>rrStatus = Success, rrMessage = Some ''ok'', rrData = JUndef\<rparr>"

lemma demo_inv: "driver_inv simple_url demo_config (demo_drive es)"
  unfolding demo_drive_def by (rule driving.run_inv [OF start_driver_inv [OF demo_start]])

lemma demo_settled: "settled (demo_drive (boot_events @ [complete_call])) = Some success_result"
  by code_simp

text \<open>A run that has completed is not changed by a crash.\<close>

theorem driver_result_is_final_witness:
  "settled (run_events (driver_step simple_url demo_config) (demo_drive (boot_events @ [complete_call])) [PageCrashed])
     = Some success_result"
  using driver_result_is_final [OF demo_inv demo_settled] by blast

theorem nothing_forwarded_after_result_witness:
  "filter is_forward (performed (run_events (driver_step simple_url demo_config)
      (demo_drive (boot_events @ [complete_call]))
      [BridgeCalled (JStr ''sendResult'') (JObj [(''payload'', jint 1)])])) = []"
proof -
  have "settled (demo_drive (boot_events @ [complete_call])) \<noteq> None" by (simp add: demo_settled)
  from nothing_forwarded_after_result [OF this] have
    "filter is_forward (performed (run_events (driver_step simple_url demo_config)
      (demo_drive (boot_events @ [complete_call])) [BridgeCalled (JStr ''sendResult'') (JObj [(''payload'', jint 1)])]))
     = filter is_forward (performed (demo_drive (boot_events @ [complete_call])))" .
  also have "\<dots> = []" by code_simp
  finally show ?thesis .
qed

text \<open>Two navigations with a limit of one: the first is resumed, the second fails the run.\<close>

definition two_hops :: "driver_event list" where
  "two_hops = boot_events @ [Navigated ''https://shop.example.com/a'', Navigated ''https://shop.example.com/b'']
     @ hop_events @ hop_events"

lemma two_hops_performed:
  "filter is_resume (performed (demo_drive two_hops)) = [ResumePage ''https://shop.example.com/a'' None]"
  "map_option rrStatus (settled (demo_drive two_hops)) = Some Failure"
  by code_simp+


definition late_checkpoint :: "driver_event list" where
  "late_checkpoint = boot_events @ [checkpoint_call [TopFrame 1], checkpoint_call [TopFrame 0]]"

definition demo_context :: "step_path \<Rightarrow> checkpoint_context" where
  "demo_context p = \<lparr>ccTaskId = ''t1'', ccLastCompleted = path_jval p, ccExtracted = [], ccEvaluated = [], ccCaptured = []\<rparr>"

lemma late_accepted:
  "accepted_checkpoints simple_url demo_config opened late_checkpoint
     = [demo_context [TopFrame 1], demo_context [TopFrame 0]]"
  "dCheckpoint (run_events (driver_step simple_url demo_config) opened late_checkpoint) = Some (demo_context [TopFrame 1])"
  "dCheckpoint opened = None"
  by code_simp+

theorem host_checkpoint_never_regresses_witness:
  "\<exists>p. checkpoint_path (demo_context [TopFrame 1]) p \<and> 0 \<le> comparePath p [TopFrame 0]"
proof -
  have paths: "checkpoint_path (demo_context p) p" for p by (simp add: checkpoint_path_def demo_context_def)
  then have "\<forall>c \<in> set (accepted_checkpoints simple_url demo_config opened late_checkpoint). \<exists>p. checkpoint_path c p"
    by (auto simp: late_accepted)
  from host_checkpoint_never_regresses [OF this late_accepted(3,2)] paths show ?thesis
    by (auto simp: late_accepted(1))
qed

end
