(* ===== verification/Http_Transport.thy ===== *)
theory Http_Transport
  imports Runtime Json
begin

text \<open>
  Model of \<open>src/worker/HttpTransport.ts\<close>: how a worker delivers results, logs and states to the
  server, with retries, a bounded buffer for what could not be sent, and numbered result batches.
  The network is a parameter: what \<open>fetch\<close> answers to a request, how time passes and how the clock
  reads. The operations are computations of the engine's runtime whose world is the transport
  (they leave the context alone), each call completing before the next, so the lock of the buffer
  has no effect; writing to the console is not modelled.
\<close>

section \<open>Requests and responses\<close>

record http_request =
  rqMethod :: string
  rqUrl :: string
  rqHeaders :: "(string \<times> string) list"
  rqBody :: "string option"

text \<open>Reading the body of a response may fail on its own.\<close>

record http_response =
  respStatus :: int
  respText :: "exn + string"
  respTrace :: "string option"

record 'n network =
  fetchN :: "http_request \<Rightarrow> 'n \<Rightarrow> (exn + http_response) \<times> 'n"
  sleepN :: "int \<Rightarrow> 'n \<Rightarrow> 'n"
  nowN :: "'n \<Rightarrow> int"
  abortedN :: "'n \<Rightarrow> bool"
  parseJsonN :: "string \<Rightarrow> jval option"
  asRuleN :: "jval \<Rightarrow> rule"

record http_options =
  hoBaseUrl :: string
  hoWorkerId :: string
  hoTaskId :: string
  hoBrowserProfileId :: "string option"
  hoApiKey :: "string option"
  hoMaxAttempts :: "int option"
  hoRetryDelayMs :: "int option"
  hoBufferCapacity :: "int option"
  hoHumanPollIntervalMs :: "int option"

record http_config =
  baseUrl :: string
  hWorkerId :: string
  hTaskId :: string
  browserProfileId :: "string option"
  apiKey :: "string option"
  hMaxAttempts :: int
  retryDelayMs :: int
  bufferCapacity :: int
  humanPollIntervalMs :: int

record pending_result =
  pKind :: string
  pPayloadJSON :: "string option"
  pImmediate :: bool
  pEnvelope :: jval

record submission_state =
  attemptId :: string
  nextSequence :: int
  pending :: "pending_result option"

record 'n http =
  httpBuffer :: "(string \<times> jval) list"
  traceIdOf :: "string option"
  resultState :: "submission_state option"
  net :: 'n

type_synonym ('n, 'a) http_run = "('n http, 'a) run"

definition strip_slash :: "string \<Rightarrow> string" where
  "strip_slash s = (if js_endsWith s ''/'' then butlast s else s)"

definition or_default :: "'a option \<Rightarrow> 'a \<Rightarrow> 'a" where
  "or_default x d = (case x of None \<Rightarrow> d | Some a \<Rightarrow> a)"

definition trimmed_profile :: "string option \<Rightarrow> string option" where
  "trimmed_profile p = (case p of None \<Rightarrow> None | Some s \<Rightarrow> if js_trim s = [] then None else Some (js_trim s))"

definition http_config_of :: "http_options \<Rightarrow> http_config" where
  "http_config_of opts = \<lparr>baseUrl = strip_slash (hoBaseUrl opts), hWorkerId = hoWorkerId opts, hTaskId = hoTaskId opts,
     browserProfileId = trimmed_profile (hoBrowserProfileId opts), apiKey = hoApiKey opts,
     hMaxAttempts = or_default (hoMaxAttempts opts) 3, retryDelayMs = or_default (hoRetryDelayMs opts) 1000,
     bufferCapacity = or_default (hoBufferCapacity opts) 100,
     humanPollIntervalMs = or_default (hoHumanPollIntervalMs opts) 1000\<rparr>"

definition response_ok :: "http_response \<Rightarrow> bool" where
  "response_ok r \<longleftrightarrow> 200 \<le> respStatus r \<and> respStatus r \<le> 299"

definition error_status :: "exn \<Rightarrow> int" where
  "error_status e = (case e of HttpTransportError _ st \<Rightarrow> st | _ \<Rightarrow> 0)"

definition retryable :: "exn \<Rightarrow> bool" where
  "retryable e \<longleftrightarrow> error_status e = 0 \<or> error_status e \<ge> 500"

definition nonempty :: "string option \<Rightarrow> string option" where
  "nonempty x = (case x of None \<Rightarrow> None | Some s \<Rightarrow> if s = [] then None else Some s)"

definition request_headers :: "http_config \<Rightarrow> string option \<Rightarrow> (string \<times> string) list" where
  "request_headers cfg trace =
     [(''Content-Type'', ''application/json'')]
     @ (case nonempty (apiKey cfg) of None \<Rightarrow> [] | Some k \<Rightarrow> [(''Authorization'', ''Bearer '' @ k)])
     @ (case nonempty trace of None \<Rightarrow> [] | Some t \<Rightarrow> [(''X-Trace-Id'', t)])"

definition request ::
  "'n network \<Rightarrow> http_config \<Rightarrow> string \<Rightarrow> string \<Rightarrow> jval option \<Rightarrow> ('n, http_response) http_run" where
  "request nw cfg meth path body =
     (\<lambda>(c, h).
        case fetchN nw \<lparr>rqMethod = meth, rqUrl = baseUrl cfg @ path, rqHeaders = request_headers cfg (traceIdOf h),
                        rqBody = Option.bind body json_text\<rparr> (net h) of
          (Inl e, n) \<Rightarrow> (Throw e, (c, h\<lparr>net := n\<rparr>))
        | (Inr r, n) \<Rightarrow>
            (Ret r, (c, h\<lparr>net := n, traceIdOf := (case nonempty (respTrace r) of None \<Rightarrow> traceIdOf h | Some t \<Rightarrow> Some t)\<rparr>)))"

definition read_text :: "http_response \<Rightarrow> ('n, string) http_run" where
  "read_text r = (case respText r of Inl e \<Rightarrow> throwR e | Inr t \<Rightarrow> returnR t)"

definition sleepH :: "'n network \<Rightarrow> int \<Rightarrow> ('n, unit) http_run" where
  "sleepH nw ms = (\<lambda>(c, h). (Ret (), (c, h\<lparr>net := (if abortedN nw (net h) then net h else sleepN nw ms (net h))\<rparr>)))"

definition http_failure :: "string \<Rightarrow> http_response \<Rightarrow> string \<Rightarrow> exn" where
  "http_failure prefix' r t = HttpTransportError (prefix' @ show_int (respStatus r) @ '': '' @ t) (respStatus r)"

definition post :: "'n network \<Rightarrow> http_config \<Rightarrow> string \<Rightarrow> jval \<Rightarrow> ('n, unit) http_run" where
  "post nw cfg path body =
     bindR (request nw cfg ''POST'' path (Some body))
       (\<lambda>r. bindR (read_text r)
          (\<lambda>t. if response_ok r then returnR () else throwR (http_failure ''HTTP '' r t)))"


section \<open>Sending with retries\<close>

text \<open>The attempts that are left; the loop that makes none returns.\<close>

primrec send_attempts :: "nat \<Rightarrow> 'n network \<Rightarrow> http_config \<Rightarrow> string \<Rightarrow> jval \<Rightarrow> ('n, unit) http_run" where
  "send_attempts 0 nw cfg path body = returnR ()"
| "send_attempts (Suc n) nw cfg path body =
     catchR (post nw cfg path body)
       (\<lambda>e. if is_abort e \<or> \<not> retryable e \<or> n = 0 then throwR e
            else thenR (sleepH nw (retryDelayMs cfg)) (send_attempts n nw cfg path body))"

definition sendWithRetry :: "'n network \<Rightarrow> http_config \<Rightarrow> string \<Rightarrow> jval \<Rightarrow> ('n, unit) http_run" where
  "sendWithRetry nw cfg path body = send_attempts (nat (hMaxAttempts cfg)) nw cfg path body"

definition enqueue :: "http_config \<Rightarrow> string \<Rightarrow> jval \<Rightarrow> ('n, unit) http_run" where
  "enqueue cfg path body =
     (\<lambda>(c, h). (Ret (), (c, h\<lparr>httpBuffer :=
        (if int (length (httpBuffer h)) \<ge> bufferCapacity cfg then tl (httpBuffer h) else httpBuffer h) @ [(path, body)]\<rparr>)))"

text \<open>Each round removes an entry or ends the loop, so the length of the buffer bounds the rounds.\<close>

primrec flush_loop :: "nat \<Rightarrow> 'n network \<Rightarrow> http_config \<Rightarrow> ('n, unit) http_run" where
  "flush_loop 0 nw cfg = returnR ()"
| "flush_loop (Suc n) nw cfg =
     (\<lambda>s. case httpBuffer (snd s) of
        [] \<Rightarrow> (Ret (), s)
      | (path, body) # _ \<Rightarrow>
          (case sendWithRetry nw cfg path body s of
             (Ret _, (c, h)) \<Rightarrow> flush_loop n nw cfg (c, h\<lparr>httpBuffer := tl (httpBuffer h)\<rparr>)
           | (Throw _, s') \<Rightarrow> (Ret (), s')))"

definition flushBuffer :: "'n network \<Rightarrow> http_config \<Rightarrow> ('n, unit) http_run" where
  "flushBuffer nw cfg = (\<lambda>s. flush_loop (length (httpBuffer (snd s))) nw cfg s)"

definition postWithRetry :: "'n network \<Rightarrow> http_config \<Rightarrow> string \<Rightarrow> jval \<Rightarrow> bool \<Rightarrow> ('n, unit) http_run" where
  "postWithRetry nw cfg path body buf =
     thenR (flushBuffer nw cfg)
       (catchR (thenR (sendWithRetry nw cfg path body) (flushBuffer nw cfg))
         (\<lambda>e. if is_abort e then returnR ()
              else if buf \<and> retryable e then enqueue cfg path body else returnR ()))"


section \<open>Numbered results\<close>

record submission_ack =
  ackSuccess :: bool
  ackValid :: bool
  ackDuplicate :: bool
  ackError :: "string option"

definition parse_ack :: "'n network \<Rightarrow> string \<Rightarrow> exn + submission_ack" where
  "parse_ack nw t =
     (case parseJsonN nw t of
        None \<Rightarrow> Inl (Error ''invalid result acknowledgement: response is not JSON'')
      | Some v \<Rightarrow>
          if \<not> is_record v \<and> \<not> is_array v then Inl (Error ''invalid result acknowledgement: response is not an object'')
          else (case (get_prop v ''success'', get_prop v ''valid'', get_prop v ''duplicate'') of
             (JBool s, JBool va, JBool d) \<Rightarrow>
               Inr \<lparr>ackSuccess = s, ackValid = va, ackDuplicate = d,
                    ackError = (case get_prop v ''error'' of JStr e \<Rightarrow> Some e | _ \<Rightarrow> None)\<rparr>
           | _ \<Rightarrow> Inl (Error ''invalid result acknowledgement: success, valid, and duplicate must be boolean'')))"

definition lift_sum :: "exn + 'a \<Rightarrow> ('n, 'a) http_run" where
  "lift_sum x = (case x of Inl e \<Rightarrow> throwR e | Inr a \<Rightarrow> returnR a)"

definition post_result :: "'n network \<Rightarrow> http_config \<Rightarrow> jval \<Rightarrow> ('n, submission_ack) http_run" where
  "post_result nw cfg body =
     bindR (request nw cfg ''POST'' ''/results'' (Some body))
       (\<lambda>r. bindR (read_text r)
          (\<lambda>t. if \<not> response_ok r then throwR (http_failure ''HTTP '' r t) else lift_sum (parse_ack nw t)))"

primrec post_result_attempts :: "nat \<Rightarrow> 'n network \<Rightarrow> http_config \<Rightarrow> jval \<Rightarrow> ('n, submission_ack) http_run" where
  "post_result_attempts 0 nw cfg body = throwR (Error ''result submission exhausted retries'')"
| "post_result_attempts (Suc n) nw cfg body =
     catchR (post_result nw cfg body)
       (\<lambda>e. if is_abort e \<or> \<not> retryable e \<or> n = 0 then throwR e
            else thenR (sleepH nw (retryDelayMs cfg)) (post_result_attempts n nw cfg body))"

definition postResultWithRetry :: "'n network \<Rightarrow> http_config \<Rightarrow> jval \<Rightarrow> ('n, submission_ack) http_run" where
  "postResultWithRetry nw cfg body = post_result_attempts (nat (hMaxAttempts cfg)) nw cfg body"

definition idempotency_key :: "string \<Rightarrow> int \<Rightarrow> string \<Rightarrow> string" where
  "idempotency_key aid sequence kind = aid @ '':'' @ show_int sequence @ '':'' @ kind"

definition result_envelope :: "http_config \<Rightarrow> string \<Rightarrow> int \<Rightarrow> string \<Rightarrow> jval \<Rightarrow> bool \<Rightarrow> jval" where
  "result_envelope cfg aid sequence kind payload imm =
     JObj [(''taskId'', JStr (hTaskId cfg)), (''workerId'', JStr (hWorkerId cfg)), (''attemptId'', JStr aid),
       (''idempotencyKey'', JStr (idempotency_key aid sequence kind)), (''sequence'', jint sequence),
       (''kind'', JStr kind), (''immediate'', JBool imm), (''payload'', payload)]"

text \<open>The pending result of a send: the one that waits for its acknowledgement, or a new one\<close>

definition claim_pending ::
  "http_config \<Rightarrow> submission_state \<Rightarrow> string \<Rightarrow> jval \<Rightarrow> bool \<Rightarrow> exn + (pending_result \<times> submission_state)" where
  "claim_pending cfg st kind payload imm =
     (case pending st of
        Some p \<Rightarrow>
          if pKind p \<noteq> kind \<or> pPayloadJSON p \<noteq> json_text payload \<or> pImmediate p \<noteq> imm
          then Inl (Error (''pending '' @ pKind p @ '' result must be acknowledged before sending '' @ kind))
          else Inr (p, st)
      | None \<Rightarrow>
          (let sequence = nextSequence st + 1;
               p = \<lparr>pKind = kind, pPayloadJSON = json_text payload, pImmediate = imm,
                    pEnvelope = result_envelope cfg (attemptId st) sequence kind payload imm\<rparr>
           in Inr (p, st\<lparr>nextSequence := sequence, pending := Some p\<rparr>)))"

definition set_submission :: "submission_state \<Rightarrow> ('n, unit) http_run" where
  "set_submission st = (\<lambda>(c, h). (Ret (), (c, h\<lparr>resultState := Some st\<rparr>)))"

definition clear_pending :: "('n, unit) http_run" where
  "clear_pending = (\<lambda>(c, h). (Ret (), (c, h\<lparr>resultState := map_option (\<lambda>st. st\<lparr>pending := None\<rparr>) (resultState h)\<rparr>)))"

definition versioned :: "'n http \<Rightarrow> bool" where
  "versioned h \<longleftrightarrow> (case resultState h of None \<Rightarrow> False | Some st \<Rightarrow> attemptId st \<noteq> [])"

text \<open>The acknowledgement settles the pending result even when it reports a rejection.\<close>

definition deliver_pending :: "'n network \<Rightarrow> http_config \<Rightarrow> pending_result \<Rightarrow> ('n, unit) http_run" where
  "deliver_pending nw cfg p =
     bindR (postResultWithRetry nw cfg (pEnvelope p))
       (\<lambda>ack. thenR clear_pending
          (if \<not> ackSuccess ack \<or> \<not> ackValid ack
           then throwR (HttpTransportError (''result rejected: '' @
                  (case nonempty (ackError ack) of None \<Rightarrow> ''invalid result payload'' | Some e \<Rightarrow> e)) 422)
           else returnR ()))"

definition sendVersionedResult ::
  "'n network \<Rightarrow> http_config \<Rightarrow> string \<Rightarrow> jval \<Rightarrow> bool \<Rightarrow> ('n, unit) http_run" where
  "sendVersionedResult nw cfg kind payload imm =
     (\<lambda>s. case resultState (snd s) of
        None \<Rightarrow> (Throw (Error ''versioned result state is required''), s)
      | Some st \<Rightarrow>
          if attemptId st = [] then (Throw (Error ''versioned result state is required''), s)
          else (case claim_pending cfg st kind payload imm of
             Inl e \<Rightarrow> (Throw e, s)
           | Inr (p, st') \<Rightarrow> thenR (set_submission st') (deliver_pending nw cfg p) s))"


section \<open>The interface of the transport\<close>

definition isInternalResultControl :: "jval \<Rightarrow> bool" where
  "isInternalResultControl v =
     (case v of JObj fs \<Rightarrow> obj_get fs ''__final'' = JBool True \<or> obj_get fs ''__flush'' = JBool True
                   \<or> obj_get fs ''__criticalFailure'' = JBool True
      | _ \<Rightarrow> False)"

definition http_sendResult :: "'n network \<Rightarrow> http_config \<Rightarrow> jval \<Rightarrow> bool \<Rightarrow> ('n, unit) http_run" where
  "http_sendResult nw cfg payload imm =
     (\<lambda>s. if versioned (snd s) \<and> isInternalResultControl payload then (Ret (), s)
          else if versioned (snd s) then sendVersionedResult nw cfg ''batch'' payload imm s
          else postWithRetry nw cfg ''/results''
                 (JObj [(''taskId'', JStr (hTaskId cfg)), (''workerId'', JStr (hWorkerId cfg)),
                        (''immediate'', JBool imm), (''payload'', payload)]) True s)"

definition sendFinalSummary :: "'n network \<Rightarrow> http_config \<Rightarrow> jval \<Rightarrow> ('n, unit) http_run" where
  "sendFinalSummary nw cfg payload =
     (\<lambda>s. if versioned (snd s) then sendVersionedResult nw cfg ''summary'' payload True s
          else http_sendResult nw cfg payload True s)"

definition opt_jstr :: "string option \<Rightarrow> jval" where
  "opt_jstr x = (case x of None \<Rightarrow> JUndef | Some s \<Rightarrow> JStr s)"

definition http_sendLog :: "'n network \<Rightarrow> http_config \<Rightarrow> string \<Rightarrow> string \<Rightarrow> jobj option \<Rightarrow> ('n, unit) http_run" where
  "http_sendLog nw cfg level msg extra =
     (\<lambda>s. postWithRetry nw cfg ''/logs''
        (JObj [(''taskId'', JStr (hTaskId cfg)), (''workerId'', JStr (hWorkerId cfg)), (''level'', JStr level),
               (''message'', JStr msg), (''traceId'', opt_jstr (traceIdOf (snd s))),
               (''extra'', case extra of None \<Rightarrow> JUndef | Some x \<Rightarrow> JObj x)]) True s)"

primrec heartbeat_attempts :: "nat \<Rightarrow> 'n network \<Rightarrow> http_config \<Rightarrow> jobj option \<Rightarrow> ('n, bool) http_run" where
  "heartbeat_attempts 0 nw cfg payload = returnR False"
| "heartbeat_attempts (Suc n) nw cfg payload =
     catchR
       (bindR (request nw cfg ''POST'' ''/heartbeat''
                (Some (JObj [(''taskId'', JStr (hTaskId cfg)), (''workerId'', JStr (hWorkerId cfg)),
                             (''payload'', case payload of None \<Rightarrow> JUndef | Some x \<Rightarrow> JObj x)])))
         (\<lambda>r. bindR (read_text r)
            (\<lambda>t. if \<not> response_ok r then throwR (http_failure ''heartbeat failed: '' r t)
                 else (case parseJsonN nw t of
                         None \<Rightarrow> throwR (JsError ''SyntaxError'' t)
                       | Some v \<Rightarrow> if is_nullish v then throwR (JsError ''TypeError'' ''cancelRequested'')
                                   else returnR (truthy (coalesce (get_prop v ''cancelRequested'') (JBool False)))))))
       (\<lambda>e. if is_abort e \<or> n = 0 then returnR False
            else thenR (sleepH nw (retryDelayMs cfg)) (heartbeat_attempts n nw cfg payload))"

definition http_sendHeartbeat :: "'n network \<Rightarrow> http_config \<Rightarrow> jobj option \<Rightarrow> ('n, bool) http_run" where
  "http_sendHeartbeat nw cfg payload = heartbeat_attempts (nat (hMaxAttempts cfg)) nw cfg payload"

definition http_sendStatus :: "'n network \<Rightarrow> http_config \<Rightarrow> string \<Rightarrow> string option \<Rightarrow> ('n, unit) http_run" where
  "http_sendStatus nw cfg status msg =
     (\<lambda>s. if versioned (snd s) \<and> status \<in> {''success'', ''failure'', ''cancelled''} then (Ret (), s)
          else (let body = JObj ([(''taskId'', JStr (hTaskId cfg)), (''workerId'', JStr (hWorkerId cfg))]
                       @ (case resultState (snd s) of
                            Some st \<Rightarrow> if attemptId st \<noteq> [] then [(''attemptId'', JStr (attemptId st))] else []
                          | None \<Rightarrow> [])
                       @ [(''status'', JStr status), (''message'', opt_jstr msg)])
                in if versioned (snd s) \<and> status \<in> {''done'', ''failed'', ''cancelled'', ''dead_letter''}
                   then sendWithRetry nw cfg ''/status'' body s
                   else postWithRetry nw cfg ''/status'' body True s))"

definition http_sendSnapshot :: "'n network \<Rightarrow> http_config \<Rightarrow> string \<Rightarrow> string \<Rightarrow> string \<Rightarrow> ('n, unit) http_run" where
  "http_sendSnapshot nw cfg name type' data =
     post nw cfg ''/snapshots'' (JObj [(''taskId'', JStr (hTaskId cfg)), (''workerId'', JStr (hWorkerId cfg)),
       (''name'', JStr name), (''type'', JStr type'), (''data'', JStr data)])"

definition http_fetchRule :: "'n network \<Rightarrow> http_config \<Rightarrow> string \<Rightarrow> ('n, rule option) http_run" where
  "http_fetchRule nw cfg rid =
     bindR (request nw cfg ''GET'' (''/rules/'' @ encodeURIComponent rid) None)
       (\<lambda>r. if \<not> response_ok r then returnR None
            else bindR (read_text r)
              (\<lambda>t. case parseJsonN nw t of
                 None \<Rightarrow> throwR (JsError ''SyntaxError'' t)
               | Some v \<Rightarrow> returnR (if truthy v then Some (asRuleN nw v) else None)))"


section \<open>Claiming\<close>

record claimed_task =
  ctTaskId :: string
  ctAttemptId :: "string option"
  ctRuleId :: string
  ctRule :: "jval option"
  ctProfile :: "string option"
  ctVariables :: jobj

text \<open>The fields of the answer the worker reads; a field of another type than declared reads as absent.\<close>

definition string_field :: "jval \<Rightarrow> string \<Rightarrow> string option" where
  "string_field v k = (case get_prop v k of JStr s \<Rightarrow> Some s | _ \<Rightarrow> None)"

definition as_claimed_task :: "jval \<Rightarrow> claimed_task" where
  "as_claimed_task v = \<lparr>ctTaskId = or_default (string_field v ''taskId'') [], ctAttemptId = string_field v ''attemptId'',
     ctRuleId = or_default (string_field v ''ruleId'') [],
     ctRule = (if is_nullish (get_prop v ''rule'') then None else Some (get_prop v ''rule'')),
     ctProfile = string_field v ''browserProfileId'',
     ctVariables = (case get_prop v ''variables'' of JObj fs \<Rightarrow> fs | _ \<Rightarrow> [])\<rparr>"

definition claimTask :: "'n network \<Rightarrow> http_config \<Rightarrow> ('n, claimed_task option) http_run" where
  "claimTask nw cfg =
     bindR (request nw cfg ''POST'' ''/tasks/claim''
       (Some (JObj ((''workerId'', JStr (hWorkerId cfg)) #
          (case browserProfileId cfg of None \<Rightarrow> [] | Some p \<Rightarrow> [(''browserProfileId'', JStr p)])))))
       (\<lambda>r. if respStatus r = 204 then returnR None
            else if \<not> response_ok r
            then throwR (HttpTransportError (''claim failed: '' @ show_int (respStatus r)) (respStatus r))
            else bindR (read_text r)
              (\<lambda>t. case parseJsonN nw t of
                 None \<Rightarrow> throwR (JsError ''SyntaxError'' t)
               | Some v \<Rightarrow>
                   if is_nullish v then throwR (JsError ''TypeError'' ''browserProfileId'')
                   else (let task = as_claimed_task v in
                     case nonempty (ctProfile task) of
                       Some p \<Rightarrow>
                         if browserProfileId cfg \<noteq> Some p
                         then throwR (HttpTransportError (''claim profile mismatch: worker profile ''
                                @ or_default (browserProfileId cfg) ''<unbound>'' @ '' cannot execute task profile '' @ p) 409)
                         else returnR (Some task)
                     | None \<Rightarrow> returnR (if truthy v then Some task else None))))"


section \<open>Human interventions\<close>

record intervention =
  ivId :: string
  ivStatus :: string

definition as_intervention :: "jval \<Rightarrow> intervention" where
  "as_intervention v = (let i = get_prop v ''intervention'' in
     \<lparr>ivId = js_String (get_prop i ''id''), ivStatus = js_String (get_prop i ''status'')\<rparr>)"

definition read_intervention :: "'n network \<Rightarrow> string \<Rightarrow> http_response \<Rightarrow> ('n, intervention) http_run" where
  "read_intervention nw what r =
     bindR (read_text r)
       (\<lambda>t. if \<not> response_ok r then throwR (http_failure what r t)
            else (case parseJsonN nw t of
                    None \<Rightarrow> throwR (JsError ''SyntaxError'' t)
                  | Some v \<Rightarrow> if is_nullish (get_prop v ''intervention'') then throwR (JsError ''TypeError'' ''status'')
                              else returnR (as_intervention v)))"

definition cancelled_human :: exn where
  "cancelled_human = JsError ''AbortError'' ''HumanInterventionCancelled: task was cancelled''"

definition interventions_path :: "http_config \<Rightarrow> string" where
  "interventions_path cfg = ''/tasks/'' @ encodeURIComponent (hTaskId cfg) @ ''/human-interventions''"

definition poll_path :: "http_config \<Rightarrow> string \<Rightarrow> string \<Rightarrow> string" where
  "poll_path cfg aid iid = interventions_path cfg @ ''/'' @ encodeURIComponent iid @ ''?''
     @ search_params [(''workerId'', hWorkerId cfg), (''attemptId'', aid)]"

text \<open>The polling loop, with fuel for its rounds: \<open>None\<close> when the fuel runs out\<close>

primrec poll_decision ::
  "nat \<Rightarrow> 'n network \<Rightarrow> http_config \<Rightarrow> string \<Rightarrow> string \<Rightarrow> int \<Rightarrow> intervention \<Rightarrow> 'n http st
   \<Rightarrow> (intervention outcome \<times> 'n http st) option" where
  "poll_decision 0 nw cfg aid type' deadline d s = (if ivStatus d = ''pending'' then None else Some (Ret d, s))"
| "poll_decision (Suc n) nw cfg aid type' deadline d s =
     (if ivStatus d \<noteq> ''pending'' then Some (Ret d, s)
      else if abortedN nw (net (snd s)) then Some (Throw cancelled_human, s)
      else if nowN nw (net (snd s)) > deadline then Some (Throw (Error (''HumanTimeout: '' @ type')), s)
      else (case thenR (sleepH nw (humanPollIntervalMs cfg))
                 (bindR (request nw cfg ''GET'' (poll_path cfg aid (ivId d)) None)
                    (read_intervention nw ''human intervention poll failed: '')) s of
              (Throw e, s') \<Rightarrow> Some (Throw e, s')
            | (Ret d', s') \<Rightarrow> poll_decision n nw cfg aid type' deadline d' s'))"

definition decide :: "string \<Rightarrow> intervention \<Rightarrow> exn + intervention" where
  "decide type' d =
     (if ivStatus d = ''approved'' then Inr d
      else if ivStatus d = ''rejected'' then Inl (Error ''HumanRejected: operator rejected the intervention'')
      else if ivStatus d = ''expired'' then Inl (Error (''HumanTimeout: '' @ type'))
      else if ivStatus d = ''cancelled'' then Inl cancelled_human
      else Inl (Error (''HumanInterventionInvalidStatus: '' @ ivStatus d)))"

definition human_deadline :: "'n network \<Rightarrow> http_config \<Rightarrow> human_request \<Rightarrow> 'n http \<Rightarrow> int" where
  "human_deadline nw cfg req h = nowN nw (net h) + reqTimeoutMs req + max 5000 (humanPollIntervalMs cfg * 2)"

definition human_created :: "'n network \<Rightarrow> http_config \<Rightarrow> string \<Rightarrow> human_request \<Rightarrow> ('n, intervention) http_run" where
  "human_created nw cfg aid req =
     bindR (request nw cfg ''POST'' (interventions_path cfg)
       (Some (JObj [(''workerId'', JStr (hWorkerId cfg)), (''attemptId'', JStr aid), (''type'', JStr (reqType req)),
          (''prompt'', JStr (reqPrompt req)), (''timeoutMs'', jint (reqTimeoutMs req)),
          (''checkpoint'', JObj [(''stepId'', JStr (reqStepId req)), (''url'', JStr (reqUrl req))])])))
       (read_intervention nw ''human intervention request failed: '')"

definition http_requestHuman ::
  "nat \<Rightarrow> 'n network \<Rightarrow> http_config \<Rightarrow> human_request \<Rightarrow> 'n http st \<Rightarrow> (intervention outcome \<times> 'n http st) option" where
  "http_requestHuman fuel nw cfg req s =
     (case resultState (snd s) of
        None \<Rightarrow> Some (Throw (Error ''HumanInterventionUnavailable: execution attempt id is required''), s)
      | Some st \<Rightarrow>
          if attemptId st = []
          then Some (Throw (Error ''HumanInterventionUnavailable: execution attempt id is required''), s)
          else (case human_created nw cfg (attemptId st) req s of
             (Throw e, s') \<Rightarrow> Some (Throw e, s')
           | (Ret d, s') \<Rightarrow>
               map_option (\<lambda>(r, s''). ((case r of Throw e \<Rightarrow> Throw e
                    | Ret d' \<Rightarrow> (case decide (reqType req) d' of Inl e \<Rightarrow> Throw e | Inr x \<Rightarrow> Ret x)), s''))
                 (poll_decision fuel nw cfg (attemptId st) (reqType req)
                    (human_deadline nw cfg req (snd s')) d s')))"

end
