(* ===== verification/Worker.thy ===== *)
theory Worker
  imports Executor Http_Transport
begin

text \<open>
  Model of \<open>src/worker/Worker.ts\<close>: the loop that claims tasks, and the run of one task. A task has two
  transports, one that its cancellation aborts and one for the terminal reports; both hold the same
  object for the numbering of results, which the world of a task therefore has once. The rule is
  executed by a callback, or by \<open>runRule\<close> in an environment the factory builds. Timers and the
  flags other code sets are read off the network parameter.
\<close>

section \<open>The world of a task\<close>

record 'n task_world =
  taskBuffer :: "(string \<times> jval) list"
  taskTrace :: "string option"
  endBuffer :: "(string \<times> jval) list"
  endTrace :: "string option"
  sharedResult :: "submission_state option"
  taskNet :: 'n

definition task_http :: "'n task_world \<Rightarrow> 'n http" where
  "task_http w = \<lparr>httpBuffer = taskBuffer w, traceIdOf = taskTrace w, resultState = sharedResult w, net = taskNet w\<rparr>"

definition end_http :: "'n task_world \<Rightarrow> 'n http" where
  "end_http w = \<lparr>httpBuffer = endBuffer w, traceIdOf = endTrace w, resultState = sharedResult w, net = taskNet w\<rparr>"

text \<open>A call on the transport of the task, and one on the transport of the terminal reports\<close>

definition on_task :: "('n, 'a) http_run \<Rightarrow> ('n task_world, 'a) run" where
  "on_task m = (\<lambda>(c, w). case m (c, task_http w) of (r, (c', h)) \<Rightarrow>
     (r, (c', w\<lparr>taskBuffer := httpBuffer h, taskTrace := traceIdOf h, sharedResult := resultState h, taskNet := net h\<rparr>)))"

definition on_end :: "('n, 'a) http_run \<Rightarrow> ('n task_world, 'a) run" where
  "on_end m = (\<lambda>(c, w). case m (c, end_http w) of (r, (c', h)) \<Rightarrow>
     (r, (c', w\<lparr>endBuffer := httpBuffer h, endTrace := traceIdOf h, sharedResult := resultState h, taskNet := net h\<rparr>)))"


section \<open>Options and construction\<close>

record executed =
  exStatus :: run_status
  exMessage :: "string option"
  exData :: jval

type_synonym 'n rule_executor = "rule \<Rightarrow> claimed_task \<Rightarrow> ('n task_world, executed) run"

type_synonym 'n env_factory = "claimed_task \<Rightarrow> 'n task_world env"

record 'n worker_options =
  woBaseUrl :: string
  woWorkerId :: string
  woBrowserProfileId :: "string option"
  woApiKey :: "string option"
  woTraceId :: "string option"
  woEnvFactory :: "'n env_factory option"
  woRuleExecutor :: "'n rule_executor option"
  woPollIntervalMs :: "int option"
  woHeartbeatIntervalMs :: "int option"
  woClaimBackoffMs :: "int option"
  woMaxClaimBackoffMs :: "int option"
  woServerErrorBackoffMs :: "int option"

record 'n worker =
  wkBaseUrl :: string
  wkWorkerId :: string
  wkProfile :: "string option"
  wkApiKey :: "string option"
  wkTraceId :: "string option"
  envFactory :: "'n env_factory option"
  ruleExecutor :: "'n rule_executor option"
  pollIntervalMs :: int
  heartbeatIntervalMs :: int
  claimBackoffMs :: int
  maxClaimBackoffMs :: int
  serverErrorBackoffMs :: int

definition new_worker :: "'n worker_options \<Rightarrow> string + 'n worker" where
  "new_worker opts =
     (if woEnvFactory opts = None \<and> woRuleExecutor opts = None then Inl ''Worker requires either envFactory or ruleExecutor''
      else Inr \<lparr>wkBaseUrl = strip_slash (woBaseUrl opts), wkWorkerId = woWorkerId opts, wkProfile = trimmed_profile (woBrowserProfileId opts),
        wkApiKey = woApiKey opts, wkTraceId = woTraceId opts, envFactory = woEnvFactory opts, ruleExecutor = woRuleExecutor opts,
        pollIntervalMs = or_default (woPollIntervalMs opts) 5000, heartbeatIntervalMs = or_default (woHeartbeatIntervalMs opts) 30000,
        claimBackoffMs = or_default (woClaimBackoffMs opts) 1000, maxClaimBackoffMs = or_default (woMaxClaimBackoffMs opts) 30000,
        serverErrorBackoffMs = or_default (woServerErrorBackoffMs opts) 1000\<rparr>)"

definition transport_options :: "'n worker \<Rightarrow> string \<Rightarrow> string option \<Rightarrow> http_options" where
  "transport_options wk tid profile = \<lparr>hoBaseUrl = wkBaseUrl wk, hoWorkerId = wkWorkerId wk, hoTaskId = tid,
     hoBrowserProfileId = profile, hoApiKey = wkApiKey wk, hoMaxAttempts = None,
     hoRetryDelayMs = Some (serverErrorBackoffMs wk), hoBufferCapacity = Some 100, hoHumanPollIntervalMs = None\<rparr>"

definition createTransport :: "'n worker \<Rightarrow> http_config" where
  "createTransport wk = http_config_of (transport_options wk (wkWorkerId wk) (wkProfile wk))"

definition createTaskTransport :: "'n worker \<Rightarrow> claimed_task \<Rightarrow> http_config" where
  "createTaskTransport wk task = http_config_of (transport_options wk (ctTaskId task) None)"

text \<open>
  What the transports see of the network: the one of the claims and the one of a task are aborted by
  their signals, the one of the terminal reports by none. \<open>runningN\<close> is the flag \<open>stop\<close> clears,
  \<open>abortTaskN\<close> the abort of the running task, \<open>handlersN\<close> the leaf handlers of the engine.
\<close>

record 'n worker_net =
  claimNw :: "'n network"
  taskNw :: "'n network"
  endNw :: "'n network"
  runningN :: "'n \<Rightarrow> bool"
  abortTaskN :: "'n \<Rightarrow> 'n"
  handlersN :: "'n task_world run_world env \<Rightarrow> 'n task_world run_world handler"


section \<open>One task\<close>

definition fresh_submission :: "claimed_task \<Rightarrow> submission_state option" where
  "fresh_submission task = map_option (\<lambda>a. \<lparr>attemptId = a, nextSequence = 0, pending = None\<rparr>) (nonempty (ctAttemptId task))"

definition fresh_task_world :: "claimed_task \<Rightarrow> 'n http \<Rightarrow> 'n task_world" where
  "fresh_task_world task h = \<lparr>taskBuffer = [], taskTrace = traceIdOf h, endBuffer = [], endTrace = traceIdOf h,
     sharedResult = fresh_submission task, taskNet = net h\<rparr>"

definition heartbeat_tick :: "'n worker \<Rightarrow> 'n worker_net \<Rightarrow> claimed_task \<Rightarrow> ('n task_world, unit) run" where
  "heartbeat_tick wk nt task =
     (\<lambda>s. ignoreR (bindR (on_task (http_sendHeartbeat (taskNw nt) (createTaskTransport wk task)
              (Some [(''ts'', jint (nowN (taskNw nt) (taskNet (snd s))))])))
        (\<lambda>b (c, w). (Ret (), (c, if b then w\<lparr>taskNet := abortTaskN nt (taskNet w)\<rparr> else w)))) s)"

definition task_rule :: "'n worker \<Rightarrow> 'n worker_net \<Rightarrow> claimed_task \<Rightarrow> ('n task_world, rule option) run" where
  "task_rule wk nt task =
     (case ctRule task of
        Some v \<Rightarrow> returnR (if truthy v then Some (asRuleN (taskNw nt) v) else None)
      | None \<Rightarrow> on_task (http_fetchRule (taskNw nt) (createTaskTransport wk task) (ctRuleId task)))"

definition rule_options :: "'n worker \<Rightarrow> claimed_task \<Rightarrow> rule \<Rightarrow> 'n task_world executor_options" where
  "rule_options wk task rl = \<lparr>optRule = rl, optTaskId = ctTaskId task, optWorkerId = wkWorkerId wk,
     optVariables = ctVariables task, resumeStepPath = None, initialContext = None, initialHooksCompleted = None,
     onCheckpoint = None, onStepFailureOpt = None, humanizeReplay = False\<rparr>"

text \<open>The engine in the worker's own process\<close>

definition in_process :: "'n worker \<Rightarrow> 'n worker_net \<Rightarrow> 'n env_factory \<Rightarrow> 'n rule_executor" where
  "in_process wk nt factory rl task =
     (\<lambda>(c, w). case runRule (handlersN nt) (factory task) (rule_options wk task rl) w of
        (Throw e, (_, rw)) \<Rightarrow> (Throw e, (c, inner rw))
      | (Ret r, (_, rw)) \<Rightarrow>
          (Ret \<lparr>exStatus = resStatus r, exMessage = Some (resMessage r), exData = JObj (partialData r)\<rparr>, (c, inner rw)))"

definition execute_rule :: "'n worker \<Rightarrow> 'n worker_net \<Rightarrow> 'n rule_executor" where
  "execute_rule wk nt rl task =
     (case ruleExecutor wk of
        Some ex \<Rightarrow> ex rl task
      | None \<Rightarrow> (case envFactory wk of
           Some factory \<Rightarrow> in_process wk nt factory rl task
         | None \<Rightarrow> throwR (JsError ''TypeError'' ''envFactory'')))"

definition summary_of :: "executed \<Rightarrow> jval" where
  "summary_of x = JObj [(''status'', JStr (status_string (exStatus x))), (''message'', opt_jstr (exMessage x)), (''data'', exData x)]"

definition report_executed :: "'n worker \<Rightarrow> 'n worker_net \<Rightarrow> claimed_task \<Rightarrow> executed \<Rightarrow> ('n task_world, unit) run" where
  "report_executed wk nt task x =
     thenR (on_end (sendFinalSummary (endNw nt) (createTaskTransport wk task) (summary_of x)))
       (if exStatus x = Cancelled
        then on_end (http_sendStatus (endNw nt) (createTaskTransport wk task) ''cancelled'' (Some (or_default (exMessage x) ''cancelled'')))
        else on_end (http_sendStatus (endNw nt) (createTaskTransport wk task)
               (if exStatus x = Success then ''done'' else ''failed'') (Some (or_default (exMessage x) []))))"

definition prepare_task :: "'n worker \<Rightarrow> 'n worker_net \<Rightarrow> claimed_task \<Rightarrow> ('n task_world, rule option) run" where
  "prepare_task wk nt task =
     thenR (on_task (http_sendStatus (taskNw nt) (createTaskTransport wk task) ''running''
              (Some (''Task '' @ ctTaskId task @ '' started''))))
       (task_rule wk nt task)"

definition task_body :: "'n worker \<Rightarrow> 'n worker_net \<Rightarrow> claimed_task \<Rightarrow> ('n task_world, unit) run" where
  "task_body wk nt task =
     bindR (prepare_task wk nt task)
       (\<lambda>r. case r of
          None \<Rightarrow> throwR (Error (''Rule '' @ ctRuleId task @ '' not found''))
        | Some rl \<Rightarrow> bindR (execute_rule wk nt rl task) (report_executed wk nt task))"

definition runTask :: "'n worker \<Rightarrow> 'n worker_net \<Rightarrow> claimed_task \<Rightarrow> ('n task_world, unit) run" where
  "runTask wk nt task =
     catchR (task_body wk nt task)
       (\<lambda>e. if is_abort e
            then on_end (http_sendStatus (endNw nt) (createTaskTransport wk task) ''cancelled'' (Some ''Task cancelled by operator''))
            else thenR (on_end (http_sendLog (endNw nt) (createTaskTransport wk task) ''error'' (exn_message e)
                          (Some [(''stack'', JUndef)])))
                   (on_end (http_sendStatus (endNw nt) (createTaskTransport wk task) ''failed'' (Some (exn_message e)))))"


section \<open>The claim loop\<close>

record 'n claiming =
  claimHttp :: "'n http"
  currentClaimBackoff :: int

definition on_claim :: "('n, 'a) http_run \<Rightarrow> ('n claiming, 'a) run" where
  "on_claim m = (\<lambda>(c, w). case m (c, claimHttp w) of (r, (c', h)) \<Rightarrow> (r, (c', w\<lparr>claimHttp := h\<rparr>)))"

definition set_backoff :: "int \<Rightarrow> ('n claiming, unit) run" where
  "set_backoff b = (\<lambda>(c, w). (Ret (), (c, w\<lparr>currentClaimBackoff := b\<rparr>)))"

definition run_claimed :: "'n worker \<Rightarrow> 'n worker_net \<Rightarrow> claimed_task \<Rightarrow> ('n claiming, unit) run" where
  "run_claimed wk nt task =
     (\<lambda>(c, w). case runTask wk nt task (c, fresh_task_world task (claimHttp w)) of
        (r, (c', t)) \<Rightarrow> (r, (c', w\<lparr>claimHttp := (claimHttp w)\<lparr>net := taskNet t\<rparr>\<rparr>)))"

definition next_backoff :: "'n worker \<Rightarrow> exn \<Rightarrow> int \<Rightarrow> int" where
  "next_backoff wk e b = (if retryable e then min (b * 2) (maxClaimBackoffMs wk) else claimBackoffMs wk)"

text \<open>One round of the loop; its result says whether the loop goes on.\<close>

definition claim_round :: "'n worker \<Rightarrow> 'n worker_net \<Rightarrow> ('n claiming, bool) run" where
  "claim_round wk nt =
     catchR
       (thenR
         (bindR (on_claim (claimTask (claimNw nt) (createTransport wk)))
           (\<lambda>task. thenR (set_backoff (claimBackoffMs wk))
              (case task of
                 Some t \<Rightarrow> run_claimed wk nt t
               | None \<Rightarrow> on_claim (sleepH (claimNw nt) (pollIntervalMs wk)))))
         (returnR True))
       (\<lambda>e. if is_abort e then returnR False
            else (\<lambda>s. thenR (set_backoff (next_backoff wk e (currentClaimBackoff (snd s))))
                   (thenR (on_claim (sleepH (claimNw nt) (next_backoff wk e (currentClaimBackoff (snd s)))))
                     (returnR True)) s))"

text \<open>The loop, with fuel for its rounds\<close>

primrec claim_loop :: "nat \<Rightarrow> 'n worker \<Rightarrow> 'n worker_net \<Rightarrow> 'n claiming st \<Rightarrow> (unit outcome \<times> 'n claiming st) option" where
  "claim_loop 0 wk nt s = None"
| "claim_loop (Suc n) wk nt s =
     (if \<not> runningN nt (net (claimHttp (snd s))) then Some (Ret (), s)
      else (case claim_round wk nt s of
              (Ret True, s') \<Rightarrow> claim_loop n wk nt s'
            | (Ret False, s') \<Rightarrow> Some (Ret (), s')
            | (Throw e, s') \<Rightarrow> Some (Throw e, s')))"

definition start_worker :: "nat \<Rightarrow> 'n worker \<Rightarrow> 'n worker_net \<Rightarrow> runtime_context \<Rightarrow> 'n \<Rightarrow> (unit outcome \<times> 'n claiming st) option" where
  "start_worker n wk nt c w =
     claim_loop n wk nt (c, \<lparr>claimHttp = \<lparr>httpBuffer = [], traceIdOf = wkTraceId wk, resultState = None, net = w\<rparr>,
        currentClaimBackoff = claimBackoffMs wk\<rparr>)"

end
