(* ===== verification/Http_Demo.thy ===== *)
theory Http_Demo
  imports Http_Transport Demo_Env Url_Policy
begin

text \<open>
  A concrete network, on which the properties of the transport are evaluated: the replies are
  scripted, the requests recorded, and the clock moves only by sleeping. A reply is a failure of the
  connection or a status with a body.
\<close>

record demo_net =
  replies :: "(exn + int \<times> string) list"
  requests_seen :: "string list"
  net_clock :: int

definition demo_json :: "string \<Rightarrow> jval option" where
  "demo_json t =
     (if t = ''accepted'' then Some (JObj [(''success'', JBool True), (''valid'', JBool True), (''duplicate'', JBool False)])
      else if t = ''refused'' then Some (JObj [(''success'', JBool False), (''valid'', JBool False), (''duplicate'', JBool False),
        (''error'', JStr ''schema'')])
      else if t = ''pending'' \<or> t = ''approved''
      then Some (JObj [(''intervention'', JObj [(''id'', JStr ''i1''), (''status'', JStr t)])])
      else if t = ''task'' then Some (JObj [(''taskId'', JStr ''t1''), (''ruleId'', JStr ''r1''), (''browserProfileId'', JStr ''p1'')])
      else None)"

definition demo_network :: "demo_net network" where
  "demo_network = \<lparr>
     fetchN = (\<lambda>rq n. case replies n of
        [] \<Rightarrow> (Inr \<lparr>respStatus = 404, respText = Inr [], respTrace = None\<rparr>, n\<lparr>requests_seen := requests_seen n @ [rqUrl rq]\<rparr>)
      | x # xs \<Rightarrow> (case x of Inl e \<Rightarrow> Inl e | Inr (st, t) \<Rightarrow> Inr \<lparr>respStatus = st, respText = Inr t, respTrace = None\<rparr>,
                   n\<lparr>replies := xs, requests_seen := requests_seen n @ [rqUrl rq]\<rparr>)),
     sleepN = (\<lambda>ms n. n\<lparr>net_clock := net_clock n + ms\<rparr>),
     nowN = net_clock,
     abortedN = (\<lambda>_. False),
     parseJsonN = demo_json,
     asRuleN = (\<lambda>_. shop_rule)\<rparr>"

definition demo_http_config :: http_config where
  "demo_http_config = \<lparr>baseUrl = ''http://api'', hWorkerId = ''w1'', hTaskId = ''t1'', browserProfileId = Some ''p1'',
     apiKey = None, hMaxAttempts = 2, retryDelayMs = 10, bufferCapacity = 2, humanPollIntervalMs = 1000\<rparr>"

definition demo_http :: "(exn + int \<times> string) list \<Rightarrow> submission_state option \<Rightarrow> demo_net http" where
  "demo_http rs st = \<lparr>httpBuffer = [(''/logs'', JStr ''a''), (''/logs'', JStr ''b'')], traceIdOf = None, resultState = st,
     net = \<lparr>replies = rs, requests_seen = [], net_clock = 0\<rparr>\<rparr>"

definition demo_attempt :: submission_state where
  "demo_attempt = \<lparr>attemptId = ''a1'', nextSequence = 0, pending = None\<rparr>"

end
