(* ===== verification/Http_Laws.thy ===== *)
theory Http_Laws
  imports Http_Demo Effects
begin

text \<open>
  Properties of the HTTP transport: the bounds of its retries and of its buffer, what a failed send
  leaves behind, the numbering of results, human interventions, and the messages it drops.
\<close>

section \<open>What one request touches\<close>

text \<open>A view of the transport that depends only on its buffer, its trace or its result state\<close>

lemma http_state_eff:
  fixes view :: "'n http \<Rightarrow> 'v"
  assumes "\<And>h n t. view (h\<lparr>net := n, traceIdOf := t\<rparr>) = view h"
  shows "eff (keeps view) 0 (request nw cfg meth path body)" "eff (keeps view) 0 (sleepH nw ms)"
proof -
  have net: "view (h\<lparr>net := n\<rparr>) = view h" for h n
    using assms [where h = h and n = n and t = "traceIdOf h"] by simp
  show "eff (keeps view) 0 (request nw cfg meth path body)"
    using assms net by (auto simp: eff_def request_def keeps_def split: prod.splits sum.splits)
  show "eff (keeps view) 0 (sleepH nw ms)"
    using net by (auto simp: eff_def sleepH_def keeps_def)
qed

locale http_discipline = effect_discipline R for R :: "nat \<Rightarrow> 'n http \<Rightarrow> 'n http \<Rightarrow> bool" +
  fixes nw :: "'n network" and cost :: nat
  assumes requests: "eff R cost (request nw cfg meth path body)" and sleeps: "eff R 0 (sleepH nw ms)"
begin

lemma eff_read_text: "eff R 0 (read_text r)"
  by (simp add: read_text_def eff_pure split: sum.split)

lemma eff_post: "eff R cost (post nw cfg path body)"
proof -
  have "eff R 0 (bindR (read_text r) (\<lambda>t. if response_ok r then returnR () else throwR (http_failure p r t)))" for r p
    by (intro eff_bindR0 eff_read_text) (simp add: eff_pure)
  then show ?thesis
    unfolding post_def using eff_bindR [OF requests, of 0] by fastforce
qed

lemma eff_post_result: "eff R cost (post_result nw cfg body)"
proof -
  have "eff R 0 (bindR (read_text r) (\<lambda>t. if \<not> response_ok r then throwR (http_failure p r t) else lift_sum (parse_ack nw t)))" for r p
    by (intro eff_bindR0 eff_read_text) (auto simp: eff_pure lift_sum_def split: sum.split)
  then show ?thesis
    unfolding post_result_def using eff_bindR [OF requests, of 0] by fastforce
qed

lemma eff_send_attempts: "eff R (n * cost) (send_attempts n nw cfg path body)"
proof (induction n)
  case (Suc n)
  have "eff R (n * cost) (if is_abort e \<or> \<not> retryable e \<or> n = 0 then throwR e
      else thenR (sleepH nw (retryDelayMs cfg)) (send_attempts n nw cfg path body))" for e
    using Suc.IH by (auto simp: eff_pure intro!: eff_thenR0 sleeps)
  then show ?case
    using eff_catchR [OF eff_post, of "n * cost"] by (simp add: add.commute)
qed (simp add: eff_def stay)

lemma eff_post_result_attempts: "eff R (n * cost) (post_result_attempts n nw cfg body)"
proof (induction n)
  case (Suc n)
  have "eff R (n * cost) (if is_abort e \<or> \<not> retryable e \<or> n = 0 then throwR e
      else thenR (sleepH nw (retryDelayMs cfg)) (post_result_attempts n nw cfg body))" for e
    using Suc.IH by (auto simp: eff_pure intro!: eff_thenR0 sleeps)
  then show ?case
    using eff_catchR [OF eff_post_result, of "n * cost"] by (simp add: add.commute)
qed (simp add: eff_def stay)

lemma eff_sendWithRetry: "eff R (nat (hMaxAttempts cfg) * cost) (sendWithRetry nw cfg path body)"
  unfolding sendWithRetry_def by (rule eff_send_attempts)

lemma eff_postResultWithRetry: "eff R (nat (hMaxAttempts cfg) * cost) (postResultWithRetry nw cfg body)"
  unfolding postResultWithRetry_def by (rule eff_post_result_attempts)

end


text \<open>Sending touches neither the buffer nor the numbering of the results.\<close>

interpretation buffer_kept: http_discipline "keeps httpBuffer" nw 0 for nw
  by unfold_locales (auto intro: http_state_eff)

interpretation numbers_kept: http_discipline "keeps resultState" nw 0 for nw
  by unfold_locales (auto intro: http_state_eff)

text \<open>Counting the requests, by any measure of the network that one request raises by at most one\<close>

definition request_counter :: "'n network \<Rightarrow> ('n \<Rightarrow> nat) \<Rightarrow> bool" where
  "request_counter nw cnt \<longleftrightarrow>
     (\<forall>rq n. cnt (snd (fetchN nw rq n)) \<le> cnt n + 1) \<and> (\<forall>ms n. cnt (sleepN nw ms n) \<le> cnt n)"

lemma counted_requests:
  assumes "request_counter nw cnt"
  shows "http_discipline (counts (\<lambda>h. cnt (net h))) nw 1"
proof
  fix cfg meth path body
  show "eff (counts (\<lambda>h. cnt (net h))) 1 (request nw cfg meth path body)"
  proof (rule counting.effI)
    fix s r s' assume run: "request nw cfg meth path body s = (r, s')"
    obtain c h where s: "s = (c, h)" by (cases s)
    let ?rq = "\<lparr>rqMethod = meth, rqUrl = baseUrl cfg @ path, rqHeaders = request_headers cfg (traceIdOf h),
                 rqBody = Option.bind body json_text\<rparr>"
    have "net (snd s') = snd (fetchN nw ?rq (net h))"
      using run s by (auto simp: request_def split: prod.splits sum.splits)
    then show "counts (\<lambda>h. cnt (net h)) 1 (snd s) (snd s')"
      using assms s by (simp add: request_counter_def counts_def)
  qed
next
  fix ms
  show "eff (counts (\<lambda>h. cnt (net h))) 0 (sleepH nw ms)"
    using assms by (auto simp: eff_def sleepH_def counts_def request_counter_def)
qed

text \<open>A message is put on the wire at most as often as the configuration allows attempts, and so is
  a numbered result, whatever the server answers.\<close>

theorem send_attempts_bounded:
  assumes "request_counter nw cnt"
  shows "cnt (net (snd (snd (sendWithRetry nw cfg path body s)))) \<le> cnt (net (snd s)) + nat (hMaxAttempts cfg)
     \<and> cnt (net (snd (snd (postResultWithRetry nw cfg body s)))) \<le> cnt (net (snd s)) + nat (hMaxAttempts cfg)"
proof -
  note c = counted_requests [OF assms]
  show ?thesis
    using http_discipline.eff_sendWithRetry [OF c, of cfg path body]
      http_discipline.eff_postResultWithRetry [OF c, of cfg body]
    by (auto simp: eff_def counts_def split_beta) (metis prod.collapse)+
qed

theorem send_attempts_bounded_witness:
  "length (requests_seen (net (snd (snd (sendWithRetry demo_network demo_http_config ''/status'' JNull
     (demo_ctx, demo_http [Inr (503, ''''), Inr (503, ''''), Inr (503, '''')] None)))))) = 2 \<and> hMaxAttempts demo_http_config = 2"
proof -
  have count: "request_counter demo_network (\<lambda>n. length (requests_seen n))"
    by (auto simp: request_counter_def demo_network_def split: list.split)
  let ?s = "(demo_ctx, demo_http [Inr (503, ''''), Inr (503, ''''), Inr (503, '''')] None)"
  have "length (requests_seen (net (snd ?s))) = 0" "nat (hMaxAttempts demo_http_config) = 2" by code_simp+
  then have "length (requests_seen (net (snd (snd (sendWithRetry demo_network demo_http_config ''/status'' JNull ?s))))) \<le> 2"
    using conjunct1 [OF send_attempts_bounded [OF count, of demo_http_config "''/status''" JNull ?s]] by simp
  moreover have "2 \<le> length (requests_seen (net (snd (snd (sendWithRetry demo_network demo_http_config ''/status'' JNull ?s)))))"
    by code_simp
  moreover have "hMaxAttempts demo_http_config = 2" by code_simp
  ultimately show ?thesis by simp
qed


section \<open>The buffer\<close>

lemma sendWithRetry_keeps:
  assumes "sendWithRetry nw cfg path body s = (r, s')"
  shows "httpBuffer (snd s') = httpBuffer (snd s)" "resultState (snd s') = resultState (snd s)"
  using keeping.effD [OF buffer_kept.eff_sendWithRetry assms]
    keeping.effD [OF numbers_kept.eff_sendWithRetry assms]
  by (simp_all add: keeps_def)

lemma flush_loop_result:
  assumes "length (httpBuffer (snd s)) \<le> n"
  shows "\<exists>k s'. flush_loop n nw cfg s = (Ret (), s') \<and> k \<le> length (httpBuffer (snd s))
     \<and> httpBuffer (snd s') = drop k (httpBuffer (snd s)) \<and> resultState (snd s') = resultState (snd s)
     \<and> (k < length (httpBuffer (snd s)) \<longrightarrow>
          (\<exists>s1 e. sendWithRetry nw cfg (fst (httpBuffer (snd s) ! k)) (snd (httpBuffer (snd s) ! k)) s1 = (Throw e, s')))"
  using assms
proof (induction n arbitrary: s)
  case (Suc n)
  show ?case
  proof (cases "httpBuffer (snd s)")
    case (Cons p rest)
    obtain path body where p: "p = (path, body)" by (cases p)
    obtain r c h where send: "sendWithRetry nw cfg path body s = (r, (c, h))"
      by (metis prod.exhaust)
    have buf: "httpBuffer h = p # rest" "resultState h = resultState (snd s)"
      using sendWithRetry_keeps [OF send] Cons by simp_all
    show ?thesis
    proof (cases r)
      case (Ret u)
      let ?s = "(c, h\<lparr>httpBuffer := tl (httpBuffer h)\<rparr>)"
      have step: "flush_loop (Suc n) nw cfg s = flush_loop n nw cfg ?s"
        using send Ret Cons p by simp
      have rest: "httpBuffer (snd ?s) = rest" "resultState (snd ?s) = resultState (snd s)" using buf by simp_all
      have "length (httpBuffer (snd ?s)) \<le> n" using Suc.prems Cons rest by simp
      from Suc.IH [OF this, unfolded rest] obtain k s' where k: "flush_loop n nw cfg ?s = (Ret (), s')" "k \<le> length rest"
          "httpBuffer (snd s') = drop k rest" "resultState (snd s') = resultState (snd s)"
          "k < length rest \<longrightarrow> (\<exists>s1 e. sendWithRetry nw cfg (fst (rest ! k)) (snd (rest ! k)) s1 = (Throw e, s'))"
        by blast
      show ?thesis
        unfolding step by (rule exI [of _ "Suc k"], rule exI [of _ s']) (use k Cons in auto)
    next
      case (Throw e)
      have step: "flush_loop (Suc n) nw cfg s = (Ret (), (c, h))"
        using send Throw Cons p by simp
      show ?thesis
        unfolding step by (rule exI [of _ 0], rule exI [of _ "(c, h)"]) (use buf Cons p send Throw in \<open>cases s; auto\<close>)
    qed
  qed simp
qed simp

lemma flush_total:
  "\<exists>k s'. flushBuffer nw cfg s = (Ret (), s') \<and> httpBuffer (snd s') = drop k (httpBuffer (snd s))"
  using flush_loop_result [of s "length (httpBuffer (snd s))" nw cfg] unfolding flushBuffer_def by blast

text \<open>Flushing never throws; it delivers the oldest entries of the buffer, in order and from the
  front, and stops only at the end of the buffer or at an entry whose sending fails.\<close>

theorem flush_delivers_in_order:
  "\<exists>k s'. flushBuffer nw cfg s = (Ret (), s') \<and> k \<le> length (httpBuffer (snd s))
     \<and> httpBuffer (snd s') = drop k (httpBuffer (snd s))
     \<and> (k = length (httpBuffer (snd s)) \<or>
          (\<exists>s1 e. sendWithRetry nw cfg (fst (httpBuffer (snd s) ! k)) (snd (httpBuffer (snd s) ! k)) s1 = (Throw e, s')))"
  using flush_loop_result [of s "length (httpBuffer (snd s))" nw cfg]
  unfolding flushBuffer_def by (metis le_neq_implies_less order_refl)

definition buffer_bounded :: "http_config \<Rightarrow> 'n http \<Rightarrow> bool" where
  "buffer_bounded cfg h \<longleftrightarrow> int (length (httpBuffer h)) \<le> max 1 (bufferCapacity cfg)"

lemma bounded_flush: "eff (preserves (buffer_bounded cfg)) 0 (flushBuffer nw cfg)"
proof (rule preserving.effI)
  fix s r s' assume run: "flushBuffer nw cfg s = (r, s')"
  obtain k where "httpBuffer (snd s') = drop k (httpBuffer (snd s))"
    using flush_total [of nw cfg s] run by auto
  then show "preserves (buffer_bounded cfg) 0 (snd s) (snd s')"
    by (auto simp: preserves_def buffer_bounded_def)
qed

lemma bounded_kept:
  "eff (keeps httpBuffer) 0 m \<Longrightarrow> eff (preserves (buffer_bounded cfg)) 0 m"
  unfolding buffer_bounded_def by (rule eff_keeps_preserves [where P = "\<lambda>b. int (length b) \<le> max 1 (bufferCapacity cfg)"])

lemma bounded_enqueue: "eff (preserves (buffer_bounded cfg)) 0 (enqueue cfg path body)"
  by (auto simp: eff_def enqueue_def preserves_def buffer_bounded_def)

lemma kept_sendWithRetry: "eff (keeps httpBuffer) 0 (sendWithRetry nw cfg path body)"
  using buffer_kept.eff_sendWithRetry [of cfg nw path body] by simp

lemma bounded_postWithRetry: "eff (preserves (buffer_bounded cfg)) 0 (postWithRetry nw cfg path body b)"
  unfolding postWithRetry_def
  by (intro preserving.eff_thenR0 preserving.eff_catchR0 bounded_flush bounded_kept [OF kept_sendWithRetry])
    (auto simp: preserving.eff_pure bounded_enqueue)

lemma kept_submission: "eff (keeps httpBuffer) 0 (set_submission st)" "eff (keeps httpBuffer) 0 clear_pending"
  by (auto simp: eff_def keeps_def set_submission_def clear_pending_def)

lemma kept_versioned: "eff (keeps httpBuffer) 0 (sendVersionedResult nw cfg kind payload imm)"
proof -
  have "eff (keeps httpBuffer) 0 (deliver_pending nw cfg p)" for p
    unfolding deliver_pending_def using buffer_kept.eff_postResultWithRetry [of cfg nw "pEnvelope p"]
    by (intro keeping.eff_thenR0 keeping.eff_bindR0 kept_submission) (auto simp: keeping.eff_pure)
  then have "eff (keeps httpBuffer) 0 (thenR (set_submission st) (deliver_pending nw cfg p))" for st p
    by (intro keeping.eff_thenR0 kept_submission)
  then show ?thesis
    unfolding sendVersionedResult_def
    by (intro keeping.effI) (auto simp: keeping.stay split: option.splits if_splits sum.splits dest: keeping.effD)
qed

text \<open>The buffer of undelivered messages never holds more than its capacity: results, logs, states
  and summaries keep it bounded, dropping the oldest entry when it is full.\<close>

theorem http_buffer_bounded:
  assumes "buffer_bounded cfg (snd s)"
  shows "buffer_bounded cfg (snd (snd (http_sendResult nw cfg v imm s)))
    \<and> buffer_bounded cfg (snd (snd (sendFinalSummary nw cfg v s)))
    \<and> buffer_bounded cfg (snd (snd (http_sendLog nw cfg l m x s)))
    \<and> buffer_bounded cfg (snd (snd (http_sendStatus nw cfg st msg s)))"
proof (intro conjI)
  have post: "buffer_bounded cfg (snd (snd (postWithRetry nw cfg path body b s)))" for path body b
    using preserving.effD [OF bounded_postWithRetry, of nw cfg path body b s] assms
    by (metis preserves_def less_irrefl prod.collapse)
  have ver: "buffer_bounded cfg (snd (snd (sendVersionedResult nw cfg k w i s)))" for k w i
    using preserving.effD [OF bounded_kept [OF kept_versioned], of nw cfg k w i s] assms
    by (metis preserves_def less_irrefl prod.collapse)
  have direct: "buffer_bounded cfg (snd (snd (sendWithRetry nw cfg path body s)))" for path body
    using preserving.effD [OF bounded_kept [OF kept_sendWithRetry], of nw cfg path body s] assms
    by (metis preserves_def less_irrefl prod.collapse)
  show result: "buffer_bounded cfg (snd (snd (http_sendResult nw cfg v imm s)))" for v imm
    using post ver assms by (simp add: http_sendResult_def)
  show "buffer_bounded cfg (snd (snd (sendFinalSummary nw cfg v s)))"
    using result ver by (simp add: sendFinalSummary_def)
  show "buffer_bounded cfg (snd (snd (http_sendLog nw cfg l m x s)))"
    using post by (simp add: http_sendLog_def)
  show "buffer_bounded cfg (snd (snd (http_sendStatus nw cfg st msg s)))"
    using post direct assms by (simp add: http_sendStatus_def Let_def)
qed

theorem http_buffer_bounded_witness:
  "httpBuffer (snd (snd (http_sendLog demo_network demo_http_config ''info'' ''m'' None
       (demo_ctx, demo_http (replicate 6 (Inr (503, ''''))) None)))) \<noteq> httpBuffer (demo_http [] None)
   \<and> length (httpBuffer (snd (snd (http_sendLog demo_network demo_http_config ''info'' ''m'' None
       (demo_ctx, demo_http (replicate 6 (Inr (503, ''''))) None))))) \<le> 2"
proof
  let ?s = "(demo_ctx, demo_http (replicate 6 (Inr (503, ''''))) None)"
  show "httpBuffer (snd (snd (http_sendLog demo_network demo_http_config ''info'' ''m'' None ?s))) \<noteq> httpBuffer (demo_http [] None)"
    by code_simp
  have "buffer_bounded demo_http_config (snd ?s)" by code_simp
  then have "buffer_bounded demo_http_config (snd (snd (http_sendLog demo_network demo_http_config ''info'' ''m'' None ?s)))"
    using http_buffer_bounded by blast
  moreover have "bufferCapacity demo_http_config = 2" by code_simp
  ultimately show "length (httpBuffer (snd (snd (http_sendLog demo_network demo_http_config ''info'' ''m'' None ?s)))) \<le> 2"
    by (simp add: buffer_bounded_def)
qed

lemma postWithRetry_total: "fst (postWithRetry nw cfg path body True s) = Ret ()"
proof -
  have flush: "\<exists>s'. flushBuffer nw cfg s = (Ret (), s')" for s :: "'a http st"
    using flush_total by blast
  obtain s1 where 1: "flushBuffer nw cfg s = (Ret (), s1)" using flush by blast
  obtain r s2 where 2: "sendWithRetry nw cfg path body s1 = (r, s2)" by (cases "sendWithRetry nw cfg path body s1")
  obtain s3 where 3: "flushBuffer nw cfg s2 = (Ret (), s3)" using flush by blast
  show ?thesis
    using 1 2 3 by (cases r) (auto simp: postWithRetry_def thenR_apply catchR_apply enqueue_def split: prod.split)
qed

lemma sendLog_total: "fst (http_sendLog nw cfg l m x s) = Ret ()"
  by (simp add: http_sendLog_def postWithRetry_total)

text \<open>Only the terminal states of a numbered attempt are reported with a failure the caller sees.\<close>

lemma sendStatus_total:
  "\<not> versioned (snd s) \<or> st \<notin> {''done'', ''failed'', ''dead_letter''} \<Longrightarrow> fst (http_sendStatus nw cfg st msg s) = Ret ()"
  by (auto simp: http_sendStatus_def Let_def postWithRetry_total)

lemma heartbeat_attempts_return: "\<exists>b s'. heartbeat_attempts n nw cfg payload s = (Ret b, s')"
proof (induction n arbitrary: s)
  case (Suc n)
  have "\<exists>b s'. (if is_abort e \<or> n = 0 then returnR False
      else thenR (sleepH nw (retryDelayMs cfg)) (heartbeat_attempts n nw cfg payload)) s = (Ret b, s')" for e and s :: "'a http st"
    using Suc.IH by (auto simp: thenR_apply sleepH_def split: prod.split)
  then have catch: "\<exists>b s'. catchR m (\<lambda>e. if is_abort e \<or> n = 0 then returnR False
      else thenR (sleepH nw (retryDelayMs cfg)) (heartbeat_attempts n nw cfg payload)) s = (Ret b, s')" for m
    by (cases "m s", cases "fst (m s)") (auto simp: catchR_apply)
  show ?case unfolding heartbeat_attempts.simps by (rule catch)
qed auto

text \<open>Logs and heartbeats never fail the run that sends them: whatever the network does, both return.\<close>

theorem best_effort_never_throws:
  "(\<exists>s'. http_sendLog nw cfg l m x s = (Ret (), s')) \<and> (\<exists>b s'. http_sendHeartbeat nw cfg payload s = (Ret b, s'))"
proof
  show "\<exists>s'. http_sendLog nw cfg l m x s = (Ret (), s')"
    using sendLog_total by (metis prod.collapse)
  show "\<exists>b s'. http_sendHeartbeat nw cfg payload s = (Ret b, s')"
    unfolding http_sendHeartbeat_def by (rule heartbeat_attempts_return)
qed

text \<open>The entry at the head of the buffer is never given up, even when the server will never take it.\<close>

lemma rejected_send:
  assumes "\<And>c h. \<exists>r c' h'. request nw cfg ''POST'' path (Some body) (c, h) = (Ret r, (c', h'))
       \<and> respStatus r = 404 \<and> respText r = Inr []" and "0 < n"
  shows "\<exists>e s'. send_attempts n nw cfg path body s = (Throw e, s')"
proof -
  obtain c h where s: "s = (c, h)" by (cases s)
  from assms(1) [of c h] obtain r c' h' where
    r: "request nw cfg ''POST'' path (Some body) (c, h) = (Ret r, (c', h'))" "respStatus r = 404" "respText r = Inr []" by blast
  then have "post nw cfg path body s = (Throw (HttpTransportError (''HTTP '' @ show_int 404 @ '': '') 404), (c', h'))"
    using s by (simp add: post_def bindR_apply read_text_def response_ok_def http_failure_def)
  then show ?thesis
    using assms(2) by (cases n) (simp_all add: catchR_apply retryable_def error_status_def)
qed

text \<open>A buffered message the server has come to refuse for good (here with 404) stays at the head of
  the buffer: flushing leaves the whole buffer as it is, so that no message behind it is delivered.\<close>

theorem refused_head_blocks_buffer:
  assumes "httpBuffer (snd s) = (path, body) # rest" and "0 < hMaxAttempts cfg"
    and "\<And>c h. \<exists>r c' h'. request nw cfg ''POST'' path (Some body) (c, h) = (Ret r, (c', h'))
       \<and> respStatus r = 404 \<and> respText r = Inr []"
  shows "httpBuffer (snd (snd (flushBuffer nw cfg s))) = (path, body) # rest"
proof -
  obtain e s' where send: "sendWithRetry nw cfg path body s = (Throw e, s')"
    using rejected_send [OF assms(3), of "nat (hMaxAttempts cfg)" s] assms(2)
    unfolding sendWithRetry_def by auto
  then have "flushBuffer nw cfg s = (Ret (), s')"
    using assms(1) by (simp add: flushBuffer_def)
  then show ?thesis using sendWithRetry_keeps(1) [OF send] assms(1) by simp
qed

text \<open>A network on which every request is answered with 404\<close>

definition deaf_network :: "demo_net network" where
  "deaf_network = demo_network\<lparr>fetchN := (\<lambda>rq n. (Inr \<lparr>respStatus = 404, respText = Inr [], respTrace = None\<rparr>, n))\<rparr>"

theorem refused_head_blocks_buffer_witness:
  "httpBuffer (snd (snd (flushBuffer deaf_network demo_http_config (demo_ctx, demo_http [] None))))
     = [(''/logs'', JStr ''a''), (''/logs'', JStr ''b'')]"
proof (rule refused_head_blocks_buffer)
  show "httpBuffer (snd (demo_ctx, demo_http [] None)) = (''/logs'', JStr ''a'') # [(''/logs'', JStr ''b'')]"
    by (simp add: demo_http_def)
  show "0 < hMaxAttempts demo_http_config" by code_simp
  show "\<exists>r c' h'. request deaf_network demo_http_config ''POST'' ''/logs'' (Some (JStr ''a'')) (c, h) = (Ret r, (c', h'))
       \<and> respStatus r = 404 \<and> respText r = Inr []" for c h
    by (simp add: request_def deaf_network_def)
qed


section \<open>The numbering of results\<close>

definition numbered :: "http_config \<Rightarrow> string \<Rightarrow> int \<Rightarrow> jval \<Rightarrow> bool" where
  "numbered cfg aid q e \<longleftrightarrow> (\<exists>kind payload imm. e = result_envelope cfg aid q kind payload imm)"

definition envelope_key :: "jval \<Rightarrow> jval" where
  "envelope_key e = get_prop e ''idempotencyKey''"

lemma idempotency_key_sequence:
  assumes "idempotency_key aid p k = idempotency_key aid q j" "0 \<le> p" "0 \<le> q"
  shows "p = q"
proof -
  have colon: "\<not> digit_char CHR '':''" by code_simp
  have key: "takeWhile digit_char (show_int p @ '':'' @ k) = takeWhile digit_char (show_int q @ '':'' @ j)"
    using assms(1) by (simp add: idempotency_key_def)
  have digits: "takeWhile digit_char (show_int r @ '':'' @ i) = show_int r" if "0 \<le> r" for r i
    using show_int_nat [OF that] colon by (simp add: list_all_iff takeWhile_append2)
  show ?thesis using key digits assms(2,3) show_int_inject by metis
qed

lemma numbered_key:
  assumes "numbered cfg aid p e" "numbered cfg aid q f" "envelope_key e = envelope_key f" "0 \<le> p" "0 \<le> q"
  shows "p = q"
  using assms idempotency_key_sequence
  by (auto simp: numbered_def envelope_key_def result_envelope_def obj_get_def)

text \<open>What waits for its acknowledgement carries the number given out last.\<close>

definition submission_ok :: "http_config \<Rightarrow> submission_state \<Rightarrow> bool" where
  "submission_ok cfg st \<longleftrightarrow> attemptId st \<noteq> [] \<and> 0 \<le> nextSequence st
     \<and> (case pending st of None \<Rightarrow> True | Some p \<Rightarrow> numbered cfg (attemptId st) (nextSequence st) (pEnvelope p))"

lemma numbered_envelope: "numbered cfg aid q (result_envelope cfg aid q kind payload imm)"
  unfolding numbered_def by blast

lemma claim_pending_ok:
  assumes "submission_ok cfg st" "claim_pending cfg st kind payload imm = Inr (p, st')"
  shows "submission_ok cfg st' \<and> pending st' = Some p \<and> attemptId st' = attemptId st
     \<and> (pending st = Some p \<and> nextSequence st' = nextSequence st \<or> pending st = None \<and> nextSequence st' = nextSequence st + 1)
     \<and> numbered cfg (attemptId st) (nextSequence st') (pEnvelope p)"
  using assms by (auto simp: claim_pending_def submission_ok_def Let_def numbered_envelope split: option.splits if_splits)

lemma send_versioned_state:
  assumes "resultState (snd s) = Some st" "attemptId st \<noteq> []"
    and "claim_pending cfg st kind payload imm = Inr (p, st')" and "pending st' = Some p"
    and "sendVersionedResult nw cfg kind payload imm s = (r, s1)"
  shows "\<exists>pd. resultState (snd s1) = Some (st'\<lparr>pending := pd\<rparr>) \<and> (pd = None \<or> pd = Some p)"
proof -
  obtain c h where s: "s = (c, h)" by (cases s)
  have run: "deliver_pending nw cfg p (c, h\<lparr>resultState := Some st'\<rparr>) = (r, s1)"
    using assms s by (simp add: sendVersionedResult_def thenR_apply set_submission_def)
  obtain r2 s2 where post: "postResultWithRetry nw cfg (pEnvelope p) (c, h\<lparr>resultState := Some st'\<rparr>) = (r2, s2)"
    by (cases "postResultWithRetry nw cfg (pEnvelope p) (c, h\<lparr>resultState := Some st'\<rparr>)")
  have kept: "resultState (snd s2) = Some st'"
    using keeping.effD [OF numbers_kept.eff_postResultWithRetry post] by (simp add: keeps_def)
  show ?thesis
  proof (cases r2)
    case (Throw e)
    then have "s1 = s2" using run post by (simp add: deliver_pending_def bindR_apply)
    moreover have "st' = st'\<lparr>pending := Some p\<rparr>" using assms(4) by (cases st') simp
    ultimately show ?thesis using kept by metis
  next
    case (Ret ack)
    then show ?thesis
      using run post kept by (cases s2) (auto simp: deliver_pending_def bindR_apply thenR_apply clear_pending_def
          split: if_splits)
  qed
qed

text \<open>The envelopes a sequence of sends puts on the wire (each perhaps several times)\<close>

definition claimed_envelope :: "http_config \<Rightarrow> 'n http \<Rightarrow> string \<times> jval \<times> bool \<Rightarrow> jval list" where
  "claimed_envelope cfg h x =
     (case (resultState h, x) of
        (Some st, (kind, payload, imm)) \<Rightarrow>
          (case claim_pending cfg st kind payload imm of Inr (p, _) \<Rightarrow> [pEnvelope p] | Inl _ \<Rightarrow> [])
      | _ \<Rightarrow> [])"

primrec envelopes :: "'n network \<Rightarrow> http_config \<Rightarrow> (string \<times> jval \<times> bool) list \<Rightarrow> 'n http st \<Rightarrow> jval list" where
  "envelopes nw cfg [] s = []"
| "envelopes nw cfg (x # xs) s =
     claimed_envelope cfg (snd s) x
     @ envelopes nw cfg xs (snd (sendVersionedResult nw cfg (fst x) (fst (snd x)) (snd (snd x)) s))"

lemma next_send:
  assumes "resultState (snd s) = Some st" "submission_ok cfg st"
  shows "\<exists>st1. resultState (snd (snd (sendVersionedResult nw cfg kind payload imm s))) = Some st1 \<and> submission_ok cfg st1
     \<and> attemptId st1 = attemptId st
     \<and> (case claimed_envelope cfg (snd s) (kind, payload, imm) of
          [] \<Rightarrow> st1 = st
        | e # _ \<Rightarrow> numbered cfg (attemptId st) (nextSequence st1) e
            \<and> (pending st1 = None \<or> (\<exists>p. pending st1 = Some p \<and> pEnvelope p = e))
            \<and> ((\<exists>p. pending st = Some p \<and> pEnvelope p = e) \<and> nextSequence st1 = nextSequence st
                 \<or> nextSequence st1 = nextSequence st + 1))"
proof (cases "claim_pending cfg st kind payload imm")
  case (Inl e)
  then show ?thesis
    using assms by (simp add: sendVersionedResult_def claimed_envelope_def submission_ok_def)
next
  case (Inr ps)
  obtain p st' where ps: "ps = (p, st')" by (cases ps)
  note claim = claim_pending_ok [OF assms(2) Inr [unfolded ps]]
  obtain r s1 where run: "sendVersionedResult nw cfg kind payload imm s = (r, s1)"
    by (cases "sendVersionedResult nw cfg kind payload imm s")
  have aid: "attemptId st \<noteq> []" using assms(2) by (simp add: submission_ok_def)
  obtain pd where pd: "resultState (snd s1) = Some (st'\<lparr>pending := pd\<rparr>)" "pd = None \<or> pd = Some p"
    using send_versioned_state [OF assms(1) aid Inr [unfolded ps] _ run] claim by blast
  have "submission_ok cfg (st'\<lparr>pending := pd\<rparr>)" using claim pd(2) by (auto simp: submission_ok_def)
  then show ?thesis
    using run pd claim assms(1) Inr ps by (auto simp: claimed_envelope_def)
qed

lemma envelopes_numbered:
  assumes "resultState (snd s) = Some st" "submission_ok cfg st" "e \<in> set (envelopes nw cfg xs s)"
  shows "(\<exists>p. pending st = Some p \<and> pEnvelope p = e) \<or> (\<exists>q > nextSequence st. numbered cfg (attemptId st) q e)"
  using assms
proof (induction xs arbitrary: s st)
  case (Cons x xs)
  obtain kind payload imm where x: "x = (kind, payload, imm)" by (cases x)
  from next_send [OF Cons.prems(1,2), of nw kind payload imm] obtain st1 where
    st1: "resultState (snd (snd (sendVersionedResult nw cfg kind payload imm s))) = Some st1" "submission_ok cfg st1"
      "attemptId st1 = attemptId st"
    and head: "case claimed_envelope cfg (snd s) (kind, payload, imm) of
          [] \<Rightarrow> st1 = st
        | e # _ \<Rightarrow> numbered cfg (attemptId st) (nextSequence st1) e
            \<and> (pending st1 = None \<or> (\<exists>p. pending st1 = Some p \<and> pEnvelope p = e))
            \<and> ((\<exists>p. pending st = Some p \<and> pEnvelope p = e) \<and> nextSequence st1 = nextSequence st
                 \<or> nextSequence st1 = nextSequence st + 1)" by blast
  have single: "length (claimed_envelope cfg (snd s) (kind, payload, imm)) \<le> 1"
    by (simp add: claimed_envelope_def split: option.split sum.split prod.split)
  have tail: "e \<in> set (envelopes nw cfg xs (snd (sendVersionedResult nw cfg kind payload imm s))) \<Longrightarrow>
      (\<exists>p. pending st1 = Some p \<and> pEnvelope p = e) \<or> (\<exists>q > nextSequence st1. numbered cfg (attemptId st) q e)"
    using Cons.IH [OF st1(1,2)] st1(3) by simp
  show ?case
  proof (cases "claimed_envelope cfg (snd s) (kind, payload, imm)")
    case Nil
    then show ?thesis using Cons.prems(3) x tail head by simp
  next
    case (Cons e0 es)
    then have es: "es = []" using single by simp
    have inc: "nextSequence st1 = nextSequence st + 1 \<or>
        ((\<exists>p. pending st = Some p \<and> pEnvelope p = e0) \<and> nextSequence st1 = nextSequence st)"
      using head Cons by auto
    consider "e = e0" | "\<exists>q > nextSequence st1. numbered cfg (attemptId st) q e"
      using Cons.prems(3) x Cons es head tail by fastforce
    then show ?thesis
    proof cases
      case 1
      then show ?thesis using head Cons inc by fastforce
    next
      case 2
      then show ?thesis using inc by fastforce
    qed
  qed
qed simp

lemma envelopes_unique:
  assumes "resultState (snd s) = Some st" "submission_ok cfg st"
    and "e \<in> set (envelopes nw cfg xs s)" "f \<in> set (envelopes nw cfg xs s)" "envelope_key e = envelope_key f"
  shows "e = f"
  using assms
proof (induction xs arbitrary: s st)
  case (Cons x xs)
  obtain kind payload imm where x: "x = (kind, payload, imm)" by (cases x)
  let ?s1 = "snd (sendVersionedResult nw cfg kind payload imm s)"
  from next_send [OF Cons.prems(1,2), of nw kind payload imm] obtain st1 where
    st1: "resultState (snd ?s1) = Some st1" "submission_ok cfg st1" "attemptId st1 = attemptId st"
    and head: "case claimed_envelope cfg (snd s) (kind, payload, imm) of
          [] \<Rightarrow> st1 = st
        | e # _ \<Rightarrow> numbered cfg (attemptId st) (nextSequence st1) e
            \<and> (pending st1 = None \<or> (\<exists>p. pending st1 = Some p \<and> pEnvelope p = e))
            \<and> ((\<exists>p. pending st = Some p \<and> pEnvelope p = e) \<and> nextSequence st1 = nextSequence st
                 \<or> nextSequence st1 = nextSequence st + 1)" by blast
  have single: "length (claimed_envelope cfg (snd s) (kind, payload, imm)) \<le> 1"
    by (simp add: claimed_envelope_def split: option.split sum.split prod.split)
  have mixed: "g = g'"
    if "g \<in> set (claimed_envelope cfg (snd s) (kind, payload, imm))" "g' \<in> set (envelopes nw cfg xs ?s1)"
      and "envelope_key g = envelope_key g'" for g g'
  proof -
    have c: "claimed_envelope cfg (snd s) (kind, payload, imm) = [g]"
      using that(1) single by (cases "claimed_envelope cfg (snd s) (kind, payload, imm)") auto
    have g: "numbered cfg (attemptId st) (nextSequence st1) g"
      and wait: "pending st1 = None \<or> (\<exists>p. pending st1 = Some p \<and> pEnvelope p = g)" using head c by auto
    have nonneg: "0 \<le> nextSequence st1" using st1(2) by (simp add: submission_ok_def)
    from envelopes_numbered [OF st1(1,2) that(2)] show ?thesis
    proof
      assume "\<exists>p. pending st1 = Some p \<and> pEnvelope p = g'"
      then show ?thesis using wait by auto
    next
      assume "\<exists>q > nextSequence st1. numbered cfg (attemptId st1) q g'"
      then obtain q where q: "q > nextSequence st1" "numbered cfg (attemptId st) q g'" using st1(3) by auto
      from numbered_key [OF g q(2) that(3)] nonneg q(1) show ?thesis by simp
    qed
  qed
  have heads: "g = g'" if "g \<in> set (claimed_envelope cfg (snd s) (kind, payload, imm))"
      "g' \<in> set (claimed_envelope cfg (snd s) (kind, payload, imm))" for g g'
    using that single by (cases "claimed_envelope cfg (snd s) (kind, payload, imm)") auto
  have "e \<in> set (claimed_envelope cfg (snd s) (kind, payload, imm)) \<union> set (envelopes nw cfg xs ?s1)"
    and "f \<in> set (claimed_envelope cfg (snd s) (kind, payload, imm)) \<union> set (envelopes nw cfg xs ?s1)"
    using Cons.prems(3,4) x by auto
  then show ?case
    using heads mixed Cons.IH [OF st1(1,2)] Cons.prems(5) by (metis UnE)
qed simp

text \<open>C17. An idempotency key names one result: over any sequence of sends of an attempt, whatever the
  server answers, two envelopes with the same key are the same envelope, so a server that takes each
  key once takes each result once.\<close>

theorem idempotency_key_names_one_result:
  assumes "resultState (snd s) = Some st" "submission_ok cfg st"
    and "e \<in> set (envelopes nw cfg xs s)" "f \<in> set (envelopes nw cfg xs s)" "envelope_key e = envelope_key f"
  shows "e = f"
  by (rule envelopes_unique [OF assms])

lemma first_two: "map f xs = [a, a, b] \<Longrightarrow> xs ! 0 \<in> set xs" "map f xs = [a, a, b] \<Longrightarrow> xs ! 1 \<in> set xs"
  "map f xs = [a, a, b] \<Longrightarrow> f (xs ! 0) = f (xs ! 1)"
  by auto

theorem idempotency_key_names_one_result_witness:
  "let es = envelopes demo_network demo_http_config [(''batch'', JNull, True), (''batch'', JNull, True), (''summary'', JNull, True)]
              (demo_ctx, demo_http [Inr (503, ''''), Inr (503, ''''), Inr (200, ''accepted''), Inr (200, ''accepted'')] (Some demo_attempt))
   in map envelope_key es = [JStr ''a1:1:batch'', JStr ''a1:1:batch'', JStr ''a1:2:summary''] \<and> es ! 0 = es ! 1"
proof -
  let ?s = "(demo_ctx, demo_http [Inr (503, ''''), Inr (503, ''''), Inr (200, ''accepted''), Inr (200, ''accepted'')] (Some demo_attempt))"
  let ?es = "envelopes demo_network demo_http_config [(''batch'', JNull, True), (''batch'', JNull, True), (''summary'', JNull, True)] ?s"
  have keys: "map envelope_key ?es = [JStr ''a1:1:batch'', JStr ''a1:1:batch'', JStr ''a1:2:summary'']" by code_simp
  note first = first_two [OF keys]
  have state: "resultState (snd ?s) = Some demo_attempt" by (simp add: demo_http_def)
  have ok: "submission_ok demo_http_config demo_attempt" by (simp add: submission_ok_def demo_attempt_def)
  have "?es ! 0 = ?es ! 1"
    by (rule idempotency_key_names_one_result [OF state ok first])
  then show ?thesis using keys by (simp add: Let_def)
qed

text \<open>While a result waits for its acknowledgement, sending it again sends the same envelope, and
  sending anything else is refused without a request.\<close>

theorem unacknowledged_result_blocks:
  assumes "resultState (snd s) = Some st" "attemptId st \<noteq> []" "pending st = Some p"
  shows "if pKind p = kind \<and> pPayloadJSON p = json_text payload \<and> pImmediate p = imm
     then sendVersionedResult nw cfg kind payload imm s = deliver_pending nw cfg p s
     else sendVersionedResult nw cfg kind payload imm s =
       (Throw (Error (''pending '' @ pKind p @ '' result must be acknowledged before sending '' @ kind)), s)"
proof -
  obtain c h where s: "s = (c, h)" by (cases s)
  have "h\<lparr>resultState := Some st\<rparr> = h" using assms(1) s by (cases h) simp
  then have again: "thenR (set_submission st) (deliver_pending nw cfg p) s = deliver_pending nw cfg p s"
    by (simp only: s thenR_apply set_submission_def prod.case outcome.case)
  have "sendVersionedResult nw cfg kind payload imm s =
     (case claim_pending cfg st kind payload imm of
        Inl e \<Rightarrow> (Throw e, s) | Inr (q, st') \<Rightarrow> thenR (set_submission st') (deliver_pending nw cfg q) s)"
    using assms(1,2) s by (simp add: sendVersionedResult_def split: sum.split prod.split)
  then show ?thesis
    using assms(3) again by (auto simp: claim_pending_def)
qed

theorem unacknowledged_result_blocks_witness:
  "\<exists>p. fst (sendVersionedResult demo_network demo_http_config ''summary'' JNull True
        (demo_ctx, demo_http [] (Some (demo_attempt\<lparr>pending := Some p\<rparr>))))
      = Throw (Error ''pending batch result must be acknowledged before sending summary'')"
proof -
  let ?p = "\<lparr>pKind = ''batch'', pPayloadJSON = Some ''null'', pImmediate = True, pEnvelope = JNull\<rparr>"
  have "attemptId (demo_attempt\<lparr>pending := Some ?p\<rparr>) \<noteq> []" by (simp add: demo_attempt_def)
  then show ?thesis
    using unacknowledged_result_blocks [of "(demo_ctx, demo_http [] (Some (demo_attempt\<lparr>pending := Some ?p\<rparr>)))"
        "demo_attempt\<lparr>pending := Some ?p\<rparr>" ?p "''summary''" JNull True demo_network demo_http_config]
    by (intro exI [of _ ?p]) (simp add: demo_http_def)
qed

lemma acknowledged_attempts:
  "post_result_attempts n nw cfg env s = (Ret ack, s') \<Longrightarrow>
     \<exists>s1 s2 r t. request nw cfg ''POST'' ''/results'' (Some env) s1 = (Ret r, s2) \<and> response_ok r
       \<and> respText r = Inr t \<and> parse_ack nw t = Inr ack"
proof (induction n arbitrary: s)
  case (Suc n)
  show ?case
  proof -
    obtain o1 s1 where Pair: "post_result nw cfg env s = (o1, s1)" by (cases "post_result nw cfg env s")
    show ?thesis
    proof (cases o1)
      case (Ret a)
      then have "post_result nw cfg env s = (Ret ack, s1)" using Suc.prems Pair by (simp add: catchR_apply)
      from bindR_RetD [OF this [unfolded post_result_def]] obtain r s2 where
        r: "request nw cfg ''POST'' ''/results'' (Some env) s = (Ret r, s2)"
          "bindR (read_text r) (\<lambda>t. if \<not> response_ok r then throwR (http_failure ''HTTP '' r t)
             else lift_sum (parse_ack nw t)) s2 = (Ret ack, s1)" by blast
      then have "response_ok r \<and> (\<exists>t. respText r = Inr t \<and> parse_ack nw t = Inr ack)"
        by (auto simp: bindR_apply read_text_def lift_sum_def split: sum.splits if_splits)
      then show ?thesis using r(1) by blast
    next
      case (Throw e)
      then have "\<exists>s2. post_result_attempts n nw cfg env s2 = (Ret ack, s')"
        using Suc.prems Pair by (auto simp: catchR_apply split: if_splits dest!: thenR_RetD)
      then show ?thesis using Suc.IH by blast
    qed
  qed
qed simp

lemma versioned_send_acknowledged:
  assumes "sendVersionedResult nw cfg kind payload imm s = (Ret (), s')"
  shows "\<exists>env s1 s2 r t ack. request nw cfg ''POST'' ''/results'' (Some env) s1 = (Ret r, s2) \<and> response_ok r
     \<and> respText r = Inr t \<and> parse_ack nw t = Inr ack \<and> ackSuccess ack \<and> ackValid ack
     \<and> (\<exists>st. resultState (snd s') = Some st \<and> pending st = None)"
proof -
  obtain st where st: "resultState (snd s) = Some st" "attemptId st \<noteq> []"
    using assms by (auto simp: sendVersionedResult_def split: option.splits if_splits)
  with assms obtain p st' where run: "thenR (set_submission st') (deliver_pending nw cfg p) s = (Ret (), s')"
    by (auto simp: sendVersionedResult_def split: sum.splits)
  obtain s0 where s0: "resultState (snd s0) = Some st'" "deliver_pending nw cfg p s0 = (Ret (), s')"
  proof -
    note found = that
    obtain c h where s: "s = (c, h)" by (cases s)
    with run have "deliver_pending nw cfg p (c, h\<lparr>resultState := Some st'\<rparr>) = (Ret (), s')"
      by (simp add: thenR_apply set_submission_def)
    then show thesis by (intro found [of "(c, h\<lparr>resultState := Some st'\<rparr>)"]) simp_all
  qed
  then obtain ack s2 where ack: "postResultWithRetry nw cfg (pEnvelope p) s0 = (Ret ack, s2)"
      "ackSuccess ack" "ackValid ack" "clear_pending s2 = (Ret (), s')"
    unfolding deliver_pending_def by (auto dest!: bindR_RetD thenR_RetD split: if_splits)
  have "resultState (snd s2) = Some st'"
    using keeping.effD [OF numbers_kept.eff_postResultWithRetry ack(1)] s0(1) by (simp add: keeps_def)
  then have "\<exists>st. resultState (snd s') = Some st \<and> pending st = None"
    using ack(4) by (cases s2) (auto simp: clear_pending_def)
  then show ?thesis
    using acknowledged_attempts [OF ack(1) [unfolded postResultWithRetry_def]] ack(2,3) by blast
qed



text \<open>A task bound to a browser profile is only handed to a worker of that profile; a claim for
  another profile fails.\<close>

theorem claimed_profile_matches:
  assumes "claimTask nw cfg s = (Ret (Some task), s')"
  shows "nonempty (ctProfile task) = None \<or> browserProfileId cfg = ctProfile task"
  using assms unfolding claimTask_def
  by (auto simp: Let_def nonempty_def dest!: bindR_RetD split: if_splits option.splits)

theorem claimed_profile_matches_witness:
  "\<exists>task s'. claimTask demo_network demo_http_config (demo_ctx, demo_http [Inr (200, ''task'')] None) = (Ret (Some task), s')
     \<and> ctProfile task = Some ''p1'' \<and> browserProfileId demo_http_config = ctProfile task"
proof -
  let ?m = "claimTask demo_network demo_http_config (demo_ctx, demo_http [Inr (200, ''task'')] None)"
  let ?t = "case fst ?m of Ret (Some t) \<Rightarrow> t | _ \<Rightarrow> as_claimed_task JNull"
  have run: "?m = (Ret (Some ?t), snd ?m)" by code_simp
  have "nonempty (ctProfile ?t) \<noteq> None" "ctProfile ?t = Some ''p1''" by code_simp+
  with claimed_profile_matches [OF run] run show ?thesis by metis
qed


section \<open>Human interventions\<close>

text \<open>Waiting at least as long as asked, on a clock that does not run backwards\<close>

definition steady_clock :: "'n network \<Rightarrow> bool" where
  "steady_clock nw \<longleftrightarrow> (\<forall>ms n. nowN nw n + ms \<le> nowN nw (sleepN nw ms n))
     \<and> (\<forall>rq n. nowN nw n \<le> nowN nw (snd (fetchN nw rq n)))"

lemma request_clock:
  assumes "steady_clock nw"
  shows "nowN nw (net (snd s)) \<le> nowN nw (net (snd (snd (request nw cfg meth path body s))))"
  using assms by (auto simp: request_def steady_clock_def split_beta split: sum.split)

lemma poll_settles:
  assumes "steady_clock nw" "0 < humanPollIntervalMs cfg"
    and "deadline < nowN nw (net (snd s)) + int n * humanPollIntervalMs cfg"
  shows "poll_decision (Suc n) nw cfg aid type' deadline d s \<noteq> None"
  using assms(3)
proof (induction n arbitrary: d s)
  case (Suc n)
  let ?poll = "thenR (sleepH nw (humanPollIntervalMs cfg))
     (bindR (request nw cfg ''GET'' (poll_path cfg aid (ivId d)) None) (read_intervention nw ''human intervention poll failed: ''))"
  show ?case
  proof (cases "ivStatus d \<noteq> ''pending'' \<or> abortedN nw (net (snd s)) \<or> nowN nw (net (snd s)) > deadline")
    case False
    obtain r s' where poll: "?poll s = (r, s')" by (cases "?poll s")
    obtain c h where s: "s = (c, h)" by (cases s)
    let ?s1 = "(c, h\<lparr>net := sleepN nw (humanPollIntervalMs cfg) (net h)\<rparr>)"
    have "snd (snd (request nw cfg ''GET'' (poll_path cfg aid (ivId d)) None ?s1)) = snd s'"
      using poll s False by (auto simp: thenR_apply bindR_apply sleepH_def read_intervention_def read_text_def Let_def
          split: prod.splits outcome.splits sum.splits if_splits option.splits)
    moreover have "nowN nw (net h) + humanPollIntervalMs cfg \<le> nowN nw (net (snd ?s1))"
      using assms(1) by (simp add: steady_clock_def)
    ultimately have "nowN nw (net (snd s)) + humanPollIntervalMs cfg \<le> nowN nw (net (snd s'))"
      using request_clock [OF assms(1), of ?s1 cfg "''GET''" "poll_path cfg aid (ivId d)" None] s by simp
    then have "deadline < nowN nw (net (snd s')) + int n * humanPollIntervalMs cfg"
      using Suc.prems by (simp add: algebra_simps)
    from Suc.IH [OF this] show ?thesis
      using False poll by (simp split: outcome.split)
  qed auto
qed auto

lemma div_less_bound:
  fixes d :: int
  assumes "d div i < n" "0 < i"
  shows "d < n * i"
proof -
  have "d div i * i \<le> (n - 1) * i" using assms by (intro mult_right_mono) auto
  then have "d div i * i + i \<le> n * i" by (simp add: left_diff_distrib)
  then show ?thesis using div_mult_mod_eq [of d i] pos_mod_bound [OF assms(2), of d] by linarith
qed

text \<open>A request for a human settles: on a clock that advances at least by what is slept, the polling
  loop ends within as many rounds as poll intervals fit into the time limit, and two more.\<close>

theorem human_request_settles:
  assumes "steady_clock nw" "0 < humanPollIntervalMs cfg"
    and "nat ((reqTimeoutMs req + max 5000 (humanPollIntervalMs cfg * 2)) div humanPollIntervalMs cfg) + 2 \<le> fuel"
  shows "http_requestHuman fuel nw cfg req s \<noteq> None"
proof -
  let ?i = "humanPollIntervalMs cfg" and ?d = "reqTimeoutMs req + max 5000 (humanPollIntervalMs cfg * 2)"
  have fuel: "poll_decision fuel nw cfg aid type' (human_deadline nw cfg req (snd s')) d s' \<noteq> None" for aid type' d s'
  proof (cases fuel)
    case 0
    then show ?thesis using assms(3) by simp
  next
    case (Suc n)
    have "nat (?d div ?i) < n" using assms(3) Suc by simp
    then have "?d div ?i < int n" by linarith
    then have "?d < int n * ?i" using assms(2) by (rule div_less_bound)
    then show ?thesis
      unfolding Suc using assms(1,2) by (intro poll_settles) (simp_all add: human_deadline_def algebra_simps)
  qed
  have "poll_decision fuel nw cfg aid type' (human_deadline nw cfg req h) d (c, h) \<noteq> None" for aid type' d c h
    using fuel [of aid type' "(c, h)" d] by simp
  then show ?thesis
    by (simp add: http_requestHuman_def del: not_None_eq split: option.split prod.split outcome.split)
qed

theorem human_request_settles_witness:
  "\<exists>s'. http_requestHuman 8 demo_network demo_http_config \<lparr>reqType = ''captcha'', reqPrompt = ''p'', reqTimeoutMs = 1000,
       reqStepId = ''s'', reqUrl = ''u''\<rparr> (demo_ctx, demo_http (replicate 9 (Inr (200, ''pending''))) (Some demo_attempt))
     = Some (Throw (Error ''HumanTimeout: captcha''), s')"
proof -
  let ?req = "\<lparr>reqType = ''captcha'', reqPrompt = ''p'', reqTimeoutMs = 1000, reqStepId = ''s'', reqUrl = ''u''\<rparr>"
  let ?s = "(demo_ctx, demo_http (replicate 9 (Inr (200, ''pending''))) (Some demo_attempt))"
  have "steady_clock demo_network"
    by (auto simp: steady_clock_def demo_network_def split: list.split)
  moreover have "0 < humanPollIntervalMs demo_http_config" by code_simp
  moreover have "nat ((reqTimeoutMs ?req + max 5000 (humanPollIntervalMs demo_http_config * 2)) div humanPollIntervalMs demo_http_config) + 2 \<le> 8"
    by code_simp
  ultimately have "http_requestHuman 8 demo_network demo_http_config ?req ?s \<noteq> None"
    by (rule human_request_settles)
  then obtain r s' where run: "http_requestHuman 8 demo_network demo_http_config ?req ?s = Some (r, s')" by auto
  have "map_option fst (http_requestHuman 8 demo_network demo_http_config ?req ?s) = Some (Throw (Error ''HumanTimeout: captcha''))"
    by code_simp
  then have "r = Throw (Error ''HumanTimeout: captcha'')" unfolding run by simp
  then show ?thesis using run by blast
qed


section \<open>What a numbered attempt does not send\<close>

text \<open>The status \<open>cancelled\<close> is among those the engine reports about itself, which a numbered attempt
  drops; the worker uses the same word for the terminal state of the task, so that report is dropped too.\<close>

lemma cancelled_status_is_dropped:
  "versioned (snd s) \<Longrightarrow> http_sendStatus nw cfg ''cancelled'' msg s = (Ret (), s)"
  by (simp add: http_sendStatus_def)

lemma control_markers_not_sent:
  "versioned (snd s) \<Longrightarrow> isInternalResultControl v \<Longrightarrow> http_sendResult nw cfg v imm s = (Ret (), s)"
  by (simp add: http_sendResult_def)

end
