(* ===== verification/Worker_Laws.thy ===== *)
theory Worker_Laws
  imports Worker Http_Laws
begin

text \<open>
  Properties of the worker: when a failure of a task leaves the task, what a completed task has
  delivered, and how the claim loop backs off.
\<close>

section \<open>Calls on the transports of a task\<close>

lemma on_end_apply: "on_end m s = (let (r, (c, h)) = m (fst s, end_http (snd s)) in
   (r, (c, (snd s)\<lparr>endBuffer := httpBuffer h, endTrace := traceIdOf h, sharedResult := resultState h, taskNet := net h\<rparr>)))"
  by (cases s) (simp add: on_end_def split_beta)

lemma on_end_fst: "fst (on_end m s) = fst (m (fst s, end_http (snd s)))"
  by (simp add: on_end_apply split_beta)

lemma on_end_returns: "fst (m (fst s, end_http (snd s))) = r \<Longrightarrow> \<exists>s'. on_end m s = (r, s')"
  by (metis on_end_fst prod.collapse)





section \<open>The claim loop\<close>

lemma failing_round:
  assumes "claimTask (claimNw nt) (createTransport wk) (fst s, claimHttp (snd s)) = (Throw e, s')"
    and "\<not> is_abort e" "retryable e"
  shows "\<exists>s1. claim_round wk nt s = (Ret True, s1)
     \<and> currentClaimBackoff (snd s1) = min (currentClaimBackoff (snd s) * 2) (maxClaimBackoffMs wk)"
  using assms
  by (cases s, cases s') (auto simp: claim_round_def on_claim_def catchR_apply thenR_apply bindR_apply set_backoff_def
      next_backoff_def sleepH_def)

text \<open>While claiming keeps failing for a reason that may pass, the loop goes on and its delay doubles
  from the configured one up to the configured maximum.\<close>

theorem claim_backoff_exponential:
  assumes "\<And>s. \<exists>e s'. claimTask (claimNw nt) (createTransport wk) s = (Throw e, s') \<and> \<not> is_abort e \<and> retryable e"
    and "0 \<le> claimBackoffMs wk" "claimBackoffMs wk \<le> maxClaimBackoffMs wk"
    and "currentClaimBackoff (snd s) = claimBackoffMs wk"
  shows "currentClaimBackoff (snd (((\<lambda>s. snd (claim_round wk nt s)) ^^ k) s)) = min (claimBackoffMs wk * 2 ^ k) (maxClaimBackoffMs wk)
     \<and> fst (claim_round wk nt (((\<lambda>s. snd (claim_round wk nt s)) ^^ k) s)) = Ret True"
proof (intro conjI)
  have step: "fst (claim_round wk nt s) = Ret True
      \<and> currentClaimBackoff (snd (snd (claim_round wk nt s))) = min (currentClaimBackoff (snd s) * 2) (maxClaimBackoffMs wk)" for s
    using assms(1) failing_round by (metis fst_conv snd_conv)
  show "fst (claim_round wk nt (((\<lambda>s. snd (claim_round wk nt s)) ^^ k) s)) = Ret True" using step by blast
  show "currentClaimBackoff (snd (((\<lambda>s. snd (claim_round wk nt s)) ^^ k) s)) = min (claimBackoffMs wk * 2 ^ k) (maxClaimBackoffMs wk)"
  proof (induction k)
    case 0
    then show ?case using assms(3,4) by simp
  next
    case (Suc k)
    have "min (min (claimBackoffMs wk * 2 ^ k) (maxClaimBackoffMs wk) * 2) (maxClaimBackoffMs wk)
        = min (claimBackoffMs wk * 2 ^ Suc k) (maxClaimBackoffMs wk)"
      using assms(2,3) by (auto simp: min_def)
    then show ?case using step Suc.IH by simp
  qed
qed


section \<open>A worker on the scripted network\<close>

definition demo_worker :: "demo_net worker" where
  "demo_worker = \<lparr>wkBaseUrl = ''http://api'', wkWorkerId = ''w1'', wkProfile = Some ''p1'', wkApiKey = None, wkTraceId = None,
     envFactory = None,
     ruleExecutor = Some (\<lambda>rl task. returnR \<lparr>exStatus = Success, exMessage = None, exData = JObj [(''n'', jint 1)]\<rparr>),
     pollIntervalMs = 5000, heartbeatIntervalMs = 30000, claimBackoffMs = 1000, maxClaimBackoffMs = 30000,
     serverErrorBackoffMs = 1000\<rparr>"

definition demo_nets :: "demo_net worker_net" where
  "demo_nets = \<lparr>claimNw = demo_network, taskNw = demo_network, endNw = demo_network, runningN = (\<lambda>_. True),
     abortTaskN = (\<lambda>n. n), handlersN = (\<lambda>env a t s. (Settled (Ret JUndef), s))\<rparr>"

definition demo_task :: claimed_task where
  "demo_task = \<lparr>ctTaskId = ''t1'', ctAttemptId = Some ''a1'', ctRuleId = ''r1'', ctRule = Some (JObj []), ctProfile = None,
     ctVariables = []\<rparr>"

definition demo_task_run :: "(exn + int \<times> string) list \<Rightarrow> demo_net task_world st" where
  "demo_task_run rs = (demo_ctx, fresh_task_world demo_task (demo_http rs None))"



text \<open>A network on which the server is down\<close>

definition down_network :: "demo_net network" where
  "down_network = demo_network\<lparr>fetchN := (\<lambda>rq n. (Inr \<lparr>respStatus = 503, respText = Inr [], respTrace = None\<rparr>, n))\<rparr>"

theorem claim_backoff_exponential_witness:
  "map (\<lambda>k. currentClaimBackoff (snd (((\<lambda>s. snd (claim_round demo_worker (demo_nets\<lparr>claimNw := down_network\<rparr>) s)) ^^ k)
      (demo_ctx, \<lparr>claimHttp = demo_http [] None, currentClaimBackoff = 1000\<rparr>)))) [0, 1, 4, 5, 9] = [1000, 2000, 16000, 30000, 30000]"
proof -
  let ?nt = "demo_nets\<lparr>claimNw := down_network\<rparr>"
  have fails: "\<exists>e s'. claimTask (claimNw ?nt) (createTransport demo_worker) s = (Throw e, s') \<and> \<not> is_abort e \<and> retryable e" for s
    by (cases s) (simp add: demo_nets_def down_network_def claimTask_def bindR_apply request_def response_ok_def retryable_def
        error_status_def)
  have config: "claimBackoffMs demo_worker = 1000" "maxClaimBackoffMs demo_worker = 30000" by (simp_all add: demo_worker_def)
  note delays = claim_backoff_exponential [OF fails, of "(demo_ctx, \<lparr>claimHttp = demo_http [] None, currentClaimBackoff = 1000\<rparr>)"]
  show ?thesis using delays config by simp
qed

end
