(* ===== verification/Slots.thy ===== *)
theory Slots
  imports Json
begin

text \<open>
  Model of \<open>src/worker-host/slots.ts\<close>: the identities of the slots of a worker host. The directory
  of a slot is built by \<open>path.join\<close> of POSIX paths, which normalizes its result.
\<close>

section \<open>POSIX paths\<close>

text \<open>One segment of a path, on the reversed segments kept so far\<close>

definition normalize_segment :: "bool \<Rightarrow> string list \<Rightarrow> string \<Rightarrow> string list" where
  "normalize_segment up acc x =
     (if x = [] \<or> x = ''.'' then acc
      else if x \<noteq> ''..'' then x # acc
      else (case acc of
              [] \<Rightarrow> if up then [x] else []
            | y # ys \<Rightarrow> if y = ''..'' then (if up then x # acc else acc) else ys))"

definition normalize_segments :: "bool \<Rightarrow> string list \<Rightarrow> string list" where
  "normalize_segments up xs = rev (foldl (normalize_segment up) [] xs)"

definition absolute_path :: "string \<Rightarrow> bool" where
  "absolute_path p \<longleftrightarrow> (case p of c # _ \<Rightarrow> c = CHR ''/'' | [] \<Rightarrow> False)"

definition path_normalize :: "string \<Rightarrow> string" where
  "path_normalize p =
     (if p = [] then ''.''
      else (let q = join_strings ''/'' (normalize_segments (\<not> absolute_path p) (js_split CHR ''/'' p));
                trailing = (last p = CHR ''/'') in
        if q = [] then (if absolute_path p then ''/'' else if trailing then ''./'' else ''.'')
        else (if absolute_path p then ''/'' else []) @ q @ (if trailing then ''/'' else [])))"

definition path_join :: "string \<Rightarrow> string \<Rightarrow> string" where
  "path_join a b = path_normalize (if a = [] then b else if b = [] then a else a @ ''/'' @ b)"


section \<open>The slots\<close>

record worker_slot =
  slotWorkerId :: string
  slotProfileId :: string
  profileDir :: string

record slot_options =
  soHostname :: string
  soProfile :: string
  soWorkers :: jval
  soProfilesDir :: string
  soPrefix :: "string option"

definition profile_char :: "char \<Rightarrow> bool" where
  "profile_char c \<longleftrightarrow> (CHR ''A'' \<le> c \<and> c \<le> CHR ''Z'') \<or> (CHR ''a'' \<le> c \<and> c \<le> CHR ''z'') \<or> (CHR ''0'' \<le> c \<and> c \<le> CHR ''9'')
     \<or> c = CHR ''.'' \<or> c = CHR ''_'' \<or> c = CHR ''-''"

definition profile_name_ok :: "string \<Rightarrow> bool" where
  "profile_name_ok p \<longleftrightarrow> p \<noteq> [] \<and> list_all profile_char p"

definition slot_dir_name :: "string \<Rightarrow> nat \<Rightarrow> nat \<Rightarrow> string" where
  "slot_dir_name profile n i = (if n = 1 then profile else profile @ ''-'' @ show_int (int i + 1))"

definition make_slot :: "slot_options \<Rightarrow> string \<Rightarrow> string \<Rightarrow> worker_slot" where
  "make_slot opts prefix' dir = \<lparr>slotWorkerId = prefix' @ ''-'' @ dir, slotProfileId = js_trim (soProfile opts),
     profileDir = path_join (soProfilesDir opts) dir\<rparr>"

definition slot_prefix :: "slot_options \<Rightarrow> string" where
  "slot_prefix opts =
     (let p = js_trim (case soPrefix opts of None \<Rightarrow> soHostname opts | Some x \<Rightarrow> x) in if p = [] then ''worker'' else p)"

definition worker_count :: "jval \<Rightarrow> nat option" where
  "worker_count v =
     (case v of
        JNum (Fin r) \<Rightarrow> if r = of_int \<lfloor>r\<rfloor> \<and> 1 \<le> r \<and> r \<le> 50 then Some (nat \<lfloor>r\<rfloor>) else None
      | _ \<Rightarrow> None)"

definition deriveWorkerSlots :: "slot_options \<Rightarrow> string + worker_slot list" where
  "deriveWorkerSlots opts =
     (let profile = js_trim (soProfile opts) in
      if \<not> profile_name_ok profile
      then Inl (''Invalid profile name \"'' @ soProfile opts @ ''\": use only letters, digits, dot, underscore, and dash'')
      else (case worker_count (soWorkers opts) of
              None \<Rightarrow> Inl (''workers must be an integer between 1 and 50 (got '' @ js_String (soWorkers opts) @ '')'')
            | Some n \<Rightarrow> Inr (map (\<lambda>i. make_slot opts (slot_prefix opts) (slot_dir_name profile n i)) [0..<n])))"


section \<open>Slots do not share an identity or a directory\<close>

definition plain_segment :: "string \<Rightarrow> bool" where
  "plain_segment x \<longleftrightarrow> x \<noteq> [] \<and> x \<noteq> ''.'' \<and> x \<noteq> ''..'' \<and> CHR ''/'' \<notin> set x"

lemma normalize_append: "plain_segment x \<Longrightarrow> normalize_segments up (xs @ [x]) = normalize_segments up xs @ [x]"
  by (simp add: normalize_segments_def normalize_segment_def plain_segment_def)

lemma join_strings_snoc: "join_strings ''/'' (xs @ [x]) = (if xs = [] then x else join_strings ''/'' xs @ ''/'' @ x)"
  by (induction xs rule: induct_list012) auto

text \<open>The directory of a slot with a plain name is that name below the normalized parent.\<close>

definition dir_below :: "string \<Rightarrow> string \<Rightarrow> string" where
  "dir_below a x =
     (let xs = normalize_segments (\<not> absolute_path a) (js_split CHR ''/'' a) in
      if a = [] then x
      else (if absolute_path a then ''/'' else []) @ join_strings ''/'' (xs @ [x]))"

lemma last_plain: "plain_segment x \<Longrightarrow> last x \<noteq> CHR ''/''"
  using last_in_set unfolding plain_segment_def by metis

lemma path_join_below:
  assumes "plain_segment x"
  shows "path_join a x = dir_below a x"
proof (cases "a = []")
  case True
  have "\<not> absolute_path x" using assms by (cases x) (auto simp: plain_segment_def absolute_path_def)
  moreover have "js_split CHR ''/'' x = [x]" using assms by (simp add: js_split_plain plain_segment_def)
  ultimately show ?thesis
    using True assms last_plain [OF assms] normalize_append [OF assms, of _ "[]"]
    by (simp add: path_join_def path_normalize_def dir_below_def normalize_segments_def plain_segment_def Let_def)
next
  case False
  have x: "x \<noteq> []" "CHR ''/'' \<notin> set x" using assms by (auto simp: plain_segment_def)
  have abs: "absolute_path (a @ ''/'' @ x) = absolute_path a" using False by (cases a) (auto simp: absolute_path_def)
  have "join_strings ''/'' (ys @ [x]) \<noteq> []" for ys using x by (simp add: join_strings_snoc)
  moreover have "last (a @ ''/'' @ x) \<noteq> CHR ''/''" using last_plain [OF assms] x by simp
  ultimately show ?thesis
    using False x assms unfolding path_join_def path_normalize_def dir_below_def
    by (simp add: abs [simplified] js_split_snoc [OF x(2), simplified] normalize_append Let_def)
qed

lemma dir_below_inject: "dir_below a x = dir_below a y \<longleftrightarrow> x = y"
  by (auto simp: dir_below_def Let_def join_strings_snoc)

lemma numbered_name:
  assumes "profile_name_ok p" "n \<noteq> 1"
  shows "plain_segment (slot_dir_name p n i)"
proof -
  have digits: "list_all digit_char (show_int (int i + 1))" using show_int_nat [of "int i + 1"] by simp
  have nonempty: "show_int (int i + 1) \<noteq> []" using show_int_nat [of "int i + 1"] by (auto simp: digits_value_def)
  have slash: "\<not> digit_char CHR ''/''" "\<not> profile_char CHR ''/''" "\<not> digit_char CHR ''.''" by code_simp+
  have "last (show_int (int i + 1)) \<noteq> CHR ''.''"
    using digits nonempty slash(3) last_in_set unfolding list_all_iff by fastforce
  moreover have "CHR ''/'' \<notin> set (show_int (int i + 1))" "CHR ''/'' \<notin> set p"
    using digits assms(1) slash unfolding list_all_iff profile_name_ok_def by auto
  ultimately show ?thesis
    using nonempty assms by (auto simp: plain_segment_def slot_dir_name_def append_eq_Cons_conv profile_name_ok_def)
qed

lemma worker_count_Some: "worker_count v = Some n \<Longrightarrow> v = jint (int n) \<and> 1 \<le> n \<and> n \<le> 50"
proof (induction v)
  case (JNum x)
  then obtain r where r: "x = Fin r" "r = of_int \<lfloor>r\<rfloor>" "1 \<le> r" "r \<le> 50" "n = nat \<lfloor>r\<rfloor>"
    by (cases x) (auto simp: worker_count_def split: if_splits)
  then have b: "1 \<le> \<lfloor>r\<rfloor>" "\<lfloor>r\<rfloor> \<le> 50" by linarith+
  then have n: "int n = \<lfloor>r\<rfloor>" using r(5) by simp
  then have "1 \<le> n" "n \<le> 50" using b by linarith+
  then show ?case using r(1,2) n by simp
qed (simp_all add: worker_count_def)

lemma slot_dir_name_inject: "n \<noteq> 1 \<Longrightarrow> slot_dir_name p n i = slot_dir_name p n j \<longleftrightarrow> i = j"
  by (auto simp: slot_dir_name_def show_int_inject)

text \<open>The slots of a host are as many as asked for, between 1 and 50; they advertise one profile, no two
  share a worker id or a directory, and the directory of each lies directly in the profiles directory,
  unless a single worker is asked to use a profile named by one or two dots.\<close>

theorem slots_are_disjoint:
  assumes "deriveWorkerSlots opts = Inr slots"
    and "length slots \<noteq> 1 \<or> js_trim (soProfile opts) \<notin> {''.'', ''..''}"
  shows "soWorkers opts = jint (int (length slots)) \<and> 1 \<le> length slots \<and> length slots \<le> 50
     \<and> distinct (map slotWorkerId slots) \<and> distinct (map profileDir slots)
     \<and> (\<forall>s \<in> set slots. slotProfileId s = js_trim (soProfile opts)
          \<and> (\<exists>x. plain_segment x \<and> profileDir s = dir_below (soProfilesDir opts) x))"
proof -
  let ?p = "js_trim (soProfile opts)"
  obtain n where n: "profile_name_ok ?p" "worker_count (soWorkers opts) = Some n"
    and slots: "slots = map (\<lambda>i. make_slot opts (slot_prefix opts) (slot_dir_name ?p n i)) [0..<n]"
    using assms(1) by (auto simp: deriveWorkerSlots_def Let_def split: if_splits option.splits)
  have count: "soWorkers opts = jint (int n) \<and> 1 \<le> n \<and> n \<le> 50"
    using n(2) worker_count_Some by blast
  have plain: "plain_segment (slot_dir_name ?p n i)" if "i < n" for i
  proof (cases "n = 1")
    case True
    then have "?p \<notin> {''.'', ''..''}" using assms(2) slots by simp
    moreover have "CHR ''/'' \<notin> set ?p"
    proof -
      have "\<not> profile_char CHR ''/''" by code_simp
      then show ?thesis using n(1) unfolding profile_name_ok_def list_all_iff by blast
    qed
    ultimately show ?thesis using True n(1) by (simp add: slot_dir_name_def plain_segment_def profile_name_ok_def)
  qed (rule numbered_name [OF n(1)])
  have inj: "slot_dir_name ?p n i = slot_dir_name ?p n j \<Longrightarrow> i < n \<Longrightarrow> j < n \<Longrightarrow> i = j" for i j
    using slot_dir_name_inject [of n ?p i j] by (cases "n = 1") auto
  have dirs: "profileDir (make_slot opts q (slot_dir_name ?p n i)) = dir_below (soProfilesDir opts) (slot_dir_name ?p n i)"
    if "i < n" for i q
    using path_join_below [OF plain [OF that]] by (simp add: make_slot_def)
  have "distinct (map slotWorkerId slots)"
    using inj by (auto simp: slots distinct_map make_slot_def inj_on_def)
  moreover have "distinct (map profileDir slots)"
    using inj dirs by (auto simp: slots distinct_map inj_on_def dir_below_inject)
  moreover have "\<forall>s \<in> set slots. slotProfileId s = ?p \<and> (\<exists>x. plain_segment x \<and> profileDir s = dir_below (soProfilesDir opts) x)"
    using plain dirs by (fastforce simp: slots make_slot_def)
  ultimately show ?thesis using count slots by simp
qed

definition demo_slots :: "string \<Rightarrow> int \<Rightarrow> slot_options" where
  "demo_slots p n = \<lparr>soHostname = ''host'', soProfile = p, soWorkers = jint n, soProfilesDir = ''/var/profiles/'', soPrefix = None\<rparr>"

theorem slots_are_disjoint_witness:
  "\<exists>slots. deriveWorkerSlots (demo_slots ''shop'' 3) = Inr slots \<and> distinct (map profileDir slots)
     \<and> map profileDir slots = [''/var/profiles/shop-1'', ''/var/profiles/shop-2'', ''/var/profiles/shop-3'']"
proof -
  obtain slots where run: "deriveWorkerSlots (demo_slots ''shop'' 3) = Inr slots"
    and slots: "slots = map (\<lambda>i. make_slot (demo_slots ''shop'' 3) ''host'' (slot_dir_name ''shop'' 3 i)) [0..<3]"
  proof
    show "deriveWorkerSlots (demo_slots ''shop'' 3) =
        Inr (map (\<lambda>i. make_slot (demo_slots ''shop'' 3) ''host'' (slot_dir_name ''shop'' 3 i)) [0..<3])" by code_simp
  qed (rule refl)
  have "length slots \<noteq> 1 \<or> js_trim (soProfile (demo_slots ''shop'' 3)) \<notin> {''.'', ''..''}" using slots by simp
  from slots_are_disjoint [OF run this] have d: "distinct (map profileDir slots)" by simp
  have m: "map profileDir slots = [''/var/profiles/shop-1'', ''/var/profiles/shop-2'', ''/var/profiles/shop-3'']"
    unfolding slots by code_simp
  show ?thesis by (rule exI [of _ slots]) (intro conjI run d m)
qed

text \<open>A profile named by two dots passes the check of the name and puts the browser profile of a single
  worker into the parent of the profiles directory.\<close>

lemma dotted_profile_escapes:
  "(case deriveWorkerSlots (demo_slots ''..'' 1) of Inr [x] \<Rightarrow> profileDir x | _ \<Rightarrow> []) = ''/var''"
  by code_simp

end
