(* ===== verification/Preflight.thy ===== *)
theory Preflight
  imports Executor_Utils Url_Policy
begin

text \<open>
  Model of \<open>src/scriptcat-engine/rule-preflight.ts\<close>: the check of a rule before it is replayed. It
  walks the steps and the hooks with the stack of the containers around each step, and collects an
  error for each step the replay could not resume or may not run. The walk follows the arrays of
  steps the code follows: \<open>then\<close>, \<open>else\<close>, \<open>steps\<close>, the cases and the default of a switch.
\<close>

section \<open>Errors and containers\<close>

datatype preflight_code =
    WhileElementExistsNavigation
  | RetryNavigation
  | HookNavigation
  | EvaluateDisabled
  | EvaluateUntrusted
  | HistoryNavigation
  | StaticCrossOrigin

record preflight_error =
  pfCode :: preflight_code
  pfMessage :: string
  pfPath :: string
  pfScript :: "string option"

datatype container = Top | InIf | InSwitch | InGroup | InRetry | InHook | InFixedCount | InForEach | InWhileElementExists

definition pf_error :: "preflight_code \<Rightarrow> string \<Rightarrow> string \<Rightarrow> preflight_error" where
  "pf_error c m p = \<lparr>pfCode = c, pfMessage = m, pfPath = p, pfScript = None\<rparr>"

definition indexed :: "string \<Rightarrow> nat \<Rightarrow> string" where
  "indexed p i = p @ ''['' @ show_int (int i) @ '']''"


section \<open>The checks of one step\<close>

text \<open>The property \<open>condition\<close> of the action object\<close>

definition step_condition :: "action \<Rightarrow> rule_condition option" where
  "step_condition a =
     (case a of
        IfA _ c _ _ \<Rightarrow> Some c
      | LoopA b (WhileCondition c) _ _ \<Rightarrow> (case c of Some x \<Rightarrow> Some x | None \<Rightarrow> condition b)
      | _ \<Rightarrow> condition (base a))"

definition scripted :: "action \<Rightarrow> bool" where
  "scripted a \<longleftrightarrow> actionType a = ''evaluate'' \<or> actionType a = ''waitForFunction''"

definition script_errors :: "action \<Rightarrow> string \<Rightarrow> preflight_error list" where
  "script_errors a path =
     (if scripted a \<and> \<not> trusted (base a)
      then [\<lparr>pfCode = EvaluateUntrusted,
             pfMessage = ''evaluate action from recording is untrusted. To enable replay, set `trusted: true` on this step after reviewing the script.'',
             pfPath = path,
             pfScript = (case leafField a ''script'' of JStr x \<Rightarrow> Some (take 200 x) | _ \<Rightarrow> None)\<rparr>]
      else [])
     @ (if map_option condType (step_condition a) = Some ''jsTruthy''
        then [pf_error EvaluateDisabled ''replay v1 disabled the script sandbox; condition 'jsTruthy' is not supported'' (path @ ''.condition'')]
        else [])"

text \<open>The literal target of a navigation that lies outside the domains of the rule\<close>

definition cross_origin :: "url_parser \<Rightarrow> rule \<Rightarrow> action \<Rightarrow> string option" where
  "cross_origin parse rl a =
     (if actionType a \<noteq> ''navigate'' \<and> actionType a \<noteq> ''reload'' then None
      else (case leafField a ''url'' of
              JStr raw \<Rightarrow>
                if js_includes raw ''{{'' \<or> js_includes raw ''}}'' then None
                else (case parse raw of
                        None \<Rightarrow> None
                      | Some u \<Rightarrow> if hostMatchesDomain (hostname u) (domain rl) then None else Some raw)
            | _ \<Rightarrow> None))"

definition checkStaticCrossOrigin :: "url_parser \<Rightarrow> rule \<Rightarrow> action \<Rightarrow> string \<Rightarrow> preflight_error list" where
  "checkStaticCrossOrigin parse rl a path =
     (case cross_origin parse rl a of
        None \<Rightarrow> []
      | Some raw \<Rightarrow> [pf_error StaticCrossOrigin
          (''replay v1 only supports same-origin navigation; literal target ''  @ [CHR 0x27] @ raw @ [CHR 0x27] @
           '' is cross-origin to rule.domain ['' @ join_strings '', '' (domain rl) @ '']'') path])"

definition gateNavigation :: "url_parser \<Rightarrow> rule \<Rightarrow> action \<Rightarrow> string \<Rightarrow> container list \<Rightarrow> preflight_error list" where
  "gateNavigation parse rl a path cs =
     (if actionType a = ''goBack'' \<or> actionType a = ''goForward''
      then [pf_error HistoryNavigation (actionType a @ '' is not supported by replay: the history destination cannot be validated before navigation'') path]
      else if InHook \<in> set cs \<or> js_startsWith path ''hooks.''
      then [pf_error HookNavigation ''navigation inside hook is not checkpointed by replay v1; move to top-level or post-hook steps'' path]
      else if InRetry \<in> set cs
      then [pf_error RetryNavigation ''navigation inside retry is not supported: attempt-count semantics are ambiguous across page navigation'' path]
      else if InWhileElementExists \<in> set cs
      then [pf_error WhileElementExistsNavigation ''navigation inside loop.whileElementExists is not supported: past iterations cannot be re-entered without replaying historical DOM'' path]
      else checkStaticCrossOrigin parse rl a path)"

definition step_errors :: "url_parser \<Rightarrow> rule \<Rightarrow> action \<Rightarrow> string \<Rightarrow> container list \<Rightarrow> preflight_error list" where
  "step_errors parse rl a path cs =
     script_errors a path @ (if actionMayNavigate a then gateNavigation parse rl a path cs else [])"


section \<open>The walk\<close>

definition loop_container :: "loop_kind \<Rightarrow> container" where
  "loop_container k =
     (case k of
        ForEach _ \<Rightarrow> InForEach
      | WhileElementExists _ \<Rightarrow> InWhileElementExists
      | _ \<Rightarrow> InFixedCount)"

text \<open>The containers of the \<open>steps\<close> of an action that is neither loop, switch nor group by its type\<close>

definition leaf_containers :: "string \<Rightarrow> container list \<Rightarrow> container list" where
  "leaf_containers t cs = (if t = ''retry'' then cs @ [InRetry] else cs)"

function walkStep :: "url_parser \<Rightarrow> rule \<Rightarrow> action \<Rightarrow> string \<Rightarrow> container list \<Rightarrow> preflight_error list"
  and traverse :: "url_parser \<Rightarrow> rule \<Rightarrow> action list \<Rightarrow> nat \<Rightarrow> string \<Rightarrow> container list \<Rightarrow> preflight_error list"
  and walk_cases :: "url_parser \<Rightarrow> rule \<Rightarrow> (jval \<times> action list option) list \<Rightarrow> nat \<Rightarrow> string \<Rightarrow> container list \<Rightarrow> preflight_error list"
  and walk_field :: "url_parser \<Rightarrow> rule \<Rightarrow> string \<Rightarrow> (string \<times> action list) list \<Rightarrow> string \<Rightarrow> container list \<Rightarrow> preflight_error list" where
  "walkStep parse rl (Leaf b t fs arrays) path cs =
     step_errors parse rl (Leaf b t fs arrays) path cs
     @ walk_field parse rl ''then'' arrays (path @ ''.then'') (cs @ [InIf])
     @ walk_field parse rl ''else'' arrays (path @ ''.else'') (cs @ [InIf])
     @ walk_field parse rl ''steps'' arrays (path @ ''.steps'') (leaf_containers t cs)"
| "walkStep parse rl (IfA b c th el) path cs =
     step_errors parse rl (IfA b c th el) path cs
     @ traverse parse rl th 0 (path @ ''.then'') (cs @ [InIf])
     @ (case el of None \<Rightarrow> [] | Some as \<Rightarrow> traverse parse rl as 0 (path @ ''.else'') (cs @ [InIf]))"
| "walkStep parse rl (LoopA b k n as) path cs =
     step_errors parse rl (LoopA b k n as) path cs
     @ traverse parse rl as 0 (path @ ''.steps'') (cs @ [loop_container k])"
| "walkStep parse rl (SwitchA b x cases dflt) path cs =
     step_errors parse rl (SwitchA b x cases dflt) path cs
     @ (case cases of None \<Rightarrow> [] | Some ks \<Rightarrow> walk_cases parse rl ks 0 (path @ ''.cases'') (cs @ [InSwitch]))
     @ (case dflt of None \<Rightarrow> [] | Some as \<Rightarrow> traverse parse rl as 0 (path @ ''.default'') (cs @ [InSwitch]))"
| "walkStep parse rl (GroupA b as) path cs =
     step_errors parse rl (GroupA b as) path cs
     @ traverse parse rl as 0 (path @ ''.steps'') (cs @ [InGroup])"
| "traverse parse rl [] i path cs = []"
| "traverse parse rl (a # as) i path cs =
     walkStep parse rl a (indexed path i) cs @ traverse parse rl as (Suc i) path cs"
| "walk_cases parse rl [] i path cs = []"
| "walk_cases parse rl ((v, body) # ks) i path cs =
     (case body of None \<Rightarrow> [] | Some as \<Rightarrow> traverse parse rl as 0 (indexed path i @ ''.steps'') cs)
     @ walk_cases parse rl ks (Suc i) path cs"
| "walk_field parse rl f [] path cs = []"
| "walk_field parse rl f ((g, as) # fs) path cs =
     (if g = f then traverse parse rl as 0 path cs else walk_field parse rl f fs path cs)"
  by pat_completeness auto

termination walkStep
  by (relation "measure (\<lambda>x. case x of
        Inl (Inl (_, _, a, _)) \<Rightarrow> size a
      | Inl (Inr (_, _, as, _)) \<Rightarrow> size_list size as
      | Inr (Inl (_, _, ks, _)) \<Rightarrow> size_list (size_prod (\<lambda>_. 0) (size_option (size_list size))) ks
      | Inr (Inr (_, _, _, fs, _)) \<Rightarrow> size_list (size_prod (\<lambda>_. 0) (size_list size)) fs)") simp_all

definition hook_errors :: "url_parser \<Rightarrow> rule \<Rightarrow> string \<Rightarrow> action list option \<Rightarrow> preflight_error list" where
  "hook_errors parse rl name as = (case as of None \<Rightarrow> [] | Some xs \<Rightarrow> traverse parse rl xs 0 (''hooks.'' @ name) [InHook])"

definition preflightRule :: "url_parser \<Rightarrow> rule \<Rightarrow> preflight_error list" where
  "preflightRule parse rl =
     traverse parse rl (steps rl) 0 ''steps'' [Top]
     @ hook_errors parse rl ''beforeAll'' (beforeAll (hooks rl))
     @ hook_errors parse rl ''afterAll'' (afterAll (hooks rl))
     @ hook_errors parse rl ''onError'' (onErrorHook (hooks rl))
     @ hook_errors parse rl ''cleanup'' (cleanupHook (hooks rl))"


section \<open>What an accepted rule satisfies\<close>

text \<open>The arrays of steps of an action that the replay understands, each with the container it opens\<close>

definition named_array :: "string \<Rightarrow> (string \<times> action list) list \<Rightarrow> action list" where
  "named_array f arrays = (case map_of arrays f of None \<Rightarrow> [] | Some as \<Rightarrow> as)"

fun bodies :: "action \<Rightarrow> (container list \<times> action list) list" where
  "bodies (Leaf b t fs arrays) =
     [([InIf], named_array ''then'' arrays), ([InIf], named_array ''else'' arrays), (leaf_containers t [], named_array ''steps'' arrays)]"
| "bodies (IfA b c th el) = [([InIf], th), ([InIf], case el of None \<Rightarrow> [] | Some as \<Rightarrow> as)]"
| "bodies (LoopA b k n as) = [([loop_container k], as)]"
| "bodies (SwitchA b x cases dflt) =
     map (\<lambda>(v, body). ([InSwitch], case body of None \<Rightarrow> [] | Some as \<Rightarrow> as)) (case cases of None \<Rightarrow> [] | Some ks \<Rightarrow> ks)
     @ [([InSwitch], case dflt of None \<Rightarrow> [] | Some as \<Rightarrow> as)]"
| "bodies (GroupA b as) = [([InGroup], as)]"

text \<open>\<open>occurs_in a cs b ds\<close>: below \<open>a\<close>, reached through the containers \<open>cs\<close>, stands \<open>b\<close> inside the containers \<open>ds\<close>.\<close>

inductive occurs_in :: "action \<Rightarrow> container list \<Rightarrow> action \<Rightarrow> container list \<Rightarrow> bool" where
  here: "occurs_in a cs a cs"
| deeper: "(k, xs) \<in> set (bodies a) \<Longrightarrow> x \<in> set xs \<Longrightarrow> occurs_in x (cs @ k) b ds \<Longrightarrow> occurs_in a cs b ds"

definition step_ok :: "url_parser \<Rightarrow> rule \<Rightarrow> action \<Rightarrow> container list \<Rightarrow> bool" where
  "step_ok parse rl a cs \<longleftrightarrow>
     (scripted a \<longrightarrow> trusted (base a)) \<and> map_option condType (step_condition a) \<noteq> Some ''jsTruthy''
     \<and> (actionMayNavigate a \<longrightarrow>
          actionType a \<notin> {''goBack'', ''goForward''} \<and> InHook \<notin> set cs \<and> InRetry \<notin> set cs
          \<and> InWhileElementExists \<notin> set cs \<and> cross_origin parse rl a = None)"

definition all_ok :: "url_parser \<Rightarrow> rule \<Rightarrow> action \<Rightarrow> container list \<Rightarrow> bool" where
  "all_ok parse rl a cs \<longleftrightarrow> (\<forall>b ds. occurs_in a cs b ds \<longrightarrow> step_ok parse rl b ds)"

inductive_simps occurs_in_iff: "occurs_in a cs b ds"

lemma all_ok_unfold:
  "all_ok parse rl a cs \<longleftrightarrow>
     step_ok parse rl a cs \<and> (\<forall>(k, xs) \<in> set (bodies a). \<forall>x \<in> set xs. all_ok parse rl x (cs @ k))"
  unfolding all_ok_def by (subst occurs_in_iff) blast

text \<open>The same, for each kind of action\<close>

lemma all_ok_simps:
  "all_ok parse rl (Leaf b t fs arrays) cs \<longleftrightarrow> step_ok parse rl (Leaf b t fs arrays) cs
     \<and> (\<forall>x \<in> set (named_array ''then'' arrays). all_ok parse rl x (cs @ [InIf]))
     \<and> (\<forall>x \<in> set (named_array ''else'' arrays). all_ok parse rl x (cs @ [InIf]))
     \<and> (\<forall>x \<in> set (named_array ''steps'' arrays). all_ok parse rl x (leaf_containers t cs))"
  "all_ok parse rl (IfA b c th el) cs \<longleftrightarrow> step_ok parse rl (IfA b c th el) cs
     \<and> (\<forall>x \<in> set th. all_ok parse rl x (cs @ [InIf]))
     \<and> (\<forall>x \<in> set (case el of None \<Rightarrow> [] | Some as \<Rightarrow> as). all_ok parse rl x (cs @ [InIf]))"
  "all_ok parse rl (LoopA b k n as) cs \<longleftrightarrow> step_ok parse rl (LoopA b k n as) cs
     \<and> (\<forall>x \<in> set as. all_ok parse rl x (cs @ [loop_container k]))"
  "all_ok parse rl (SwitchA b e ks dflt) cs \<longleftrightarrow> step_ok parse rl (SwitchA b e ks dflt) cs
     \<and> (\<forall>(v, body) \<in> set (case ks of None \<Rightarrow> [] | Some ys \<Rightarrow> ys).
          \<forall>x \<in> set (case body of None \<Rightarrow> [] | Some as \<Rightarrow> as). all_ok parse rl x (cs @ [InSwitch]))
     \<and> (\<forall>x \<in> set (case dflt of None \<Rightarrow> [] | Some as \<Rightarrow> as). all_ok parse rl x (cs @ [InSwitch]))"
  "all_ok parse rl (GroupA b as) cs \<longleftrightarrow> step_ok parse rl (GroupA b as) cs
     \<and> (\<forall>x \<in> set as. all_ok parse rl x (cs @ [InGroup]))"
  by (subst all_ok_unfold; fastforce simp: leaf_containers_def)+

text \<open>A path that starts like one of the steps, or a stack that shows the hook\<close>

definition placed :: "string \<Rightarrow> container list \<Rightarrow> bool" where
  "placed path cs \<longleftrightarrow> InHook \<in> set cs \<or> (\<exists>r. path = ''steps'' @ r)"

lemma placed_extend [simp]: "placed p cs \<Longrightarrow> placed (p @ q) (cs @ k)" "placed p cs \<Longrightarrow> placed (p @ q) cs"
  "placed p cs \<Longrightarrow> placed (indexed p i) cs" "placed p cs \<Longrightarrow> placed (indexed p i @ q) cs"
  by (auto simp: placed_def indexed_def)

lemma placed_leaf [simp]: "placed p cs \<Longrightarrow> placed (p @ q) (leaf_containers t cs)"
  by (simp add: leaf_containers_def)

lemma step_errors_empty:
  assumes "placed path cs"
  shows "step_errors parse rl a path cs = [] \<longleftrightarrow> step_ok parse rl a cs"
proof -
  have "\<not> js_startsWith (''steps'' @ r) ''hooks.''" for r
    by (simp add: js_startsWith_def)
  then have hook: "InHook \<in> set cs \<or> js_startsWith path ''hooks.'' \<longleftrightarrow> InHook \<in> set cs"
    using assms by (auto simp: placed_def)
  show ?thesis
    unfolding step_errors_def step_ok_def gateNavigation_def hook script_errors_def checkStaticCrossOrigin_def
    by (auto split: option.split)
qed

lemma walk_empty:
  "placed path cs \<Longrightarrow> walkStep parse rl a path cs = [] \<longleftrightarrow> all_ok parse rl a cs"
  "placed path cs \<Longrightarrow> traverse parse rl as i path cs = [] \<longleftrightarrow> (\<forall>x \<in> set as. all_ok parse rl x cs)"
  "placed path cs \<Longrightarrow> walk_cases parse rl ks i path cs = [] \<longleftrightarrow>
     (\<forall>(v, body) \<in> set ks. \<forall>x \<in> set (case body of None \<Rightarrow> [] | Some as \<Rightarrow> as). all_ok parse rl x cs)"
  "placed path cs \<Longrightarrow> walk_field parse rl f fs path cs = [] \<longleftrightarrow> (\<forall>x \<in> set (named_array f fs). all_ok parse rl x cs)"
proof (induction parse rl a path cs and parse rl as i path cs and parse rl ks i path cs and parse rl f fs path cs
    rule: walkStep_traverse_walk_cases_walk_field.induct)
qed (auto simp: step_errors_empty all_ok_simps named_array_def split: option.splits)

lemma hook_errors_empty:
  "hook_errors parse rl name as = [] \<longleftrightarrow> (\<forall>xs. as = Some xs \<longrightarrow> (\<forall>x \<in> set xs. all_ok parse rl x [InHook]))"
  by (cases as) (simp_all add: hook_errors_def walk_empty placed_def)

text \<open>C21. The preflight accepts a rule exactly when every step below its steps and hooks may be replayed: its
  scripts are trusted and its condition is no script, and a step that may navigate is no history
  navigation, lies in no hook, no retry and no loop over an existing element, and has no literal target
  outside the domains of the rule.\<close>

theorem preflight_accepts_exactly:
  "preflightRule parse rl = [] \<longleftrightarrow>
     (\<forall>a \<in> set (steps rl). \<forall>b ds. occurs_in a [Top] b ds \<longrightarrow> step_ok parse rl b ds)
     \<and> (\<forall>as \<in> {beforeAll (hooks rl), afterAll (hooks rl), onErrorHook (hooks rl), cleanupHook (hooks rl)}.
          \<forall>xs. as = Some xs \<longrightarrow> (\<forall>a \<in> set xs. \<forall>b ds. occurs_in a [InHook] b ds \<longrightarrow> step_ok parse rl b ds))"
  unfolding preflightRule_def by (simp add: hook_errors_empty walk_empty placed_def all_ok_def)


section \<open>A rule that is accepted, and one whose loop is not seen\<close>

definition leaf :: "string \<Rightarrow> jobj \<Rightarrow> action" where
  "leaf t fs = Leaf empty_base t fs []"

definition replayable_rule :: rule where
  "replayable_rule = shop_rule\<lparr>steps := [leaf ''navigate'' [(''url'', JStr ''https://shop.example.com/list'')],
     LoopA empty_base (ForEach (JStr ''rows'')) None [leaf ''click'' []]]\<rparr>"

theorem preflight_accepts_exactly_witness:
  "step_ok simple_url replayable_rule (leaf ''click'' []) [Top, InForEach]
   \<and> occurs_in (LoopA empty_base (ForEach (JStr ''rows'')) None [leaf ''click'' []]) [Top] (leaf ''click'' []) [Top, InForEach]"
proof -
  let ?l = "LoopA empty_base (ForEach (JStr ''rows'')) None [leaf ''click'' []]"
  have "preflightRule simple_url replayable_rule = []" by code_simp
  then have all: "\<forall>a \<in> set (steps replayable_rule). \<forall>b ds. occurs_in a [Top] b ds \<longrightarrow> step_ok simple_url replayable_rule b ds"
    by (rule conjunct1 [OF iffD1 [OF preflight_accepts_exactly]])
  have "occurs_in (leaf ''click'' []) ([Top] @ [InForEach]) (leaf ''click'' []) [Top, InForEach]"
    using occurs_in.here [of "leaf ''click'' []" "[Top, InForEach]"] by simp
  then have in_loop: "occurs_in ?l [Top] (leaf ''click'' []) [Top, InForEach]"
    by (rule occurs_in.deeper [of "[InForEach]" "[leaf ''click'' []]", rotated 2]) (simp_all add: loop_container_def)
  have "?l \<in> set (steps replayable_rule)" by (simp add: replayable_rule_def)
  from mp [OF spec [OF spec [OF bspec [OF all this]]] in_loop] in_loop show ?thesis by (rule conjI)
qed

text \<open>A navigation in a loop that runs while an element is missing, or while a condition holds, passes as one
  in a counted loop.\<close>

lemma missing_element_loop_accepted:
  "preflightRule simple_url (shop_rule\<lparr>steps := [LoopA empty_base (WhileElementNotExists None) None [leaf ''click'' []]]\<rparr>) = []"
  "preflightRule simple_url (shop_rule\<lparr>steps := [LoopA empty_base (WhileElementExists None) None [leaf ''click'' []]]\<rparr>) \<noteq> []"
  by code_simp+

end
