(* ===== verification/Json_Patch.thy ===== *)
theory Json_Patch
  imports Json
begin

text \<open>
  Model of \<open>src/rule-generator/converter/json-patch.ts\<close> (the applier of snapshot deltas) and of
  \<open>extension/src/recording/snapshot-delta.ts\<close> (the emitter). A patch changes one tree in place; each
  operation checks everything before it writes, so the tree after a failure is the one the
  operations before it left. Reading through the prototype of an object leaves the tree, which the
  model reports instead of following it.
\<close>

section \<open>Pointers\<close>

text \<open>\<open>s.replace(/ab/g, t)\<close> for a pattern of two characters\<close>

fun replace_pair :: "char \<Rightarrow> char \<Rightarrow> string \<Rightarrow> string \<Rightarrow> string" where
  "replace_pair a b t (x # y # s) =
     (if x = a \<and> y = b then t @ replace_pair a b t s else x # replace_pair a b t (y # s))"
| "replace_pair a b t s = s"

definition replace_char :: "char \<Rightarrow> string \<Rightarrow> string \<Rightarrow> string" where
  "replace_char a t s = concat (map (\<lambda>c. if c = a then t else [c]) s)"

definition escapeToken :: "string \<Rightarrow> string" where
  "escapeToken token = replace_char CHR ''/'' ''~1'' (replace_char CHR ''~'' ''~0'' token)"

definition unescape_token :: "string \<Rightarrow> string" where
  "unescape_token token = replace_pair CHR ''~'' CHR ''0'' ''~'' (replace_pair CHR ''~'' CHR ''1'' ''/'' token)"

datatype patch_failure = PatchError string | OutsideTree

definition parsePointer :: "string \<Rightarrow> patch_failure + string list" where
  "parsePointer pointer =
     (if \<not> js_startsWith pointer ''/'' then Inl (PatchError (''patch path must be a rooted JSON pointer: '' @ pointer))
      else Inr (map unescape_token (js_split CHR ''/'' (tl pointer))))"

definition arrayIndex :: "string \<Rightarrow> nat \<Rightarrow> bool \<Rightarrow> patch_failure + nat" where
  "arrayIndex token len allowAppend =
     (case array_index token of
        None \<Rightarrow> Inl (PatchError (''patch path array index must be a non-negative integer, got \"'' @ token @ ''\"''))
      | Some i \<Rightarrow>
          if int i > (if allowAppend then int len else int len - 1)
          then Inl (PatchError (''patch path array index '' @ show_int (int i) @ '' out of bounds (length '' @ show_int (int len) @ '')''))
          else Inr i)"


section \<open>Applying a patch\<close>

record json_patch_op =
  opName :: string
  opPath :: string
  opValue :: jval

definition splice_in :: "nat \<Rightarrow> 'a \<Rightarrow> 'a list \<Rightarrow> 'a list" where
  "splice_in i x xs = take i xs @ x # drop i xs"

definition splice_out :: "nat \<Rightarrow> 'a list \<Rightarrow> 'a list" where
  "splice_out i xs = take i xs @ drop (Suc i) xs"

definition missing :: "string \<Rightarrow> patch_failure" where
  "missing path = PatchError (''patch path '' @ path @ '' does not exist'')"

text \<open>The write of an operation, into the container its path ends in\<close>

definition patch_leaf :: "json_patch_op \<Rightarrow> string \<Rightarrow> jval \<Rightarrow> patch_failure + jval" where
  "patch_leaf p token v =
     (case v of
        JArr xs \<Rightarrow>
          if opName p = ''add'' then bind_sum (arrayIndex token (length xs) True) (\<lambda>i. Inr (JArr (splice_in i (opValue p) xs)))
          else if opName p = ''replace'' then bind_sum (arrayIndex token (length xs) False) (\<lambda>i. Inr (JArr (xs[i := opValue p])))
          else bind_sum (arrayIndex token (length xs) False) (\<lambda>i. Inr (JArr (splice_out i xs)))
      | JObj fs \<Rightarrow>
          if opName p \<noteq> ''add'' \<and> \<not> key_in token fs then Inl (missing (opPath p))
          else if opName p = ''remove'' then Inr (JObj (al_remove token fs))
          else if token = ''__proto__'' \<and> \<not> obj_has fs token then Inl OutsideTree
          else Inr (JObj (al_set token (opValue p) fs))
      | _ \<Rightarrow> Inl (PatchError (''patch path '' @ opPath p @ '' addresses a non-container'')))"

text \<open>The way to that container: the token before the last one is consumed by the last step.\<close>

fun patch_at :: "json_patch_op \<Rightarrow> string list \<Rightarrow> jval \<Rightarrow> patch_failure + jval" where
  "patch_at p [] v = Inl (PatchError (''patch path must not address the document root: '' @ opPath p))"
| "patch_at p [t] v = patch_leaf p t v"
| "patch_at p (t # u # ts) (JArr xs) =
     bind_sum (arrayIndex t (length xs) False)
       (\<lambda>i. bind_sum (patch_at p (u # ts) (xs ! i)) (\<lambda>v. Inr (JArr (xs[i := v]))))"
| "patch_at p (t # u # ts) (JObj fs) =
     (case map_of fs t of
        Some v \<Rightarrow> bind_sum (patch_at p (u # ts) v) (\<lambda>v'. Inr (JObj (al_set t v' fs)))
      | None \<Rightarrow>
          if t = ''__proto__'' then Inl OutsideTree
          else if \<not> key_in t fs then Inl (missing (opPath p))
          else if ts = [] then Inl (PatchError (''patch path '' @ opPath p @ '' addresses a non-container''))
          else Inl (PatchError (''patch path '' @ opPath p @ '' traverses a non-container'')))"
| "patch_at p (t # u # ts) v = Inl (PatchError (''patch path '' @ opPath p @ '' traverses a non-container''))"

definition apply_op :: "json_patch_op \<Rightarrow> jval \<Rightarrow> patch_failure + jval" where
  "apply_op p doc =
     (if opName p \<notin> {''add'', ''replace'', ''remove''} then Inl (PatchError (''unsupported patch op '' @ opName p))
      else if opName p \<noteq> ''remove'' \<and> opValue p = JUndef
      then Inl (PatchError (''patch op '' @ opName p @ '' '' @ opPath p @ '' requires a value''))
      else bind_sum (parsePointer (opPath p))
        (\<lambda>tokens. if last tokens = [] then Inl (PatchError (''patch path must not address the document root: '' @ opPath p))
                   else patch_at p tokens doc))"

text \<open>The tree an application leaves, and the error that ended it\<close>

primrec applyJsonPatch :: "json_patch_op list \<Rightarrow> jval \<Rightarrow> jval \<times> patch_failure option" where
  "applyJsonPatch [] doc = (doc, None)"
| "applyJsonPatch (p # ps) doc =
     (case apply_op p doc of
        Inl e \<Rightarrow> (doc, Some e)
      | Inr doc2 \<Rightarrow> applyJsonPatch ps doc2)"


section \<open>Emitting a patch\<close>

definition jsonSafe :: "jval \<Rightarrow> jval" where
  "jsonSafe v = (if v = JUndef then JNull else v)"

text \<open>\<open>===\<close> on values of which two containers are never the same object\<close>

fun same_value :: "jval \<Rightarrow> jval \<Rightarrow> bool" where
  "same_value (JArr _) _ = False"
| "same_value (JObj _) _ = False"
| "same_value (JNum NaN) _ = False"
| "same_value v w = (v = w)"

definition present :: "jobj \<Rightarrow> string \<Rightarrow> bool" where
  "present fs k \<longleftrightarrow> (if obj_has fs k then obj_get fs k \<noteq> JUndef else k \<in> set prototype_methods \<or> k = ''__proto__'')"

definition patch_op :: "string \<Rightarrow> string \<Rightarrow> jval \<Rightarrow> json_patch_op" where
  "patch_op name path v = \<lparr>opName = name, opPath = path, opValue = v\<rparr>"

definition removals :: "jobj \<Rightarrow> jobj \<Rightarrow> string \<Rightarrow> json_patch_op list" where
  "removals bs ts pointer =
     map (\<lambda>k. patch_op ''remove'' (pointer @ ''/'' @ escapeToken k) JUndef)
       (filter (\<lambda>k. \<not> present ts k \<and> present bs k) (al_keys bs))"

definition index_pointer :: "string \<Rightarrow> nat \<Rightarrow> string" where
  "index_pointer pointer i = pointer @ ''/'' @ show_int (int i)"

function diffJson :: "jval \<Rightarrow> jval \<Rightarrow> string \<Rightarrow> json_patch_op list"
  and diff_shared :: "jval list \<Rightarrow> jval list \<Rightarrow> nat \<Rightarrow> string \<Rightarrow> json_patch_op list"
  and diff_fields :: "jobj \<Rightarrow> jobj \<Rightarrow> jobj \<Rightarrow> string \<Rightarrow> json_patch_op list" where
  "diffJson base target pointer =
     (if same_value base target then []
      else (case (base, target) of
        (JArr bs, JArr ts) \<Rightarrow>
          diff_shared bs ts 0 pointer
          @ map (\<lambda>i. patch_op ''remove'' (index_pointer pointer i) JUndef) (rev [length ts..<length bs])
          @ map (\<lambda>i. patch_op ''add'' (index_pointer pointer i) (jsonSafe (ts ! i))) [length bs..<length ts]
      | (JObj bs, JObj ts) \<Rightarrow> removals bs ts pointer @ diff_fields bs ts ts pointer
      | _ \<Rightarrow> [patch_op ''replace'' pointer (jsonSafe target)]))"
| "diff_shared [] ts i pointer = []"
| "diff_shared (b # bs) [] i pointer = []"
| "diff_shared (b # bs) (t # ts) i pointer =
     diffJson b t (index_pointer pointer i) @ diff_shared bs ts (Suc i) pointer"
| "diff_fields bs all [] pointer = []"
| "diff_fields bs all ((k, v) # ts) pointer =
     (if \<not> present all k then diff_fields bs all ts pointer
      else (if \<not> present bs k then [patch_op ''add'' (pointer @ ''/'' @ escapeToken k) v]
            else diffJson (obj_get bs k) v (pointer @ ''/'' @ escapeToken k))
        @ diff_fields bs all ts pointer)"
  by pat_completeness auto

termination diffJson
  by (relation "measure (\<lambda>x. case x of
        Inl (_, t, _) \<Rightarrow> 2 * size t
      | Inr (Inl (_, ts, _, _)) \<Rightarrow> 2 * size_list size ts + 1
      | Inr (Inr (_, _, ts, _)) \<Rightarrow> 2 * size_list (size_prod (\<lambda>_. 0) size) ts + 1)") auto

declare diffJson.simps [simp del]

end
