(* ===== verification/Json_Patch_Laws.thy ===== *)
theory Json_Patch_Laws
  imports Json_Patch
begin

text \<open>
  The emitter and the applier of snapshot deltas fit together: applying the patch that leads from a
  base to a target to the base gives the target, up to the order of the properties of objects.
\<close>

section \<open>Tokens and pointers\<close>

lemma replace_pair_other: "x \<noteq> a \<Longrightarrow> replace_pair a b t (x # s) = x # replace_pair a b t s"
  by (cases s) auto

lemma escape_chars:
  "escapeToken s = concat (map (\<lambda>c. if c = CHR ''/'' then ''~1'' else if c = CHR ''~'' then ''~0'' else [c]) s)"
  unfolding escapeToken_def by (induction s) (auto simp: replace_char_def)

lemma unescape_first:
  "replace_pair CHR ''~'' CHR ''1'' ''/'' (escapeToken s) = concat (map (\<lambda>c. if c = CHR ''~'' then ''~0'' else [c]) s)"
  unfolding escape_chars by (induction s) (auto simp: replace_pair_other)

lemma unescape_escape [simp]: "unescape_token (escapeToken s) = s"
proof -
  have "replace_pair CHR ''~'' CHR ''0'' ''~'' (concat (map (\<lambda>c. if c = CHR ''~'' then ''~0'' else [c]) s)) = s"
    by (induction s) (auto simp: replace_pair_other)
  then show ?thesis by (simp add: unescape_token_def unescape_first)
qed

lemma escape_no_slash: "CHR ''/'' \<notin> set (escapeToken s)"
  by (auto simp: escape_chars)

lemma escape_digits: "list_all digit_char s \<Longrightarrow> escapeToken s = s"
proof -
  have no: "\<not> digit_char CHR ''/''" "\<not> digit_char CHR ''~''" by code_simp+
  show "list_all digit_char s \<Longrightarrow> escapeToken s = s"
    unfolding escape_chars by (induction s) (use no in auto)
qed

definition pointer_of :: "string list \<Rightarrow> string" where
  "pointer_of ts = concat (map (\<lambda>t. ''/'' @ escapeToken t) ts)"

lemma pointer_of_snoc: "pointer_of (ts @ [t]) = pointer_of ts @ ''/'' @ escapeToken t"
  by (simp add: pointer_of_def)

lemma split_pointer: "js_split CHR ''/'' (escapeToken t @ pointer_of ts) = map escapeToken (t # ts)"
proof (induction ts arbitrary: t)
  case (Cons u us)
  have "escapeToken t @ pointer_of (u # us) = escapeToken t @ CHR ''/'' # (escapeToken u @ pointer_of us)"
    by (simp add: pointer_of_def)
  then show ?case using Cons.IH [of u] by (simp add: js_split_append js_split_plain escape_no_slash)
qed (simp add: pointer_of_def js_split_plain escape_no_slash)

lemma parse_pointer_of: "ts \<noteq> [] \<Longrightarrow> parsePointer (pointer_of ts) = Inr ts"
proof (cases ts)
  case (Cons u us)
  have "map unescape_token (map escapeToken xs) = xs" for xs by (induction xs) simp_all
  then show ?thesis
    using split_pointer [of u us] Cons by (simp add: parsePointer_def pointer_of_def js_startsWith_def)
qed simp

lemma show_digits_canonical: "show_digits n \<noteq> [] \<and> (hd (show_digits n) = CHR ''0'' \<longrightarrow> n = 0)"
proof (induction n rule: show_digits.induct)
  case (1 n)
  have zero: "dec_val CHR ''0'' = 0" by code_simp
  show ?case
  proof (cases "n < 10")
    case True
    then show ?thesis using digit_of_less_10 [OF True] zero by (auto simp: show_digits.simps [of n])
  next
    case False
    then show ?thesis using 1 by (auto simp: show_digits.simps [of n])
  qed
qed

lemma array_index_show: "array_index (show_int (int i)) = Some i"
proof -
  have zero: "show_int 0 = ''0''" by code_simp
  have "hd (show_int (int i)) = CHR ''0'' \<Longrightarrow> show_int (int i) = ''0''"
    using show_digits_canonical [of i] zero by (auto simp: show_int_def)
  then show ?thesis
    using show_int_nat [of "int i"] show_digits_canonical [of i] by (auto simp: array_index_def show_int_def)
qed

lemma arrayIndex_show: "i < n \<or> app \<and> i \<le> n \<Longrightarrow> arrayIndex (show_int (int i)) n app = Inr i"
  by (auto simp: arrayIndex_def array_index_show)

lemma show_int_token: "escapeToken (show_int (int i)) = show_int (int i)" "show_int (int i) \<noteq> []"
  using show_int_nat [of "int i"] escape_digits show_digits_canonical [of i] by (auto simp: show_int_def)

lemma index_pointer_of: "index_pointer (pointer_of ts) i = pointer_of (ts @ [show_int (int i)])"
  by (simp add: index_pointer_def pointer_of_snoc show_int_token)


section \<open>Patching below a place in a tree\<close>

lemma applyJsonPatch_append:
  "applyJsonPatch ps d = (d', None) \<Longrightarrow> applyJsonPatch (ps @ qs) d = applyJsonPatch qs d'"
  by (induction ps arbitrary: d) (auto split: sum.splits)

lemma al_set_al_set [simp]: "al_set k v (al_set k w es) = al_set k v es"
  by (induction es) auto

text \<open>The operations whose path starts with the tokens of a place act on the tree at that place.\<close>

definition frames :: "(jval \<Rightarrow> jval) \<Rightarrow> string list \<Rightarrow> bool" where
  "frames K ts \<longleftrightarrow> [] \<notin> set ts
     \<and> (\<forall>v p us. us \<noteq> [] \<longrightarrow> patch_at p (ts @ us) (K v) = bind_sum (patch_at p us v) (\<lambda>v'. Inr (K v')))
     \<and> (\<forall>v p. ts \<noteq> [] \<longrightarrow> opName p = ''replace'' \<longrightarrow> patch_at p ts (K v) = Inr (K (opValue p)))"

lemma frames_root: "frames (\<lambda>v. v) []"
  by (auto simp: frames_def bind_sum_def split: sum.split)

lemma bind_sum_assoc: "bind_sum (bind_sum x f) g = bind_sum x (\<lambda>a. bind_sum (f a) g)"
  by (cases x) simp_all

lemma frames_field:
  assumes "frames K ts" "t \<noteq> []"
  shows "frames (\<lambda>v. K (JObj (al_set t v fs))) (ts @ [t])"
  using assms unfolding frames_def
  by (auto simp: neq_Nil_conv bind_sum_assoc patch_leaf_def key_in_def obj_has_def)

lemma frames_item:
  assumes "frames K ts" "i < length xs"
  shows "frames (\<lambda>v. K (JArr (xs[i := v]))) (ts @ [show_int (int i)])"
  using assms unfolding frames_def
  by (auto simp: neq_Nil_conv bind_sum_assoc patch_leaf_def arrayIndex_show show_int_token(2) show_int_token(2) [symmetric])

text \<open>One operation at a token below a place\<close>

lemma apply_op_below:
  assumes "frames K ts" "t \<noteq> []" "n \<in> {''add'', ''replace'', ''remove''}" "n \<noteq> ''remove'' \<longrightarrow> x \<noteq> JUndef"
  shows "apply_op (patch_op n (pointer_of (ts @ [t])) x) (K v) =
     bind_sum (patch_leaf (patch_op n (pointer_of (ts @ [t])) x) t v) (\<lambda>v'. Inr (K v'))"
  using assms by (auto simp: apply_op_def patch_op_def parse_pointer_of frames_def)

lemma apply_replace:
  assumes "frames K ts" "ts \<noteq> []" "x \<noteq> JUndef"
  shows "apply_op (patch_op ''replace'' (pointer_of ts) x) (K v) = Inr (K x)"
proof -
  have "last ts \<noteq> []" using assms(1,2) last_in_set unfolding frames_def by metis
  then show ?thesis using assms by (simp add: apply_op_def patch_op_def parse_pointer_of frames_def)
qed


section \<open>JSON values\<close>

definition plain_key :: "string \<Rightarrow> bool" where
  "plain_key k \<longleftrightarrow> k \<noteq> [] \<and> k \<notin> set prototype_methods \<and> k \<noteq> ''__proto__''"

fun json_ok :: "jval \<Rightarrow> bool" where
  "json_ok JUndef = False"
| "json_ok (JNum n) = num_is_finite n"
| "json_ok (JArr vs) = list_all json_ok vs"
| "json_ok (JObj fs) = (al_wf fs \<and> list_all (\<lambda>(k, v). plain_key k \<and> json_ok v) fs)"
| "json_ok _ = True"

inductive json_eq :: "jval \<Rightarrow> jval \<Rightarrow> bool" where
  atom: "\<not> is_record v \<Longrightarrow> \<not> is_array v \<Longrightarrow> json_eq v v"
| array: "list_all2 json_eq xs ys \<Longrightarrow> json_eq (JArr xs) (JArr ys)"
| object: "(\<And>k. rel_option json_eq (map_of fs k) (map_of gs k)) \<Longrightarrow> json_eq (JObj fs) (JObj gs)"
  monos list.rel_mono option.rel_mono

lemma json_eq_refl: "json_eq v v"
proof (induction v)
  case (JArr vs)
  then show ?case by (intro json_eq.array) (simp add: list_all2_same)
next
  case (JObj fs)
  have "rel_option json_eq (map_of fs k) (map_of fs k)" for k
  proof (cases "map_of fs k")
    case (Some v)
    then have "(k, v) \<in> set fs" by (rule map_of_SomeD)
    then show ?thesis using JObj Some by fastforce
  qed simp
  then show ?case by (rule json_eq.object)
qed (auto intro: json_eq.atom)


section \<open>Removing and adding items\<close>

lemma drop_last_items:
  assumes "frames K ts" "n \<le> length zs"
  shows "applyJsonPatch (map (\<lambda>i. patch_op ''remove'' (index_pointer (pointer_of ts) i) JUndef) (rev [n..<length zs])) (K (JArr zs))
     = (K (JArr (take n zs)), None)"
  using assms(2)
proof (induction "length zs - n" arbitrary: zs)
  case (Suc d)
  then obtain m where m: "length zs = Suc m" "n \<le> m" by (cases "length zs") auto
  have split: "rev [n..<length zs] = m # rev [n..<m]" using m by simp
  have leaf: "patch_leaf (patch_op ''remove'' p JUndef) (show_int (int m)) (JArr zs) = Inr (JArr (butlast zs))" for p
    using m by (simp add: patch_leaf_def patch_op_def arrayIndex_show splice_out_def butlast_conv_take)
  have "apply_op (patch_op ''remove'' (index_pointer (pointer_of ts) m) JUndef) (K (JArr zs)) = Inr (K (JArr (butlast zs)))"
    using apply_op_below [OF assms(1), of "show_int (int m)" "''remove''" JUndef "JArr zs"] leaf
    by (simp add: index_pointer_of show_int_token)
  moreover have "length (butlast zs) = m" "take n (butlast zs) = take n zs" "n \<le> length (butlast zs)" "d = length (butlast zs) - n"
    using m Suc.hyps(2) by (auto simp: take_butlast)
  ultimately show ?case using Suc.hyps(1) [of "butlast zs"] by (simp only: split list.map applyJsonPatch.simps sum.case)
qed simp

lemma append_items:
  assumes "frames K ts" "list_all json_ok ys" "length zs = length xs"
  shows "applyJsonPatch (map (\<lambda>i. patch_op ''add'' (index_pointer (pointer_of ts) i) (jsonSafe ((xs @ ys) ! i))) [length zs..<length (xs @ ys)])
      (K (JArr zs)) = (K (JArr (zs @ ys)), None)"
  using assms(2,3)
proof (induction ys arbitrary: xs zs)
  case (Cons y ys)
  have y: "jsonSafe y = y" "y \<noteq> JUndef" using Cons.prems(1) by (auto simp: jsonSafe_def)
  have split: "[length zs..<length (xs @ y # ys)] = length zs # [Suc (length zs)..<length (xs @ y # ys)]"
    by (rule upt_conv_Cons) (simp add: Cons.prems(2))
  have leaf: "patch_leaf (patch_op ''add'' p y) (show_int (int (length zs))) (JArr zs) = Inr (JArr (zs @ [y]))" for p
    by (simp add: patch_leaf_def patch_op_def arrayIndex_show splice_in_def)
  have "apply_op (patch_op ''add'' (index_pointer (pointer_of ts) (length zs)) (jsonSafe ((xs @ y # ys) ! length zs))) (K (JArr zs)) = Inr (K (JArr (zs @ [y])))"
    using apply_op_below [OF assms(1), of "show_int (int (length zs))" "''add''" y "JArr zs"] leaf y Cons.prems(2)
    by (simp add: index_pointer_of show_int_token)
  moreover have "applyJsonPatch (map (\<lambda>i. patch_op ''add'' (index_pointer (pointer_of ts) i) (jsonSafe (((xs @ [y]) @ ys) ! i)))
      [length (zs @ [y])..<length ((xs @ [y]) @ ys)]) (K (JArr (zs @ [y]))) = (K (JArr ((zs @ [y]) @ ys)), None)"
    by (rule Cons.IH) (use Cons.prems in auto)
  ultimately show ?case unfolding split by simp
qed simp

lemma remove_fields:
  assumes "frames K ts" "list_all plain_key ks" "distinct ks" "set ks \<subseteq> fst ` set fs"
  shows "applyJsonPatch (map (\<lambda>k. patch_op ''remove'' (pointer_of ts @ ''/'' @ escapeToken k) JUndef) ks) (K (JObj fs))
     = (K (JObj (filter (\<lambda>e. fst e \<notin> set ks) fs)), None)"
  using assms(2-4)
proof (induction ks arbitrary: fs)
  case (Cons k ks)
  have own: "obj_has fs k" using Cons.prems(3) by (auto simp: obj_has_def map_of_eq_None_iff)
  have "apply_op (patch_op ''remove'' (pointer_of ts @ ''/'' @ escapeToken k) JUndef) (K (JObj fs)) = Inr (K (JObj (al_remove k fs)))"
    using apply_op_below [OF assms(1), of k "''remove''" JUndef "JObj fs"] own Cons.prems(1)
    by (simp add: pointer_of_snoc patch_leaf_def patch_op_def key_in_def plain_key_def)
  moreover have "set ks \<subseteq> fst ` set (al_remove k fs)" using Cons.prems(2,3) by (fastforce simp: al_remove_def)
  moreover have "filter (\<lambda>e. fst e \<notin> set ks) (al_remove k fs) = filter (\<lambda>e. fst e \<notin> set (k # ks)) fs"
    by (auto simp: al_remove_def intro: filter_cong)
  ultimately show ?case using Cons.IH [of "al_remove k fs"] Cons.prems by simp
qed (simp add: filter_True)


section \<open>The round trip\<close>

lemma al_set_same: "map_of cur k = Some b \<Longrightarrow> al_set k b cur = cur"
  by (induction cur) (auto split: if_splits)

lemma json_ok_field:
  assumes "list_all (\<lambda>(k, v). plain_key k \<and> json_ok v) fs" "map_of fs k = Some v"
  shows "json_ok v" "plain_key k"
  using assms map_of_SomeD unfolding list_all_iff by fastforce+

lemma present_plain:
  assumes "list_all (\<lambda>(k, v). plain_key k \<and> json_ok v) fs" "plain_key k"
  shows "present fs k \<longleftrightarrow> map_of fs k \<noteq> None"
  using assms(2) json_ok_field [OF assms(1), of k JUndef]
  by (cases "map_of fs k") (auto simp: present_def obj_has_def obj_get_def plain_key_def)

lemma same_value_atom: "same_value v w \<Longrightarrow> v = w \<and> \<not> is_record v \<and> \<not> is_array v"
  by (induction v w rule: same_value.induct) auto

abbreviation fields_ok :: "jobj \<Rightarrow> bool" where
  "fields_ok fs \<equiv> list_all (\<lambda>(k, v). plain_key k \<and> json_ok v) fs"

text \<open>The three emitters, at a place of a tree\<close>

definition reaches :: "(jval \<Rightarrow> jval) \<Rightarrow> json_patch_op list \<Rightarrow> jval \<Rightarrow> (jval \<Rightarrow> bool) \<Rightarrow> bool" where
  "reaches K ps v Q \<longleftrightarrow> (\<exists>v'. applyJsonPatch ps (K v) = (K v', None) \<and> Q v')"

lemma reaches_append:
  assumes "reaches K ps v Q" "\<And>v'. Q v' \<Longrightarrow> reaches K qs v' Q'"
  shows "reaches K (ps @ qs) v Q'"
  using assms applyJsonPatch_append unfolding reaches_def by metis

definition diff_ok :: "jval \<Rightarrow> jval \<Rightarrow> string \<Rightarrow> bool" where
  "diff_ok base target pointer \<longleftrightarrow>
     (\<forall>K ts. pointer = pointer_of ts \<longrightarrow> frames K ts \<longrightarrow> json_ok base \<longrightarrow> json_ok target
       \<longrightarrow> ts \<noteq> [] \<or> is_array base \<and> is_array target \<or> is_record base \<and> is_record target
       \<longrightarrow> reaches K (diffJson base target pointer) base (\<lambda>v. json_eq v target))"

definition shared_ok :: "jval list \<Rightarrow> jval list \<Rightarrow> nat \<Rightarrow> string \<Rightarrow> bool" where
  "shared_ok bs us i pointer \<longleftrightarrow>
     (\<forall>K ts front. pointer = pointer_of ts \<longrightarrow> frames K ts \<longrightarrow> list_all json_ok bs \<longrightarrow> list_all json_ok us \<longrightarrow> length front = i
       \<longrightarrow> reaches K (diff_shared bs us i pointer) (JArr (front @ bs))
             (\<lambda>v. \<exists>ws. v = JArr (front @ ws @ drop (length us) bs) \<and> list_all2 json_eq ws (take (length bs) us)))"

definition fields_done :: "jobj \<Rightarrow> jobj \<Rightarrow> jobj \<Rightarrow> bool" where
  "fields_done cur us out \<longleftrightarrow> (\<forall>k. k \<notin> fst ` set us \<longrightarrow> map_of out k = map_of cur k)
     \<and> (\<forall>(k, v) \<in> set us. \<exists>w. map_of out k = Some w \<and> json_eq w v)"

definition fields_diff_ok :: "jobj \<Rightarrow> jobj \<Rightarrow> jobj \<Rightarrow> string \<Rightarrow> bool" where
  "fields_diff_ok bs all us pointer \<longleftrightarrow>
     (\<forall>K ts cur. pointer = pointer_of ts \<longrightarrow> frames K ts \<longrightarrow> fields_ok bs \<longrightarrow> fields_ok all \<longrightarrow> fields_ok us \<longrightarrow> al_wf us
       \<longrightarrow> (\<forall>(k, v) \<in> set us. map_of all k = Some v) \<longrightarrow> (\<forall>k \<in> fst ` set us. map_of cur k = map_of bs k)
       \<longrightarrow> reaches K (diff_fields bs all us pointer) (JObj cur) (\<lambda>v. \<exists>out. v = JObj out \<and> fields_done cur us out))"

lemma diff_okD:
  "diff_ok base target (pointer_of ts) \<Longrightarrow> frames K ts \<Longrightarrow> json_ok base \<Longrightarrow> json_ok target
     \<Longrightarrow> ts \<noteq> [] \<or> is_array base \<and> is_array target \<or> is_record base \<and> is_record target
     \<Longrightarrow> reaches K (diffJson base target (pointer_of ts)) base (\<lambda>v. json_eq v target)"
  unfolding diff_ok_def by blast

lemma shared_okD:
  "shared_ok bs us (length front) (pointer_of ts) \<Longrightarrow> frames K ts \<Longrightarrow> list_all json_ok bs \<Longrightarrow> list_all json_ok us
     \<Longrightarrow> reaches K (diff_shared bs us (length front) (pointer_of ts)) (JArr (front @ bs))
           (\<lambda>v. \<exists>ws. v = JArr (front @ ws @ drop (length us) bs) \<and> list_all2 json_eq ws (take (length bs) us))"
  unfolding shared_ok_def by blast

lemma fields_diff_okD:
  "fields_diff_ok bs all us (pointer_of ts) \<Longrightarrow> frames K ts \<Longrightarrow> fields_ok bs \<Longrightarrow> fields_ok all \<Longrightarrow> fields_ok us \<Longrightarrow> al_wf us
     \<Longrightarrow> (\<forall>(k, v) \<in> set us. map_of all k = Some v) \<Longrightarrow> (\<forall>k \<in> fst ` set us. map_of cur k = map_of bs k)
     \<Longrightarrow> reaches K (diff_fields bs all us (pointer_of ts)) (JObj cur) (\<lambda>v. \<exists>out. v = JObj out \<and> fields_done cur us out)"
  unfolding fields_diff_ok_def by blast

lemma shared_step:
  assumes "diff_ok b u (index_pointer pointer i)" "shared_ok bs us (Suc i) pointer"
  shows "shared_ok (b # bs) (u # us) i pointer"
  unfolding shared_ok_def
proof (intro allI impI)
  fix K ts and front :: "jval list"
  assume p: "pointer = pointer_of ts" and f: "frames K ts" and b: "list_all json_ok (b # bs)" and u: "list_all json_ok (u # us)"
    and i: "length front = i"
  let ?K = "\<lambda>v. K (JArr ((front @ b # bs)[i := v]))"
  have K: "?K v = K (JArr (front @ v # bs))" for v using i by (simp add: list_update_append)
  have "frames ?K (ts @ [show_int (int i)])" by (rule frames_item [OF f]) (simp add: i)
  then have "reaches ?K (diffJson b u (index_pointer pointer i)) b (\<lambda>v. json_eq v u)"
    using diff_okD [of b u "ts @ [show_int (int i)]"] assms(1) b u unfolding p index_pointer_of by simp
  then obtain v where v: "applyJsonPatch (diffJson b u (index_pointer pointer i)) (K (JArr (front @ b # bs))) = (K (JArr (front @ v # bs)), None)"
      "json_eq v u" unfolding reaches_def K by blast
  have "reaches K (diff_shared bs us (Suc i) pointer) (JArr ((front @ [v]) @ bs))
     (\<lambda>x. \<exists>ws. x = JArr ((front @ [v]) @ ws @ drop (length us) bs) \<and> list_all2 json_eq ws (take (length bs) us))"
    using shared_okD [of bs us "front @ [v]" ts K] assms(2) p f b u i by simp
  then obtain ws where "applyJsonPatch (diff_shared bs us (Suc i) pointer) (K (JArr (front @ v # bs)))
      = (K (JArr (front @ (v # ws) @ drop (length (u # us)) (b # bs))), None)" "list_all2 json_eq ws (take (length bs) us)"
    unfolding reaches_def by auto
  then show "reaches K (diff_shared (b # bs) (u # us) i pointer) (JArr (front @ b # bs))
     (\<lambda>x. \<exists>ws. x = JArr (front @ ws @ drop (length (u # us)) (b # bs)) \<and> list_all2 json_eq ws (take (length (b # bs)) (u # us)))"
    unfolding reaches_def diff_shared.simps using applyJsonPatch_append [OF v(1)] v(2)
    by (intro exI [of _ "JArr (front @ (v # ws) @ drop (length (u # us)) (b # bs))"] conjI exI [of _ "v # ws"]) simp_all
qed

lemma fields_step:
  assumes "present bs k \<Longrightarrow> diff_ok (obj_get bs k) v (pointer @ ''/'' @ escapeToken k)" "fields_diff_ok bs all us pointer"
  shows "fields_diff_ok bs all ((k, v) # us) pointer"
  unfolding fields_diff_ok_def
proof (intro allI impI)
  fix K ts cur
  assume p: "pointer = pointer_of ts" and f: "frames K ts" and bs: "fields_ok bs" and all: "fields_ok all"
    and us: "fields_ok ((k, v) # us)" and wf: "al_wf ((k, v) # us)"
    and mem: "\<forall>(k, v) \<in> set ((k, v) # us). map_of all k = Some v"
    and cur: "\<forall>k \<in> fst ` set ((k, v) # us). map_of cur k = map_of bs k"
  have k: "plain_key k" "json_ok v" and new: "k \<notin> fst ` set us" using us wf by (auto simp: al_wf_def al_keys_def)
  have here: "present all k" using mem present_plain [OF all k(1)] by simp
  let ?one = "if \<not> present bs k then [patch_op ''add'' (pointer @ ''/'' @ escapeToken k) v]
      else diffJson (obj_get bs k) v (pointer @ ''/'' @ escapeToken k)"
  have one: "\<exists>w. applyJsonPatch ?one (K (JObj cur)) = (K (JObj (al_set k w cur)), None) \<and> json_eq w v"
  proof (cases "present bs k")
    case False
    then have "map_of cur k = None" using cur present_plain [OF bs k(1)] by simp
    have "v \<noteq> JUndef" using k(2) by auto
    then have "apply_op (patch_op ''add'' (pointer_of (ts @ [k])) v) (K (JObj cur)) = Inr (K (JObj (al_set k v cur)))"
      using apply_op_below [OF f, of k "''add''" v "JObj cur"] k(1) by (simp add: patch_leaf_def patch_op_def plain_key_def)
    then show ?thesis using False p json_eq_refl [of v] by (intro exI [of _ v]) (simp add: pointer_of_snoc)
  next
    case True
    then obtain b where b: "map_of bs k = Some b" "obj_get bs k = b" using present_plain [OF bs k(1)] by (auto simp: obj_get_def)
    let ?K = "\<lambda>w. K (JObj (al_set k w cur))"
    have "frames ?K (ts @ [k])" using frames_field [OF f] k(1) by (simp add: plain_key_def)
    moreover have "json_ok b" using json_ok_field [OF bs b(1)] by simp
    ultimately have "reaches ?K (diffJson b v (pointer_of (ts @ [k]))) b (\<lambda>w. json_eq w v)"
      using assms(1) [OF True] b(2) k(2) p by (intro diff_okD) (simp_all add: pointer_of_snoc)
    moreover have "al_set k b cur = cur" using cur b(1) by (intro al_set_same) simp
    ultimately show ?thesis unfolding reaches_def using True b(2) p by (auto simp: pointer_of_snoc)
  qed
  then obtain w where w: "applyJsonPatch ?one (K (JObj cur)) = (K (JObj (al_set k w cur)), None)" "json_eq w v" by blast
  have "\<forall>j \<in> fst ` set us. map_of (al_set k w cur) j = map_of bs j" using cur new by auto
  then have "reaches K (diff_fields bs all us pointer) (JObj (al_set k w cur))
      (\<lambda>x. \<exists>out. x = JObj out \<and> fields_done (al_set k w cur) us out)"
    unfolding p using assms(2) p f bs all us wf mem by (intro fields_diff_okD) (auto simp: al_wf_def al_keys_def)
  then obtain out where d: "applyJsonPatch (diff_fields bs all us pointer) (K (JObj (al_set k w cur))) = (K (JObj out), None)"
      "fields_done (al_set k w cur) us out" unfolding reaches_def by blast
  have "fields_done cur ((k, v) # us) out" using d(2) w(2) new unfolding fields_done_def by auto
  then show "reaches K (diff_fields bs all ((k, v) # us) pointer) (JObj cur)
      (\<lambda>x. \<exists>out. x = JObj out \<and> fields_done cur ((k, v) # us) out)"
    unfolding reaches_def using here d(1) applyJsonPatch_append [OF w(1)] by auto
qed


lemma diffJson_array: "diffJson (JArr bs) (JArr us) pointer =
     diff_shared bs us 0 pointer
     @ map (\<lambda>i. patch_op ''remove'' (index_pointer pointer i) JUndef) (rev [length us..<length bs])
     @ map (\<lambda>i. patch_op ''add'' (index_pointer pointer i) (jsonSafe (us ! i))) [length bs..<length us]"
  by (simp add: diffJson.simps)

lemma diffJson_record: "diffJson (JObj bs) (JObj us) pointer = removals bs us pointer @ diff_fields bs us us pointer"
  by (simp add: diffJson.simps)

lemma diffJson_atom:
  "\<not> (is_array base \<and> is_array target) \<Longrightarrow> \<not> (is_record base \<and> is_record target) \<Longrightarrow>
     diffJson base target pointer = (if same_value base target then [] else [patch_op ''replace'' pointer (jsonSafe target)])"
  by (cases base; cases target) (simp_all add: diffJson.simps)

lemma take_all_items: "list_all2 json_eq ws (take (length bs) us) \<Longrightarrow> length bs \<le> length us \<Longrightarrow> list_all json_ok us \<Longrightarrow>
   list_all2 json_eq (ws @ drop (length bs) us) us"
proof -
  assume a: "list_all2 json_eq ws (take (length bs) us)" and "length bs \<le> length us"
  have "list_all2 json_eq (drop (length bs) us) (drop (length bs) us)" by (simp add: list_all2_same json_eq_refl)
  then have "list_all2 json_eq (ws @ drop (length bs) us) (take (length bs) us @ drop (length bs) us)"
    using a by (rule list_all2_appendI [rotated])
  then show ?thesis by simp
qed

lemma arrays_diff:
  assumes "shared_ok bs us 0 pointer"
  shows "diff_ok (JArr bs) (JArr us) pointer"
  unfolding diff_ok_def
proof (intro allI impI)
  fix K ts
  assume p: "pointer = pointer_of ts" and f: "frames K ts" and ok: "json_ok (JArr bs)" "json_ok (JArr us)"
  let ?front = "\<lambda>v. \<exists>ws. v = JArr (ws @ drop (length us) bs) \<and> list_all2 json_eq ws (take (length bs) us)"
  have shared: "reaches K (diff_shared bs us 0 pointer) (JArr bs) ?front"
    using shared_okD [of bs us "[]" ts K] assms p f ok by simp
  have removed: "reaches K (map (\<lambda>i. patch_op ''remove'' (index_pointer pointer i) JUndef) (rev [length us..<length bs])) v
      (\<lambda>v'. \<exists>ws. v' = JArr ws \<and> list_all2 json_eq ws (take (length bs) us))" if "?front v" for v
  proof -
    from that obtain ws where v: "v = JArr (ws @ drop (length us) bs)" and ws: "list_all2 json_eq ws (take (length bs) us)" by blast
    then have len: "length ws = min (length bs) (length us)" by (simp add: list_all2_lengthD min.commute)
    show ?thesis
    proof (cases "length us \<le> length bs")
      case True
      then show ?thesis
        using drop_last_items [OF f, of "length us" "ws @ drop (length us) bs"] len v ws p unfolding reaches_def by auto
    next
      case False
      then show ?thesis using v ws unfolding reaches_def by auto
    qed
  qed
  have added: "reaches K (map (\<lambda>i. patch_op ''add'' (index_pointer pointer i) (jsonSafe (us ! i))) [length bs..<length us]) v
      (\<lambda>v'. json_eq v' (JArr us))" if "\<exists>ws. v = JArr ws \<and> list_all2 json_eq ws (take (length bs) us)" for v
  proof -
    from that obtain ws where v: "v = JArr ws" and ws: "list_all2 json_eq ws (take (length bs) us)" by blast
    show ?thesis
    proof (cases "length bs \<le> length us")
      case True
      have len: "length ws = length (take (length bs) us)" using ws by (rule list_all2_lengthD)
      have "list_all json_ok (drop (length bs) us)" using ok(2) by (auto simp: list_all_iff dest: in_set_dropD)
      from append_items [OF f this len] show ?thesis
        using True len v p take_all_items [OF ws True] ok(2) unfolding reaches_def by (auto intro: json_eq.array)
    next
      case False
      then show ?thesis using v ws unfolding reaches_def by (auto intro: json_eq.array)
    qed
  qed
  show "reaches K (diffJson (JArr bs) (JArr us) pointer) (JArr bs) (\<lambda>v. json_eq v (JArr us))"
    unfolding diffJson_array by (rule reaches_append [OF shared reaches_append [OF removed added]])
qed

lemma objects_diff:
  assumes "fields_diff_ok bs us us pointer"
  shows "diff_ok (JObj bs) (JObj us) pointer"
  unfolding diff_ok_def
proof (intro allI impI)
  fix K ts
  assume p: "pointer = pointer_of ts" and f: "frames K ts" and ok: "json_ok (JObj bs)" "json_ok (JObj us)"
  let ?gone = "filter (\<lambda>k. \<not> present us k \<and> present bs k) (al_keys bs)"
  let ?cur = "filter (\<lambda>e. fst e \<notin> set ?gone) bs"
  have bs: "fields_ok bs" "al_wf bs" and us: "fields_ok us" "al_wf us" using ok by simp_all
  have keys: "list_all plain_key (al_keys bs)" using bs(1) by (auto simp: al_keys_def list_all_iff)
  have here: "present us k \<longleftrightarrow> map_of us k \<noteq> None" "present bs k" if "k \<in> set (al_keys bs)" for k
  proof -
    have plain: "plain_key k" using that keys by (auto simp: list_all_iff)
    show "present us k \<longleftrightarrow> map_of us k \<noteq> None" by (rule present_plain [OF us(1) plain])
    have "map_of bs k \<noteq> None" using that by (simp add: map_of_eq_None_iff al_keys_def)
    then show "present bs k" using present_plain [OF bs(1) plain] by blast
  qed
  have cur: "map_of ?cur k = (if k \<in> set (al_keys bs) \<and> map_of us k = None then None else map_of bs k)" for k
  proof -
    have filt: "map_of (filter (\<lambda>e. fst e \<notin> S) bs) k = (if k \<in> S then None else map_of bs k)" for S
      by (induction bs) auto
    have mem: "k \<in> set ?gone \<longleftrightarrow> k \<in> set (al_keys bs) \<and> map_of us k = None" using here by auto
    show ?thesis unfolding filt mem ..
  qed
  have "reaches K (removals bs us pointer) (JObj bs) (\<lambda>v. v = JObj ?cur)"
  proof -
    have "list_all plain_key ?gone" using keys by (auto simp: list_all_iff)
    moreover have "distinct ?gone" using bs(2) by (simp add: al_wf_def al_keys_def)
    moreover have "set ?gone \<subseteq> fst ` set bs" by (auto simp: al_keys_def)
    ultimately show ?thesis using remove_fields [OF f] unfolding reaches_def removals_def p by simp
  qed
  moreover have "reaches K (diff_fields bs us us pointer) v (\<lambda>w. json_eq w (JObj us))" if v: "v = JObj ?cur" for v
  proof -
    have mem: "\<forall>(k, v) \<in> set us. map_of us k = Some v" using us(2) by (auto simp: al_wf_def al_keys_def)
    have "map_of us k \<noteq> None" if "k \<in> fst ` set us" for k using that by (simp add: map_of_eq_None_iff)
    then have same: "\<forall>k \<in> fst ` set us. map_of ?cur k = map_of bs k" using cur by metis
    have "reaches K (diff_fields bs us us (pointer_of ts)) (JObj ?cur) (\<lambda>v. \<exists>out. v = JObj out \<and> fields_done ?cur us out)"
      by (rule fields_diff_okD [OF assms [unfolded p] f bs(1) us(1) us(1) us(2) mem same])
    then obtain out where out: "applyJsonPatch (diff_fields bs us us pointer) (K v) = (K (JObj out), None)" "fields_done ?cur us out"
      unfolding reaches_def v p by blast
    have "rel_option json_eq (map_of out k) (map_of us k)" for k
    proof (cases "map_of us k")
      case None
      then have "map_of out k = map_of ?cur k" using out(2) by (auto simp: fields_done_def map_of_eq_None_iff)
      also have "\<dots> = None" using cur None by (auto simp: al_keys_def map_of_eq_None_iff)
      finally show ?thesis using None by simp
    next
      case (Some v)
      then have "(k, v) \<in> set us" by (rule map_of_SomeD)
      then show ?thesis using out(2) Some by (fastforce simp: fields_done_def)
    qed
    then show ?thesis using out(1) unfolding reaches_def by (blast intro: json_eq.object)
  qed
  ultimately show "reaches K (diffJson (JObj bs) (JObj us) pointer) (JObj bs) (\<lambda>v. json_eq v (JObj us))"
    unfolding diffJson_record by (rule reaches_append)
qed

lemma atoms_diff:
  assumes "\<not> (is_array base \<and> is_array target)" "\<not> (is_record base \<and> is_record target)"
  shows "diff_ok base target pointer"
  unfolding diff_ok_def
proof (intro allI impI)
  fix K ts
  assume p: "pointer = pointer_of ts" and f: "frames K ts" and ok: "json_ok base" "json_ok target"
    and "ts \<noteq> [] \<or> is_array base \<and> is_array target \<or> is_record base \<and> is_record target"
  then have ts: "ts \<noteq> []" using assms by blast
  have t: "target \<noteq> JUndef" "jsonSafe target = target" using ok(2) by (auto simp: jsonSafe_def)
  show "reaches K (diffJson base target pointer) base (\<lambda>v. json_eq v target)"
  proof (cases "same_value base target")
    case True
    then have "diffJson base target pointer = []" using diffJson_atom [OF assms] by simp
    then show ?thesis using same_value_atom [OF True] json_eq_refl unfolding reaches_def by auto
  next
    case False
    then have "diffJson base target pointer = [patch_op ''replace'' pointer target]"
      using diffJson_atom [OF assms] t(2) by simp
    then show ?thesis using apply_replace [OF f ts t(1)] p json_eq_refl unfolding reaches_def by auto
  qed
qed

lemma diff_correct:
  "diff_ok base target pointer"
  "shared_ok bs us i pointer"
  "fields_diff_ok fs all gs pointer"
proof (induction base target pointer and bs us i pointer and fs all gs pointer rule: diffJson_diff_shared_diff_fields.induct)
  case (1 base target pointer)
  show ?case
  proof (cases "is_array base \<and> is_array target")
    case True
    then obtain xs ys where "base = JArr xs" "target = JArr ys" by (cases base; cases target) auto
    then show ?thesis using 1 by (auto intro: arrays_diff)
  next
    case noarray: False
    show ?thesis
    proof (cases "is_record base \<and> is_record target")
      case True
      then obtain xs ys where "base = JObj xs" "target = JObj ys" by (cases base; cases target) auto
      then show ?thesis using 1 by (auto intro: objects_diff)
    qed (rule atoms_diff [OF noarray])
  qed
next
  case (4 b bs t ts i pointer)
  then show ?case by (rule shared_step)
next
  case (6 bs all k v ts pointer)
  show ?case
  proof (cases "present all k")
    case True
    then show ?thesis using 6 by (intro fields_step) simp_all
  next
    case False
    have "plain_key k \<Longrightarrow> fields_ok all \<Longrightarrow> map_of all k \<noteq> Some v" using False present_plain by fastforce
    then show ?thesis unfolding fields_diff_ok_def by auto
  qed
qed (auto simp: shared_ok_def fields_diff_ok_def reaches_def fields_done_def)

text \<open>C22. The patch emitted for two JSON values that are both objects or both arrays, with property names that
  are neither empty nor inherited, applies to the first without error and makes it the second, up to the
  order of properties.\<close>

theorem patch_of_diff_reaches_target:
  assumes "json_ok base" "json_ok target"
    and "is_array base \<and> is_array target \<or> is_record base \<and> is_record target"
  shows "\<exists>v. applyJsonPatch (diffJson base target []) base = (v, None) \<and> json_eq v target"
  using diff_okD [OF diff_correct(1) frames_root assms(1,2)] assms(3)
  by (auto simp: reaches_def pointer_of_def)

definition demo_page :: "string \<Rightarrow> int list \<Rightarrow> jval" where
  "demo_page t ns = JObj [(''tag'', JStr ''div''), (''items'', JArr (map jint ns)), (''a/b~c'', JObj [(''text'', JStr t)])]"

theorem patch_of_diff_reaches_target_witness:
  "map opPath (diffJson (demo_page ''x'' [1, 2, 3]) (demo_page ''y'' [1, 5]) []) = [''/items/1'', ''/items/2'', ''/a~1b~0c/text'']
   \<and> (\<exists>v. applyJsonPatch (diffJson (demo_page ''x'' [1, 2, 3]) (demo_page ''y'' [1, 5]) []) (demo_page ''x'' [1, 2, 3]) = (v, None)
        \<and> json_eq v (demo_page ''y'' [1, 5]))"
proof
  show "map opPath (diffJson (demo_page ''x'' [1, 2, 3]) (demo_page ''y'' [1, 5]) []) = [''/items/1'', ''/items/2'', ''/a~1b~0c/text'']"
    by code_simp
  have ok: "json_ok (demo_page ''x'' [1, 2, 3])" "json_ok (demo_page ''y'' [1, 5])" by code_simp+
  show "\<exists>v. applyJsonPatch (diffJson (demo_page ''x'' [1, 2, 3]) (demo_page ''y'' [1, 5]) []) (demo_page ''x'' [1, 2, 3]) = (v, None)
        \<and> json_eq v (demo_page ''y'' [1, 5])"
    using patch_of_diff_reaches_target [OF ok] by (simp add: demo_page_def)
qed

text \<open>A property with the empty name cannot be patched: the emitter addresses it, the applier refuses.\<close>

lemma empty_name_refused:
  "snd (applyJsonPatch (diffJson (JObj [([], jint 1)]) (JObj [([], jint 2)]) []) (JObj [([], jint 1)])) \<noteq> None"
  by code_simp

end
