(* ===== verification/Snapshot_Delta.thy ===== *)
theory Snapshot_Delta
  imports Json_Patch_Laws
begin

text \<open>
  Model of the snapshot deltas of a recording: \<open>buildSnapshotDelta\<close> of
  \<open>extension/src/recording/snapshot-delta.ts\<close>, which the recorder calls, and
  \<open>src/rule-generator/converter/snapshot-refs.ts\<close>, which expands references and deltas before the
  recording is used. A snapshot is a JSON object. The laws compose the two ends.
\<close>

section \<open>The emitting end\<close>

text \<open>\<open>JSON.parse(JSON.stringify(v))\<close> for a defined \<open>v\<close>\<close>

fun json_clone :: "jval \<Rightarrow> jval" where
  "json_clone JUndef = JNull"
| "json_clone (JNum n) = (if num_is_finite n then JNum n else JNull)"
| "json_clone (JArr vs) = JArr (map json_clone vs)"
| "json_clone (JObj fs) = JObj (map (\<lambda>(k, v). (k, json_clone v)) (filter (\<lambda>(k, v). v \<noteq> JUndef) fs))"
| "json_clone v = v"

definition contentOf :: "jobj \<Rightarrow> jobj" where
  "contentOf s = [(''selectorMap'', coalesce (obj_get s ''selectorMap'') (JObj [])),
     (''domTree'', coalesce (obj_get s ''domTree'') JNull), (''capture'', coalesce (obj_get s ''capture'') JNull)]"

definition MAX_DELTA_PATCH_OPS :: nat where
  "MAX_DELTA_PATCH_OPS = 2048"

definition op_json :: "json_patch_op \<Rightarrow> jval" where
  "op_json p = JObj ([(''op'', JStr (opName p)), (''path'', JStr (opPath p))]
     @ (if opValue p = JUndef then [] else [(''value'', opValue p)]))"

definition clone_op :: "json_patch_op \<Rightarrow> json_patch_op" where
  "clone_op p = p\<lparr>opValue := (if opValue p = JUndef then JUndef else json_clone (opValue p))\<rparr>"

definition buildSnapshotDelta :: "jval \<Rightarrow> jobj \<Rightarrow> jobj \<Rightarrow> (jval \<times> json_patch_op list) option" where
  "buildSnapshotDelta sequence base candidate =
     (let ops = diffJson (JObj base) (JObj candidate) []; patch = map clone_op ops in
      if ops = [] \<or> length ops > MAX_DELTA_PATCH_OPS then None
      else if list_ex (\<lambda>p. opName p \<in> {''add'', ''replace''} \<and> opValue p = JUndef) patch then None
      else if 2 * json_length (JArr (map op_json patch)) \<ge> json_length (JObj candidate) then None
      else Some (sequence, patch))"


section \<open>The expanding end\<close>

definition snapshot_fields :: "string list" where
  "snapshot_fields = [''selectorMap'', ''domTree'', ''capture'']"

definition requireSequence :: "jval \<Rightarrow> string \<Rightarrow> string + jval" where
  "requireSequence v label =
     (case v of
        JNum (Fin r) \<Rightarrow> if r = of_int \<lfloor>r\<rfloor> \<and> 0 \<le> r then Inr v
                        else Inl (label @ '' must be a non-negative integer sequence number'')
      | _ \<Rightarrow> Inl (label @ '' must be a non-negative integer sequence number''))"

definition own_fields :: "string list \<Rightarrow> jobj \<Rightarrow> jobj" where
  "own_fields names s = concat (map (\<lambda>f. if obj_get s f = JUndef then [] else [(f, json_clone (obj_get s f))]) names)"

text \<open>An operation as it stands in a recording; \<open>None\<close> where reading its fields or its path would throw\<close>

definition op_of_json :: "jval \<Rightarrow> json_patch_op option" where
  "op_of_json v =
     (case (v, get_prop v ''path'') of
        (JObj fs, JStr path) \<Rightarrow>
          Some \<lparr>opName = (case obj_get fs ''op'' of JStr n \<Rightarrow> n | _ \<Rightarrow> ''undefined''), opPath = path, opValue = obj_get fs ''value''\<rparr>
      | _ \<Rightarrow> None)"

definition patch_message :: "patch_failure \<Rightarrow> string" where
  "patch_message e = (case e of PatchError m \<Rightarrow> m | OutsideTree \<Rightarrow> ''__proto__'')"

definition patch_ops :: "jval \<Rightarrow> string + json_patch_op list" where
  "patch_ops v =
     (case v of
        JArr xs \<Rightarrow> (case those (map op_of_json xs) of None \<Rightarrow> Inl ''TypeError'' | Some ps \<Rightarrow> Inr ps)
      | _ \<Rightarrow> Inl ''TypeError'')"

type_synonym contents = "(jval \<times> jobj) list"

definition expandDelta :: "contents \<Rightarrow> jobj \<Rightarrow> string \<Rightarrow> string + jobj" where
  "expandDelta content snapshot label =
     bind_sum (requireSequence (obj_get snapshot ''base'') (label @ ''.base''))
       (\<lambda>b. case map_of content b of
          None \<Rightarrow> Inl (label @ ''.base '' @ js_String b @ '' does not name an earlier content snapshot'')
        | Some target \<Rightarrow>
            bind_sum (patch_ops (obj_get snapshot ''patch''))
              (\<lambda>ops. case applyJsonPatch ops (JObj (own_fields snapshot_fields target)) of
                 (_, Some e) \<Rightarrow> Inl (patch_message e)
               | (JObj fs, None) \<Rightarrow> Inr (al_remove ''patch'' (al_remove ''base'' (al_merge snapshot fs)))
               | (_, None) \<Rightarrow> Inl ''TypeError''))"

definition expandReference :: "contents \<Rightarrow> jobj \<Rightarrow> string \<Rightarrow> string + jobj" where
  "expandReference content snapshot label =
     bind_sum (requireSequence (obj_get snapshot ''ref'') (label @ ''.ref''))
       (\<lambda>r. case map_of content r of
          None \<Rightarrow> Inl (label @ ''.ref '' @ js_String r @ '' does not name an earlier content snapshot'')
        | Some target \<Rightarrow>
            Inr (al_remove ''ref'' (al_merge snapshot (own_fields [''domTree'', ''selectorMap'', ''capture''] target))))"

text \<open>One snapshot: its expansion, and the contents later ones may name\<close>

definition expand_snapshot :: "contents \<Rightarrow> nat \<Rightarrow> jval \<Rightarrow> string + (jval \<times> contents)" where
  "expand_snapshot content i snapshot =
     (let label = ''snapshots['' @ show_int (int i) @ '']'' in
      case snapshot of
        JObj s \<Rightarrow>
          let isRef = (obj_get s ''ref'' \<noteq> JUndef); isDelta = (obj_get s ''patch'' \<noteq> JUndef) in
          if \<not> isRef \<and> \<not> isDelta
          then Inr (snapshot, if obj_get s ''domTree'' \<noteq> JUndef \<and> obj_get s ''sequence'' \<noteq> JUndef
                              then al_set (obj_get s ''sequence'') s content else content)
          else if isRef \<and> isDelta then Inl (label @ '' carries both ref and patch'')
          else bind_sum (requireSequence (obj_get s ''sequence'') label)
            (\<lambda>q. if isDelta
                 then bind_sum (expandDelta content s label) (\<lambda>s'. Inr (JObj s', al_set q s' content))
                 else bind_sum (expandReference content s label) (\<lambda>s'. Inr (JObj s', content)))
      | _ \<Rightarrow> Inr (snapshot, content))"

primrec expand_snapshots :: "contents \<Rightarrow> nat \<Rightarrow> jval list \<Rightarrow> string + jval list" where
  "expand_snapshots content i [] = Inr []"
| "expand_snapshots content i (x # xs) =
     bind_sum (expand_snapshot content i x)
       (\<lambda>(y, content'). bind_sum (expand_snapshots content' (Suc i) xs) (\<lambda>ys. Inr (y # ys)))"

definition expandSnapshotReferences :: "jobj \<Rightarrow> string + jobj" where
  "expandSnapshotReferences recording =
     (case (obj_get recording ''version'', obj_get recording ''snapshots'') of
        (JStr v, JArr xs) \<Rightarrow>
          if v \<noteq> ''2.0.0'' then Inr recording
          else bind_sum (expand_snapshots [] 0 xs) (\<lambda>ys. Inr (al_set ''snapshots'' (JArr ys) recording))
      | _ \<Rightarrow> Inr recording)"


section \<open>Both ends\<close>

lemma json_clone_ok: "json_ok v \<Longrightarrow> json_clone v = v"
proof (induction v)
  case (JArr vs)
  then show ?case by (simp add: list_all_iff map_idI)
next
  case (JObj fs)
  have "filter (\<lambda>(k, v). v \<noteq> JUndef) fs = fs"
    using JObj.prems by (intro filter_True) (auto simp: list_all_iff)
  moreover have "map (\<lambda>(k, v). (k, json_clone v)) fs = fs"
    using JObj by (intro map_idI) (fastforce simp: list_all_iff)
  ultimately show ?case by simp
qed auto

lemma op_json_roundtrip [simp]: "op_of_json (op_json p) = Some p"
  by (simp add: op_of_json_def op_json_def obj_get_def)

lemma those_Some: "those (map Some xs) = Some xs"
  by (induction xs) simp_all

lemma patch_ops_json: "patch_ops (JArr (map op_json ps)) = Inr ps"
  by (simp add: patch_ops_def comp_def those_Some)

lemma json_ok_obj_get:
  assumes "fields_ok fs" "obj_get fs k \<noteq> JUndef"
  shows "json_ok (obj_get fs k)"
  using assms json_ok_field [OF assms(1)] by (auto simp: obj_get_def split: option.splits)

text \<open>The values a patch carries are parts of the target, so they survive the wire unchanged.\<close>

definition travels :: "json_patch_op \<Rightarrow> bool" where
  "travels p \<longleftrightarrow> opValue p = JUndef \<or> json_ok (opValue p)"

lemma travels_op: "json_ok v \<or> v = JUndef \<Longrightarrow> travels (patch_op n path v)"
  by (auto simp: travels_def patch_op_def)

lemma travels_safe: "json_ok v \<Longrightarrow> travels (patch_op n path (jsonSafe v))"
  by (auto simp: travels_def patch_op_def jsonSafe_def)

lemma diff_values:
  "json_ok target \<Longrightarrow> list_all travels (diffJson base target pointer)"
  "list_all json_ok us \<Longrightarrow> list_all travels (diff_shared bs us i pointer)"
  "fields_ok gs \<Longrightarrow> list_all travels (diff_fields fs all gs pointer)"
proof (induction base target pointer and bs us i pointer and fs all gs pointer rule: diffJson_diff_shared_diff_fields.induct)
  case (1 base target pointer)
  consider (arrays) bs us where "base = JArr bs" "target = JArr us" | (records) bs us where "base = JObj bs" "target = JObj us"
    | (atoms) "\<not> (is_array base \<and> is_array target)" "\<not> (is_record base \<and> is_record target)"
    by (cases base; cases target) auto
  then show ?case
  proof cases
    case arrays
    then show ?thesis using 1 by (auto simp: diffJson_array list_all_iff intro: travels_op travels_safe)
  next
    case records
    then show ?thesis using 1 by (auto simp: diffJson_record removals_def list_all_iff intro: travels_op)
  next
    case atoms
    then show ?thesis using 1 by (simp add: diffJson_atom travels_safe)
  qed
qed (auto intro: travels_op)

lemma wire_patch:
  assumes "json_ok target"
  shows "map clone_op (diffJson base target pointer) = diffJson base target pointer"
proof (rule map_idI)
  fix p assume "p \<in> set (diffJson base target pointer)"
  then have "travels p" using diff_values(1) [OF assms] by (simp add: list_all_iff)
  then have "opValue p \<noteq> JUndef \<Longrightarrow> json_clone (opValue p) = opValue p" using json_clone_ok by (auto simp: travels_def)
  then show "clone_op p = p" by (cases p) (simp add: clone_op_def)
qed

text \<open>A snapshot whose content is complete as it stands\<close>

definition full_snapshot :: "jobj \<Rightarrow> bool" where
  "full_snapshot s \<longleftrightarrow> json_ok (JObj (contentOf s)) \<and> (\<forall>f \<in> set snapshot_fields. obj_get s f = obj_get (contentOf s) f)"

lemma contentOf_keys: "map fst (contentOf s) = snapshot_fields"
  by (simp add: contentOf_def snapshot_fields_def)

lemma contentOf_lookup: "f \<in> set snapshot_fields \<Longrightarrow> map_of (contentOf s) f = Some (obj_get (contentOf s) f)"
proof -
  assume "f \<in> set snapshot_fields"
  then have "f \<in> fst ` set (contentOf s)" using contentOf_keys [of s] by (metis set_map)
  then show ?thesis unfolding obj_get_def by (metis map_of_eq_None_iff option.case_eq_if option.collapse)
qed

lemma own_fields_full:
  assumes "full_snapshot s"
  shows "own_fields snapshot_fields s = contentOf s"
proof -
  have ok: "json_ok (obj_get (contentOf s) f)" if "f \<in> set snapshot_fields" for f
  proof -
    have "map_of (contentOf s) f = Some (obj_get (contentOf s) f)"
      by (rule contentOf_lookup [OF that])
    then show ?thesis using json_ok_field(1) [of "contentOf s" f] assms by (simp add: full_snapshot_def)
  qed
  have same: "obj_get s f \<noteq> JUndef \<and> json_clone (obj_get s f) = obj_get (contentOf s) f" if "f \<in> set snapshot_fields" for f
    using ok [OF that] assms that json_clone_ok unfolding full_snapshot_def by (metis json_ok.simps(1))
  have "own_fields snapshot_fields s = map (\<lambda>f. (f, obj_get (contentOf s) f)) snapshot_fields"
    using same by (simp add: own_fields_def snapshot_fields_def)
  also have "\<dots> = contentOf s" by (simp add: contentOf_def obj_get_def snapshot_fields_def)
  finally show ?thesis .
qed

lemma apply_op_object:
  assumes "apply_op p (JObj fs) = Inr v" "al_wf fs"
  shows "\<exists>gs. v = JObj gs \<and> al_wf gs"
proof -
  from assms(1) obtain us where "patch_at p us (JObj fs) = Inr v"
    by (auto simp: apply_op_def bind_sum_def split: if_splits sum.splits)
  then show ?thesis
    using assms(2)
    by (induction p us "JObj fs" rule: patch_at.induct)
      (auto simp: patch_leaf_def bind_sum_def split: if_splits sum.splits option.splits)
qed

lemma patch_object:
  "applyJsonPatch ps (JObj fs) = (v, e) \<Longrightarrow> al_wf fs \<Longrightarrow> \<exists>gs. v = JObj gs \<and> al_wf gs"
  by (induction ps arbitrary: fs) (auto split: sum.splits dest!: apply_op_object)

text \<open>C23. A delta restores the snapshot it was made from: expanding the patch that was emitted for a candidate
  against a stored full snapshot gives a snapshot whose content is that of the candidate, up to the
  order of properties.\<close>

theorem delta_restores_snapshot:
  assumes "buildSnapshotDelta q (contentOf s0) (contentOf s1) = Some (b, patch)"
    and "full_snapshot s0" "json_ok (JObj (contentOf s1))"
    and "map_of content q = Some s0" "requireSequence q (label @ ''.base'') = Inr q"
  shows "\<exists>out. expandDelta content (al_set ''patch'' (JArr (map op_json patch)) (al_set ''base'' b s)) label = Inr out
     \<and> (\<forall>f \<in> set snapshot_fields. json_eq (obj_get out f) (obj_get (contentOf s1) f))"
proof -
  have b: "b = q" and patch: "patch = diffJson (JObj (contentOf s0)) (JObj (contentOf s1)) []"
    using assms(1) wire_patch [OF assms(3)] by (auto simp: buildSnapshotDelta_def Let_def split: if_splits)
  have base: "json_ok (JObj (contentOf s0))" using assms(2) by (simp add: full_snapshot_def)
  obtain v where v: "applyJsonPatch patch (JObj (contentOf s0)) = (v, None)" "json_eq v (JObj (contentOf s1))"
    using diff_okD [OF diff_correct(1) frames_root base assms(3)] unfolding patch reaches_def by (auto simp: pointer_of_def)
  have "al_wf (contentOf s0)" by (simp add: contentOf_def al_wf_def)
  then obtain fs where fs: "v = JObj fs" "al_wf fs" using patch_object [OF v(1)] by blast
  have same: "\<And>k. rel_option json_eq (map_of fs k) (map_of (contentOf s1) k)"
    using v(2) fs(1) by (auto elim: json_eq.cases)
  let ?snap = "al_set ''patch'' (JArr (map op_json patch)) (al_set ''base'' b s)"
  let ?out = "al_remove ''patch'' (al_remove ''base'' (al_merge ?snap fs))"
  have expand: "expandDelta content ?snap label = Inr ?out"
    using assms(4,5) v(1) fs(1) b own_fields_full [OF assms(2)]
    by (simp add: expandDelta_def obj_get_set patch_ops_json)
  have "json_eq (obj_get ?out f) (obj_get (contentOf s1) f)" if f: "f \<in> set snapshot_fields" for f
  proof -
    obtain w where w: "map_of (contentOf s1) f = Some w" using contentOf_lookup [OF f] by blast
    then obtain u where u: "map_of fs f = Some u" "json_eq u w" using same [of f] by (cases "map_of fs f") auto
    have "f \<noteq> ''patch''" "f \<noteq> ''base''" using f by (auto simp: snapshot_fields_def)
    then have "obj_get ?out f = obj_get (al_merge ?snap fs) f" by (simp add: obj_get_def)
    also have "\<dots> = u" using map_of_al_merge [OF fs(2), of ?snap] u(1) by (simp add: obj_get_def map_add_def)
    finally show ?thesis using u w by (simp add: obj_get_def)
  qed
  then show ?thesis using expand by blast
qed

definition demo_snapshot :: "int \<Rightarrow> string \<Rightarrow> jobj" where
  "demo_snapshot q t = [(''sequence'', jint q), (''selectorMap'', JObj [(''0'', JStr ''#buy''), (''1'', JStr ''#add-to-the-basket''), (''2'', JStr ''#some-other-element'')]),
     (''domTree'', JObj [(''tag'', JStr ''body''), (''text'', JStr t)]), (''capture'', JNull)]"

definition demo_delta :: "json_patch_op list" where
  "demo_delta = [\<lparr>opName = ''replace'', opPath = ''/domTree/text'', opValue = JStr ''two''\<rparr>]"

theorem delta_restores_snapshot_witness:
  "buildSnapshotDelta (jint 4) (contentOf (demo_snapshot 4 ''one'')) (contentOf (demo_snapshot 5 ''two'')) = Some (jint 4, demo_delta)
   \<and> (\<exists>out. expandDelta [(jint 4, demo_snapshot 4 ''one'')]
          (al_set ''patch'' (JArr (map op_json demo_delta)) (al_set ''base'' (jint 4) [(''sequence'', jint 5)])) ''s'' = Inr out
        \<and> json_eq (obj_get out ''domTree'') (obj_get (contentOf (demo_snapshot 5 ''two'')) ''domTree''))"
proof
  show delta: "buildSnapshotDelta (jint 4) (contentOf (demo_snapshot 4 ''one'')) (contentOf (demo_snapshot 5 ''two'')) = Some (jint 4, demo_delta)"
    by code_simp
  have "full_snapshot (demo_snapshot 4 ''one'')" "json_ok (JObj (contentOf (demo_snapshot 5 ''two'')))" by code_simp+
  moreover have "map_of [(jint 4, demo_snapshot 4 ''one'')] (jint 4) = Some (demo_snapshot 4 ''one'')" by simp
  moreover have "requireSequence (jint 4) (''s'' @ ''.base'') = Inr (jint 4)" by code_simp
  ultimately have "\<exists>out. expandDelta [(jint 4, demo_snapshot 4 ''one'')]
          (al_set ''patch'' (JArr (map op_json demo_delta)) (al_set ''base'' (jint 4) [(''sequence'', jint 5)])) ''s'' = Inr out
     \<and> (\<forall>f \<in> set snapshot_fields. json_eq (obj_get out f) (obj_get (contentOf (demo_snapshot 5 ''two'')) f))"
    by (rule delta_restores_snapshot [OF delta])
  then show "\<exists>out. expandDelta [(jint 4, demo_snapshot 4 ''one'')]
          (al_set ''patch'' (JArr (map op_json demo_delta)) (al_set ''base'' (jint 4) [(''sequence'', jint 5)])) ''s'' = Inr out
     \<and> json_eq (obj_get out ''domTree'') (obj_get (contentOf (demo_snapshot 5 ''two'')) ''domTree'')"
    unfolding snapshot_fields_def by force
qed

text \<open>A stored snapshot that lacks a field is compared as if the field were \<open>null\<close>, but patched without it, so
  its delta is refused.\<close>

lemma missing_capture_refused:
  "(case buildSnapshotDelta (jint 4) (contentOf (al_remove ''capture'' (demo_snapshot 4 ''one'')))
           (contentOf (al_set ''capture'' (jint 1) (demo_snapshot 5 ''one''))) of
      Some (b, patch) \<Rightarrow> expandDelta [(jint 4, al_remove ''capture'' (demo_snapshot 4 ''one''))]
         (al_set ''patch'' (JArr (map op_json patch)) (al_set ''base'' b [])) ''s''
    | None \<Rightarrow> Inr []) = Inl ''patch path /capture does not exist''"
  by code_simp

end
