(* ===== verification/Action_Data.thy ===== *)
theory Action_Data
  imports Runtime
begin

text \<open>
  The data actions of \<open>src/scriptcat-engine/actions/index.ts\<close>: merging, transforming, filtering and
  deduplicating collected values, and the JSON paths of the extractions. They read the context and
  compute a value; what they throw is on the left of a sum. The regular-expression engine, the
  parsing of dates and the identity of objects belong to the language's host and are the fields of
  \<open>js_host\<close>.
\<close>

section \<open>The host of the language\<close>

text \<open>
  \<open>rxMatch\<close> is \<open>v.match(new RegExp(p))\<close>: a syntax error, no match, or the matched groups;
  \<open>rxReplace p flags v r\<close> is \<open>v.replace(new RegExp(p, flags), r)\<close>; \<open>isoDate\<close> is the ISO form of
  \<open>new Date(v)\<close> when it is a date; \<open>sameObject\<close> is \<open>===\<close> on two objects.
\<close>

record js_host =
  rxMatch :: "string \<Rightarrow> string \<Rightarrow> string + jval list option"
  rxReplace :: "string \<Rightarrow> string \<Rightarrow> string \<Rightarrow> string \<Rightarrow> string + string"
  isoDate :: "jval \<Rightarrow> string option"
  parseJson :: "string \<Rightarrow> jval option"
  sameObject :: "jval \<Rightarrow> jval \<Rightarrow> bool"

definition type_error :: "string \<Rightarrow> exn" where
  "type_error m = JsError ''TypeError'' m"

definition is_object :: "jval \<Rightarrow> bool" where
  "is_object v \<longleftrightarrow> is_array v \<or> is_record v"

text \<open>The primitive an object turns into in a comparison\<close>

definition js_prim :: "jval \<Rightarrow> jval" where
  "js_prim v = (if is_object v then JStr (js_String v) else v)"

definition num_same :: "jnum \<Rightarrow> jnum \<Rightarrow> bool" where
  "num_same x y \<longleftrightarrow> x \<noteq> NaN \<and> x = y"

text \<open>\<open>a == b\<close>\<close>

definition loose_eq :: "js_host \<Rightarrow> jval \<Rightarrow> jval \<Rightarrow> bool" where
  "loose_eq js a b \<longleftrightarrow>
     (if is_nullish a \<or> is_nullish b then is_nullish a \<and> is_nullish b
      else if is_object a \<and> is_object b then sameObject js a b
      else (case (js_prim a, js_prim b) of
              (JStr x, JStr y) \<Rightarrow> x = y
            | (x, y) \<Rightarrow> num_same (js_Number x) (js_Number y)))"

primrec str_less :: "string \<Rightarrow> string \<Rightarrow> bool" where
  "str_less [] t = (t \<noteq> [])"
| "str_less (c # cs) t = (case t of [] \<Rightarrow> False | d # ds \<Rightarrow> c < d \<or> (c = d \<and> str_less cs ds))"

text \<open>\<open>a < b\<close> and \<open>a <= b\<close>: strings by code units, everything else as numbers\<close>

definition js_less :: "jval \<Rightarrow> jval \<Rightarrow> bool" where
  "js_less a b =
     (case (js_prim a, js_prim b) of
        (JStr x, JStr y) \<Rightarrow> str_less x y
      | (x, y) \<Rightarrow> num_less (js_Number x) (js_Number y))"

definition js_le :: "jval \<Rightarrow> jval \<Rightarrow> bool" where
  "js_le a b =
     (case (js_prim a, js_prim b) of
        (JStr x, JStr y) \<Rightarrow> \<not> str_less y x
      | (x, y) \<Rightarrow> num_le (js_Number x) (js_Number y))"

text \<open>\<open>vs.join(sep)\<close>\<close>

definition js_join :: "string \<Rightarrow> jval list \<Rightarrow> string" where
  "js_join sep vs = join_strings sep (map (\<lambda>v. if is_nullish v then [] else js_String v) vs)"

text \<open>A property read that throws on \<open>null\<close> and \<open>undefined\<close>, and \<open>Object.entries\<close>\<close>

definition read_prop :: "jval \<Rightarrow> string \<Rightarrow> exn + jval" where
  "read_prop v k =
     (if is_nullish v
      then Inl (type_error (''Cannot read properties of '' @ js_String v @ '' (reading '' @ [CHR 0x27] @ k @ [CHR 0x27] @ '')''))
      else Inr (get_prop v k))"

definition object_entries :: "jval \<Rightarrow> exn + jobj" where
  "object_entries v =
     (if is_nullish v then Inl (type_error ''Cannot convert undefined or null to object'') else Inr (spread_of v))"

text \<open>\<open>for (const x of v)\<close>\<close>

definition iterate :: "string \<Rightarrow> jval \<Rightarrow> exn + jval list" where
  "iterate what v =
     (case v of
        JArr vs \<Rightarrow> Inr vs
      | JStr s \<Rightarrow> Inr (map (\<lambda>c. JStr [c]) s)
      | _ \<Rightarrow> Inl (type_error (what @ '' is not iterable'')))"

definition array_or_empty :: "jval \<Rightarrow> jval list" where
  "array_or_empty v = (case v of JArr vs \<Rightarrow> vs | _ \<Rightarrow> [])"


section \<open>Paths\<close>

definition getPath :: "jval \<Rightarrow> string \<Rightarrow> jval" where
  "getPath obj path = foldl safe_prop obj (js_split CHR ''.'' path)"

definition path_of :: "jval \<Rightarrow> exn + string" where
  "path_of v = (case v of JStr s \<Rightarrow> Inr s | _ \<Rightarrow> Inl (type_error ''path.split is not a function''))"

definition MAX_SAFE_INTEGER :: nat where
  "MAX_SAFE_INTEGER = 9007199254740991"

definition json_path_error :: "string \<Rightarrow> string \<Rightarrow> exn" where
  "json_path_error path m = Error (''ScriptError: invalid JSON path '' @ [CHR 0x22] @ path @ [CHR 0x22] @ '': '' @ m)"

definition quoted :: "string \<Rightarrow> string" where
  "quoted s = [CHR 0x22] @ s @ [CHR 0x22]"

fun json_path_walk :: "string \<Rightarrow> jval \<Rightarrow> string list \<Rightarrow> exn + jval" where
  "json_path_walk path v [] = Inr v"
| "json_path_walk path (JArr vs) (seg # segs) =
     (case array_index seg of
        None \<Rightarrow> Inl (json_path_error path (''array index '' @ quoted seg @ '' is not canonical''))
      | Some i \<Rightarrow>
          if i > MAX_SAFE_INTEGER
          then Inl (json_path_error path (''array index '' @ quoted seg @ '' exceeds the safe integer range''))
          else json_path_walk path (if i < length vs then vs ! i else JUndef) segs)"
| "json_path_walk path (JObj fs) (seg # segs) = json_path_walk path (obj_get fs seg) segs"
| "json_path_walk path v (seg # segs) = Inr JUndef"

definition getJsonPath :: "jval \<Rightarrow> string \<Rightarrow> exn + jval" where
  "getJsonPath v path =
     (let normalizedPath = js_trim path; segments = js_split CHR ''.'' normalizedPath in
      if normalizedPath = [] then Inr v
      else if [] \<in> set segments then Inl (json_path_error path ''empty path segment'')
      else json_path_walk path v segments)"

definition parseExtractedJson :: "js_host \<Rightarrow> string \<Rightarrow> string \<Rightarrow> exn + jval" where
  "parseExtractedJson js text source =
     (case parseJson js text of Some v \<Rightarrow> Inr v | None \<Rightarrow> Inl (Error (''ScriptError: invalid JSON in '' @ source)))"

definition resolveExpressionSource :: "jval \<Rightarrow> 'a scope_scheme \<Rightarrow> exn + jval" where
  "resolveExpressionSource from c =
     (case from of
        JStr f \<Rightarrow>
          Inr (if f = ''extracted'' then JObj (extracted c)
               else if f = ''variables'' then JObj (variables c)
               else if f = ''evaluated'' then JObj (evaluated c)
               else if js_startsWith f ''extracted.'' then getPath (JObj (extracted c)) (drop 10 f)
               else if js_startsWith f ''variables.'' then getPath (JObj (variables c)) (drop 10 f)
               else if js_startsWith f ''evaluated.'' then getPath (JObj (evaluated c)) (drop 10 f)
               else coalesce (coalesce (obj_get (extracted c) f) (obj_get (variables c) f)) (obj_get (evaluated c) f))
      | _ \<Rightarrow> Inl (type_error ''from.startsWith is not a function''))"


section \<open>Filters\<close>

definition criteria_matches :: "js_host \<Rightarrow> jval \<Rightarrow> string \<Rightarrow> jval \<Rightarrow> bool" where
  "criteria_matches js v op expected =
     (if op = ''eq'' then loose_eq js v expected
      else if op = ''ne'' then \<not> loose_eq js v expected
      else if op = ''gt'' then js_less expected v
      else if op = ''gte'' then js_le expected v
      else if op = ''lt'' then js_less v expected
      else if op = ''lte'' then js_le v expected
      else if op = ''contains'' then js_includes (js_String v) (js_String expected)
      else if op = ''matches'' then
        (case rxMatch js (if expected = JUndef then ''(?:)'' else js_String expected) (js_String v) of
           Inr (Some _) \<Rightarrow> True | _ \<Rightarrow> False)
      else if op = ''exists'' then \<not> is_nullish v
      else if op = ''notEmpty'' then \<not> is_nullish v \<and> v \<noteq> JStr []
      else True)"

definition matchesFilterCriteria :: "js_host \<Rightarrow> jval \<Rightarrow> jval \<Rightarrow> exn + bool" where
  "matchesFilterCriteria js item criteria =
     bind_sum (read_prop criteria ''field'')
       (\<lambda>field. bind_sum (if truthy field then bind_sum (path_of field) (\<lambda>p. Inr (getPath item p)) else Inr item)
         (\<lambda>v. Inr (criteria_matches js v (case get_prop criteria ''op'' of JStr s \<Rightarrow> s | _ \<Rightarrow> []) (get_prop criteria ''value''))))"

definition filter_value :: "js_host \<Rightarrow> jval \<Rightarrow> jval \<Rightarrow> exn + jval" where
  "filter_value js data criteria =
     bind_sum (filter_sum (\<lambda>item. matchesFilterCriteria js item criteria) (array_or_empty data)) (\<lambda>vs. Inr (JArr vs))"


section \<open>Transforms\<close>

definition applyToField :: "jval \<Rightarrow> jval \<Rightarrow> (jval \<Rightarrow> jval) \<Rightarrow> exn + jval" where
  "applyToField data field fn =
     (let put = (\<lambda>item. bind_sum (path_of field)
        (\<lambda>p. Inr (JObj (al_set (js_String field) (fn (getPath item p)) (spread_of item))))) in
      case data of
        JArr items \<Rightarrow> bind_sum (map_sum_list (\<lambda>item. if is_nullish item then Inr item else put item) items) (\<lambda>vs. Inr (JArr vs))
      | JObj fs \<Rightarrow> put data
      | _ \<Rightarrow> Inr data)"

text \<open>\<open>op.field ? applyToField(data, op.field, apply) : apply(data)\<close>\<close>

definition on_field :: "jval \<Rightarrow> jval \<Rightarrow> (jval \<Rightarrow> jval) \<Rightarrow> exn + jval" where
  "on_field op data fn =
     (if truthy (get_prop op ''field'') then applyToField data (get_prop op ''field'') fn else Inr (fn data))"

definition on_string :: "(string \<Rightarrow> jval) \<Rightarrow> jval \<Rightarrow> jval" where
  "on_string f v = (case v of JStr s \<Rightarrow> f s | _ \<Rightarrow> v)"

text \<open>\<open>op.params?.name ?? default\<close> as the argument of \<open>RegExp\<close> or \<open>replace\<close>\<close>

definition op_param :: "jval \<Rightarrow> string \<Rightarrow> jval \<Rightarrow> jval" where
  "op_param op k d = coalesce (safe_prop (get_prop op ''params'') k) d"

definition rename_fields :: "jval \<Rightarrow> jobj \<Rightarrow> jobj" where
  "rename_fields ren fs = fold (\<lambda>(k, v) out. al_set (js_String (coalesce (get_prop ren k) (JStr k))) v out) fs []"

definition regex_apply :: "js_host \<Rightarrow> jval \<Rightarrow> string \<Rightarrow> jval" where
  "regex_apply js op s =
     (case rxMatch js (js_String (op_param op ''pattern'' (JStr []))) s of
        Inr (Some groups) \<Rightarrow>
          coalesce (get_prop (JArr groups) (js_String (op_param op ''group'' (jint 0)))) (get_prop (JArr groups) ''0'')
      | _ \<Rightarrow> JStr s)"

definition replace_apply :: "js_host \<Rightarrow> jval \<Rightarrow> string \<Rightarrow> jval" where
  "replace_apply js op s =
     (case rxReplace js (js_String (op_param op ''pattern'' (JStr []))) (js_String (op_param op ''flags'' (JStr ''g''))) s
             (js_String (op_param op ''replacement'' (JStr []))) of
        Inr t \<Rightarrow> JStr t | Inl _ \<Rightarrow> JStr s)"

definition date_apply :: "js_host \<Rightarrow> jval \<Rightarrow> jval" where
  "date_apply js v = (if is_nullish v then v else (case isoDate js v of Some t \<Rightarrow> JStr t | None \<Rightarrow> v))"

definition json_apply :: "js_host \<Rightarrow> string \<Rightarrow> jval" where
  "json_apply js s = (case parseJson js s of Some v \<Rightarrow> v | None \<Rightarrow> JStr s)"

definition applyTransformOp :: "js_host \<Rightarrow> jval \<Rightarrow> jval \<Rightarrow> exn + jval" where
  "applyTransformOp js data op =
     bind_sum (read_prop op ''type'')
       (\<lambda>ty. case (ty, data) of
          (JStr t, _) \<Rightarrow>
            if t = ''map'' \<and> is_array data then
              bind_sum (map_sum_list (\<lambda>item. bind_sum (object_entries item)
                  (\<lambda>fs. Inr (JObj (rename_fields (op_param op ''rename'' (JObj [])) fs)))) (array_or_empty data))
                (\<lambda>vs. Inr (JArr vs))
            else if t = ''number'' then
              (case data of
                 JArr items \<Rightarrow>
                   (if truthy (get_prop op ''field'')
                    then bind_sum (path_of (get_prop op ''field''))
                      (\<lambda>p. Inr (JArr (map (\<lambda>item. JObj (al_set p (toNumber (getPath item p)) (spread_of item))) items)))
                    else Inr (JArr (map toNumber items)))
               | _ \<Rightarrow> Inr (toNumber data))
            else if t = ''filter'' then
              filter_value js data
                (coalesce (safe_prop (get_prop op ''params'') ''criteria'')
                  (JObj (al_merge [(''field'', get_prop op ''field'')] (spread_of (get_prop op ''params'')))))
            else if t = ''regex'' then on_field op data (on_string (regex_apply js op))
            else if t = ''replace'' then on_field op data (on_string (replace_apply js op))
            else if t = ''trim'' then on_field op data (on_string (\<lambda>s. JStr (js_trim s)))
            else if t = ''date'' then on_field op data (date_apply js)
            else if t = ''jsonParse'' then on_field op data (on_string (json_apply js))
            else Inr data
        | _ \<Rightarrow> Inr data)"

primrec apply_operations :: "js_host \<Rightarrow> jval list \<Rightarrow> jval \<Rightarrow> exn + jval" where
  "apply_operations js [] data = Inr data"
| "apply_operations js (op # ops) data = bind_sum (applyTransformOp js data op) (apply_operations js ops)"


section \<open>The actions\<close>

definition transform_value :: "js_host \<Rightarrow> action \<Rightarrow> 'a scope_scheme \<Rightarrow> exn + jval" where
  "transform_value js a c =
     bind_sum (resolveExpressionSource (leafField a ''from'') c)
       (\<lambda>data. bind_sum (iterate ''action.operations'' (leafField a ''operations'')) (\<lambda>ops. apply_operations js ops data))"

definition filtered_value :: "js_host \<Rightarrow> action \<Rightarrow> 'a scope_scheme \<Rightarrow> exn + jval" where
  "filtered_value js a c =
     bind_sum (resolveExpressionSource (leafField a ''from'') c)
       (\<lambda>data. filter_value js data (interpolate c (leafField a ''criteria'')))"

text \<open>\<open>action.keys.map(k => getPath(item, k)).join('|')\<close>\<close>

definition dedup_key :: "string list \<Rightarrow> jval \<Rightarrow> string" where
  "dedup_key ks item = js_join ''|'' (map (getPath item) ks)"

primrec dedup_items :: "(jval \<Rightarrow> string) \<Rightarrow> string list \<Rightarrow> jval list \<Rightarrow> jval list" where
  "dedup_items key seen [] = []"
| "dedup_items key seen (v # vs) =
     (if key v \<in> set seen then dedup_items key seen vs else v # dedup_items key (key v # seen) vs)"

definition dedup_paths :: "jval \<Rightarrow> exn + string list" where
  "dedup_paths v =
     (case v of
        JArr ks \<Rightarrow> map_sum_list path_of ks
      | _ \<Rightarrow> Inl (type_error ''action.keys.map is not a function''))"

definition deduplicated_value :: "action \<Rightarrow> 'a scope_scheme \<Rightarrow> exn + jval" where
  "deduplicated_value a c =
     bind_sum (resolveExpressionSource (leafField a ''from'') c)
       (\<lambda>data. if array_or_empty data = [] then Inr (JArr [])
          else bind_sum (dedup_paths (leafField a ''keys''))
            (\<lambda>ks. Inr (JArr (dedup_items (dedup_key ks) [] (array_or_empty data)))))"

text \<open>
  \<open>zip\<close> without inputs counts to \<open>Math.min() = Infinity\<close> and never ends: \<open>None\<close> is no answer.
\<close>

definition zip_length :: "jval list \<Rightarrow> nat option" where
  "zip_length inputs = (case inputs of [] \<Rightarrow> None | _ \<Rightarrow> Some (Min (set (map (\<lambda>v. length (array_or_empty v)) inputs))))"

definition assign_all :: "jval list \<Rightarrow> jobj" where
  "assign_all inputs = fold (\<lambda>v acc. al_merge acc (spread_of v)) inputs []"

definition merged_inputs :: "string \<Rightarrow> jval list \<Rightarrow> (exn + jval) option" where
  "merged_inputs strategy inputs =
     (if strategy = ''concat''
      then Some (Inr (JArr (concat (map (\<lambda>v. case v of JArr vs \<Rightarrow> vs | _ \<Rightarrow> [v]) inputs))))
      else if strategy = ''assign'' then Some (Inr (JObj (assign_all inputs)))
      else if strategy = ''zip''
      then map_option (\<lambda>len. Inr (JArr (map (\<lambda>i. JObj (assign_all
             (map (\<lambda>inp. case inp of JArr vs \<Rightarrow> vs ! i | _ \<Rightarrow> JObj []) inputs))) [0..<len]))) (zip_length inputs)
      else Some (Inl (Error (''ScriptError: unsupported merge strategy '' @ strategy))))"

definition merged_value :: "action \<Rightarrow> 'a scope_scheme \<Rightarrow> (exn + jval) option" where
  "merged_value a c =
     (case leafField a ''from'' of
        JArr froms \<Rightarrow>
          (case map_sum_list (\<lambda>f. resolveExpressionSource (interpolate c f) c) froms of
             Inl e \<Rightarrow> Some (Inl e)
           | Inr inputs \<Rightarrow> merged_inputs (js_String (coalesce (leafField a ''strategy'') (JStr ''concat''))) inputs)
      | _ \<Rightarrow> Some (Inl (Error (''ScriptError: merge requires a '' @ [CHR 0x27] @ ''from'' @ [CHR 0x27] @ '' array''))))"

end
