(* ===== verification/Action_Data_Laws.thy ===== *)
theory Action_Data_Laws
  imports Action_Data
begin

text \<open>What the data actions compute: deduplication, JSON paths, filters and merges.\<close>

section \<open>Deduplication\<close>

definition first_of_key :: "('a \<Rightarrow> string) \<Rightarrow> 'a list \<Rightarrow> nat \<Rightarrow> bool" where
  "first_of_key key xs i \<longleftrightarrow> (\<forall>j<i. key (xs ! j) \<noteq> key (xs ! i))"

lemma filter_positions_Cons:
  "map ((!) (v # vs)) (filter P [0..<length (v # vs)])
     = (if P 0 then [v] else []) @ map ((!) vs) (filter (\<lambda>i. P (Suc i)) [0..<length vs])"
proof -
  have "[0..<length (v # vs)] = 0 # map Suc [0..<length vs]"
    unfolding map_Suc_upt using upt_conv_Cons [of 0 "Suc (length vs)"] by (simp del: upt_Suc)
  then show ?thesis by (simp add: filter_map comp_def del: upt_Suc)
qed

lemma first_of_key_simps [simp]:
  "first_of_key key xs 0"
  "first_of_key key (v # vs) (Suc i) \<longleftrightarrow> key v \<noteq> key (vs ! i) \<and> first_of_key key vs i"
  by (auto simp: first_of_key_def less_Suc_eq_0_disj)

lemma dedup_items_seen:
  "dedup_items key seen xs
     = map ((!) xs) (filter (\<lambda>i. key (xs ! i) \<notin> set seen \<and> first_of_key key xs i) [0..<length xs])"
proof (induction xs arbitrary: seen)
  case (Cons v vs)
  show ?case
    unfolding filter_positions_Cons dedup_items.simps Cons.IH
    by (auto intro!: arg_cong [of _ _ "map _"] filter_cong)
qed simp

text \<open>\<open>'|'\<close> cannot be told from the separator: when no field contains it, keys name their fields.\<close>

lemma split_join: "list_all (\<lambda>w. sep \<notin> set w) ws \<Longrightarrow> ws \<noteq> [] \<Longrightarrow> js_split sep (join_strings [sep] ws) = ws"
proof (induction ws)
  case (Cons w ws)
  then show ?case by (cases ws) (auto simp: js_split_plain js_split_append)
qed simp

definition key_fields :: "string list \<Rightarrow> jval \<Rightarrow> string list" where
  "key_fields ks item = map (\<lambda>k. let v = getPath item k in if is_nullish v then [] else js_String v) ks"

lemma dedup_key_fields: "dedup_key ks item = join_strings ''|'' (key_fields ks item)"
  by (simp add: dedup_key_def js_join_def key_fields_def comp_def Let_def)

lemma dedup_key_inject:
  assumes "list_all (\<lambda>w. CHR ''|'' \<notin> set w) (key_fields ks a)" "list_all (\<lambda>w. CHR ''|'' \<notin> set w) (key_fields ks b)"
  shows "dedup_key ks a = dedup_key ks b \<longleftrightarrow> key_fields ks a = key_fields ks b"
proof
  assume eq: "dedup_key ks a = dedup_key ks b"
  show "key_fields ks a = key_fields ks b"
  proof (cases "ks = []")
    case False
    then have "key_fields ks a \<noteq> []" "key_fields ks b \<noteq> []" by (simp_all add: key_fields_def)
    then have "js_split CHR ''|'' (join_strings ''|'' (key_fields ks a)) = key_fields ks a"
      "js_split CHR ''|'' (join_strings ''|'' (key_fields ks b)) = key_fields ks b"
      by (simp_all only: split_join [OF assms(1)] split_join [OF assms(2)] not_False_eq_True)
    with eq show ?thesis unfolding dedup_key_fields by metis
  qed (simp add: key_fields_def)
qed (simp add: dedup_key_fields)

text \<open>When no key field contains the separator, deduplication keeps exactly the items whose tuple of
  key fields no earlier item has, in their order.\<close>

theorem deduplicate_keeps_first:
  assumes "resolveExpressionSource (leafField a ''from'') c = Inr (JArr items)"
    and "leafField a ''keys'' = JArr (map JStr ks)"
    and "\<forall>item \<in> set items. list_all (\<lambda>w. CHR ''|'' \<notin> set w) (key_fields ks item)"
  shows "deduplicated_value a c =
    Inr (JArr (map ((!) items) (filter (\<lambda>i. \<forall>j<i. key_fields ks (items ! j) \<noteq> key_fields ks (items ! i)) [0..<length items])))"
proof (cases "items = []")
  case False
  have ks: "dedup_paths (JArr (map JStr ks)) = Inr ks"
    by (simp add: dedup_paths_def) (induction ks; simp add: path_of_def)
  have "first_of_key (dedup_key ks) items i \<longleftrightarrow> (\<forall>j<i. key_fields ks (items ! j) \<noteq> key_fields ks (items ! i))"
    if "i < length items" for i
    using that assms(3) dedup_key_inject [of ks] by (auto simp: first_of_key_def)
  then have "dedup_items (dedup_key ks) [] items
      = map ((!) items) (filter (\<lambda>i. \<forall>j<i. key_fields ks (items ! j) \<noteq> key_fields ks (items ! i)) [0..<length items])"
    by (auto simp: dedup_items_seen intro!: arg_cong [of _ _ "map _"] filter_cong)
  then show ?thesis using False by (simp add: deduplicated_value_def assms(1,2) ks array_or_empty_def)
qed (simp add: deduplicated_value_def assms(1) array_or_empty_def)

definition person :: "string \<Rightarrow> string \<Rightarrow> jval" where
  "person given family = JObj [(''first'', JStr given), (''last'', JStr family)]"

definition dedup_step :: action where
  "dedup_step = Leaf empty_base ''deduplicate'' [(''from'', JStr ''extracted.people''),
     (''keys'', JArr [JStr ''first'', JStr ''last'']), (''name'', JStr ''unique'')] []"

definition people_scope :: "jval list \<Rightarrow> scope" where
  "people_scope ps = \<lparr>variables = [], extracted = [(''people'', JArr ps)], evaluated = [], captured = [],
     loopIndex = JUndef, loopItem = JUndef, pageInfo = JUndef\<rparr>"

theorem deduplicate_keeps_first_witness:
  "deduplicated_value dedup_step (people_scope [person ''Ada'' ''L'', person ''Alan'' ''T'', person ''Ada'' ''L''])
     = Inr (JArr [person ''Ada'' ''L'', person ''Alan'' ''T''])"
proof -
  let ?ps = "[person ''Ada'' ''L'', person ''Alan'' ''T'', person ''Ada'' ''L'']"
  have 1: "resolveExpressionSource (leafField dedup_step ''from'') (people_scope ?ps) = Inr (JArr ?ps)" by code_simp
  have 2: "leafField dedup_step ''keys'' = JArr (map JStr [''first'', ''last''])" by code_simp
  have 3: "\<forall>item \<in> set ?ps. list_all (\<lambda>w. CHR ''|'' \<notin> set w) (key_fields [''first'', ''last''] item)" by code_simp
  have 4: "map ((!) ?ps) (filter (\<lambda>i. \<forall>j<i. key_fields [''first'', ''last''] (?ps ! j) \<noteq> key_fields [''first'', ''last''] (?ps ! i))
      [0..<length ?ps]) = [person ''Ada'' ''L'', person ''Alan'' ''T'']" by code_simp
  show ?thesis using deduplicate_keeps_first [OF 1 2 3] 4 by simp
qed

text \<open>A field with the separator in it makes different items one: the second is lost.\<close>

theorem separator_merges_items:
  "deduplicated_value dedup_step (people_scope [person ''a|b'' ''c'', person ''a'' ''b|c''])
     = Inr (JArr [person ''a|b'' ''c''])"
  by code_simp


section \<open>JSON paths\<close>

text \<open>A path of two parts is walked part by part.\<close>

lemma json_path_walk_append:
  "json_path_walk path v (xs @ ys) = bind_sum (json_path_walk path v xs) (\<lambda>u. json_path_walk path u ys)"
  by (induction path v xs rule: json_path_walk.induct) (auto split: option.split, (cases ys; simp)+)

end
