(* ===== verification/Polling.thy ===== *)
theory Polling
  imports Runtime
begin

text \<open>
  Computations that may not end. A handler of the engine, and the search for an element, poll the page
  until something holds or a deadline has passed; whether they return depends on the page and the
  clock. An \<open>act\<close> is a \<open>run\<close> whose answer may be missing: \<open>None\<close> is a computation that does not
  return.
\<close>

section \<open>Sequencing\<close>

type_synonym ('w, 'a) act = "'w st \<Rightarrow> ('a outcome \<times> 'w st) option"

definition liftA :: "('w, 'a) run \<Rightarrow> ('w, 'a) act" where
  "liftA m = (\<lambda>s. Some (m s))"

definition returnA :: "'a \<Rightarrow> ('w, 'a) act" where
  "returnA a = liftA (returnR a)"

definition throwA :: "exn \<Rightarrow> ('w, 'a) act" where
  "throwA e = liftA (throwR e)"

definition readA :: "('w st \<Rightarrow> 'a) \<Rightarrow> ('w, 'a) act" where
  "readA f = liftA (readR f)"

definition bindA :: "('w, 'a) act \<Rightarrow> ('a \<Rightarrow> ('w, 'b) act) \<Rightarrow> ('w, 'b) act" where
  "bindA m k = (\<lambda>s. case m s of
      None \<Rightarrow> None
    | Some (r, s') \<Rightarrow> (case r of Ret a \<Rightarrow> k a s' | Throw e \<Rightarrow> Some (Throw e, s')))"

definition thenA :: "('w, unit) act \<Rightarrow> ('w, 'b) act \<Rightarrow> ('w, 'b) act" where
  "thenA m k = bindA m (\<lambda>_. k)"

definition catchA :: "('w, 'a) act \<Rightarrow> (exn \<Rightarrow> ('w, 'a) act) \<Rightarrow> ('w, 'a) act" where
  "catchA m h = (\<lambda>s. case m s of
      None \<Rightarrow> None
    | Some (r, s') \<Rightarrow> (case r of Ret a \<Rightarrow> Some (Ret a, s') | Throw e \<Rightarrow> h e s'))"

definition whenA :: "bool \<Rightarrow> ('w, unit) act \<Rightarrow> ('w, unit) act" where
  "whenA b m = (if b then m else returnA ())"

definition sumA :: "exn + 'a \<Rightarrow> ('w, 'a) act" where
  "sumA x = (case x of Inl e \<Rightarrow> throwA e | Inr a \<Rightarrow> returnA a)"

primrec eachA :: "('b \<Rightarrow> ('w, unit) act) \<Rightarrow> 'b list \<Rightarrow> ('w, unit) act" where
  "eachA f [] = returnA ()"
| "eachA f (x # xs) = thenA (f x) (eachA f xs)"

named_theorems act_simps \<open>evaluation of computations that may not end\<close>

lemma liftA_apply [act_simps]: "liftA m s = Some (m s)"
  by (simp add: liftA_def)

lemma returnA_apply [simp, act_simps]: "returnA a s = Some (Ret a, s)"
  by (simp add: returnA_def liftA_def)

lemma throwA_apply [simp, act_simps]: "throwA e s = Some (Throw e, s)"
  by (simp add: throwA_def liftA_def)

lemma readA_apply [simp, act_simps]: "readA f s = Some (Ret (f s), s)"
  by (simp add: readA_def liftA_def)

lemma bindA_apply [act_simps]:
  "bindA m k s = (case m s of None \<Rightarrow> None
     | Some (r, s') \<Rightarrow> (case r of Ret a \<Rightarrow> k a s' | Throw e \<Rightarrow> Some (Throw e, s')))"
  by (simp add: bindA_def)

lemma thenA_apply [act_simps]:
  "thenA m k s = (case m s of None \<Rightarrow> None
     | Some (r, s') \<Rightarrow> (case r of Ret _ \<Rightarrow> k s' | Throw e \<Rightarrow> Some (Throw e, s')))"
  by (simp add: thenA_def bindA_def)

lemma catchA_apply [act_simps]:
  "catchA m h s = (case m s of None \<Rightarrow> None
     | Some (r, s') \<Rightarrow> (case r of Ret a \<Rightarrow> Some (Ret a, s') | Throw e \<Rightarrow> h e s'))"
  by (simp add: catchA_def)

lemma bindA_return_left: "bindA (returnA a) k = k a"
  by (rule ext) (simp add: bindA_def)

lemma bindA_throw: "bindA (throwA e) k = throwA e"
  by (rule ext) (simp add: bindA_def)

lemma bindA_assoc: "bindA (bindA m f) g = bindA m (\<lambda>a. bindA (f a) g)"
  by (rule ext) (simp add: bindA_def split: option.split outcome.split prod.split)


section \<open>Polling\<close>

text \<open>
  \<open>while (guard) { body }\<close> with a local variable: a round that goes on leaves it a new value, on the
  left, a round that leaves the loop answers on the right. The variable is the answer when the guard
  no longer holds.
\<close>

partial_function (option) poll ::
  "('w st \<Rightarrow> bool) \<Rightarrow> ('x \<Rightarrow> ('w, 'x + 'a) act) \<Rightarrow> 'x \<Rightarrow> 'w st \<Rightarrow> (('x + 'a) outcome \<times> 'w st) option" where
  "poll guard body x s =
     (if guard s
      then (case body x s of
              None \<Rightarrow> None
            | Some rs \<Rightarrow> (case rs of (r, s') \<Rightarrow>
              (case r of
                 Throw e \<Rightarrow> Some (Throw e, s')
               | Ret y \<Rightarrow> (case y of Inr a \<Rightarrow> Some (Ret (Inr a), s') | Inl x' \<Rightarrow> poll guard body x' s'))))
      else Some (Ret (Inl x), s))"

declare poll.simps [code]

lemma poll_exit [act_simps]: "\<not> guard s \<Longrightarrow> poll guard body x s = Some (Ret (Inl x), s)"
  by (simp add: poll.simps)

text \<open>\<open>while (clock - start < limit)\<close>\<close>

definition before :: "('w st \<Rightarrow> int) \<Rightarrow> int \<Rightarrow> int \<Rightarrow> 'w st \<Rightarrow> bool" where
  "before clock start limit s \<longleftrightarrow> clock s - start < limit"

text \<open>The number of rounds a loop makes, when it is at most the given bound\<close>

primrec rounds :: "nat \<Rightarrow> ('w st \<Rightarrow> bool) \<Rightarrow> ('x \<Rightarrow> ('w, 'x + 'a) act) \<Rightarrow> 'x \<Rightarrow> 'w st \<Rightarrow> nat option" where
  "rounds 0 guard body x s = (if guard s then None else Some 0)"
| "rounds (Suc m) guard body x s =
     (if guard s
      then (case body x s of
              None \<Rightarrow> None
            | Some (Ret (Inl x'), s') \<Rightarrow> map_option Suc (rounds m guard body x' s')
            | Some _ \<Rightarrow> Some 1)
      else Some 0)"

text \<open>
  A loop whose pauses bring its deadline nearer returns: when the guard ends with the deadline and a
  round takes at least \<open>pause\<close> on the clock, after at most as many rounds as such pauses fit.
\<close>

lemma poll_returns:
  assumes "\<And>s. guard s \<Longrightarrow> clock s < deadline"
    and "\<And>x x' s s'. guard s \<Longrightarrow> body x s = Some (Ret (Inl x'), s') \<Longrightarrow> clock s + pause \<le> clock s'"
    and "\<And>x s. guard s \<Longrightarrow> body x s \<noteq> None"
    and "deadline \<le> clock s + int n * pause"
  shows "poll guard body x s \<noteq> None \<and> (\<exists>k \<le> n. rounds n guard body x s = Some k)"
  using assms(4)
proof (induction n arbitrary: x s)
  case 0
  then have "\<not> guard s" using assms(1) [of s] by auto
  then show ?case by (simp add: poll_exit)
next
  case (Suc n)
  show ?case
  proof (cases "guard s")
    case True
    obtain r s1 where b: "body x s = Some (r, s1)" using assms(3) [OF True, of x] by auto
    consider x' where "r = Ret (Inl x')" | a where "r = Ret (Inr a)" | e where "r = Throw e"
      by (metis outcome.exhaust sum.exhaust)
    then show ?thesis
    proof cases
      case 1
      have "deadline \<le> clock s1 + int n * pause"
        using Suc.prems assms(2) [OF True b [unfolded 1]] by (simp add: algebra_simps)
      from Suc.IH [OF this, of x'] True b 1 show ?thesis
        by (auto simp: poll.simps [of _ _ _ s])
    qed (use True b in \<open>auto simp: poll.simps [of _ _ _ s]\<close>)
  qed (simp add: poll_exit)
qed

text \<open>What every round keeps holds between the start of the loop and its return.\<close>

lemma poll_keeps:
  assumes "\<And>x s r s'. guard s \<Longrightarrow> body x s = Some (r, s') \<Longrightarrow> P s s'" and "\<And>s. P s s"
    and "\<And>s s' s''. P s s' \<Longrightarrow> P s' s'' \<Longrightarrow> P s s''"
    and "poll guard body x s = Some (r, s')"
  shows "P s s'"
proof -
  have "g = guard \<longrightarrow> b = body \<longrightarrow> P s (snd rs)" if "poll g b x s = Some rs" for g b x s rs
  proof (rule poll.raw_induct [where P = "\<lambda>g b x s rs. g = guard \<longrightarrow> b = body \<longrightarrow> P s (snd rs)"
      and xa = "(((g, b), x), s)" and y = rs, simplified case_prod_conv, rotated, OF that])
    fix f g b x s rs
    assume IH: "\<And>g b x s rs. f g b x s = Some rs \<Longrightarrow> g = guard \<longrightarrow> b = body \<longrightarrow> P s (snd rs)"
      and run: "(if g s then case b x s of None \<Rightarrow> None | Some rs \<Rightarrow> (case rs of (r, s') \<Rightarrow> (case r of Throw e \<Rightarrow> Some (Throw e, s')
          | Ret y \<Rightarrow> (case y of Inr a \<Rightarrow> Some (Ret (Inr a), s') | Inl x' \<Rightarrow> f g b x' s')))
        else Some (Ret (Inl x), s)) = Some rs"
    show "g = guard \<longrightarrow> b = body \<longrightarrow> P s (snd rs)"
    proof (intro impI)
      assume "g = guard" "b = body"
      show "P s (snd rs)"
      proof (cases "guard s")
        case True
        then obtain r1 s1 where round: "body x s = Some (r1, s1)"
          using run \<open>g = guard\<close> \<open>b = body\<close> by (auto split: option.splits)
        note first = assms(1) [OF True round]
        consider "snd rs = s1" | x' where "f g b x' s1 = Some rs"
          using run True \<open>g = guard\<close> \<open>b = body\<close> by (auto simp: round split: outcome.splits sum.splits)
        then show ?thesis
          using first assms(3) [OF first] IH \<open>g = guard\<close> \<open>b = body\<close> by cases auto
      qed (use run assms(2) [of s] \<open>g = guard\<close> in auto)
    qed
  qed
  from this [OF assms(4)] show ?thesis by simp
qed

end
