(* ===== verification/Selectors.thy ===== *)
theory Selectors
  imports Polling Json
begin

text \<open>
  How a target finds its elements: \<open>src/scriptcat-engine/selectors.ts\<close>, the search loop of
  \<open>src/worker/BrowserEnvironment.ts\<close>, and the implicit roles of \<open>src/rule-engine/aria-roles.ts\<close>. The
  document at a moment is a record of what the browser answers about its nodes; its elements,
  documents and shadow roots are numbers. Walks over the tree are bounded by the number of its nodes,
  which no chain of parents exceeds.
\<close>

section \<open>The document\<close>

type_synonym node = nat

record dom_style =
  styleDisplay :: string
  styleVisibility :: string
  styleContentVisibility :: string
  styleOpacity :: string

text \<open>No window to ask, \<open>getComputedStyle\<close> throws, or a style\<close>

datatype style_read = NoView | StyleThrows | StyleIs dom_style

record dom_rect =
  rectLeft :: rat
  rectTop :: rat
  rectWidth :: rat
  rectHeight :: rat

text \<open>\<open>None\<close> of a query is a \<open>DOMException\<close>; text nodes come with their parent element.\<close>

record dom =
  nodeCount :: nat
  documentNode :: node
  tagNameOf :: "node \<Rightarrow> string"
  attributeOf :: "node \<Rightarrow> string \<Rightarrow> string option"
  textOf :: "node \<Rightarrow> string option"
  parentElementOf :: "node \<Rightarrow> node option"
  shadowHostOf :: "node \<Rightarrow> node option"
  styleOf :: "node \<Rightarrow> style_read"
  rectOf :: "node \<Rightarrow> dom_rect option"
  descendantsOf :: "node \<Rightarrow> node list"
  querySelectorAll :: "node \<Rightarrow> string \<Rightarrow> node list option"
  xpathNodes :: "string \<Rightarrow> node \<Rightarrow> (node \<times> bool) list option"
  textNodes :: "node \<Rightarrow> (string \<times> node option) list"
  elementFromPoint :: "node \<Rightarrow> jval \<Rightarrow> jval \<Rightarrow> node option"
  frameElements :: "node list"
  frameMatches :: "node \<Rightarrow> string \<Rightarrow> bool option"
  contentDocumentOf :: "node \<Rightarrow> node option"
  shadowRootOf :: "node \<Rightarrow> node option"
  cssEscape :: "string \<Rightarrow> string"

definition lower_char :: "char \<Rightarrow> char" where
  "lower_char c = (let n = of_char c :: nat in
     if (65 \<le> n \<and> n \<le> 90) \<or> (192 \<le> n \<and> n \<le> 222 \<and> n \<noteq> 215) then char_of (n + 32) else c)"

definition js_toLowerCase :: "string \<Rightarrow> string" where
  "js_toLowerCase = map lower_char"


section \<open>Implicit roles\<close>

definition TAG_TO_ROLE :: "(string \<times> string) list" where
  "TAG_TO_ROLE = [(''a'', ''link''), (''aside'', ''complementary''), (''button'', ''button''), (''footer'', ''contentinfo''),
     (''form'', ''form''), (''h1'', ''heading''), (''h2'', ''heading''), (''h3'', ''heading''), (''h4'', ''heading''),
     (''h5'', ''heading''), (''h6'', ''heading''), (''header'', ''banner''), (''img'', ''image''), (''li'', ''listitem''),
     (''main'', ''main''), (''nav'', ''navigation''), (''ol'', ''list''), (''select'', ''combobox''), (''table'', ''table''),
     (''textarea'', ''textbox''), (''ul'', ''list'')]"

definition INPUT_TYPE_TO_ROLE :: "(string \<times> string) list" where
  "INPUT_TYPE_TO_ROLE = [(''button'', ''button''), (''checkbox'', ''checkbox''), (''email'', ''textbox''), (''hidden'', []),
     (''image'', ''button''), (''number'', ''textbox''), (''password'', ''textbox''), (''radio'', ''radio''), (''range'', ''slider''),
     (''reset'', ''button''), (''search'', ''searchbox''), (''submit'', ''button''), (''tel'', ''textbox''), (''text'', ''textbox''),
     (''url'', ''textbox'')]"

definition getImplicitRole :: "string \<Rightarrow> string option \<Rightarrow> string option" where
  "getImplicitRole tagName inputType =
     (let tag = js_toLowerCase tagName in
      if tag = ''input'' then
        (case inputType of
           None \<Rightarrow> Some ''textbox''
         | Some t \<Rightarrow> (let ty = js_toLowerCase t in
             if ty = ''hidden'' then None
             else (case map_of INPUT_TYPE_TO_ROLE ty of Some r \<Rightarrow> Some r | None \<Rightarrow> Some ''textbox'')))
      else map_of TAG_TO_ROLE tag)"

definition inputTypeOf :: "dom \<Rightarrow> node \<Rightarrow> string option" where
  "inputTypeOf d el = (if js_toLowerCase (tagNameOf d el) \<noteq> ''input'' then None else attributeOf d el ''type'')"

text \<open>The role a recording captures\<close>

definition effectiveRole :: "dom \<Rightarrow> node \<Rightarrow> string option" where
  "effectiveRole d el =
     (case attributeOf d el ''role'' of
        Some r \<Rightarrow> if r \<noteq> [] then Some r else getImplicitRole (js_toLowerCase (tagNameOf d el)) (inputTypeOf d el)
      | None \<Rightarrow> getImplicitRole (js_toLowerCase (tagNameOf d el)) (inputTypeOf d el))"


section \<open>Acceptance of a candidate\<close>

text \<open>A field of the target that is a string with more than white space\<close>

definition nonBlank :: "target \<Rightarrow> string \<Rightarrow> string option" where
  "nonBlank t k = (case obj_get t k of JStr s \<Rightarrow> if js_trim s \<noteq> [] then Some s else None | _ \<Rightarrow> None)"

definition text_content :: "dom \<Rightarrow> node \<Rightarrow> string" where
  "text_content d el = (case textOf d el of None \<Rightarrow> [] | Some x \<Rightarrow> x)"

definition matchesDeclaredText :: "dom \<Rightarrow> target \<Rightarrow> node \<Rightarrow> bool" where
  "matchesDeclaredText d t el =
     (case nonBlank t ''text'' of None \<Rightarrow> True | Some x \<Rightarrow> js_trim (text_content d el) = js_trim x)"

definition verifyElement :: "dom \<Rightarrow> target \<Rightarrow> node \<Rightarrow> bool" where
  "verifyElement d t el =
     (matchesDeclaredText d t el
      \<and> (case nonBlank t ''ariaLabel'' of None \<Rightarrow> True | Some l \<Rightarrow> attributeOf d el ''aria-label'' = Some l)
      \<and> (case nonBlank t ''role'' of None \<Rightarrow> True
         | Some r \<Rightarrow> (case attributeOf d el ''role'' of Some x \<Rightarrow> Some x
                      | None \<Rightarrow> getImplicitRole (tagNameOf d el) (inputTypeOf d el)) = Some r))"

definition attr_is :: "dom \<Rightarrow> node \<Rightarrow> string \<Rightarrow> string \<Rightarrow> bool" where
  "attr_is d el k v = (case attributeOf d el k of None \<Rightarrow> False | Some x \<Rightarrow> js_toLowerCase (js_trim x) = v)"

definition hides :: "dom_style \<Rightarrow> bool" where
  "hides s \<longleftrightarrow> styleDisplay s = ''none'' \<or> styleVisibility s = ''hidden'' \<or> styleVisibility s = ''collapse''
     \<or> styleContentVisibility s = ''hidden'' \<or> styleOpacity s = ''0''"

text \<open>What hides an element of the chain from the candidate to the top\<close>

definition hidden_here :: "dom \<Rightarrow> node \<Rightarrow> bool" where
  "hidden_here d el \<longleftrightarrow>
     attributeOf d el ''hidden'' \<noteq> None \<or> attr_is d el ''aria-hidden'' ''true''
     \<or> (js_toLowerCase (tagNameOf d el) = ''input'' \<and> attr_is d el ''type'' ''hidden'')
     \<or> (case styleOf d el of NoView \<Rightarrow> False | StyleThrows \<Rightarrow> True | StyleIs s \<Rightarrow> hides s)"

definition next_up :: "dom \<Rightarrow> node \<Rightarrow> node option" where
  "next_up d el = (case parentElementOf d el of Some p \<Rightarrow> Some p | None \<Rightarrow> shadowHostOf d el)"

text \<open>The walk through parents and shadow hosts\<close>

primrec chain_shown :: "nat \<Rightarrow> dom \<Rightarrow> node \<Rightarrow> bool" where
  "chain_shown 0 d el = False"
| "chain_shown (Suc n) d el =
     (\<not> hidden_here d el \<and> (case next_up d el of None \<Rightarrow> True | Some p \<Rightarrow> chain_shown n d p))"

definition has_box :: "dom_rect \<Rightarrow> bool" where
  "has_box r \<longleftrightarrow> 0 < rectWidth r \<and> 0 < rectHeight r"

definition subject_display :: "dom \<Rightarrow> node \<Rightarrow> string" where
  "subject_display d el = (case styleOf d el of StyleIs s \<Rightarrow> styleDisplay s | _ \<Rightarrow> [])"

primrec visible_within :: "nat \<Rightarrow> dom \<Rightarrow> node \<Rightarrow> bool" where
  "visible_within 0 d el = False"
| "visible_within (Suc n) d el =
     (chain_shown (nodeCount d) d el
      \<and> (case rectOf d el of
           None \<Rightarrow> False
         | Some r \<Rightarrow> has_box r
             \<or> (subject_display d el = ''contents'' \<and> list_ex (visible_within n d) (descendantsOf d el))))"

definition isElementVisible :: "dom \<Rightarrow> node \<Rightarrow> bool" where
  "isElementVisible d el = visible_within (nodeCount d) d el"

definition shown_if_required :: "dom \<Rightarrow> target \<Rightarrow> node \<Rightarrow> bool" where
  "shown_if_required d t el = (truthy (obj_get t ''visible'') \<longrightarrow> isElementVisible d el)"

definition candidateAccepted :: "dom \<Rightarrow> target \<Rightarrow> node \<Rightarrow> bool" where
  "candidateAccepted d t el = (verifyElement d t el \<and> shown_if_required d t el)"


section \<open>The branches of the search\<close>

definition quote_mark :: string where
  "quote_mark = [CHR 0x22]"

definition aria_query :: "dom \<Rightarrow> string \<Rightarrow> string" where
  "aria_query d l = ''[aria-label='' @ quote_mark @ cssEscape d l @ quote_mark @ '']''"

definition role_query :: "dom \<Rightarrow> target \<Rightarrow> string \<Rightarrow> string" where
  "role_query d t r = ''[role='' @ quote_mark @ r @ quote_mark @ '']''
     @ (case nonBlank t ''roleName'' of None \<Rightarrow> [] | Some n \<Rightarrow> aria_query d n)"

definition evaluateXPathAll :: "dom \<Rightarrow> string \<Rightarrow> node \<Rightarrow> node list option" where
  "evaluateXPathAll d x context' = map_option (\<lambda>ns. map fst (filter snd ns)) (xpathNodes d x context')"

definition findAllByText :: "dom \<Rightarrow> node \<Rightarrow> string \<Rightarrow> node list" where
  "findAllByText d root' x =
     List.map_filter (\<lambda>(c, p). if js_trim c = js_trim x then p else None) (textNodes d root')"

text \<open>
  The candidates of the five strategies, in their order; a strategy the target does not use, or whose
  query throws, has none. Only the search for one element heeds \<open>index\<close>.
\<close>

definition when_declared :: "target \<Rightarrow> string \<Rightarrow> (string \<Rightarrow> node list option) \<Rightarrow> node list" where
  "when_declared t k f =
     (case nonBlank t k of None \<Rightarrow> [] | Some x \<Rightarrow> (case f x of None \<Rightarrow> [] | Some els \<Rightarrow> els))"

definition nth_of :: "node list \<Rightarrow> jval \<Rightarrow> node list" where
  "nth_of els i =
     (if i = JUndef then els
      else (case array_index (js_String i) of
              None \<Rightarrow> []
            | Some k \<Rightarrow> if k < length els then [els ! k] else []))"

definition branches :: "dom \<Rightarrow> node \<Rightarrow> target \<Rightarrow> bool \<Rightarrow> node list list" where
  "branches d root' t one =
     [(let els = when_declared t ''selector'' (querySelectorAll d root') in if one then nth_of els (obj_get t ''index'') else els),
      when_declared t ''xpath'' (\<lambda>x. evaluateXPathAll d x root'),
      when_declared t ''text'' (\<lambda>x. Some (findAllByText d root' x)),
      when_declared t ''ariaLabel'' (\<lambda>l. querySelectorAll d root' (aria_query d l)),
      when_declared t ''role'' (\<lambda>r. querySelectorAll d root' (role_query d t r))]"

text \<open>What the search has seen: an element with the declared text, an element that failed verification\<close>

record sightings =
  sawDeclaredText :: bool
  sawUnverified :: bool

definition nothing_seen :: sightings where
  "nothing_seen = \<lparr>sawDeclaredText = False, sawUnverified = False\<rparr>"

definition verification_error :: "target \<Rightarrow> exn" where
  "verification_error t = JsError ''ElementVerificationFailed''
     (''ElementVerificationFailed: '' @ (case json_text (JObj t) of None \<Rightarrow> ''undefined'' | Some x \<Rightarrow> x))"

definition not_found :: "target \<Rightarrow> sightings \<Rightarrow> 'a \<Rightarrow> exn + 'a" where
  "not_found t seen none =
     (if nonBlank t ''text'' \<noteq> None \<and> \<not> sawDeclaredText seen then Inr none
      else if sawUnverified seen then Inl (verification_error t) else Inr none)"

definition note_text :: "dom \<Rightarrow> target \<Rightarrow> node \<Rightarrow> sightings \<Rightarrow> sightings" where
  "note_text d t el seen =
     (if nonBlank t ''text'' \<noteq> None \<and> matchesDeclaredText d t el then seen\<lparr>sawDeclaredText := True\<rparr> else seen)"

text \<open>One branch of \<open>queryOneWithRoot\<close>: the first candidate that is accepted\<close>

primrec scan_branch :: "dom \<Rightarrow> target \<Rightarrow> node list \<Rightarrow> sightings \<Rightarrow> node option \<times> sightings" where
  "scan_branch d t [] seen = (None, seen)"
| "scan_branch d t (el # els) seen =
     (let seen' = note_text d t el seen in
      if \<not> verifyElement d t el then scan_branch d t els (seen'\<lparr>sawUnverified := True\<rparr>)
      else if shown_if_required d t el then (Some el, seen') else scan_branch d t els seen')"

primrec query_one_branches :: "dom \<Rightarrow> target \<Rightarrow> node list list \<Rightarrow> sightings \<Rightarrow> exn + node option" where
  "query_one_branches d t [] seen = not_found t seen None"
| "query_one_branches d t (els # bs) seen =
     (case scan_branch d t els seen of
        (Some el, _) \<Rightarrow> Inr (Some el)
      | (None, seen') \<Rightarrow> query_one_branches d t bs seen')"

definition queryOneWithRoot :: "dom \<Rightarrow> node \<Rightarrow> target \<Rightarrow> exn + node option" where
  "queryOneWithRoot d root' t = query_one_branches d t (branches d root' t True) nothing_seen"

text \<open>One branch of \<open>queryAllWithRoot\<close>: all its accepted candidates\<close>

primrec query_all_branches :: "dom \<Rightarrow> target \<Rightarrow> node list list \<Rightarrow> sightings \<Rightarrow> exn + node list" where
  "query_all_branches d t [] seen = not_found t seen []"
| "query_all_branches d t (els # bs) seen =
     (let declared = (nonBlank t ''text'' \<noteq> None \<and> list_ex (matchesDeclaredText d t) els);
          verified = filter (candidateAccepted d t) els
      in if verified \<noteq> [] then Inr verified
         else query_all_branches d t bs
                \<lparr>sawDeclaredText = (sawDeclaredText seen \<or> declared),
                 sawUnverified = (sawUnverified seen \<or> list_ex (\<lambda>e. \<not> verifyElement d t e) els)\<rparr>)"

definition queryAllWithRoot :: "dom \<Rightarrow> node \<Rightarrow> target \<Rightarrow> exn + node list" where
  "queryAllWithRoot d root' t = query_all_branches d t (branches d root' t False) nothing_seen"

definition at_point :: "dom \<Rightarrow> node \<Rightarrow> target \<Rightarrow> node option" where
  "at_point d root' t =
     (case elementFromPoint d root' (get_prop (obj_get t ''position'') ''x'') (get_prop (obj_get t ''position'') ''y'') of
        None \<Rightarrow> None
      | Some el \<Rightarrow> if shown_if_required d t el then Some el else None)"

definition resolveTarget :: "dom \<Rightarrow> node \<Rightarrow> target \<Rightarrow> exn + node option" where
  "resolveTarget d root' t =
     (if truthy (obj_get t ''position'') \<and> nonBlank t ''text'' = None then Inr (at_point d root' t)
      else queryOneWithRoot d root' t)"

text \<open>The root of a search in a frame and through shadow roots\<close>

definition frame_root :: "dom \<Rightarrow> target \<Rightarrow> node option" where
  "frame_root d t =
     (let frame = (if is_number (obj_get t ''frame'')
                   then (case nth_of (frameElements d) (obj_get t ''frame'') of [] \<Rightarrow> Some None | f # _ \<Rightarrow> Some (Some f))
                   else (case nonBlank t ''frame'' of
                           None \<Rightarrow> Some None
                         | Some sel \<Rightarrow>
                             (if list_ex (\<lambda>f. frameMatches d f sel = None) (frameElements d) then None
                              else Some (find (\<lambda>f. frameMatches d f sel = Some True) (frameElements d)))))
      in map_option (\<lambda>fr. case Option.bind fr (contentDocumentOf d) of None \<Rightarrow> documentNode d | Some doc \<Rightarrow> doc) frame)"

primrec shadow_walk :: "dom \<Rightarrow> jval list \<Rightarrow> node \<Rightarrow> node option" where
  "shadow_walk d [] root' = Some root'"
| "shadow_walk d (part # parts) root' =
     (case part of
        JStr p \<Rightarrow>
          if js_trim p = [] then shadow_walk d parts root'
          else (case querySelectorAll d root' p of
                  None \<Rightarrow> None
                | Some els \<Rightarrow> shadow_walk d parts
                    (case els of [] \<Rightarrow> root' | host # _ \<Rightarrow> (case shadowRootOf d host of None \<Rightarrow> root' | Some r \<Rightarrow> r)))
      | _ \<Rightarrow> shadow_walk d parts root')"

definition getRoot :: "dom \<Rightarrow> target \<Rightarrow> node option" where
  "getRoot d t =
     Option.bind (frame_root d t)
       (\<lambda>r. case obj_get t ''shadowPath'' of JArr parts \<Rightarrow> shadow_walk d parts r | _ \<Rightarrow> Some r)"


section \<open>Waiting for an element\<close>

text \<open>
  \<open>BrowserEnvironment.findElement\<close>: the document is asked again every 100 ms until the timeout, and a
  verification failure of the last such round is reported then.
\<close>

definition is_verification_error :: "exn \<Rightarrow> bool" where
  "is_verification_error e = (case e of JsError n _ \<Rightarrow> n = ''ElementVerificationFailed'' | _ \<Rightarrow> False)"

definition find_round ::
  "('w st \<Rightarrow> dom) \<Rightarrow> (int \<Rightarrow> ('w, unit) run) \<Rightarrow> (dom \<Rightarrow> exn + 'a option) \<Rightarrow> exn option
   \<Rightarrow> ('w, exn option + 'a) run" where
  "find_round document sleep query failure =
     (\<lambda>s. case query (document s) of
        Inr (Some el) \<Rightarrow> (Ret (Inr el), s)
      | Inr None \<Rightarrow> bindR (sleep 100) (\<lambda>_. returnR (Inl failure)) s
      | Inl e \<Rightarrow> if is_verification_error e then bindR (sleep 100) (\<lambda>_. returnR (Inl (Some e))) s else (Throw e, s))"

definition find_within ::
  "('w st \<Rightarrow> dom) \<Rightarrow> (int \<Rightarrow> ('w, unit) run) \<Rightarrow> ('w st \<Rightarrow> int) \<Rightarrow> (dom \<Rightarrow> exn + 'a option) \<Rightarrow> int
   \<Rightarrow> ('w, 'a option) act" where
  "find_within document sleep clock query timeout' =
     (\<lambda>s. bindA (poll (before clock (clock s) timeout') (\<lambda>x. liftA (find_round document sleep query x)) None)
        (\<lambda>r. case r of
           Inr el \<Rightarrow> returnA (Some el)
         | Inl None \<Rightarrow> returnA None
         | Inl (Some e) \<Rightarrow> throwA e) s)"

definition find_element ::
  "('w st \<Rightarrow> dom) \<Rightarrow> (int \<Rightarrow> ('w, unit) run) \<Rightarrow> ('w st \<Rightarrow> int) \<Rightarrow> target \<Rightarrow> int \<Rightarrow> ('w, node option) act" where
  "find_element document sleep clock t = find_within document sleep clock (\<lambda>d. resolveTarget d (documentNode d) t)"

definition find_elements ::
  "('w st \<Rightarrow> dom) \<Rightarrow> (int \<Rightarrow> ('w, unit) run) \<Rightarrow> ('w st \<Rightarrow> int) \<Rightarrow> target \<Rightarrow> int \<Rightarrow> ('w, node list) act" where
  "find_elements document sleep clock t timeout' =
     bindA (find_within document sleep clock
        (\<lambda>d. bind_sum (queryAllWithRoot d (documentNode d) t) (\<lambda>els. Inr (if els = [] then None else Some els))) timeout')
       (\<lambda>r. returnA (case r of None \<Rightarrow> [] | Some els \<Rightarrow> els))"

end
