(* ===== verification/Browser.thy ===== *)
theory Browser
  imports Selectors Action_Data Executor_Utils
begin

text \<open>
  What the leaf actions of \<open>src/scriptcat-engine/actions/index.ts\<close> ask of the page: the browser's
  objects, as a record of arbitrary operations, and the helpers of that file the handlers share. The
  engine's own environment (\<open>env\<close>) stays the record of \<open>Runtime\<close>.
\<close>

section \<open>The browser\<close>

datatype dom_event =
    MouseEv string nat nat rat rat
  | KeyEv string string bool
  | PlainEv string
  | PasteEv
  | CustomEv string jval

text \<open>\<open>(option.value, option.text, option.index)\<close>\<close>

type_synonym select_option = "string \<times> string \<times> nat"

record 'w browser =
  document :: "'w st \<Rightarrow> dom"
  findNode :: "target \<Rightarrow> int \<Rightarrow> ('w, node option) act"
  findNodes :: "target \<Rightarrow> int \<Rightarrow> ('w, node list) act"
  dateNow :: "'w st \<Rightarrow> int"
  innerHtml :: "'w st \<Rightarrow> node \<Rightarrow> string"
  outerHtml :: "'w st \<Rightarrow> node \<Rightarrow> string"
  documentHtml :: "'w st \<Rightarrow> string"
  cssProperty :: "'w st \<Rightarrow> node \<Rightarrow> string \<Rightarrow> string"
  childElementCount :: "'w st \<Rightarrow> node \<Rightarrow> nat"
  isDisabled :: "'w st \<Rightarrow> node \<Rightarrow> bool"
  hasForm :: "'w st \<Rightarrow> node \<Rightarrow> bool"
  inputType :: "'w st \<Rightarrow> node \<Rightarrow> string"
  inputValue :: "'w st \<Rightarrow> node \<Rightarrow> string"
  isChecked :: "'w st \<Rightarrow> node \<Rightarrow> bool"
  selectOptions :: "'w st \<Rightarrow> node \<Rightarrow> select_option list"
  activeElement :: "'w st \<Rightarrow> node option"
  hostName :: "'w st \<Rightarrow> string"
  referrer :: "'w st \<Rightarrow> string"
  userAgent :: "'w st \<Rightarrow> string"
  innerHeight :: "'w st \<Rightarrow> rat"
  innerWidth :: "'w st \<Rightarrow> rat"
  scrollY :: "'w st \<Rightarrow> rat"
  scrollHeight :: "'w st \<Rightarrow> rat"
  lastMouse :: "'w st \<Rightarrow> (rat \<times> rat) option"
  circuitBreakers :: "'w st \<Rightarrow> jval"
  storageItem :: "'w st \<Rightarrow> string \<Rightarrow> string option"
  urlProtocol :: "string \<Rightarrow> string \<Rightarrow> string option"
  urlHref :: "string \<Rightarrow> string \<Rightarrow> string option"
  schemaErrors :: "jval \<Rightarrow> jval \<Rightarrow> exn + string option"
  dispatchEvent :: "node option \<Rightarrow> dom_event \<Rightarrow> ('w, unit) run"
  setValue :: "node \<Rightarrow> string \<Rightarrow> ('w, unit) run"
  clickNode :: "node \<Rightarrow> ('w, unit) run"
  focusNode :: "node \<Rightarrow> ('w, unit) run"
  blurNode :: "node \<Rightarrow> ('w, unit) run"
  setFiles :: "node \<Rightarrow> string list \<Rightarrow> ('w, unit) run"
  setStyle :: "node \<Rightarrow> jobj \<Rightarrow> ('w, unit) run"
  removeNode :: "node \<Rightarrow> ('w, unit) run"
  scrollNodeBy :: "node option \<Rightarrow> rat \<Rightarrow> rat \<Rightarrow> ('w, unit) run"
  scrollWindowTo :: "rat \<Rightarrow> ('w, unit) run"
  scrollNodeIntoView :: "node \<Rightarrow> jval \<Rightarrow> ('w, unit) run"
  setLastMouse :: "rat \<times> rat \<Rightarrow> ('w, unit) run"
  setCircuitBreakers :: "jval \<Rightarrow> ('w, unit) run"
  setStorageItem :: "string \<Rightarrow> string \<Rightarrow> ('w, unit) run"
  assignLocation :: "string \<Rightarrow> ('w, unit) run"
  reloadPage :: "('w, unit) run"
  screenshot :: "string \<Rightarrow> ('w, jval) run"
  goBack :: "('w, unit) run option"
  goForward :: "('w, unit) run option"
  setViewport :: "(jval \<Rightarrow> ('w, unit) run) option"

text \<open>Everything a handler is run with\<close>

record 'w host =
  env_of :: "'w env"
  browser_of :: "'w browser"
  js_of :: js_host


section \<open>Fields\<close>

definition num_of :: "jval \<Rightarrow> rat" where
  "num_of v = (case v of JNum (Fin r) \<Rightarrow> r | _ \<Rightarrow> 0)"

definition num_field :: "action \<Rightarrow> string \<Rightarrow> rat \<Rightarrow> rat" where
  "num_field a k d = (if is_nullish (leafField a k) then d else num_of (leafField a k))"

definition str_field :: "action \<Rightarrow> string \<Rightarrow> string \<Rightarrow> string" where
  "str_field a k d = (if is_nullish (leafField a k) then d else js_String (leafField a k))"

definition timeout_or :: "int \<Rightarrow> action \<Rightarrow> int" where
  "timeout_or d a = (case timeout (base a) of None \<Rightarrow> d | Some t \<Rightarrow> t)"

definition nested_steps :: "action \<Rightarrow> string \<Rightarrow> action list option" where
  "nested_steps a k = (case a of Leaf _ _ _ ns \<Rightarrow> map_of ns k | _ \<Rightarrow> None)"

definition interpA :: "jval \<Rightarrow> ('w, jval) act" where
  "interpA v = liftA (interp v)"

definition set_extracted :: "action \<Rightarrow> jval \<Rightarrow> ('w, jval) act" where
  "set_extracted a v = liftA (thenR (modifyCtx (\<lambda>c. c\<lparr>extracted := al_set (js_String (leafField a ''name'')) v (extracted c)\<rparr>)) (returnR v))"

definition done_undefined :: "('w, unit) act \<Rightarrow> ('w, jval) act" where
  "done_undefined m = bindA m (\<lambda>_. returnA JUndef)"


section \<open>Elements\<close>

text \<open>\<open>interpolate(resolveSelectorAlias(action.k, ctx.variables.__selectors), ctx)\<close>\<close>

definition target_field :: "action \<Rightarrow> string \<Rightarrow> ('w, target) act" where
  "target_field a k =
     (case leafField a k of
        JObj fs \<Rightarrow> liftA (resolve_target fs)
      | v \<Rightarrow> if is_nullish v then throwA (type_error ''Cannot read properties of undefined'') else returnA [])"

definition json_or_undefined :: "jval \<Rightarrow> string" where
  "json_or_undefined v = (case json_text v of None \<Rightarrow> ''undefined'' | Some x \<Rightarrow> x)"

definition elementNotFound :: "target \<Rightarrow> exn" where
  "elementNotFound t = Error (''ElementNotFound: '' @ json_or_undefined (JObj t))"

definition elementDisabled :: "target \<Rightarrow> exn" where
  "elementDisabled t = Error (''ElementDisabled: '' @ json_or_undefined (JObj t))"

definition require_node :: "'w host \<Rightarrow> target \<Rightarrow> int \<Rightarrow> ('w, node) act" where
  "require_node h t ms =
     bindA (findNode (browser_of h) t ms) (\<lambda>n. case n of None \<Rightarrow> throwA (elementNotFound t) | Some el \<Rightarrow> returnA el)"

text \<open>The element of \<open>action.target\<close>, found or \<open>ElementNotFound\<close>\<close>

definition target_node :: "'w host \<Rightarrow> action \<Rightarrow> int \<Rightarrow> ('w, node) act" where
  "target_node h a ms = bindA (target_field a ''target'') (\<lambda>t. require_node h t ms)"

definition FORM_CONTROLS :: "string list" where
  "FORM_CONTROLS = [''button'', ''input'', ''select'', ''textarea'', ''option'', ''optgroup'', ''fieldset'']"

definition isDisabledFormControl :: "'w host \<Rightarrow> node \<Rightarrow> 'w st \<Rightarrow> bool" where
  "isDisabledFormControl h el s \<longleftrightarrow>
     js_toLowerCase (tagNameOf (document (browser_of h) s) el) \<in> set FORM_CONTROLS \<and> isDisabled (browser_of h) s el"

definition elementMayNavigate :: "'w host \<Rightarrow> node \<Rightarrow> 'w st \<Rightarrow> bool" where
  "elementMayNavigate h el s =
     (let d = document (browser_of h) s; tag = js_toLowerCase (tagNameOf d el) in
      if tag = ''a'' then
        (case attributeOf d el ''href'' of None \<Rightarrow> False | Some r \<Rightarrow> r \<noteq> ''#'' \<and> \<not> js_startsWith r ''javascript:'')
      else if tag = ''input'' then inputType (browser_of h) s el \<in> {''submit'', ''image''} \<and> hasForm (browser_of h) s el
      else if tag = ''button'' then
        (case map_option js_toLowerCase (attributeOf d el ''type'') of
           None \<Rightarrow> False | Some t \<Rightarrow> (t = ''submit'' \<or> t = []) \<and> hasForm (browser_of h) s el)
      else False)"


section \<open>Time and chance\<close>

definition pause :: "'w host \<Rightarrow> rat \<Rightarrow> ('w, unit) act" where
  "pause h r = liftA (sleepMs (env_of h) (if 0 \<le> r then \<lfloor>r\<rfloor> else \<lceil>r\<rceil>))"

definition draw :: "'w host \<Rightarrow> ('w, rat) act" where
  "draw h = liftA (random (env_of h))"

text \<open>\<open>Math.floor(range[0] + Math.random() * (range[1] - range[0]))\<close>\<close>

definition random_between :: "'w host \<Rightarrow> jval \<Rightarrow> ('w, rat) act" where
  "random_between h bounds =
     bindA (draw h)
       (\<lambda>r. let lo = num_of (get_prop bounds ''0''); hi = num_of (get_prop bounds ''1'')
            in returnA (of_int \<lfloor>lo + r * (hi - lo)\<rfloor>))"

text \<open>\<open>Array.isArray(ms) ? randomBetween(ms) : ms\<close>\<close>

definition duration_of :: "'w host \<Rightarrow> jval \<Rightarrow> ('w, rat) act" where
  "duration_of h v = (if is_array v then random_between h v else returnA (num_of v))"

text \<open>\<open>(Math.random() - 0.5) * width\<close>\<close>

definition jitter :: "'w host \<Rightarrow> rat \<Rightarrow> ('w, rat) act" where
  "jitter h width = bindA (draw h) (\<lambda>r. returnA ((r - 1 / 2) * width))"

definition waitForUrlChange :: "'w host \<Rightarrow> string \<Rightarrow> int \<Rightarrow> ('w, bool) act" where
  "waitForUrlChange h startUrl timeoutMs =
     (\<lambda>s. bindA
        (poll (before (nowMs (env_of h)) (nowMs (env_of h) s) timeoutMs)
          (\<lambda>u. bindA (readA (getUrl (env_of h)))
             (\<lambda>url. if url \<noteq> startUrl then returnA (Inr True) else thenA (pause h 100) (returnA (Inl u)))) ())
        (\<lambda>r. returnA (case r of Inr b \<Rightarrow> b | Inl _ \<Rightarrow> False)) s)"


section \<open>The mouse\<close>

definition rect_of :: "'w host \<Rightarrow> node \<Rightarrow> 'w st \<Rightarrow> dom_rect" where
  "rect_of h el s =
     (case rectOf (document (browser_of h) s) el of
        Some r \<Rightarrow> r | None \<Rightarrow> \<lparr>rectLeft = 0, rectTop = 0, rectWidth = 0, rectHeight = 0\<rparr>)"

definition rect_centre :: "dom_rect \<Rightarrow> rat \<times> rat" where
  "rect_centre r = (rectLeft r + rectWidth r / 2, rectTop r + rectHeight r / 2)"

definition fire :: "'w host \<Rightarrow> node option \<Rightarrow> dom_event \<Rightarrow> ('w, unit) act" where
  "fire h el e = liftA (dispatchEvent (browser_of h) el e)"

definition button_number :: "string \<Rightarrow> nat" where
  "button_number b = (if b = ''left'' then 0 else if b = ''middle'' then 1 else 2)"

definition mouse_at :: "'w host \<Rightarrow> node \<Rightarrow> string \<Rightarrow> string \<Rightarrow> rat \<Rightarrow> rat \<Rightarrow> ('w, unit) act" where
  "mouse_at h el type' button x y =
     thenA (fire h (Some el) (MouseEv type' (button_number button) (if type' = ''mouseup'' then 0 else 1) x y))
       (liftA (setLastMouse (browser_of h) (x, y)))"

text \<open>\<open>dispatchMouseEvent\<close> without coordinates: near the centre of the element\<close>

definition dispatchMouseEvent :: "'w host \<Rightarrow> node \<Rightarrow> string \<Rightarrow> string \<Rightarrow> ('w, unit) act" where
  "dispatchMouseEvent h el type' button =
     bindA (readA (rect_of h el))
       (\<lambda>r. bindA (jitter h 4) (\<lambda>dx. bindA (jitter h 4)
         (\<lambda>dy. mouse_at h el type' button (fst (rect_centre r) + dx) (snd (rect_centre r) + dy))))"

definition dispatchMouseMove :: "'w host \<Rightarrow> rat \<Rightarrow> rat \<Rightarrow> ('w, unit) act" where
  "dispatchMouseMove h x y =
     thenA (fire h None (MouseEv ''mousemove'' 0 0 x y)) (liftA (setLastMouse (browser_of h) (x, y)))"

text \<open>\<open>for (let i = 0; i <= steps; i++)\<close>: moves to \<open>point t\<close> at \<open>t = i / steps\<close>, each followed by a pause\<close>

definition move_along :: "'w host \<Rightarrow> nat \<Rightarrow> rat \<Rightarrow> (rat \<Rightarrow> ('w, rat \<times> rat) act) \<Rightarrow> ('w, unit) act" where
  "move_along h n ms point =
     eachA (\<lambda>i. bindA (point (of_nat i / of_nat n))
              (\<lambda>(x, y). thenA (dispatchMouseMove h x y) (pause h ms))) [0..<Suc n]"

definition between :: "rat \<Rightarrow> rat \<Rightarrow> rat \<Rightarrow> rat" where
  "between a b t = a + (b - a) * t"

text \<open>A point of the straight line, shaken by up to half of \<open>wobble\<close> on each side\<close>

definition shaken :: "'w host \<Rightarrow> rat \<Rightarrow> rat \<times> rat \<Rightarrow> rat \<times> rat \<Rightarrow> rat \<Rightarrow> ('w, rat \<times> rat) act" where
  "shaken h wobble p q t =
     bindA (jitter h wobble) (\<lambda>dx. bindA (jitter h wobble)
       (\<lambda>dy. returnA (between (fst p) (fst q) t + dx, between (snd p) (snd q) t + dy)))"

definition cubicBezier :: "rat \<Rightarrow> rat \<Rightarrow> rat \<Rightarrow> rat \<Rightarrow> rat \<Rightarrow> rat" where
  "cubicBezier p0 p1 p2 p3 t =
     (let c = 3 * (p1 - p0); b = 3 * (p2 - p1) - c; a = p3 - p0 - c - b in a * t * t * t + b * t * t + c * t + p0)"


section \<open>Human pace\<close>

definition resolveHumanize :: "action \<Rightarrow> runtime_context \<Rightarrow> jval" where
  "resolveHumanize a c =
     (let ruleH = (case Option.bind (ruleDefaults c) defHumanize of None \<Rightarrow> JUndef | Some h \<Rightarrow> h);
          stepH = leafField a ''humanize''
      in if \<not> truthy ruleH then stepH else if \<not> truthy stepH then ruleH
         else JObj (al_merge (spread_of ruleH) (spread_of stepH)))"

definition humanize_field :: "action \<Rightarrow> string \<Rightarrow> 'w st \<Rightarrow> jval" where
  "humanize_field a k s = safe_prop (resolveHumanize a (fst s)) k"

definition randomOffset :: "'w host \<Rightarrow> jval \<Rightarrow> ('w, rat) act" where
  "randomOffset h off =
     (if off = JUndef then returnA 0
      else jitter h (case off of JNum (Fin r) \<Rightarrow> r | _ \<Rightarrow> num_of (safe_prop off ''x'')))"

definition pause_range :: "'w host \<Rightarrow> jval \<Rightarrow> ('w, unit) act" where
  "pause_range h bounds = (if truthy bounds then bindA (random_between h bounds) (pause h) else returnA ())"

definition humanizeBefore :: "'w host \<Rightarrow> action \<Rightarrow> node option \<Rightarrow> ('w, unit) act" where
  "humanizeBefore h a el =
     bindA (readA (\<lambda>s. (humanize_field a ''preDelay'' s, truthy (humanize_field a ''moveMouse'' s), humanize_field a ''randomOffset'' s)))
       (\<lambda>(pre, move, off). thenA (pause_range h pre)
         (case el of
            None \<Rightarrow> returnA ()
          | Some n \<Rightarrow>
              whenA move
                (bindA (readA (\<lambda>s. (rect_centre (rect_of h n s))))
                  (\<lambda>c. bindA (randomOffset h off) (\<lambda>dx. bindA (randomOffset h off)
                    (\<lambda>dy. let q = (fst c + dx, snd c + dy) in
                      bindA (readA (\<lambda>s. case lastMouse (browser_of h) s of None \<Rightarrow> q | Some p \<Rightarrow> p))
                        (\<lambda>p. move_along h 10 16 (shaken h 5 p q))))))))"

definition humanizeAfter :: "'w host \<Rightarrow> action \<Rightarrow> ('w, unit) act" where
  "humanizeAfter h a = bindA (readA (humanize_field a ''postDelay'')) (pause_range h)"

end
