(* ===== verification/Handlers_Input.thy ===== *)
theory Handlers_Input
  imports Browser
begin

text \<open>The mouse, keyboard and form actions of \<open>src/scriptcat-engine/actions/index.ts\<close>.\<close>

section \<open>Clicks\<close>

definition click_navigation :: "'w host \<Rightarrow> action \<Rightarrow> string \<Rightarrow> ('w, unit) act" where
  "click_navigation h a startUrl =
     bindA (waitForUrlChange h startUrl (\<lfloor>num_field a ''navigationTimeout'' 5000\<rfloor>)) (\<lambda>_. returnA ())"

definition handleClick :: "'w host \<Rightarrow> action \<Rightarrow> ('w, jval) act" where
  "handleClick h a =
     bindA (target_field a ''target'') (\<lambda>t. bindA (require_node h t (timeout_or 5000 a))
       (\<lambda>el. bindA (readA (isDisabledFormControl h el)) (\<lambda>dis.
          if dis then throwA (elementDisabled t)
          else thenA (humanizeBefore h a (Some el)) (bindA (readA (getUrl (env_of h)))
            (\<lambda>startUrl. let button = str_field a ''button'' ''left'' in
               thenA (dispatchMouseEvent h el ''mousedown'' button) (thenA (pause h 50)
              (thenA (dispatchMouseEvent h el ''mouseup'' button) (thenA (dispatchMouseEvent h el ''click'' button)
              (bindA (readA (elementMayNavigate h el))
                (\<lambda>nav. thenA (whenA nav (click_navigation h a startUrl))
                   (done_undefined (humanizeAfter h a))))))))))))"

text \<open>The clicks that dispatch one event\<close>

definition one_event_click :: "'w host \<Rightarrow> action \<Rightarrow> string \<Rightarrow> string \<Rightarrow> ('w, jval) act" where
  "one_event_click h a type' button =
     bindA (target_node h a (timeout_or 5000 a))
       (\<lambda>el. thenA (humanizeBefore h a None) (thenA (dispatchMouseEvent h el type' button) (done_undefined (humanizeAfter h a))))"

definition handleDoubleClick :: "'w host \<Rightarrow> action \<Rightarrow> ('w, jval) act" where
  "handleDoubleClick h a = one_event_click h a ''dblclick'' (str_field a ''button'' ''left'')"

definition handleRightClick :: "'w host \<Rightarrow> action \<Rightarrow> ('w, jval) act" where
  "handleRightClick h a = one_event_click h a ''contextmenu'' ''right''"

definition handleMiddleClick :: "'w host \<Rightarrow> action \<Rightarrow> ('w, jval) act" where
  "handleMiddleClick h a = one_event_click h a ''click'' ''middle''"

definition handleHover :: "'w host \<Rightarrow> action \<Rightarrow> ('w, jval) act" where
  "handleHover h a =
     bindA (target_node h a (timeout_or 5000 a))
       (\<lambda>el. thenA (humanizeBefore h a None) (thenA (dispatchMouseEvent h el ''mouseover'' ''left'')
         (thenA (dispatchMouseEvent h el ''mouseenter'' ''left'')
         (thenA (whenA (truthy (leafField a ''duration'')) (bindA (duration_of h (leafField a ''duration'')) (pause h)))
         (thenA (dispatchMouseEvent h el ''mouseout'' ''left'') (done_undefined (humanizeAfter h a)))))))"

text \<open>
  \<open>while (Date.now() - start < limit) { \<dots> look at the page \<dots>; await env.sleep(gap); }\<close>
\<close>

definition wait_for :: "'w host \<Rightarrow> int \<Rightarrow> ('w, 'a option) act \<Rightarrow> rat \<Rightarrow> ('w, 'a option) act" where
  "wait_for h limit look gap =
     (\<lambda>s. bindA
        (poll (before (dateNow (browser_of h)) (dateNow (browser_of h) s) limit)
          (\<lambda>u. bindA look (\<lambda>r. case r of Some x \<Rightarrow> returnA (Inr x) | None \<Rightarrow> thenA (pause h gap) (returnA (Inl u)))) ())
        (\<lambda>r. returnA (case r of Inr x \<Rightarrow> Some x | Inl _ \<Rightarrow> None)) s)"

definition handleHoverClick :: "'w host \<Rightarrow> action \<Rightarrow> ('w, jval) act" where
  "handleHoverClick h a =
     bindA (target_field a ''hoverTarget'') (\<lambda>ht. bindA (target_field a ''clickTarget'')
       (\<lambda>ct. bindA (require_node h ht (timeout_or 5000 a))
         (\<lambda>hel. thenA (dispatchMouseEvent h hel ''mouseover'' ''left'')
           (thenA (dispatchMouseEvent h hel ''mouseenter'' ''left'')
           (bindA (wait_for h \<lfloor>num_field a ''menuAppearTimeout'' 1000\<rfloor> (findNode (browser_of h) ct 200) 100)
             (\<lambda>r. case r of
                None \<Rightarrow> throwA (elementNotFound ct)
              | Some cel \<Rightarrow> thenA (humanizeBefore h a None) (thenA (dispatchMouseEvent h cel ''click'' ''left'')
                               (done_undefined (humanizeAfter h a)))))))))"


section \<open>Movement\<close>

definition mouse_point :: "string \<Rightarrow> 'w host \<Rightarrow> rat \<times> rat \<Rightarrow> rat \<times> rat \<Rightarrow> rat \<Rightarrow> ('w, rat \<times> rat) act" where
  "mouse_point path h p q t =
     (if path = ''linear'' then returnA (between (fst p) (fst q) t, between (snd p) (snd q) t)
      else if path = ''bezier'' then
        returnA (cubicBezier (fst p) (between (fst p) (fst q) (1 / 5)) (between (fst p) (fst q) (4 / 5)) (fst q) t,
                 cubicBezier (snd p) (between (snd p) (snd q) (4 / 5)) (between (snd p) (snd q) (1 / 5)) (snd q) t)
      else shaken h 10 p q t)"

text \<open>\<open>Math.max(least, Math.floor(durationMs / 16))\<close>\<close>

definition move_steps :: "nat \<Rightarrow> rat \<Rightarrow> nat" where
  "move_steps least ms = nat (max (int least) \<lfloor>ms / 16\<rfloor>)"

definition move_end :: "'w host \<Rightarrow> action \<Rightarrow> ('w, rat \<times> rat) act" where
  "move_end h a =
     (case leafField a ''to'' of
        JObj fs \<Rightarrow>
          if obj_has fs ''x'' then returnA (num_of (obj_get fs ''x''), num_of (obj_get fs ''y''))
          else bindA (target_field a ''to'') (\<lambda>t. bindA (require_node h t (timeout_or 5000 a))
                 (\<lambda>el. readA (\<lambda>s. rect_centre (rect_of h el s))))
      | _ \<Rightarrow> throwA (type_error ''Cannot use in operator to search for x in a non-object''))"

definition handleMoveMouse :: "'w host \<Rightarrow> action \<Rightarrow> ('w, jval) act" where
  "handleMoveMouse h a =
     bindA (move_end h a)
       (\<lambda>q. bindA (readA (\<lambda>s. case lastMouse (browser_of h) s of None \<Rightarrow> q | Some p \<Rightarrow> p))
         (\<lambda>p. bindA (duration_of h (coalesce (leafField a ''duration'') (jint 500)))
           (\<lambda>ms. let n = move_steps 10 ms in
              thenA (move_along h n (ms / of_nat n) (mouse_point (str_field a ''path'' ''bezier'') h p q))
                (done_undefined (liftA (setLastMouse (browser_of h) q))))))"

definition handlePressAndHold :: "'w host \<Rightarrow> action \<Rightarrow> ('w, jval) act" where
  "handlePressAndHold h a =
     bindA (target_node h a (timeout_or 5000 a))
       (\<lambda>el. let button = str_field a ''button'' ''left'' in
         thenA (dispatchMouseEvent h el ''mousedown'' button)
           (bindA (duration_of h (coalesce (leafField a ''duration'') (jint 2000)))
             (\<lambda>ms. thenA (pause h ms) (done_undefined (dispatchMouseEvent h el ''mouseup'' button)))))"

definition drag_wobble :: "action \<Rightarrow> 'w st \<Rightarrow> rat" where
  "drag_wobble a s = num_of (coalesce (humanize_field a ''wobble'' s) (jint 0))"

definition default_pair :: "int \<Rightarrow> int \<Rightarrow> jval" where
  "default_pair lo hi = JArr [jint lo, jint hi]"

text \<open>Press at \<open>p\<close> on \<open>el\<close>, and move to \<open>q\<close> along \<open>point\<close>\<close>

definition drag :: "'w host \<Rightarrow> node \<Rightarrow> rat \<Rightarrow> rat \<times> rat \<Rightarrow> (rat \<Rightarrow> ('w, rat \<times> rat) act) \<Rightarrow> ('w, unit) act" where
  "drag h el ms p point =
     (let n = move_steps 15 ms in
      thenA (mouse_at h el ''mousedown'' ''left'' (fst p) (snd p)) (thenA (pause h 100) (move_along h n (ms / of_nat n) point)))"

definition handleDragAndDrop :: "'w host \<Rightarrow> action \<Rightarrow> ('w, jval) act" where
  "handleDragAndDrop h a =
     bindA (target_field a ''source'') (\<lambda>st. bindA (target_field a ''target'') (\<lambda>tt.
       bindA (findNode (browser_of h) st (timeout_or 5000 a)) (\<lambda>src.
       bindA (findNode (browser_of h) tt (timeout_or 5000 a)) (\<lambda>tgt.
         case (src, tgt) of
           (None, _) \<Rightarrow> throwA (elementNotFound st)
         | (Some _, None) \<Rightarrow> throwA (elementNotFound tt)
         | (Some sel, Some tel) \<Rightarrow>
             bindA (duration_of h (coalesce (leafField a ''duration'') (default_pair 800 1500)))
               (\<lambda>ms. bindA (readA (\<lambda>s. (drag_wobble a s, rect_centre (rect_of h sel s), rect_centre (rect_of h tel s))))
                 (\<lambda>(wobble, p, q). thenA (drag h sel ms p (shaken h wobble p q))
                   (thenA (mouse_at h tel ''mouseup'' ''left'' (fst q) (snd q))
                     (done_undefined (mouse_at h tel ''drop'' ''left'' (fst q) (snd q))))))))))"

definition handleDragBy :: "'w host \<Rightarrow> action \<Rightarrow> ('w, jval) act" where
  "handleDragBy h a =
     bindA (target_field a ''source'') (\<lambda>st. bindA (require_node h st (timeout_or 5000 a))
       (\<lambda>el. bindA (readA (\<lambda>s. (drag_wobble a s, rect_centre (rect_of h el s))))
         (\<lambda>(wobble, p). let delta = leafField a ''delta'';
              q = (fst p + num_of (safe_prop delta ''x''), snd p + num_of (safe_prop delta ''y'')) in
            bindA (duration_of h (coalesce (leafField a ''duration'') (default_pair 500 1000)))
              (\<lambda>ms. thenA (drag h el ms p (shaken h wobble p q))
                 (done_undefined (mouse_at h el ''mouseup'' ''left'' (fst q) (snd q)))))))"

definition handleSlide :: "'w host \<Rightarrow> action \<Rightarrow> ('w, jval) act" where
  "handleSlide h a =
     bindA (target_node h a (timeout_or 5000 a))
       (\<lambda>el. bindA (readA (\<lambda>s. rect_centre (rect_of h el s)))
         (\<lambda>p. let dist = num_field a ''distance'' 200; dir = leafField a ''direction'';
                  q = (if dir = JStr ''left'' then fst p - dist else if dir = JStr ''right'' then fst p + dist else fst p,
                       if dir = JStr ''up'' then snd p - dist else if dir = JStr ''down'' then snd p + dist else snd p) in
            bindA (duration_of h (coalesce (leafField a ''duration'') (default_pair 800 1500)))
              (\<lambda>ms. thenA (drag h el ms p (\<lambda>t. returnA (between (fst p) (fst q) t, between (snd p) (snd q) t)))
                 (done_undefined (mouse_at h el ''mouseup'' ''left'' (fst q) (snd q))))))"


section \<open>Forms\<close>

definition type_char :: "'w host \<Rightarrow> node \<Rightarrow> jval \<Rightarrow> char \<Rightarrow> ('w, unit) act" where
  "type_char h el gap c =
     bindA (readA (\<lambda>s. inputValue (browser_of h) s el))
       (\<lambda>v. thenA (liftA (setValue (browser_of h) el (v @ [c])))
         (thenA (fire h (Some el) (PlainEv ''input'')) (thenA (fire h (Some el) (PlainEv ''keyup''))
           (pause_range h gap))))"

definition handleType :: "'w host \<Rightarrow> action \<Rightarrow> ('w, jval) act" where
  "handleType h a =
     bindA (target_node h a (timeout_or 5000 a))
       (\<lambda>el. bindA (interpA (leafField a ''value''))
         (\<lambda>v. thenA (whenA (\<not> truthy (leafField a ''append'')) (liftA (setValue (browser_of h) el [])))
           (thenA (humanizeBefore h a None) (thenA (liftA (focusNode (browser_of h) el))
           (bindA (readA (humanize_field a ''typingDelay''))
             (\<lambda>gap. thenA (eachA (type_char h el gap) (js_String v))
               (thenA (whenA (truthy (leafField a ''submit''))
                   (bindA (readA (getUrl (env_of h)))
                     (\<lambda>startUrl. thenA (fire h (Some el) (KeyEv ''keydown'' ''Enter'' False)) (click_navigation h a startUrl))))
                 (done_undefined (humanizeAfter h a)))))))))"

definition handleClear :: "'w host \<Rightarrow> action \<Rightarrow> ('w, jval) act" where
  "handleClear h a =
     bindA (target_node h a (timeout_or 5000 a))
       (\<lambda>el. thenA (liftA (setValue (browser_of h) el [])) (done_undefined (fire h (Some el) (PlainEv ''input''))))"

definition option_matches :: "js_host \<Rightarrow> string \<Rightarrow> jval \<Rightarrow> select_option \<Rightarrow> bool" where
  "option_matches js by' v opt =
     (case opt of (val, txt, i) \<Rightarrow>
        loose_eq js (if by' = ''value'' then JStr val else if by' = ''text'' then JStr txt else jint (int i)) v)"

definition handleSelect :: "'w host \<Rightarrow> action \<Rightarrow> ('w, jval) act" where
  "handleSelect h a =
     bindA (target_node h a (timeout_or 5000 a))
       (\<lambda>el. bindA (interpA (leafField a ''value''))
         (\<lambda>v. bindA (readA (\<lambda>s. find (option_matches (js_of h) (str_field a ''by'' ''value'') v) (selectOptions (browser_of h) s el)))
           (\<lambda>r. case r of
              None \<Rightarrow> returnA JUndef
            | Some opt \<Rightarrow> thenA (liftA (setValue (browser_of h) el (fst opt)))
                (done_undefined (fire h (Some el) (PlainEv ''change''))))))"

definition handleCheck :: "'w host \<Rightarrow> action \<Rightarrow> ('w, jval) act" where
  "handleCheck h a =
     bindA (target_node h a (timeout_or 5000 a))
       (\<lambda>el. bindA (interpA (leafField a ''state''))
         (\<lambda>st. bindA (readA (\<lambda>s. isChecked (browser_of h) s el))
           (\<lambda>now. let desired = (if st = JStr ''toggle'' then \<not> now else truthy st) in
              done_undefined (whenA (now \<noteq> desired) (liftA (clickNode (browser_of h) el))))))"

definition handleSelectRadio :: "'w host \<Rightarrow> action \<Rightarrow> ('w, jval) act" where
  "handleSelectRadio h a =
     bindA (target_node h a (timeout_or 5000 a))
       (\<lambda>el. bindA (readA (\<lambda>s. isChecked (browser_of h) s el))
         (\<lambda>now. done_undefined (whenA (\<not> now) (liftA (clickNode (browser_of h) el)))))"

definition handlePaste :: "'w host \<Rightarrow> action \<Rightarrow> ('w, jval) act" where
  "handlePaste h a =
     bindA (target_node h a (timeout_or 5000 a))
       (\<lambda>el. bindA (interpA (leafField a ''value''))
         (\<lambda>v. thenA (liftA (focusNode (browser_of h) el))
           (thenA (whenA (truthy (leafField a ''simulateClipboard'')) (fire h (Some el) PasteEv))
           (thenA (liftA (setValue (browser_of h) el (js_String v)))
           (thenA (fire h (Some el) (PlainEv ''input'')) (done_undefined (fire h (Some el) (PlainEv ''change''))))))))"

definition suggestion_matches :: "string \<Rightarrow> string \<Rightarrow> string \<Rightarrow> bool" where
  "suggestion_matches matchBy v text =
     (if matchBy = ''text'' then text = v else if matchBy = ''startsWith'' then js_startsWith text v else js_includes text v)"

definition pick_suggestion :: "'w host \<Rightarrow> action \<Rightarrow> string \<Rightarrow> ('w, node option) act" where
  "pick_suggestion h a v =
     (\<lambda>s. let d = document (browser_of h) s; sel = js_String (leafField a ''suggestionSelector'') in
        case querySelectorAll d (documentNode d) sel of
          None \<Rightarrow> throwA (JsError ''SyntaxError'' (''invalid selector: '' @ sel)) s
        | Some els \<Rightarrow>
            (case find (\<lambda>e. suggestion_matches (str_field a ''matchBy'' ''contains'') v (js_trim (text_content d e))) els of
               None \<Rightarrow> returnA None s
             | Some e \<Rightarrow> thenA (liftA (clickNode (browser_of h) e)) (returnA (Some e)) s))"

definition handleTypeAndSelect :: "'w host \<Rightarrow> action \<Rightarrow> ('w, jval) act" where
  "handleTypeAndSelect h a =
     bindA (target_node h a (timeout_or 5000 a))
       (\<lambda>el. bindA (interpA (leafField a ''value''))
         (\<lambda>v. thenA (liftA (focusNode (browser_of h) el)) (thenA (liftA (setValue (browser_of h) el (js_String v)))
           (thenA (fire h (Some el) (PlainEv ''input''))
           (bindA (wait_for h \<lfloor>num_field a ''waitForSuggestions'' 1000\<rfloor> (pick_suggestion h a (js_String v)) 200)
             (\<lambda>r. case r of
                Some _ \<Rightarrow> returnA JUndef
              | None \<Rightarrow> throwA (Error (''typeAndSelect: no suggestion matched for '' @ quoted (js_String v)))))))))"

definition handleUploadFile :: "'w host \<Rightarrow> action \<Rightarrow> ('w, jval) act" where
  "handleUploadFile h a =
     bindA (target_node h a (timeout_or 5000 a))
       (\<lambda>el. done_undefined
         (catchA
           (bindA (case leafField a ''files'' of
                JArr fs \<Rightarrow> returnA (map js_String fs) | _ \<Rightarrow> throwA (type_error ''action.files.map is not a function''))
              (\<lambda>fs. thenA (liftA (setFiles (browser_of h) el fs)) (fire h (Some el) (PlainEv ''change''))))
           (\<lambda>e. liftA (sendLog (env_of h) ''warn'' ''uploadFile: browser blocked setting input.files''
                        (Some [(''error'', JStr (exn_message e))])))))"

definition handleFocus :: "'w host \<Rightarrow> action \<Rightarrow> ('w, jval) act" where
  "handleFocus h a = bindA (target_node h a (timeout_or 5000 a)) (\<lambda>el. done_undefined (liftA (focusNode (browser_of h) el)))"

definition handleBlur :: "'w host \<Rightarrow> action \<Rightarrow> ('w, jval) act" where
  "handleBlur h a =
     bindA (if truthy (leafField a ''target'')
            then bindA (target_field a ''target'') (\<lambda>t. findNode (browser_of h) t (timeout_or 5000 a))
            else readA (activeElement (browser_of h)))
       (\<lambda>n. case n of None \<Rightarrow> returnA JUndef | Some el \<Rightarrow> done_undefined (liftA (blurNode (browser_of h) el)))"


section \<open>Keys\<close>

definition key_event :: "'w host \<Rightarrow> string \<Rightarrow> string \<Rightarrow> bool \<Rightarrow> ('w, unit) act" where
  "key_event h type' key shift = fire h None (KeyEv type' key shift)"

definition flat_keys :: "jval \<Rightarrow> string list" where
  "flat_keys v =
     map js_String
       (let ks = array_or_empty v in
        if ks \<noteq> [] \<and> is_array (hd ks) then concat (map (\<lambda>k. case k of JArr vs \<Rightarrow> vs | _ \<Rightarrow> [k]) ks) else ks)"

definition handlePressKey :: "'w host \<Rightarrow> action \<Rightarrow> ('w, jval) act" where
  "handlePressKey h a =
     bindA (readA (humanize_field a ''keyDuration''))
       (\<lambda>dur. done_undefined (eachA (\<lambda>key. thenA (key_event h ''keydown'' key False)
          (thenA (pause_range h dur) (key_event h ''keyup'' key False))) (flat_keys (leafField a ''keys''))))"

definition handleKeyCombination :: "'w host \<Rightarrow> action \<Rightarrow> ('w, jval) act" where
  "handleKeyCombination h a =
     (let keys = map js_String (array_or_empty (leafField a ''keys'')) in
      thenA (eachA (\<lambda>k. key_event h ''keydown'' k False) keys) (thenA (pause h 50)
        (done_undefined (eachA (\<lambda>k. key_event h ''keyup'' k False) (rev keys)))))"

definition handleTab :: "'w host \<Rightarrow> action \<Rightarrow> ('w, jval) act" where
  "handleTab h a =
     (let shift = (actionType a = ''tabToPrevious'') in
      done_undefined (eachA (\<lambda>i. thenA (key_event h ''keydown'' ''Tab'' shift)
         (thenA (key_event h ''keyup'' ''Tab'' shift) (pause h 100))) [0..<nat \<lceil>num_field a ''count'' 1\<rceil>]))"

end
