(* ===== verification/Handlers_Extract.thy ===== *)
theory Handlers_Extract
  imports Browser
begin

text \<open>The extractions of \<open>src/scriptcat-engine/actions/index.ts\<close>: fields, texts, attributes, tables,
  JSON and page information, written into the extracted data under the name of the action.\<close>

section \<open>A field of an element\<close>

definition query_first :: "dom \<Rightarrow> node \<Rightarrow> string \<Rightarrow> exn + node option" where
  "query_first d el sel =
     (case querySelectorAll d el sel of
        None \<Rightarrow> Inl (JsError ''SyntaxError'' (''invalid selector: '' @ sel))
      | Some els \<Rightarrow> Inr (case els of [] \<Rightarrow> None | x # _ \<Rightarrow> Some x))"

definition field_or :: "jval \<Rightarrow> string \<Rightarrow> jval \<Rightarrow> jval" where
  "field_or field k d = coalesce (get_prop field k) d"

definition regex_error :: "string \<Rightarrow> exn" where
  "regex_error m = JsError ''SyntaxError'' m"

definition applyTransform :: "js_host \<Rightarrow> jval \<Rightarrow> jval \<Rightarrow> exn + jval" where
  "applyTransform js v field =
     (case v of
        JStr s \<Rightarrow>
          if truthy (get_prop field ''regex'')
          then (case rxMatch js (js_String (get_prop field ''regex'')) s of
                  Inl m \<Rightarrow> Inl (regex_error m)
                | Inr (Some groups) \<Rightarrow> Inr (get_prop (JArr groups) ''0'')
                | Inr None \<Rightarrow> Inr (field_or field ''default'' (JStr [])))
          else Inr v
      | _ \<Rightarrow> Inr v)"

definition extractRegexField :: "js_host \<Rightarrow> string \<Rightarrow> jval \<Rightarrow> exn + jval" where
  "extractRegexField js s field =
     (case get_prop field ''regex'' of
        JStr p \<Rightarrow>
          if js_trim p = [] then Inl (Error ''ScriptError: regex extract field requires a non-empty pattern'')
          else (case rxMatch js p s of
                  Inl _ \<Rightarrow> Inl (Error ''ScriptError: regex extract field has an invalid pattern'')
                | Inr (Some groups) \<Rightarrow> Inr (get_prop (JArr groups) ''0'')
                | Inr None \<Rightarrow> Inr (field_or field ''default'' (JStr [])))
      | _ \<Rightarrow> Inl (Error ''ScriptError: regex extract field requires a non-empty pattern''))"

definition field_text :: "dom \<Rightarrow> node \<Rightarrow> jval \<Rightarrow> jval" where
  "field_text d el field =
     (case textOf d el of
        None \<Rightarrow> JUndef
      | Some x \<Rightarrow> JStr (if get_prop field ''trim'' \<noteq> JBool False then js_trim x else x))"

definition field_attr :: "'w host \<Rightarrow> 'w st \<Rightarrow> node \<Rightarrow> jval \<Rightarrow> exn + jval" where
  "field_attr h s el field =
     (let name = get_prop field ''attr'';
          v = (case attributeOf (document (browser_of h) s) el (js_String (coalesce name (JStr []))) of
                 Some x \<Rightarrow> JStr x | None \<Rightarrow> field_or field ''default'' JNull)
      in if truthy (get_prop field ''resolve'') \<and> truthy v \<and> (name = JStr ''href'' \<or> name = JStr ''src'')
         then (case urlHref (browser_of h) (js_String v) (getUrl (env_of h) s) of
                 None \<Rightarrow> Inl (type_error ''Invalid URL'')
               | Some u \<Rightarrow> applyTransform (js_of h) (JStr u) field)
         else applyTransform (js_of h) v field)"

text \<open>The value of a field that has no fields of its own\<close>

definition field_value :: "'w host \<Rightarrow> 'w st \<Rightarrow> node \<Rightarrow> jval \<Rightarrow> exn + jval" where
  "field_value h s el field =
     (let d = document (browser_of h) s; js = js_of h; ty = get_prop field ''type'' in
      if ty = JStr ''text'' then applyTransform js (coalesce (field_text d el field) (field_or field ''default'' (JStr []))) field
      else if ty = JStr ''html'' then Inr (JStr (innerHtml (browser_of h) s el))
      else if ty = JStr ''number'' then
        bind_sum (applyTransform js (JStr (text_content d el)) field)
          (\<lambda>v. Inr (coalesce (toNumber v) (field_or field ''default'' JNull)))
      else if ty = JStr ''boolean'' then Inr (JBool True)
      else if ty = JStr ''attr'' then field_attr h s el field
      else if ty = JStr ''css'' then
        Inr (JStr (cssProperty (browser_of h) s el (js_String (coalesce (get_prop field ''cssProperty'') (JStr [])))))
      else if ty = JStr ''json'' then
        bind_sum (parseExtractedJson js (js_trim (text_content d el)) ''extract field'')
          (\<lambda>v. bind_sum (if truthy (get_prop field ''path'') then getJsonPath v (js_String (get_prop field ''path'')) else Inr v)
            (\<lambda>r. Inr (if r = JUndef then field_or field ''default'' JNull else r)))
      else if ty = JStr ''regex'' then
        extractRegexField js (case field_text d el field of JStr x \<Rightarrow> x | _ \<Rightarrow> []) field
      else if ty = JStr ''exists'' then Inr (JBool True)
      else if ty = JStr ''count'' then Inr (jint (int (childElementCount (browser_of h) s el)))
      else Inr (case textOf d el of Some x \<Rightarrow> JStr (js_trim x) | None \<Rightarrow> field_or field ''default'' JNull))"

text \<open>The node a field is read from: the element itself, or the first match of the field's selector\<close>

definition field_node :: "'w host \<Rightarrow> 'w st \<Rightarrow> node \<Rightarrow> jval \<Rightarrow> exn + node option" where
  "field_node h s el field =
     (if \<not> truthy (get_prop field ''selector'') then Inr (Some el)
      else (case resolveSelectorAlias [(''selector'', get_prop field ''selector'')] (obj_get (variables (fst s)) ''__selectors'') of
              Inl m \<Rightarrow> Inl (Error m)
            | Inr t \<Rightarrow> query_first (document (browser_of h) s) el (js_String (obj_get t ''selector''))))"

text \<open>The recursion goes into the fields of a field, which are smaller values.\<close>

lemma size_get_prop_obj: "get_prop v k = JObj fs \<Longrightarrow> size (JObj fs) < size v"
proof (cases v)
  case (JArr vs)
  assume "get_prop v k = JObj fs"
  with JArr show ?thesis by (auto split: if_splits option.splits dest!: nth_mem size_elem)
next
  case (JObj gs)
  assume "get_prop v k = JObj fs"
  with JObj show ?thesis using size_obj_get [of gs k "JObj fs"] by simp
qed (auto split: if_splits option.splits)

lemma map_sum_list_cong [fundef_cong]:
  "xs = ys \<Longrightarrow> (\<And>x. x \<in> set ys \<Longrightarrow> f x = g x) \<Longrightarrow> map_sum_list f xs = map_sum_list g ys"
  by (induction xs arbitrary: ys) auto

lemma bind_sum_cong [fundef_cong]:
  "x = y \<Longrightarrow> (\<And>a. y = Inr a \<Longrightarrow> f a = g a) \<Longrightarrow> bind_sum x f = bind_sum y g"
  by (cases y) auto

function extractField :: "'w host \<Rightarrow> 'w st \<Rightarrow> node \<Rightarrow> jval \<Rightarrow> exn + jval" where
  "extractField h s el field =
     bind_sum (field_node h s el field)
       (\<lambda>found'. if get_prop field ''visible'' = JBool True
                     \<and> (case found' of None \<Rightarrow> True | Some n \<Rightarrow> \<not> isElementVisible (document (browser_of h) s) n)
          then Inl (elementNotFound [(''selector'', field_or field ''selector'' (JStr '':scope'')), (''visible'', JBool True)])
          else (case found' of
             None \<Rightarrow> Inr (field_or field ''default'' JNull)
           | Some n \<Rightarrow>
               (case get_prop field ''fields'' of
                  JObj fs \<Rightarrow>
                    bind_sum (map_sum_list (\<lambda>(k, f). bind_sum (extractField h s n f) (\<lambda>v. Inr (k, v))) fs) (\<lambda>vs. Inr (JObj vs))
                | _ \<Rightarrow> field_value h s n field)))"
  by pat_completeness auto

termination
  by (relation "measure (\<lambda>(h, s, el, field). size field)")
    (auto dest!: size_field size_get_prop_obj)

declare extractField.simps [simp del]

definition extract_item :: "'w host \<Rightarrow> 'w st \<Rightarrow> jval \<Rightarrow> node \<Rightarrow> exn + jval" where
  "extract_item h s fields' el =
     bind_sum (object_entries fields')
       (\<lambda>fs. bind_sum (map_sum_list (\<lambda>(k, f). bind_sum (extractField h s el f) (\<lambda>v. Inr (k, v))) fs)
         (\<lambda>vs. Inr (JObj vs)))"


section \<open>The extractions\<close>

definition handleExtract :: "'w host \<Rightarrow> action \<Rightarrow> ('w, jval) act" where
  "handleExtract h a =
     bindA (target_field a ''target'')
       (\<lambda>t. let multiple = truthy (leafField a ''multiple'') in
        bindA (if multiple then findNodes (browser_of h) t (timeout_or 5000 a)
               else bindA (findNode (browser_of h) t (timeout_or 5000 a)) (\<lambda>n. returnA (case n of None \<Rightarrow> [] | Some el \<Rightarrow> [el])))
          (\<lambda>els. if els = [] \<and> (leafField a ''onEmpty'' = JStr ''fail'' \<or> (\<not> multiple \<and> obj_get t ''visible'' = JBool True))
             then throwA (elementNotFound t)
             else bindA (\<lambda>s. sumA (map_sum_list (extract_item h s (leafField a ''fields'')) els) s)
               (\<lambda>items. set_extracted a
                  (if multiple then JArr items else (case items of [] \<Rightarrow> JUndef | v # _ \<Rightarrow> v)))))"

text \<open>\<open>env.findElement(target)\<close> of the text and attribute extractions\<close>

definition optional_node :: "'w host \<Rightarrow> action \<Rightarrow> ('w, node option) act" where
  "optional_node h a =
     bindA (target_field a ''target'')
       (\<lambda>t. bindA (findNode (browser_of h) t 5000)
         (\<lambda>n. if n = None \<and> obj_get t ''visible'' = JBool True then throwA (elementNotFound t) else returnA n))"

definition handleExtractText :: "'w host \<Rightarrow> action \<Rightarrow> ('w, jval) act" where
  "handleExtractText h a =
     bindA (optional_node h a)
       (\<lambda>n s. set_extracted a (JStr (case n of None \<Rightarrow> [] | Some el \<Rightarrow> js_trim (text_content (document (browser_of h) s) el))) s)"

definition handleExtractAttribute :: "'w host \<Rightarrow> action \<Rightarrow> ('w, jval) act" where
  "handleExtractAttribute h a =
     bindA (optional_node h a)
       (\<lambda>n s. set_extracted a
          (case Option.bind n (\<lambda>el. attributeOf (document (browser_of h) s) el (js_String (leafField a ''attr''))) of
             None \<Rightarrow> JNull | Some x \<Rightarrow> JStr x) s)"

definition page_info_field :: "'w host \<Rightarrow> 'w st \<Rightarrow> string \<times> jval \<Rightarrow> (string \<times> jval) list" where
  "page_info_field h s kd =
     (let b = browser_of h; env = env_of h; ty = get_prop (snd kd) ''type'' in
      if ty = JStr ''url'' then [(fst kd, JStr (getUrl env s))]
      else if ty = JStr ''title'' then [(fst kd, JStr (getTitle env s))]
      else if ty = JStr ''domain'' then [(fst kd, JStr (hostName b s))]
      else if ty = JStr ''timestamp'' then [(fst kd, jint (dateNow b s))]
      else if ty = JStr ''referrer'' then [(fst kd, JStr (referrer b s))]
      else if ty = JStr ''userAgent'' then [(fst kd, JStr (userAgent b s))]
      else [])"

definition handleExtractPageInfo :: "'w host \<Rightarrow> action \<Rightarrow> ('w, jval) act" where
  "handleExtractPageInfo h a =
     bindA (sumA (object_entries (leafField a ''fields'')))
       (\<lambda>fs s. set_extracted a (JObj (concat (map (page_info_field h s) fs))) s)"

definition handleExtractHtml :: "'w host \<Rightarrow> action \<Rightarrow> ('w, jval) act" where
  "handleExtractHtml h a =
     bindA (target_node h a 5000) (\<lambda>el s. set_extracted a (JStr (outerHtml (browser_of h) s el)) s)"

definition handleExtractJson :: "'w host \<Rightarrow> action \<Rightarrow> ('w, jval) act" where
  "handleExtractJson h a =
     bindA (target_node h a 5000)
       (\<lambda>el. bindA (readA (\<lambda>s. case textOf (document (browser_of h) s) el of None \<Rightarrow> ''{}'' | Some x \<Rightarrow> js_trim x))
         (\<lambda>text. bindA (sumA (parseExtractedJson (js_of h) text (''extractJson '' @ js_String (leafField a ''name''))))
           (\<lambda>v. bindA (if truthy (leafField a ''path'')
                        then bindA (interpA (leafField a ''path'')) (\<lambda>p. sumA (getJsonPath v (js_String p)))
                        else returnA v)
             (set_extracted a))))"


section \<open>Tables\<close>

definition all_below :: "dom \<Rightarrow> node \<Rightarrow> string \<Rightarrow> node list" where
  "all_below d el sel = (case querySelectorAll d el sel of None \<Rightarrow> [] | Some els \<Rightarrow> els)"

definition cell_texts :: "dom \<Rightarrow> node list \<Rightarrow> string list" where
  "cell_texts d els = map (\<lambda>e. js_trim (text_content d e)) els"

definition table_layout :: "dom \<Rightarrow> node \<Rightarrow> action \<Rightarrow> string list \<times> string" where
  "table_layout d el a =
     (if truthy (leafField a ''headers'') then
        (map fst (spread_of (leafField a ''headers'')),
         if truthy (leafField a ''includeHeader'') then ''tr''
         else if all_below d el ''tbody'' \<noteq> [] then ''tbody tr'' else ''tr'')
      else if all_below d el ''thead'' \<noteq> [] then (cell_texts d (all_below d el ''thead th''), ''tbody tr'')
      else
        (case all_below d el ''tr'' of [] \<Rightarrow> [] | row # _ \<Rightarrow> cell_texts d (all_below d row ''td, th''),
         if truthy (leafField a ''includeHeader'') then ''tr'' else ''tr:nth-child(n+2)''))"

definition table_row :: "dom \<Rightarrow> action \<Rightarrow> string list \<Rightarrow> node \<Rightarrow> jobj" where
  "table_row d a headers row =
     (let cells = cell_texts d (all_below d row ''td, th'') in
      fold (\<lambda>i r. al_set (js_String (coalesce (safe_prop (leafField a ''headers'') (headers ! i)) (JStr (headers ! i))))
               (JStr (if i < length cells then cells ! i else [])) r)
        [0..<length headers] [])"

definition handleExtractTable :: "'w host \<Rightarrow> action \<Rightarrow> ('w, jval) act" where
  "handleExtractTable h a =
     bindA (target_node h a (timeout_or 5000 a))
       (\<lambda>el s. let d = document (browser_of h) s; (headers, rowSelector) = table_layout d el a;
                   rows = filter (\<lambda>r. list_ex (\<lambda>(k, v). v \<noteq> JStr []) r) (map (table_row d a headers) (all_below d el rowSelector))
        in set_extracted a (JObj [(''headers'', JArr (map JStr headers)), (''rows'', JArr (map JObj rows))]) s)"


section \<open>Data actions\<close>

text \<open>The actions that compute from the context alone; \<open>None\<close> is the endless \<open>zip\<close>.\<close>

definition computed :: "(runtime_context \<Rightarrow> exn + jval) \<Rightarrow> action \<Rightarrow> ('w, jval) act" where
  "computed f a = bindA (\<lambda>s. sumA (f (fst s)) s) (set_extracted a)"

definition handleMerge :: "action \<Rightarrow> ('w, jval) act" where
  "handleMerge a = (\<lambda>s. case merged_value a (fst s) of None \<Rightarrow> None | Some r \<Rightarrow> bindA (sumA r) (set_extracted a) s)"

definition handleTransform :: "'w host \<Rightarrow> action \<Rightarrow> ('w, jval) act" where
  "handleTransform h a = computed (transform_value (js_of h) a) a"

definition handleFilter :: "'w host \<Rightarrow> action \<Rightarrow> ('w, jval) act" where
  "handleFilter h a = computed (filtered_value (js_of h) a) a"

definition handleDeduplicate :: "action \<Rightarrow> ('w, jval) act" where
  "handleDeduplicate a = computed (deduplicated_value a) a"

text \<open>The arrow of the message is written in ASCII.\<close>

definition handleValidateData :: "'w host \<Rightarrow> action \<Rightarrow> ('w, jval) act" where
  "handleValidateData h a =
     bindA (\<lambda>s. sumA (resolveExpressionSource (leafField a ''from'') (fst s)) s)
       (\<lambda>data. if \<not> truthy (leafField a ''schema'') then returnA data
          else bindA (sumA (schemaErrors (browser_of h) (leafField a ''schema'') data))
            (\<lambda>errors. case errors of
               None \<Rightarrow> returnA data
             | Some e \<Rightarrow>
                 if leafField a ''onInvalid'' \<noteq> JStr ''warn''
                 then throwA (Error (''ValidationError: '' @ js_String (leafField a ''from'') @ '' -> '' @ e))
                 else bindA (liftA (sendLog (env_of h) ''warn'' (''validateData failed for '' @ js_String (leafField a ''from''))
                             (Some [(''errors'', JStr e), (''data'', data)])))
                        (\<lambda>_. returnA data)))"

end
