(* ===== verification/Circuit_Breaker.thy ===== *)
theory Circuit_Breaker
  imports Runtime
begin

text \<open>
  The state of the \<open>circuitBreaker\<close> action and the count of the \<open>checkQuota\<close> action
  (\<open>src/scriptcat-engine/actions/index.ts\<close>). A breaker lives in an object of the page, so what is read
  back is normalised before it is used; a breaker is then a machine with three phases, which is also
  its specification. Configuration numbers are numbers, as their types say.
\<close>

section \<open>The stored state\<close>

record cb_state =
  failures :: "rat list"
  isOpen :: bool
  openedAt :: rat
  halfOpen :: bool
  probeStartedAt :: rat

record cb_config =
  cbName :: string
  threshold :: rat
  windowMs :: rat
  cooldownMs :: rat

definition finite_number :: "jval \<Rightarrow> rat option" where
  "finite_number v = (case v of JNum (Fin r) \<Rightarrow> Some r | _ \<Rightarrow> None)"

definition number_or_zero :: "jval \<Rightarrow> rat" where
  "number_or_zero v = (case finite_number v of Some r \<Rightarrow> r | None \<Rightarrow> 0)"

text \<open>\<open>a || b\<close> on numbers\<close>

definition or_number :: "rat \<Rightarrow> rat \<Rightarrow> rat" where
  "or_number a b = (if a = 0 then b else a)"

definition legacy_count :: "rat \<Rightarrow> rat \<Rightarrow> nat" where
  "legacy_count thr n = nat (min (max 0 \<lfloor>n\<rfloor>) (max 1 (min \<lceil>thr\<rceil> 10000)))"

definition normalizeCircuitBreakerState :: "jval \<Rightarrow> rat \<Rightarrow> rat \<Rightarrow> cb_state" where
  "normalizeCircuitBreakerState stored now thr =
     (let field = (\<lambda>k. if is_nullish stored then JUndef else if is_record stored then get_prop stored k else JUndef);
          storedOpenedAt = number_or_zero (field ''openedAt'');
          legacyLastFailure = number_or_zero (field ''lastFailure'');
          fs = (case field ''failures'' of
                  JArr vs \<Rightarrow> List.map_filter finite_number vs
                | JNum (Fin n) \<Rightarrow>
                    replicate (legacy_count thr n) (or_number legacyLastFailure (or_number storedOpenedAt now))
                | _ \<Rightarrow> []);
          op = (field ''open'' = JBool True);
          half = (\<not> op \<and> field ''halfOpen'' = JBool True);
          probe = number_or_zero (field ''probeStartedAt'')
      in \<lparr>failures = fs, isOpen = op,
          openedAt = (if op then or_number storedOpenedAt (or_number legacyLastFailure now) else 0),
          halfOpen = half, probeStartedAt = (if half then or_number probe now else 0)\<rparr>)"

definition state_value :: "cb_state \<Rightarrow> jval" where
  "state_value s = JObj [(''failures'', JArr (map (\<lambda>t. JNum (Fin t)) (failures s))), (''open'', JBool (isOpen s)),
     (''openedAt'', JNum (Fin (openedAt s))), (''halfOpen'', JBool (halfOpen s)),
     (''probeStartedAt'', JNum (Fin (probeStartedAt s)))]"


section \<open>One call of the action\<close>

definition prune :: "cb_config \<Rightarrow> rat \<Rightarrow> rat list \<Rightarrow> rat list" where
  "prune cfg now fs = filter (\<lambda>t. now - t < windowMs cfg) fs"

definition reopened :: "cb_state \<Rightarrow> rat \<Rightarrow> cb_state" where
  "reopened s now = s\<lparr>isOpen := True, openedAt := now, halfOpen := False, probeStartedAt := 0\<rparr>"

definition reopen_message :: "cb_config \<Rightarrow> cb_state \<Rightarrow> bool \<Rightarrow> string" where
  "reopen_message cfg s halfOpenFailure =
     (if halfOpenFailure then ''Circuit breaker '' @ cbName cfg @ '' REOPENED after half-open probe failure''
      else ''Circuit breaker '' @ cbName cfg @ '' OPENED after '' @ show_int (int (length (failures s))) @ '' failures'')"

text \<open>The state to persist, and the message of the refusal when the call is refused\<close>

definition circuit_step :: "cb_config \<Rightarrow> jval \<Rightarrow> rat \<Rightarrow> cb_state \<Rightarrow> cb_state \<times> string option" where
  "circuit_step cfg rec now s0 =
     (let s = s0\<lparr>failures := prune cfg now (failures s0)\<rparr>;
          reopen = (\<lambda>s h. (reopened s now, Some (reopen_message cfg s h)));
          failed = s\<lparr>failures := [now]\<rparr>
      in if isOpen s then
           (if now - openedAt s < cooldownMs cfg
            then (s, Some (''Circuit breaker '' @ cbName cfg @ '' is OPEN''))
            else (let probe = s\<lparr>isOpen := False, openedAt := 0, failures := [], halfOpen := True, probeStartedAt := now\<rparr>
                  in if rec = JBool True then reopen (probe\<lparr>failures := [now]\<rparr>) True else (probe, None)))
         else if halfOpen s then
           (if rec = JBool True then reopen failed True
            else (s\<lparr>failures := [], halfOpen := False, probeStartedAt := 0\<rparr>, None))
         else if truthy rec then
           (let s' = s\<lparr>failures := failures s @ [now]\<rparr>
            in if of_nat (length (failures s')) \<ge> threshold cfg then reopen s' False else (s', None))
         else (s, None))"

text \<open>Reading the breaker of that name out of the page's object, and writing it back\<close>

definition circuit_call :: "cb_config \<Rightarrow> jval \<Rightarrow> rat \<Rightarrow> jobj \<Rightarrow> jobj \<times> string option" where
  "circuit_call cfg rec now store =
     (case circuit_step cfg rec now (normalizeCircuitBreakerState (obj_get store (cbName cfg)) now (threshold cfg)) of
        (s, verdict) \<Rightarrow> (al_set (cbName cfg) (state_value s) store, verdict))"

primrec circuit_calls :: "cb_config \<Rightarrow> (rat \<times> jval) list \<Rightarrow> jobj \<Rightarrow> jobj \<times> string option list" where
  "circuit_calls cfg [] store = (store, [])"
| "circuit_calls cfg (c # cs) store =
     (case circuit_call cfg (snd c) (fst c) store of
        (store', v) \<Rightarrow> (case circuit_calls cfg cs store' of (store'', vs) \<Rightarrow> (store'', v # vs)))"


section \<open>Specification\<close>

datatype breaker = Closed "rat list" | Opened rat | HalfOpen

text \<open>The breaker after a call at time \<open>now\<close>, and whether the call is admitted\<close>

fun breaker_step :: "cb_config \<Rightarrow> jval \<Rightarrow> rat \<Rightarrow> breaker \<Rightarrow> breaker \<times> bool" where
  "breaker_step cfg rec now (Closed fs) =
     (let recent = prune cfg now fs; fs' = recent @ [now] in
      if \<not> truthy rec then (Closed recent, True)
      else if of_nat (length fs') \<ge> threshold cfg then (Opened now, False) else (Closed fs', True))"
| "breaker_step cfg rec now (Opened t) =
     (if now - t < cooldownMs cfg then (Opened t, False)
      else if rec = JBool True then (Opened now, False) else (HalfOpen, True))"
| "breaker_step cfg rec now HalfOpen = (if rec = JBool True then (Opened now, False) else (Closed [], True))"

definition breaker_of :: "cb_state \<Rightarrow> breaker" where
  "breaker_of s = (if isOpen s then Opened (openedAt s) else if halfOpen s then HalfOpen else Closed (failures s))"

text \<open>The breaker a page object holds under a name, as the next call at time \<open>now\<close> sees it\<close>

definition stored_breaker :: "cb_config \<Rightarrow> rat \<Rightarrow> jobj \<Rightarrow> breaker" where
  "stored_breaker cfg now store =
     breaker_of (normalizeCircuitBreakerState (obj_get store (cbName cfg)) now (threshold cfg))"

definition cb_wf :: "cb_state \<Rightarrow> bool" where
  "cb_wf s \<longleftrightarrow> (if isOpen s then openedAt s \<noteq> 0 \<and> \<not> halfOpen s else openedAt s = 0)
     \<and> (if halfOpen s then probeStartedAt s \<noteq> 0 else probeStartedAt s = 0)"

lemma finite_number_map [simp]: "List.map_filter finite_number (map (\<lambda>t. JNum (Fin t)) ts) = ts"
  by (induction ts) (simp_all add: List.map_filter_def finite_number_def)

lemma normalize_wf: "0 < now \<Longrightarrow> cb_wf (normalizeCircuitBreakerState v now thr)"
  by (simp add: normalizeCircuitBreakerState_def cb_wf_def Let_def or_number_def)

lemma normalize_state_value [simp]: "cb_wf s \<Longrightarrow> normalizeCircuitBreakerState (state_value s) now thr = s"
  by (cases s)
    (auto simp: normalizeCircuitBreakerState_def state_value_def cb_wf_def Let_def or_number_def
      number_or_zero_def finite_number_def obj_get_def split: if_splits)

lemma circuit_step_wf: "0 < now \<Longrightarrow> cb_wf s \<Longrightarrow> cb_wf (fst (circuit_step cfg rec now s))"
  by (auto simp: circuit_step_def cb_wf_def Let_def reopened_def split: if_splits)

lemma circuit_step_refines:
  "breaker_step cfg rec now (breaker_of s)
     = (breaker_of (fst (circuit_step cfg rec now s)), snd (circuit_step cfg rec now s) = None)"
  by (auto simp: circuit_step_def breaker_of_def Let_def reopened_def)



section \<open>Calls through the page's object\<close>

lemma obj_get_nullish_store: "stored_breaker cfg now [] = Closed []"
  by (simp add: stored_breaker_def normalizeCircuitBreakerState_def breaker_of_def obj_get_def Let_def)

lemma circuit_call_store:
  "circuit_call cfg rec now store = (store', v) \<Longrightarrow>
   \<exists>s. circuit_step cfg rec now (normalizeCircuitBreakerState (obj_get store (cbName cfg)) now (threshold cfg)) = (s, v)
     \<and> store' = al_set (cbName cfg) (state_value s) store"
  by (auto simp: circuit_call_def split: prod.splits)

lemma circuit_call_breaker:
  assumes "0 < now" and call: "circuit_call cfg rec now store = (store', v)"
  shows "breaker_step cfg rec now (stored_breaker cfg now store) = (stored_breaker cfg now' store', v = None)"
proof -
  let ?s0 = "normalizeCircuitBreakerState (obj_get store (cbName cfg)) now (threshold cfg)"
  obtain s where s: "circuit_step cfg rec now ?s0 = (s, v)" "store' = al_set (cbName cfg) (state_value s) store"
    using circuit_call_store [OF call] by blast
  have "cb_wf s"
    using circuit_step_wf [OF assms(1) normalize_wf [OF assms(1)], of cfg rec "obj_get store (cbName cfg)" "threshold cfg"] s(1) by simp
  then have "stored_breaker cfg now' store' = breaker_of s"
    by (simp add: stored_breaker_def s(2) obj_get_set)
  then show ?thesis
    using circuit_step_refines [of cfg rec now ?s0] s(1) by (simp add: stored_breaker_def)
qed

text \<open>A call of the circuit breaker, which reads its state from an object of the page and writes
  it back, is one step of the three-phase breaker: closed with its recent failures, open since a time,
  or half open with one probe admitted; it is refused exactly when the breaker refuses, and the
  breakers of other names are not touched.\<close>

theorem circuit_breaker_refines:
  assumes "0 < now" and "circuit_call cfg rec now store = (store', v)"
  shows "breaker_step cfg rec now (stored_breaker cfg now store) = (stored_breaker cfg now' store', v = None)
    \<and> (\<forall>name. name \<noteq> cbName cfg \<longrightarrow> obj_get store' name = obj_get store name)"
  using circuit_call_breaker [OF assms] circuit_call_store [OF assms(2)] by (auto simp: obj_get_set)

definition demo_breaker :: cb_config where
  "demo_breaker = \<lparr>cbName = ''login'', threshold = 2, windowMs = 60000, cooldownMs = 300000\<rparr>"

definition failing :: "rat \<Rightarrow> rat \<times> jval" where
  "failing t = (t, JBool True)"

definition gate :: "rat \<Rightarrow> rat \<times> jval" where
  "gate t = (t, JUndef)"

theorem circuit_breaker_refines_witness:
  "breaker_step demo_breaker (JBool True) 7 (stored_breaker demo_breaker 7 [(''other'', JNull)])
     = (stored_breaker demo_breaker 9 (fst (circuit_call demo_breaker (JBool True) 7 [(''other'', JNull)])), True)"
proof -
  have c: "circuit_call demo_breaker (JBool True) 7 [(''other'', JNull)]
      = (fst (circuit_call demo_breaker (JBool True) 7 [(''other'', JNull)]), None)"
    by (simp add: prod_eq_iff) code_simp
  show ?thesis using circuit_breaker_refines [OF _ c, of 9] by simp
qed

lemma opened_stays:
  "\<forall>(n, r) \<in> set calls. 0 < n \<and> n - t < cooldownMs cfg \<Longrightarrow> (\<And>n. stored_breaker cfg n store = Opened t)
   \<Longrightarrow> list_all (\<lambda>v. v \<noteq> None) (snd (circuit_calls cfg calls store))
     \<and> (\<forall>n. stored_breaker cfg n (fst (circuit_calls cfg calls store)) = Opened t)"
proof (induction calls arbitrary: store)
  case (Cons c cs)
  obtain n r where c: "c = (n, r)" by (cases c)
  obtain store1 v where call: "circuit_call cfg r n store = (store1, v)" by (cases "circuit_call cfg r n store")
  have n: "0 < n" "n - t < cooldownMs cfg" using Cons.prems(1) c by auto
  have step: "(Opened t, False) = (stored_breaker cfg n' store1, v = None)" for n'
    using circuit_call_breaker [OF n(1) call, of n'] Cons.prems(2) [of n] n(2) by simp
  then have "\<And>n'. stored_breaker cfg n' store1 = Opened t" and "v \<noteq> None" by auto
  with Cons.IH [of store1] Cons.prems(1) call c show ?case
    by (auto split: prod.splits)
qed simp

text \<open>After a call has opened the breaker, every later call before the cooldown has passed is
  refused, whether it is a gate or a report, and the breaker stays open since the same time.\<close>

theorem open_breaker_refuses:
  assumes "0 < now" and "circuit_call cfg rec now store = (store', v)"
    and "breaker_step cfg rec now (stored_breaker cfg now store) = (Opened t, False)"
    and "\<forall>(n, r) \<in> set calls. 0 < n \<and> n - t < cooldownMs cfg"
  shows "v \<noteq> None \<and> list_all (\<lambda>u. u \<noteq> None) (snd (circuit_calls cfg calls store'))
    \<and> (\<forall>n. stored_breaker cfg n (fst (circuit_calls cfg calls store')) = Opened t)"
proof -
  have "stored_breaker cfg n store' = Opened t \<and> v \<noteq> None" for n
    using circuit_call_breaker [OF assms(1,2), of n] assms(3) by simp
  then show ?thesis using opened_stays [OF assms(4), of store'] by blast
qed

theorem open_breaker_refuses_witness:
  "list_all (\<lambda>u. u \<noteq> None)
     (snd (circuit_calls demo_breaker [gate 120, failing 299999]
       (fst (circuit_calls demo_breaker [failing 50, failing 100] []))))"
proof -
  let ?s1 = "fst (circuit_call demo_breaker (JBool True) 50 [])"
  have c: "circuit_call demo_breaker (JBool True) 100 ?s1
     = (fst (circuit_call demo_breaker (JBool True) 100 ?s1), snd (circuit_call demo_breaker (JBool True) 100 ?s1))"
    by simp
  have o: "breaker_step demo_breaker (JBool True) 100 (stored_breaker demo_breaker 100 ?s1) = (Opened 100, False)"
    by code_simp
  have t: "\<forall>(n, r) \<in> set [gate 120, failing 299999]. 0 < n \<and> n - 100 < cooldownMs demo_breaker"
    by (simp add: gate_def failing_def demo_breaker_def)
  show ?thesis
    using open_breaker_refuses [OF _ c o t] by (simp add: failing_def split_beta)
qed

lemma reports_accumulate:
  assumes "\<forall>a \<in> set (fs @ ts). \<forall>b \<in> set (fs @ ts). a - b < windowMs cfg" and "\<forall>a \<in> set ts. 0 < a"
    and "of_nat (length (fs @ ts)) < threshold cfg" and "\<And>n. stored_breaker cfg n store = Closed fs"
  shows "list_all ((=) None) (snd (circuit_calls cfg (map failing ts) store))
    \<and> (\<forall>n. stored_breaker cfg n (fst (circuit_calls cfg (map failing ts) store)) = Closed (fs @ ts))"
  using assms
proof (induction ts arbitrary: fs store)
  case (Cons a ts)
  obtain store1 v where call: "circuit_call cfg (JBool True) a store = (store1, v)"
    by (cases "circuit_call cfg (JBool True) a store")
  have pruned: "prune cfg a fs = fs"
    using Cons.prems(1) by (auto simp: prune_def filter_id_conv)
  have len: "of_nat (length fs + 1) < threshold cfg" using Cons.prems(3) by simp
  then have "\<not> threshold cfg \<le> of_nat (Suc (length fs))" by simp
  then have step: "(Closed (fs @ [a]), True) = (stored_breaker cfg n store1, v = None)" for n
    using circuit_call_breaker [OF _ call, of n] Cons.prems(2) Cons.prems(4) [of a] pruned by (simp add: Let_def)
  then have "\<And>n. stored_breaker cfg n store1 = Closed (fs @ [a])" and "v = None" by auto
  with Cons.IH [of "fs @ [a]" store1] Cons.prems(1-3) call show ?case
    by (auto simp: failing_def split: prod.splits)
qed simp

text \<open>A new breaker admits the reports of a window until they are as many as its threshold, and
  refuses the report that reaches it.\<close>

theorem breaker_opens_at_threshold:
  assumes "\<forall>a \<in> set (t # ts). \<forall>b \<in> set (t # ts). a - b < windowMs cfg" and "\<forall>a \<in> set (t # ts). 0 < a"
    and "of_nat (length ts) < threshold cfg"
  shows "list_all ((=) None) (snd (circuit_calls cfg (map failing ts) []))
    \<and> (snd (circuit_call cfg (JBool True) t (fst (circuit_calls cfg (map failing ts) []))) = None
         \<longleftrightarrow> of_nat (length ts + 1) < threshold cfg)"
proof -
  let ?store = "fst (circuit_calls cfg (map failing ts) [])"
  have acc: "list_all ((=) None) (snd (circuit_calls cfg (map failing ts) []))" "\<And>n. stored_breaker cfg n ?store = Closed ts"
    using reports_accumulate [of "[]" ts cfg "[]"] assms obj_get_nullish_store by auto
  obtain store1 v where call: "circuit_call cfg (JBool True) t ?store = (store1, v)"
    by (cases "circuit_call cfg (JBool True) t ?store")
  have "prune cfg t ts = ts" using assms(1) by (auto simp: prune_def filter_id_conv)
  then have "v = None \<longleftrightarrow> of_nat (length ts + 1) < threshold cfg"
    using circuit_call_breaker [OF _ call, of t] acc(2) [of t] assms(2) by (auto simp: Let_def split: if_splits)
  then show ?thesis using acc(1) call by simp
qed

end
