(* ===== verification/Quota.thy ===== *)
theory Quota
  imports Action_Data
begin

text \<open>
  The count behind the \<open>checkQuota\<close> action (\<open>src/scriptcat-engine/actions/index.ts\<close>): an object in the
  local storage of the page with the number of uses and the time it is reset at. A stored value that
  is no object was not written by this action and is reported as the \<open>TypeError\<close> its use raises.
\<close>

section \<open>One use\<close>

fun num_add :: "jnum \<Rightarrow> jnum \<Rightarrow> jnum" where
  "num_add (Fin a) (Fin b) = Fin (a + b)"
| "num_add NaN y = NaN"
| "num_add x NaN = NaN"
| "num_add PosInf NegInf = NaN"
| "num_add NegInf PosInf = NaN"
| "num_add (Fin a) y = y"
| "num_add x (Fin b) = x"
| "num_add x y = x"

text \<open>\<open>a + b\<close>\<close>

definition js_plus :: "jval \<Rightarrow> jval \<Rightarrow> jval" where
  "js_plus a b =
     (case (js_prim a, js_prim b) of
        (JStr x, y) \<Rightarrow> JStr (x @ js_String y)
      | (x, JStr y) \<Rightarrow> JStr (js_String x @ y)
      | (x, y) \<Rightarrow> JNum (num_add (js_Number x) (js_Number y)))"

record quota_config =
  quotaType :: string
  quotaLimit :: jval
  quotaWindow :: jval
  onExceeded :: string

datatype quota_verdict = Proceed | WaitMs jnum | Exceeded | Skipped

definition quota_key :: "quota_config \<Rightarrow> string" where
  "quota_key q = ''oc_quota_'' @ quotaType q @ ''_'' @ js_String (quotaLimit q)"

definition num_max :: "jnum \<Rightarrow> jnum \<Rightarrow> jnum" where
  "num_max x y = (if x = NaN \<or> y = NaN then NaN else if num_less x y then y else x)"

text \<open>The object after the reset of an expired window\<close>

definition quota_refresh :: "quota_config \<Rightarrow> int \<Rightarrow> jobj \<Rightarrow> jobj" where
  "quota_refresh q now stored =
     (let r = obj_get stored ''resetAt'' in
      if truthy r \<and> js_less r (jint now)
      then al_set ''resetAt'' (js_plus (jint now) (quotaWindow q)) (al_set ''count'' (jint 0) stored)
      else stored)"

text \<open>The verdict, and the object to write back when it is not a refusal\<close>

definition quota_step :: "quota_config \<Rightarrow> int \<Rightarrow> jobj \<Rightarrow> quota_verdict \<times> jobj" where
  "quota_step q now stored0 =
     (let stored = quota_refresh q now stored0;
          count = js_plus (coalesce (obj_get stored ''count'') (jint 0)) (jint 1);
          written = al_set ''resetAt'' (coalesce (obj_get stored ''resetAt'') (js_plus (jint now) (quotaWindow q)))
                      (al_set ''count'' count stored)
      in if \<not> js_less (quotaLimit q) count then (Proceed, written)
         else if onExceeded q = ''wait''
         then (WaitMs (num_max (Fin 1000)
                 (num_add (js_Number (coalesce (obj_get stored ''resetAt'') (jint now))) (Fin (- of_int now)))), written)
         else if onExceeded q = ''fail'' then (Exceeded, stored0)
         else if onExceeded q = ''skip'' then (Skipped, stored0)
         else (Proceed, written))"

text \<open>The uses at the given times, on the object in storage\<close>

primrec quota_uses :: "quota_config \<Rightarrow> int list \<Rightarrow> jobj \<Rightarrow> quota_verdict list \<times> jobj" where
  "quota_uses q [] stored = ([], stored)"
| "quota_uses q (now # ts) stored =
     (case quota_step q now stored of
        (v, stored') \<Rightarrow> (case quota_uses q ts stored' of (vs, stored'') \<Rightarrow> (v # vs, stored'')))"


section \<open>What a window admits\<close>

definition quota_object :: "nat \<Rightarrow> int \<Rightarrow> jobj" where
  "quota_object n r = [(''count'', jint (int n)), (''resetAt'', jint r)]"

lemma js_plus_fin [simp]: "js_plus (JNum (Fin a)) (JNum (Fin b)) = JNum (Fin (a + b))"
  by (simp add: js_plus_def js_prim_def is_object_def)

lemma js_less_fin [simp]: "js_less (JNum (Fin a)) (JNum (Fin b)) \<longleftrightarrow> a < b"
  by (simp add: js_less_def js_prim_def is_object_def)

lemma quota_object_fields [simp]:
  "obj_get (quota_object n r) ''count'' = jint (int n)" "obj_get (quota_object n r) ''resetAt'' = jint r"
  by (simp_all add: quota_object_def obj_get_def)

lemma quota_object_count [simp]: "al_set ''resetAt'' (jint r) (al_set ''count'' (jint (int m)) (quota_object n s)) = quota_object m r"
  by (simp add: quota_object_def)

lemma quota_step_within:
  assumes "quotaLimit q = jint (int limit)" "onExceeded q = ''fail''" "t \<le> r"
  shows "quota_step q t (quota_object n r) =
     (if n < limit then (Proceed, quota_object (Suc n) r) else (Exceeded, quota_object n r))"
proof -
  have keep: "quota_refresh q t (quota_object n r) = quota_object n r"
    using assms(3) by (simp add: quota_refresh_def)
  have count: "js_plus (coalesce (jint (int n)) (jint 0)) (jint 1) = jint (int (Suc n))"
    by (simp add: coalesce_def add.commute)
  have "js_less (jint (int limit)) (jint (int (Suc n))) \<longleftrightarrow> limit < Suc n"
    unfolding js_less_fin by (simp only: of_int_less_iff of_nat_less_iff)
  then show ?thesis
    using assms(1,2) count quota_object_count [of r "Suc n" n r]
    by (auto simp: quota_step_def Let_def keep coalesce_def add.commute)
qed

lemma quota_uses_within:
  assumes "quotaLimit q = jint (int limit)" "onExceeded q = ''fail''" "\<forall>t \<in> set ts. t \<le> r" "n \<le> limit"
  shows "fst (quota_uses q ts (quota_object n r))
    = replicate (min (length ts) (limit - n)) Proceed @ replicate (length ts - (limit - n)) Exceeded"
  using assms(3,4)
proof (induction ts arbitrary: n)
  case (Cons t ts)
  have step: "quota_step q t (quota_object n r) =
     (if n < limit then (Proceed, quota_object (Suc n) r) else (Exceeded, quota_object n r))"
    by (rule quota_step_within) (use assms(1,2) Cons.prems in auto)
  show ?case
  proof (cases "n < limit")
    case True
    then have "min (Suc (length ts)) (limit - n) = Suc (min (length ts) (limit - Suc n))"
      "Suc (length ts) - (limit - n) = length ts - (limit - Suc n)" by auto
    then show ?thesis using True step Cons.IH [of "Suc n"] Cons.prems by (simp add: split_beta)
  next
    case False
    then show ?thesis using step Cons.IH [of n] Cons.prems by (simp add: split_beta)
  qed
qed simp

text \<open>With \<open>onExceeded: 'fail'\<close>, a fresh quota admits the first \<open>limit\<close> uses made before its reset
  time and refuses every further one.\<close>

theorem quota_admits_limit:
  assumes "quotaLimit q = jint (int limit)" "quotaWindow q = jint w" "onExceeded q = ''fail''"
    and "0 < limit" "\<forall>t \<in> set ts. t \<le> t0 + w"
  shows "fst (quota_uses q (t0 # ts) []) =
    replicate (min (Suc (length ts)) limit) Proceed @ replicate (Suc (length ts) - limit) Exceeded"
proof -
  have "quota_step q t0 [] = (Proceed, quota_object 1 (t0 + w))"
    using assms(1,2,4)
    by (simp add: quota_step_def quota_refresh_def Let_def obj_get_def coalesce_def quota_object_def)
  moreover have "min (Suc (length ts)) limit = Suc (min (length ts) (limit - 1))"
    "Suc (length ts) - limit = length ts - (limit - 1)" using assms(4) by auto
  ultimately show ?thesis
    using quota_uses_within [OF assms(1,3,5), of 1] assms(4) by (simp add: split_beta)
qed

definition demo_quota :: "string \<Rightarrow> quota_config" where
  "demo_quota mode = \<lparr>quotaType = ''requestsPerMinute'', quotaLimit = jint 2, quotaWindow = jint 60000, onExceeded = mode\<rparr>"

theorem quota_admits_limit_witness:
  "fst (quota_uses (demo_quota ''fail'') [1000, 1001, 1002, 61000] []) = [Proceed, Proceed, Exceeded, Exceeded]"
  using quota_admits_limit [of "demo_quota ''fail''" 2 60000 "[1001, 1002, 61000]" 1000]
  by (simp add: demo_quota_def numeral_eq_Suc)

text \<open>With \<open>onExceeded: 'skip'\<close> a use beyond the limit ends as an admitted one does: the action
  returns and the steps after it run. The use is not counted.\<close>

theorem skipped_use_returns: "fst (quota_uses (demo_quota ''skip'') [1000, 1001, 1002] []) = [Proceed, Proceed, Skipped]"
  by code_simp

end
