(* ===== verification/Handlers_Page.thy ===== *)
theory Handlers_Page
  imports Handlers_Input Handlers_Extract Circuit_Breaker Quota
begin

text \<open>The waits, the scrolling and navigation, the outputs and the operational guards of
  \<open>src/scriptcat-engine/actions/index.ts\<close>.\<close>

section \<open>Waits\<close>

definition timeout_error :: exn where
  "timeout_error = Error ''TimeoutError''"

text \<open>The waits that throw \<open>TimeoutError\<close> when \<open>look\<close> never answers in time\<close>

definition wait_or_timeout :: "'w host \<Rightarrow> action \<Rightarrow> ('w, 'a option) act \<Rightarrow> rat \<Rightarrow> ('w, jval) act" where
  "wait_or_timeout h a look gap =
     bindA (wait_for h (timeout_or 10000 a) look gap) (\<lambda>r. if r = None then throwA timeout_error else returnA JUndef)"

definition when_some :: "bool \<Rightarrow> unit option" where
  "when_some b = (if b then Some () else None)"

definition handleWaitFor :: "'w host \<Rightarrow> action \<Rightarrow> ('w, jval) act" where
  "handleWaitFor h a = bindA (target_node h a (timeout_or 10000 a)) (\<lambda>_. returnA JUndef)"

definition handleWaitForText :: "'w host \<Rightarrow> action \<Rightarrow> ('w, jval) act" where
  "handleWaitForText h a =
     bindA (target_field a ''target'') (\<lambda>t. bindA (interpA (leafField a ''text''))
       (\<lambda>text. wait_or_timeout h a
          (bindA (findNode (browser_of h) t 500)
            (\<lambda>n. readA (\<lambda>s. case n of None \<Rightarrow> None
               | Some el \<Rightarrow> when_some (case textOf (document (browser_of h) s) el of
                     None \<Rightarrow> False | Some x \<Rightarrow> js_includes x (js_String text))))) 200))"

definition handleWaitForTimeout :: "'w host \<Rightarrow> action \<Rightarrow> ('w, jval) act" where
  "handleWaitForTimeout h a = bindA (duration_of h (leafField a ''ms'')) (\<lambda>ms. done_undefined (pause h ms))"

definition handleWaitForElementHidden :: "'w host \<Rightarrow> action \<Rightarrow> ('w, jval) act" where
  "handleWaitForElementHidden h a =
     bindA (target_field a ''target'')
       (\<lambda>t. wait_or_timeout h a (bindA (findNode (browser_of h) t 500) (\<lambda>n. returnA (when_some (n = None)))) 200)"

definition url_matches :: "'w host \<Rightarrow> jval \<Rightarrow> string \<Rightarrow> string \<Rightarrow> exn + bool" where
  "url_matches h pat matchType url =
     (if matchType = ''equals'' then Inr (JStr url = pat)
      else if matchType = ''contains'' then Inr (js_includes url (js_String pat))
      else if matchType = ''matches'' then
        (case regexTest (env_of h) (regex_source pat) url of
           Inl m \<Rightarrow> Inl (JsError ''SyntaxError'' m) | Inr b \<Rightarrow> Inr b)
      else Inr False)"

definition handleWaitForUrl :: "'w host \<Rightarrow> action \<Rightarrow> ('w, jval) act" where
  "handleWaitForUrl h a =
     bindA (interpA (leafField a ''pattern''))
       (\<lambda>pat. wait_or_timeout h a
          (bindA (readA (getUrl (env_of h)))
            (\<lambda>url. bindA (sumA (url_matches h pat (str_field a ''matchType'' ''contains'') url)) (\<lambda>b. returnA (when_some b)))) 200)"

definition handleWaitForElementVisible :: "'w host \<Rightarrow> action \<Rightarrow> ('w, jval) act" where
  "handleWaitForElementVisible h a =
     bindA (target_field a ''target'')
       (\<lambda>t. wait_or_timeout h a
          (bindA (findNode (browser_of h) t 500)
            (\<lambda>n. readA (\<lambda>s. case n of None \<Rightarrow> None | Some el \<Rightarrow> when_some (isElementVisible (document (browser_of h) s) el)))) 200)"

definition handleWaitForFunction :: "'w host \<Rightarrow> action \<Rightarrow> ('w, jval) act" where
  "handleWaitForFunction h a =
     bindA (interpA (leafField a ''script''))
       (\<lambda>script. wait_or_timeout h a
          (catchA
            (bindA (\<lambda>s. liftA (evaluate (env_of h) (js_String script)
                [(''variables'', JObj (variables (fst s))), (''extracted'', JObj (extracted (fst s))),
                 (''evaluated'', JObj (evaluated (fst s)))]) s)
              (\<lambda>v. returnA (when_some (truthy v))))
            (\<lambda>e. throwA (Error (''ScriptError: '' @ exn_message e)))) (num_field a ''pollingInterval'' 200))"

definition handleReadPause :: "'w host \<Rightarrow> action \<Rightarrow> ('w, jval) act" where
  "handleReadPause h a =
     bindA (duration_of h (leafField a ''ms''))
       (\<lambda>ms. done_undefined
          (if truthy (leafField a ''scrollWhileReading'')
           then bindA (readA (\<lambda>s. innerHeight (browser_of h) s / 2))
             (\<lambda>px. eachA (\<lambda>i. thenA (liftA (scrollNodeBy (browser_of h) None 0 px)) (pause h (ms / 5))) [0..<5])
           else pause h ms))"


section \<open>Scrolling\<close>

definition handleScrollToBottom :: "'w host \<Rightarrow> action \<Rightarrow> ('w, jval) act" where
  "handleScrollToBottom h a =
     (let b = browser_of h in
      thenA
        (if truthy (leafField a ''stepBy'')
         then bindA (readA (\<lambda>s. innerHeight b s * (4 / 5)))
           (\<lambda>px. bindA (poll (\<lambda>s. innerHeight b s + scrollY b s < scrollHeight b s - 100)
                (\<lambda>u. thenA (liftA (scrollNodeBy b None 0 px)) (thenA (pause h 500) (returnA (Inl u :: unit + unit)))) ())
              (\<lambda>_. returnA ()))
         else bindA (readA (scrollHeight b)) (\<lambda>top. liftA (scrollWindowTo b top)))
        (done_undefined (pause h 500)))"

definition scroll_delta :: "'w host \<Rightarrow> action \<Rightarrow> 'w st \<Rightarrow> rat \<times> rat" where
  "scroll_delta h a s =
     (let dir = leafField a ''direction''; b = browser_of h;
          horizontal = (dir = JStr ''left'' \<or> dir = JStr ''right'');
          unitDistance = (if leafField a ''unit'' = JStr ''pages''
                          then (if horizontal then innerWidth b s else innerHeight b s) else 1);
          dist = num_of (leafField a ''distance'') * unitDistance * (if dir = JStr ''up'' \<or> dir = JStr ''left'' then -1 else 1)
      in (if horizontal then dist else 0, if dir = JStr ''up'' \<or> dir = JStr ''down'' then dist else 0))"

definition handleScrollBy :: "'w host \<Rightarrow> action \<Rightarrow> ('w, jval) act" where
  "handleScrollBy h a =
     bindA (readA (scroll_delta h a))
       (\<lambda>(left, top). thenA
          (if truthy (leafField a ''target'')
           then bindA (target_node h a (timeout_or 5000 a)) (\<lambda>el. liftA (scrollNodeBy (browser_of h) (Some el) left top))
           else liftA (scrollNodeBy (browser_of h) None left top))
          (done_undefined (pause h 500)))"

definition scroll_into_view :: "'w host \<Rightarrow> action \<Rightarrow> ('w, jval) act" where
  "scroll_into_view h a =
     bindA (target_node h a (timeout_or 5000 a))
       (\<lambda>el. thenA (liftA (scrollNodeIntoView (browser_of h) el (coalesce (leafField a ''align'') (JStr ''center''))))
          (done_undefined (pause h 500)))"

definition handleScrollToTop :: "'w host \<Rightarrow> ('w, jval) act" where
  "handleScrollToTop h = thenA (liftA (scrollWindowTo (browser_of h) 0)) (done_undefined (pause h 500))"

definition handlePageDown :: "'w host \<Rightarrow> action \<Rightarrow> ('w, jval) act" where
  "handlePageDown h a =
     bindA (readA (\<lambda>s. (if actionType a = ''pageUp'' then -1 else 1) * num_field a ''count'' 1 * innerHeight (browser_of h) s * (4 / 5)))
       (\<lambda>top. thenA (liftA (scrollNodeBy (browser_of h) None 0 top)) (done_undefined (pause h 500)))"


section \<open>The page\<close>

definition handleSetStyle :: "'w host \<Rightarrow> action \<Rightarrow> ('w, jval) act" where
  "handleSetStyle h a =
     bindA (target_node h a (timeout_or 5000 a))
       (\<lambda>el. bindA (interpA (leafField a ''style''))
         (\<lambda>st. done_undefined (liftA (setStyle (browser_of h) el (spread_of st)))))"

definition handleRemoveElement :: "'w host \<Rightarrow> action \<Rightarrow> ('w, jval) act" where
  "handleRemoveElement h a =
     bindA (target_node h a (timeout_or 5000 a)) (\<lambda>el. done_undefined (liftA (removeNode (browser_of h) el)))"

definition navigable_url :: "'w host \<Rightarrow> string \<Rightarrow> 'w st \<Rightarrow> exn + unit" where
  "navigable_url h url s =
     (case urlProtocol (browser_of h) url (getUrl (env_of h) s) of
        None \<Rightarrow> Inl (Error (''navigate URL is not valid: '' @ url))
      | Some p \<Rightarrow>
          if p \<noteq> ''http:'' \<and> p \<noteq> ''https:''
          then Inl (Error (''navigate URL scheme '' @ quoted p @ '' is not allowed; only http/https are permitted''))
          else Inr ())"

definition handleNavigate :: "'w host \<Rightarrow> action \<Rightarrow> ('w, jval) act" where
  "handleNavigate h a =
     bindA (interpA (leafField a ''url''))
       (\<lambda>v. let url = js_String v in
        bindA (\<lambda>s. sumA (navigable_url h url s) s)
          (\<lambda>_. bindA (readA (getUrl (env_of h)))
            (\<lambda>startUrl. thenA (liftA (assignLocation (browser_of h) url))
              (bindA (waitForUrlChange h startUrl (timeout_or 5000 a))
                (\<lambda>changed. if \<not> changed then throwA (Error (''TimeoutError: navigation did not commit from '' @ startUrl))
                   else done_undefined (liftA (\<lambda>s. modifyCtx (\<lambda>c. c\<lparr>pageInfo :=
                          JObj [(''url'', JStr (getUrl (env_of h) s)), (''title'', JStr (getTitle (env_of h) s))]\<rparr>) s)))))))"

definition handleReload :: "'w host \<Rightarrow> ('w, jval) act" where
  "handleReload h = thenA (liftA (reloadPage (browser_of h))) (done_undefined (pause h 3000))"

text \<open>The environments do not hand the arguments of \<open>evaluate\<close> to the script.\<close>

definition handleEvaluate :: "'w host \<Rightarrow> action \<Rightarrow> ('w, jval) act" where
  "handleEvaluate h a =
     bindA (interpA (leafField a ''script''))
       (\<lambda>script. bindA (\<lambda>s. liftA (evaluate (env_of h) (js_String script)
            [(''variables'', JObj (variables (fst s))), (''extracted'', JObj (extracted (fst s))),
             (''evaluated'', JObj (evaluated (fst s))), (''loopIndex'', loopIndex (fst s)), (''loopItem'', loopItem (fst s))]) s)
          (\<lambda>v. bindA (whenA (truthy (leafField a ''name''))
                 (liftA (modifyCtx (\<lambda>c. c\<lparr>evaluated := al_set (js_String (leafField a ''name'')) v (evaluated c)\<rparr>))))
             (\<lambda>_. returnA v)))"

text \<open>\<open>requireEnvMethod\<close>\<close>

definition require_method :: "string \<Rightarrow> 'a option \<Rightarrow> ('w, 'a) act" where
  "require_method name m =
     (case m of
        None \<Rightarrow> throwA (Error (''UnsupportedInEnvironment: '' @ name @ '' not implemented by host environment''))
      | Some f \<Rightarrow> returnA f)"

definition viewport_of :: "action \<Rightarrow> jval" where
  "viewport_of a = JObj (map (\<lambda>k. (k, leafField a k))
     [''width'', ''height'', ''deviceScaleFactor'', ''isMobile'', ''hasTouch'', ''userAgent''])"


section \<open>Outputs\<close>

definition handleSendResult :: "'w host \<Rightarrow> action \<Rightarrow> ('w, jval) act" where
  "handleSendResult h a =
     bindA (interpA (leafField a ''payload''))
       (\<lambda>v. thenA (liftA (sendResult (env_of h) v (leafField a ''immediate'' \<noteq> JBool False)))
          (done_undefined (liftA (modifyCtx (\<lambda>c. c\<lparr>resultsSent := Suc (resultsSent c)\<rparr>)))))"

definition handleSendLog :: "'w host \<Rightarrow> action \<Rightarrow> ('w, jval) act" where
  "handleSendLog h a =
     bindA (interpA (leafField a ''message'')) (\<lambda>m. bindA (interpA (coalesce (leafField a ''extra'') (JObj [])))
       (\<lambda>x. thenA (liftA (sendLog (env_of h) (js_String (leafField a ''level'')) (js_String m) (Some (spread_of x))))
          (done_undefined (liftA (modifyCtx (\<lambda>c. c\<lparr>logsSent := Suc (logsSent c)\<rparr>))))))"

definition send_snapshot_if :: "'w host \<Rightarrow> jval \<Rightarrow> ('w, jval) act" where
  "send_snapshot_if h snap = done_undefined (whenA (truthy snap) (liftA (sendSnapshot (env_of h) snap)))"

definition handleSendScreenshot :: "'w host \<Rightarrow> action \<Rightarrow> ('w, jval) act" where
  "handleSendScreenshot h a =
     (let name = str_field a ''name'' ''screenshot'' in
      bindA (if truthy (leafField a ''target'')
             then bindA (target_field a ''target'') (\<lambda>t. liftA (saveSnapshot (env_of h) name ''screenshot''))
             else liftA (screenshot (browser_of h) name))
        (send_snapshot_if h))"

definition handleSendHtml :: "'w host \<Rightarrow> action \<Rightarrow> ('w, jval) act" where
  "handleSendHtml h a =
     bindA (if truthy (leafField a ''target'')
            then bindA (target_node h a (timeout_or 5000 a)) (\<lambda>el. readA (\<lambda>s. outerHtml (browser_of h) s el))
            else readA (documentHtml (browser_of h)))
       (\<lambda>html. done_undefined (liftA (sendResult (env_of h) (JObj [(str_field a ''name'' ''html'', JStr html)])
                 (leafField a ''immediate'' \<noteq> JBool False))))"

definition handleEmitEvent :: "'w host \<Rightarrow> action \<Rightarrow> ('w, jval) act" where
  "handleEmitEvent h a =
     (if \<not> truthy (leafField a ''event'') then throwA (Error ''ScriptError: emitEvent requires a non-empty event name'')
      else bindA (interpA (coalesce (leafField a ''payload'') (JObj [])))
        (\<lambda>v. done_undefined (fire h None (CustomEv (js_String (leafField a ''event'')) v))))"

definition handleUpdateStatus :: "'w host \<Rightarrow> action \<Rightarrow> ('w, jval) act" where
  "handleUpdateStatus h a =
     bindA (interpA (leafField a ''message''))
       (\<lambda>m. done_undefined (liftA (sendStatus (env_of h) (js_String (leafField a ''status'')) (js_String m))))"

definition checkpoint_value :: "checkpoint_record \<Rightarrow> jval" where
  "checkpoint_value c = JObj [(''stepId'', JStr (cpStepId c)), (''url'', JStr (cpUrl c)), (''variables'', JObj (cpVariables c)),
     (''extracted'', JObj (cpExtracted c)), (''timestamp'', jint (cpTimestamp c))]"

definition handleCheckpoint :: "'w host \<Rightarrow> action \<Rightarrow> ('w, jval) act" where
  "handleCheckpoint h a =
     bindA (readA (\<lambda>s. \<lparr>cpStepId = js_String (leafField a ''name''), cpUrl = getUrl (env_of h) s, cpVariables = variables (fst s),
                      cpExtracted = extracted (fst s), cpTimestamp = dateNow (browser_of h) s\<rparr>))
       (\<lambda>cp. thenA (liftA (modifyCtx (\<lambda>c. c\<lparr>checkpoint := Some cp\<rparr>)))
          (done_undefined (liftA (sendLog (env_of h) ''info'' (''Checkpoint saved: '' @ js_String (leafField a ''name''))
             (Some [(''checkpoint'', checkpoint_value cp)])))))"

definition flush_results :: "'w host \<Rightarrow> ('w, unit) act" where
  "flush_results h = (case flushResults (env_of h) of None \<Rightarrow> returnA () | Some f \<Rightarrow> liftA f)"

definition handleHeartbeat :: "'w host \<Rightarrow> action \<Rightarrow> ('w, jval) act" where
  "handleHeartbeat h a =
     bindA (interpA (coalesce (leafField a ''payload'') (JObj [])))
       (\<lambda>v. bindA (liftA (sendHeartbeat (env_of h) (Some (spread_of v)))) (\<lambda>_. returnA JUndef))"

definition handleSaveSnapshot :: "'w host \<Rightarrow> action \<Rightarrow> ('w, jval) act" where
  "handleSaveSnapshot h a =
     bindA (liftA (saveSnapshot (env_of h) (js_String (leafField a ''name'')) (str_field a ''type'' ''html''))) (send_snapshot_if h)"

definition handleAbort :: "'w host \<Rightarrow> action \<Rightarrow> ('w, jval) act" where
  "handleAbort h a =
     thenA (whenA (truthy (leafField a ''flushBeforeAbort'')) (flush_results h))
       (throwA (Error (''Aborted: '' @ str_field a ''reason'' ''unknown'')))"

definition handleSetTag :: "'w host \<Rightarrow> action \<Rightarrow> ('w, jval) act" where
  "handleSetTag h a =
     thenA (liftA (modifyCtx (\<lambda>c. c\<lparr>tags := Some (al_merge (case tags c of None \<Rightarrow> [] | Some ts \<Rightarrow> ts) (spread_of (leafField a ''tags'')))\<rparr>)))
       (done_undefined (\<lambda>s. liftA (sendLog (env_of h) ''info'' ''setTag''
          (Some [(''set'', leafField a ''tags''), (''active'', JObj (case tags (fst s) of None \<Rightarrow> [] | Some ts \<Rightarrow> ts))])) s))"

definition handleLogMetric :: "'w host \<Rightarrow> action \<Rightarrow> ('w, jval) act" where
  "handleLogMetric h a =
     bindA (if is_string (leafField a ''value'')
            then bindA (interpA (leafField a ''value'')) (\<lambda>v. returnA (JNum (js_Number v)))
            else returnA (leafField a ''value''))
       (\<lambda>v. done_undefined (liftA (sendLog (env_of h) ''info'' ''metric''
          (Some [(''name'', leafField a ''name''), (''value'', v), (''unit'', leafField a ''unit''), (''tags'', leafField a ''tags'')]))))"


section \<open>Signals\<close>

definition handleBreakContinue :: "action \<Rightarrow> ('w, jval) act" where
  "handleBreakContinue a = throwA (FlowControlSignal (if actionType a = ''break'' then BreakSignal else ContinueSignal))"

definition exit_status :: "jval \<Rightarrow> run_status option" where
  "exit_status v =
     (if v = JStr ''success'' then Some Success else if v = JStr ''failure'' then Some Failure
      else if v = JStr ''cancelled'' then Some Cancelled else None)"

definition handleExit :: "action \<Rightarrow> ('w, jval) act" where
  "handleExit a =
     (let status = coalesce (leafField a ''status'') (JStr ''success'') in
      case exit_status status of
        None \<Rightarrow> throwA (Error (''ScriptError: invalid exit status '' @ js_String status))
      | Some st \<Rightarrow> throwA (ExitSignal st (str_field a ''message'' [])))"


section \<open>Guards\<close>

definition quota_config_of :: "action \<Rightarrow> quota_config" where
  "quota_config_of a = \<lparr>quotaType = js_String (leafField a ''type''), quotaLimit = leafField a ''limit'',
     quotaWindow = coalesce (leafField a ''cooldownMs'') (jint 60000), onExceeded = str_field a ''onExceeded'' ''fail''\<rparr>"

definition stored_quota :: "'w host \<Rightarrow> quota_config \<Rightarrow> 'w st \<Rightarrow> exn + jobj" where
  "stored_quota h q s =
     (let text = (case storageItem (browser_of h) s (quota_key q) of None \<Rightarrow> ''{}'' | Some x \<Rightarrow> x) in
      case parseJson (js_of h) text of
        Some (JObj fs) \<Rightarrow> Inr fs
      | Some _ \<Rightarrow> Inl (type_error ''the stored quota is not an object'')
      | None \<Rightarrow> Inl (JsError ''SyntaxError'' ''the stored quota is not JSON''))"

definition write_quota :: "'w host \<Rightarrow> quota_config \<Rightarrow> jobj \<Rightarrow> ('w, jval) act" where
  "write_quota h q stored = done_undefined (liftA (setStorageItem (browser_of h) (quota_key q) (json_or_undefined (JObj stored))))"

definition handleCheckQuota :: "'w host \<Rightarrow> action \<Rightarrow> ('w, jval) act" where
  "handleCheckQuota h a =
     (let q = quota_config_of a in
      bindA (readA (dateNow (browser_of h))) (\<lambda>now. bindA (\<lambda>s. sumA (stored_quota h q s) s)
        (\<lambda>stored. case quota_step q now stored of
           (Proceed, stored') \<Rightarrow> write_quota h q stored'
         | (WaitMs ms, stored') \<Rightarrow> thenA (pause h (case ms of Fin r \<Rightarrow> r | _ \<Rightarrow> 0)) (write_quota h q stored')
         | (Exceeded, _) \<Rightarrow> throwA (Error (''QuotaExceeded: '' @ quotaType q @ '' limit '' @ js_String (quotaLimit q)))
         | (Skipped, _) \<Rightarrow> returnA JUndef)))"

definition circuit_config_of :: "action \<Rightarrow> cb_config" where
  "circuit_config_of a = \<lparr>cbName = js_String (leafField a ''name''), threshold = num_field a ''failureThreshold'' 5,
     windowMs = num_field a ''windowMs'' 60000, cooldownMs = num_field a ''cooldownMs'' 300000\<rparr>"

definition breaker_store :: "'w host \<Rightarrow> 'w st \<Rightarrow> jobj" where
  "breaker_store h s = (case circuitBreakers (browser_of h) s of JObj fs \<Rightarrow> fs | _ \<Rightarrow> [])"

text \<open>The steps of \<open>onOpen\<close> run before the refusal is thrown.\<close>

definition handleCircuitBreaker :: "(action list \<Rightarrow> ('w, step_result) act) \<Rightarrow> 'w host \<Rightarrow> action \<Rightarrow> ('w, jval) act" where
  "handleCircuitBreaker run_steps h a =
     (let cfg = circuit_config_of a in
      bindA (readA (\<lambda>s. circuit_call cfg (leafField a ''record'') (of_int (nowMs (env_of h) s)) (breaker_store h s)))
        (\<lambda>(store, verdict). thenA (liftA (setCircuitBreakers (browser_of h) (JObj store)))
           (case verdict of
              None \<Rightarrow> returnA JUndef
            | Some m \<Rightarrow>
                thenA (liftA (sendLog (env_of h) ''warn'' m (Some [(''state'', obj_get store (cbName cfg))])))
                  (bindA (case nested_steps a ''onOpen'' of None \<Rightarrow> returnA None | Some ss \<Rightarrow> run_steps ss)
                    (\<lambda>r. case r of
                       Some e \<Rightarrow> throwA (Error (errMessage e))
                     | None \<Rightarrow> throwA (Error (''CircuitBreakerOpen: '' @ cbName cfg)))))))"

end
