(* ===== verification/Execute_Action.thy ===== *)
theory Execute_Action
  imports Handlers_Page Effects
begin

text \<open>
  \<open>executeAction\<close> of \<open>src/scriptcat-engine/actions/index.ts\<close>: the dispatch on the type of a leaf action,
  and the four actions that run steps of their own. Those steps go through the interpreter of
  \<open>Executor_Utils\<close> with \<open>executeAction\<close> as its handler again; the recursion descends into the fields of
  the action. The interpreter watches a handler until the deadline of its step: which of the two is
  first, and the state then, is the parameter \<open>race\<close> (\<open>withTimeout\<close> and the event loop).
\<close>

type_synonym 'w race = "int \<Rightarrow> ('w, jval) act \<Rightarrow> 'w st \<Rightarrow> settle \<times> 'w st"

section \<open>Actions with steps of their own\<close>

definition retry_spec_of :: "jval \<Rightarrow> retry_spec option" where
  "retry_spec_of v =
     (case v of
        JNum (Fin r) \<Rightarrow> Some (RetryNumber \<lfloor>r\<rfloor>)
      | JObj fs \<Rightarrow> Some (RetryObject
          (case obj_get fs ''maxAttempts'' of JNum (Fin r) \<Rightarrow> Some \<lfloor>r\<rfloor> | _ \<Rightarrow> None)
          (case obj_get fs ''delay'' of
             JNum (Fin r) \<Rightarrow> Some (DelayMs \<lfloor>r\<rfloor>)
           | JArr [JNum (Fin lo), JNum (Fin hi)] \<Rightarrow> Some (DelayRange \<lfloor>lo\<rfloor> \<lfloor>hi\<rfloor>)
           | _ \<Rightarrow> None)
          (case obj_get fs ''backoff'' of JStr b \<Rightarrow> Some b | _ \<Rightarrow> None)
          (case obj_get fs ''retryOn'' of JArr vs \<Rightarrow> Some (map js_String vs) | _ \<Rightarrow> None))
      | _ \<Rightarrow> None)"

text \<open>One round of \<open>retry\<close>: a step that failed is thrown, so that both ways of failing are one\<close>

definition retry_round :: "(action list \<Rightarrow> ('w, step_result) act) \<Rightarrow> action list \<Rightarrow> ('w, unit) act" where
  "retry_round run_steps ss =
     bindA (run_steps ss) (\<lambda>r. case r of None \<Rightarrow> returnA () | Some e \<Rightarrow> throwA (Error (errMessage e)))"

primrec retry_rounds ::
  "nat \<Rightarrow> (action list \<Rightarrow> ('w, step_result) act) \<Rightarrow> 'w host \<Rightarrow> action \<Rightarrow> action list \<Rightarrow> retry_config
   \<Rightarrow> nat \<Rightarrow> exn option \<Rightarrow> ('w, jval) act" where
  "retry_rounds 0 run_steps h a ss rc attempt lastErr =
     throwA (case lastErr of None \<Rightarrow> JsError ''undefined'' ''undefined'' | Some e \<Rightarrow> e)"
| "retry_rounds (Suc n) run_steps h a ss rc attempt lastErr =
     catchA (bindA (retry_round run_steps ss) (\<lambda>_. returnA JUndef))
       (\<lambda>e. if is_signal e then throwA e
            else if n = 0 then throwA e
            else bindA (liftA (calculateDelay (env_of h) rc attempt))
              (\<lambda>d. thenA (liftA (sendLog (env_of h) ''warn''
                      (''Retrying group '' @ (case stepId (base a) of None \<Rightarrow> ''retry'' | Some i \<Rightarrow> i))
                      (Some [(''attempt'', jint (int attempt)), (''delay'', jint d)])))
                (thenA (liftA (sleepMs (env_of h) d))
                  (retry_rounds n run_steps h a ss rc (Suc attempt) (Some e)))))"

definition handleRetry :: "(action list \<Rightarrow> ('w, step_result) act) \<Rightarrow> 'w host \<Rightarrow> action \<Rightarrow> ('w, jval) act" where
  "handleRetry run_steps h a =
     (let rc = parseRetry (retry_spec_of (leafField a ''config'')) 0 None in
      retry_rounds (nat (maxAttempts rc + 1)) run_steps h a (or_empty (nested_steps a ''steps'')) rc 0 None)"

definition handleRequestHuman :: "(action list \<Rightarrow> ('w, step_result) act) \<Rightarrow> 'w host \<Rightarrow> action \<Rightarrow> ('w, jval) act" where
  "handleRequestHuman run_steps h a =
     bindA (\<lambda>s. liftA (requestHumanIntervention (env_of h)
          \<lparr>reqType = js_String (leafField a ''type''), reqPrompt = str_field a ''prompt'' ''human intervention required'',
           reqTimeoutMs = timeout_or 120000 a,
           reqStepId = (case stepId (base a) of Some i \<Rightarrow> i
             | None \<Rightarrow> (case lastStepId (fst s) of Some i \<Rightarrow> i | None \<Rightarrow> ''requestHuman:'' @ js_String (leafField a ''type''))),
           reqUrl = []\<rparr>) s)
       (\<lambda>_. bindA (case nested_steps a ''then'' of
               Some (x # xs) \<Rightarrow> run_steps (x # xs) | _ \<Rightarrow> returnA None)
         (\<lambda>r. case r of None \<Rightarrow> returnA JUndef | Some e \<Rightarrow> throwA (Error (errMessage e))))"

text \<open>The request \<open>solveCaptcha\<close> makes in its place\<close>

definition captcha_request :: action where
  "captcha_request = Leaf (empty_base\<lparr>timeout := Some 120000\<rparr>) ''requestHuman''
     [(''type'', JStr ''captcha''), (''prompt'', JStr ''Please solve the captcha'')] []"

definition handleSolveCaptcha :: "(action list \<Rightarrow> ('w, step_result) act) \<Rightarrow> 'w host \<Rightarrow> action \<Rightarrow> ('w, jval) act" where
  "handleSolveCaptcha run_steps h a =
     (if truthy (leafField a ''fallbackToHuman'')
      then bindA (handleRequestHuman run_steps h captcha_request) (\<lambda>_. returnA JNull)
      else throwA (Error ''CaptchaError: no captcha provider configured''))"

text \<open>\<open>recover\<close> calls \<open>executeAction\<close> on its steps itself.\<close>

definition handleRecover :: "(action \<Rightarrow> ('w, jval) act) \<Rightarrow> 'w host \<Rightarrow> action \<Rightarrow> ('w, jval) act" where
  "handleRecover exec h a =
     thenA
       (\<lambda>s. let name = leafField a ''checkpointName'' in
          whenA (truthy name \<and> (case checkpoint (fst s) of None \<Rightarrow> False | Some cp \<Rightarrow> JStr (cpStepId cp) = name))
            (\<lambda>s. liftA (sendLog (env_of h) ''info'' (''Recovering from checkpoint '' @ js_String name)
               (Some [(''checkpoint'', case checkpoint (fst s) of None \<Rightarrow> JUndef | Some cp \<Rightarrow> checkpoint_value cp)])) s) s)
       (done_undefined (eachA (\<lambda>x. bindA (exec x) (\<lambda>_. returnA ())) (or_empty (nested_steps a ''steps''))))"


section \<open>The dispatch\<close>

text \<open>The actions without steps of their own, by type\<close>

definition simple_handlers :: "'w host \<Rightarrow> action \<Rightarrow> (string \<times> ('w, jval) act) list" where
  "simple_handlers h a =
    [(''extract'', handleExtract h a), (''extractText'', handleExtractText h a), (''extractAttribute'', handleExtractAttribute h a),
     (''extractPageInfo'', handleExtractPageInfo h a), (''extractHtml'', handleExtractHtml h a), (''extractJson'', handleExtractJson h a),
     (''extractTable'', handleExtractTable h a), (''merge'', handleMerge a), (''click'', handleClick h a),
     (''doubleClick'', handleDoubleClick h a), (''rightClick'', handleRightClick h a), (''middleClick'', handleMiddleClick h a),
     (''hover'', handleHover h a), (''hoverClick'', handleHoverClick h a), (''moveMouse'', handleMoveMouse h a),
     (''pressAndHold'', handlePressAndHold h a), (''dragAndDrop'', handleDragAndDrop h a), (''dragBy'', handleDragBy h a),
     (''slide'', handleSlide h a), (''type'', handleType h a), (''paste'', handlePaste h a), (''clear'', handleClear h a),
     (''select'', handleSelect h a), (''check'', handleCheck h a), (''selectRadio'', handleSelectRadio h a),
     (''typeAndSelect'', handleTypeAndSelect h a), (''uploadFile'', handleUploadFile h a), (''focus'', handleFocus h a),
     (''blur'', handleBlur h a), (''tabToNext'', handleTab h a), (''tabToPrevious'', handleTab h a),
     (''pressKey'', handlePressKey h a), (''keyCombination'', handleKeyCombination h a), (''waitFor'', handleWaitFor h a),
     (''waitForText'', handleWaitForText h a), (''waitForTimeout'', handleWaitForTimeout h a),
     (''waitForElementHidden'', handleWaitForElementHidden h a), (''waitForUrl'', handleWaitForUrl h a),
     (''waitForElementVisible'', handleWaitForElementVisible h a), (''waitForFunction'', handleWaitForFunction h a),
     (''readPause'', handleReadPause h a), (''scrollToBottom'', handleScrollToBottom h a), (''scrollBy'', handleScrollBy h a),
     (''scrollToTop'', handleScrollToTop h), (''pageDown'', handlePageDown h a), (''pageUp'', handlePageDown h a),
     (''setStyle'', handleSetStyle h a), (''removeElement'', handleRemoveElement h a), (''scrollIntoView'', scroll_into_view h a),
     (''scrollTo'', scroll_into_view h a), (''navigate'', handleNavigate h a), (''reload'', handleReload h),
     (''goBack'', bindA (require_method ''goBack'' (goBack (browser_of h))) (\<lambda>f. done_undefined (liftA f))),
     (''goForward'', bindA (require_method ''goForward'' (goForward (browser_of h))) (\<lambda>f. done_undefined (liftA f))),
     (''setViewport'', bindA (require_method ''setViewport'' (setViewport (browser_of h))) (\<lambda>f. done_undefined (liftA (f (viewport_of a))))),
     (''waitForNetworkIdle'', bindA (require_method ''waitForNetworkIdle'' (waitForNetworkIdle (env_of h)))
        (\<lambda>f. done_undefined (liftA (f \<lfloor>num_field a ''idleTime'' 500\<rfloor> (timeout_or 30000 a))))),
     (''evaluate'', handleEvaluate h a), (''sendResult'', handleSendResult h a), (''sendLog'', handleSendLog h a),
     (''sendScreenshot'', handleSendScreenshot h a), (''sendHtml'', handleSendHtml h a), (''emitEvent'', handleEmitEvent h a),
     (''updateStatus'', handleUpdateStatus h a), (''checkpoint'', handleCheckpoint h a),
     (''flushResults'', done_undefined (flush_results h)), (''heartbeat'', handleHeartbeat h a),
     (''saveSnapshot'', handleSaveSnapshot h a), (''abort'', handleAbort h a), (''transform'', handleTransform h a),
     (''filter'', handleFilter h a), (''deduplicate'', handleDeduplicate a), (''validateData'', handleValidateData h a),
     (''setTag'', handleSetTag h a), (''logMetric'', handleLogMetric h a), (''checkQuota'', handleCheckQuota h a),
     (''sleep'', handleWaitForTimeout h a), (''break'', handleBreakContinue a), (''continue'', handleBreakContinue a),
     (''exit'', handleExit a)]"

definition FLOW_TYPES :: "string list" where
  "FLOW_TYPES = [''if'', ''loop'', ''switch'', ''group'']"

text \<open>\<open>exec\<close> is the handler of nested steps.\<close>

definition dispatch ::
  "'w race \<Rightarrow> 'w host \<Rightarrow> (action \<Rightarrow> ('w, jval) act) \<Rightarrow> action \<Rightarrow> ('w, jval) act" where
  "dispatch race h exec a =
     (let t = actionType a;
          run_steps = (\<lambda>ss. liftA (runSteps (env_of h) (\<lambda>x ms. race ms (exec x)) ss None))
      in if t = ''circuitBreaker'' then handleCircuitBreaker run_steps h a
         else if t = ''requestHuman'' then handleRequestHuman run_steps h a
         else if t = ''solveCaptcha'' then handleSolveCaptcha run_steps h a
         else if t = ''recover'' then handleRecover exec h a
         else if t = ''retry'' then handleRetry run_steps h a
         else if t \<in> set FLOW_TYPES then
           throwA (Error (''ScriptError: flow-control action '' @ [CHR 0x27] @ t @ [CHR 0x27]
             @ '' must be dispatched via runSteps, not executeAction''))
         else (case map_of (simple_handlers h a) t of
                 Some m \<Rightarrow> m
               | None \<Rightarrow> throwA (Error (''Unsupported action: '' @ t))))"

primrec execute_depth :: "nat \<Rightarrow> 'w race \<Rightarrow> 'w host \<Rightarrow> action \<Rightarrow> ('w, jval) act" where
  "execute_depth 0 race h a = (\<lambda>s. None)"
| "execute_depth (Suc n) race h a = dispatch race h (execute_depth n race h) a"

definition executeAction :: "'w race \<Rightarrow> 'w host \<Rightarrow> action \<Rightarrow> ('w, jval) act" where
  "executeAction race h a = execute_depth (Suc (size a)) race h a"

text \<open>\<open>executeAction\<close> as the handler of the interpreter\<close>

definition action_handler :: "'w race \<Rightarrow> 'w host \<Rightarrow> 'w handler" where
  "action_handler race h = (\<lambda>a ms. race ms (executeAction race h a))"

end
