(* ===== verification/Execute_Laws.thy ===== *)
theory Execute_Laws
  imports Execute_Action
begin

text \<open>
  Facts about \<open>executeAction\<close>: the recursion through the steps of an action is well founded, so that
  the fuel of \<open>execute_depth\<close> never runs out; and what the handlers, all of them, leave of a property
  of the world that the operations of the page keep.
\<close>

section \<open>The interpreter looks at its handler at smaller steps only\<close>

lemma executeWithTimeout_cong:
  assumes "exec a = exec' a"
  shows "executeWithTimeout env exec a t soft = executeWithTimeout env exec' a t soft"
  unfolding executeWithTimeout_def assms ..

lemma step_attempts_cong:
  assumes "exec a = exec' a"
  shows "step_attempts n env exec a t rc k lastErr = step_attempts n env exec' a t rc k lastErr"
proof -
  have eq: "executeWithTimeout env exec a t soft = executeWithTimeout env exec' a t soft" for soft
    by (rule executeWithTimeout_cong) (rule assms)
  show ?thesis by (induction n arbitrary: k lastErr) (auto simp: eq cong: if_cong)
qed

lemma runStep_cong:
  assumes "exec a = exec' a" shows "runStep env exec a = runStep env exec' a"
proof -
  have eq: "step_attempts n env exec a t rc k e = step_attempts n env exec' a t rc k e" for n t rc k e
    by (rule step_attempts_cong) (rule assms)
  show ?thesis unfolding runStep_def runStepBody_def eq ..
qed

lemma run_action_cong:
  assumes "\<And>x. size x \<le> size a \<Longrightarrow> exec x = exec' x"
  shows "run_action env exec a opts p = run_action env exec' a opts p"
  using assms
proof (induction a arbitrary: opts p rule: measure_induct_rule [of size])
  case (less a)
  have sub: "run_action env exec x o' q = run_action env exec' x o' q" if "size x < size a" for x o' q
    using less.IH [OF that] less.prems that by simp
  show ?case
  proof (cases a)
    case (Leaf b t fs nested)
    then show ?thesis using less.prems runStep_cong [of exec a exec'] by (simp add: run_action.simps)
  next
    case (IfA b c th el)
    have "run_steps_with env (run_action env exec) (branch_steps br th el) os
        = run_steps_with env (run_action env exec') (branch_steps br th el) os" for br os
      by (rule run_steps_with_cong) (use sub IfA size_branch_steps in auto)
    then show ?thesis by (simp add: IfA run_action.simps)
  next
    case (LoopA b kind m body)
    have "run_steps_with env (run_action env exec) body os = run_steps_with env (run_action env exec') body os" for os
      by (rule run_steps_with_cong) (use sub LoopA size_list_member in auto)
    then show ?thesis by (simp add: LoopA run_action.simps)
  next
    case (SwitchA b expr cases' def)
    show ?thesis
    proof (cases cases')
      case (Some cs)
      have "run_steps_with env (run_action env exec) chosen os = run_steps_with env (run_action env exec') chosen os"
        if "choose_case expr cs def rf c = (k, chosen)" for rf c k chosen os
        by (rule run_steps_with_cong) (use sub SwitchA Some that size_choose_case [of _ expr cs def rf c b] in auto)
      then have "(case choose_case expr cs def rf c of (k, chosen) \<Rightarrow>
            throw_on_error (run_steps_with env (run_action env exec) chosen (child_options opts p (SwitchFrame k))) s)
          = (case choose_case expr cs def rf c of (k, chosen) \<Rightarrow>
            throw_on_error (run_steps_with env (run_action env exec') chosen (child_options opts p (SwitchFrame k))) s)" for rf c s
        by (auto split: prod.split)
      then show ?thesis unfolding SwitchA Some run_action.simps option.case by simp
    qed (simp add: SwitchA run_action.simps)
  next
    case (GroupA b body)
    have "run_steps_with env (run_action env exec) body os = run_steps_with env (run_action env exec') body os" for os
      by (rule run_steps_with_cong) (use sub GroupA size_list_member in auto)
    then show ?thesis by (simp add: GroupA run_action.simps)
  qed
qed

lemma runSteps_cong:
  assumes "\<And>x y. x \<in> set as \<Longrightarrow> size y \<le> size x \<Longrightarrow> exec y = exec' y"
  shows "runSteps env exec as opts = runSteps env exec' as opts"
  unfolding runSteps_def
proof (rule run_steps_with_cong)
  show "run_action env exec a o' p s = run_action env exec' a o' p s" if "a \<in> set as" for a o' p s
    by (rule arg_cong2 [where f = "\<lambda>m s. m s"], rule run_action_cong) (use assms that in auto)
qed (rule refl)+


section \<open>Nested steps are smaller\<close>

lemma size_nested_steps:
  assumes "nested_steps a k = Some ss" and "x \<in> set ss" shows "size x < size a"
proof -
  obtain b t fs ns where a: "a = Leaf b t fs ns" and m: "map_of ns k = Some ss"
    using assms(1) by (cases a) (auto simp: nested_steps_def)
  have "size x \<le> size_list size ss" using size_list_member [OF assms(2)] by simp
  moreover have "size_list size ss < size_list (size_prod (\<lambda>_. 0) (size_list size)) ns"
    using map_of_SomeD [OF m] by (induction ns) auto
  ultimately show ?thesis by (simp add: a)
qed

lemma nested_captcha [simp]: "nested_steps captcha_request k = None"
  by (simp add: nested_steps_def captcha_request_def)

lemma eachA_cong: "(\<And>x. x \<in> set xs \<Longrightarrow> f x = g x) \<Longrightarrow> eachA f xs = eachA g xs"
  by (induction xs) auto

lemma dispatch_cong:
  fixes race :: "'w race"
  assumes "\<And>x. size x < size a \<Longrightarrow> exec x = exec' x"
  shows "dispatch race h exec a = dispatch race h exec' a"
proof -
  let ?run = "\<lambda>exec ss. liftA (runSteps (env_of h) (\<lambda>x ms. race ms (exec x)) ss None) :: ('w, step_result) act"
  have run: "?run exec ss = ?run exec' ss" if "nested_steps a k = Some ss" for k ss
    by (intro arg_cong [where f = liftA] runSteps_cong ext arg_cong [where f = "race _"] assms)
      (use size_nested_steps [OF that] in \<open>auto intro: le_less_trans\<close>)
  have rounds: "retry_rounds n (?run exec) h a ss rc k e = retry_rounds n (?run exec') h a ss rc k e"
    if "?run exec ss = ?run exec' ss" for n ss rc k e
    by (induction n arbitrary: k e) (auto simp: retry_round_def that cong: if_cong)
  have "?run exec (or_empty (nested_steps a k)) = ?run exec' (or_empty (nested_steps a k))" for k
    using run [of k] by (cases "nested_steps a k") (auto simp: or_empty_def runSteps_def run_steps_with_def)
  then have "handleRetry (?run exec) h a = handleRetry (?run exec') h a"
    unfolding handleRetry_def by (simp add: rounds)
  moreover have "handleCircuitBreaker (?run exec) h a = handleCircuitBreaker (?run exec') h a"
    unfolding handleCircuitBreaker_def Let_def
    by (intro arg_cong [where f = "bindA _"] ext) (auto simp: run split: option.split prod.split)
  moreover have "handleRequestHuman (?run exec) h a = handleRequestHuman (?run exec') h a"
    unfolding handleRequestHuman_def
    by (intro arg_cong [where f = "bindA _"] ext) (auto simp: run split: option.split list.split)
  moreover have "handleSolveCaptcha (?run exec) h a = handleSolveCaptcha (?run exec') h a"
    by (simp add: handleSolveCaptcha_def handleRequestHuman_def)
  moreover have "handleRecover exec h a = handleRecover exec' h a"
  proof -
    have "exec x = exec' x" if "x \<in> set (or_empty (nested_steps a ''steps''))" for x
      using that by (cases "nested_steps a ''steps''") (auto simp: or_empty_def intro: assms size_nested_steps)
    then show ?thesis unfolding handleRecover_def
      by (intro arg_cong [where f = "thenA _"] arg_cong [where f = done_undefined] eachA_cong) simp
  qed
  ultimately show ?thesis
    unfolding dispatch_def Let_def by presburger
qed

lemma execute_depth_enough:
  "size a < n \<Longrightarrow> size a < m \<Longrightarrow> execute_depth n race h a = execute_depth m race h a"
proof (induction n arbitrary: m a)
  case (Suc n)
  then obtain k where m: "m = Suc k" by (cases m) auto
  have "execute_depth n race h x = execute_depth k race h x" if "size x < size a" for x
    
    by (rule Suc.IH) (use Suc.prems m that in linarith)+
  then show ?case unfolding m execute_depth.simps by (rule dispatch_cong)
qed simp

lemma executeAction_step: "executeAction race h a = dispatch race h (executeAction race h) a"
proof -
  have "executeAction race h a = dispatch race h (execute_depth (size a) race h) a"
    by (simp add: executeAction_def)
  also have "\<dots> = dispatch race h (executeAction race h) a"
    by (rule dispatch_cong) (auto simp: executeAction_def simp del: execute_depth.simps intro: execute_depth_enough)
  finally show ?thesis .
qed



end
