(* ===== verification/Action_Effects.thy ===== *)
theory Action_Effects
  imports Execute_Laws
begin

text \<open>
  What the handlers of the leaf actions leave of a property of the world. A property that the
  operations of the page and of the environment keep is kept by every handler, and so by the
  interpreter with them; the one operation that is only called under a guard, the assignment of the
  page's location, need only keep it for the URLs that guard admits.
\<close>

named_theorems keeps_intros \<open>what keeps a property of the world\<close>

section \<open>Sequencing\<close>

definition keepsR :: "('w \<Rightarrow> bool) \<Rightarrow> ('w, 'a) run \<Rightarrow> bool" where
  "keepsR P m \<longleftrightarrow> (\<forall>s r s'. m s = (r, s') \<longrightarrow> P (snd s) \<longrightarrow> P (snd s'))"

definition keepsA :: "('w \<Rightarrow> bool) \<Rightarrow> ('w, 'a) act \<Rightarrow> bool" where
  "keepsA P m \<longleftrightarrow> (\<forall>s r s'. m s = Some (r, s') \<longrightarrow> P (snd s) \<longrightarrow> P (snd s'))"

lemma keepsR_eff: "keepsR P m \<longleftrightarrow> eff (preserves P) 0 m"
  by (auto simp: keepsR_def eff_def preserves_def)

lemma keepsA_I: "(\<And>s r s'. m s = Some (r, s') \<Longrightarrow> P (snd s) \<Longrightarrow> P (snd s')) \<Longrightarrow> keepsA P m"
  unfolding keepsA_def by blast

lemma keepsA_D: "keepsA P m \<Longrightarrow> m s = Some (r, s') \<Longrightarrow> P (snd s) \<Longrightarrow> P (snd s')"
  unfolding keepsA_def by blast

lemma keepsR_D: "keepsR P m \<Longrightarrow> m s = (r, s') \<Longrightarrow> P (snd s) \<Longrightarrow> P (snd s')"
  unfolding keepsR_def by blast

lemma keeps_lift [keeps_intros]: "keepsR P m \<Longrightarrow> keepsA P (liftA m)"
  by (simp add: keepsA_def keepsR_def liftA_def)

lemma keeps_pure [keeps_intros]:
  "keepsA P (returnA a)" "keepsA P (throwA e)" "keepsA P (readA f)" "keepsA P (interpA v)" "keepsA P (\<lambda>s. None)"
  "keepsR P (modifyCtx g)" "keepsR P (returnR a)" "keepsR P (throwR e)"
  by (simp_all add: keepsA_def keepsR_def interpA_def interp_def liftA_def)

lemma keeps_bind [keeps_intros]: "keepsA P m \<Longrightarrow> (\<And>a. keepsA P (k a)) \<Longrightarrow> keepsA P (bindA m k)"
  by (rule keepsA_I) (auto simp: bindA_def split: option.splits prod.splits outcome.splits dest!: keepsA_D)

lemma keeps_then [keeps_intros]: "keepsA P m \<Longrightarrow> keepsA P k \<Longrightarrow> keepsA P (thenA m k)"
  unfolding thenA_def by (rule keeps_bind)

lemma keeps_thenR [keeps_intros]: "keepsR P m \<Longrightarrow> keepsR P k \<Longrightarrow> keepsR P (thenR m k)"
  unfolding keepsR_eff by (rule preserving.eff_thenR0)

lemma keeps_catch [keeps_intros]: "keepsA P m \<Longrightarrow> (\<And>e. keepsA P (k e)) \<Longrightarrow> keepsA P (catchA m k)"
  by (rule keepsA_I) (auto simp: catchA_def split: option.splits prod.splits outcome.splits dest!: keepsA_D)

lemma keeps_when [keeps_intros]: "keepsA P m \<Longrightarrow> keepsA P (whenA b m)"
  by (simp add: whenA_def keeps_pure)

lemma keeps_sum [keeps_intros]: "keepsA P (sumA x)"
  by (cases x) (simp_all add: sumA_def keeps_pure)

lemma keeps_done [keeps_intros]: "keepsA P m \<Longrightarrow> keepsA P (done_undefined m)"
  unfolding done_undefined_def by (intro keeps_intros)

lemma keeps_each [keeps_intros]: "(\<And>x. keepsA P (f x)) \<Longrightarrow> keepsA P (eachA f xs)"
  by (induction xs) (simp_all add: keeps_intros)

lemma keeps_fun: "(\<And>s. keepsA P (f s)) \<Longrightarrow> keepsA P (\<lambda>s. f s s)"
  unfolding keepsA_def by blast

lemma keepsR_fun: "(\<And>s. keepsR P (f s)) \<Longrightarrow> keepsR P (\<lambda>s. f s s)"
  unfolding keepsR_def by blast

text \<open>Computations that read the state at which they start\<close>

lemma keeps_at [keeps_intros]:
  "(\<And>s. keepsA P (m s)) \<Longrightarrow> (\<And>s x. keepsA P (k s x)) \<Longrightarrow> keepsA P (\<lambda>s. bindA (m s) (k s) s)"
  "(\<And>s. keepsR P (g s)) \<Longrightarrow> keepsA P (\<lambda>s. liftA (g s) s)"
  "keepsA P (\<lambda>s. sumA (x s) s)"
  using keeps_fun [of P "\<lambda>s. bindA (m s) (k s)"] keeps_fun [of P "\<lambda>s. liftA (g s)"] keeps_fun [of P "\<lambda>s. sumA (x s)"]
  by (simp_all add: keeps_bind keeps_lift keeps_sum)

lemma keeps_poll [keeps_intros]:
  assumes "\<And>x. keepsA P (body x)" shows "keepsA P (poll guard body x)"
proof (rule keepsA_I)
  fix s r s' assume run: "poll guard body x s = Some (r, s')" and "P (snd s)"
  have "P (snd s) \<longrightarrow> P (snd s')"
    by (rule poll_keeps [OF _ _ _ run, where P = "\<lambda>s s'. P (snd s) \<longrightarrow> P (snd s')"])
      (auto dest: keepsA_D [OF assms])
  then show "P (snd s')" using \<open>P (snd s)\<close> by simp
qed

lemma keeps_cases [keeps_intros]:
  "(b \<Longrightarrow> keepsA P m) \<Longrightarrow> (\<not> b \<Longrightarrow> keepsA P m') \<Longrightarrow> keepsA P (if b then m else m')"
  "keepsA P m \<Longrightarrow> (\<And>x. keepsA P (k x)) \<Longrightarrow> keepsA P (case v of None \<Rightarrow> m | Some x \<Rightarrow> k x)"
  "(\<And>x y. keepsA P (g x y)) \<Longrightarrow> keepsA P (case p of (x, y) \<Rightarrow> g x y)"
  by (auto split: option.split prod.split)

lemma keeps_set_extracted [keeps_intros]: "keepsA P (set_extracted a v)"
  unfolding set_extracted_def by (intro keeps_intros)

lemma keeps_target_field [keeps_intros]: "keepsA P (target_field a k)"
  unfolding target_field_def
  by (auto intro!: keeps_intros preserving.eff_resolve_target simp: keepsR_eff split: jval.split)


section \<open>The operations of the page\<close>

definition page_keeps :: "('w \<Rightarrow> bool) \<Rightarrow> 'w browser \<Rightarrow> bool" where
  "page_keeps P b \<longleftrightarrow>
     (\<forall>t ms. keepsA P (findNode b t ms) \<and> keepsA P (findNodes b t ms))
     \<and> (\<forall>n e. keepsR P (dispatchEvent b n e))
     \<and> (\<forall>n. (\<forall>v. keepsR P (setValue b n v)) \<and> keepsR P (clickNode b n) \<and> keepsR P (focusNode b n)
          \<and> keepsR P (blurNode b n) \<and> (\<forall>fs. keepsR P (setFiles b n fs)) \<and> (\<forall>st. keepsR P (setStyle b n st))
          \<and> keepsR P (removeNode b n) \<and> (\<forall>v. keepsR P (scrollNodeIntoView b n v)))
     \<and> (\<forall>n x y. keepsR P (scrollNodeBy b n x y)) \<and> (\<forall>y. keepsR P (scrollWindowTo b y))
     \<and> (\<forall>p. keepsR P (setLastMouse b p)) \<and> (\<forall>v. keepsR P (setCircuitBreakers b v))
     \<and> (\<forall>k v. keepsR P (setStorageItem b k v)) \<and> keepsR P (reloadPage b) \<and> (\<forall>n. keepsR P (screenshot b n))
     \<and> (\<forall>f. goBack b = Some f \<longrightarrow> keepsR P f) \<and> (\<forall>f. goForward b = Some f \<longrightarrow> keepsR P f)
     \<and> (\<forall>f v. setViewport b = Some f \<longrightarrow> keepsR P (f v))"

definition env_keeps :: "('w \<Rightarrow> bool) \<Rightarrow> 'w env \<Rightarrow> bool" where
  "env_keeps P env \<longleftrightarrow>
     services_free (preserves P) env \<and> lookups_free (preserves P) env
     \<and> (\<forall>x m. keepsR P (sendStatus env x m)) \<and> (\<forall>v. keepsR P (sendSnapshot env v))
     \<and> (\<forall>n t. keepsR P (saveSnapshot env n t)) \<and> (\<forall>f. flushResults env = Some f \<longrightarrow> keepsR P f)
     \<and> (\<forall>p. keepsR P (sendHeartbeat env p))"

definition HTTP_SCHEMES :: "string list" where
  "HTTP_SCHEMES = [''http:'', ''https:'']"

text \<open>Assigning the location keeps the property for \<open>http\<close> and \<open>https\<close> URLs, nothing is said of others.\<close>

definition assigning_http_keeps :: "('w \<Rightarrow> bool) \<Rightarrow> 'w host \<Rightarrow> bool" where
  "assigning_http_keeps P h \<longleftrightarrow>
     (\<forall>u s p r s'. urlProtocol (browser_of h) u (getUrl (env_of h) s) = Some p \<longrightarrow> p \<in> set HTTP_SCHEMES
        \<longrightarrow> assignLocation (browser_of h) u s = (r, s') \<longrightarrow> P (snd s) \<longrightarrow> P (snd s'))"

text \<open>Watching a handler until a deadline does to the world what the handler does.\<close>

definition race_keeps :: "('w \<Rightarrow> bool) \<Rightarrow> 'w race \<Rightarrow> bool" where
  "race_keeps P race \<longleftrightarrow>
     (\<forall>ms m s r s'. keepsA P m \<longrightarrow> race ms m s = (r, s') \<longrightarrow> P (snd s) \<longrightarrow> P (snd s'))"

definition host_keeps :: "('w \<Rightarrow> bool) \<Rightarrow> 'w host \<Rightarrow> bool" where
  "host_keeps P h \<longleftrightarrow> page_keeps P (browser_of h) \<and> env_keeps P (env_of h) \<and> assigning_http_keeps P h"

lemma host_page:
  assumes "host_keeps P h"
  shows "keepsA P (findNode (browser_of h) t ms)" "keepsA P (findNodes (browser_of h) t ms)"
    "keepsR P (dispatchEvent (browser_of h) n' e)" "keepsR P (setValue (browser_of h) n v)" "keepsR P (clickNode (browser_of h) n)"
    "keepsR P (focusNode (browser_of h) n)" "keepsR P (blurNode (browser_of h) n)" "keepsR P (setFiles (browser_of h) n fs)"
    "keepsR P (setStyle (browser_of h) n st)" "keepsR P (removeNode (browser_of h) n)"
    "keepsR P (scrollNodeIntoView (browser_of h) n w)" "keepsR P (scrollNodeBy (browser_of h) n' x y)"
    "keepsR P (scrollWindowTo (browser_of h) y)" "keepsR P (setLastMouse (browser_of h) q)"
    "keepsR P (setCircuitBreakers (browser_of h) w)" "keepsR P (setStorageItem (browser_of h) k v)"
    "keepsR P (reloadPage (browser_of h))" "keepsR P (screenshot (browser_of h) v)"
    "goBack (browser_of h) = Some f \<Longrightarrow> keepsR P f" "goForward (browser_of h) = Some f \<Longrightarrow> keepsR P f"
    "setViewport (browser_of h) = Some g \<Longrightarrow> keepsR P (g w)"
  using assms unfolding host_keeps_def page_keeps_def by (simp_all del: split_paired_All)

lemma host_env:
  assumes "host_keeps P h"
  shows "services_free (preserves P) (env_of h)" "lookups_free (preserves P) (env_of h)"
    "keepsR P (sendStatus (env_of h) x m)" "keepsR P (sendSnapshot (env_of h) v)" "keepsR P (saveSnapshot (env_of h) n t)"
    "flushResults (env_of h) = Some f \<Longrightarrow> keepsR P f" "keepsR P (sendHeartbeat (env_of h) p)"
  using assms unfolding host_keeps_def env_keeps_def by simp_all

lemma host_services:
  assumes "host_keeps P h"
  shows "keepsR P (sleepMs (env_of h) d)" "keepsR P (random (env_of h))" "keepsR P (sendLog (env_of h) l m x)"
    "keepsR P (sendResult (env_of h) v b)" "keepsR P (evaluate (env_of h) e vs)"
    "keepsR P (requestHumanIntervention (env_of h) req)" "keepsR P (calculateDelay (env_of h) rc n)"
    "waitForNetworkIdle (env_of h) = Some w \<Longrightarrow> keepsR P (w i t)"
  using preserving.services [OF host_env(1) [OF assms]] preserving.lookups [OF host_env(2) [OF assms]]
    preserving.eff_requestHumanIntervention [OF host_env(1) [OF assms]] preserving.eff_calculateDelay [OF host_env(1) [OF assms]]
  by (simp_all add: keepsR_eff)


section \<open>The handlers\<close>

lemma keeps_page_helpers:
  assumes H: "host_keeps P h"
  shows "keepsA P (require_node h t ms)" "keepsA P (target_node h a ms)" "keepsA P (pause h r)" "keepsA P (draw h)"
    "keepsA P (random_between h v)" "keepsA P (duration_of h v)" "keepsA P (jitter h r)"
    "keepsA P (waitForUrlChange h u ms)" "keepsA P (fire h el e)" "keepsA P (mouse_at h n ty b x y)"
    "keepsA P (dispatchMouseEvent h n ty b)" "keepsA P (dispatchMouseMove h x y)"
  unfolding require_node_def target_node_def pause_def draw_def random_between_def duration_of_def jitter_def
    waitForUrlChange_def fire_def mouse_at_def dispatchMouseEvent_def dispatchMouseMove_def Let_def
  by (intro keeps_intros host_page [OF H] host_services [OF H])+

lemma keeps_human_pace:
  assumes H: "host_keeps P h"
  shows "(\<And>t. keepsA P (point t)) \<Longrightarrow> keepsA P (move_along h n ms point)" "keepsA P (shaken h w p q t)"
    "keepsA P (randomOffset h v)" "keepsA P (pause_range h v)" "keepsA P (humanizeBefore h a el)" "keepsA P (humanizeAfter h a)"
proof -
  show move: "(\<And>t. keepsA P (point t)) \<Longrightarrow> keepsA P (move_along h n ms point)" for n ms point
    unfolding move_along_def by (intro keeps_intros keeps_page_helpers [OF H])
  show shaken: "keepsA P (shaken h w p q t)" for w p q t
    unfolding shaken_def by (intro keeps_intros keeps_page_helpers [OF H])
  show off: "keepsA P (randomOffset h v)" for v
    unfolding randomOffset_def by (intro keeps_intros keeps_page_helpers [OF H])
  show range: "keepsA P (pause_range h v)" for v
    unfolding pause_range_def by (intro keeps_intros keeps_page_helpers [OF H])
  show "keepsA P (humanizeBefore h a el)"
    unfolding humanizeBefore_def Let_def by (intro keeps_intros range off move shaken)
  show "keepsA P (humanizeAfter h a)"
    unfolding humanizeAfter_def by (intro keeps_intros range)
qed

lemma keeps_extracted_at [keeps_intros]: "keepsA P (\<lambda>s. set_extracted a (f s) s)"
  using keeps_fun [of P "\<lambda>s. set_extracted a (f s)"] by (simp add: keeps_set_extracted)

lemma keeps_extractions:
  assumes H: "host_keeps P h"
  shows "keepsA P (handleExtract h a)" "keepsA P (handleExtractText h a)" "keepsA P (handleExtractAttribute h a)"
    "keepsA P (handleExtractPageInfo h a)" "keepsA P (handleExtractHtml h a)" "keepsA P (handleExtractJson h a)"
  unfolding handleExtract_def handleExtractText_def handleExtractAttribute_def handleExtractPageInfo_def
    handleExtractHtml_def handleExtractJson_def optional_node_def Let_def
  by (intro keeps_intros keeps_page_helpers [OF H] host_page [OF H])+

lemma keeps_extract_table: "host_keeps P h \<Longrightarrow> keepsA P (handleExtractTable h a)"
  unfolding handleExtractTable_def Let_def split_beta by (intro keeps_intros keeps_page_helpers)

lemma keeps_merge: "keepsA P (handleMerge a)"
proof (rule keepsA_I)
  fix s r s' assume run: "handleMerge a s = Some (r, s')" and P: "P (snd s)"
  have "keepsA P (bindA (sumA x) (set_extracted a))" for x by (intro keeps_intros)
  then show "P (snd s')" using run P by (auto simp: handleMerge_def split: option.splits dest: keepsA_D)
qed

lemma keeps_computed [keeps_intros]: "keepsA P (computed f a)"
  unfolding computed_def by (intro keeps_intros)

lemma keeps_data:
  assumes H: "host_keeps P h"
  shows "keepsA P (handleTransform h a)" "keepsA P (handleFilter h a)" "keepsA P (handleDeduplicate a)"
    "keepsA P (handleValidateData h a)"
  unfolding handleTransform_def handleFilter_def handleDeduplicate_def handleValidateData_def
  by (intro keeps_intros host_services [OF H])+

lemma keeps_waiting:
  assumes H: "host_keeps P h" and "keepsA P look"
  shows "keepsA P (wait_for h limit look gap)" "keepsA P (wait_or_timeout h a look gap)"
proof -
  show w: "keepsA P (wait_for h limit look gap)" for limit
    unfolding wait_for_def by (intro keeps_intros keeps_page_helpers [OF H] assms(2))
  show "keepsA P (wait_or_timeout h a look gap)"
    unfolding wait_or_timeout_def by (intro keeps_intros w)
qed

lemma keeps_clicks:
  assumes H: "host_keeps P h"
  shows "keepsA P (click_navigation h a u)" "keepsA P (handleClick h a)" "keepsA P (one_event_click h a ty b)"
    "keepsA P (handleHover h a)" "keepsA P (handleHoverClick h a)"
proof -
  show nav: "keepsA P (click_navigation h a u)" for u
    unfolding click_navigation_def by (intro keeps_intros keeps_page_helpers [OF H])
  show "keepsA P (handleClick h a)" "keepsA P (one_event_click h a ty b)" "keepsA P (handleHover h a)" "keepsA P (handleHoverClick h a)"
    unfolding handleClick_def one_event_click_def handleHover_def handleHoverClick_def Let_def
    by (intro keeps_intros nav keeps_page_helpers [OF H] keeps_human_pace [OF H] host_page [OF H] keeps_waiting [OF H])+
qed

lemma keeps_moves:
  assumes H: "host_keeps P h"
  shows "keepsA P (handleMoveMouse h a)" "keepsA P (handlePressAndHold h a)" "keepsA P (handleDragAndDrop h a)"
    "keepsA P (handleDragBy h a)" "keepsA P (handleSlide h a)"
proof -
  have point: "keepsA P (mouse_point path h p q t)" for path p q t
    unfolding mouse_point_def by (intro keeps_intros keeps_human_pace [OF H])
  have end': "keepsA P (move_end h a)"
    unfolding move_end_def
    by (cases "leafField a ''to''") (auto intro!: keeps_intros keeps_page_helpers [OF H])
  have drag: "keepsA P (drag h el ms p point)" if "\<And>t. keepsA P (point t)" for el ms p point
    unfolding drag_def Let_def by (intro keeps_intros keeps_page_helpers [OF H] keeps_human_pace [OF H] that)
  show "keepsA P (handleMoveMouse h a)" "keepsA P (handlePressAndHold h a)" "keepsA P (handleDragAndDrop h a)"
    "keepsA P (handleDragBy h a)" "keepsA P (handleSlide h a)"
    unfolding handleMoveMouse_def handlePressAndHold_def handleDragAndDrop_def handleDragBy_def handleSlide_def Let_def
    by (intro keeps_intros point end' drag keeps_page_helpers [OF H] keeps_human_pace [OF H] host_page [OF H])+
qed

lemma keeps_forms:
  assumes H: "host_keeps P h"
  shows "keepsA P (handleType h a)" "keepsA P (handleClear h a)" "keepsA P (handleSelect h a)" "keepsA P (handleCheck h a)"
    "keepsA P (handleSelectRadio h a)" "keepsA P (handlePaste h a)" "keepsA P (handleTypeAndSelect h a)"
    "keepsA P (handleUploadFile h a)" "keepsA P (handleFocus h a)" "keepsA P (handleBlur h a)"
proof -
  note base = keeps_page_helpers [OF H] keeps_human_pace [OF H] host_page [OF H] host_services [OF H]
  have char: "keepsA P (type_char h el gap c)" for el gap c
    unfolding type_char_def by (intro keeps_intros base)
  have pick: "keepsA P (pick_suggestion h a v)" for v
  proof -
    have "keepsA P (case x of None \<Rightarrow> throwA e
        | Some els \<Rightarrow> (case find f els of None \<Rightarrow> returnA None | Some e \<Rightarrow> thenA (liftA (clickNode (browser_of h) e)) (returnA (Some e))))"
      for x e f by (intro keeps_intros base)
    then show ?thesis
      unfolding keepsA_def pick_suggestion_def Let_def by (fastforce split: option.splits)
  qed
  show "keepsA P (handleUploadFile h a)"
    unfolding handleUploadFile_def by (cases "leafField a ''files''") (auto intro!: keeps_intros base)
  show "keepsA P (handleType h a)" "keepsA P (handleClear h a)" "keepsA P (handleSelect h a)" "keepsA P (handleCheck h a)"
    "keepsA P (handleSelectRadio h a)" "keepsA P (handlePaste h a)" "keepsA P (handleTypeAndSelect h a)"
    "keepsA P (handleFocus h a)" "keepsA P (handleBlur h a)"
    unfolding handleType_def handleClear_def handleSelect_def handleCheck_def handleSelectRadio_def handlePaste_def
      handleTypeAndSelect_def handleFocus_def handleBlur_def Let_def
    by (intro keeps_intros char base keeps_clicks [OF H] keeps_waiting [OF H] pick)+
qed

lemma keeps_keys:
  assumes H: "host_keeps P h"
  shows "keepsA P (handlePressKey h a)" "keepsA P (handleKeyCombination h a)" "keepsA P (handleTab h a)"
  unfolding handlePressKey_def handleKeyCombination_def handleTab_def key_event_def Let_def
  by (intro keeps_intros keeps_page_helpers [OF H] keeps_human_pace [OF H])+

lemma keeps_waits:
  assumes H: "host_keeps P h"
  shows "keepsA P (handleWaitFor h a)" "keepsA P (handleWaitForText h a)" "keepsA P (handleWaitForTimeout h a)"
    "keepsA P (handleWaitForElementHidden h a)" "keepsA P (handleWaitForUrl h a)"
    "keepsA P (handleWaitForElementVisible h a)" "keepsA P (handleWaitForFunction h a)" "keepsA P (handleReadPause h a)"
  unfolding handleWaitFor_def handleWaitForText_def handleWaitForTimeout_def handleWaitForElementHidden_def
    handleWaitForUrl_def handleWaitForElementVisible_def handleWaitForFunction_def handleReadPause_def
  by (intro keeps_intros keeps_page_helpers [OF H] host_page [OF H] host_services [OF H] keeps_waiting [OF H])+

lemma keeps_scrolling:
  assumes H: "host_keeps P h"
  shows "keepsA P (handleScrollToBottom h a)" "keepsA P (handleScrollBy h a)" "keepsA P (scroll_into_view h a)"
    "keepsA P (handleScrollToTop h)" "keepsA P (handlePageDown h a)" "keepsA P (handleSetStyle h a)"
    "keepsA P (handleRemoveElement h a)" "keepsA P (handleReload h)"
  unfolding handleScrollToBottom_def handleScrollBy_def scroll_into_view_def handleScrollToTop_def handlePageDown_def
    handleSetStyle_def handleRemoveElement_def handleReload_def Let_def
  by (intro keeps_intros keeps_page_helpers [OF H] host_page [OF H])+

text \<open>The guard of \<open>navigate\<close>: the location is assigned in the state in which the URL was admitted.\<close>

lemma navigable_url_http:
  "navigable_url h u s = Inr () \<longleftrightarrow> (\<exists>p \<in> set HTTP_SCHEMES. urlProtocol (browser_of h) u (getUrl (env_of h) s) = Some p)"
  by (auto simp: navigable_url_def HTTP_SCHEMES_def split: option.split)

lemma keeps_navigate:
  assumes H: "host_keeps P h" shows "keepsA P (handleNavigate h a)"
proof -
  have rest: "keepsA P (bindA (waitForUrlChange h url0 ms) (\<lambda>changed. if \<not> changed then throwA e
      else done_undefined (liftA (\<lambda>s. modifyCtx (g s) s))))" for url0 ms e g
    by (intro keeps_intros keeps_page_helpers [OF H]) (simp add: keepsR_def)
  have guarded: "keepsA P (bindA (\<lambda>s. sumA (navigable_url h url s) s) (\<lambda>_. bindA (readA (getUrl (env_of h)))
      (\<lambda>startUrl. thenA (liftA (assignLocation (browser_of h) url)) (k startUrl))))" (is "keepsA P ?m")
    if "\<And>u. keepsA P (k u)" for url and k :: "string \<Rightarrow> ('a, jval) act"
  proof (rule keepsA_I)
    fix s r s' assume run: "?m s = Some (r, s')" and P: "P (snd s)"
    show "P (snd s')"
    proof (cases "navigable_url h url s")
      case (Inl e)
      then show ?thesis using run P by (simp add: bindA_apply sumA_def)
    next
      case (Inr x)
      then obtain p where p: "urlProtocol (browser_of h) url (getUrl (env_of h) s) = Some p" "p \<in> set HTTP_SCHEMES"
        using navigable_url_http [of h url s] by auto
      obtain r1 s1 where assign: "assignLocation (browser_of h) url s = (r1, s1)"
        by (cases "assignLocation (browser_of h) url s")
      then have "P (snd s1)"
        using H p P unfolding host_keeps_def assigning_http_keeps_def by blast
      moreover have "s' = s1 \<or> k (getUrl (env_of h) s) s1 = Some (r, s')"
        using run Inr assign by (cases r1) (simp_all add: act_simps sumA_def)
      ultimately show ?thesis using keepsA_D [OF that] by blast
    qed
  qed
  show ?thesis
    unfolding handleNavigate_def Let_def by (intro keeps_intros(1-4) keeps_bind keeps_pure guarded rest)
qed

lemma keeps_outputs:
  assumes H: "host_keeps P h"
  shows "keepsA P (handleEvaluate h a)" "keepsA P (handleSendResult h a)" "keepsA P (handleSendLog h a)"
    "keepsA P (handleSendScreenshot h a)" "keepsA P (handleSendHtml h a)" "keepsA P (handleEmitEvent h a)"
    "keepsA P (handleUpdateStatus h a)" "keepsA P (handleCheckpoint h a)" "keepsA P (flush_results h)"
    "keepsA P (handleHeartbeat h a)" "keepsA P (handleSaveSnapshot h a)" "keepsA P (handleLogMetric h a)"
    "keepsA P (handleSetTag h a)" "keepsA P (handleAbort h a)" "keepsA P (handleBreakContinue a)" "keepsA P (handleExit a)"
proof -
  show flush: "keepsA P (flush_results h)"
    using host_env(6) [OF H] by (auto simp: flush_results_def intro!: keeps_intros split: option.split)
  show "keepsA P (handleEvaluate h a)" "keepsA P (handleSendResult h a)" "keepsA P (handleSendLog h a)"
    "keepsA P (handleSendScreenshot h a)" "keepsA P (handleSendHtml h a)" "keepsA P (handleEmitEvent h a)"
    "keepsA P (handleUpdateStatus h a)" "keepsA P (handleCheckpoint h a)"
    "keepsA P (handleHeartbeat h a)" "keepsA P (handleSaveSnapshot h a)" "keepsA P (handleLogMetric h a)"
    "keepsA P (handleSetTag h a)" "keepsA P (handleAbort h a)" "keepsA P (handleBreakContinue a)" "keepsA P (handleExit a)"
    unfolding handleEvaluate_def handleSendResult_def handleSendLog_def handleSendScreenshot_def handleSendHtml_def
      handleEmitEvent_def handleUpdateStatus_def handleCheckpoint_def handleHeartbeat_def
      handleSaveSnapshot_def handleLogMetric_def handleSetTag_def handleAbort_def handleBreakContinue_def handleExit_def
      send_snapshot_if_def Let_def
    by (intro keeps_intros flush keeps_page_helpers [OF H] host_page [OF H] host_env(3-) [OF H] host_services [OF H])+
qed

lemma keeps_guards:
  assumes H: "host_keeps P h"
  shows "keepsA P (handleCheckQuota h a)"
    "(\<And>ss. keepsA P (run_steps ss)) \<Longrightarrow> keepsA P (handleCircuitBreaker run_steps h a)"
    "(\<And>ss. keepsA P (run_steps ss)) \<Longrightarrow> keepsA P (handleRequestHuman run_steps h a)"
    "(\<And>ss. keepsA P (run_steps ss)) \<Longrightarrow> keepsA P (handleSolveCaptcha run_steps h a)"
    "(\<And>ss. keepsA P (run_steps ss)) \<Longrightarrow> keepsA P (handleRetry run_steps h a)"
    "(\<And>x. keepsA P (exec x)) \<Longrightarrow> keepsA P (handleRecover exec h a)"
proof -
  note base = keeps_page_helpers [OF H] host_page [OF H] host_services [OF H]
  have w: "keepsA P (write_quota h q st)" for q st
    unfolding write_quota_def by (intro keeps_intros base)
  have "keepsA P (case v of Proceed \<Rightarrow> write_quota h q st
         | WaitMs ms \<Rightarrow> thenA (pause h (f ms)) (write_quota h q st)
         | Exceeded \<Rightarrow> throwA e | Skipped \<Rightarrow> returnA JUndef)" for v q st f e
    by (auto intro!: keeps_intros w base split: quota_verdict.split)
  then show "keepsA P (handleCheckQuota h a)"
    unfolding handleCheckQuota_def Let_def by (intro keeps_intros)
  show "keepsA P (handleCircuitBreaker run_steps h a)" if "\<And>ss. keepsA P (run_steps ss)"
    unfolding handleCircuitBreaker_def Let_def by (intro keeps_intros base that)
  show human: "keepsA P (handleRequestHuman run_steps h a)" if "\<And>ss. keepsA P (run_steps ss)" for a
    unfolding handleRequestHuman_def by (auto intro!: keeps_intros base that split: option.split list.split)
  show "keepsA P (handleSolveCaptcha run_steps h a)" if "\<And>ss. keepsA P (run_steps ss)"
    unfolding handleSolveCaptcha_def by (intro keeps_intros human that)
  show "keepsA P (handleRetry run_steps h a)" if "\<And>ss. keepsA P (run_steps ss)"
  proof -
    have "keepsA P (retry_rounds n run_steps h a ss rc k e)" for n ss rc k e
    proof (induction n arbitrary: k e)
      case (Suc n)
      show ?case unfolding retry_rounds.simps retry_round_def by (intro keeps_intros base that Suc)
    qed (simp add: keeps_intros)
    then show ?thesis unfolding handleRetry_def Let_def .
  qed
  show "keepsA P (handleRecover exec h a)" if "\<And>x. keepsA P (exec x)"
    unfolding handleRecover_def Let_def
  proof (intro keeps_intros that)
    have "keepsA P (whenA b (\<lambda>s. liftA (sendLog (env_of h) ''info'' m (g s)) s))" for b m g
      by (intro keeps_intros base)
    then show "keepsA P (\<lambda>s. whenA (b s) (\<lambda>s. liftA (sendLog (env_of h) ''info'' m (g s)) s) s)" for b m g
      unfolding keepsA_def by blast
  qed
qed


section \<open>The dispatch\<close>

lemma keeps_simple_handlers:
  assumes H: "host_keeps P h" and m: "map_of (simple_handlers h a) t = Some m"
  shows "keepsA P m"
proof -
  note base = keeps_page_helpers [OF H] host_page [OF H] host_services [OF H]
  have req: "keepsA P (bindA (require_method n f) k)" if "\<And>g. f = Some g \<Longrightarrow> keepsA P (k g)" for n k and f :: "'c option"
    using that by (cases f) (simp_all add: require_method_def bindA_throw bindA_return_left keeps_pure)
  have methods: "keepsA P (bindA (require_method ''goBack'' (goBack (browser_of h))) (\<lambda>f. done_undefined (liftA f)))"
    "keepsA P (bindA (require_method ''goForward'' (goForward (browser_of h))) (\<lambda>f. done_undefined (liftA f)))"
    "keepsA P (bindA (require_method ''setViewport'' (setViewport (browser_of h))) (\<lambda>f. done_undefined (liftA (f v))))"
    "keepsA P (bindA (require_method ''waitForNetworkIdle'' (waitForNetworkIdle (env_of h))) (\<lambda>f. done_undefined (liftA (f i j))))"
    for v i j
    by (rule req, intro keeps_intros, erule base)+
  have "list_all (\<lambda>(k, m). keepsA P m) (simple_handlers h a)"
    unfolding simple_handlers_def list.pred_inject prod.case handleDoubleClick_def handleRightClick_def handleMiddleClick_def
    by (intro conjI list.pred_inject(1) methods keeps_extractions [OF H] keeps_extract_table [OF H] keeps_merge keeps_data [OF H]
        keeps_clicks [OF H] keeps_moves [OF H] keeps_forms [OF H] keeps_keys [OF H] keeps_waits [OF H] keeps_scrolling [OF H]
        keeps_navigate [OF H] keeps_outputs [OF H] keeps_guards(1) [OF H] keeps_done)
  then show ?thesis
    using map_of_SomeD [OF m] by (auto simp: list_all_iff)
qed

lemma keeps_dispatch:
  assumes H: "host_keeps P h" and race: "race_keeps P race" and exec: "\<And>x. keepsA P (exec x)"
  shows "keepsA P (dispatch race h exec a)"
proof -
  have "handler_costs (preserves P) 0 (\<lambda>x ms. race ms (exec x))"
    using race exec unfolding handler_costs_def race_keeps_def preserves_def by blast
  then have "eff (preserves P) 0 (runSteps (env_of h) (\<lambda>x ms. race ms (exec x)) ss None)" for ss
    by (intro preserving.eff_runSteps host_env [OF H]) (simp_all add: callbacks_free_def)
  then have steps: "keepsA P (liftA (runSteps (env_of h) (\<lambda>x ms. race ms (exec x)) ss None))" for ss
    by (intro keeps_lift) (simp add: keepsR_eff)
  have simple: "keepsA P (case map_of (simple_handlers h a) t of Some m \<Rightarrow> m | None \<Rightarrow> throwA e)" for t e
    using keeps_simple_handlers [OF H] by (auto simp: keeps_pure split: option.split)
  show ?thesis
    unfolding dispatch_def Let_def
    by (intro keeps_cases(1) keeps_guards [OF H] steps exec keeps_pure simple)
qed

lemma keeps_executeAction:
  assumes "host_keeps P h" "race_keeps P race" shows "keepsA P (executeAction race h a)"
proof -
  have "keepsA P (execute_depth n race h a)" for n
  proof (induction n arbitrary: a)
    case (Suc n)
    then show ?case unfolding execute_depth.simps by (intro keeps_dispatch assms)
  qed (simp add: keeps_pure)
  then show ?thesis unfolding executeAction_def .
qed

text \<open>
  C2. No rule moves the page outside \<open>http\<close> and \<open>https\<close>. Let \<open>P\<close> be any property of the world that the
  operations of the page and the environment keep, of which the assignment of the page's location is
  only known to keep it for \<open>http\<close> and \<open>https\<close> URLs. Whatever steps are run with the real handlers, nested
  ones included, and whatever the page answers, \<open>P\<close> holds at the end: the location is assigned by
  \<open>navigate\<close> alone, in the state in which it has just checked the scheme of the interpolated URL.
\<close>

theorem rules_navigate_within_http:
  assumes "host_keeps P h" and "race_keeps P race" and "callbacks_free (preserves P) opts"
    and "runSteps (env_of h) (action_handler race h) as opts s = (r, s')" and "P (snd s)"
  shows "P (snd s')"
proof -
  have "handler_costs (preserves P) 0 (action_handler race h)"
    using keeps_executeAction [OF assms(1,2)] assms(2)
    unfolding handler_costs_def race_keeps_def preserves_def action_handler_def by blast
  then have "eff (preserves P) 0 (runSteps (env_of h) (action_handler race h) as opts)"
    by (intro preserving.eff_runSteps host_env [OF assms(1)] assms(3))
  then show ?thesis using assms(4,5) unfolding eff_def preserves_def by blast
qed

end
