(* ===== verification/Selector_Laws.thy ===== *)
theory Selector_Laws
  imports Selectors
begin

text \<open>What the search for elements promises: which element it returns, when it fails, that the one and
  the many searches agree, and that waiting for an element ends.\<close>

section \<open>The search for one element\<close>

definition seen_in :: "dom \<Rightarrow> target \<Rightarrow> node list \<Rightarrow> sightings \<Rightarrow> sightings" where
  "seen_in d t els seen =
     \<lparr>sawDeclaredText = (sawDeclaredText seen \<or> nonBlank t ''text'' \<noteq> None \<and> list_ex (matchesDeclaredText d t) els),
      sawUnverified = (sawUnverified seen \<or> list_ex (\<lambda>e. \<not> verifyElement d t e) els)\<rparr>"

lemma seen_in_Nil [simp]: "seen_in d t [] seen = seen"
  by (simp add: seen_in_def)

lemma seen_in_append: "seen_in d t (xs @ ys) seen = seen_in d t ys (seen_in d t xs seen)"
  by (simp add: seen_in_def disj_ac conj_disj_distribL)

lemma seen_in_Cons: "seen_in d t (el # els) seen
   = seen_in d t els (let seen' = note_text d t el seen in if verifyElement d t el then seen' else seen'\<lparr>sawUnverified := True\<rparr>)"
  by (simp add: seen_in_def note_text_def Let_def)

lemma scan_branch_find:
  "scan_branch d t els seen = (case find (candidateAccepted d t) els of
      Some el \<Rightarrow> (Some el, snd (scan_branch d t els seen))
    | None \<Rightarrow> (None, seen_in d t els seen))"
  by (induction els arbitrary: seen)
    (auto simp: candidateAccepted_def seen_in_Cons Let_def split: option.splits)

lemma query_one_find:
  "query_one_branches d t bs seen = (case find (candidateAccepted d t) (concat bs) of
      Some el \<Rightarrow> Inr (Some el)
    | None \<Rightarrow> not_found t (seen_in d t (concat bs) seen) None)"
proof (induction bs arbitrary: seen)
  case (Cons els bs)
  show ?case
  proof (cases "find (candidateAccepted d t) els")
    case None
    then have "find (candidateAccepted d t) (els @ concat bs) = find (candidateAccepted d t) (concat bs)"
      by (induction els) (auto split: if_splits)
    then show ?thesis
      using Cons.IH [of "seen_in d t els seen"] None scan_branch_find [of d t els seen]
      by (simp add: seen_in_append split: option.split)
  next
    case (Some el)
    then have "find (candidateAccepted d t) (els @ concat bs) = Some el"
      by (induction els) (auto split: if_splits)
    moreover obtain s1 where "scan_branch d t els seen = (Some el, s1)"
      using Some scan_branch_find [of d t els seen] by auto
    ultimately show ?thesis by simp
  qed
qed simp

lemma query_all_first:
  "query_all_branches d t bs seen = (case find (\<lambda>els. filter (candidateAccepted d t) els \<noteq> []) bs of
      Some els \<Rightarrow> Inr (filter (candidateAccepted d t) els)
    | None \<Rightarrow> not_found t (seen_in d t (concat bs) seen) [])"
proof (induction bs arbitrary: seen)
  case (Cons els bs)
  have "query_all_branches d t (els # bs) seen =
      (if filter (candidateAccepted d t) els \<noteq> [] then Inr (filter (candidateAccepted d t) els)
       else query_all_branches d t bs (seen_in d t els seen))"
    by (simp add: Let_def seen_in_def)
  then show ?case using Cons.IH by (simp add: seen_in_append split: option.split)
qed simp

lemma query_one_scan:
  "queryOneWithRoot d root' t =
    (let cands = concat (branches d root' t True) in
     case find (candidateAccepted d t) cands of
       Some el \<Rightarrow> Inr (Some el)
     | None \<Rightarrow> if list_ex (\<lambda>e. \<not> verifyElement d t e) cands
                 \<and> (nonBlank t ''text'' \<noteq> None \<longrightarrow> list_ex (matchesDeclaredText d t) cands)
              then Inl (verification_error t) else Inr None)"
  by (auto simp: queryOneWithRoot_def query_one_find not_found_def seen_in_def nothing_seen_def Let_def split: option.split)

text \<open>The search for one element is the first candidate, over the five strategies in their order,
  that has the declared text, label and role and is shown when that is required. Without such a
  candidate it fails exactly when some candidate was refused by the verification and, if the target
  declares a text, some candidate had it.\<close>

theorem query_one_reference:
  "queryOneWithRoot d root' t =
    (let cands = concat (branches d root' t True) in
     case find (candidateAccepted d t) cands of
       Some el \<Rightarrow> Inr (Some el)
     | None \<Rightarrow> if list_ex (\<lambda>e. \<not> verifyElement d t e) cands
                 \<and> (nonBlank t ''text'' = None \<or> list_ex (matchesDeclaredText d t) cands)
              then Inl (verification_error t) else Inr None)"
  unfolding query_one_scan imp_conv_disj not_not ..

definition one_of :: "exn + node list \<Rightarrow> exn + node option" where
  "one_of r = bind_sum r (\<lambda>els. Inr (case els of [] \<Rightarrow> None | el # _ \<Rightarrow> Some el))"

lemma find_concat:
  "find P (concat bs) = (case find (\<lambda>els. filter P els \<noteq> []) bs of None \<Rightarrow> None | Some els \<Rightarrow> Some (hd (filter P els)))"
proof (induction bs)
  case (Cons els bs)
  have "find P els = (case filter P els of [] \<Rightarrow> None | e # _ \<Rightarrow> Some e)" by (induction els) auto
  moreover have "find P (els @ concat bs) = (case find P els of None \<Rightarrow> find P (concat bs) | Some e \<Rightarrow> Some e)"
    by (induction els) auto
  ultimately show ?case using Cons.IH by (auto split: list.splits)
qed simp

text \<open>The searches for one element and for all elements agree when the target has no index: one
  finds the first of what the other finds, and they fail together.\<close>

theorem one_is_first_of_all:
  assumes "obj_get t ''index'' = JUndef"
  shows "queryOneWithRoot d root' t = one_of (queryAllWithRoot d root' t)"
proof -
  have b: "branches d root' t True = branches d root' t False" by (simp add: branches_def assms nth_of_def)
  let ?P = "candidateAccepted d t"
  show ?thesis
  proof (cases "find (\<lambda>els. filter ?P els \<noteq> []) (branches d root' t False)")
    case (Some els)
    then have "filter ?P els \<noteq> []" by (auto simp: find_Some_iff)
    then show ?thesis
      by (cases "filter ?P els")
        (simp_all add: queryOneWithRoot_def queryAllWithRoot_def query_one_find query_all_first find_concat b Some one_of_def)
  next
    case None
    then show ?thesis
      by (simp add: queryOneWithRoot_def queryAllWithRoot_def query_one_find query_all_first find_concat b one_of_def not_found_def)
  qed
qed


section \<open>Visibility\<close>

definition above_of :: "dom \<Rightarrow> (node \<times> node) set" where
  "above_of d = {(x, y). next_up d x = Some y}"

lemma chain_shown_above: "(el, a) \<in> (above_of d)\<^sup>* \<Longrightarrow> chain_shown n d el \<Longrightarrow> \<not> hidden_here d a"
proof (induction arbitrary: n rule: converse_rtrancl_induct)
  case base
  then show ?case by (cases n) auto
next
  case (step x y)
  then show ?case by (cases n) (auto simp: above_of_def)
qed

text \<open>An element is visible only when it and everything above it, through shadow hosts, is shown.\<close>

lemma visible_chain: "isElementVisible d el \<Longrightarrow> (el, a) \<in> (above_of d)\<^sup>* \<Longrightarrow> \<not> hidden_here d a"
  by (cases "nodeCount d") (auto simp: isElementVisible_def simp del: chain_shown.simps dest: chain_shown_above)


text \<open>A document with a button in a section, and a second, hidden button of the same text\<close>

definition demo_rect :: dom_rect where
  "demo_rect = \<lparr>rectLeft = 10, rectTop = 20, rectWidth = 80, rectHeight = 24\<rparr>"

definition demo_dom :: dom where
  "demo_dom = \<lparr>nodeCount = 4, documentNode = 0,
     tagNameOf = (\<lambda>n. if n = 1 then ''SECTION'' else ''BUTTON''),
     attributeOf = (\<lambda>n k. if n = 2 \<and> k = ''aria-hidden'' then Some ''true'' else None),
     textOf = (\<lambda>n. if n = 2 \<or> n = 3 then Some '' Buy '' else None),
     parentElementOf = (\<lambda>n. if n = 2 \<or> n = 3 then Some 1 else None), shadowHostOf = (\<lambda>n. None),
     styleOf = (\<lambda>n. NoView), rectOf = (\<lambda>n. Some demo_rect), descendantsOf = (\<lambda>n. if n = 1 then [2, 3] else []),
     querySelectorAll = (\<lambda>r q. if q = ''button'' then Some [2, 3] else if q = ''section'' then Some [1] else None),
     xpathNodes = (\<lambda>x n. None), textNodes = (\<lambda>n. [('' Buy '', Some 2), ('' Buy '', Some 3)]),
     elementFromPoint = (\<lambda>n x y. None), frameElements = [], frameMatches = (\<lambda>f q. Some False),
     contentDocumentOf = (\<lambda>f. None), shadowRootOf = (\<lambda>h. None), cssEscape = id\<rparr>"

definition buy_target :: target where
  "buy_target = [(''selector'', JStr ''button''), (''text'', JStr ''Buy''), (''visible'', JBool True)]"

lemma demo_above: "(3, 1) \<in> (above_of demo_dom)\<^sup>*"
  by (rule r_into_rtrancl) (simp add: above_of_def next_up_def demo_dom_def)


theorem one_is_first_of_all_witness:
  "queryOneWithRoot demo_dom 0 buy_target = one_of (queryAllWithRoot demo_dom 0 buy_target)"
proof (rule one_is_first_of_all)
  show "obj_get buy_target ''index'' = JUndef" by code_simp
qed

text \<open>The verification reads an empty \<open>role\<close> attribute as a role, the recording does not: the role it
  recorded for such an element is one the element fails.\<close>

theorem empty_role_attribute_diverges:
  assumes "attributeOf d el ''role'' = Some []" and "effectiveRole d el = Some r" and "js_trim r \<noteq> []"
  shows "\<not> verifyElement d [(''role'', JStr r)] el"
proof -
  have "nonBlank [(''role'', JStr r)] ''role'' = Some r" by (simp add: nonBlank_def obj_get_def assms(3))
  moreover have "r \<noteq> []" using assms(3) by (auto simp: js_trim_def)
  ultimately show ?thesis using assms(1) by (simp add: verifyElement_def)
qed


section \<open>Waiting\<close>

text \<open>
  What is relied on of the page's timers and clock: a pause lasts at least as long as asked, and the
  clock does not run backwards.
\<close>

definition honest_sleep :: "(int \<Rightarrow> ('w, unit) run) \<Rightarrow> ('w st \<Rightarrow> int) \<Rightarrow> bool" where
  "honest_sleep sleep clock \<longleftrightarrow> (\<forall>ms s r s'. sleep ms s = (r, s') \<longrightarrow> clock s + ms \<le> clock s')"

lemma find_round_pause:
  assumes "honest_sleep sleep clock" and "find_round document sleep query x s = (Ret (Inl x'), s')"
  shows "clock s + 100 \<le> clock s'"
proof -
  obtain r s1 where p: "sleep 100 s = (r, s1)" by (cases "sleep 100 s")
  then have "clock s + 100 \<le> clock s1" using assms(1) unfolding honest_sleep_def by blast
  moreover have "s' = s1"
    using assms(2) p by (auto simp: find_round_def bindR_apply split: sum.splits option.splits if_splits outcome.splits)
  ultimately show ?thesis by simp
qed

text \<open>Waiting for an element returns, whatever the document does: with timers that pause as long as
  asked, after at most as many looks at the document as pauses of 100 ms fit into the timeout.\<close>

theorem find_element_returns:
  assumes "honest_sleep sleep clock" and "timeout' \<le> int n * 100"
  shows "find_element document sleep clock t timeout' s \<noteq> None
    \<and> (\<exists>k \<le> n. rounds n (before clock (clock s) timeout')
         (\<lambda>x. liftA (find_round document sleep (\<lambda>d. resolveTarget d (documentNode d) t) x)) None s = Some k)"
proof -
  let ?body = "\<lambda>x. liftA (find_round document sleep (\<lambda>d. resolveTarget d (documentNode d) t) x)"
  have "poll (before clock (clock s) timeout') ?body None s \<noteq> None
      \<and> (\<exists>k \<le> n. rounds n (before clock (clock s) timeout') ?body None s = Some k)"
  proof (rule poll_returns [where deadline = "clock s + timeout'" and pause = 100])
    show "before clock (clock s) timeout' s' \<Longrightarrow> clock s' < clock s + timeout'" for s'
      by (simp add: before_def)
    show "?body x s1 = Some (Ret (Inl x'), s') \<Longrightarrow> clock s1 + 100 \<le> clock s'" for x x' s1 s'
      by (rule find_round_pause [OF assms(1)]) (simp add: liftA_def)
    show "?body x s1 \<noteq> None" for x s1 by (simp add: liftA_def)
    show "clock s + timeout' \<le> clock s + int n * 100" using assms(2) by simp
  qed
  then show ?thesis
    by (auto simp: find_element_def find_within_def bindA_apply split: outcome.split sum.split option.split)
qed

text \<open>A page whose only state is its clock, in which the button is never found\<close>

definition tick :: "int \<Rightarrow> (int, unit) run" where
  "tick ms = (\<lambda>(c, w). (Ret (), (c, w + ms)))"

lemma tick_honest: "honest_sleep tick snd"
  by (auto simp: honest_sleep_def tick_def)

theorem find_element_returns_witness:
  "\<forall>c. find_element (\<lambda>_. demo_dom) tick snd [(''selector'', JStr ''#none'')] 500 (c, 0) \<noteq> None"
proof
  show "find_element (\<lambda>_. demo_dom) tick snd [(''selector'', JStr ''#none'')] 500 (c, 0) \<noteq> None" for c
    using find_element_returns [OF tick_honest, of 500 5 "\<lambda>_. demo_dom" "[(''selector'', JStr ''#none'')]" "(c, 0)"] by simp
qed

text \<open>The worker looks for elements in the main document, whatever frame or shadow path the target
  names, as long as its other fields are the same.\<close>

theorem worker_ignores_frames:
  assumes "k = ''frame'' \<or> k = ''shadowPath''" and "\<And>j. j \<noteq> k \<Longrightarrow> obj_get t' j = obj_get t j"
    and "queryOneWithRoot d root' t = Inr r"
  shows "resolveTarget d root' t' = resolveTarget d root' t"
proof -
  have f: "obj_get t' ''position'' = obj_get t ''position''"
    "obj_get t' ''text'' = obj_get t ''text''"
    "obj_get t' ''visible'' = obj_get t ''visible''"
    "obj_get t' ''selector'' = obj_get t ''selector''"
    "obj_get t' ''index'' = obj_get t ''index''"
    "obj_get t' ''xpath'' = obj_get t ''xpath''"
    "obj_get t' ''ariaLabel'' = obj_get t ''ariaLabel''"
    "obj_get t' ''role'' = obj_get t ''role''"
    "obj_get t' ''roleName'' = obj_get t ''roleName''"
    by (rule assms(2); insert assms(1); elim disjE; simp)+
  have n: "nonBlank t' ''text'' = nonBlank t ''text''"
    "nonBlank t' ''selector'' = nonBlank t ''selector''"
    "nonBlank t' ''xpath'' = nonBlank t ''xpath''"
    "nonBlank t' ''ariaLabel'' = nonBlank t ''ariaLabel''"
    "nonBlank t' ''role'' = nonBlank t ''role''"
    "nonBlank t' ''roleName'' = nonBlank t ''roleName''"
    by (simp_all add: nonBlank_def f)
  have m: "matchesDeclaredText d t' = matchesDeclaredText d t" "verifyElement d t' = verifyElement d t"
    "shown_if_required d t' = shown_if_required d t" "role_query d t' = role_query d t"
    by (auto simp: fun_eq_iff matchesDeclaredText_def verifyElement_def shown_if_required_def role_query_def n f)
  have b: "branches d root' t' True = branches d root' t True"
    by (simp add: branches_def when_declared_def n f m)
  have c: "candidateAccepted d t' = candidateAccepted d t" by (simp add: fun_eq_iff candidateAccepted_def m)
  have "queryOneWithRoot d root' t' = queryOneWithRoot d root' t"
    using assms(3)
    by (auto simp: query_one_scan b c m n Let_def split: option.splits if_splits)
  then show ?thesis unfolding resolveTarget_def at_point_def f n m by simp
qed

end
