(* ===== verification/Demo_Host.thy ===== *)
theory Demo_Host
  imports Action_Effects Selector_Laws Demo_Env
begin

text \<open>
  A concrete page on which the properties of the handlers are evaluated: the document of
  \<open>Selector_Laws\<close>, on the world of \<open>Demo_Env\<close>, which lists what happened to the page.
\<close>

definition demo_sleep :: "int \<Rightarrow> (demo, unit) run" where
  "demo_sleep = sleepMs demo_env"

definition demo_clock :: "demo st \<Rightarrow> int" where
  "demo_clock = (\<lambda>(c, w). clock w)"

definition demo_protocol :: "string \<Rightarrow> string \<Rightarrow> string option" where
  "demo_protocol u base' =
     (if js_startsWith u ''https:'' then Some ''https:'' else if js_startsWith u ''http:'' then Some ''http:''
      else if js_startsWith u ''javascript:'' then Some ''javascript:'' else if js_startsWith u ''/'' then Some ''https:'' else None)"

definition demo_browser :: "demo browser" where
  "demo_browser = \<lparr>
     document = (\<lambda>_. demo_dom),
     findNode = find_element (\<lambda>_. demo_dom) demo_sleep demo_clock,
     findNodes = find_elements (\<lambda>_. demo_dom) demo_sleep demo_clock,
     dateNow = demo_clock, innerHtml = (\<lambda>_ n. []), outerHtml = (\<lambda>_ n. []), documentHtml = (\<lambda>_. []),
     cssProperty = (\<lambda>_ n p. []), childElementCount = (\<lambda>_ n. 0), isDisabled = (\<lambda>_ n. False), hasForm = (\<lambda>_ n. False),
     inputType = (\<lambda>_ n. []), inputValue = (\<lambda>_ n. []), isChecked = (\<lambda>_ n. False), selectOptions = (\<lambda>_ n. []),
     activeElement = (\<lambda>_. None), hostName = (\<lambda>_. ''shop.example''), referrer = (\<lambda>_. []), userAgent = (\<lambda>_. []),
     innerHeight = (\<lambda>_. 600), innerWidth = (\<lambda>_. 800), scrollY = (\<lambda>_. 0), scrollHeight = (\<lambda>_. 600),
     lastMouse = (\<lambda>_. None), circuitBreakers = (\<lambda>_. JUndef), storageItem = (\<lambda>_ k. None),
     urlProtocol = demo_protocol, urlHref = (\<lambda>u b. Some u), schemaErrors = (\<lambda>sc v. Inr None),
     dispatchEvent = (\<lambda>n e. demo_event ''event''), setValue = (\<lambda>n v. demo_event ''value''),
     clickNode = (\<lambda>n. demo_event ''click''), focusNode = (\<lambda>n. demo_event ''focus''), blurNode = (\<lambda>n. demo_event ''blur''),
     setFiles = (\<lambda>n fs. demo_event ''files''), setStyle = (\<lambda>n st. demo_event ''style''),
     removeNode = (\<lambda>n. demo_event ''remove''), scrollNodeBy = (\<lambda>n x y. demo_event ''scroll''),
     scrollWindowTo = (\<lambda>y. demo_event ''scroll''), scrollNodeIntoView = (\<lambda>n v. demo_event ''scroll''),
     setLastMouse = (\<lambda>p. returnR ()), setCircuitBreakers = (\<lambda>v. demo_event ''breakers''),
     setStorageItem = (\<lambda>k v. demo_event ''storage''), assignLocation = (\<lambda>u. demo_event (''go:'' @ u)),
     reloadPage = demo_event ''reload'', screenshot = (\<lambda>n. returnR JNull),
     goBack = None, goForward = None, setViewport = None\<rparr>"

definition demo_js :: js_host where
  "demo_js = \<lparr>rxMatch = (\<lambda>p s. Inr None), rxReplace = (\<lambda>p f r s. Inr s), isoDate = (\<lambda>v. None),
     parseJson = (\<lambda>s. if s = ''{}'' then Some (JObj []) else None), sameObject = (\<lambda>v w. False)\<rparr>"

definition demo_host :: "demo host" where
  "demo_host = \<lparr>env_of = demo_env, browser_of = demo_browser, js_of = demo_js\<rparr>"

definition demo_race :: "demo race" where
  "demo_race ms m s = (case m s of None \<Rightarrow> (Pending, s) | Some (r, s') \<Rightarrow> (Settled r, s'))"


section \<open>What the page keeps\<close>

text \<open>No page was left for a script URL.\<close>

definition no_script_url :: "demo \<Rightarrow> bool" where
  "no_script_url w \<longleftrightarrow> (\<forall>e \<in> set (events w). \<not> js_startsWith e ''go:javascript:'')"

lemma demo_event_keeps: "\<not> js_startsWith e ''go:javascript:'' \<Longrightarrow> keepsR no_script_url (demo_event e)"
  by (auto simp: keepsR_def demo_event_def no_script_url_def split_beta)

lemma demo_sleep_keeps: "keepsR no_script_url (demo_sleep d)"
  by (auto simp: keepsR_def demo_sleep_def demo_env_def no_script_url_def split_beta)

lemma keeps_find_within:
  fixes query :: "dom \<Rightarrow> exn + 'b option"
  assumes "\<And>ms. keepsR P (sleep ms)" shows "keepsA P (find_within doc sleep now query ms)"
proof -
  have "P (snd s')" if "bindR (sleep 100) (\<lambda>_. returnR x) s = (r, s')" "P (snd s)" for x :: "exn option + 'b" and s r s'
  proof -
    have "keepsR P (bindR (sleep 100) (\<lambda>_. returnR x))"
      using preserving.eff_bindR0 [of P "sleep 100" 0 "\<lambda>_. returnR x"] assms by (simp add: keepsR_eff preserving.eff_pure)
    then show ?thesis unfolding keepsR_def using that by blast
  qed
  note slept = this
  have "keepsR P (find_round doc sleep query x)" for x
    unfolding keepsR_def
  proof (intro allI impI)
    fix s r s' assume run: "find_round doc sleep query x s = (r, s')" and P: "P (snd s)"
    then consider "s' = s" | y where "bindR (sleep 100) (\<lambda>_. returnR y) s = (r, s')"
      unfolding find_round_def by (auto simp del: split_paired_All split: sum.splits option.splits if_splits)
    then show "P (snd s')"
    proof cases
      case 2
      then show ?thesis by (rule slept) (rule P)
    qed (simp add: P)
  qed
  then have round: "keepsA P (liftA (find_round doc sleep query x))" for x by (rule keeps_lift)
  show ?thesis
    unfolding find_within_def
    by (intro keeps_at(1) keeps_poll round) (auto intro!: keeps_intros split: sum.split option.split)
qed

lemma demo_page_keeps: "page_keeps no_script_url demo_browser"
  unfolding page_keeps_def demo_browser_def find_element_def find_elements_def
  by (simp, intro conjI allI keeps_find_within demo_sleep_keeps keeps_intros demo_event_keeps) code_simp+

lemma demo_env_keeps: "env_keeps no_script_url demo_env"
proof -
  have sleep: "keepsR no_script_url (sleepMs demo_env d)" for d
    using demo_sleep_keeps by (simp add: demo_sleep_def)
  have ev: "eff (preserves no_script_url) 0 (demo_event (c # e))" if "c \<noteq> CHR ''g''" for c e
    using that demo_event_keeps [of "c # e"] by (simp add: keepsR_eff js_startsWith_def)
  have "services_free (preserves no_script_url) demo_env"
    using sleep unfolding services_free_def demo_env_fields(2-5) keepsR_eff
    by (auto intro!: preserving.eff_pure preserving.eff_thenR0 ev)
  moreover have "lookups_free (preserves no_script_url) demo_env"
    by (simp add: lookups_free_def demo_env_fields preserving.eff_pure)
  ultimately show ?thesis
    unfolding env_keeps_def keepsR_eff
    by (auto simp: demo_env_def intro!: ev preserving.eff_pure)
qed

lemma demo_host_keeps: "host_keeps no_script_url demo_host"
proof -
  have "assigning_http_keeps no_script_url demo_host"
  proof (unfold assigning_http_keeps_def, intro allI impI)
    fix u s p r s'
    assume p: "urlProtocol (browser_of demo_host) u (getUrl (env_of demo_host) s) = Some p" "p \<in> set HTTP_SCHEMES"
      and run: "assignLocation (browser_of demo_host) u s = (r, s')" and P: "no_script_url (snd s)"
    have "\<not> js_startsWith (''go:'' @ u) ''go:javascript:''"
      using p by (auto simp: demo_host_def demo_browser_def demo_protocol_def HTTP_SCHEMES_def js_startsWith_def prefix_def split: if_splits)
    moreover have "demo_event (''go:'' @ u) s = (r, s')"
      using run by (simp add: demo_host_def demo_browser_def)
    ultimately show "no_script_url (snd s')" using keepsR_D demo_event_keeps P by blast
  qed
  then show ?thesis
    using demo_page_keeps demo_env_keeps by (simp add: host_keeps_def demo_host_def)
qed

lemma demo_race_keeps: "race_keeps P demo_race"
  by (auto simp: race_keeps_def demo_race_def split: option.splits dest: keepsA_D)

text \<open>A rule that asks for a script URL, and then for a page\<close>

definition go_step :: "string \<Rightarrow> action" where
  "go_step u = Leaf (empty_base\<lparr>onError := Some ''continue''\<rparr>) ''navigate'' [(''url'', JStr u)] []"

theorem rules_navigate_within_http_witness:
  "no_script_url (snd (snd (runSteps (env_of demo_host) (action_handler demo_race demo_host)
     [go_step ''javascript:alert(1)'', go_step ''https://shop.example/cart''] None demo_start)))"
proof -
  let ?run = "runSteps (env_of demo_host) (action_handler demo_race demo_host)
     [go_step ''javascript:alert(1)'', go_step ''https://shop.example/cart''] None demo_start"
  obtain r s' where run: "?run = (r, s')" by (cases ?run)
  have "callbacks_free (preserves no_script_url) None" by (simp add: callbacks_free_def)
  from rules_navigate_within_http [OF demo_host_keeps demo_race_keeps this run]
  have "no_script_url (snd s')" by (simp add: demo_start_def no_script_url_def)
  then show ?thesis unfolding run by simp
qed

end
