(* ===== verification/Handler_Laws.thy ===== *)
theory Handler_Laws
  imports Demo_Host
begin

text \<open>
  What the leaf actions do on their failing and waiting paths: an element that is not there, and a wait
  whose condition never comes.
\<close>

section \<open>The handlers by type\<close>

definition STEP_ACTIONS :: "string list" where
  "STEP_ACTIONS = [''circuitBreaker'', ''requestHuman'', ''solveCaptcha'', ''recover'', ''retry'']"

lemma executeAction_simple:
  assumes "actionType a \<notin> set (STEP_ACTIONS @ FLOW_TYPES)"
  shows "executeAction race h a = (case map_of (simple_handlers h a) (actionType a) of
     Some m \<Rightarrow> m | None \<Rightarrow> throwA (Error (''Unsupported action: '' @ actionType a)))"
  using assms unfolding executeAction_step [of race h a] dispatch_def Let_def by (simp add: STEP_ACTIONS_def)

definition TARGETED :: "string list" where
  "TARGETED = [''click'', ''doubleClick'', ''rightClick'', ''middleClick'', ''hover'', ''pressAndHold'', ''slide'', ''type'',
     ''paste'', ''clear'', ''select'', ''check'', ''selectRadio'', ''typeAndSelect'', ''uploadFile'', ''focus'',
     ''setStyle'', ''removeElement'', ''scrollIntoView'', ''scrollTo'']"

text \<open>The types of the handlers are distinct, so the handler of a type can be read off its position.\<close>

lemma handler_types_distinct: "distinct (map fst (simple_handlers h a))"
  unfolding simple_handlers_def list.map fst_conv by code_simp

lemma handler_of_type: "(t, m) \<in> set (simple_handlers h a) \<Longrightarrow> map_of (simple_handlers h a) t = Some m"
  by (rule map_of_is_SomeI [OF handler_types_distinct])

definition targeted_handlers :: "'w host \<Rightarrow> action \<Rightarrow> (string \<times> ('w, jval) act) list" where
  "targeted_handlers h a =
    [(''click'', handleClick h a), (''doubleClick'', handleDoubleClick h a), (''rightClick'', handleRightClick h a),
     (''middleClick'', handleMiddleClick h a), (''hover'', handleHover h a), (''pressAndHold'', handlePressAndHold h a),
     (''slide'', handleSlide h a), (''type'', handleType h a), (''paste'', handlePaste h a), (''clear'', handleClear h a),
     (''select'', handleSelect h a), (''check'', handleCheck h a), (''selectRadio'', handleSelectRadio h a),
     (''typeAndSelect'', handleTypeAndSelect h a), (''uploadFile'', handleUploadFile h a), (''focus'', handleFocus h a),
     (''setStyle'', handleSetStyle h a), (''removeElement'', handleRemoveElement h a),
     (''scrollIntoView'', scroll_into_view h a), (''scrollTo'', scroll_into_view h a)]"

lemma targeted_handlers_subset: "set (targeted_handlers h a) \<subseteq> set (simple_handlers h a)"
proof -
  have "list_all (\<lambda>x. x \<in> set (simple_handlers h a)) (targeted_handlers h a)"
    unfolding targeted_handlers_def simple_handlers_def list.pred_inject list.set
    by (intro conjI list.pred_inject(1); (rule insertI1 | rule insertI2)+)
  then show ?thesis by (auto simp only: list_all_iff)
qed

definition plain_type :: "string \<Rightarrow> bool" where
  "plain_type t \<longleftrightarrow> t \<notin> set (STEP_ACTIONS @ FLOW_TYPES)"

lemma handler_among:
  assumes "set ws \<subseteq> set (simple_handlers h a)" and "map fst ws = ts" and "list_all plain_type ts"
    and "actionType a \<in> set ts"
  obtains m where "(actionType a, m) \<in> set ws" and "executeAction race h a = m"
proof -
  have "actionType a \<in> fst ` set ws"
    using assms(2,4) unfolding set_map [symmetric] by (simp only:)
  then obtain p where p: "actionType a = fst p" "p \<in> set ws"
    by (elim imageE)
  define m where "m = snd p"
  then have m: "(actionType a, m) \<in> set ws"
    using p by (simp only: prod.collapse)
  have simple: "actionType a \<notin> set (STEP_ACTIONS @ FLOW_TYPES)"
    using assms(3,4) unfolding list_all_iff plain_type_def by blast
  have "map_of (simple_handlers h a) (actionType a) = Some m"
    by (rule handler_of_type) (rule subsetD [OF assms(1) m])
  then have "executeAction race h a = m"
    using executeAction_simple [OF simple, of race h] by (simp only: option.case)
  with m show ?thesis by (rule that)
qed

lemma targeted_handler:
  assumes "actionType a \<in> set TARGETED"
  obtains m where "(actionType a, m) \<in> set (targeted_handlers h a)" and "executeAction race h a = m"
proof (rule handler_among [OF targeted_handlers_subset _ _ assms])
  show "map fst (targeted_handlers h a) = TARGETED"
    by (simp only: targeted_handlers_def TARGETED_def list.map fst_conv)
  show "list_all plain_type TARGETED"
    by code_simp
qed (rule that)

lemma missing_node:
  assumes "target_field a ''target'' s = Some (Ret t, s1)" and "findNode (browser_of h) t ms s1 = Some (Ret None, s2)"
  shows "bindA (target_node h a ms) k s = Some (Throw (elementNotFound t), s2)"
    "bindA (target_field a ''target'') (\<lambda>t. bindA (require_node h t ms) (f t)) s = Some (Throw (elementNotFound t), s2)"
  using assms by (simp_all add: target_node_def require_node_def bindA_apply)

text \<open>
  An action on an element that is not there does nothing but report it: when the search for the
  resolved target ends without a node, each of the twenty actions that need one throws
  \<open>ElementNotFound\<close> with that target, in the state the search left. Nothing has been clicked, typed,
  scrolled or removed, and no human delay has passed.
\<close>

theorem missing_element_touches_nothing:
  assumes "actionType a \<in> set TARGETED"
    and "target_field a ''target'' s = Some (Ret t, s1)"
    and "findNode (browser_of h) t (timeout_or 5000 a) s1 = Some (Ret None, s2)"
  shows "executeAction race h a s = Some (Throw (elementNotFound t), s2)"
proof -
  note missing = missing_node [OF assms(2,3)]
  have "list_all (\<lambda>(k, m). m s = Some (Throw (elementNotFound t), s2)) (targeted_handlers h a)"
    unfolding targeted_handlers_def list.pred_inject prod.case
    by (intro conjI list.pred_inject(1); simp only: missing handleClick_def
      handleDoubleClick_def handleRightClick_def handleMiddleClick_def one_event_click_def handleHover_def
      handlePressAndHold_def handleSlide_def handleType_def handlePaste_def handleClear_def handleSelect_def handleCheck_def
      handleSelectRadio_def handleTypeAndSelect_def handleUploadFile_def handleFocus_def handleSetStyle_def
      handleRemoveElement_def scroll_into_view_def)
  then have all: "m s = Some (Throw (elementNotFound t), s2)" if "(k, m) \<in> set (targeted_handlers h a)" for k m
    using that unfolding list_all_iff by blast
  obtain m where "(actionType a, m) \<in> set (targeted_handlers h a)" and run: "executeAction race h a = m"
    using targeted_handler [OF assms(1), of h race] .
  then show ?thesis unfolding run by (intro all)
qed

text \<open>The button of the section is there, a button of another text is not.\<close>

definition click_step :: "string \<Rightarrow> action" where
  "click_step label = Leaf (empty_base\<lparr>timeout := Some 200\<rparr>) ''click''
     [(''target'', JObj [(''selector'', JStr ''button''), (''text'', JStr label)])] []"

theorem missing_element_touches_nothing_witness:
  "\<exists>t s'. executeAction demo_race demo_host (click_step ''Sell'') demo_start = Some (Throw (elementNotFound t), s')"
proof -
  let ?a = "click_step ''Sell''" and ?t = "[(''selector'', JStr ''button''), (''text'', JStr ''Sell'')]"
  have t: "target_field ?a ''target'' demo_start = Some (Ret ?t, demo_start)"
    by code_simp
  moreover have "actionType ?a \<in> set TARGETED"
    by code_simp
  moreover have "case findNode (browser_of demo_host) ?t (timeout_or 5000 ?a) demo_start of
      Some (Ret None, s') \<Rightarrow> True | _ \<Rightarrow> False"
    by code_simp
  then obtain s' where "findNode (browser_of demo_host) ?t (timeout_or 5000 ?a) demo_start = Some (Ret None, s')"
    by (auto split: option.splits outcome.splits prod.splits)
  ultimately show ?thesis using missing_element_touches_nothing [of ?a demo_start ?t demo_start demo_host s' demo_race] by blast
qed


section \<open>Waits\<close>

definition ends :: "('w, 'a) act \<Rightarrow> bool" where
  "ends m \<longleftrightarrow> (\<forall>s. m s \<noteq> None)"

lemma ends_lift: "ends (liftA m)"
  by (simp add: ends_def liftA_def)

lemma ends_pure: "ends (returnA a)" "ends (throwA e)" "ends (readA f)" "ends (interpA v)" "ends (target_field act k)"
  by (auto simp: returnA_def throwA_def readA_def interpA_def target_field_def ends_lift split: jval.split)

lemma ends_bind:
  assumes "ends m" "\<And>x. ends (k x)" shows "ends (bindA m k)"
  unfolding ends_def
proof
  fix s
  obtain r s1 where "m s = Some (r, s1)" using assms(1) unfolding ends_def by fast
  moreover have "k x s1 \<noteq> None" for x using assms(2) unfolding ends_def by blast
  ultimately show "bindA m k s \<noteq> None" by (cases r) (simp_all add: bindA_apply)
qed

lemma ends_pause: "ends (pause h gap)"
  unfolding pause_def by (rule ends_lift)

text \<open>A search that comes to an end, on a clock that does not run backwards\<close>

definition honest_act :: "('w st \<Rightarrow> int) \<Rightarrow> ('w, 'a) act \<Rightarrow> bool" where
  "honest_act ticks m \<longleftrightarrow> (\<forall>s. \<exists>r s'. m s = Some (r, s') \<and> ticks s \<le> ticks s')"

lemma honest_actE:
  assumes "honest_act ticks m" obtains r s' where "m s = Some (r, s')" "ticks s \<le> ticks s'"
  using assms unfolding honest_act_def by blast

lemma honest_pure: "honest_act ticks (returnA a)" "honest_act ticks (throwA e)" "honest_act ticks (readA f)"
  "honest_act ticks (sumA x)"
  by (cases x; auto simp: honest_act_def sumA_def)+

lemma honest_bind:
  assumes "honest_act ticks m" "\<And>x. honest_act ticks (k x)" shows "honest_act ticks (bindA m k)"
  unfolding honest_act_def
proof
  fix s
  obtain r s1 where 1: "m s = Some (r, s1)" "ticks s \<le> ticks s1" using assms(1) by (rule honest_actE)
  show "\<exists>r s'. bindA m k s = Some (r, s') \<and> ticks s \<le> ticks s'"
  proof (cases r)
    case (Ret x)
    obtain r' s2 where "k x s1 = Some (r', s2)" "ticks s1 \<le> ticks s2" using assms(2) by (rule honest_actE)
    then show ?thesis using 1 Ret by (simp add: bindA_apply)
  qed (use 1 in \<open>simp add: bindA_apply\<close>)
qed

lemma wait_for_returns:
  assumes sleep: "honest_sleep (sleepMs (env_of h)) (dateNow (browser_of h))"
    and look: "honest_act (dateNow (browser_of h)) look" and gap: "1 \<le> gap"
  shows "ends (wait_for h limit look gap)"
  unfolding ends_def
proof
  fix s
  let ?clock = "dateNow (browser_of h)"
  let ?body = "\<lambda>u :: unit. bindA look (\<lambda>r. case r of Some x \<Rightarrow> returnA (Inr x) | None \<Rightarrow> thenA (pause h gap) (returnA (Inl u)))"
  have paused: "?clock s1 + 1 \<le> ?clock s2" if "pause h gap s1 = Some (r, s2)" for s1 r s2
  proof -
    have "sleepMs (env_of h) \<lfloor>gap\<rfloor> s1 = (r, s2)" using that gap by (simp add: pause_def liftA_def)
    then have "?clock s1 + \<lfloor>gap\<rfloor> \<le> ?clock s2" using sleep unfolding honest_sleep_def by blast
    moreover have "1 \<le> \<lfloor>gap\<rfloor>" using gap by simp
    ultimately show ?thesis by linarith
  qed
  have "ends look" using look unfolding honest_act_def ends_def by fast
  then have "ends (?body u)" for u
    by (rule ends_bind) (auto simp: thenA_def intro: ends_bind ends_pause ends_pure split: option.split)
  then have total: "?body u s1 \<noteq> None" for u s1 unfolding ends_def by blast
  have later: "?clock s1 + 1 \<le> ?clock s2" if run: "?body u s1 = Some (Ret (Inl u'), s2)" for u u' s1 s2
  proof -
    obtain r s' where l: "look s1 = Some (r, s')" "?clock s1 \<le> ?clock s'" using look by (rule honest_actE)
    obtain x where x: "r = Ret x" using run l by (cases r) (simp_all add: bindA_apply)
    have "x = None" using run l x by (cases x) (simp_all add: bindA_apply)
    then obtain r2 where "pause h gap s' = Some (r2, s2)"
      using run l x by (auto simp: bindA_apply thenA_def split: option.splits outcome.splits)
    from paused [OF this] show ?thesis using l by simp
  qed
  have "poll (before ?clock (?clock s) limit) ?body () s \<noteq> None"
    by (rule conjunct1 [OF poll_returns [where clock = ?clock and deadline = "?clock s + limit" and pause = 1 and n = "nat limit"]])
      (use total later in \<open>auto simp: before_def\<close>)
  then show "wait_for h limit look gap s \<noteq> None"
    unfolding wait_for_def by (auto simp: bindA_apply split: outcome.split sum.split)
qed

definition WAITS :: "string list" where
  "WAITS = [''waitForText'', ''waitForElementHidden'', ''waitForElementVisible'', ''waitForUrl'']"

lemma wait_or_timeout_returns:
  assumes "honest_sleep (sleepMs (env_of h)) (dateNow (browser_of h))" "honest_act (dateNow (browser_of h)) look"
  shows "ends (wait_or_timeout h a look 200)"
  unfolding wait_or_timeout_def
  by (intro ends_bind wait_for_returns assms) (simp_all add: ends_pure)

text \<open>
  C3. A wait comes to an end. With timers that pause as long as asked and a search that answers, the
  actions that wait for a text, for an element to be hidden or visible, or for a URL return or throw,
  whatever the page does meanwhile.
\<close>

theorem waits_return:
  assumes "actionType a \<in> set WAITS"
    and sleep: "honest_sleep (sleepMs (env_of h)) (dateNow (browser_of h))"
    and search: "\<And>t ms. honest_act (dateNow (browser_of h)) (findNode (browser_of h) t ms)"
  shows "executeAction race h a s \<noteq> None"
proof -
  have wait: "ends (wait_or_timeout h a look 200)" if "honest_act (dateNow (browser_of h)) look" for look :: "('a, unit option) act"
    using sleep that by (rule wait_or_timeout_returns)
  have all: "list_all (\<lambda>(t, m). ends m)
     [(''waitForText'', handleWaitForText h a), (''waitForElementHidden'', handleWaitForElementHidden h a),
      (''waitForElementVisible'', handleWaitForElementVisible h a), (''waitForUrl'', handleWaitForUrl h a)]" (is "list_all _ ?ws")
    unfolding list.pred_inject prod.case handleWaitForText_def handleWaitForElementHidden_def
      handleWaitForElementVisible_def handleWaitForUrl_def
    by (intro conjI list.pred_inject(1) ends_bind ends_pure wait honest_bind search honest_pure)
  have sub: "set ?ws \<subseteq> set (simple_handlers h a)"
    unfolding simple_handlers_def list.set
    by (intro insert_subsetI empty_subsetI; (rule insertI1 | rule insertI2)+)
  have "list_all plain_type WAITS" by code_simp
  moreover have "map fst ?ws = WAITS" by (simp only: WAITS_def list.map fst_conv)
  ultimately obtain m where m: "(actionType a, m) \<in> set ?ws" "executeAction race h a = m"
    using handler_among [OF sub _ _ assms(1), of race] by metis
  then show ?thesis using all unfolding list_all_iff ends_def by blast
qed

text \<open>The search of the worker is honest when its timers are.\<close>

lemma find_element_honest:
  assumes sleep: "honest_sleep sleep ticks"
  shows "honest_act ticks (find_element doc sleep ticks t ms)"
  unfolding honest_act_def
proof
  fix s
  let ?body = "\<lambda>x. liftA (find_round doc sleep (\<lambda>d. resolveTarget d (documentNode d) t) x)"
  have on: "ticks s1 \<le> ticks s2" if "?body x s1 = Some (r, s2)" for x s1 r s2
  proof -
    have slept: "ticks s1 \<le> ticks s2" if "bindR (sleep 100) (\<lambda>_. returnR y) s1 = (r, s2)" for y :: "exn option + nat" and r
    proof -
      obtain r1 s' where p: "sleep 100 s1 = (r1, s')" by (cases "sleep 100 s1")
      then have "ticks s1 + 100 \<le> ticks s'" using sleep unfolding honest_sleep_def by blast
      then show ?thesis using that p by (auto simp: bindR_apply split: outcome.splits)
    qed
    show ?thesis
      using that unfolding liftA_def find_round_def by (auto dest: slept split: sum.splits option.splits if_splits)
  qed
  have "poll (before ticks (ticks s) ms) ?body None s \<noteq> None"
    by (rule conjunct1 [OF poll_returns [where clock = ticks and deadline = "ticks s + ms" and pause = 100 and n = "nat ms"]])
      (use find_round_pause [OF sleep] in \<open>auto simp: before_def liftA_def\<close>)
  then obtain r s' where run: "poll (before ticks (ticks s) ms) ?body None s = Some (r, s')" by auto
  have "ticks s \<le> ticks s'"
    by (rule poll_keeps [OF _ _ _ run, where P = "\<lambda>s s'. ticks s \<le> ticks s'"]) (auto dest: on)
  then show "\<exists>r s'. find_element doc sleep ticks t ms s = Some (r, s') \<and> ticks s \<le> ticks s'"
    unfolding find_element_def find_within_def bindA_apply run
    by (cases s'; cases r) (auto split: sum.split option.split)
qed

text \<open>The text of the button never becomes another.\<close>

definition wait_step :: action where
  "wait_step = Leaf empty_base ''waitForText'' [(''target'', JObj [(''selector'', JStr ''button'')]), (''text'', JStr ''Sell'')] []"

theorem waits_return_witness: "executeAction demo_race demo_host wait_step demo_start \<noteq> None"
proof (rule waits_return)
  show "actionType wait_step \<in> set WAITS" by code_simp
  have "honest_sleep demo_sleep demo_clock"
    by (auto simp: honest_sleep_def demo_sleep_def demo_clock_def demo_env_def)
  then show "honest_sleep (sleepMs (env_of demo_host)) (dateNow (browser_of demo_host))"
    and "honest_act (dateNow (browser_of demo_host)) (findNode (browser_of demo_host) t ms)" for t ms
    by (simp_all add: demo_host_def demo_browser_def demo_sleep_def find_element_honest)
qed

end
