(* ===== verification/Json_Parse.thy ===== *)
theory Json_Parse
  imports Json
begin

text \<open>
  \<open>JSON.parse\<close>, the inverse of the serialisation of \<open>Json\<close>: the page keeps its state as text in the
  session storage, and so do the quotas. \<open>None\<close> is the \<open>SyntaxError\<close>. Characters beyond the code units
  of the model, which only an escape can name, are read as an error.
\<close>

section \<open>Tokens\<close>

definition json_space :: "char \<Rightarrow> bool" where
  "json_space c \<longleftrightarrow> of_char c \<in> {9, 10, 13, 32 :: nat}"

definition skip_space :: "string \<Rightarrow> string" where
  "skip_space s = dropWhile json_space s"

definition hex_code :: "string \<Rightarrow> nat option" where
  "hex_code ds =
     (if list_all (\<lambda>c. hex_val c \<noteq> None) ds then Some (digits_value 16 (\<lambda>c. the (hex_val c)) ds) else None)"

definition simple_escape :: "char \<Rightarrow> char option" where
  "simple_escape c =
     map_of [(CHR 0x22, CHR 0x22), (CHR 0x5C, CHR 0x5C), (CHR ''/'', CHR ''/''), (CHR ''b'', CHR 0x08),
       (CHR ''f'', CHR 0x0C), (CHR ''n'', CHR 0x0A), (CHR ''r'', CHR 0x0D), (CHR ''t'', CHR 0x09)] c"

text \<open>The characters of a string after its opening quote, and the text behind its closing one\<close>

fun parse_chars :: "string \<Rightarrow> (string \<times> string) option" where
  "parse_chars [] = None"
| "parse_chars (c # cs) =
     (if c = CHR 0x22 then Some ([], cs)
      else if c = CHR 0x5C then
        (case cs of
           [] \<Rightarrow> None
         | e # rest \<Rightarrow>
             if e = CHR ''u'' then
               (case hex_code (take 4 rest) of
                  None \<Rightarrow> None
                | Some n \<Rightarrow>
                    if length rest < 4 \<or> 255 < n then None
                    else map_option (\<lambda>(x, r). (char_of n # x, r)) (parse_chars (drop 4 rest)))
             else (case simple_escape e of
                     None \<Rightarrow> None
                   | Some d \<Rightarrow> map_option (\<lambda>(x, r). (d # x, r)) (parse_chars rest)))
      else if of_char c < (32 :: nat) then None
      else map_option (\<lambda>(x, r). (c # x, r)) (parse_chars cs))"

definition fraction_token :: "string \<Rightarrow> (string \<times> string) option" where
  "fraction_token s =
     (case s of
        CHR ''.'' # t \<Rightarrow>
          (let ds = takeWhile digit_char t in
           if ds = [] then None else Some (CHR ''.'' # ds, dropWhile digit_char t))
      | _ \<Rightarrow> Some ([], s))"

definition exponent_token :: "string \<Rightarrow> (string \<times> string) option" where
  "exponent_token s =
     (case s of
        c # t \<Rightarrow>
          if c = CHR ''e'' \<or> c = CHR ''E'' then
            (let sign = (case t of x # _ \<Rightarrow> if x = CHR ''+'' \<or> x = CHR ''-'' then [x] else [] | [] \<Rightarrow> []);
                 u = drop (length sign) t; ds = takeWhile digit_char u
             in if ds = [] then None else Some (c # sign @ ds, dropWhile digit_char u))
          else Some ([], s)
      | [] \<Rightarrow> Some ([], []))"

definition parse_number :: "string \<Rightarrow> (jval \<times> string) option" where
  "parse_number s =
     (let neg = (s \<noteq> [] \<and> hd s = CHR ''-''); u = (if neg then tl s else s);
          ip = takeWhile digit_char u
      in if ip = [] \<or> (1 < length ip \<and> hd ip = CHR ''0'') then None
         else Option.bind (fraction_token (dropWhile digit_char u))
           (\<lambda>(fp, r). Option.bind (exponent_token r)
             (\<lambda>(ep, r'). let n = decimal_number (ip @ fp @ ep) in Some (JNum (if neg then num_negate n else n), r'))))"

definition parse_literal :: "string \<Rightarrow> (jval \<times> string) option" where
  "parse_literal s =
     (if prefix ''null'' s then Some (JNull, drop 4 s)
      else if prefix ''true'' s then Some (JBool True, drop 4 s)
      else if prefix ''false'' s then Some (JBool False, drop 5 s)
      else parse_number s)"


section \<open>Values\<close>

text \<open>A nested value costs fuel once; its text is longer than the nesting is deep.\<close>

fun parse_value :: "nat \<Rightarrow> string \<Rightarrow> (jval \<times> string) option"
  and parse_elems :: "nat \<Rightarrow> string \<Rightarrow> (jval list \<times> string) option"
  and parse_members :: "nat \<Rightarrow> string \<Rightarrow> (jobj \<times> string) option" where
  "parse_value 0 s = None"
| "parse_value (Suc n) s =
     (case skip_space s of
        [] \<Rightarrow> None
      | c # cs \<Rightarrow>
          if c = CHR 0x22 then map_option (\<lambda>(x, r). (JStr x, r)) (parse_chars cs)
          else if c = CHR ''['' then
            (if skip_space cs \<noteq> [] \<and> hd (skip_space cs) = CHR '']'' then Some (JArr [], tl (skip_space cs))
             else map_option (\<lambda>(vs, r). (JArr vs, r)) (parse_elems n cs))
          else if c = CHR ''{'' then
            (if skip_space cs \<noteq> [] \<and> hd (skip_space cs) = CHR ''}'' then Some (JObj [], tl (skip_space cs))
             else map_option (\<lambda>(fs, r). (JObj (al_merge [] fs), r)) (parse_members n cs))
          else parse_literal (c # cs))"
| "parse_elems 0 s = None"
| "parse_elems (Suc n) s =
     (case parse_value n s of
        None \<Rightarrow> None
      | Some (v, r) \<Rightarrow>
          (case skip_space r of
             [] \<Rightarrow> None
           | c # r' \<Rightarrow>
               if c = CHR '','' then map_option (\<lambda>(vs, q). (v # vs, q)) (parse_elems n r')
               else if c = CHR '']'' then Some ([v], r') else None))"
| "parse_members 0 s = None"
| "parse_members (Suc n) s =
     (case skip_space s of
        [] \<Rightarrow> None
      | c # cs \<Rightarrow>
          if c \<noteq> CHR 0x22 then None
          else (case parse_chars cs of
             None \<Rightarrow> None
           | Some (k, r) \<Rightarrow>
               (case skip_space r of
                  [] \<Rightarrow> None
                | d # r1 \<Rightarrow>
                    if d \<noteq> CHR '':'' then None
                    else (case parse_value n r1 of
                       None \<Rightarrow> None
                     | Some (v, r2) \<Rightarrow>
                         (case skip_space r2 of
                            [] \<Rightarrow> None
                          | e # r3 \<Rightarrow>
                              if e = CHR '','' then map_option (\<lambda>(fs, q). ((k, v) # fs, q)) (parse_members n r3)
                              else if e = CHR ''}'' then Some ([(k, v)], r3) else None)))))"

definition parse_json :: "string \<Rightarrow> jval option" where
  "parse_json s =
     (case parse_value (Suc (length s)) s of
        None \<Rightarrow> None
      | Some (v, r) \<Rightarrow> if skip_space r = [] then Some v else None)"

declare parse_value.simps [simp del] parse_elems.simps [simp del] parse_members.simps [simp del]


section \<open>Reading back what was written\<close>

text \<open>The values the text form keeps: no \<open>undefined\<close>, whole numbers, no property twice\<close>

fun storable :: "jval \<Rightarrow> bool" where
  "storable JUndef = False"
| "storable (JNum n) = (case n of Fin r \<Rightarrow> r = of_int \<lfloor>r\<rfloor> | _ \<Rightarrow> False)"
| "storable (JArr vs) = list_all storable vs"
| "storable (JObj fs) = (al_wf fs \<and> list_all (\<lambda>(k, v). storable v) fs)"
| "storable _ = True"

lemma hex_digit_val: "d < 16 \<Longrightarrow> hex_val (hex_digit d) = Some d"
proof -
  assume "d < 16"
  then have "d \<in> set [0, 1, 2, 3, 4, 5, 6, 7, 8, 9, 10, 11, 12, 13, 14, 15]" unfolding list.set insert_iff empty_iff by arith
  moreover have "list_all (\<lambda>d. hex_val (hex_digit d) = Some d) [0, 1, 2, 3, 4, 5, 6, 7, 8, 9, 10, 11, 12, 13, 14, 15]"
    by code_simp
  ultimately show ?thesis unfolding list_all_iff by blast
qed

lemma hex_digits_read: "n < 32 \<Longrightarrow> hex_code (''00'' @ [hex_digit (n div 16), hex_digit n]) = Some n"
proof -
  assume "n < 32"
  then have d: "n div 16 < 16" by simp
  have m: "hex_digit n = hex_digit (n mod 16)" by (simp add: hex_digit_def)
  have z: "hex_val (CHR ''0'') = Some 0" by code_simp
  show ?thesis
    using hex_digit_val [OF d] hex_digit_val [of "n mod 16"]
    by (simp add: hex_code_def digits_value_def z m)
qed

lemma escaped_chars: "char_of (34 :: nat) = CHR 0x22" "char_of (92 :: nat) = CHR 0x5C" "char_of (8 :: nat) = CHR 0x08"
  "char_of (9 :: nat) = CHR 0x09" "char_of (10 :: nat) = CHR 0x0A" "char_of (12 :: nat) = CHR 0x0C" "char_of (13 :: nat) = CHR 0x0D"
  by code_simp+

lemma parse_json_char: "parse_chars (json_char c @ s) = map_option (\<lambda>(x, r). (c # x, r)) (parse_chars s)"
proof -
  let ?n = "of_char c :: nat"
  have one: "c = char_of k" if "?n = k" for k using that [symmetric] by simp
  show ?thesis
  proof (cases "?n \<in> set [34, 92, 8, 9, 10, 12, 13]")
    case True
    then have "c \<in> set [CHR 0x22, CHR 0x5C, CHR 0x08, CHR 0x09, CHR 0x0A, CHR 0x0C, CHR 0x0D]"
      using True one [of 34] one [of 92] one [of 8] one [of 9] one [of 10] one [of 12] one [of 13]
      unfolding escaped_chars by auto
    then show ?thesis
      by (auto simp: json_char_def Let_def simple_escape_def split: if_splits)
  next
    case False
    then show ?thesis
      using hex_digits_read [of ?n]
      by (cases "?n < 32") (auto simp: json_char_def Let_def)
  qed
qed

lemma parse_json_quote: "parse_chars (concat (map json_char s) @ CHR 0x22 # rest) = Some (s, rest)"
  by (induction s) (simp_all add: parse_json_char)

text \<open>Whole numbers, before a character that cannot go on a number\<close>

definition token_end :: "string \<Rightarrow> bool" where
  "token_end s \<longleftrightarrow> (s = [] \<or> hd s \<in> set '',]}'')"

lemma token_end_head:
  assumes "token_end s"
  shows "takeWhile digit_char s = []" "dropWhile digit_char s = s" "fraction_token s = Some ([], s)"
    "exponent_token s = Some ([], s)" "skip_space s = s"
proof -
  have c: "\<not> digit_char CHR '',''" "\<not> digit_char CHR '']''" "\<not> digit_char CHR ''}''"
    "\<not> json_space CHR '',''" "\<not> json_space CHR '']''" "\<not> json_space CHR ''}''"
    by code_simp+
  show "takeWhile digit_char s = []" "dropWhile digit_char s = s" "fraction_token s = Some ([], s)"
    "exponent_token s = Some ([], s)" "skip_space s = s"
    using assms c by (cases s; auto simp: token_end_def fraction_token_def exponent_token_def skip_space_def)+
qed

lemma show_digits_head: "0 < n \<Longrightarrow> show_digits n \<noteq> [] \<and> hd (show_digits n) \<noteq> CHR ''0''"
proof (induction n rule: show_digits.induct)
  case (1 n)
  show ?case
  proof (cases "n < 10")
    case True
    then have "n \<in> set [1, 2, 3, 4, 5, 6, 7, 8, 9]" using 1 unfolding list.set insert_iff empty_iff by arith
    then have "digit_of n \<noteq> CHR ''0''" by (auto simp: digit_of_def)
    then show ?thesis using True by (simp add: show_digits.simps [of n])
  next
    case False
    then have "0 < n div 10" by (simp add: div_greater_zero_iff)
    then show ?thesis using 1 False by (simp add: show_digits.simps [of n])
  qed
qed

lemma decimal_number_digits: "list_all digit_char ds \<Longrightarrow> ds \<noteq> [] \<Longrightarrow> decimal_number ds = Fin (of_nat (digits_value 10 dec_val ds))"
  by (simp add: decimal_number_def exponent_part_def takeWhile_eq_all_conv [THEN iffD2] dropWhile_eq_Nil_conv [THEN iffD2] list_all_iff)

lemma parse_digits:
  assumes "list_all digit_char ds" "ds \<noteq> []" "1 < length ds \<longrightarrow> hd ds \<noteq> CHR ''0''" "token_end rest"
  shows "parse_number (ds @ rest) = Some (JNum (Fin (of_nat (digits_value 10 dec_val ds))), rest)"
    and "parse_number (CHR ''-'' # ds @ rest) = Some (JNum (Fin (- of_nat (digits_value 10 dec_val ds))), rest)"
proof -
  have w: "takeWhile digit_char (ds @ rest) = ds" "dropWhile digit_char (ds @ rest) = rest"
    using assms(1) token_end_head(1,2) [OF assms(4)] by (simp_all add: list_all_iff takeWhile_append2 dropWhile_append2)
  have m: "\<not> digit_char CHR ''-''" by code_simp
  then have "hd (ds @ rest) \<noteq> CHR ''-''" using assms(1,2) by (cases ds) auto
  then show "parse_number (ds @ rest) = Some (JNum (Fin (of_nat (digits_value 10 dec_val ds))), rest)"
    using w assms(2,3) token_end_head(3,4) [OF assms(4)] decimal_number_digits [OF assms(1,2)]
    unfolding parse_number_def Let_def by auto
  show "parse_number (CHR ''-'' # ds @ rest) = Some (JNum (Fin (- of_nat (digits_value 10 dec_val ds))), rest)"
    using w assms(2,3) token_end_head(3,4) [OF assms(4)] decimal_number_digits [OF assms(1,2)]
    unfolding parse_number_def Let_def by auto
qed

lemma parse_show_int: "token_end rest \<Longrightarrow> parse_number (show_int i @ rest) = Some (JNum (Fin (of_int i)), rest)"
proof -
  assume rest: "token_end rest"
  have ds: "list_all digit_char (show_digits n)" "show_digits n \<noteq> []" "digits_value 10 dec_val (show_digits n) = n" for n
    using show_digits_value [of n] by (auto simp: show_digits.simps [of n])
  have lead: "1 < length (show_digits n) \<longrightarrow> hd (show_digits n) \<noteq> CHR ''0''" for n
    using show_digits_head [of n] by (cases "n = 0") (simp_all add: show_digits.simps [of 0])
  show ?thesis
  proof (cases "i < 0")
    case True
    then show ?thesis
      using parse_digits(2) [OF ds(1,2) lead rest, of "nat (- i)"] by (simp add: show_int_def ds(3))
  next
    case False
    then show ?thesis
      using parse_digits(1) [OF ds(1,2) lead rest, of "nat i"] by (simp add: show_int_def ds(3))
  qed
qed


lemma literal_heads: "parse_literal (''null'' @ r) = Some (JNull, r)" "parse_literal (''true'' @ r) = Some (JBool True, r)"
  "parse_literal (''false'' @ r) = Some (JBool False, r)"
  by (simp_all add: parse_literal_def)

lemma parse_literal_number:
  assumes "c = CHR ''-'' \<or> digit_char c" shows "parse_literal (c # s) = parse_number (c # s)"
proof -
  have "\<not> digit_char CHR ''n''" "\<not> digit_char CHR ''t''" "\<not> digit_char CHR ''f''" by code_simp+
  then have "c \<noteq> CHR ''n''" "c \<noteq> CHR ''t''" "c \<noteq> CHR ''f''" using assms by auto
  then show ?thesis by (simp add: parse_literal_def)
qed

text \<open>The first characters of a text that was written\<close>

lemma show_int_head: "\<exists>c cs. show_int i = c # cs \<and> (c = CHR ''-'' \<or> digit_char c)"
proof -
  have "\<exists>c cs. show_digits n = c # cs \<and> digit_char c" for n
    using show_digits_value [of n] by (cases "show_digits n") (auto simp: show_digits.simps [of n] split: if_splits)
  from this [of "nat i"] show ?thesis by (auto simp: show_int_def)
qed

lemma number_head_plain:
  assumes "c = CHR ''-'' \<or> digit_char c"
  shows "\<not> json_space c" "c \<noteq> CHR 0x22" "c \<noteq> CHR ''[''" "c \<noteq> CHR ''{''" "c \<noteq> CHR '']''"
proof -
  have "\<not> digit_char CHR 0x22" "\<not> digit_char CHR ''[''" "\<not> digit_char CHR ''{''" "\<not> digit_char CHR '']''"
    "\<not> json_space CHR ''-''"
    by code_simp+
  moreover have "digit_char c \<Longrightarrow> \<not> json_space c" by (auto simp: digit_char_def json_space_def less_eq_char_def)
  ultimately show "\<not> json_space c" "c \<noteq> CHR 0x22" "c \<noteq> CHR ''[''" "c \<noteq> CHR ''{''" "c \<noteq> CHR '']''"
    using assms by auto
qed


lemma skip_space_keep: "\<not> json_space c \<Longrightarrow> skip_space (c # s) = c # s"
  by (simp add: skip_space_def)

lemma marks_plain: "\<not> json_space CHR 0x22" "\<not> json_space CHR '',''" "\<not> json_space CHR '':''"
  "\<not> json_space CHR '']''" "\<not> json_space CHR ''}''" "\<not> json_space CHR ''[''" "\<not> json_space CHR ''{''"
  "\<not> json_space CHR ''n''" "\<not> json_space CHR ''t''" "\<not> json_space CHR ''f''"
  by code_simp+

lemmas skip_mark [simp] = marks_plain [THEN skip_space_keep]

lemma token_end_marks [simp]: "token_end (CHR '','' # s)" "token_end (CHR '']'' # s)" "token_end (CHR ''}'' # s)" "token_end []"
  by (simp_all add: token_end_def)

text \<open>A text that reads back whatever follows it, and does not begin like the end of an array\<close>

definition reads_back :: "jval \<Rightarrow> string \<Rightarrow> bool" where
  "reads_back v t \<longleftrightarrow> t \<noteq> [] \<and> hd (skip_space t) \<noteq> CHR '']'' \<and> \<not> json_space (hd t)
     \<and> (\<forall>n rest. length t < n \<longrightarrow> token_end rest \<longrightarrow> parse_value n (t @ rest) = Some (v, rest))"

lemma reads_backI:
  assumes "t = c # cs" "\<not> json_space c" "c \<noteq> CHR '']''"
    and "\<And>n rest. length cs < n \<Longrightarrow> token_end rest \<Longrightarrow> parse_value (Suc n) (c # cs @ rest) = Some (v, rest)"
  shows "reads_back v t"
proof -
  have "parse_value n (t @ rest) = Some (v, rest)" if "length t < n" "token_end rest" for n rest
    using assms(1,4) that by (cases n) auto
  then show ?thesis using assms(1-3) by (simp add: reads_back_def skip_space_keep)
qed

lemma reads_literal:
  "reads_back JNull ''null''" "reads_back (JBool True) ''true''" "reads_back (JBool False) ''false''"
  using literal_heads
  by (auto intro!: reads_backI simp: marks_plain parse_value.simps skip_space_keep)

lemma reads_int: "reads_back (JNum (Fin (of_int i))) (show_int i)"
proof -
  obtain c cs where c: "show_int i = c # cs" "c = CHR ''-'' \<or> digit_char c" using show_int_head by blast
  note plain = number_head_plain [OF c(2)]
  show ?thesis
  proof (rule reads_backI [OF c(1) plain(1,5)])
    fix n rest assume "token_end rest"
    then have "parse_number (c # cs @ rest) = Some (JNum (Fin (of_int i)), rest)"
      using parse_show_int [of rest i] c(1) by simp
    then show "parse_value (Suc n) (c # cs @ rest) = Some (JNum (Fin (of_int i)), rest)"
      using plain parse_literal_number [OF c(2)] by (simp add: parse_value.simps skip_space_keep)
  qed
qed

lemma reads_string: "reads_back (JStr s) (json_quote s)"
proof (rule reads_backI)
  show "json_quote s = CHR 0x22 # concat (map json_char s) @ [CHR 0x22]" by (simp add: json_quote_def)
qed (simp_all add: marks_plain parse_value.simps parse_json_quote)

lemma parse_elems_one:
  assumes "reads_back v t" "length t < n"
  shows "parse_elems (Suc n) (t @ CHR '']'' # rest) = Some ([v], rest)"
    and "parse_elems (Suc n) (t @ CHR '','' # more) = map_option (\<lambda>(vs, q). (v # vs, q)) (parse_elems n more)"
  using assms by (simp_all add: reads_back_def parse_elems.simps)

lemma parse_members_one:
  assumes "reads_back v t" "length t < n"
  shows "parse_members (Suc n) (json_quote k @ CHR '':'' # t @ CHR ''}'' # rest) = Some ([(k, v)], rest)"
    and "parse_members (Suc n) (json_quote k @ CHR '':'' # t @ CHR '','' # more)
           = map_option (\<lambda>(fs, q). ((k, v) # fs, q)) (parse_members n more)"
  using assms by (simp_all add: reads_back_def parse_members.simps json_quote_def parse_json_quote)

text \<open>The texts of the elements and members, joined\<close>

definition elems_back :: "jval list \<Rightarrow> string list \<Rightarrow> bool" where
  "elems_back vs ts \<longleftrightarrow> (\<forall>n rest. length (join_strings '','' ts) + 1 < n \<longrightarrow>
     parse_elems n (join_strings '','' ts @ CHR '']'' # rest) = Some (vs, rest))"

definition members_back :: "jobj \<Rightarrow> string list \<Rightarrow> bool" where
  "members_back fs ts \<longleftrightarrow> (\<forall>n rest. length (join_strings '','' ts) < n \<longrightarrow>
     parse_members n (join_strings '','' ts @ CHR ''}'' # rest) = Some (fs, rest))"

lemma elems_back_Cons:
  assumes "reads_back v t" "vs = [] \<and> ts = [] \<or> vs \<noteq> [] \<and> ts \<noteq> [] \<and> elems_back vs ts"
  shows "elems_back (v # vs) (t # ts)"
proof -
  have t: "t \<noteq> []" using assms(1) by (simp add: reads_back_def)
  show ?thesis
  proof (cases ts)
    case Nil
    then have "parse_elems n (t @ CHR '']'' # rest) = Some ([v], rest)" if "length t + 1 < n" for n rest
      using parse_elems_one(1) [OF assms(1), of "n - 1"] that by (cases n) auto
    then show ?thesis using Nil assms(2) by (simp add: elems_back_def)
  next
    case (Cons u us)
    have "parse_elems n (t @ CHR '','' # join_strings '','' ts @ CHR '']'' # rest) = Some (v # vs, rest)"
      if "length t + 1 + length (join_strings '','' ts) + 1 < n" for n rest
    proof -
      have "parse_elems (n - 1) (join_strings '','' ts @ CHR '']'' # rest) = Some (vs, rest)"
        using assms(2) Cons that t unfolding elems_back_def by (cases t) auto
      then show ?thesis
        using parse_elems_one(2) [OF assms(1), of "n - 1"] that by (cases n) auto
    qed
    then show ?thesis using Cons by (simp add: elems_back_def)
  qed
qed

lemma members_back_Cons:
  assumes "reads_back v t" "fs = [] \<and> ts = [] \<or> fs \<noteq> [] \<and> ts \<noteq> [] \<and> members_back fs ts"
  shows "members_back ((k, v) # fs) ((json_quote k @ '':'' @ t) # ts)"
proof (cases ts)
  case Nil
  then have "parse_members n (json_quote k @ CHR '':'' # t @ CHR ''}'' # rest) = Some ([(k, v)], rest)"
    if "length (json_quote k) + 1 + length t < n" for n rest
    using parse_members_one(1) [OF assms(1), of "n - 1"] that by (cases n) auto
  then show ?thesis using Nil assms(2) by (simp add: members_back_def)
next
  case (Cons u us)
  have "parse_members n (json_quote k @ CHR '':'' # t @ CHR '','' # join_strings '','' ts @ CHR ''}'' # rest) = Some ((k, v) # fs, rest)"
    if "length (json_quote k) + 1 + length t + 1 + length (join_strings '','' ts) < n" for n rest
  proof -
    have "parse_members (n - 1) (join_strings '','' ts @ CHR ''}'' # rest) = Some (fs, rest)"
      using assms(2) Cons that unfolding members_back_def by auto
    then show ?thesis
      using parse_members_one(2) [OF assms(1), of "n - 1"] that by (cases n) auto
  qed
  then show ?thesis using Cons by (simp add: members_back_def)
qed

lemma reads_array: "vs = [] \<and> ts = [] \<or> vs \<noteq> [] \<and> ts \<noteq> [] \<and> elems_back vs ts
     \<Longrightarrow> (ts \<noteq> [] \<Longrightarrow> hd (join_strings '','' ts) \<noteq> CHR '']'' \<and> join_strings '','' ts \<noteq> [] \<and> \<not> json_space (hd (join_strings '','' ts)))
     \<Longrightarrow> reads_back (JArr vs) (''['' @ join_strings '','' ts @ '']'')"
proof (rule reads_backI [where c = "CHR ''[''" and cs = "join_strings '','' ts @ '']''"])
  fix n rest assume *: "vs = [] \<and> ts = [] \<or> vs \<noteq> [] \<and> ts \<noteq> [] \<and> elems_back vs ts"
    "ts \<noteq> [] \<Longrightarrow> hd (join_strings '','' ts) \<noteq> CHR '']'' \<and> join_strings '','' ts \<noteq> [] \<and> \<not> json_space (hd (join_strings '','' ts))"
    and n: "length (join_strings '','' ts @ '']'') < n"
  show "parse_value (Suc n) (CHR ''['' # (join_strings '','' ts @ '']'') @ rest) = Some (JArr vs, rest)"
  proof (cases ts)
    case Nil
    then show ?thesis using * by (simp add: parse_value.simps)
  next
    case (Cons t us)
    obtain c cs where c: "join_strings '','' ts = c # cs" "c \<noteq> CHR '']''" "\<not> json_space c"
      using *(2) Cons by (cases "join_strings '','' ts") auto
    have "parse_elems n (join_strings '','' ts @ CHR '']'' # rest) = Some (vs, rest)"
      using *(1) n Cons unfolding elems_back_def by auto
    then show ?thesis using c by (simp add: parse_value.simps skip_space_keep)
  qed
qed (simp_all add: marks_plain)

lemma al_merge_self: "al_wf fs \<Longrightarrow> al_merge [] fs = fs"
proof -
  have set: "k \<notin> fst ` set es \<Longrightarrow> al_set k v es = es @ [(k, v)]" for k v and es :: "('a \<times> 'b) list"
    by (induction es) auto
  have "al_wf (gs @ fs) \<Longrightarrow> al_merge gs fs = gs @ fs" for gs
  proof (induction fs arbitrary: gs)
    case (Cons f fs)
    then show ?case by (cases f) (auto simp: set al_wf_def)
  qed simp
  then show "al_wf fs \<Longrightarrow> al_merge [] fs = fs" by simp
qed

lemma reads_object: "fs = [] \<and> ts = [] \<or> fs \<noteq> [] \<and> ts \<noteq> [] \<and> members_back fs ts \<Longrightarrow> al_wf fs
     \<Longrightarrow> (ts \<noteq> [] \<Longrightarrow> \<exists>cs. join_strings '','' ts = CHR 0x22 # cs)
     \<Longrightarrow> reads_back (JObj fs) (''{'' @ join_strings '','' ts @ ''}'')"
proof (rule reads_backI [where c = "CHR ''{''" and cs = "join_strings '','' ts @ ''}''"])
  fix n rest assume *: "fs = [] \<and> ts = [] \<or> fs \<noteq> [] \<and> ts \<noteq> [] \<and> members_back fs ts" "al_wf fs"
    "ts \<noteq> [] \<Longrightarrow> \<exists>cs. join_strings '','' ts = CHR 0x22 # cs"
    and n: "length (join_strings '','' ts @ ''}'') < n"
  show "parse_value (Suc n) (CHR ''{'' # (join_strings '','' ts @ ''}'') @ rest) = Some (JObj fs, rest)"
  proof (cases ts)
    case Nil
    then show ?thesis using * by (simp add: parse_value.simps)
  next
    case (Cons t us)
    obtain cs where c: "join_strings '','' ts = CHR 0x22 # cs" using *(3) Cons by blast
    have "parse_members n (join_strings '','' ts @ CHR ''}'' # rest) = Some (fs, rest)"
      using *(1) n Cons unfolding members_back_def by auto
    then show ?thesis using c al_merge_self [OF *(2)] by (simp add: parse_value.simps)
  qed
qed (simp_all add: marks_plain)

lemma join_head: "t \<noteq> [] \<Longrightarrow> join_strings '','' (t # ts) \<noteq> [] \<and> hd (join_strings '','' (t # ts)) = hd t"
  by (cases ts) simp_all

lemma written_reads_back:
  "storable v \<Longrightarrow> \<exists>t. json_text v = Some t \<and> reads_back v t"
  "list_all storable vs \<Longrightarrow> vs \<noteq> [] \<Longrightarrow> json_elems vs \<noteq> [] \<and> elems_back vs (json_elems vs)
     \<and> hd (join_strings '','' (json_elems vs)) \<noteq> CHR '']'' \<and> join_strings '','' (json_elems vs) \<noteq> []
     \<and> \<not> json_space (hd (join_strings '','' (json_elems vs)))"
  "list_all (\<lambda>(k, v). storable v) fs \<Longrightarrow> fs \<noteq> [] \<Longrightarrow> json_fields fs \<noteq> [] \<and> members_back fs (json_fields fs)
     \<and> (\<exists>cs. join_strings '','' (json_fields fs) = CHR 0x22 # cs)"
proof (induction v and vs and fs rule: json_text_json_elems_json_fields.induct)
  case (3 b)
  then show ?case using reads_literal by auto
next
  case (4 n)
  then obtain r where "n = Fin r" "r = of_int \<lfloor>r\<rfloor>" by (auto split: jnum.splits)
  then show ?case using reads_int [of "\<lfloor>r\<rfloor>"] by simp
next
  case (6 vs)
  have "reads_back (JArr vs) (''['' @ join_strings '','' (json_elems vs) @ '']'')"
    by (rule reads_array) (use 6 in \<open>cases vs; simp\<close>)+
  then show ?case by simp
next
  case (7 fs)
  have "reads_back (JObj fs) (''{'' @ join_strings '','' (json_fields fs) @ ''}'')"
    by (rule reads_object) (use 7 in \<open>cases fs; simp\<close>)+
  then show ?case by simp
next
  case (9 v vs)
  then obtain t where t: "json_text v = Some t" "reads_back v t" by auto
  have "elems_back (v # vs) (t # json_elems vs)"
    by (rule elems_back_Cons [OF t(2)]) (use 9 in \<open>cases vs; simp\<close>)
  moreover have "t \<noteq> []" "hd t \<noteq> CHR '']''" "\<not> json_space (hd t)"
    using t(2) by (cases t; simp add: reads_back_def skip_space_keep)+
  ultimately show ?case using t(1) join_head [of t "json_elems vs"] by simp
next
  case (11 k v fs)
  then obtain t where t: "json_text v = Some t" "reads_back v t" by auto
  have "members_back ((k, v) # fs) ((json_quote k @ '':'' @ t) # json_fields fs)"
    by (rule members_back_Cons [OF t(2)]) (use 11(3) [OF t(1)] 11(4) in \<open>cases "fs = []"; simp\<close>)
  moreover have "\<exists>cs. join_strings '','' ((json_quote k @ '':'' @ t) # json_fields fs) = CHR 0x22 # cs"
    by (cases "json_fields fs") (simp_all add: json_quote_def)
  ultimately show ?case using t(1) by simp
qed (simp_all add: reads_literal reads_string)

theorem parse_written: "storable v \<Longrightarrow> Option.bind (json_text v) parse_json = Some v"
proof -
  assume "storable v"
  then obtain t where t: "json_text v = Some t" "reads_back v t" using written_reads_back(1) by blast
  have "parse_value (Suc (length t)) (t @ []) = Some (v, [])"
    using t(2) unfolding reads_back_def by (metis lessI token_end_marks(4))
  then show ?thesis using t(1) by (simp add: parse_json_def skip_space_def)
qed

end
