(* ===== verification/Session_Store.thy ===== *)
theory Session_Store
  imports Json_Parse Url_Policy
begin

text \<open>
  The state a run leaves in the session storage of the page to survive a navigation: the storage
  helpers of \<open>src/worker-page/entry.ts\<close> and of \<open>extension/src/intent/replay-runner.ts\<close>, which differ in
  the prefix of their keys. The storage is the one of the platform: entries in order, an access that
  may be refused, and a quota. The state is kept as JSON text and read back with \<open>JSON.parse\<close>; a text
  that does not have the shape of a state, which the helpers never write, is read as no state.
\<close>

section \<open>The storage\<close>

record storage_area =
  storedItems :: "(string \<times> string) list"
  storageOpen :: bool
  storageRoom :: nat

definition items_size :: "(string \<times> string) list \<Rightarrow> nat" where
  "items_size es = sum_list (map (\<lambda>(k, v). length k + length v) es)"

definition security_error :: exn where
  "security_error = JsError ''SecurityError'' ''access to the storage is denied''"

definition quota_error :: exn where
  "quota_error = JsError ''QuotaExceededError'' ''the storage is full''"

definition getItem :: "storage_area \<Rightarrow> string \<Rightarrow> exn + string option" where
  "getItem a k = (if storageOpen a then Inr (map_of (storedItems a) k) else Inl security_error)"

definition setItem :: "string \<Rightarrow> string \<Rightarrow> storage_area \<Rightarrow> exn + storage_area" where
  "setItem k v a =
     (if \<not> storageOpen a then Inl security_error
      else if storageRoom a < items_size (al_set k v (storedItems a)) then Inl quota_error
      else Inr (a\<lparr>storedItems := al_set k v (storedItems a)\<rparr>))"

definition removeItem :: "string \<Rightarrow> storage_area \<Rightarrow> exn + storage_area" where
  "removeItem k a =
     (if storageOpen a then Inr (a\<lparr>storedItems := al_remove k (storedItems a)\<rparr>) else Inl security_error)"


section \<open>The state as text\<close>

definition frame_value :: "step_path_frame \<Rightarrow> jval" where
  "frame_value f =
     (case f of
        TopFrame i \<Rightarrow> JObj [(''kind'', JStr ''top''), (''childIdx'', jint i)]
      | IfFrame b i \<Rightarrow> JObj [(''kind'', JStr ''if''),
          (''branch'', JStr (case b of ThenBranch \<Rightarrow> ''then'' | ElseBranch \<Rightarrow> ''else'')), (''childIdx'', jint i)]
      | LoopFrame k i \<Rightarrow> JObj [(''kind'', JStr ''loop''), (''iter'', jint k), (''childIdx'', jint i)]
      | SwitchFrame c i \<Rightarrow> JObj [(''kind'', JStr ''switch''), (''caseIdx'', jint c), (''childIdx'', jint i)]
      | GroupFrame i \<Rightarrow> JObj [(''kind'', JStr ''group''), (''childIdx'', jint i)])"

definition path_value :: "step_path \<Rightarrow> jval" where
  "path_value p = JArr (map frame_value p)"

definition int_of_value :: "jval \<Rightarrow> int option" where
  "int_of_value v = (case v of JNum (Fin r) \<Rightarrow> Some \<lfloor>r\<rfloor> | _ \<Rightarrow> None)"

definition branch_of_value :: "jval \<Rightarrow> if_branch option" where
  "branch_of_value v =
     (if v = JStr ''then'' then Some ThenBranch else if v = JStr ''else'' then Some ElseBranch else None)"

definition frame_of_value :: "jval \<Rightarrow> step_path_frame option" where
  "frame_of_value v =
     Option.bind (int_of_value (get_prop v ''childIdx''))
       (\<lambda>i. if get_prop v ''kind'' = JStr ''top'' then Some (TopFrame i)
            else if get_prop v ''kind'' = JStr ''if''
              then map_option (\<lambda>b. IfFrame b i) (branch_of_value (get_prop v ''branch''))
            else if get_prop v ''kind'' = JStr ''loop''
              then map_option (\<lambda>k. LoopFrame k i) (int_of_value (get_prop v ''iter''))
            else if get_prop v ''kind'' = JStr ''switch''
              then map_option (\<lambda>c. SwitchFrame c i) (int_of_value (get_prop v ''caseIdx''))
            else if get_prop v ''kind'' = JStr ''group'' then Some (GroupFrame i)
            else None)"

definition path_of_value :: "jval \<Rightarrow> step_path option" where
  "path_of_value v = (case v of JArr vs \<Rightarrow> those (map frame_of_value vs) | _ \<Rightarrow> None)"

definition phase_string :: "run_phase \<Rightarrow> string" where
  "phase_string ph = (case ph of Running \<Rightarrow> ''running'' | Done \<Rightarrow> ''done'' | Failed \<Rightarrow> ''failed'')"

definition phase_of_string :: "string \<Rightarrow> run_phase option" where
  "phase_of_string s = map_of [(''running'', Running), (''done'', Done), (''failed'', Failed)] s"

definition string_of_value :: "jval \<Rightarrow> string option" where
  "string_of_value v = (case v of JStr s \<Rightarrow> Some s | _ \<Rightarrow> None)"

definition policy_of_value :: "jval \<Rightarrow> bool option" where
  "policy_of_value v =
     (if v = JStr ''same-origin'' then Some True else if v = JStr ''expected-path'' then Some False else None)"

definition run_state_value :: "worker_run_state \<Rightarrow> jval" where
  "run_state_value st = JObj [(''taskId'', JStr (wsTaskId st)), (''ruleId'', JStr (wsRuleId st)),
     (''lastCompletedStepPath'', path_value (wsLastCompleted st)), (''expectedUrl'', JStr (wsExpectedUrl st)),
     (''expectedUrlPolicy'', JStr (if wsSameOrigin st then ''same-origin'' else ''expected-path'')),
     (''status'', JStr (phase_string (wsStatus st)))]"

definition state_of_value :: "jval \<Rightarrow> worker_run_state option" where
  "state_of_value v =
     Option.bind (string_of_value (get_prop v ''taskId''))
    (\<lambda>t. Option.bind (string_of_value (get_prop v ''ruleId''))
    (\<lambda>r. Option.bind (path_of_value (get_prop v ''lastCompletedStepPath''))
    (\<lambda>p. Option.bind (string_of_value (get_prop v ''expectedUrl''))
    (\<lambda>u. Option.bind (policy_of_value (get_prop v ''expectedUrlPolicy''))
    (\<lambda>so. Option.bind (Option.bind (string_of_value (get_prop v ''status'')) phase_of_string)
    (\<lambda>ph. Some \<lparr>wsTaskId = t, wsRuleId = r, wsLastCompleted = p, wsExpectedUrl = u, wsSameOrigin = so,
               wsStatus = ph\<rparr>))))))"


section \<open>The helpers\<close>

text \<open>The prefix of the key of a state, and the key that names the active task\<close>

record state_keys =
  keyPrefix :: string
  activeKey :: string

definition state_key :: "state_keys \<Rightarrow> string \<Rightarrow> string" where
  "state_key ks tid = keyPrefix ks @ tid"

definition load_state :: "state_keys \<Rightarrow> string \<Rightarrow> storage_area \<Rightarrow> worker_run_state option" where
  "load_state ks tid a =
     (case getItem a (state_key ks tid) of
        Inl _ \<Rightarrow> None
      | Inr None \<Rightarrow> None
      | Inr (Some raw) \<Rightarrow> if raw = [] then None else Option.bind (parse_json raw) state_of_value)"

definition save_state :: "state_keys \<Rightarrow> worker_run_state \<Rightarrow> storage_area \<Rightarrow> storage_area" where
  "save_state ks st a =
     (case json_text (run_state_value st) of
        None \<Rightarrow> a
      | Some t \<Rightarrow>
          (case setItem (state_key ks (wsTaskId st)) t a of
             Inl _ \<Rightarrow> a
           | Inr a1 \<Rightarrow> (case setItem (activeKey ks) (wsTaskId st) a1 of Inl _ \<Rightarrow> a1 | Inr a2 \<Rightarrow> a2)))"

definition clear_state :: "state_keys \<Rightarrow> string \<Rightarrow> storage_area \<Rightarrow> storage_area" where
  "clear_state ks tid a =
     (case removeItem (state_key ks tid) a of
        Inl _ \<Rightarrow> a
      | Inr a1 \<Rightarrow>
          (case getItem a1 (activeKey ks) of
             Inr (Some t) \<Rightarrow> if t = tid then (case removeItem (activeKey ks) a1 of Inl _ \<Rightarrow> a1 | Inr a2 \<Rightarrow> a2) else a1
           | _ \<Rightarrow> a1))"

text \<open>\<open>readActiveReplayState\<close>\<close>

definition read_active_state :: "state_keys \<Rightarrow> storage_area \<Rightarrow> worker_run_state option" where
  "read_active_state ks a =
     (case getItem a (activeKey ks) of
        Inr (Some t) \<Rightarrow> if t = [] then None else load_state ks t a
      | _ \<Rightarrow> None)"


section \<open>What the storage keeps\<close>

lemma int_of_jint [simp]: "int_of_value (jint i) = Some i"
  by (simp add: int_of_value_def)

lemma frame_read_back [simp]: "frame_of_value (frame_value f) = Some f"
  by (cases f) (auto simp: frame_value_def frame_of_value_def obj_get_def branch_of_value_def split: if_branch.split)

lemma path_read_back [simp]: "path_of_value (path_value p) = Some p"
  by (induction p) (simp_all add: path_value_def path_of_value_def)

lemma state_read_back: "state_of_value (run_state_value st) = Some st"
  by (cases "wsStatus st")
    (simp_all add: run_state_value_def state_of_value_def obj_get_def string_of_value_def policy_of_value_def
      phase_string_def phase_of_string_def)

lemma storable_path: "storable (path_value p)"
proof -
  have "storable (frame_value f)" for f
    by (cases f) (simp_all add: frame_value_def al_wf_def)
  then show ?thesis by (simp add: path_value_def list_all_iff)
qed

lemma storable_state: "storable (run_state_value st)"
  by (simp add: run_state_value_def al_wf_def storable_path)

text \<open>The text of a state is read back as the state it was written from.\<close>

lemma state_text_read_back:
  "\<exists>t. json_text (run_state_value st) = Some t \<and> t \<noteq> [] \<and> Option.bind (parse_json t) state_of_value = Some st"
proof -
  have "Option.bind (json_text (run_state_value st)) parse_json = Some (run_state_value st)"
    using parse_written [OF storable_state] .
  moreover have "\<exists>t. json_text (run_state_value st) = Some t \<and> t \<noteq> []" by (simp add: run_state_value_def)
  ultimately show ?thesis using state_read_back by auto
qed



definition state_fits :: "state_keys \<Rightarrow> worker_run_state \<Rightarrow> storage_area \<Rightarrow> bool" where
  "state_fits ks st a \<longleftrightarrow> storageOpen a
     \<and> (case json_text (run_state_value st) of None \<Rightarrow> False
        | Some t \<Rightarrow> items_size (al_set (state_key ks (wsTaskId st)) t (storedItems a)) \<le> storageRoom a)"

lemma open_kept [simp]: "storageOpen (save_state ks st a) = storageOpen a" "storageOpen (clear_state ks tid a) = storageOpen a"
  by (auto simp: save_state_def setItem_def clear_state_def removeItem_def split: option.split sum.split)

lemma closed_save [simp]: "\<not> storageOpen a \<Longrightarrow> save_state ks st a = a"
  by (auto simp: save_state_def setItem_def split: option.split)

text \<open>Keys of states are no key of the active task.\<close>

locale run_store =
  fixes ks :: state_keys
  assumes apart: "\<not> prefix (keyPrefix ks) (activeKey ks)"
begin

lemma key_apart [simp]: "state_key ks tid \<noteq> activeKey ks" "activeKey ks \<noteq> state_key ks tid"
  using apart by (metis state_key_def prefixI)+

lemma key_inject [simp]: "state_key ks t = state_key ks u \<longleftrightarrow> t = u"
  by (simp add: state_key_def)

text \<open>Saving makes one of three storages: the old one, one with the state, one with the active task too.\<close>

lemma save_items:
  "save_state ks st a = a \<or> (\<exists>t. json_text (run_state_value st) = Some t
     \<and> (storedItems (save_state ks st a) = al_set (state_key ks (wsTaskId st)) t (storedItems a)
        \<or> storedItems (save_state ks st a) =
            al_set (activeKey ks) (wsTaskId st) (al_set (state_key ks (wsTaskId st)) t (storedItems a))))"
  by (simp add: save_state_def setItem_def split: option.split)

lemma save_cases:
  obtains "save_state ks st a = a"
  | t where "json_text (run_state_value st) = Some t"
      "map_of (storedItems (save_state ks st a)) (state_key ks (wsTaskId st)) = Some t"
      "\<And>k. k \<noteq> state_key ks (wsTaskId st) \<Longrightarrow> k \<noteq> activeKey ks
         \<Longrightarrow> map_of (storedItems (save_state ks st a)) k = map_of (storedItems a) k"
  using save_items [of st a] by (elim disjE exE conjE) (simp_all add: map_of_al_set)

lemma load_other:
  assumes "tid \<noteq> wsTaskId st" shows "load_state ks tid (save_state ks st a) = load_state ks tid a"
  using assms by (cases rule: save_cases [of st a]) (auto simp: load_state_def getItem_def)

lemma load_saved:
  assumes "state_fits ks st a" shows "load_state ks (wsTaskId st) (save_state ks st a) = Some st"
proof -
  obtain t where t: "json_text (run_state_value st) = Some t" "t \<noteq> []" "Option.bind (parse_json t) state_of_value = Some st"
    using state_text_read_back by blast
  have "map_of (storedItems (save_state ks st a)) (state_key ks (wsTaskId st)) = Some t"
    using assms t(1) by (auto simp: state_fits_def save_state_def setItem_def map_of_al_set)
  then show ?thesis using assms t(2,3) by (simp add: load_state_def getItem_def state_fits_def)
qed

text \<open>What is loaded for a task was saved for it: a state of another task is never returned in its place
  by a storage the helpers wrote.\<close>

definition tidy :: "storage_area \<Rightarrow> bool" where
  "tidy a \<longleftrightarrow> (\<forall>tid st. load_state ks tid a = Some st \<longrightarrow> wsTaskId st = tid)"

lemma save_tidy: "tidy a \<Longrightarrow> tidy (save_state ks st a)"
proof -
  assume a: "tidy a"
  have "wsTaskId st' = wsTaskId st" if "load_state ks (wsTaskId st) (save_state ks st a) = Some st'" for st'
  proof (cases rule: save_cases [of st a])
    case 1
    then show ?thesis using a that by (simp add: tidy_def)
  next
    case (2 t)
    then show ?thesis
      using that state_text_read_back [of st] by (auto simp: load_state_def getItem_def split: if_splits)
  qed
  then show ?thesis using a load_other unfolding tidy_def by metis
qed

lemma clear_items:
  "storageOpen a \<Longrightarrow> map_of (storedItems (clear_state ks tid a)) k =
     (if k = state_key ks tid \<or> (k = activeKey ks \<and> map_of (storedItems a) k = Some tid) then None else map_of (storedItems a) k)"
  by (auto simp: clear_state_def removeItem_def getItem_def map_of_al_remove split: option.split)

lemma load_cleared: "storageOpen a \<Longrightarrow> load_state ks tid (clear_state ks tid a) = None"
  by (simp add: load_state_def getItem_def clear_items)

lemma load_clear_other: "tid \<noteq> tid' \<Longrightarrow> load_state ks tid (clear_state ks tid' a) = load_state ks tid a"
  by (cases "storageOpen a") (simp_all add: load_state_def getItem_def clear_items)

lemma clear_tidy: "tidy a \<Longrightarrow> tidy (clear_state ks tid a)"
proof (cases "storageOpen a")
  case True
  assume "tidy a"
  moreover have "u = tid \<or> load_state ks u (clear_state ks tid a) = load_state ks u a" for u
    using load_clear_other by blast
  ultimately show "tidy (clear_state ks tid a)"
    using load_cleared [OF True] unfolding tidy_def by (metis option.distinct(1))
qed (simp add: clear_state_def removeItem_def)

end

definition worker_keys :: state_keys where
  "worker_keys = \<lparr>keyPrefix = ''oc_worker_state_'', activeKey = ''oc_worker_active''\<rparr>"

definition replay_keys :: state_keys where
  "replay_keys = \<lparr>keyPrefix = ''oc_replay_state_'', activeKey = ''oc_replay_active''\<rparr>"

interpretation worker_store: run_store worker_keys
  by unfold_locales code_simp

interpretation replay_store: run_store replay_keys
  by unfold_locales code_simp

end
