(* ===== verification/Worker_Snapshot.thy ===== *)
theory Worker_Snapshot
  imports Selectors Json
begin

text \<open>
  Model of \<open>src/worker-page/snapshot.ts\<close>: the snapshot of a page is written again from its DOM with a
  budget of nodes, depth and text before it leaves the page. A node of the DOM is given as data: its
  text, or its tag name, attributes and children. The ellipsis of a cut text is U+2026, which the
  eight-bit characters of the model do not have; the C1 control 133 stands for it.
\<close>

section \<open>The page\<close>

datatype dom_node =
    TextNode string
  | ElementNode (tagOf: string) (attrsOf: "(string \<times> string) list") (childNodes: "dom_node list")
  | OtherNode

definition getAttribute :: "(string \<times> string) list \<Rightarrow> string \<Rightarrow> string option" where
  "getAttribute as k = map_of as k"

definition MAX_WORKER_SNAPSHOT_BYTES :: nat where
  "MAX_WORKER_SNAPSHOT_BYTES = 384 * 1024"

definition MAX_WORKER_SNAPSHOT_NODES :: nat where
  "MAX_WORKER_SNAPSHOT_NODES = 1500"

definition MAX_WORKER_SNAPSHOT_DEPTH :: nat where
  "MAX_WORKER_SNAPSHOT_DEPTH = 40"

definition MAX_WORKER_SNAPSHOT_TEXT_LENGTH :: nat where
  "MAX_WORKER_SNAPSHOT_TEXT_LENGTH = 1000"

definition SKIP_TAGS :: "string list" where
  "SKIP_TAGS = [''SCRIPT'', ''STYLE'', ''NOSCRIPT'', ''TEMPLATE'', ''IFRAME'', ''OBJECT'', ''EMBED'', ''SVG'', ''CANVAS'']"

record serialize_report =
  srNodes :: nat
  srTruncated :: bool
  maxDepthReached :: bool

definition ellipsis :: char where
  "ellipsis = char_of (133 :: nat)"

definition utf8_size :: "string \<Rightarrow> nat" where
  "utf8_size s = sum_list (map (\<lambda>c. if c = ellipsis then 3 else length (utf8_bytes c)) s)"

definition jsonBytes :: "jval \<Rightarrow> nat" where
  "jsonBytes v = (case json_text v of None \<Rightarrow> utf8_size ''undefined'' | Some t \<Rightarrow> utf8_size t)"

text \<open>\<open>replace(/\s+/g, ' ')\<close>\<close>

fun squeeze_spaces :: "string \<Rightarrow> string" where
  "squeeze_spaces [] = []"
| "squeeze_spaces (c # cs) =
     (if ws_char c
      then (case cs of d # _ \<Rightarrow> if ws_char d then squeeze_spaces cs else CHR '' '' # squeeze_spaces cs | [] \<Rightarrow> '' '')
      else c # squeeze_spaces cs)"


section \<open>Serialisation\<close>

definition cut_text :: "string \<Rightarrow> string" where
  "cut_text raw = (if length raw > MAX_WORKER_SNAPSHOT_TEXT_LENGTH then take MAX_WORKER_SNAPSHOT_TEXT_LENGTH raw @ [ellipsis] else raw)"

definition text_object :: "string \<Rightarrow> jval" where
  "text_object raw = JObj [(''text'', JStr (cut_text raw))]"

definition or_blank :: "string option \<Rightarrow> string" where
  "or_blank x = (case x of None \<Rightarrow> [] | Some s \<Rightarrow> s)"

definition when_text :: "string \<Rightarrow> string \<Rightarrow> (string \<times> jval) list" where
  "when_text k s = (if s = [] then [] else [(k, JStr s)])"

definition element_object :: "string \<Rightarrow> (string \<times> string) list \<Rightarrow> jval list \<Rightarrow> jval" where
  "element_object tag as children =
     JObj ([(''tag'', JStr (map lower_char tag))]
       @ when_text ''id'' (or_blank (getAttribute as ''id''))
       @ when_text ''class'' (take 200 (js_trim (or_blank (getAttribute as ''class''))))
       @ when_text ''ariaLabel'' (take 200 (or_blank (getAttribute as ''aria-label'')))
       @ (if children = [] then [] else [(''children'', JArr children)]))"

fun serializeNode :: "dom_node \<Rightarrow> nat \<Rightarrow> serialize_report \<Rightarrow> jval option \<times> serialize_report"
  and serialize_children :: "dom_node list \<Rightarrow> nat \<Rightarrow> serialize_report \<Rightarrow> jval list \<times> serialize_report" where
  "serializeNode (TextNode s) depth r =
     (if srNodes r \<ge> MAX_WORKER_SNAPSHOT_NODES then (None, r\<lparr>srTruncated := True\<rparr>)
      else (let raw = js_trim (squeeze_spaces s) in
        if raw = [] then (None, r) else (Some (text_object raw), r\<lparr>srNodes := srNodes r + 1\<rparr>)))"
| "serializeNode OtherNode depth r =
     (if srNodes r \<ge> MAX_WORKER_SNAPSHOT_NODES then (None, r\<lparr>srTruncated := True\<rparr>) else (None, r))"
| "serializeNode (ElementNode tag as cs) depth r =
     (if srNodes r \<ge> MAX_WORKER_SNAPSHOT_NODES then (None, r\<lparr>srTruncated := True\<rparr>)
      else if tag \<in> set SKIP_TAGS then (None, r)
      else if depth \<ge> MAX_WORKER_SNAPSHOT_DEPTH then (None, r\<lparr>maxDepthReached := True\<rparr>)
      else (case serialize_children cs (depth + 1) (r\<lparr>srNodes := srNodes r + 1\<rparr>) of
              (children, r') \<Rightarrow> (Some (element_object tag as children), r')))"
| "serialize_children [] depth r = ([], r)"
| "serialize_children (c # cs) depth r =
     (case serializeNode c depth r of
        (v, r') \<Rightarrow>
          (let here = (case v of None \<Rightarrow> [] | Some x \<Rightarrow> [x]) in
           if srNodes r' \<ge> MAX_WORKER_SNAPSHOT_NODES then (here, r')
           else (case serialize_children cs depth r' of (rest, r'') \<Rightarrow> (here @ rest, r''))))"

definition report_value :: "serialize_report \<Rightarrow> jval" where
  "report_value r = JObj [(''nodes'', jint (int (srNodes r))), (''truncated'', JBool (srTruncated r)),
     (''maxDepthReached'', JBool (maxDepthReached r))]"

definition fresh_report :: serialize_report where
  "fresh_report = \<lparr>srNodes = 0, srTruncated = False, maxDepthReached = False\<rparr>"

record snapshot =
  snapName :: string
  snapType :: string
  snapData :: string

definition snapshot_artifact :: "string \<Rightarrow> dom_node \<Rightarrow> jval" where
  "snapshot_artifact typ node =
     (case serializeNode node 0 fresh_report of
        (v, r) \<Rightarrow> JObj [(''format'', JStr ''semantic-dom-v1''), (''originalType'', JStr typ),
          (''domTree'', case v of None \<Rightarrow> JNull | Some x \<Rightarrow> x), (''capture'', report_value r)])"

definition omitted_artifact :: "string \<Rightarrow> nat \<Rightarrow> serialize_report \<Rightarrow> jval" where
  "omitted_artifact typ bytes r =
     JObj [(''format'', JStr ''semantic-dom-v1''), (''originalType'', JStr typ), (''domOmitted'', JBool True),
       (''originalBytes'', jint (int bytes)), (''capture'', report_value (r\<lparr>srTruncated := True\<rparr>)),
       (''reason'', JStr ''sanitized worker snapshot exceeded the browser artifact budget'')]"

definition json_of :: "jval \<Rightarrow> string" where
  "json_of v = (case json_text v of None \<Rightarrow> ''undefined'' | Some t \<Rightarrow> t)"

text \<open>Nothing in the serialisation of a DOM given as data throws, so the \<open>catch\<close> branch has no case here.\<close>

definition sanitizeWorkerSnapshot :: "snapshot \<Rightarrow> dom_node \<Rightarrow> snapshot" where
  "sanitizeWorkerSnapshot snap node =
     (let artifact = snapshot_artifact (snapType snap) node; bytes = jsonBytes artifact
      in \<lparr>snapName = snapName snap, snapType = ''dom'',
          snapData = (if bytes \<le> MAX_WORKER_SNAPSHOT_BYTES then json_of artifact
             else json_of (omitted_artifact (snapType snap) bytes (snd (serializeNode node 0 fresh_report))))\<rparr>)"


section \<open>Budgets\<close>

text \<open>The objects of a value, and how deep they are nested\<close>

fun objects_in :: "jval \<Rightarrow> nat" where
  "objects_in (JObj fs) = 1 + sum_list (map (\<lambda>(k, v). objects_in v) fs)"
| "objects_in (JArr vs) = sum_list (map objects_in vs)"
| "objects_in _ = 0"

fun nesting :: "jval \<Rightarrow> nat" where
  "nesting (JObj fs) = 1 + fold max (map (\<lambda>(k, v). nesting v) fs) 0"
| "nesting (JArr vs) = fold max (map nesting vs) 0"
| "nesting _ = 0"

lemma fold_max_le: "fold max xs (b :: nat) \<le> n \<longleftrightarrow> b \<le> n \<and> (\<forall>x \<in> set xs. x \<le> n)"
  by (induction xs arbitrary: b) auto

lemma when_text_objects [simp]:
  "sum_list (map (\<lambda>(k, v). objects_in v) (when_text k s)) = 0"
  "x \<in> set (when_text k s) \<Longrightarrow> nesting (snd x) = 0"
  by (auto simp: when_text_def split: if_splits)

lemma element_object_objects: "objects_in (element_object tag as cs) = 1 + sum_list (map objects_in cs)"
  by (simp add: element_object_def)

lemma element_object_nesting: "nesting (element_object tag as cs) \<le> Suc n \<longleftrightarrow> (\<forall>c \<in> set cs. nesting c \<le> n)"
  by (auto simp: element_object_def fold_max_le case_prod_beta)

lemma serialize_counts:
  "serializeNode c d r = (v, r') \<Longrightarrow>
     srNodes r' = srNodes r + sum_list (map objects_in (case v of None \<Rightarrow> [] | Some x \<Rightarrow> [x]))
     \<and> srNodes r' \<le> max (srNodes r) MAX_WORKER_SNAPSHOT_NODES"
  "serialize_children cs d r = (vs, r') \<Longrightarrow>
     srNodes r' = srNodes r + sum_list (map objects_in vs) \<and> srNodes r' \<le> max (srNodes r) MAX_WORKER_SNAPSHOT_NODES"
proof (induction c d r and cs d r arbitrary: v r' and vs r' rule: serializeNode_serialize_children.induct)
  case (1 s depth r)
  then show ?case by (auto simp: text_object_def Let_def split: if_splits)
next
  case (2 depth r)
  then show ?case by (auto split: if_splits)
next
  case (3 tag as cs depth r)
  show ?case
  proof (cases "srNodes r \<ge> MAX_WORKER_SNAPSHOT_NODES \<or> tag \<in> set SKIP_TAGS \<or> depth \<ge> MAX_WORKER_SNAPSHOT_DEPTH")
    case True
    then show ?thesis using 3(2) by (auto split: if_splits)
  next
    case False
    obtain vs q where q: "serialize_children cs (depth + 1) (r\<lparr>srNodes := srNodes r + 1\<rparr>) = (vs, q)"
      by (cases "serialize_children cs (depth + 1) (r\<lparr>srNodes := srNodes r + 1\<rparr>)")
    then have "v = Some (element_object tag as vs)" "r' = q" using 3(2) False by simp_all
    with 3(1) [OF _ _ _ q] False show ?thesis by (simp add: element_object_objects)
  qed
next
  case (5 c cs depth r)
  obtain v q where q: "serializeNode c depth r = (v, q)" by (cases "serializeNode c depth r")
  show ?case
  proof (cases "srNodes q \<ge> MAX_WORKER_SNAPSHOT_NODES")
    case True
    then show ?thesis using 5(1) [OF q] 5(3) q by (simp add: Let_def)
  next
    case False
    obtain ws q' where q': "serialize_children cs depth q = (ws, q')" by (cases "serialize_children cs depth q")
    show ?thesis using 5(1) [OF q] 5(2) [OF q [symmetric] refl False q'] 5(3) q q' False by (auto simp: Let_def)
  qed
qed simp

lemma serialize_nesting:
  "serializeNode c d r = (v, r') \<Longrightarrow> v = Some x \<Longrightarrow> d \<le> MAX_WORKER_SNAPSHOT_DEPTH \<Longrightarrow> nesting x + d \<le> MAX_WORKER_SNAPSHOT_DEPTH + 1"
  "serialize_children cs d r = (vs, r') \<Longrightarrow> y \<in> set vs \<Longrightarrow> d \<le> MAX_WORKER_SNAPSHOT_DEPTH \<Longrightarrow> nesting y + d \<le> MAX_WORKER_SNAPSHOT_DEPTH + 1"
proof (induction c d r and cs d r arbitrary: v r' x and vs r' y rule: serializeNode_serialize_children.induct)
  case (1 s depth r)
  then show ?case by (auto simp: text_object_def Let_def split: if_splits)
next
  case (2 depth r)
  then show ?case by (auto split: if_splits)
next
  case (3 tag as cs depth r)
  then have small: "\<not> srNodes r \<ge> MAX_WORKER_SNAPSHOT_NODES" "tag \<notin> set SKIP_TAGS" "\<not> depth \<ge> MAX_WORKER_SNAPSHOT_DEPTH"
    by (auto split: if_splits)
  obtain vs q where q: "serialize_children cs (depth + 1) (r\<lparr>srNodes := srNodes r + 1\<rparr>) = (vs, q)"
    by (cases "serialize_children cs (depth + 1) (r\<lparr>srNodes := srNodes r + 1\<rparr>)")
  then have x: "x = element_object tag as vs" using 3(2,3) small by simp
  have "\<forall>y \<in> set vs. nesting y \<le> MAX_WORKER_SNAPSHOT_DEPTH - depth"
    using 3(1) [OF small q] small(3) by fastforce
  then have "nesting x \<le> Suc (MAX_WORKER_SNAPSHOT_DEPTH - depth)" unfolding x element_object_nesting .
  then show ?case using small(3) by linarith
next
  case (5 c cs depth r)
  obtain v q where q: "serializeNode c depth r = (v, q)" by (cases "serializeNode c depth r")
  obtain ws q' where q': "serialize_children cs depth q = (ws, q')" by (cases "serialize_children cs depth q")
  have "v = Some y \<or> (\<not> srNodes q \<ge> MAX_WORKER_SNAPSHOT_NODES \<and> y \<in> set ws)"
    using 5(3,4) q q' by (auto simp: Let_def split: if_splits option.splits)
  then show ?case
    using 5(1) [OF q _ 5(5)] 5(2) [OF q [symmetric] refl _ q' _ 5(5)] by blast
qed simp


lemma tree_bounded:
  assumes "serializeNode node 0 fresh_report = (Some tree, r)"
  shows "objects_in tree = srNodes r \<and> objects_in tree \<le> MAX_WORKER_SNAPSHOT_NODES
     \<and> nesting tree \<le> MAX_WORKER_SNAPSHOT_DEPTH + 1"
  using serialize_counts(1) [OF assms] serialize_nesting(1) [OF assms refl] by (simp add: fresh_report_def)

text \<open>The tree a snapshot carries has no more nodes and no deeper nesting than the budgets, and its text
  is within the byte budget, unless it is the marker, which carries only counts of the page.\<close>

theorem sanitized_snapshot_bounded:
  "(case fst (serializeNode node 0 fresh_report) of None \<Rightarrow> True
     | Some tree \<Rightarrow> objects_in tree \<le> 1500 \<and> nesting tree \<le> 41)
   \<and> (utf8_size (snapData (sanitizeWorkerSnapshot snap node)) \<le> 384 * 1024
      \<or> (\<exists>bytes nodes cut deep. 384 * 1024 < bytes \<and> nodes \<le> 1500 \<and>
           snapData (sanitizeWorkerSnapshot snap node) =
             json_of (omitted_artifact (snapType snap) bytes \<lparr>srNodes = nodes, srTruncated = cut, maxDepthReached = deep\<rparr>)))"
proof -
  obtain v r where s: "serializeNode node 0 fresh_report = (v, r)" by (cases "serializeNode node 0 fresh_report")
  have nodes: "srNodes r \<le> MAX_WORKER_SNAPSHOT_NODES"
    using serialize_counts(1) [OF s] by (simp add: fresh_report_def)
  have sized: "jsonBytes a = utf8_size (json_of a)" for a by (simp add: jsonBytes_def json_of_def split: option.split)
  let ?a = "snapshot_artifact (snapType snap) node"
  have "utf8_size (snapData (sanitizeWorkerSnapshot snap node)) \<le> 384 * 1024
    \<or> snapData (sanitizeWorkerSnapshot snap node) = json_of (omitted_artifact (snapType snap) (jsonBytes ?a) r) \<and> 384 * 1024 < jsonBytes ?a"
    using s by (simp add: sanitizeWorkerSnapshot_def Let_def sized MAX_WORKER_SNAPSHOT_BYTES_def)
  then have "utf8_size (snapData (sanitizeWorkerSnapshot snap node)) \<le> 384 * 1024
      \<or> (\<exists>bytes nodes cut deep. 384 * 1024 < bytes \<and> nodes \<le> 1500 \<and>
           snapData (sanitizeWorkerSnapshot snap node) =
             json_of (omitted_artifact (snapType snap) bytes \<lparr>srNodes = nodes, srTruncated = cut, maxDepthReached = deep\<rparr>))"
    using nodes unfolding MAX_WORKER_SNAPSHOT_NODES_def by (cases r) auto
  moreover have "case v of None \<Rightarrow> True | Some tree \<Rightarrow> objects_in tree \<le> 1500 \<and> nesting tree \<le> 41"
    using tree_bounded s by (auto simp: MAX_WORKER_SNAPSHOT_NODES_def MAX_WORKER_SNAPSHOT_DEPTH_def split: option.split)
  ultimately show ?thesis by (simp add: s)
qed

text \<open>
  \<open>SKIP_TAGS\<close> names the tag in capitals, but \<open>tagName\<close> is in capitals only for HTML elements: an inline
  \<open>svg\<close>, and a \<open>script\<close> inside it, answer their names in lower case and are kept.
\<close>

lemma inline_svg_kept:
  "fst (serializeNode (ElementNode ''BODY'' [] [ElementNode ''svg'' [] [ElementNode ''script'' [] [TextNode ''x'']],
       ElementNode ''SCRIPT'' [] [TextNode ''y'']]) 0 fresh_report) =
     Some (JObj [(''tag'', JStr ''body''), (''children'', JArr [JObj [(''tag'', JStr ''svg''), (''children'', JArr
       [JObj [(''tag'', JStr ''script''), (''children'', JArr [JObj [(''text'', JStr ''x'')]])]])]])])"
  by code_simp

end
