(* ===== verification/Worker_Page.thy ===== *)
theory Worker_Page
  imports Session_Store Worker_Snapshot Executor Preflight
begin

text \<open>
  Model of \<open>src/worker-page/bridge-transport.ts\<close> and \<open>entry.ts\<close>: the runtime that executes a rule in a
  page under the supervision of the worker host. The page is its storage, the marker of the active
  task, the calls it made to the host and the rest, of type \<open>'p\<close>, which the operations of a record
  observe and change: the location, the function the host has installed, the abort signal, the
  passing of time, the DOM, and the page half of the environment. The environment of a run is that
  half with the transport of the bridge; the leaf handlers are a parameter as in \<open>Executor\<close>.
\<close>

section \<open>The page\<close>

text \<open>What the host answers to a call: a value or a rejection after a time, a throw, or nothing\<close>

datatype bridge_answer = Answers int jval | Rejects int exn | Throws exn | Silent

record 'p page_ops =
  hrefOf :: "'p \<Rightarrow> string"
  hostnameOf :: "'p \<Rightarrow> string"
  parseUrl :: url_parser
  parseFrom :: "string \<Rightarrow> url_parser"
  bridgeUp :: "'p \<Rightarrow> bool"
  bridgeFn :: "string \<Rightarrow> jval \<Rightarrow> 'p \<Rightarrow> bridge_answer \<times> 'p"
  elapse :: "int \<Rightarrow> 'p \<Rightarrow> 'p"
  signalled :: "'p \<Rightarrow> bool"
  domOf :: "'p \<Rightarrow> dom_node"
  pageHalf :: "'p env"

record 'p realm =
  session :: storage_area
  activeTask :: "string option"
  calls :: "(string \<times> jval) list"
  finalMarker :: jval
  page :: 'p

definition on_page :: "('p, 'a) run \<Rightarrow> ('p realm, 'a) run" where
  "on_page m = (\<lambda>(c, w). case m (c, page w) of (r, (c', p)) \<Rightarrow> (r, (c', w\<lparr>page := p\<rparr>)))"

definition seen_on_page :: "('p st \<Rightarrow> 'a) \<Rightarrow> 'p realm st \<Rightarrow> 'a" where
  "seen_on_page f = (\<lambda>(c, w). f (c, page w))"


section \<open>The transport\<close>

definition BRIDGE_CALL_TIMEOUT_MS :: int where
  "BRIDGE_CALL_TIMEOUT_MS = 180000"

definition bridge_unavailable :: exn where
  "bridge_unavailable = Error ''WorkerBridgeUnavailable: window.__ocWorkerBridge is not installed by the host''"

definition bridge_timeout :: "string \<Rightarrow> exn" where
  "bridge_timeout m = Error (''BridgeTimeout: '' @ m @ '' did not respond within '' @ show_int BRIDGE_CALL_TIMEOUT_MS @ ''ms'')"

definition abort_error :: exn where
  "abort_error = JsError ''AbortError'' ''Task was cancelled''"

text \<open>The answer and the timer: which is first, and after how long\<close>

definition bridge_race :: "string \<Rightarrow> bridge_answer \<Rightarrow> int \<times> jval outcome" where
  "bridge_race m ans =
     (let late = (BRIDGE_CALL_TIMEOUT_MS, Throw (bridge_timeout m)) in
      case ans of
        Answers d v \<Rightarrow> if d < BRIDGE_CALL_TIMEOUT_MS then (d, Ret v) else late
      | Rejects d e \<Rightarrow> if d < BRIDGE_CALL_TIMEOUT_MS then (d, Throw e) else late
      | Throws e \<Rightarrow> (0, Throw e)
      | Silent \<Rightarrow> late)"

definition settle_call :: "'p page_ops \<Rightarrow> jval outcome \<Rightarrow> 'p realm st \<Rightarrow> jval outcome \<times> 'p realm st" where
  "settle_call ops r s =
     (case r of
        Ret v \<Rightarrow> (Ret v, s)
      | Throw e \<Rightarrow> (Throw (if signalled ops (page (snd s)) then abort_error else e), s))"

definition bridge_call :: "'p page_ops \<Rightarrow> string \<Rightarrow> jval \<Rightarrow> ('p realm, jval) run" where
  "bridge_call ops m v =
     (\<lambda>(c, w).
        if \<not> bridgeUp ops (page w) then settle_call ops (Throw bridge_unavailable) (c, w)
        else (case bridgeFn ops m v (page w) of
           (ans, p) \<Rightarrow>
             (case bridge_race m ans of
                (d, r) \<Rightarrow> settle_call ops r (c, w\<lparr>calls := calls w @ [(m, v)], page := elapse ops d p\<rparr>))))"

definition quietly :: "('w, 'a) run \<Rightarrow> ('w, unit) run" where
  "quietly m = bindR m (\<lambda>_. returnR ())"

definition internal_marker :: "jval \<Rightarrow> bool" where
  "internal_marker v \<longleftrightarrow> get_prop v ''__final'' = JBool True \<or> get_prop v ''__flush'' = JBool True
     \<or> get_prop v ''__criticalFailure'' = JBool True"

definition bridge_sendResult :: "'p page_ops \<Rightarrow> jval \<Rightarrow> bool \<Rightarrow> ('p realm, unit) run" where
  "bridge_sendResult ops v imm =
     (if truthy v \<and> internal_marker v
      then (\<lambda>(c, w). (Ret (), (c, if get_prop v ''__final'' = JBool True then w\<lparr>finalMarker := v\<rparr> else w)))
      else quietly (bridge_call ops ''sendResult'' (JObj [(''payload'', v), (''immediate'', JBool imm)])))"

definition opt_obj :: "jobj option \<Rightarrow> jval" where
  "opt_obj x = (case x of None \<Rightarrow> JUndef | Some fs \<Rightarrow> JObj fs)"

definition bridge_sendLog :: "'p page_ops \<Rightarrow> string \<Rightarrow> string \<Rightarrow> jobj option \<Rightarrow> ('p realm, unit) run" where
  "bridge_sendLog ops level m extra =
     quietly (bridge_call ops ''sendLog'' (JObj [(''level'', JStr level), (''message'', JStr m), (''extra'', opt_obj extra)]))"

definition bridge_sendHeartbeat :: "'p page_ops \<Rightarrow> jobj option \<Rightarrow> ('p realm, bool) run" where
  "bridge_sendHeartbeat ops p =
     bindR (bridge_call ops ''sendHeartbeat'' (JObj [(''payload'', opt_obj p)]))
       (\<lambda>v. returnR (truthy (get_prop v ''cancelRequested'')))"

definition bridge_sendStatus :: "'p page_ops \<Rightarrow> string \<Rightarrow> string \<Rightarrow> ('p realm, unit) run" where
  "bridge_sendStatus ops st m =
     quietly (bridge_call ops ''sendStatus'' (JObj [(''status'', JStr st), (''message'', JStr m)]))"

text \<open>A snapshot of the environment as the object it is, and the sanitized one\<close>

definition snapshot_of_value :: "jval \<Rightarrow> snapshot" where
  "snapshot_of_value v = \<lparr>snapName = js_String (get_prop v ''name''), snapType = js_String (get_prop v ''type''),
     snapData = js_String (get_prop v ''data'')\<rparr>"

definition snapshot_value :: "snapshot \<Rightarrow> jval" where
  "snapshot_value x = JObj [(''name'', JStr (snapName x)), (''type'', JStr (snapType x)), (''data'', JStr (snapData x))]"

definition bridge_sendSnapshot :: "'p page_ops \<Rightarrow> jval \<Rightarrow> ('p realm, unit) run" where
  "bridge_sendSnapshot ops v =
     (\<lambda>s. quietly (bridge_call ops ''sendSnapshot''
        (snapshot_value (sanitizeWorkerSnapshot (snapshot_of_value v) (domOf ops (page (snd s)))))) s)"

definition human_value :: "human_request \<Rightarrow> jval" where
  "human_value req = JObj [(''type'', JStr (reqType req)), (''prompt'', JStr (reqPrompt req)),
     (''timeoutMs'', jint (reqTimeoutMs req)),
     (''checkpoint'', JObj [(''stepId'', JStr (reqStepId req)), (''url'', JStr (reqUrl req))])]"

definition string_or_empty :: "jval \<Rightarrow> string" where
  "string_or_empty v = (if is_nullish v then [] else js_String v)"

text \<open>The engine reads the status of a decision, and no expiry, so the record has none.\<close>

definition bridge_requestHuman :: "'p page_ops \<Rightarrow> human_request \<Rightarrow> ('p realm, human_decision) run" where
  "bridge_requestHuman ops req =
     bindR (bridge_call ops ''requestHuman'' (human_value req))
       (\<lambda>v. returnR \<lparr>decisionId = string_or_empty (get_prop v ''id''),
          checkpointId = string_or_empty (get_prop v ''checkpointId''), decisionStatus = js_String (get_prop v ''status'')\<rparr>)"

text \<open>\<open>new BrowserEnvironment(transport, window, false, false)\<close> with the rule set on the transport\<close>

definition page_env :: "'p page_ops \<Rightarrow> rule \<Rightarrow> 'p realm env" where
  "page_env ops rl = (let half = pageHalf ops in \<lparr>
     findElement = (\<lambda>t ms. on_page (findElement half t ms)),
     sleepMs = (\<lambda>d. on_page (sleepMs half d)),
     nowMs = seen_on_page (nowMs half),
     getUrl = seen_on_page (getUrl half),
     getTitle = seen_on_page (getTitle half),
     evaluate = (\<lambda>x vs. on_page (evaluate half x vs)),
     saveSnapshot = (\<lambda>n t. on_page (saveSnapshot half n t)),
     waitForNetworkIdle = map_option (\<lambda>f i t. on_page (f i t)) (waitForNetworkIdle half),
     aborted = (\<lambda>s. signalled ops (page (snd s))),
     random = on_page (random half),
     regexTest = regexTest half,
     sendResult = bridge_sendResult ops,
     sendLog = bridge_sendLog ops,
     sendStatus = bridge_sendStatus ops,
     sendSnapshot = bridge_sendSnapshot ops,
     requestHuman = Some (bridge_requestHuman ops),
     flushResults = Some (returnR ()),
     sendHeartbeat = bridge_sendHeartbeat ops,
     fetchRule = (\<lambda>_. returnR (Some rl))\<rparr>)"


section \<open>Reports to the host\<close>

text \<open>Calls that are not awaited: no time passes, and the answer is dropped.\<close>

definition post_call :: "'p page_ops \<Rightarrow> string \<Rightarrow> jval \<Rightarrow> 'p realm \<Rightarrow> 'p realm" where
  "post_call ops m v w =
     (if bridgeUp ops (page w) then w\<lparr>calls := calls w @ [(m, v)], page := snd (bridgeFn ops m v (page w))\<rparr> else w)"

definition failure_event :: "string \<Rightarrow> jval" where
  "failure_event m = JObj [(''status'', JStr ''failure''), (''message'', JStr m)]"

definition result_event :: "jval \<Rightarrow> execution_result \<Rightarrow> jval" where
  "result_event marker r = JObj [(''status'', JStr (status_string (resStatus r))), (''message'', JStr (resMessage r)),
     (''error'', case resError r of None \<Rightarrow> JUndef
        | Some e \<Rightarrow> JObj [(''type'', JStr (errType e)), (''message'', JStr (errMessage e))]),
     (''partialData'', if is_nullish (JObj (partialData r)) then marker else JObj (partialData r))]"

definition postComplete :: "'p page_ops \<Rightarrow> jval \<Rightarrow> 'p realm \<Rightarrow> 'p realm" where
  "postComplete ops v = post_call ops ''complete'' v"

definition context_value :: "string \<Rightarrow> checkpoint_state \<Rightarrow> jval" where
  "context_value tid cp = JObj [(''taskId'', JStr tid), (''lastCompletedStepPath'', path_value (lastCompletedStepPath cp)),
     (''extracted'', JObj (csExtracted cp)), (''evaluated'', JObj (csEvaluated cp)), (''captured'', JObj (csCaptured cp))]"

definition postCheckpointContext :: "'p page_ops \<Rightarrow> string \<Rightarrow> checkpoint_state \<Rightarrow> 'p realm \<Rightarrow> 'p realm" where
  "postCheckpointContext ops tid cp = post_call ops ''checkpointContext'' (context_value tid cp)"


section \<open>One run of a payload\<close>

record page_payload =
  plRule :: rule
  plVariables :: "jobj option"
  plTaskId :: string
  plWorkerId :: string

definition pf_code_string :: "preflight_code \<Rightarrow> string" where
  "pf_code_string c =
     (case c of
        WhileElementExistsNavigation \<Rightarrow> ''while_element_exists_navigation_unsupported''
      | RetryNavigation \<Rightarrow> ''retry_navigation_unsupported''
      | HookNavigation \<Rightarrow> ''hook_navigation''
      | EvaluateDisabled \<Rightarrow> ''evaluate_disabled''
      | EvaluateUntrusted \<Rightarrow> ''evaluate_recorded_untrusted''
      | HistoryNavigation \<Rightarrow> ''history_navigation_unsupported''
      | StaticCrossOrigin \<Rightarrow> ''static_cross_origin_navigate'')"

definition preflight_message :: "preflight_error list \<Rightarrow> string" where
  "preflight_message es = ''preflight failed: '' @ join_strings ''; ''
     (map (\<lambda>e. pf_code_string (pfCode e) @ ''@'' @ pfPath e @ '' ('' @ pfMessage e @ '')'') es)"

text \<open>The checks before a run, in their order: \<open>Some\<close> message is the failure that is reported.\<close>

definition run_refusal ::
  "'p page_ops \<Rightarrow> page_payload \<Rightarrow> bool \<Rightarrow> worker_run_state option \<Rightarrow> resume_context option \<Rightarrow> 'p \<Rightarrow> string option" where
  "run_refusal ops pl isResume prior ctx p =
     (case (if isResume then validateResume (parseUrl ops) prior (plTaskId pl) (hrefOf ops p) ctx else None) of
        Some reason \<Rightarrow> Some reason
      | None \<Rightarrow>
          if isResume \<and> ctx = None then Some ''resume refused: host checkpoint context missing''
          else if preflightRule (parseUrl ops) (plRule pl) \<noteq> []
          then Some (preflight_message (preflightRule (parseUrl ops) (plRule pl)))
          else if \<not> hostMatchesDomain (hostnameOf ops p) (ruleDomainList (plRule pl))
          then Some (''Domain mismatch: '' @ hostnameOf ops p)
          else None)"

definition invalid_url :: "string \<Rightarrow> exn" where
  "invalid_url u = JsError ''TypeError'' (''Invalid URL'')"

definition base_state :: "page_payload \<Rightarrow> string \<Rightarrow> worker_run_state" where
  "base_state pl here = \<lparr>wsTaskId = plTaskId pl, wsRuleId = ruleIdOf (plRule pl), wsLastCompleted = EMPTY_PATH,
     wsExpectedUrl = here, wsSameOrigin = False, wsStatus = Running\<rparr>"

text \<open>Where the page is expected after a checkpoint; \<open>None\<close> where the location itself is no URL\<close>

definition checkpoint_expectation :: "'p page_ops \<Rightarrow> checkpoint_state \<Rightarrow> 'p \<Rightarrow> (string \<times> bool) option" where
  "checkpoint_expectation ops cp p =
     (case normalizeRunUrl (parseUrl ops) (hrefOf ops p) of
        None \<Rightarrow> None
      | Some here \<Rightarrow>
          (case navigation cp of
             None \<Rightarrow> Some (here, False)
           | Some nav \<Rightarrow>
               (case normalizeRunUrl (parseFrom ops (hrefOf ops p)) (expectedUrl nav) of
                  Some u \<Rightarrow> Some (u, urlPolicy nav = SameOrigin)
                | None \<Rightarrow> Some (here, True))))"

definition store_checkpoint :: "'p page_ops \<Rightarrow> worker_run_state \<Rightarrow> checkpoint_state \<Rightarrow> string \<times> bool \<Rightarrow> 'p realm \<Rightarrow> 'p realm" where
  "store_checkpoint ops base_st cp x w =
     postCheckpointContext ops (wsTaskId base_st) cp
       (w\<lparr>session := save_state worker_keys
            (base_st\<lparr>wsLastCompleted := lastCompletedStepPath cp, wsExpectedUrl := fst x, wsSameOrigin := snd x\<rparr>) (session w)\<rparr>)"

definition page_onCheckpoint ::
  "'p page_ops \<Rightarrow> worker_run_state \<Rightarrow> checkpoint_state \<Rightarrow> ('p realm run_world, unit) run" where
  "page_onCheckpoint ops base_st cp =
     (\<lambda>(c, rw). case checkpoint_expectation ops cp (page (inner rw)) of
        None \<Rightarrow> (Throw (invalid_url (hrefOf ops (page (inner rw)))), (c, rw))
      | Some x \<Rightarrow> (Ret (), (c, rw\<lparr>inner := store_checkpoint ops base_st cp x (inner rw)\<rparr>)))"

definition page_onStepFailure :: "string \<Rightarrow> step_path \<Rightarrow> ('p realm run_world, unit) run" where
  "page_onStepFailure tid path =
     (\<lambda>(c, rw). (Ret (), (c, case load_state worker_keys tid (session (inner rw)) of
          None \<Rightarrow> rw
        | Some st \<Rightarrow> rw\<lparr>inner := (inner rw)\<lparr>session :=
            save_state worker_keys (st\<lparr>wsLastCompleted := prevPendingPath path\<rparr>) (session (inner rw))\<rparr>\<rparr>)))"

definition resume_point :: "bool \<Rightarrow> worker_run_state option \<Rightarrow> step_path" where
  "resume_point isResume prior =
     (case prior of Some p \<Rightarrow> if isResume then nextPendingPath (wsLastCompleted p) else EMPTY_PATH | None \<Rightarrow> EMPTY_PATH)"

definition page_options ::
  "'p page_ops \<Rightarrow> page_payload \<Rightarrow> bool \<Rightarrow> worker_run_state option \<Rightarrow> resume_context option \<Rightarrow> worker_run_state
   \<Rightarrow> 'p realm executor_options" where
  "page_options ops pl isResume prior ctx base_st = \<lparr>optRule = plRule pl, optTaskId = plTaskId pl, optWorkerId = plWorkerId pl,
     optVariables = (case plVariables pl of None \<Rightarrow> [] | Some vs \<Rightarrow> vs),
     resumeStepPath = Some (resume_point isResume prior),
     initialContext = (if isResume then map_option (\<lambda>c. (Some (rcExtracted c), Some (rcEvaluated c), Some (rcCaptured c))) ctx else None),
     initialHooksCompleted = None, onCheckpoint = Some (page_onCheckpoint ops base_st),
     onStepFailureOpt = Some (page_onStepFailure (plTaskId pl)), humanizeReplay = False\<rparr>"

definition terminal_path :: "rule \<Rightarrow> step_path" where
  "terminal_path rl = (if steps rl = [] then EMPTY_PATH else [TopFrame (int (length (steps rl)) - 1)])"

text \<open>The terminal state is saved, the completion reported, and the state cleared again.\<close>

definition report_run ::
  "'p page_ops \<Rightarrow> page_payload \<Rightarrow> worker_run_state \<Rightarrow> execution_result outcome \<Rightarrow> 'p realm \<Rightarrow> 'p realm" where
  "report_run ops pl base_st r w =
     (case r of
        Ret res \<Rightarrow> postComplete ops (result_event (finalMarker w) res)
          (w\<lparr>session := save_state worker_keys
               (base_st\<lparr>wsLastCompleted := terminal_path (plRule pl),
                        wsStatus := (if resStatus res = Success then Done else Failed)\<rparr>) (session w)\<rparr>)
      | Throw e \<Rightarrow> postComplete ops (failure_event (exn_message e))
          (w\<lparr>session := save_state worker_keys (base_st\<lparr>wsStatus := Failed\<rparr>) (session w)\<rparr>))"

definition end_run :: "string \<Rightarrow> 'p realm \<Rightarrow> 'p realm" where
  "end_run tid w = w\<lparr>session := clear_state worker_keys tid (session w), activeTask := None\<rparr>"

text \<open>A new transport has no marker.\<close>

definition execute_payload ::
  "'p page_ops \<Rightarrow> ('p realm run_world env \<Rightarrow> 'p realm run_world handler) \<Rightarrow> page_payload \<Rightarrow> bool
   \<Rightarrow> worker_run_state option \<Rightarrow> resume_context option \<Rightarrow> worker_run_state \<Rightarrow> 'p realm \<Rightarrow> 'p realm" where
  "execute_payload ops exec pl isResume prior ctx base_st w =
     (let w1 = w\<lparr>finalMarker := JUndef,
               session := (if isResume then session w else save_state worker_keys base_st (session w))\<rparr>
      in case runRule exec (page_env ops (plRule pl)) (page_options ops pl isResume prior ctx base_st) w1 of
           (r, (_, rw)) \<Rightarrow> end_run (plTaskId pl) (report_run ops pl base_st r (inner rw)))"

text \<open>A throw outside the \<open>try\<close>, of a location that is no URL, leaves the marker of the active task.\<close>

definition runWithPayload ::
  "'p page_ops \<Rightarrow> ('p realm run_world env \<Rightarrow> 'p realm run_world handler) \<Rightarrow> page_payload \<Rightarrow> bool
   \<Rightarrow> resume_context option \<Rightarrow> 'p realm \<Rightarrow> unit outcome \<times> 'p realm" where
  "runWithPayload ops exec pl isResume ctx w =
     (if activeTask w = Some (plTaskId pl) then (Ret (), w)
      else let w0 = w\<lparr>activeTask := Some (plTaskId pl)\<rparr>;
               prior = (if isResume then load_state worker_keys (plTaskId pl) (session w0) else None)
        in case run_refusal ops pl isResume prior ctx (page w0) of
             Some m \<Rightarrow> (Ret (), (postComplete ops (failure_event m) w0)\<lparr>activeTask := None\<rparr>)
           | None \<Rightarrow>
               (case normalizeRunUrl (parseUrl ops) (hrefOf ops (page w0)) of
                  None \<Rightarrow> (Throw (invalid_url (hrefOf ops (page w0))), w0)
                | Some here \<Rightarrow> (Ret (), execute_payload ops exec pl isResume prior ctx (base_state pl here) w0)))"

end
