(* ===== verification/Executor_World.thy ===== *)
theory Executor_World
  imports Executor Demo_Env
begin

text \<open>
  A whole run and the world below it. A run wraps the world of its environment with a buffer and its
  variables; a discipline on the inner world that the environment, the handler and the callbacks
  respect is respected by the whole run, its hooks, its reports and its cleanup included.
\<close>

section \<open>Disciplines seen through the wrapping\<close>

definition within_world :: "(nat \<Rightarrow> 'w \<Rightarrow> 'w \<Rightarrow> bool) \<Rightarrow> nat \<Rightarrow> 'w run_world \<Rightarrow> 'w run_world \<Rightarrow> bool" where
  "within_world R n w w' \<longleftrightarrow> R n (inner w) (inner w')"

text \<open>All the operations of an environment a run calls\<close>

definition env_free :: "(nat \<Rightarrow> 'w \<Rightarrow> 'w \<Rightarrow> bool) \<Rightarrow> 'w env \<Rightarrow> bool" where
  "env_free R env \<longleftrightarrow> services_free R env \<and> lookups_free R env
     \<and> (\<forall>st m. eff R 0 (sendStatus env st m)) \<and> (\<forall>v. eff R 0 (sendSnapshot env v))
     \<and> (\<forall>n t. eff R 0 (saveSnapshot env n t)) \<and> (\<forall>f. flushResults env = Some f \<longrightarrow> eff R 0 f)"

definition callbacks_within ::
  "(nat \<Rightarrow> 'w \<Rightarrow> 'w \<Rightarrow> bool) \<Rightarrow> 'w executor_options \<Rightarrow> bool" where
  "callbacks_within R opts \<longleftrightarrow>
     (\<forall>cb cp. onCheckpoint opts = Some cb \<longrightarrow> eff (within_world R) 0 (cb cp))
     \<and> (\<forall>cb p. onStepFailureOpt opts = Some cb \<longrightarrow> eff (within_world R) 0 (cb p))"

lemma env_free_parts:
  assumes "env_free R env"
  shows "services_free R env" "lookups_free R env" "eff R 0 (sendStatus env st m)" "eff R 0 (sendSnapshot env v)"
    "eff R 0 (saveSnapshot env n t)" "flushResults env = Some f \<Longrightarrow> eff R 0 f"
    "eff R 0 (sendLog env l m' x)" "eff R 0 (sendResult env v' i)"
  using assms by (simp_all add: env_free_def services_free_def)

locale world_discipline = effect_discipline R for R :: "nat \<Rightarrow> 'w \<Rightarrow> 'w \<Rightarrow> bool"
begin

lemma within_is_discipline: "effect_discipline (within_world R)"
  by unfold_locales (auto simp: within_world_def free intro: compose weaken)

end

sublocale world_discipline \<subseteq> outer: effect_discipline "within_world R"
  by (rule within_is_discipline)

context world_discipline begin

lemma eff_lift_run: "eff R n m \<Longrightarrow> eff (within_world R) n (lift_run m :: ('w run_world, 'a) run)"
  unfolding eff_def within_world_def lift_run_def by (fastforce split: prod.splits)

lemma same_inner: "inner w' = inner w \<Longrightarrow> within_world R n w w'"
  by (simp add: within_world_def stay)

lemma eff_set_locals: "eff (within_world R) n (set_locals f)"
  by (auto simp: eff_def set_locals_def intro: same_inner)

lemma eff_modify_buffer: "eff (within_world R) n (modify_buffer f :: ('w run_world, unit) run)"
  by (auto simp: eff_def modify_buffer_def intro!: same_inner)

lemma eff_fun: "(\<And>s. eff (within_world R) n (f s)) \<Longrightarrow> eff (within_world R) n (\<lambda>s. f s s)"
  unfolding eff_def by blast

lemma eff_if: "eff (within_world R) n a \<Longrightarrow> eff (within_world R) n b \<Longrightarrow> eff (within_world R) n (\<lambda>s. if P s then a s else b s)"
  unfolding eff_def by simp

lemma eff_send_batch: "env_free R env \<Longrightarrow> eff (within_world R) 0 (send_batch env items :: ('w run_world, unit) run)"
  unfolding send_batch_def
  by (intro outer.eff_catchR0 outer.eff_thenR0 eff_lift_run eff_modify_buffer outer.eff_pure env_free_parts)

lemma eff_doFlush_loop:
  assumes "env_free R env" shows "eff (within_world R) 0 (doFlush_loop n env :: ('w run_world, unit) run)"
proof (induction n)
  case (Suc n)
  have 1: "eff (within_world R) 0 (thenR (send_batch env items) (doFlush_loop n env) :: ('w run_world, unit) run)" for items
    by (intro outer.eff_thenR0 eff_send_batch assms Suc.IH)
  have 2: "eff (within_world R) 0 (thenR (modify_buffer f) (thenR (send_batch env items) (doFlush_loop n env)) :: ('w run_world, unit) run)" for f items
    by (intro outer.eff_thenR0 eff_modify_buffer 1)
  show ?case
    by (rule outer.effI) (auto split: option.splits if_splits intro: same_inner dest: outer.effD [OF 1] outer.effD [OF 2])
qed (simp add: outer.eff_Pair)

lemma eff_flush: "env_free R env \<Longrightarrow> eff (within_world R) 0 (flush env :: ('w run_world, unit) run)"
  by (simp add: flush_def eff_doFlush_loop)

lemma eff_buffered_sendResult:
  assumes "env_free R env" shows "eff (within_world R) 0 (buffered_sendResult pol env x i :: ('w run_world, unit) run)"
proof -
  have "eff (within_world R) 0 (\<lambda>s :: 'w run_world st. if int (length (rows (buffer (snd s)))) \<ge> polBatch pol then flush env s else (Ret (), s))"
    by (intro eff_if eff_flush assms outer.eff_Pair)
  then show ?thesis
    unfolding buffered_sendResult_def
    using env_free_parts(8) [OF assms] by (simp add: eff_lift_run outer.eff_thenR0 eff_modify_buffer)
qed

lemma eff_drain: "env_free R env \<Longrightarrow> eff (within_world R) 0 (drain pol env b :: ('w run_world, unit) run)"
  unfolding drain_def dispose_def by (rule outer.eff_finallyR) (auto intro: eff_flush eff_modify_buffer)

lemma eff_wrapped_human:
  "(\<And>f. ask = Some f \<Longrightarrow> eff (within_world R) 0 (f req)) \<Longrightarrow> eff (within_world R) 0 (wrapped_requestHuman ask req)"
  by (cases ask) (auto simp: wrapped_requestHuman_def outer.eff_pure)

lemma env_free_lift: "env_free R env \<Longrightarrow> env_free (within_world R) (lift_env env)"
  unfolding env_free_def services_free_def lookups_free_def lift_env_def by (auto simp: eff_lift_run)

lemma env_free_buffering:
  assumes "env_free R env" shows "env_free (within_world R) (buffering_env pol env)"
proof -
  have h: "eff (within_world R) 0 (wrapped_requestHuman (requestHuman (lift_env env :: 'w run_world env)) req)" for req
    by (rule eff_wrapped_human) (use env_free_lift [OF assms] in \<open>auto simp: env_free_def services_free_def\<close>)
  show ?thesis
    using env_free_lift [OF assms] h eff_buffered_sendResult [OF assms] eff_flush [OF assms]
    by (auto simp: env_free_def services_free_def lookups_free_def buffering_env_def)
qed

lemma env_free_tagged:
  assumes "env_free (within_world R) env" shows "env_free (within_world R) (tagged_env env)"
proof -
  have h: "eff (within_world R) 0 (wrapped_requestHuman (requestHuman env) req)" for req
    by (rule eff_wrapped_human) (use assms in \<open>auto simp: env_free_def services_free_def\<close>)
  have l: "eff (within_world R) 0 (\<lambda>s. sendLog env l m (tagged_extra (tags (fst s)) x) s)" for l m x
    by (rule eff_fun) (rule env_free_parts [OF assms])
  show ?thesis
    using assms h l
    by (auto simp: env_free_def services_free_def lookups_free_def tagged_env_def outer.eff_pure split: option.split)
qed

lemma env_free_run_env: "env_free R env \<Longrightarrow> env_free (within_world R) (run_env rl env)"
  unfolding run_env_def by (auto intro!: env_free_tagged env_free_lift env_free_buffering split: option.split)


section \<open>The pieces of a run\<close>

lemma eff_markFatalError:
  assumes "env_free (within_world R) env" shows "eff (within_world R) 0 (markFatalError env rl err)"
  unfolding markFatalError_def
  by (intro outer.eff_thenR0 eff_set_locals eff_if outer.eff_catchR0 outer.eff_bindR0 outer.eff_whenR outer.eff_Pair
      env_free_parts [OF assms])

lemma eff_exit_or_abort:
  assumes "env_free (within_world R) env" shows "eff (within_world R) 0 (exit_or_abort env rl e)"
proof -
  have f: "eff (within_world R) 0 (\<lambda>s. thenR (markFatalError env rl (err s)) (returnR True) s)" for err
    by (rule eff_fun) (intro outer.eff_thenR0 eff_markFatalError assms outer.eff_pure)
  have "eff (within_world R) 0 (applyExit env rl e)"
    unfolding applyExit_def
    by (cases e) (auto intro!: f outer.eff_thenR0 eff_set_locals outer.eff_pure outer.eff_Pair split: run_status.split)
  then show ?thesis
    unfolding exit_or_abort_def applyAbort_def
    by (auto intro!: outer.eff_bindR0 outer.eff_thenR0 outer.eff_pure eff_set_locals)
qed

lemma eff_log_error: "env_free (within_world R) env \<Longrightarrow> eff (within_world R) 0 (log_error env l m d)"
  unfolding log_error_def by (rule env_free_parts)

lemma eff_refresh_page: "eff (within_world R) 0 (refresh_page env)"
  unfolding refresh_page_def by (rule eff_fun) (rule outer.eff_pure)

lemma eff_emit_checkpoint:
  assumes "callbacks_within R opts" shows "eff (within_world R) 0 (emit_checkpoint opts f)"
proof (cases "onCheckpoint opts")
  case (Some cb)
  have "eff (within_world R) 0 (\<lambda>s. cb (f s) s)"
    by (rule eff_fun) (use assms Some in \<open>simp add: callbacks_within_def\<close>)
  then show ?thesis using Some by (simp add: emit_checkpoint_def)
qed (simp add: emit_checkpoint_def outer.eff_pure)

lemma eff_hook_done: "callbacks_within R opts \<Longrightarrow> eff (within_world R) 0 (hook_done opts h)"
  unfolding hook_done_def by (intro outer.eff_thenR0 eff_set_locals eff_emit_checkpoint)

lemma eff_run_main:
  assumes "env_free (within_world R) env" "handler_costs (within_world R) 0 ex" "callbacks_within R opts"
  shows "eff (within_world R) 0 (runSteps env ex ss None)"
    "eff (within_world R) 0 (runSteps env ex ss (Some (main_options env opts)))"
proof -
  note parts = env_free_parts(1,2) [OF assms(1)] assms(2)
  show "eff (within_world R) 0 (runSteps env ex ss None)"
    by (rule outer.eff_runSteps [OF parts]) (simp add: callbacks_free_def)
  have "callbacks_free (within_world R) (Some (main_options env opts))"
    using eff_emit_checkpoint [OF assms(3)] assms(3)
    by (auto simp: callbacks_free_def main_options_def step_checkpoint_def callbacks_within_def)
  then show "eff (within_world R) 0 (runSteps env ex ss (Some (main_options env opts)))"
    by (rule outer.eff_runSteps [OF parts])
qed

lemma eff_late_hook:
  assumes "env_free (within_world R) env" "handler_costs (within_world R) 0 (exec env)" "callbacks_within R opts"
  shows "eff (within_world R) 0 (late_hook exec env opts h name as)"
proof (cases as)
  case (Some ss)
  have "eff (within_world R) 0 (finallyR
            (catchR
              (thenR (refresh_page env)
                (bindR (runSteps env (exec env) ss None)
                  (\<lambda>r. case r of None \<Rightarrow> returnR ()
                       | Some e \<Rightarrow> log_error env ''warn'' (name @ '' hook failed'') (errMessage e))))
              (\<lambda>e. bindR (exit_or_abort env (optRule opts) e)
                 (\<lambda>b. if b then returnR () else log_error env ''warn'' (name @ '' hook failed'') (exn_message e))))
            (hook_done opts h))"
    using assms
    by (auto intro!: outer.eff_finallyR outer.eff_catchR0 outer.eff_thenR0 outer.eff_bindR0 eff_refresh_page
        eff_run_main eff_exit_or_abort eff_hook_done simp: outer.eff_pure eff_log_error split: option.split)
  then show ?thesis
    using Some unfolding late_hook_def by (simp add: eff_if outer.eff_Pair)
qed (simp add: late_hook_def outer.eff_Pair)

lemma eff_onError_hook:
  assumes "env_free (within_world R) env" "handler_costs (within_world R) 0 (exec env)" "callbacks_within R opts"
  shows "eff (within_world R) 0 (onError_hook exec env opts)"
proof -
  have "eff (within_world R) 0 (thenR (modifyCtx g) (late_hook exec env opts OnError ''onError'' as))" for g as
    by (intro outer.eff_thenR0 outer.eff_pure eff_late_hook assms)
  then show ?thesis
    unfolding onError_hook_def eff_def using outer.stay by (auto split: option.splits if_splits)
qed

lemma eff_main_steps:
  assumes "env_free (within_world R) env" "handler_costs (within_world R) 0 (exec env)" "callbacks_within R opts"
  shows "eff (within_world R) 0 (main_steps exec env opts)"
  unfolding main_steps_def using assms
  by (intro eff_if outer.eff_Pair outer.eff_bindR0 outer.eff_catchR0 eff_run_main eff_exit_or_abort outer.eff_pure)
    (auto simp: outer.eff_pure eff_markFatalError split: option.split)

lemma eff_check_output:
  assumes "env_free (within_world R) env" shows "eff (within_world R) 0 (check_output env rl)"
proof -
  have "eff (within_world R) 0 (validateOutput env d schema mode)" for d schema mode
    unfolding validateOutput_def Let_def
    by (auto simp: outer.eff_pure outer.eff_Pair env_free_parts [OF assms] outer.eff_thenR0 split: sum.split list.split)
  then have "eff (within_world R) 0 (\<lambda>s. validateOutput env (JObj (extracted (fst s))) schema mode s)" for schema mode
    unfolding eff_def by blast
  then show ?thesis
    unfolding check_output_def
    by (auto intro!: outer.eff_catchR0 outer.eff_bindR0 eff_markFatalError assms simp: outer.eff_pure outer.eff_Pair split: option.split)
qed

lemma eff_drain_buffer:
  assumes "env_free R base_env" "env_free (within_world R) env" shows "eff (within_world R) 0 (drain_buffer base_env env rl)"
proof -
  have "eff (within_world R) 0 (\<lambda>s. catchR (drain pol base_env (rStatus (locals_of s) = Success))
      (\<lambda>e. thenR (log_error env ''error'' ''sendPolicy drain failed'' (exn_message e))
               (markFatalError env rl (plain_error ''TransportError'' (''sendPolicy drain failed: '' @ exn_message e)))) s)" for pol
    by (rule eff_fun) (intro outer.eff_catchR0 outer.eff_thenR0 eff_drain eff_log_error eff_markFatalError assms)
  then show ?thesis
    unfolding drain_buffer_def by (auto simp: outer.eff_pure split: option.split)
qed

lemma eff_report_result:
  assumes "env_free (within_world R) env" shows "eff (within_world R) 0 (report_result env tid)"
proof -
  have "eff (within_world R) 0 (\<lambda>s. let l = locals_of s;
                result = \<lparr>resStatus = rStatus l, resMessage = rMessage l,
                          partialData = extracted (fst s), resError = fatalError l\<rparr>
            in thenR (sendStatus env (status_string (rStatus l)) (rMessage l)) (returnR result) s)"
    unfolding Let_def by (rule eff_fun) (intro outer.eff_thenR0 env_free_parts [OF assms] outer.eff_pure)
  then show ?thesis unfolding report_result_def by (intro outer.eff_thenR0 env_free_parts [OF assms])
qed

lemma eff_after_main:
  assumes "env_free R base_env" "env_free (within_world R) env" "handler_costs (within_world R) 0 (exec env)" "callbacks_within R opts"
  shows "eff (within_world R) 0 (after_main base_env exec env opts)"
  unfolding after_main_def Let_def
  by (intro outer.eff_thenR0 eff_late_hook eff_onError_hook eff_check_output eff_drain_buffer eff_report_result assms)

lemma eff_finalize:
  assumes "env_free R base_env" "env_free (within_world R) env" "eff (within_world R) 0 ep"
  shows "eff (within_world R) 0 (finalize base_env env rl err ep)"
proof -
  note lifted = env_free_lift [OF assms(1)]
  have send: "eff (within_world R) 0 (\<lambda>s. sendResult e (critical_payload err (fst s)) True s)" if "env_free (within_world R) e" for e
    by (rule eff_fun) (rule env_free_parts [OF that])
  have ret: "eff (within_world R) 0 (\<lambda>s. (Ret (g s), s))" for g :: "'w run_world st \<Rightarrow> execution_result"
    by (simp add: eff_def outer.stay)
  show ?thesis
    unfolding finalize_def using assms
    by (auto intro!: outer.eff_thenR0 outer.eff_pure outer.eff_finallyR outer.eff_catchR0 send ret lifted
        eff_drain eff_log_error env_free_parts(3,7,8) [OF lifted] split: option.split)
qed

lemma eff_beforeAll_body:
  assumes "env_free (within_world R) env" "handler_costs (within_world R) 0 (exec env)" "callbacks_within R opts"
  shows "eff (within_world R) 0 (beforeAll_body exec env opts)"
  unfolding beforeAll_body_def using assms
  by (auto intro!: outer.eff_catchR0 outer.eff_thenR0 outer.eff_bindR0 eff_refresh_page eff_run_main eff_exit_or_abort
      eff_set_locals simp: outer.eff_pure)

lemma eff_run_body:
  assumes "env_free R base_env" "env_free (within_world R) env" "handler_costs (within_world R) 0 (exec env)" "callbacks_within R opts"
  shows "eff (within_world R) 0 (run_body base_env exec env opts)"
proof -
  let ?main = "thenR (main_steps exec env opts) (after_main base_env exec env opts)"
  have main: "eff (within_world R) 0 ?main"
    by (intro outer.eff_thenR0 eff_main_steps eff_after_main assms)
  have cut: "eff (within_world R) 0 (finalize base_env env (optRule opts) err (hook_done opts BeforeAll))" for err
    by (intro eff_finalize eff_hook_done assms)
  have rest: "eff (within_world R) 0 (thenR (hook_done opts BeforeAll) ?main)"
    "eff (within_world R) 0 (thenR (hook_done opts BeforeAll) (throwR e) :: ('w run_world, execution_result) run)" for e
    by (intro outer.eff_thenR0 eff_hook_done main assms outer.eff_pure)+
  have "eff (within_world R) 0 (\<lambda>s. case beforeAll_body exec env opts s of
                    (Ret (Some err), s') \<Rightarrow> finalize base_env env (optRule opts) err (hook_done opts BeforeAll) s'
                  | (Ret None, s') \<Rightarrow> thenR (hook_done opts BeforeAll) ?main s'
                  | (Throw e, s') \<Rightarrow> thenR (hook_done opts BeforeAll) (throwR e) s')" (is "eff _ _ ?hooked")
  proof (rule outer.effI)
    fix s r s' assume h: "?hooked s = (r, s')"
    obtain r1 s1 where b: "beforeAll_body exec env opts s = (r1, s1)" by (cases "beforeAll_body exec env opts s")
    have first: "within_world R 0 (snd s) (snd s1)" by (rule outer.effD [OF eff_beforeAll_body [where exec = exec, OF assms(2-4)] b])
    have "within_world R 0 (snd s1) (snd s')"
      using h b outer.effD [OF cut] outer.effD [OF rest(1)] outer.effD [OF rest(2)]
      by (auto split: outcome.splits option.splits)
    with first show "within_world R 0 (snd s) (snd s')" using outer.compose [of 0 _ _ 0] by force
  qed
  then show ?thesis
    unfolding run_body_def by (intro outer.eff_thenR0 env_free_parts [OF assms(2)] eff_if main)
qed

text \<open>What the run did to the world is allowed by the discipline.\<close>

lemma runRule_respects:
  assumes "env_free R env" "handler_costs (within_world R) 0 (exec (run_env (optRule opts) env))" "callbacks_within R opts"
    and "runRule exec env opts w = (r, s')"
  shows "R 0 w (inner (snd s'))"
proof -
  have "eff (within_world R) 0 (finallyR (run_body env exec (run_env (optRule opts) env) opts) dispose)"
    unfolding dispose_def
    by (intro outer.eff_finallyR eff_run_body eff_modify_buffer env_free_run_env assms)
  from outer.effD [OF this assms(4) [unfolded runRule_def]] show ?thesis by (simp add: within_world_def)
qed

end

interpretation world_keeping: world_discipline "keeps view" for view
  by unfold_locales

interpretation world_preserving: world_discipline "preserves P" for P
  by unfold_locales

interpretation world_counting: world_discipline "counts cnt" for cnt
  by unfold_locales

end
