(* ===== verification/Worker_Page_Laws.thy ===== *)
theory Worker_Page_Laws
  imports Worker_Page Executor_World Bridge_Protocol
begin

text \<open>
  Properties of the runtime in the page: a call to the host settles in bounded time, internal markers
  never leave the page, a run reports exactly one completion and leaves no state behind, the host
  accepts what it reports, and a checkpoint lets the next page resume at the following step.
\<close>

section \<open>Calls to the host\<close>

text \<open>A call waits for at most the timeout, and ends with the answer of the host when it came in time;
  otherwise with an error, which is an abort when the run is being cancelled.\<close>

lemma bridge_call_settles:
  assumes "bridgeUp ops (page w)" and "bridgeFn ops m v (page w) = (ans, p)"
  shows "\<exists>d r. bridge_race m ans = (d, r) \<and> (0 \<le> (case ans of Answers t _ \<Rightarrow> t | Rejects t _ \<Rightarrow> t | _ \<Rightarrow> 0) \<longrightarrow> 0 \<le> d)
     \<and> d \<le> BRIDGE_CALL_TIMEOUT_MS
     \<and> snd (snd (bridge_call ops m v (c, w))) = w\<lparr>calls := calls w @ [(m, v)], page := elapse ops d p\<rparr>
     \<and> fst (bridge_call ops m v (c, w)) =
        (case ans of
           Answers t x \<Rightarrow> if t < 180000 then Ret x
             else Throw (if signalled ops (elapse ops d p) then abort_error else bridge_timeout m)
         | Rejects t e \<Rightarrow> Throw (if signalled ops (elapse ops d p) then abort_error
             else if t < 180000 then e else bridge_timeout m)
         | Throws e \<Rightarrow> Throw (if signalled ops (elapse ops d p) then abort_error else e)
         | Silent \<Rightarrow> Throw (if signalled ops (elapse ops d p) then abort_error else bridge_timeout m))"
  using assms
  by (cases ans) (auto simp: bridge_call_def bridge_race_def settle_call_def Let_def BRIDGE_CALL_TIMEOUT_MS_def)


section \<open>What the operations of the page call\<close>

text \<open>
  A discipline on the page that does not see what the page half changes, nor the marker, and allows the
  calls of the transport: then the environment of a run respects it.
\<close>

definition transport_methods :: "string list" where
  "transport_methods = [''sendResult'', ''sendLog'', ''sendHeartbeat'', ''sendStatus'', ''sendSnapshot'', ''requestHuman'']"

definition carries_marker :: "jval \<Rightarrow> bool" where
  "carries_marker v \<longleftrightarrow> truthy (get_prop v ''payload'') \<and> internal_marker (get_prop v ''payload'')"

locale page_discipline = world_discipline R for R :: "nat \<Rightarrow> 'p realm \<Rightarrow> 'p realm \<Rightarrow> bool" +
  assumes blind: "R 0 w (w\<lparr>page := p\<rparr>)"
    and marker: "R 0 w (w\<lparr>finalMarker := v\<rparr>)"
    and called: "m \<in> set transport_methods \<Longrightarrow> m \<noteq> ''sendResult'' \<or> \<not> carries_marker v
      \<Longrightarrow> R 0 w (w\<lparr>calls := calls w @ [(m, v)], page := p\<rparr>)"
begin

lemma eff_on_page: "eff R 0 (on_page m)"
  unfolding eff_def on_page_def using blind by (auto split: prod.splits)

lemma eff_bridge_call:
  assumes "m \<in> set transport_methods" "m \<noteq> ''sendResult'' \<or> \<not> carries_marker v"
  shows "eff R 0 (bridge_call ops m v)"
  unfolding eff_def bridge_call_def settle_call_def using called [OF assms] stay
  by (auto split: prod.splits outcome.splits if_splits)

lemma eff_quietly: "eff R 0 m \<Longrightarrow> eff R 0 (quietly m)"
  unfolding quietly_def by (intro eff_bindR0 eff_pure)

lemma eff_bridge_sendResult: "eff R 0 (bridge_sendResult ops v i)"
proof -
  have "eff R 0 (\<lambda>(c, w). (Ret (), (c, if get_prop v ''__final'' = JBool True then w\<lparr>finalMarker := v\<rparr> else w)))"
    unfolding eff_def using marker stay by auto
  then show ?thesis
    unfolding bridge_sendResult_def
    by (auto intro!: eff_quietly eff_bridge_call simp: transport_methods_def carries_marker_def obj_get_def)
qed

lemma env_free_page: "env_free R (page_env ops rl)"
proof -
  have snap: "eff R 0 (bridge_sendSnapshot ops v)" for v
  proof -
    have "eff R 0 (quietly (bridge_call ops ''sendSnapshot'' x))" for x
      by (intro eff_quietly eff_bridge_call) (simp_all add: transport_methods_def)
    then show ?thesis unfolding bridge_sendSnapshot_def eff_def by blast
  qed
  have human: "eff R 0 (bridge_requestHuman ops req)" for req
    unfolding bridge_requestHuman_def
    by (intro eff_bindR0 eff_bridge_call eff_pure) (simp_all add: transport_methods_def)
  have logs: "eff R 0 (bridge_sendLog ops l m x)" "eff R 0 (bridge_sendStatus ops l m)" for l m x
    unfolding bridge_sendLog_def bridge_sendStatus_def
    by (intro eff_quietly eff_bridge_call; simp add: transport_methods_def)+
  show ?thesis
    unfolding env_free_def services_free_def lookups_free_def page_env_def Let_def
    by (auto simp: eff_on_page eff_bridge_sendResult snap human logs eff_pure)
qed

end


section \<open>Markers stay in the page\<close>

text \<open>No call of the page hands the host an internal marker of the engine as a result.\<close>

definition no_marker_sent :: "'p realm \<Rightarrow> bool" where
  "no_marker_sent w \<longleftrightarrow> list_all (\<lambda>(m, v). m \<noteq> ''sendResult'' \<or> \<not> carries_marker v) (calls w)"

interpretation markers: page_discipline "preserves no_marker_sent"
  by unfold_locales (auto simp: preserves_def no_marker_sent_def)

text \<open>How many completions the page has reported\<close>

definition completions :: "'p realm \<Rightarrow> nat" where
  "completions w = length (filter (\<lambda>(m, v). m = ''complete'') (calls w))"

interpretation completing: page_discipline "keeps completions"
  by unfold_locales (auto simp: keeps_def completions_def transport_methods_def)

text \<open>The callbacks of a run call the host once at most, with the context of a checkpoint.\<close>

lemma post_call_calls:
  "calls (post_call ops m v w) = (if bridgeUp ops (page w) then calls w @ [(m, v)] else calls w)"
  "session (post_call ops m v w) = session w" "activeTask (post_call ops m v w) = activeTask w"
  by (simp_all add: post_call_def)

lemma checkpoint_calls:
  "page_onCheckpoint ops base_st cp s = (r, s') \<Longrightarrow>
     \<exists>cs. calls (inner (snd s')) = calls (inner (snd s)) @ cs \<and> list_all (\<lambda>(m, v). m = ''checkpointContext'') cs"
  by (cases s) (auto simp: page_onCheckpoint_def store_checkpoint_def postCheckpointContext_def post_call_calls split: option.splits)

lemma step_failure_calls:
  "page_onStepFailure tid p s = (r, s') \<Longrightarrow> calls (inner (snd s')) = calls (inner (snd s))"
  by (cases s) (auto simp: page_onStepFailure_def split: option.splits)

lemma callbacks_complete: "callbacks_within (keeps completions) (page_options ops pl isResume prior ctx base_st)"
  unfolding callbacks_within_def page_options_def
  by (auto simp: eff_def within_world_def keeps_def completions_def dest!: checkpoint_calls step_failure_calls)
    (auto simp: list_all_iff filter_empty_conv)

lemma callbacks_markers: "callbacks_within (preserves no_marker_sent) (page_options ops pl isResume prior ctx base_st)"
  unfolding callbacks_within_def page_options_def
  by (auto simp: eff_def within_world_def preserves_def no_marker_sent_def list_all_iff dest!: checkpoint_calls step_failure_calls)


section \<open>One completion for each run\<close>

lemma completions_post: "bridgeUp ops (page w) \<Longrightarrow> completions (postComplete ops v w) = completions w + 1"
  by (simp add: completions_def postComplete_def post_call_calls)

lemma completions_session [simp]:
  "completions (w\<lparr>session := a\<rparr>) = completions w" "completions (w\<lparr>activeTask := t\<rparr>) = completions w"
  "completions (w\<lparr>finalMarker := v\<rparr>) = completions w"
  by (simp_all add: completions_def)

lemma report_completes:
  assumes "bridgeUp ops (page w)"
  shows "completions (report_run ops pl base_st r w) = completions w + 1
     \<and> calls (report_run ops pl base_st r w) \<noteq> [] \<and> fst (last (calls (report_run ops pl base_st r w))) = ''complete''
     \<and> storageOpen (session (report_run ops pl base_st r w)) = storageOpen (session w)"
  using assms
  by (cases r) (simp_all add: report_run_def completions_post postComplete_def post_call_calls, simp_all add: completions_def post_call_calls)

lemma execute_runs:
  obtains r c rw where "runRule exec (page_env ops (plRule pl)) (page_options ops pl isResume prior ctx base_st)
       (w\<lparr>finalMarker := JUndef, session := (if isResume then session w else save_state worker_keys base_st (session w))\<rparr>) = (r, (c, rw))"
    and "execute_payload ops exec pl isResume prior ctx base_st w = end_run (plTaskId pl) (report_run ops pl base_st r (inner rw))"
proof -
  obtain r c rw where run: "runRule exec (page_env ops (plRule pl)) (page_options ops pl isResume prior ctx base_st)
       (w\<lparr>finalMarker := JUndef, session := (if isResume then session w else save_state worker_keys base_st (session w))\<rparr>) = (r, (c, rw))"
    by (metis prod.exhaust)
  then show thesis using that unfolding execute_payload_def Let_def by simp
qed

lemma option_rule: "optRule (page_options ops pl isResume prior ctx base_st) = plRule pl"
  by (simp add: page_options_def)

lemma execute_completes:
  assumes "\<forall>p. bridgeUp ops p" and "handler_costs (within_world (keeps completions)) 0 (exec (run_env (plRule pl) (page_env ops (plRule pl))))"
    and w': "execute_payload ops exec pl isResume prior ctx base_st w = w'"
  shows "completions w' = completions w + 1 \<and> calls w' \<noteq> [] \<and> fst (last (calls w')) = ''complete'' \<and> activeTask w' = None
     \<and> (storageOpen (session w') \<longrightarrow> load_state worker_keys (plTaskId pl) (session w') = None)"
proof -
  obtain r c rw where run: "runRule exec (page_env ops (plRule pl)) (page_options ops pl isResume prior ctx base_st)
       (w\<lparr>finalMarker := JUndef, session := (if isResume then session w else save_state worker_keys base_st (session w))\<rparr>) = (r, (c, rw))"
    and ends: "execute_payload ops exec pl isResume prior ctx base_st w = end_run (plTaskId pl) (report_run ops pl base_st r (inner rw))"
    by (rule execute_runs)
  have "keeps completions 0 (w\<lparr>finalMarker := JUndef,
      session := (if isResume then session w else save_state worker_keys base_st (session w))\<rparr>) (inner (snd (c, rw)))"
    by (rule world_keeping.runRule_respects [OF completing.env_free_page _ callbacks_complete run])
      (simp only: option_rule, rule assms(2))
  then have "completions (inner rw) = completions w" by (simp add: keeps_def)
  moreover have "bridgeUp ops (page (inner rw))" using assms(1) by blast
  ultimately show ?thesis
    using report_completes [of ops "inner rw" pl base_st r] worker_store.load_cleared ends w'
    by (auto simp: end_run_def completions_def)
qed

text \<open>C25. A run that starts ends: whether it is refused, fails or succeeds, the page reports exactly one
  completion, as its last call to the host, is ready for another run, and leaves no state of the task in the
  storage unless the run was refused.\<close>

theorem page_run_reports_once:
  assumes "activeTask w \<noteq> Some (plTaskId pl)" and "\<forall>p. bridgeUp ops p"
    and "\<forall>p. parseUrl ops (hrefOf ops p) \<noteq> None"
    and "handler_costs (within_world (keeps completions)) 0 (exec (run_env (plRule pl) (page_env ops (plRule pl))))"
    and "runWithPayload ops exec pl isResume ctx w = (r, w')"
  shows "r = Ret () \<and> completions w' = completions w + 1 \<and> fst (last (calls w')) = ''complete'' \<and> activeTask w' = None
     \<and> (storageOpen (session w') \<longrightarrow> load_state worker_keys (plTaskId pl) (session w') = None \<or> session w' = session w)"
proof -
  let ?w0 = "w\<lparr>activeTask := Some (plTaskId pl)\<rparr>"
  let ?prior = "if isResume then load_state worker_keys (plTaskId pl) (session ?w0) else None"
  obtain z where "parseUrl ops (hrefOf ops (page ?w0)) = Some z" using assms(3) by blast
  then obtain here where here: "normalizeRunUrl (parseUrl ops) (hrefOf ops (page ?w0)) = Some here"
    by (simp add: normalizeRunUrl_def)
  show ?thesis
  proof (cases "run_refusal ops pl isResume ?prior ctx (page ?w0)")
    case (Some m)
    then have "r = Ret ()" "w' = (postComplete ops (failure_event m) ?w0)\<lparr>activeTask := None\<rparr>"
      using assms(1,5) by (simp_all add: runWithPayload_def Let_def)
    then show ?thesis
      using assms(2) completions_post [of ops ?w0] by (simp add: postComplete_def post_call_calls completions_def)
  next
    case None
    then have ran: "r = Ret ()" "execute_payload ops exec pl isResume ?prior ctx (base_state pl here) ?w0 = w'"
      using assms(1,5) here by (simp_all add: runWithPayload_def Let_def)
    show ?thesis using execute_completes [where exec = exec, OF assms(2,4) ran(2)] ran(1) by simp
  qed
qed

text \<open>No internal marker of the engine reaches the host as a result, however the run goes: what was
  true of the calls made before a run is true of the calls after it.\<close>

theorem markers_stay_in_page:
  assumes "list_all (\<lambda>(m, v). m \<noteq> ''sendResult'' \<or> \<not> carries_marker v) (calls w)"
    and "handler_costs (within_world (preserves no_marker_sent)) 0 (exec (run_env (plRule pl) (page_env ops (plRule pl))))"
    and "runWithPayload ops exec pl isResume ctx w = (r, w')"
  shows "list_all (\<lambda>(m, v). m \<noteq> ''sendResult'' \<or> \<not> carries_marker v) (calls w')"
proof -
  have post: "no_marker_sent (postComplete ops v u)" if "no_marker_sent u" for u v
    using that by (simp add: no_marker_sent_def postComplete_def post_call_calls)
  have same: "no_marker_sent u \<Longrightarrow> no_marker_sent (u\<lparr>session := a, activeTask := t\<rparr>)"
    "no_marker_sent u \<Longrightarrow> no_marker_sent (u\<lparr>session := a\<rparr>)" "no_marker_sent u \<Longrightarrow> no_marker_sent (u\<lparr>activeTask := t\<rparr>)"
    "no_marker_sent u \<Longrightarrow> no_marker_sent (u\<lparr>finalMarker := x, session := a\<rparr>)" for u a t x
    by (simp_all add: no_marker_sent_def)
  have w: "no_marker_sent w" using assms(1) by (simp add: no_marker_sent_def)
  have exe: "no_marker_sent (execute_payload ops exec pl isR prior ctx base_st u)" if u: "no_marker_sent u" for isR prior base_st u
  proof -
    obtain r c rw where run: "runRule exec (page_env ops (plRule pl)) (page_options ops pl isR prior ctx base_st)
         (u\<lparr>finalMarker := JUndef, session := (if isR then session u else save_state worker_keys base_st (session u))\<rparr>) = (r, (c, rw))"
      and ends: "execute_payload ops exec pl isR prior ctx base_st u = end_run (plTaskId pl) (report_run ops pl base_st r (inner rw))"
      by (rule execute_runs)
    have "preserves no_marker_sent 0 (u\<lparr>finalMarker := JUndef,
        session := (if isR then session u else save_state worker_keys base_st (session u))\<rparr>) (inner (snd (c, rw)))"
      by (rule world_preserving.runRule_respects [OF markers.env_free_page _ callbacks_markers run])
        (simp only: option_rule, rule assms(2))
    then have "no_marker_sent (inner rw)" using u same(4) by (auto simp: preserves_def)
    then have "no_marker_sent (report_run ops pl base_st r (inner rw))"
      unfolding report_run_def by (cases r) (auto intro: post same)
    then show ?thesis unfolding ends end_run_def by (rule same)
  qed
  have "no_marker_sent w'"
    using assms(3) w
    by (auto simp: runWithPayload_def Let_def exe [OF same(3) [OF w]] intro: post same split: if_splits option.splits)
  then show ?thesis by (simp add: no_marker_sent_def)
qed


section \<open>Resuming on the next page\<close>

text \<open>What the host gives back of a checkpoint\<close>

definition context_of :: "checkpoint_state \<Rightarrow> resume_context" where
  "context_of cp = \<lparr>rcLastCompleted = lastCompletedStepPath cp, rcExtracted = csExtracted cp,
     rcEvaluated = csEvaluated cp, rcCaptured = csCaptured cp\<rparr>"

text \<open>A URL reduced to its origin and path is read back with the same host, protocol and path.\<close>

definition reduced_reads_back :: "url_parser \<Rightarrow> url \<Rightarrow> bool" where
  "reduced_reads_back parse u \<longleftrightarrow> (\<exists>u'. parse (origin u @ pathname u) = Some u'
     \<and> host u' = host u \<and> protocol u' = protocol u \<and> pathname u' = pathname u) \<and> origin u \<noteq> []"

definition checkpointed_state :: "worker_run_state \<Rightarrow> checkpoint_state \<Rightarrow> url \<Rightarrow> url_policy \<Rightarrow> worker_run_state" where
  "checkpointed_state base_st cp u pol = base_st\<lparr>wsLastCompleted := lastCompletedStepPath cp,
     wsExpectedUrl := origin u @ pathname u, wsSameOrigin := (pol = SameOrigin)\<rparr>"

text \<open>C26. A checkpoint taken before a navigation lets the page the navigation leads to resume: the state is
  read back from the storage, the guard accepts the URL when it has the host, the protocol and a path
  below the expected one, and the run goes on behind the last completed step.\<close>

theorem checkpoint_resumes_behind:
  assumes "page_onCheckpoint ops base_st cp (c, rw) = (Ret (), (c', rw'))"
    and "navigation cp = Some nav" and "parseFrom ops (hrefOf ops (page (inner rw))) (expectedUrl nav) = Some u"
    and "reduced_reads_back (parseUrl ops) u" and "wsStatus base_st = Running"
    and "state_fits worker_keys (checkpointed_state base_st cp u (urlPolicy nav)) (session (inner rw))"
    and "parseUrl ops href = Some a" and "host a = host u" and "protocol a = protocol u"
    and "urlPolicy nav = SameOrigin \<or> pathnameMatches (pathname a) (pathname u)"
  shows "\<exists>st. load_state worker_keys (wsTaskId base_st) (session (inner rw')) = Some st
     \<and> validateResume (parseUrl ops) (Some st) (wsTaskId base_st) href (Some (context_of cp)) = None
     \<and> resume_point True (Some st) = nextPendingPath (lastCompletedStepPath cp)"
proof -
  let ?st = "checkpointed_state base_st cp u (urlPolicy nav)"
  obtain here where "normalizeRunUrl (parseUrl ops) (hrefOf ops (page (inner rw))) = Some here"
    using assms(1) by (auto simp: page_onCheckpoint_def checkpoint_expectation_def split: option.splits)
  moreover have "normalizeRunUrl (parseFrom ops (hrefOf ops (page (inner rw)))) (expectedUrl nav) = Some (origin u @ pathname u)"
    using assms(3) by (simp add: normalizeRunUrl_def)
  ultimately have "checkpoint_expectation ops cp (page (inner rw)) = Some (origin u @ pathname u, urlPolicy nav = SameOrigin)"
    using assms(2) by (simp add: checkpoint_expectation_def)
  then have "session (inner rw') = save_state worker_keys ?st (session (inner rw))"
    using assms(1)
    by (auto simp: page_onCheckpoint_def store_checkpoint_def postCheckpointContext_def post_call_calls checkpointed_state_def)
  moreover have "load_state worker_keys (wsTaskId ?st) (save_state worker_keys ?st (session (inner rw))) = Some ?st"
    by (rule worker_store.load_saved) (rule assms(6))
  ultimately have load: "load_state worker_keys (wsTaskId base_st) (session (inner rw')) = Some ?st"
    by (simp add: checkpointed_state_def)
  obtain u' where u': "parseUrl ops (origin u @ pathname u) = Some u'" "host u' = host u" "protocol u' = protocol u"
    "pathname u' = pathname u" "origin u \<noteq> []"
    using assms(4) by (auto simp: reduced_reads_back_def)
  have "validateResume (parseUrl ops) (Some ?st) (wsTaskId base_st) href (Some (context_of cp)) = None"
    unfolding resume_accepted_iff
    using assms(5,7-10) u' by (auto simp: context_of_def path.cmp_self checkpointed_state_def)
  moreover have "resume_point True (Some ?st) = nextPendingPath (lastCompletedStepPath cp)"
    by (simp add: resume_point_def checkpointed_state_def)
  ultimately show ?thesis using load by blast
qed


section \<open>The page and the host\<close>

text \<open>
  The host accepts the completion of a run, with its status, message, error and data, when the texts
  are within its budgets.
\<close>

lemma completion_accepted:
  assumes "json_length (result_event marker res) \<le> MAX_BRIDGE_PAYLOAD_BYTES" and "budget (resMessage res)"
    and "case resError res of None \<Rightarrow> True | Some e \<Rightarrow> budget (errType e) \<and> budget (errMessage e)"
  shows "validateBridgeCall (JStr ''complete'') (result_event marker res) =
     Inr (Complete \<lparr>cpStatus = resStatus res, cpMessage = Some (resMessage res),
       cpError = map_option (\<lambda>e. (Some (errType e), Some (errMessage e))) (resError res), cpPartialData = JObj (partialData res)\<rparr>)"
proof -
  let ?c = "Complete \<lparr>cpStatus = resStatus res, cpMessage = Some (resMessage res),
       cpError = map_option (\<lambda>e. (Some (errType e), Some (errMessage e))) (resError res), cpPartialData = JObj (partialData res)\<rparr>"
  have "call_payload ?c = result_event marker res"
    by (cases "resError res") (simp_all add: result_event_def opt_string_def)
  moreover have "call_wf ?c" using assms(2,3) by (cases "resError res") (simp_all add: budget_opt_def)
  ultimately show ?thesis
    using well_formed_call_validates [of ?c] assms(1) by (auto simp: validateBridgeCall_def)
qed

text \<open>A snapshot between the two budgets, of 64K characters in the host and of 384K bytes in the page, is refused.\<close>

lemma large_snapshot_refused:
  assumes "MAX_BRIDGE_STRING < int (length (snapData x))" and "budget1 (snapName x)" and "snapType x = ''dom''"
  shows "\<exists>e. validateBridgeCall (JStr ''sendSnapshot'') (snapshot_value x) = Inl e"
proof -
  have "validateSendSnapshot (snapshot_value x) = Inl ''sendSnapshot.data exceeds the string budget''"
    using assms
    by (simp add: validateSendSnapshot_def snapshot_value_def obj_get_def bind_checked_def requireString_def requireRecord_def
        budget1_def budget_def SNAPSHOT_TYPES_def)
  moreover have "map_of VALIDATORS ''sendSnapshot'' = Some validateSendSnapshot" by (simp add: VALIDATORS_def)
  ultimately show ?thesis by (auto simp: validateBridgeCall_def)
qed

end
