(* ===== verification/Demo_Page.thy ===== *)
theory Demo_Page
  imports Worker_Page_Laws
begin

text \<open>
  A concrete page on which the properties of the page runtime are evaluated: one document of a shop, a
  host that answers every call after five milliseconds, and a handler that sends one result per step.
\<close>

definition shop_page_ops :: "demo page_ops" where
  "shop_page_ops = \<lparr>hrefOf = (\<lambda>_. ''https://shop.example.com/list''), hostnameOf = (\<lambda>_. ''shop.example.com''),
     parseUrl = simple_url, parseFrom = (\<lambda>_. simple_url), bridgeUp = (\<lambda>_. True),
     bridgeFn = (\<lambda>m v p. (Answers 5 JNull, p)), elapse = (\<lambda>d p. p\<lparr>clock := clock p + d\<rparr>),
     signalled = cancelled, domOf = (\<lambda>_. ElementNode ''HTML'' [] []), pageHalf = demo_env\<rparr>"

definition sending_exec :: "'w env \<Rightarrow> 'w handler" where
  "sending_exec env a t s =
     (case sendResult env (leafField a ''text'') True s of
        (Ret _, s') \<Rightarrow> (Settled (Ret JUndef), s')
      | (Throw e, s') \<Rightarrow> (Settled (Throw e), s'))"

definition shop_payload :: page_payload where
  "shop_payload = \<lparr>plRule = shop_rule\<lparr>steps := [leaf_step ''note'' ''a'', leaf_step ''note'' ''b'']\<rparr>, plVariables = None,
     plTaskId = ''t1'', plWorkerId = ''w1''\<rparr>"

definition shop_realm :: "demo realm" where
  "shop_realm = \<lparr>session = \<lparr>storedItems = [], storageOpen = True, storageRoom = 5000\<rparr>, activeTask = None, calls = [],
     finalMarker = JUndef, page = \<lparr>events = [], clock = 0, cancelled = False, completed = []\<rparr>\<rparr>"

lemma sending_costs:
  "env_free R env \<Longrightarrow> handler_costs R 0 (sending_exec env)"
  using env_free_parts(8) [of R env]
  by (fastforce simp: handler_costs_def sending_exec_def eff_def split: prod.splits outcome.splits)

lemma shop_location: "simple_url ''https://shop.example.com/list'' \<noteq> None"
  by code_simp

theorem page_run_reports_once_witness:
  "\<exists>w'. runWithPayload shop_page_ops sending_exec shop_payload False None shop_realm = (Ret (), w')
     \<and> completions w' = 1 \<and> fst (last (calls w')) = ''complete'' \<and> activeTask w' = None"
proof -
  obtain r w' where run: "runWithPayload shop_page_ops sending_exec shop_payload False None shop_realm = (r, w')"
    by (metis prod.exhaust)
  have "handler_costs (within_world (keeps completions)) 0
      (sending_exec (run_env (plRule shop_payload) (page_env shop_page_ops (plRule shop_payload))))"
    by (intro sending_costs world_keeping.env_free_run_env completing.env_free_page)
  then have "r = Ret () \<and> completions w' = completions shop_realm + 1 \<and> fst (last (calls w')) = ''complete'' \<and> activeTask w' = None
     \<and> (storageOpen (session w') \<longrightarrow> load_state worker_keys (plTaskId shop_payload) (session w') = None \<or> session w' = session shop_realm)"
    by (rule page_run_reports_once [OF _ _ _ _ run, rotated 3])
      (use shop_location in \<open>simp_all add: shop_realm_def shop_payload_def shop_page_ops_def\<close>)
  then show ?thesis using run by (simp add: shop_realm_def completions_def)
qed

theorem markers_stay_in_page_witness:
  "\<exists>r w'. runWithPayload shop_page_ops sending_exec shop_payload False None shop_realm = (r, w')
     \<and> list_all (\<lambda>(m, v). m \<noteq> ''sendResult'' \<or> \<not> carries_marker v) (calls w')"
proof -
  obtain r w' where run: "runWithPayload shop_page_ops sending_exec shop_payload False None shop_realm = (r, w')"
    by (metis prod.exhaust)
  have "handler_costs (within_world (preserves no_marker_sent)) 0
      (sending_exec (run_env (plRule shop_payload) (page_env shop_page_ops (plRule shop_payload))))"
    by (intro sending_costs world_preserving.env_free_run_env markers.env_free_page)
  then have "list_all (\<lambda>(m, v). m \<noteq> ''sendResult'' \<or> \<not> carries_marker v) (calls w')"
    by (rule markers_stay_in_page [OF _ _ run, rotated]) (simp add: shop_realm_def)
  then show ?thesis using run by blast
qed

definition list_checkpoint :: checkpoint_state where
  "list_checkpoint = \<lparr>lastCompletedStepPath = [TopFrame 0], csExtracted = [], csEvaluated = [], csCaptured = [], hooksCompletedAt = [],
     navigation = Some \<lparr>phase = BeforeNavigation, expectedUrl = ''https://shop.example.com/list'', urlPolicy = ExpectedPath\<rparr>\<rparr>"

definition shop_base :: worker_run_state where
  "shop_base = base_state shop_payload ''https://shop.example.com/list''"

definition shop_url :: "string \<Rightarrow> url" where
  "shop_url p = \<lparr>protocol = ''https:'', host = ''shop.example.com'', hostname = ''shop.example.com'', pathname = p,
     origin = ''https://shop.example.com''\<rparr>"

definition wrapped_realm :: "demo realm run_world" where
  "wrapped_realm = \<lparr>inner = shop_realm, buffer = fresh_buffer None,
     locals = initial_locals (page_options shop_page_ops shop_payload False None None shop_base)\<rparr>"

lemma shop_checkpoint:
  "fst (page_onCheckpoint shop_page_ops shop_base list_checkpoint (blank_context, wrapped_realm)) = Ret ()"
  by code_simp

lemma shop_urls: "simple_url ''https://shop.example.com/list'' = Some (shop_url ''/list'')"
  "simple_url ''https://shop.example.com/list/item'' = Some (shop_url ''/list/item'')"
  by code_simp+

lemma shop_fits: "state_fits worker_keys (checkpointed_state shop_base list_checkpoint (shop_url ''/list'') ExpectedPath) (session shop_realm)"
  by code_simp

theorem checkpoint_resumes_behind_witness:
  "\<exists>st. validateResume simple_url (Some st) ''t1'' ''https://shop.example.com/list/item'' (Some (context_of list_checkpoint)) = None
     \<and> resume_point True (Some st) = [TopFrame 1]"
proof -
  let ?nav = "\<lparr>phase = BeforeNavigation, expectedUrl = ''https://shop.example.com/list'', urlPolicy = ExpectedPath\<rparr>"
  obtain c' rw' where cp: "page_onCheckpoint shop_page_ops shop_base list_checkpoint (blank_context, wrapped_realm) = (Ret (), (c', rw'))"
    using shop_checkpoint by (cases "page_onCheckpoint shop_page_ops shop_base list_checkpoint (blank_context, wrapped_realm)") auto
  have "\<exists>st. load_state worker_keys (wsTaskId shop_base) (session (inner rw')) = Some st
     \<and> validateResume (parseUrl shop_page_ops) (Some st) (wsTaskId shop_base) ''https://shop.example.com/list/item''
         (Some (context_of list_checkpoint)) = None
     \<and> resume_point True (Some st) = nextPendingPath (lastCompletedStepPath list_checkpoint)"
  proof (rule checkpoint_resumes_behind [OF cp, where nav = ?nav and u = "shop_url ''/list''" and a = "shop_url ''/list/item''"])
    show "navigation list_checkpoint = Some ?nav" by (simp add: list_checkpoint_def)
    show "parseFrom shop_page_ops (hrefOf shop_page_ops (page (inner wrapped_realm))) (expectedUrl ?nav) = Some (shop_url ''/list'')"
      using shop_urls(1) by (simp add: shop_page_ops_def)
    show "reduced_reads_back (parseUrl shop_page_ops) (shop_url ''/list'')"
      using shop_urls(1) by (simp add: reduced_reads_back_def shop_page_ops_def shop_url_def)
    show "wsStatus shop_base = Running" by (simp add: shop_base_def base_state_def)
    show "state_fits worker_keys (checkpointed_state shop_base list_checkpoint (shop_url ''/list'') (urlPolicy ?nav)) (session (inner wrapped_realm))"
      using shop_fits by (simp add: wrapped_realm_def)
    show "parseUrl shop_page_ops ''https://shop.example.com/list/item'' = Some (shop_url ''/list/item'')"
      using shop_urls(2) by (simp add: shop_page_ops_def)
    show "urlPolicy ?nav = SameOrigin \<or> pathnameMatches (pathname (shop_url ''/list/item'')) (pathname (shop_url ''/list''))"
      by code_simp
  qed (simp_all add: shop_url_def)
  moreover have "nextPendingPath (lastCompletedStepPath list_checkpoint) = [TopFrame 1]" by code_simp
  ultimately show ?thesis by (auto simp: shop_page_ops_def shop_base_def base_state_def shop_payload_def)
qed

end
