(* ===== verification/Js_Regex.thy ===== *)
theory Js_Regex
  imports Selectors Json
begin

text \<open>
  The literal regular expressions of the program, with the semantics of JavaScript: a backtracking
  matcher in which alternatives are tried in their order and repetitions are greedy. Repetitions are of
  single characters, as they are in the expressions that are modelled. A position is the character
  before it, if there is one, with the rest of the subject.
\<close>

section \<open>Matching\<close>

datatype rx =
    Cls "char \<Rightarrow> bool"
  | Run nat "nat option" "char \<Rightarrow> bool"
  | Empty
  | Cat rx rx
  | Alt rx rx
  | Opt rx
  | Border
  | Begin
  | Finish

definition word_char :: "char \<Rightarrow> bool" where
  "word_char c \<longleftrightarrow> alnum c \<or> c = CHR ''_''"

definition word_side :: "char option \<Rightarrow> bool" where
  "word_side x = (case x of None \<Rightarrow> False | Some c \<Rightarrow> word_char c)"

definition next_char :: "string \<Rightarrow> char option" where
  "next_char s = (case s of [] \<Rightarrow> None | c # cs \<Rightarrow> Some c)"

definition first_of :: "'a option \<Rightarrow> 'a option \<Rightarrow> 'a option" where
  "first_of x y = (case x of None \<Rightarrow> y | Some a \<Rightarrow> Some a)"

text \<open>As many characters as possible, then fewer of them\<close>

primrec run_match ::
  "(char \<Rightarrow> bool) \<Rightarrow> (char option \<Rightarrow> string \<Rightarrow> 'a option) \<Rightarrow> string \<Rightarrow> nat \<Rightarrow> nat option \<Rightarrow> char option \<Rightarrow> 'a option" where
  "run_match p k [] lo hi prev = (if lo = 0 then k prev [] else None)"
| "run_match p k (c # cs) lo hi prev =
     first_of (if p c \<and> hi \<noteq> Some 0 then run_match p k cs (lo - 1) (map_option (\<lambda>n. n - 1) hi) (Some c) else None)
       (if lo = 0 then k prev (c # cs) else None)"

primrec rx_match :: "rx \<Rightarrow> (char option \<Rightarrow> string \<Rightarrow> 'a option) \<Rightarrow> char option \<Rightarrow> string \<Rightarrow> 'a option" where
  "rx_match (Cls p) k prev s = (case s of [] \<Rightarrow> None | c # cs \<Rightarrow> if p c then k (Some c) cs else None)"
| "rx_match (Run lo hi p) k prev s = run_match p k s lo hi prev"
| "rx_match Empty k prev s = k prev s"
| "rx_match (Cat a b) k prev s = rx_match a (rx_match b k) prev s"
| "rx_match (Alt a b) k prev s = first_of (rx_match a k prev s) (rx_match b k prev s)"
| "rx_match (Opt a) k prev s = first_of (rx_match a k prev s) (k prev s)"
| "rx_match Border k prev s = (if word_side prev \<noteq> word_side (next_char s) then k prev s else None)"
| "rx_match Begin k prev s = (if prev = None then k prev s else None)"
| "rx_match Finish k prev s = (if s = [] then k prev s else None)"

text \<open>The end of the match that starts here\<close>

definition rx_here :: "rx \<Rightarrow> char option \<Rightarrow> string \<Rightarrow> (char option \<times> string) option" where
  "rx_here r prev s = rx_match r (\<lambda>p rest. Some (p, rest)) prev s"

primrec rx_somewhere :: "rx \<Rightarrow> string \<Rightarrow> char option \<Rightarrow> bool" where
  "rx_somewhere r [] prev = (rx_here r prev [] \<noteq> None)"
| "rx_somewhere r (c # cs) prev = (rx_here r prev (c # cs) \<noteq> None \<or> rx_somewhere r cs (Some c))"

text \<open>\<open>r.test(s)\<close>\<close>

definition rx_test :: "rx \<Rightarrow> string \<Rightarrow> bool" where
  "rx_test r s = rx_somewhere r s None"

text \<open>\<open>s.replace(r, f)\<close> with the flag \<open>g\<close>\<close>

function rx_replace_from :: "rx \<Rightarrow> (string \<Rightarrow> string) \<Rightarrow> char option \<Rightarrow> string \<Rightarrow> string" where
  "rx_replace_from r f prev s =
     (case rx_here r prev s of
        Some (p, rest) \<Rightarrow>
          if length rest < length s then f (take (length s - length rest) s) @ rx_replace_from r f p rest
          else f [] @ (case s of [] \<Rightarrow> [] | c # cs \<Rightarrow> c # rx_replace_from r f (Some c) cs)
      | None \<Rightarrow> (case s of [] \<Rightarrow> [] | c # cs \<Rightarrow> c # rx_replace_from r f (Some c) cs))"
  by pat_completeness auto
termination by (relation "measure (\<lambda>(r, f, prev, s). length s)") auto

declare rx_replace_from.simps [simp del]

definition rx_replace :: "rx \<Rightarrow> (string \<Rightarrow> string) \<Rightarrow> string \<Rightarrow> string" where
  "rx_replace r f s = rx_replace_from r f None s"


section \<open>Characters by their bits\<close>

text \<open>Equations for the evaluation of matches: the classes of characters without arithmetic.\<close>

lemma lower_char_bits [code]:
  "lower_char (Char b0 b1 b2 b3 b4 b5 b6 b7) =
     (if b6 \<and> \<not> b5 \<and> (if b7 then \<not> (b0 \<and> b1 \<and> b2 \<and> b4) else (b0 \<or> b1 \<or> b2 \<or> b3 \<or> b4) \<and> \<not> (b4 \<and> b3 \<and> (b2 \<or> b1 \<and> b0)))
      then Char b0 b1 b2 b3 b4 True b6 b7 else Char b0 b1 b2 b3 b4 b5 b6 b7)"
  by (cases b0; cases b1; cases b2; cases b3; cases b4; cases b5; cases b6; cases b7) (simp_all add: lower_char_def char_of_def bit_0)

lemma digit_char_bits [code]:
  "digit_char (Char b0 b1 b2 b3 b4 b5 b6 b7) \<longleftrightarrow> \<not> b7 \<and> \<not> b6 \<and> b5 \<and> b4 \<and> (b3 \<longrightarrow> \<not> b2 \<and> \<not> b1)"
  by (cases b0; cases b1; cases b2; cases b3; cases b4; cases b5; cases b6; cases b7) (simp_all add: digit_char_def less_eq_char_def)

lemma alnum_bits [code]:
  "alnum (Char b0 b1 b2 b3 b4 b5 b6 b7) \<longleftrightarrow> \<not> b7 \<and>
     (if b6 then (b0 \<or> b1 \<or> b2 \<or> b3 \<or> b4) \<and> \<not> (b4 \<and> b3 \<and> (b2 \<or> b1 \<and> b0)) else b5 \<and> b4 \<and> (b3 \<longrightarrow> \<not> b2 \<and> \<not> b1))"
  by (cases b0; cases b1; cases b2; cases b3; cases b4; cases b5; cases b6; cases b7) (simp_all add: alnum_def)

lemma ws_char_bits [code]:
  "ws_char (Char b0 b1 b2 b3 b4 b5 b6 b7) \<longleftrightarrow> \<not> b6 \<and> \<not> b4 \<and>
     (if b5 then \<not> (b0 \<or> b1 \<or> b2 \<or> b3) else \<not> b7 \<and> b3 \<and> (b0 \<or> b1 \<or> b2) \<and> \<not> (b2 \<and> b1))"
  by (cases b0; cases b1; cases b2; cases b3; cases b4; cases b5; cases b6; cases b7) (simp_all add: ws_char_def)


section \<open>Expressions\<close>

definition rx_cat :: "rx list \<Rightarrow> rx" where
  "rx_cat rs = foldr Cat rs Empty"

definition rx_lit :: "string \<Rightarrow> rx" where
  "rx_lit s = rx_cat (map (\<lambda>c. Cls (\<lambda>x. x = c)) s)"

text \<open>A literal of small letters under the flag \<open>i\<close>\<close>

definition rx_word :: "string \<Rightarrow> rx" where
  "rx_word s = rx_cat (map (\<lambda>c. Cls (\<lambda>x. lower_char x = c)) s)"

fun rx_any :: "rx list \<Rightarrow> rx" where
  "rx_any [] = Cls (\<lambda>_. False)"
| "rx_any [r] = r"
| "rx_any (r # rs) = Alt r (rx_any rs)"

definition some_of :: "(char \<Rightarrow> bool) \<Rightarrow> rx" where
  "some_of p = Run 1 None p"

definition any_of :: "(char \<Rightarrow> bool) \<Rightarrow> rx" where
  "any_of p = Run 0 None p"

definition opt_of :: "(char \<Rightarrow> bool) \<Rightarrow> rx" where
  "opt_of p = Run 0 (Some 1) p"


section \<open>What a match consumes\<close>

lemma first_of_Some: "first_of x y = Some a \<longleftrightarrow> x = Some a \<or> x = None \<and> y = Some a"
  by (cases x) (simp_all add: first_of_def)

lemma run_match_rest:
  "run_match p k s lo hi prev = Some x \<Longrightarrow>
   \<exists>q rest. k q rest = Some x \<and> suffix rest s \<and> length rest + lo \<le> length s \<and> list_all p (take (length s - length rest) s)"
proof (induction s arbitrary: lo hi prev)
  case Nil
  then show ?case by (auto split: if_splits)
next
  case (Cons c cs)
  show ?case
  proof (cases "p c \<and> hi \<noteq> Some 0 \<and> run_match p k cs (lo - 1) (map_option (\<lambda>n. n - 1) hi) (Some c) = Some x")
    case True
    then obtain q rest where "k q rest = Some x" "suffix rest cs" "length rest + (lo - 1) \<le> length cs"
        "list_all p (take (length cs - length rest) cs)"
      using Cons.IH by blast
    moreover have "length (c # cs) - length rest = Suc (length cs - length rest)"
      using calculation(2) by (simp add: Suc_diff_le suffix_length_le)
    ultimately show ?thesis using True by (intro exI [of _ q] exI [of _ rest]) (auto simp: suffix_Cons)
  next
    case False
    then have "lo = 0" "k prev (c # cs) = Some x"
      using Cons.prems by (auto simp: first_of_Some split: if_splits)
    then show ?thesis by (intro exI [of _ prev] exI [of _ "c # cs"]) simp
  qed
qed

lemma rx_match_rest: "rx_match r k prev s = Some x \<Longrightarrow> \<exists>q rest. k q rest = Some x \<and> suffix rest s"
proof (induction r arbitrary: k prev s)
  case (Cls p)
  then show ?case by (auto split: list.splits if_splits simp: suffix_Cons)
next
  case (Run lo hi p)
  then show ?case using run_match_rest by fastforce
next
  case (Cat a b)
  then show ?case using suffix_order.trans by fastforce
next
  case (Alt a b)
  then show ?case by (auto simp: first_of_Some)
next
  case (Opt a)
  then show ?case by (auto simp: first_of_Some)
qed (auto split: if_splits)

lemma rx_here_suffix: "rx_here r prev s = Some (q, rest) \<Longrightarrow> suffix rest s"
  unfolding rx_here_def by (auto dest: rx_match_rest)

text \<open>A text without a match is left as it is.\<close>

lemma rx_replace_from_none: "\<not> rx_somewhere r s prev \<Longrightarrow> rx_replace_from r f prev s = s"
proof (induction s arbitrary: prev)
  case Nil
  then have "rx_here r prev [] = None" by (cases "rx_here r prev []") auto
  then show ?case by (simp add: rx_replace_from.simps [of r f prev "[]"])
next
  case (Cons c cs)
  then have "rx_here r prev (c # cs) = None" "rx_replace_from r f (Some c) cs = cs"
    by (cases "rx_here r prev (c # cs)", auto)
  then show ?case by (simp add: rx_replace_from.simps [of r f prev "c # cs"])
qed

lemma rx_replace_none: "\<not> rx_test r s \<Longrightarrow> rx_replace r f s = s"
  unfolding rx_test_def rx_replace_def by (rule rx_replace_from_none)

end
