(* ===== verification/Recording_Types.thy ===== *)
theory Recording_Types
  imports Selectors Rule_Types Runtime
begin

text \<open>
  The recording a rule is generated from, \<open>src/rule-generator/types.ts\<close>: the events of a session in
  order, the snapshots of the page with the elements an event may name, and the marks of the user.
  Times are whole milliseconds; a rectangle is given by its origin and extent.
\<close>

section \<open>Recordings\<close>

record rect =
  rectX :: rat
  rectY :: rat
  rectW :: rat
  rectH :: rat

record element_info =
  eiIndex :: int
  eiTagName :: string
  eiSelector :: string
  eiText :: "string option"
  eiAriaLabel :: "string option"
  eiRole :: "string option"
  eiPlaceholder :: "string option"
  eiName :: "string option"
  eiRect :: "rect option"

datatype annotation = NextPage | Login | Captcha | ListItem | FieldMark

datatype scroll_direction = ScrollDown | ScrollUp | ScrollLeft | ScrollRight

datatype extract_mode = TextMode | HtmlMode | AttributeMode

datatype rec_event =
    NavigateEvent (eventTime: int) string bool
  | ClickEvent (eventTime: int) int "string option" bool "annotation option"
  | InputTextEvent (eventTime: int) int string bool
  | SubmitFormEvent (eventTime: int) int "int option"
  | SelectOptionEvent (eventTime: int) int string
  | ScrollEvent (eventTime: int) scroll_direction int bool "int option"
  | ExecuteJavascriptEvent (eventTime: int) string
  | WaitEvent (eventTime: int) int
  | ExtractEvent (eventTime: int) int string extract_mode "string option" "annotation option"
  | UnknownEvent (eventTime: int) string

record rec_snapshot =
  rsTime :: int
  rsUrl :: string
  rsPhase :: "string option"
  rsSelectorMap :: "(int \<times> element_info) list"

record rec_meta =
  startUrl :: string
  recTitle :: string
  recDomain :: string

record page_agent_recording =
  recMeta :: rec_meta
  recEvents :: "rec_event list"
  recSnapshots :: "rec_snapshot list"

definition direction_string :: "scroll_direction \<Rightarrow> string" where
  "direction_string d =
     (case d of ScrollDown \<Rightarrow> ''down'' | ScrollUp \<Rightarrow> ''up'' | ScrollLeft \<Rightarrow> ''left'' | ScrollRight \<Rightarrow> ''right'')"

text \<open>What the URL parser of the platform answers about a URL, with its decoded query parameters\<close>

record parsed_url =
  puProtocol :: string
  puHostname :: string
  puUsername :: string
  puPassword :: string
  puParams :: "(string \<times> string) list"

type_synonym full_url_parser = "string \<Rightarrow> parsed_url option"


section \<open>Generation\<close>

text \<open>
  The generator threads the registry of the aliases it has given out; an error aborts the whole
  conversion, so the state is lost with it.
\<close>

type_synonym ('s, 'a) gen = "'s \<Rightarrow> exn + ('a \<times> 's)"

definition returnG :: "'a \<Rightarrow> ('s, 'a) gen" where
  "returnG a = (\<lambda>s. Inr (a, s))"

definition throwG :: "string \<Rightarrow> ('s, 'a) gen" where
  "throwG m = (\<lambda>s. Inl (Error m))"

definition bindG :: "('s, 'a) gen \<Rightarrow> ('a \<Rightarrow> ('s, 'b) gen) \<Rightarrow> ('s, 'b) gen" where
  "bindG m k = (\<lambda>s. case m s of Inl e \<Rightarrow> Inl e | Inr (a, s') \<Rightarrow> k a s')"

primrec mapG :: "('a \<Rightarrow> ('s, 'b) gen) \<Rightarrow> 'a list \<Rightarrow> ('s, 'b list) gen" where
  "mapG f [] = returnG []"
| "mapG f (x # xs) = bindG (f x) (\<lambda>y. bindG (mapG f xs) (\<lambda>ys. returnG (y # ys)))"

lemma bindG_Inr: "bindG m k s = Inr (b, s') \<longleftrightarrow> (\<exists>a s1. m s = Inr (a, s1) \<and> k a s1 = Inr (b, s'))"
  by (auto simp: bindG_def split: sum.splits prod.splits)

lemma returnG_Inr: "returnG a s = Inr (b, s') \<longleftrightarrow> b = a \<and> s' = s"
  by (auto simp: returnG_def)

lemma throwG_Inr: "throwG m s \<noteq> Inr x"
  by (simp add: throwG_def)

lemmas gen_Inr = bindG_Inr returnG_Inr throwG_Inr

end
