(* ===== verification/Dom_Serializer.thy ===== *)
theory Dom_Serializer
  imports Js_Regex Recording_Types "HOL-Library.List_Lexorder" "HOL-Library.Char_ord"
begin

text \<open>
  Model of \<open>extension/src/recording/dom-serializer.ts\<close>: the semantic tree a recording keeps of a page.
  The values of sensitive fields are replaced, texts that look like secrets are redacted, URLs are
  cleaned, and what was left out or changed is noted as evidence. The live document is a tree whose
  elements carry their attributes, what the style of the browser says of them, and the state of form
  controls; the report is the state of the serialisation, and an exceeded strict limit an error.
\<close>

section \<open>The live document\<close>

datatype style_answer = NoView | StyleThrows | Styled string string string string

datatype form_state = InputField string bool | TextAreaField string | OptionField bool | NoField

record live_element =
  leTag :: string
  leAttrs :: "(string \<times> string) list"
  leStyle :: style_answer
  leForm :: form_state
  leDisabled :: bool

datatype live_node =
    LiveText string
  | LiveComment
  | LiveOther string
  | LiveElement live_element "live_node list"

definition attr_of :: "live_element \<Rightarrow> string \<Rightarrow> string option" where
  "attr_of el k = map_of (leAttrs el) k"


section \<open>The semantic tree\<close>

text \<open>Evidence that nothing was altered is no evidence: the property is absent.\<close>

record sanitization =
  markupAltered :: bool
  contentOmitted :: bool
  alteredAttributes :: "string list"

definition no_evidence :: sanitization where
  "no_evidence = \<lparr>markupAltered = False, contentOmitted = False, alteredAttributes = []\<rparr>"

datatype frame_status = FrameCaptured | FrameUnavailable | FrameError

datatype frame_origin = FrameSameOrigin | FrameCrossOrigin

record frame_info =
  framePlaceholder :: bool
  frameSrc :: "string option"
  frameStatus :: "frame_status option"
  frameOrigin :: "frame_origin option"
  frameMatched :: "bool option"
  frameError :: "string option"

definition no_frame :: frame_info where
  "no_frame = \<lparr>framePlaceholder = False, frameSrc = None, frameStatus = None, frameOrigin = None, frameMatched = None,
     frameError = None\<rparr>"

text \<open>Children are absent when there are none; \<open>rendered\<close> is only stored when it is false.\<close>

record semantic_element =
  seTag :: string
  seAttrs :: "(string \<times> string) list"
  seRendered :: bool
  seEvidence :: sanitization
  seFrame :: frame_info

datatype semantic_node =
    SemText string sanitization
  | SemElement semantic_element "semantic_node list"

fun estimateNodeCount :: "semantic_node \<Rightarrow> nat" where
  "estimateNodeCount (SemText s e) = 1"
| "estimateNodeCount (SemElement el cs) = 1 + sum_list (map estimateNodeCount cs)"


section \<open>Secrets\<close>

definition REDACTED_VALUE :: string where
  "REDACTED_VALUE = ''[REDACTED]''"

definition REMOVED_URL_VALUE :: string where
  "REMOVED_URL_VALUE = ''[REMOVED_URL]''"

definition DEFAULT_ALLOWED_ATTRS :: "string list" where
  "DEFAULT_ALLOWED_ATTRS = [''id'', ''class'', ''data-testid'', ''data-qa'', ''data-automation-id'', ''role'', ''aria-label'',
     ''aria-labelledby'', ''aria-describedby'', ''aria-expanded'', ''aria-checked'', ''aria-selected'', ''aria-disabled'', ''name'',
     ''autocomplete'', ''placeholder'', ''type'', ''href'', ''src'', ''alt'', ''title'', ''for'', ''value'', ''checked'', ''selected'',
     ''disabled'', ''readonly'', ''required'', ''multiple'', ''hidden'', ''open'', ''contenteditable'', ''action'', ''method'']"

definition SKIPPED_TAGS :: "string list" where
  "SKIPPED_TAGS = [''script'', ''style'', ''noscript'', ''link'', ''meta'', ''template'']"

definition URL_ATTRIBUTES :: "string list" where
  "URL_ATTRIBUTES = [''href'', ''src'', ''action'']"

definition MAX_PROVENANCE_ATTRIBUTE_NAMES :: nat where
  "MAX_PROVENANCE_ATTRIBUTE_NAMES = 64"

definition dash :: "char \<Rightarrow> bool" where
  "dash c \<longleftrightarrow> c = CHR ''-'' \<or> c = CHR ''_''"

definition dashed :: "string \<Rightarrow> string \<Rightarrow> rx" where
  "dashed a b = rx_cat [rx_word a, opt_of dash, rx_word b]"

definition auth_word :: rx where
  "auth_word = Cat (rx_word ''auth'') (Opt (rx_word ''orization''))"

definition SENSITIVE_NAME :: rx where
  "SENSITIVE_NAME = rx_any [rx_word ''password'', rx_word ''passwd'', rx_word ''pwd'', rx_word ''secret'', rx_word ''token'',
     dashed ''api'' ''key'', auth_word, rx_word ''cookie'', rx_word ''credential'', dashed ''user'' ''name'', rx_word ''login'',
     dashed ''credit'' ''card'', dashed ''card'' ''number'', rx_word ''cvv'', rx_word ''cvc'', rx_word ''ssn'']"

definition SENSITIVE_AUTOCOMPLETE :: rx where
  "SENSITIVE_AUTOCOMPLETE = rx_any [Cat (rx_any [rx_word ''current'', rx_word ''new'']) (rx_word ''-password''),
     rx_word ''one-time-code'', Cat (rx_word ''cc-'') (rx_any [rx_word ''number'', rx_word ''csc'']), rx_word ''username'']"

definition quote_char :: "char \<Rightarrow> bool" where
  "quote_char c \<longleftrightarrow> c = CHR 0x22 \<or> c = CHR 0x27"

definition secret_char :: "char \<Rightarrow> bool" where
  "secret_char c \<longleftrightarrow> \<not> quote_char c \<and> \<not> ws_char c \<and> c \<notin> set ''<>;&''"

definition assigned_secret :: rx where
  "assigned_secret = rx_cat [rx_any [rx_word ''password'', rx_word ''passwd'', rx_word ''pwd'', rx_word ''secret'', rx_word ''token'',
       dashed ''api'' ''key'', rx_word ''authorization'', rx_word ''cookie''],
     any_of ws_char, Cls (\<lambda>c. c = CHR '':'' \<or> c = CHR ''=''), any_of ws_char, opt_of quote_char, some_of secret_char, opt_of quote_char]"

definition bearer_secret :: rx where
  "bearer_secret = rx_cat [rx_word ''bearer'', some_of ws_char, some_of (\<lambda>c. alnum c \<or> c \<in> set ''._~+/=-'')]"

definition token_char :: "char \<Rightarrow> bool" where
  "token_char c \<longleftrightarrow> alnum c \<or> dash c"

definition jwt_secret :: rx where
  "jwt_secret = rx_cat [Border, rx_lit ''eyJ'', some_of token_char, rx_lit ''.'', some_of token_char, rx_lit ''.'', some_of token_char, Border]"

definition digits_of :: "nat \<Rightarrow> nat \<Rightarrow> rx" where
  "digits_of lo hi = Run lo (Some hi) digit_char"

definition card_secret :: rx where
  "card_secret = rx_cat [Border, digits_of 16 19, Border]"

definition gap_char :: "char \<Rightarrow> bool" where
  "gap_char c \<longleftrightarrow> c = CHR ''-'' \<or> ws_char c"

definition spaced_card_secret :: rx where
  "spaced_card_secret = rx_cat [Border, digits_of 4 4, Cls gap_char, digits_of 4 4, Cls gap_char, digits_of 4 4, Cls gap_char,
     digits_of 1 4, Border]"

definition letter_char :: "char \<Rightarrow> bool" where
  "letter_char c \<longleftrightarrow> alnum c \<and> \<not> digit_char c"

definition email_secret :: rx where
  "email_secret = rx_cat [Border, some_of (\<lambda>c. alnum c \<or> c \<in> set ''._%+-''), rx_lit ''@'', some_of (\<lambda>c. alnum c \<or> c \<in> set ''.-''),
     rx_lit ''.'', Run 2 None letter_char, Border]"

definition SENSITIVE_TEXT_PATTERNS :: "rx list" where
  "SENSITIVE_TEXT_PATTERNS = [assigned_secret, bearer_secret, jwt_secret, card_secret, spaced_card_secret, email_secret]"

definition redactSensitiveText :: "string \<Rightarrow> string" where
  "redactSensitiveText v = fold (\<lambda>r s. rx_replace r (\<lambda>_. REDACTED_VALUE) s) SENSITIVE_TEXT_PATTERNS v"

definition identity_of :: "live_element \<Rightarrow> string" where
  "identity_of el = join_strings '' ''
     (filter (\<lambda>s. s \<noteq> []) (concat (map (\<lambda>k. case attr_of el k of None \<Rightarrow> [] | Some v \<Rightarrow> [v]) [''name'', ''id'', ''aria-label''])))"

definition isSensitiveElement :: "live_element \<Rightarrow> bool" where
  "isSensitiveElement el =
     (if map_option js_toLowerCase (attr_of el ''type'') \<in> {Some ''password'', Some ''hidden''} then True
      else if rx_test SENSITIVE_NAME (identity_of el) then True
      else rx_test SENSITIVE_AUTOCOMPLETE (case attr_of el ''autocomplete'' of None \<Rightarrow> [] | Some v \<Rightarrow> v))"


section \<open>What is rendered\<close>

definition trimmed_is :: "live_element \<Rightarrow> string \<Rightarrow> string \<Rightarrow> bool" where
  "trimmed_is el k v \<longleftrightarrow> map_option (\<lambda>x. js_toLowerCase (js_trim x)) (attr_of el k) = Some v"

definition isElementSelfRendered :: "live_element \<Rightarrow> bool" where
  "isElementSelfRendered el \<longleftrightarrow>
     attr_of el ''hidden'' = None \<and> \<not> trimmed_is el ''aria-hidden'' ''true''
     \<and> \<not> (js_toLowerCase (leTag el) = ''input'' \<and> trimmed_is el ''type'' ''hidden'')
     \<and> (case leStyle el of
          NoView \<Rightarrow> True
        | StyleThrows \<Rightarrow> False
        | Styled display visibility contentVisibility opacity \<Rightarrow>
            display \<noteq> ''none'' \<and> visibility \<noteq> ''hidden'' \<and> visibility \<noteq> ''collapse''
            \<and> contentVisibility \<noteq> ''hidden'' \<and> opacity \<noteq> ''0'')"

text \<open>The ancestors, through the hosts of shadow roots, from the nearest on\<close>

definition renderedAncestors :: "live_element list \<Rightarrow> bool" where
  "renderedAncestors els = list_all isElementSelfRendered els"


section \<open>Evidence\<close>

definition merged_names :: "string list \<Rightarrow> string list \<Rightarrow> string list" where
  "merged_names old new =
     (let names = sort (remdups (old @ map js_toLowerCase new)) in
      if ''*'' \<in> set names \<or> MAX_PROVENANCE_ATTRIBUTE_NAMES < length names then [''*''] else names)"

definition mergeSanitization :: "sanitization \<Rightarrow> sanitization \<Rightarrow> sanitization" where
  "mergeSanitization cur ev =
     \<lparr>markupAltered = markupAltered cur \<or> markupAltered ev \<or> contentOmitted ev \<or> alteredAttributes ev \<noteq> [],
      contentOmitted = contentOmitted cur \<or> contentOmitted ev,
      alteredAttributes = (if alteredAttributes ev = [] then alteredAttributes cur
                           else merged_names (alteredAttributes cur) (alteredAttributes ev))\<rparr>"

definition markup_altered :: sanitization where
  "markup_altered = no_evidence\<lparr>markupAltered := True\<rparr>"

definition content_omitted :: sanitization where
  "content_omitted = no_evidence\<lparr>markupAltered := True, contentOmitted := True\<rparr>"

definition js_map :: "(string \<times> string) list \<Rightarrow> (string \<times> string) list" where
  "js_map kvs = fold (\<lambda>(k, v) acc. al_set k v acc) kvs []"

definition altered_names :: "(string \<times> string) list \<Rightarrow> (string \<times> string) list \<Rightarrow> string list" where
  "altered_names original recorded =
     map fst (filter (\<lambda>(k, v). map_of recorded k \<noteq> None \<and> map_of recorded k \<noteq> Some v) original)
     @ filter (\<lambda>k. map_of original k = None) (map fst recorded)"

definition recordAttributeSanitization :: "live_element \<Rightarrow> (string \<times> string) list \<Rightarrow> sanitization \<Rightarrow> sanitization" where
  "recordAttributeSanitization el attributes cur =
     (let original = js_map (map (\<lambda>(k, v). (js_toLowerCase k, v)) (leAttrs el)); recorded = js_map attributes;
          altered = altered_names original recorded
      in if list_ex (\<lambda>(k, v). map_of recorded k = None) original \<or> altered \<noteq> []
         then mergeSanitization cur (markup_altered\<lparr>alteredAttributes := altered\<rparr>) else cur)"

fun squeeze_blanks :: "string \<Rightarrow> string" where
  "squeeze_blanks [] = []"
| "squeeze_blanks (c # cs) =
     (if ws_char c
      then (case cs of d # _ \<Rightarrow> if ws_char d then squeeze_blanks cs else CHR '' '' # squeeze_blanks cs | [] \<Rightarrow> '' '')
      else c # squeeze_blanks cs)"

text \<open>\<open>replace(/\s+/g, ' ').trim()\<close>\<close>

definition normal_text :: "string \<Rightarrow> string" where
  "normal_text s = js_trim (squeeze_blanks s)"

definition omitted_text :: "string \<Rightarrow> sanitization" where
  "omitted_text s = (if normal_text s \<noteq> [] then content_omitted else markup_altered)"

definition recordOmittedChild :: "live_node \<Rightarrow> sanitization \<Rightarrow> sanitization" where
  "recordOmittedChild child cur = mergeSanitization cur
     (case child of
        LiveComment \<Rightarrow> markup_altered
      | LiveText s \<Rightarrow> omitted_text s
      | LiveElement el cs \<Rightarrow> content_omitted
      | LiveOther s \<Rightarrow> omitted_text s)"


section \<open>Values\<close>

record ser_limits =
  limNodes :: "nat option"
  limDepth :: "nat option"
  limText :: "nat option"
  limAttrs :: "string list"
  limStrict :: bool

record ser_report =
  repNodes :: nat
  repRedactions :: nat
  repRemoved :: nat
  repTruncated :: bool

type_synonym 'a ser = "(ser_report, 'a) gen"

definition limit_error :: "string \<Rightarrow> exn" where
  "limit_error k = JsError ''SemanticDomLimitError'' (''semantic DOM '' @ k @ '' limit exceeded'')"

text \<open>The report is marked as truncated; under strict limits the serialisation ends.\<close>

definition exceeded :: "ser_limits \<Rightarrow> string \<Rightarrow> unit ser" where
  "exceeded lm k = (\<lambda>r. if limStrict lm then Inl (limit_error k) else Inr ((), r\<lparr>repTruncated := True\<rparr>))"

definition count_redaction :: "unit ser" where
  "count_redaction = (\<lambda>r. Inr ((), r\<lparr>repRedactions := repRedactions r + 1\<rparr>))"

definition count_removed :: "unit ser" where
  "count_removed = (\<lambda>r. Inr ((), r\<lparr>repRemoved := repRemoved r + 1\<rparr>))"

definition when_ser :: "bool \<Rightarrow> unit ser \<Rightarrow> unit ser" where
  "when_ser b m = (if b then m else returnG ())"

text \<open>The nodes that remain are those of the limit that were not counted.\<close>

definition consumeNode :: "ser_limits \<Rightarrow> bool ser" where
  "consumeNode lm = (\<lambda>r.
     case limNodes lm of
       Some n \<Rightarrow> if n \<le> repNodes r then bindG (exceeded lm ''nodes'') (\<lambda>_. returnG False) r
                 else Inr (True, r\<lparr>repNodes := repNodes r + 1\<rparr>)
     | None \<Rightarrow> Inr (True, r\<lparr>repNodes := repNodes r + 1\<rparr>))"

definition cut_to_limit :: "ser_limits \<Rightarrow> string \<Rightarrow> string ser" where
  "cut_to_limit lm s =
     (case limText lm of
        Some n \<Rightarrow> if n < length s then bindG (exceeded lm ''text'') (\<lambda>_. returnG (take n s)) else returnG s
      | None \<Rightarrow> returnG s)"

definition sanitizeText :: "ser_limits \<Rightarrow> string \<Rightarrow> bool \<Rightarrow> string ser" where
  "sanitizeText lm s forceRedact =
     (if forceRedact \<and> s \<noteq> [] then bindG count_redaction (\<lambda>_. cut_to_limit lm REDACTED_VALUE)
      else (let out = redactSensitiveText s in
        bindG (when_ser (out \<noteq> s) count_redaction) (\<lambda>_. cut_to_limit lm out)))"

definition redactValue :: "string \<Rightarrow> string ser" where
  "redactValue s = (if s = [] then returnG [] else bindG count_redaction (\<lambda>_. returnG REDACTED_VALUE))"

definition removed_scheme :: rx where
  "removed_scheme = rx_cat [Begin, rx_any [rx_word ''data'', rx_word ''blob'', rx_word ''javascript''], rx_lit '':'']"

definition userinfo :: rx where
  "userinfo = (let part = some_of (\<lambda>c. c \<noteq> CHR ''/'' \<and> c \<noteq> CHR ''@'' \<and> \<not> ws_char c) in
     rx_cat [rx_lit ''://'', part, rx_lit '':'', part, rx_lit ''@''])"

definition sensitive_query :: rx where
  "sensitive_query = rx_cat [Cls (\<lambda>c. c = CHR ''?'' \<or> c = CHR ''&''),
     rx_any [rx_word ''password'', rx_word ''passwd'', rx_word ''pwd'', rx_word ''secret'', rx_word ''token'', dashed ''api'' ''key'',
       rx_word ''authorization'', rx_word ''cookie'', rx_word ''credential'', dashed ''access'' ''token'', dashed ''refresh'' ''token'',
       Cat (rx_word ''session'') (Opt (rx_any [rx_word ''id'', rx_word ''key''])), rx_word ''sid'', rx_word ''jwt'', rx_word ''code'',
       rx_word ''state'', rx_word ''otp'', dashed ''mfa'' ''code''],
     rx_lit ''='', any_of (\<lambda>c. c \<noteq> CHR ''&'' \<and> c \<noteq> CHR ''#'')]"

text \<open>The first group of a match is what stands up to its first equals sign.\<close>

definition keep_name :: "string \<Rightarrow> string" where
  "keep_name m = takeWhile (\<lambda>c. c \<noteq> CHR ''='') m @ ''='' @ REDACTED_VALUE"

definition sanitizeUrl :: "string \<Rightarrow> string ser" where
  "sanitizeUrl v =
     (if rx_test removed_scheme (js_trim v) then bindG count_redaction (\<lambda>_. returnG REMOVED_URL_VALUE)
      else (let out = rx_replace sensitive_query keep_name (rx_replace userinfo (\<lambda>_. ''://'' @ REDACTED_VALUE @ ''@'') v);
                red = redactSensitiveText out
            in bindG (when_ser (red \<noteq> out \<or> out \<noteq> v) count_redaction) (\<lambda>_. returnG red)))"

definition empty_report :: ser_report where
  "empty_report = \<lparr>repNodes = 0, repRedactions = 0, repRemoved = 0, repTruncated = False\<rparr>"

definition sanitizeRecordingUrl :: "string \<Rightarrow> string" where
  "sanitizeRecordingUrl v = (case sanitizeUrl v empty_report of Inl _ \<Rightarrow> [] | Inr (out, _) \<Rightarrow> out)"

definition hex_run :: rx where
  "hex_run = Run 12 None (\<lambda>c. let d = lower_char c in digit_char d \<or> CHR ''a'' \<le> d \<and> d \<le> CHR ''f'')"

definition css_module :: rx where
  "css_module = rx_cat [Begin, rx_word ''css-'', Run 6 None alnum, Finish]"

fun blank_words :: "string \<Rightarrow> string \<Rightarrow> string list" where
  "blank_words w [] = [rev w]"
| "blank_words w (c # cs) = (if ws_char c then rev w # blank_words [] cs else blank_words (c # w) cs)"

definition sanitizeClassValue :: "string \<Rightarrow> string" where
  "sanitizeClassValue v = join_strings '' ''
     (filter (\<lambda>w. w \<noteq> [] \<and> length w \<le> 80 \<and> \<not> rx_test hex_run w \<and> \<not> rx_test css_module w) (blank_words [] v))"


section \<open>The tree\<close>

definition sanitize_attribute :: "ser_limits \<Rightarrow> bool \<Rightarrow> string \<times> string \<Rightarrow> (string \<times> string) list ser" where
  "sanitize_attribute lm sensitive attr =
     (let k = js_toLowerCase (fst attr); v = (if k = ''class'' then sanitizeClassValue (snd attr) else snd attr) in
      if k \<notin> set (limAttrs lm) \<and> \<not> js_startsWith k ''aria-'' then returnG []
      else bindG
        (if k \<in> set URL_ATTRIBUTES then sanitizeUrl v
         else if k = ''value'' \<and> sensitive then redactValue v
         else sanitizeText lm v (sensitive \<and> (k = ''placeholder'' \<or> k = ''title'')))
        (\<lambda>out. returnG (if out \<noteq> [] \<or> k \<noteq> ''class'' then [(k, out)] else [])))"

definition live_value :: "live_element \<Rightarrow> string option" where
  "live_value el = (case leForm el of InputField v _ \<Rightarrow> Some v | TextAreaField v \<Rightarrow> Some v | _ \<Rightarrow> None)"

definition checked_attr :: "live_element \<Rightarrow> (string \<times> string) list \<Rightarrow> (string \<times> string) list" where
  "checked_attr el as = (case leForm el of InputField _ True \<Rightarrow> al_set ''checked'' ''true'' as | OptionField True \<Rightarrow> al_set ''selected'' ''true'' as | _ \<Rightarrow> as)"

definition disabled_attr :: "live_element \<Rightarrow> (string \<times> string) list \<Rightarrow> (string \<times> string) list" where
  "disabled_attr el as = (if leDisabled el then al_set ''disabled'' ''true'' as else as)"

definition preserveLiveFormState ::
  "ser_limits \<Rightarrow> live_element \<Rightarrow> bool \<Rightarrow> (string \<times> string) list \<Rightarrow> (string \<times> string) list ser" where
  "preserveLiveFormState lm el sensitive as =
     bindG (case live_value el of
              None \<Rightarrow> returnG as
            | Some v \<Rightarrow> bindG (if sensitive then redactValue v else sanitizeText lm v False) (\<lambda>x. returnG (al_set ''value'' x as)))
       (\<lambda>bs. returnG (disabled_attr el (checked_attr el bs)))"

definition element_attributes :: "ser_limits \<Rightarrow> live_element \<Rightarrow> (string \<times> string) list ser" where
  "element_attributes lm el =
     bindG (mapG (sanitize_attribute lm (isSensitiveElement el)) (leAttrs el))
       (\<lambda>as. preserveLiveFormState lm el (isSensitiveElement el) (concat as))"

definition isSemanticNode :: "live_node \<Rightarrow> bool" where
  "isSemanticNode n =
     (case n of
        LiveText s \<Rightarrow> js_trim s \<noteq> []
      | LiveElement el _ \<Rightarrow> js_toLowerCase (leTag el) \<notin> set SKIPPED_TAGS
      | _ \<Rightarrow> False)"

definition iframe_of :: "(string \<times> string) list \<Rightarrow> frame_info" where
  "iframe_of as = no_frame\<lparr>framePlaceholder := True, frameStatus := Some FrameUnavailable,
     frameSrc := Some (case map_of as ''src'' of None \<Rightarrow> [] | Some v \<Rightarrow> v)\<rparr>"

definition omit_all :: "live_node list \<Rightarrow> sanitization \<Rightarrow> sanitization" where
  "omit_all cs ev = fold recordOmittedChild cs ev"

definition omit_missing :: "(live_node \<times> semantic_node option) list \<Rightarrow> sanitization \<Rightarrow> sanitization" where
  "omit_missing cs ev = fold (\<lambda>(c, x) e. case x of None \<Rightarrow> recordOmittedChild c e | Some _ \<Rightarrow> e) cs ev"

definition bare_element :: "live_element \<Rightarrow> (string \<times> string) list \<Rightarrow> bool \<Rightarrow> semantic_element" where
  "bare_element el as rendered = \<lparr>seTag = js_toLowerCase (leTag el), seAttrs = as, seRendered = rendered,
     seEvidence = recordAttributeSanitization el as no_evidence, seFrame = no_frame\<rparr>"

definition text_evidence :: "string \<Rightarrow> string \<Rightarrow> string \<Rightarrow> sanitization" where
  "text_evidence raw s out =
     (let e = (if s \<noteq> raw then mergeSanitization no_evidence markup_altered else no_evidence) in
      if out \<noteq> s then mergeSanitization e content_omitted else e)"

definition too_deep :: "ser_limits \<Rightarrow> nat \<Rightarrow> live_node list \<Rightarrow> bool" where
  "too_deep lm depth cs \<longleftrightarrow> (case limDepth lm of None \<Rightarrow> False | Some d \<Rightarrow> d \<le> depth) \<and> list_ex isSemanticNode cs"

fun serialize_node :: "ser_limits \<Rightarrow> nat \<Rightarrow> bool \<Rightarrow> bool \<Rightarrow> live_node \<Rightarrow> semantic_node option ser"
  and serialize_nodes :: "ser_limits \<Rightarrow> nat \<Rightarrow> bool \<Rightarrow> bool \<Rightarrow> live_node list \<Rightarrow> semantic_node option list ser" where
  "serialize_node lm depth forceRedact parentRendered (LiveText raw) =
     (let s = normal_text raw in
      if s = [] then returnG None
      else bindG (consumeNode lm)
        (\<lambda>ok. if \<not> ok then returnG None
               else bindG (sanitizeText lm s forceRedact) (\<lambda>out. returnG (Some (SemText out (text_evidence raw s out))))))"
| "serialize_node lm depth forceRedact parentRendered LiveComment = bindG count_removed (\<lambda>_. returnG None)"
| "serialize_node lm depth forceRedact parentRendered (LiveOther s) = returnG None"
| "serialize_node lm depth forceRedact parentRendered (LiveElement el cs) =
     (if js_toLowerCase (leTag el) \<in> set SKIPPED_TAGS then bindG count_removed (\<lambda>_. returnG None)
      else bindG (consumeNode lm)
        (\<lambda>ok. if \<not> ok then returnG None
          else bindG (element_attributes lm el)
            (\<lambda>as. let rendered = parentRendered \<and> isElementSelfRendered el; node = bare_element el as rendered in
              if js_toLowerCase (leTag el) = ''iframe''
              then returnG (Some (SemElement (node\<lparr>seEvidence := omit_all cs (seEvidence node), seFrame := iframe_of as\<rparr>) []))
              else if too_deep lm depth cs
              then bindG (exceeded lm ''depth'')
                (\<lambda>_. returnG (Some (SemElement (node\<lparr>seEvidence := omit_all cs (seEvidence node)\<rparr>) [])))
              else bindG (serialize_nodes lm (depth + 1) (isSensitiveElement el) rendered cs)
                (\<lambda>xs. returnG (Some (SemElement (node\<lparr>seEvidence := omit_missing (zip cs xs) (seEvidence node)\<rparr>)
                   (concat (map (\<lambda>x. case x of None \<Rightarrow> [] | Some y \<Rightarrow> [y]) xs))))))))"
| "serialize_nodes lm depth forceRedact parentRendered [] = returnG []"
| "serialize_nodes lm depth forceRedact parentRendered (c # cs) =
     bindG (serialize_node lm depth forceRedact parentRendered c)
       (\<lambda>x. bindG (serialize_nodes lm depth forceRedact parentRendered cs) (\<lambda>xs. returnG (x # xs)))"

text \<open>Without a root there is no tree.\<close>

definition serializeDomWithReport ::
  "ser_limits \<Rightarrow> live_element list \<Rightarrow> live_node option \<Rightarrow> exn + (semantic_node option \<times> ser_report)" where
  "serializeDomWithReport lm ancestors page_root =
     (case page_root of
        None \<Rightarrow> Inr (None, empty_report)
      | Some n \<Rightarrow> serialize_node lm 0 False (renderedAncestors ancestors) n empty_report)"

end
