(* ===== verification/Replay_Runner.thy ===== *)
theory Replay_Runner
  imports Worker_Page Dom_Serializer
begin

text \<open>
  Model of \<open>extension/src/intent/replay-transport.ts\<close> and \<open>replay-runner.ts\<close>: the runner the extension injects
  into a page to replay a rule. It drives the same engine as the worker page, but speaks to the background
  of the extension in messages that are not answered, keeps its position in the session storage and, for
  origins that do not share it, in the context the background gives back. The page is again a type \<open>'p\<close> with
  a record of operations: the location, the parser of URLs, the channel to the background, the document.
  The timer that sends a heartbeat every thirty seconds beside the run is not modelled; it only adds
  status messages.
\<close>

section \<open>The page and its channel\<close>

text \<open>\<open>runtimeSend\<close> answers an exception when the channel throws, as it does after the extension was reloaded.\<close>

record 'p replay_ops =
  replayHref :: "'p \<Rightarrow> string"
  replayHostname :: "'p \<Rightarrow> string"
  replayParse :: url_parser
  replayParseFrom :: "string \<Rightarrow> url_parser"
  runtimeUp :: "'p \<Rightarrow> bool"
  runtimeSend :: "jval \<Rightarrow> 'p \<Rightarrow> exn option \<times> 'p"
  abortSeen :: "'p \<Rightarrow> bool"
  documentElement :: "'p \<Rightarrow> live_node option"
  replayHalf :: "'p env"

record 'p runner =
  rnSession :: storage_area
  rnActive :: "string option"
  rnSent :: "jval list"
  rnPage :: 'p

definition on_replay_page :: "('p, 'a) run \<Rightarrow> ('p runner, 'a) run" where
  "on_replay_page m = (\<lambda>(c, w). case m (c, rnPage w) of (r, (c', p)) \<Rightarrow> (r, (c', w\<lparr>rnPage := p\<rparr>)))"

definition seen_on_replay_page :: "('p st \<Rightarrow> 'a) \<Rightarrow> 'p runner st \<Rightarrow> 'a" where
  "seen_on_replay_page f = (\<lambda>(c, w). f (c, rnPage w))"

definition runtime_message :: "string \<Rightarrow> jval \<Rightarrow> jval" where
  "runtime_message kind v = JObj [(''action'', JStr kind), (''payload'', v)]"

text \<open>A message the channel takes is sent; one it throws at is not.\<close>

definition tell :: "'p replay_ops \<Rightarrow> string \<Rightarrow> jval \<Rightarrow> 'p runner \<Rightarrow> exn option \<times> 'p runner" where
  "tell ops kind v w =
     (if runtimeUp ops (rnPage w)
      then (case runtimeSend ops (runtime_message kind v) (rnPage w) of
              (None, p) \<Rightarrow> (None, w\<lparr>rnSent := rnSent w @ [runtime_message kind v], rnPage := p\<rparr>)
            | (Some e, p) \<Rightarrow> (Some e, w\<lparr>rnPage := p\<rparr>))
      else (None, w))"

definition postProgress :: "'p replay_ops \<Rightarrow> jval \<Rightarrow> ('p runner, unit) run" where
  "postProgress ops v = (\<lambda>(c, w). case tell ops ''REPLAY_PROGRESS'' v w of
     (None, w') \<Rightarrow> (Ret (), (c, w')) | (Some e, w') \<Rightarrow> (Throw e, (c, w')))"


section \<open>Snapshots\<close>

definition MAX_REPLAY_SNAPSHOT_BYTES :: nat where
  "MAX_REPLAY_SNAPSHOT_BYTES = 384 * 1024"

definition replay_limits :: ser_limits where
  "replay_limits = \<lparr>limNodes = Some 1500, limDepth = Some 40, limText = Some 1000, limAttrs = DEFAULT_ALLOWED_ATTRS, limStrict = False\<rparr>"

definition when_set :: "bool \<Rightarrow> string \<Rightarrow> jval \<Rightarrow> jobj" where
  "when_set b k v = (if b then [(k, v)] else [])"

text \<open>The properties of a node; those it does not have are absent. The order in which evidence was added is not kept.\<close>

definition evidence_value :: "sanitization \<Rightarrow> jobj" where
  "evidence_value e = when_set (e \<noteq> no_evidence) ''sanitization''
     (JObj (when_set (markupAltered e) ''markupAltered'' (JBool True) @ when_set (contentOmitted e) ''contentOmitted'' (JBool True)
        @ when_set (alteredAttributes e \<noteq> []) ''alteredAttributes'' (JArr (map JStr (alteredAttributes e)))))"

definition status_word :: "frame_status \<Rightarrow> string" where
  "status_word st = (case st of FrameCaptured \<Rightarrow> ''captured'' | FrameUnavailable \<Rightarrow> ''unavailable'' | FrameError \<Rightarrow> ''error'')"

definition frame_value_of :: "frame_info \<Rightarrow> jobj" where
  "frame_value_of f = when_set (framePlaceholder f) ''framePlaceholder'' (JBool True)
     @ (case frameStatus f of None \<Rightarrow> [] | Some st \<Rightarrow> [(''frameStatus'', JStr (status_word st))])
     @ (case frameSrc f of None \<Rightarrow> [] | Some s \<Rightarrow> [(''frameSrc'', JStr s)])"

fun dom_value :: "semantic_node \<Rightarrow> jval" where
  "dom_value (SemText s e) = JObj ([(''type'', JStr ''text''), (''text'', JStr s)] @ evidence_value e)"
| "dom_value (SemElement el cs) = JObj
     ([(''type'', JStr ''element''), (''tagName'', JStr (seTag el)),
       (''attributes'', JArr (map (\<lambda>(k, v). JObj [(''name'', JStr k), (''value'', JStr v)]) (seAttrs el)))]
      @ evidence_value (seEvidence el) @ when_set (\<not> seRendered el) ''rendered'' (JBool False) @ frame_value_of (seFrame el)
      @ when_set (cs \<noteq> []) ''children'' (JArr (map dom_value cs)))"

definition capture_value :: "ser_report \<Rightarrow> jval" where
  "capture_value r = JObj [(''nodeCount'', jint (int (repNodes r))), (''redactionCount'', jint (int (repRedactions r))),
     (''removedNodeCount'', jint (int (repRemoved r))), (''truncated'', JBool (repTruncated r))]"

definition json_size :: "string \<Rightarrow> nat" where
  "json_size s = sum_list (map (\<lambda>c. length (utf8_bytes c)) s)"

definition snapshot_head :: "snapshot \<Rightarrow> jobj" where
  "snapshot_head x = [(''format'', JStr ''semantic-dom-v1''), (''originalType'', JStr (snapType x))]"

definition failed_artifact :: "snapshot \<Rightarrow> jval" where
  "failed_artifact x = JObj (snapshot_head x @ [(''domOmitted'', JBool True),
     (''reason'', JStr ''sanitized replay snapshot serialization failed'')])"

definition oversized_artifact :: "snapshot \<Rightarrow> nat \<Rightarrow> ser_report \<Rightarrow> jval" where
  "oversized_artifact x n r = JObj (snapshot_head x @ [(''domOmitted'', JBool True), (''originalBytes'', jint (int n)),
     (''capture'', capture_value (r\<lparr>repTruncated := True\<rparr>)),
     (''reason'', JStr ''sanitized replay snapshot exceeded the browser artifact budget'')])"

definition text_of_value :: "jval \<Rightarrow> string" where
  "text_of_value v = (case json_text v of None \<Rightarrow> [] | Some t \<Rightarrow> t)"

text \<open>The literal page of the environment is dropped; the document is serialised anew.\<close>

definition safeReplaySnapshot :: "snapshot \<Rightarrow> live_node option \<Rightarrow> snapshot" where
  "safeReplaySnapshot x live = \<lparr>snapName = snapName x, snapType = ''dom'',
     snapData = (case serializeDomWithReport replay_limits [] live of
        Inl _ \<Rightarrow> text_of_value (failed_artifact x)
      | Inr (t, r) \<Rightarrow>
          let data = text_of_value (JObj (snapshot_head x
                @ [(''domTree'', case t of None \<Rightarrow> JNull | Some n \<Rightarrow> dom_value n), (''capture'', capture_value r)]))
          in if json_size data \<le> MAX_REPLAY_SNAPSHOT_BYTES then data else text_of_value (oversized_artifact x (json_size data) r))\<rparr>"


section \<open>The transport\<close>

definition progress_of :: "string \<Rightarrow> jobj \<Rightarrow> jval" where
  "progress_of kind fs = JObj ((''type'', JStr kind) # fs)"

definition replay_sendResult :: "'p replay_ops \<Rightarrow> jval \<Rightarrow> bool \<Rightarrow> ('p runner, unit) run" where
  "replay_sendResult ops v imm =
     (if truthy v \<and> truthy (get_prop v ''__final'') then returnR ()
      else postProgress ops (progress_of ''result'' [(''payload'', v), (''immediate'', JBool imm)]))"

definition replay_sendLog :: "'p replay_ops \<Rightarrow> string \<Rightarrow> string \<Rightarrow> jobj option \<Rightarrow> ('p runner, unit) run" where
  "replay_sendLog ops level m extra =
     postProgress ops (progress_of ''log'' [(''level'', JStr level), (''message'', JStr m), (''extra'', opt_obj extra)])"

definition url_or_empty :: "jval \<Rightarrow> jval" where
  "url_or_empty v = (if is_nullish v then JStr [] else v)"

text \<open>Nothing ever cancels through the heartbeat: the flag of the transport stays as it was made.\<close>

definition replay_sendHeartbeat :: "'p replay_ops \<Rightarrow> jobj option \<Rightarrow> ('p runner, bool) run" where
  "replay_sendHeartbeat ops p =
     bindR (postProgress ops (progress_of ''status'' [(''status'', JStr ''heartbeat''),
        (''message'', url_or_empty (get_prop (opt_obj p) ''url''))]))
       (\<lambda>_. returnR False)"

definition replay_sendStatus :: "'p replay_ops \<Rightarrow> string \<Rightarrow> string \<Rightarrow> ('p runner, unit) run" where
  "replay_sendStatus ops st m = postProgress ops (progress_of ''status'' [(''status'', JStr st), (''message'', JStr m)])"

definition replay_sendSnapshot :: "'p replay_ops \<Rightarrow> jval \<Rightarrow> ('p runner, unit) run" where
  "replay_sendSnapshot ops v = (\<lambda>s. postProgress ops (progress_of ''snapshot''
     [(''snapshot'', snapshot_value (safeReplaySnapshot (snapshot_of_value v) (documentElement ops (rnPage (snd s)))))]) s)"

text \<open>\<open>new BrowserEnvironment(transport, window, false, false)\<close>: this transport neither asks a human nor flushes.\<close>

definition replay_env :: "'p replay_ops \<Rightarrow> rule \<Rightarrow> 'p runner env" where
  "replay_env ops rl = (let half = replayHalf ops in \<lparr>
     findElement = (\<lambda>t ms. on_replay_page (findElement half t ms)),
     sleepMs = (\<lambda>d. on_replay_page (sleepMs half d)),
     nowMs = seen_on_replay_page (nowMs half),
     getUrl = seen_on_replay_page (getUrl half),
     getTitle = seen_on_replay_page (getTitle half),
     evaluate = (\<lambda>x vs. on_replay_page (evaluate half x vs)),
     saveSnapshot = (\<lambda>n t. on_replay_page (saveSnapshot half n t)),
     waitForNetworkIdle = map_option (\<lambda>f i t. on_replay_page (f i t)) (waitForNetworkIdle half),
     aborted = (\<lambda>s. abortSeen ops (rnPage (snd s))),
     random = on_replay_page (random half),
     regexTest = regexTest half,
     sendResult = replay_sendResult ops,
     sendLog = replay_sendLog ops,
     sendStatus = replay_sendStatus ops,
     sendSnapshot = replay_sendSnapshot ops,
     requestHuman = None,
     flushResults = None,
     sendHeartbeat = replay_sendHeartbeat ops,
     fetchRule = (\<lambda>_. returnR (Some rl))\<rparr>)"


section \<open>The state and the context\<close>

record replay_context = resume_context +
  rcControl :: "worker_run_state option"
  rcHooks :: "hook_phase list option"

definition hook_word :: "hook_phase \<Rightarrow> string" where
  "hook_word h = (case h of BeforeAll \<Rightarrow> ''beforeAll'' | AfterAll \<Rightarrow> ''afterAll'' | OnError \<Rightarrow> ''onError'' | Cleanup \<Rightarrow> ''cleanup'')"

definition hook_of_value :: "jval \<Rightarrow> hook_phase option" where
  "hook_of_value v = Option.bind (string_of_value v)
     (\<lambda>s. find (\<lambda>h. hook_word h = s) [BeforeAll, AfterAll, OnError, Cleanup])"

definition object_of_value :: "jval \<Rightarrow> jobj option" where
  "object_of_value v = (case v of JObj fs \<Rightarrow> Some fs | _ \<Rightarrow> None)"

text \<open>The background stores the payload of a context message as it is and gives it back with the next page;
  a value that does not have the shape the runner writes is read as no context.\<close>

definition context_of_payload :: "jval \<Rightarrow> replay_context option" where
  "context_of_payload v =
     Option.bind (path_of_value (get_prop v ''lastCompletedStepPath''))
    (\<lambda>p. Option.bind (object_of_value (get_prop v ''extracted''))
    (\<lambda>x. Option.bind (object_of_value (get_prop v ''evaluated''))
    (\<lambda>y. Option.bind (object_of_value (get_prop v ''captured''))
    (\<lambda>z. Some \<lparr>rcLastCompleted = p, rcExtracted = x, rcEvaluated = y, rcCaptured = z,
        rcControl = state_of_value (get_prop v ''control''),
        rcHooks = (case get_prop v ''hooksCompleted'' of JArr hs \<Rightarrow> those (map hook_of_value hs) | _ \<Rightarrow> None)\<rparr>))))"

definition task_payload :: "string \<Rightarrow> jobj \<Rightarrow> jval" where
  "task_payload tid fs = JObj (fs @ [(''taskId'', JStr tid)])"

text \<open>An exception of the channel is swallowed here.\<close>

definition postReplayComplete :: "'p replay_ops \<Rightarrow> string \<Rightarrow> jobj \<Rightarrow> 'p runner \<Rightarrow> 'p runner" where
  "postReplayComplete ops tid fs w = snd (tell ops ''REPLAY_COMPLETE'' (task_payload tid fs) w)"

definition failure_fields :: "string \<Rightarrow> jobj" where
  "failure_fields m = [(''status'', JStr ''failure''), (''message'', JStr m)]"

definition result_fields :: "execution_result \<Rightarrow> jobj" where
  "result_fields r = [(''status'', JStr (status_string (resStatus r))), (''message'', JStr (resMessage r)),
     (''error'', case resError r of None \<Rightarrow> JUndef
        | Some e \<Rightarrow> JObj [(''type'', JStr (errType e)), (''message'', JStr (errMessage e))])]"

text \<open>The local state wins; the one of the background must be of this task and rule and still running.\<close>

definition persisted_prior :: "page_payload \<Rightarrow> replay_context option \<Rightarrow> worker_run_state option" where
  "persisted_prior pl ctx =
     (case Option.bind ctx rcControl of
        None \<Rightarrow> None
      | Some st \<Rightarrow> if wsTaskId st = plTaskId pl \<and> wsRuleId st = ruleIdOf (plRule pl) \<and> wsStatus st = Running then Some st else None)"

definition replay_prior :: "page_payload \<Rightarrow> bool \<Rightarrow> replay_context option \<Rightarrow> storage_area \<Rightarrow> worker_run_state option" where
  "replay_prior pl isResume ctx a =
     (if isResume then first_of (load_state replay_keys (plTaskId pl) a) (persisted_prior pl ctx) else None)"

definition stale_context :: "worker_run_state \<Rightarrow> replay_context option \<Rightarrow> string option" where
  "stale_context st ctx =
     (case ctx of
        None \<Rightarrow> None
      | Some c \<Rightarrow>
          if comparePath (rcLastCompleted c) (wsLastCompleted st) < 0
          then Some (''resume refused: ctx stale (ctx='' @ formatPath (rcLastCompleted c) @ '' < ss='' @ formatPath (wsLastCompleted st) @ '')'')
          else None)"

definition resume_refusal :: "'p replay_ops \<Rightarrow> worker_run_state \<Rightarrow> replay_context option \<Rightarrow> 'p \<Rightarrow> string option" where
  "resume_refusal ops st ctx p =
     (if wsExpectedUrl st = [] then Some ''resume refused: expectedUrl empty (first-step pre-checkpoint anomaly)''
      else (case (replayParse ops (wsExpectedUrl st), replayParse ops (replayHref ops p)) of
        (Some expected, Some actual) \<Rightarrow>
          if host actual \<noteq> host expected \<or> protocol actual \<noteq> protocol expected
             \<or> \<not> (wsSameOrigin st \<or> pathnameMatches (pathname actual) (pathname expected))
          then Some (''resume URL mismatch: '' @ replayHref ops p @ '' vs expected '' @ wsExpectedUrl st)
          else stale_context st ctx
      | _ \<Rightarrow> Some (''resume URL parse failed: '' @ replayHref ops p)))"

definition invalid_domains :: "rule \<Rightarrow> string list" where
  "invalid_domains rl = filter (\<lambda>d. \<not> isValidDomainEntry d) (domain rl)"

text \<open>The checks before a run, in their order\<close>

definition replay_refusal ::
  "'p replay_ops \<Rightarrow> page_payload \<Rightarrow> worker_run_state option \<Rightarrow> replay_context option \<Rightarrow> 'p \<Rightarrow> string option" where
  "replay_refusal ops pl prior ctx p =
     (case Option.bind prior (\<lambda>st. resume_refusal ops st ctx p) of
        Some m \<Rightarrow> Some m
      | None \<Rightarrow>
          if preflightRule (replayParse ops) (plRule pl) \<noteq> [] then Some (preflight_message (preflightRule (replayParse ops) (plRule pl)))
          else if invalid_domains (plRule pl) \<noteq> []
          then Some (''Domain entries too broad: '' @ join_strings '', '' (invalid_domains (plRule pl)))
          else if \<not> hostMatchesDomain (replayHostname ops p) (domain (plRule pl))
          then Some (''Domain mismatch: '' @ replayHostname ops p)
          else None)"


section \<open>One replay\<close>

definition replayUrl :: "'p replay_ops \<Rightarrow> 'p \<Rightarrow> string \<Rightarrow> string option" where
  "replayUrl ops p raw = normalizeRunUrl (replayParseFrom ops (replayHref ops p)) raw"

definition replay_expectation :: "'p replay_ops \<Rightarrow> checkpoint_state \<Rightarrow> 'p \<Rightarrow> (string \<times> bool) option" where
  "replay_expectation ops cp p =
     (case replayUrl ops p (replayHref ops p) of
        None \<Rightarrow> None
      | Some here \<Rightarrow>
          (case navigation cp of
             None \<Rightarrow> Some (here, False)
           | Some nav \<Rightarrow>
               (case replayUrl ops p (expectedUrl nav) of
                  Some u \<Rightarrow> Some (u, urlPolicy nav = SameOrigin)
                | None \<Rightarrow> Some (here, True))))"

definition context_message :: "string \<Rightarrow> checkpoint_state \<Rightarrow> worker_run_state \<Rightarrow> jval" where
  "context_message tid cp st = JObj [(''taskId'', JStr tid), (''lastCompletedStepPath'', path_value (lastCompletedStepPath cp)),
     (''extracted'', JObj (csExtracted cp)), (''evaluated'', JObj (csEvaluated cp)), (''captured'', JObj (csCaptured cp)),
     (''control'', run_state_value st), (''hooksCompleted'', JArr (map (\<lambda>h. JStr (hook_word h)) (hooksCompletedAt cp)))]"

definition checkpoint_control :: "worker_run_state \<Rightarrow> checkpoint_state \<Rightarrow> string \<times> bool \<Rightarrow> worker_run_state" where
  "checkpoint_control base_st cp x =
     base_st\<lparr>wsLastCompleted := lastCompletedStepPath cp, wsExpectedUrl := fst x, wsSameOrigin := snd x\<rparr>"

definition keep_checkpoint :: "'p replay_ops \<Rightarrow> checkpoint_state \<Rightarrow> worker_run_state \<Rightarrow> 'p runner \<Rightarrow> 'p runner" where
  "keep_checkpoint ops cp st w =
     snd (tell ops ''REPLAY_CONTEXT'' (context_message (wsTaskId st) cp st) (w\<lparr>rnSession := save_state replay_keys st (rnSession w)\<rparr>))"

definition replay_onCheckpoint :: "'p replay_ops \<Rightarrow> worker_run_state \<Rightarrow> checkpoint_state \<Rightarrow> ('p runner run_world, unit) run" where
  "replay_onCheckpoint ops base_st cp =
     (\<lambda>(c, rw). case replay_expectation ops cp (rnPage (inner rw)) of
        None \<Rightarrow> (Throw (invalid_url (replayHref ops (rnPage (inner rw)))), (c, rw))
      | Some x \<Rightarrow> (Ret (), (c, rw\<lparr>inner := keep_checkpoint ops cp (checkpoint_control base_st cp x) (inner rw)\<rparr>)))"

definition replay_onStepFailure :: "string \<Rightarrow> step_path \<Rightarrow> ('p runner run_world, unit) run" where
  "replay_onStepFailure tid path =
     (\<lambda>(c, rw). (Ret (), (c, case load_state replay_keys tid (rnSession (inner rw)) of
          None \<Rightarrow> rw
        | Some st \<Rightarrow> rw\<lparr>inner := (inner rw)\<lparr>rnSession :=
            save_state replay_keys (st\<lparr>wsLastCompleted := prevPendingPath path\<rparr>) (rnSession (inner rw))\<rparr>\<rparr>)))"

definition replay_options ::
  "'p replay_ops \<Rightarrow> page_payload \<Rightarrow> bool \<Rightarrow> worker_run_state option \<Rightarrow> replay_context option \<Rightarrow> worker_run_state
   \<Rightarrow> 'p runner executor_options" where
  "replay_options ops pl isResume prior ctx base_st = \<lparr>optRule = plRule pl, optTaskId = plTaskId pl, optWorkerId = plWorkerId pl,
     optVariables = (case plVariables pl of None \<Rightarrow> [] | Some vs \<Rightarrow> vs),
     resumeStepPath = Some (resume_point isResume prior),
     initialContext = (if isResume then map_option (\<lambda>c. (Some (rcExtracted c), Some (rcEvaluated c), Some (rcCaptured c))) ctx else None),
     initialHooksCompleted = (if isResume then Option.bind ctx rcHooks else None),
     onCheckpoint = Some (replay_onCheckpoint ops base_st),
     onStepFailureOpt = Some (replay_onStepFailure (plTaskId pl)), humanizeReplay = True\<rparr>"

definition report_replay :: "'p replay_ops \<Rightarrow> string \<Rightarrow> execution_result outcome \<Rightarrow> 'p runner \<Rightarrow> 'p runner" where
  "report_replay ops tid r w = postReplayComplete ops tid
     (case r of Ret res \<Rightarrow> result_fields res | Throw e \<Rightarrow> failure_fields (exn_message e)) w"

definition end_replay :: "string \<Rightarrow> 'p runner \<Rightarrow> 'p runner" where
  "end_replay tid w = w\<lparr>rnSession := clear_state replay_keys tid (rnSession w), rnActive := None\<rparr>"

definition execute_replay ::
  "'p replay_ops \<Rightarrow> ('p runner run_world env \<Rightarrow> 'p runner run_world handler) \<Rightarrow> page_payload \<Rightarrow> bool
   \<Rightarrow> worker_run_state option \<Rightarrow> replay_context option \<Rightarrow> worker_run_state \<Rightarrow> 'p runner \<Rightarrow> 'p runner" where
  "execute_replay ops exec pl isResume prior ctx base_st w =
     (let w1 = (if isResume then w else w\<lparr>rnSession := save_state replay_keys base_st (rnSession w)\<rparr>)
      in case runRule exec (replay_env ops (plRule pl)) (replay_options ops pl isResume prior ctx base_st) w1 of
           (r, (_, rw)) \<Rightarrow> end_replay (plTaskId pl) (report_replay ops (plTaskId pl) r (inner rw)))"

text \<open>A resume without a running state ends without a word. The state of another origin is stored here first.\<close>

definition no_running :: "worker_run_state option \<Rightarrow> bool" where
  "no_running prior \<longleftrightarrow> (case prior of None \<Rightarrow> True | Some st \<Rightarrow> wsStatus st \<noteq> Running)"

definition seed_state :: "string \<Rightarrow> worker_run_state option \<Rightarrow> 'p runner \<Rightarrow> 'p runner" where
  "seed_state tid prior w =
     (case prior of
        Some st \<Rightarrow> if load_state replay_keys tid (rnSession w) = None
                   then w\<lparr>rnSession := save_state replay_keys st (rnSession w)\<rparr> else w
      | None \<Rightarrow> w)"

definition runReplay ::
  "'p replay_ops \<Rightarrow> ('p runner run_world env \<Rightarrow> 'p runner run_world handler) \<Rightarrow> page_payload \<Rightarrow> bool
   \<Rightarrow> replay_context option \<Rightarrow> 'p runner \<Rightarrow> unit outcome \<times> 'p runner" where
  "runReplay ops exec pl isResume ctx w =
     (if rnActive w = Some (plTaskId pl) then (Ret (), w)
      else let prior = replay_prior pl isResume ctx (rnSession w)
        in if isResume \<and> no_running prior then (Ret (), w\<lparr>rnActive := None\<rparr>)
        else let w1 = seed_state (plTaskId pl) prior (w\<lparr>rnActive := Some (plTaskId pl)\<rparr>)
        in case replay_refusal ops pl prior ctx (rnPage w1) of
             Some m \<Rightarrow> (Ret (), (postReplayComplete ops (plTaskId pl) (failure_fields m) w1)\<lparr>rnActive := None\<rparr>)
           | None \<Rightarrow>
               (case normalizeRunUrl (replayParse ops) (replayHref ops (rnPage w1)) of
                  None \<Rightarrow> (Throw (invalid_url (replayHref ops (rnPage w1))), w1)
                | Some here \<Rightarrow> (Ret (), execute_replay ops exec pl isResume prior ctx (base_state pl here) w1)))"

text \<open>The two entry points the background calls\<close>

definition replay_boot ::
  "'p replay_ops \<Rightarrow> ('p runner run_world env \<Rightarrow> 'p runner run_world handler) \<Rightarrow> page_payload \<Rightarrow> 'p runner \<Rightarrow> unit outcome \<times> 'p runner" where
  "replay_boot ops exec pl w = runReplay ops exec pl False None w"

definition replay_autoResume ::
  "'p replay_ops \<Rightarrow> ('p runner run_world env \<Rightarrow> 'p runner run_world handler) \<Rightarrow> page_payload option
   \<Rightarrow> replay_context option \<Rightarrow> 'p runner \<Rightarrow> unit outcome \<times> 'p runner" where
  "replay_autoResume ops exec pl ctx w =
     (case first_of (read_active_state replay_keys (rnSession w)) (Option.bind ctx rcControl) of
        None \<Rightarrow> (Ret (), w)
      | Some st \<Rightarrow>
          if wsStatus st \<noteq> Running then (Ret (), w)
          else (case pl of
             None \<Rightarrow> (Ret (), w)
           | Some p \<Rightarrow> if plTaskId p \<noteq> wsTaskId st then (Ret (), w) else runReplay ops exec p True ctx w))"

end
