(* ===== verification/Dom_Serializer_Laws.thy ===== *)
theory Dom_Serializer_Laws
  imports Dom_Serializer
begin

text \<open>
  Properties of the semantic tree: the report counts its nodes, the limits bound its size and its depth,
  and it does not depend on the secrets of the page, the values and texts of sensitive fields.
\<close>

section \<open>Size\<close>

definition same_count :: "'a ser \<Rightarrow> bool" where
  "same_count m \<longleftrightarrow> (\<forall>r a r'. m r = Inr (a, r') \<longrightarrow> repNodes r' = repNodes r)"

lemma same_count_return [intro]: "same_count (returnG a)"
  by (simp add: same_count_def gen_Inr)

lemma same_count_bind [intro]: "same_count m \<Longrightarrow> (\<And>a. same_count (k a)) \<Longrightarrow> same_count (bindG m k)"
  unfolding same_count_def gen_Inr by metis

lemma same_count_map [intro]: "(\<And>x. same_count (f x)) \<Longrightarrow> same_count (mapG f xs)"
  by (induction xs) auto

lemma same_count_basic [intro]:
  "same_count (exceeded lm k)" "same_count count_redaction" "same_count count_removed" "same_count (when_ser b count_redaction)"
  by (auto simp: same_count_def exceeded_def count_redaction_def count_removed_def when_ser_def returnG_def split: if_splits)

lemma same_count_values [intro]:
  "same_count (cut_to_limit lm s)" "same_count (redactValue s)" "same_count (sanitizeUrl s)"
  by (auto simp: cut_to_limit_def redactValue_def sanitizeUrl_def Let_def split: option.split)

lemma same_count_text [intro]: "same_count (sanitizeText lm s b)"
  by (auto simp: sanitizeText_def Let_def)

lemma same_count_if [intro]: "same_count m \<Longrightarrow> same_count m' \<Longrightarrow> same_count (if b then m else m')"
  by simp

lemma same_count_attributes: "same_count (element_attributes lm el)"
proof -
  have "same_count (sanitize_attribute lm sen x)" for sen x
    unfolding sanitize_attribute_def Let_def
    by (intro same_count_if same_count_bind same_count_return same_count_values same_count_text)
  moreover have "same_count (preserveLiveFormState lm el sen as)" for sen as
    unfolding preserveLiveFormState_def by (auto split: option.split)
  ultimately show ?thesis unfolding element_attributes_def by (intro same_count_bind same_count_map)
qed

lemma attributes_count: "element_attributes lm el r = Inr (as, r') \<Longrightarrow> repNodes r' = repNodes r"
  using same_count_attributes unfolding same_count_def by blast

lemma exceeded_count: "exceeded lm k r = Inr (u, r') \<Longrightarrow> repNodes r' = repNodes r"
  using same_count_basic(1) unfolding same_count_def by blast

lemma text_count: "sanitizeText lm s b r = Inr (v, r') \<Longrightarrow> repNodes r' = repNodes r"
  using same_count_text unfolding same_count_def by blast

lemma consumeNode_count:
  "consumeNode lm r = Inr (ok, r') \<Longrightarrow> repNodes r' = repNodes r + (if ok then 1 else 0)
     \<and> (\<forall>n. limNodes lm = Some n \<longrightarrow> repNodes r \<le> n \<longrightarrow> repNodes r' \<le> n)"
  by (auto simp: consumeNode_def exceeded_def gen_Inr split: option.splits if_splits)

definition node_count :: "semantic_node option \<Rightarrow> nat" where
  "node_count x = (case x of None \<Rightarrow> 0 | Some t \<Rightarrow> estimateNodeCount t)"

text \<open>What one element does: the node is refused, or its attributes are written and one of three things happens\<close>

lemma serialize_element_cases:
  assumes "serialize_node lm depth b rn (LiveElement el cs) r = Inr (x, r')"
  obtains (skipped) "js_toLowerCase (leTag el) \<in> set SKIPPED_TAGS" "x = None" "r' = r\<lparr>repRemoved := repRemoved r + 1\<rparr>"
  | (refused) "consumeNode lm r = Inr (False, r')" "x = None"
  | (leaf) r1 r2 as e where "consumeNode lm r = Inr (True, r1)" "element_attributes lm el r1 = Inr (as, r2)"
      "x = Some (SemElement e [])" "r' = r2 \<or> exceeded lm ''depth'' r2 = Inr ((), r')"
  | (inner) r1 r2 as e xs where "consumeNode lm r = Inr (True, r1)" "element_attributes lm el r1 = Inr (as, r2)"
      "\<not> too_deep lm depth cs"
      "serialize_nodes lm (depth + 1) (isSensitiveElement el) (rn \<and> isElementSelfRendered el) cs r2 = Inr (xs, r')"
      "x = Some (SemElement e (concat (map (\<lambda>x. case x of None \<Rightarrow> [] | Some y \<Rightarrow> [y]) xs)))" "seFrame e = no_frame"
proof (cases "js_toLowerCase (leTag el) \<in> set SKIPPED_TAGS")
  case True
  then show thesis using assms skipped by (auto simp: gen_Inr count_removed_def)
next
  case False
  then obtain ok r1 where first: "consumeNode lm r = Inr (ok, r1)" using assms by (auto simp: gen_Inr)
  show thesis
  proof (cases ok)
    case False
    then show thesis using assms first \<open>js_toLowerCase (leTag el) \<notin> set SKIPPED_TAGS\<close> refused by (auto simp: gen_Inr)
  next
    case True
    then obtain as r2 where attrs: "element_attributes lm el r1 = Inr (as, r2)"
      using assms first False by (auto simp: gen_Inr)
    show thesis
      using assms first False attrs True leaf [OF _ attrs] inner [OF _ attrs]
      by (auto simp: gen_Inr Let_def bare_element_def split: if_splits)
  qed
qed

lemma sum_node_count: "sum_list (map estimateNodeCount (concat (map (\<lambda>x. case x of None \<Rightarrow> [] | Some y \<Rightarrow> [y]) xs)))
    = sum_list (map node_count xs)"
  by (induction xs) (simp_all add: node_count_def split: option.split)

definition counted :: "ser_limits \<Rightarrow> ser_report \<Rightarrow> nat \<Rightarrow> ser_report \<Rightarrow> bool" where
  "counted lm r n r' \<longleftrightarrow> repNodes r' = repNodes r + n \<and> (\<forall>m. limNodes lm = Some m \<longrightarrow> repNodes r \<le> m \<longrightarrow> repNodes r' \<le> m)"

lemma counted_trans: "counted lm r n r1 \<Longrightarrow> counted lm r1 k r2 \<Longrightarrow> counted lm r (n + k) r2"
  unfolding counted_def by (metis add.assoc)

lemma counted_consume: "consumeNode lm r = Inr (ok, r') \<Longrightarrow> counted lm r (if ok then 1 else 0) r'"
  using consumeNode_count unfolding counted_def .

lemma counted_same: "repNodes r' = repNodes r \<Longrightarrow> counted lm r 0 r'"
  by (simp add: counted_def)

lemma serialize_nodes_count:
  assumes "\<And>c depth b rn r x r'. c \<in> set cs \<Longrightarrow> serialize_node lm depth b rn c r = Inr (x, r') \<Longrightarrow> counted lm r (node_count x) r'"
  shows "serialize_nodes lm depth b rn cs r = Inr (xs, r') \<Longrightarrow> counted lm r (sum_list (map node_count xs)) r'"
  using assms
proof (induction cs arbitrary: r xs)
  case Nil
  then show ?case by (simp add: gen_Inr counted_same)
next
  case (Cons c cs)
  obtain x r1 ys where first: "serialize_node lm depth b rn c r = Inr (x, r1)"
      and rest: "serialize_nodes lm depth b rn cs r1 = Inr (ys, r')" "xs = x # ys"
    using Cons.prems(1) by (auto simp: gen_Inr)
  have "counted lm r (node_count x) r1" using Cons.prems(2) [OF _ first] by simp
  moreover have "counted lm r1 (sum_list (map node_count ys)) r'"
    by (rule Cons.IH [OF rest(1)]) (rule Cons.prems(2); simp)
  ultimately show ?case using rest(2) counted_trans by simp
qed

lemma serialize_node_count: "serialize_node lm depth b rn n r = Inr (x, r') \<Longrightarrow> counted lm r (node_count x) r'"
proof (induction n arbitrary: depth b rn r x r')
  case (LiveText raw)
  show ?case
  proof (cases "normal_text raw = []")
    case True
    then show ?thesis using LiveText by (auto simp: gen_Inr node_count_def counted_same)
  next
    case False
    then obtain ok r1 where first: "consumeNode lm r = Inr (ok, r1)"
      and rest: "if ok then \<exists>out e. sanitizeText lm (normal_text raw) b r1 = Inr (out, r') \<and> x = Some (SemText out e)
                 else x = None \<and> r' = r1"
      using LiveText by (auto simp: gen_Inr Let_def split: if_splits)
    then show ?thesis using counted_consume [OF first] text_count by (auto simp: node_count_def counted_def split: if_splits)
  qed
next
  case LiveComment
  then show ?case by (auto simp: gen_Inr count_removed_def node_count_def counted_same)
next
  case (LiveOther s)
  then show ?case by (auto simp: gen_Inr node_count_def counted_same)
next
  case (LiveElement el cs)
  from LiveElement.prems show ?case
  proof (cases rule: serialize_element_cases)
    case skipped
    then show ?thesis by (simp add: node_count_def counted_same)
  next
    case refused
    then show ?thesis using counted_consume [OF refused(1)] by (simp add: node_count_def)
  next
    case (leaf r1 r2 as e)
    then have "repNodes r' = repNodes r1" using attributes_count exceeded_count by metis
    then show ?thesis
      using counted_trans [OF counted_consume [OF leaf(1)] counted_same] leaf(3) by (simp add: node_count_def)
  next
    case (inner r1 r2 as e xs)
    have "counted lm r2 (sum_list (map node_count xs)) r'"
      by (rule serialize_nodes_count [OF _ inner(4)]) (rule LiveElement.IH)
    then have "counted lm r (1 + sum_list (map node_count xs)) r'"
      using counted_trans [OF counted_trans [OF counted_consume [OF inner(1)] counted_same [OF attributes_count [OF inner(2)]]]]
      by fastforce
    then show ?thesis using inner(5) sum_node_count by (simp add: node_count_def)
  qed
qed

text \<open>C29. The report of a serialisation counts exactly the nodes of its tree, and never more than the limit.\<close>

theorem report_counts_nodes:
  assumes "serializeDomWithReport lm ancestors (Some n) = Inr (Some t, rep)"
  shows "repNodes rep = estimateNodeCount t \<and> (case limNodes lm of None \<Rightarrow> True | Some m \<Rightarrow> estimateNodeCount t \<le> m)"
  using serialize_node_count [of lm 0 False "renderedAncestors ancestors" n empty_report "Some t" rep] assms
  by (auto simp: serializeDomWithReport_def counted_def node_count_def empty_report_def split: option.split)


section \<open>Secrets\<close>

text \<open>
  The secrets of a page are the values, placeholders and titles of sensitive elements and the texts right
  below them. A disguise changes every secret, but not whether it is blank, has the normal form of a
  text, or looks like a beginning of the placeholder.
\<close>

definition SECRET_ATTRIBUTES :: "string list" where
  "SECRET_ATTRIBUTES = [''value'', ''placeholder'', ''title'']"

definition hiding :: "(string \<Rightarrow> string) \<Rightarrow> bool" where
  "hiding f \<longleftrightarrow> (\<forall>s. (prefix s REDACTED_VALUE \<longrightarrow> f s = s) \<and> (prefix (f s) REDACTED_VALUE \<longrightarrow> f s = s)
     \<and> (prefix (normal_text s) REDACTED_VALUE \<or> prefix (normal_text (f s)) REDACTED_VALUE \<longrightarrow> normal_text (f s) = normal_text s)
     \<and> (normal_text (f s) = f s \<longleftrightarrow> normal_text s = s) \<and> (js_trim (f s) = [] \<longleftrightarrow> js_trim s = []))"

definition disguise_secret :: "(string \<Rightarrow> string) \<Rightarrow> string \<Rightarrow> string \<Rightarrow> string" where
  "disguise_secret f k v = (if js_toLowerCase k \<in> set SECRET_ATTRIBUTES then f v else v)"

definition disguised_element :: "(string \<Rightarrow> string) \<Rightarrow> live_element \<Rightarrow> live_element" where
  "disguised_element f el =
     (if isSensitiveElement el
      then el\<lparr>leAttrs := map (\<lambda>(k, v). (k, disguise_secret f k v)) (leAttrs el),
              leForm := (case leForm el of InputField v c \<Rightarrow> InputField (f v) c | TextAreaField v \<Rightarrow> TextAreaField (f v) | x \<Rightarrow> x)\<rparr>
      else el)"

fun disguised :: "(string \<Rightarrow> string) \<Rightarrow> bool \<Rightarrow> live_node \<Rightarrow> live_node" where
  "disguised f b (LiveText s) = LiveText (if b then f s else s)"
| "disguised f b (LiveElement el cs) = LiveElement (disguised_element f el) (map (disguised f (isSensitiveElement el)) cs)"
| "disguised f b n = n"

lemma hiding_prefix: "hiding f \<Longrightarrow> prefix p REDACTED_VALUE \<Longrightarrow> f s = p \<longleftrightarrow> s = p"
  unfolding hiding_def by metis

lemma hiding_normal: "hiding f \<Longrightarrow> prefix p REDACTED_VALUE \<Longrightarrow> normal_text (f s) = p \<longleftrightarrow> normal_text s = p"
  unfolding hiding_def by metis

lemma hiding_blank: "hiding f \<Longrightarrow> f s = [] \<longleftrightarrow> s = []" "hiding f \<Longrightarrow> normal_text (f s) = [] \<longleftrightarrow> normal_text s = []"
  using hiding_prefix [of f "[]"] hiding_normal [of f "[]"] by simp_all

lemma disguised_attr: "js_toLowerCase k \<notin> set SECRET_ATTRIBUTES \<Longrightarrow> attr_of (disguised_element f el) k = attr_of el k"
proof -
  assume "js_toLowerCase k \<notin> set SECRET_ATTRIBUTES"
  then have "map_of (map (\<lambda>(k, v). (k, disguise_secret f k v)) as) k = map_of as k" for as
    by (induction as) (auto simp: disguise_secret_def)
  then show ?thesis by (simp add: attr_of_def disguised_element_def)
qed

lemma disguised_tag [simp]: "leTag (disguised_element f el) = leTag el" "leStyle (disguised_element f el) = leStyle el"
  "leDisabled (disguised_element f el) = leDisabled el"
  by (simp_all add: disguised_element_def)

lemma other_names:
  "js_toLowerCase ''type'' \<notin> set SECRET_ATTRIBUTES" "js_toLowerCase ''name'' \<notin> set SECRET_ATTRIBUTES"
  "js_toLowerCase ''id'' \<notin> set SECRET_ATTRIBUTES" "js_toLowerCase ''aria-label'' \<notin> set SECRET_ATTRIBUTES"
  "js_toLowerCase ''autocomplete'' \<notin> set SECRET_ATTRIBUTES" "js_toLowerCase ''hidden'' \<notin> set SECRET_ATTRIBUTES"
  "js_toLowerCase ''aria-hidden'' \<notin> set SECRET_ATTRIBUTES"
  by code_simp+

lemmas disguised_attrs = other_names [THEN disguised_attr]

lemma disguised_sensitive [simp]: "isSensitiveElement (disguised_element f el) = isSensitiveElement el"
  by (simp only: isSensitiveElement_def identity_of_def disguised_attrs list.map)

lemma disguised_rendered [simp]: "isElementSelfRendered (disguised_element f el) = isElementSelfRendered el"
  by (simp only: isElementSelfRendered_def trimmed_is_def disguised_attrs disguised_tag)

lemma disguised_semantic [simp]: "hiding f \<Longrightarrow> isSemanticNode (disguised f b n) = isSemanticNode n"
  by (cases n) (auto simp: isSemanticNode_def hiding_def)

lemma disguised_omitted [simp]: "hiding f \<Longrightarrow> recordOmittedChild (disguised f b n) e = recordOmittedChild n e"
  by (cases n) (auto simp: recordOmittedChild_def omitted_text_def hiding_blank)


text \<open>What is written of a secret is a beginning of the placeholder, and the same for every disguise.\<close>

lemma written_secret:
  assumes "hiding f" and "js_toLowerCase k \<in> set SECRET_ATTRIBUTES"
  shows "sanitize_attribute lm True (k, f v) = sanitize_attribute lm True (k, v)"
    and "sanitize_attribute lm True (k, v) r = Inr (as, r') \<Longrightarrow> (j, w) \<in> set as \<Longrightarrow> prefix w REDACTED_VALUE"
proof -
  have k: "js_toLowerCase k \<noteq> ''class''" "js_toLowerCase k \<notin> set URL_ATTRIBUTES"
      "js_toLowerCase k = ''value'' \<or> js_toLowerCase k = ''placeholder'' \<or> js_toLowerCase k = ''title''"
    using assms(2) by (auto simp: SECRET_ATTRIBUTES_def URL_ATTRIBUTES_def)
  have "redactValue (f v) = redactValue v" by (simp add: redactValue_def hiding_blank [OF assms(1)])
  moreover have "sanitizeText lm (f v) True = sanitizeText lm v True"
    using hiding_prefix [OF assms(1), of "[]" v] by (auto simp: sanitizeText_def)
  ultimately show "sanitize_attribute lm True (k, f v) = sanitize_attribute lm True (k, v)"
    using k by (auto simp: sanitize_attribute_def Let_def)
  have "redactSensitiveText [] = []" by code_simp
  then have forced: "sanitizeText lm v True r = Inr (w, r') \<Longrightarrow> prefix w REDACTED_VALUE" for r w r'
    by (auto simp: sanitizeText_def cut_to_limit_def gen_Inr Let_def take_is_prefix split: if_splits option.splits)
  have val: "redactValue v r = Inr (w, r') \<Longrightarrow> prefix w REDACTED_VALUE" for r w r'
    by (auto simp: redactValue_def gen_Inr split: if_splits)
  assume run: "sanitize_attribute lm True (k, v) r = Inr (as, r')" and "(j, w) \<in> set as"
  then have "(\<exists>r1. redactValue v r = Inr (w, r1)) \<or> (\<exists>r1. sanitizeText lm v True r = Inr (w, r1))"
    using k by (auto simp: sanitize_attribute_def Let_def gen_Inr split: if_splits)
  then show "prefix w REDACTED_VALUE" using forced val by blast
qed


lemma bindG_eq:
  "m r = m' r \<Longrightarrow> (\<And>a r'. m r = Inr (a, r') \<Longrightarrow> k a r' = k' a r') \<Longrightarrow> bindG m k r = bindG m' k' r"
  by (auto simp: bindG_def split: sum.split)

lemma mapG_eq: "(\<And>x r. x \<in> set xs \<Longrightarrow> f x r = g x r) \<Longrightarrow> mapG f xs r = mapG g xs r"
  by (induction xs arbitrary: r) (auto intro!: bindG_eq)

lemma mapG_map: "mapG f (map g xs) = mapG (f \<circ> g) xs"
  by (induction xs) simp_all

lemma mapG_results: "mapG f xs r = Inr (ys, r') \<Longrightarrow> y \<in> set ys \<Longrightarrow> \<exists>x \<in> set xs. \<exists>r1 r2. f x r1 = Inr (y, r2)"
proof (induction xs arbitrary: r ys)
  case (Cons x xs)
  then obtain z r1 zs where "f x r = Inr (z, r1)" "mapG f xs r1 = Inr (zs, r')" "ys = z # zs" by (auto simp: gen_Inr)
  then show ?case using Cons.IH [of r1 zs] Cons.prems(2) by auto
qed (simp add: gen_Inr)

text \<open>The attributes that are written of a sensitive element\<close>

lemma sanitize_attribute_name: "sanitize_attribute lm b (k, v) r = Inr (as, r') \<Longrightarrow> (j, w) \<in> set as \<Longrightarrow> j = js_toLowerCase k"
  by (auto simp: sanitize_attribute_def Let_def gen_Inr split: if_splits)

lemma lower_twice: "js_toLowerCase (js_toLowerCase s) = js_toLowerCase s"
proof -
  have "lower_char (lower_char c) = lower_char c" for c
  proof (cases "(65 \<le> (of_char c :: nat) \<and> (of_char c :: nat) \<le> 90) \<or> (192 \<le> (of_char c :: nat) \<and> (of_char c :: nat) \<le> 222 \<and> (of_char c :: nat) \<noteq> 215)")
    case True
    then have "(of_char c :: nat) + 32 < 256" by auto
    then have "(of_char (char_of ((of_char c :: nat) + 32) :: char) :: nat) = of_char c + 32"
      by (simp add: of_char_of)
    then show ?thesis using True unfolding lower_char_def Let_def by auto
  next
    case False
    then have "lower_char c = c" unfolding lower_char_def Let_def by auto
    then show ?thesis by simp
  qed
  then show ?thesis by (simp add: js_toLowerCase_def)
qed


lemma disguised_attributes:
  assumes "hiding f"
  shows "element_attributes lm (disguised_element f el) r = element_attributes lm el r"
proof (cases "isSensitiveElement el")
  case False
  then show ?thesis by (simp add: disguised_element_def)
next
  case True
  let ?el = "disguised_element f el"
  have attrs: "leAttrs ?el = map (\<lambda>(k, v). (k, disguise_secret f k v)) (leAttrs el)"
    using True by (simp add: disguised_element_def)
  have each: "sanitize_attribute lm True (k, disguise_secret f k v) = sanitize_attribute lm True (k, v)" for k v
    using written_secret(1) [OF assms] by (simp add: disguise_secret_def)
  have "mapG (sanitize_attribute lm True) (leAttrs ?el) r = mapG (sanitize_attribute lm True) (leAttrs el) r"
    unfolding attrs mapG_map by (rule mapG_eq) (auto simp: each)
  moreover have "redactValue (f v) = redactValue v" for v by (simp add: redactValue_def hiding_blank [OF assms])
  then have "preserveLiveFormState lm ?el True as = preserveLiveFormState lm el True as" for as
    using True by (cases "leForm el")
      (simp_all add: preserveLiveFormState_def live_value_def checked_attr_def disguised_element_def disabled_attr_def)
  ultimately show ?thesis unfolding element_attributes_def disguised_sensitive using True by (simp add: bindG_def)
qed

lemma in_al_set_value: "(k, w) \<in> set (al_set j x as) \<Longrightarrow> (k, w) \<in> set as \<or> k = j \<and> w = x"
  by (induction as) (auto split: if_splits)

lemma state_attrs: "(k, w) \<in> set (disabled_attr el (checked_attr el as)) \<Longrightarrow> k \<in> set SECRET_ATTRIBUTES \<Longrightarrow> (k, w) \<in> set as"
  by (auto simp: disabled_attr_def checked_attr_def SECRET_ATTRIBUTES_def dest!: in_al_set_value
      split: form_state.splits bool.splits if_splits)

text \<open>In the attributes of a sensitive element, a secret one holds a beginning of the placeholder.\<close>

lemma secret_attributes_written:
  assumes "isSensitiveElement el" and "element_attributes lm el r = Inr (as, r')" and "(k, w) \<in> set as"
    and "k \<in> set SECRET_ATTRIBUTES"
  shows "prefix w REDACTED_VALUE"
proof -
  have hid: "hiding id" by (simp add: hiding_def)
  obtain ass r1 bs where run: "mapG (sanitize_attribute lm True) (leAttrs el) r = Inr (ass, r1)"
      and live: "(case live_value el of None \<Rightarrow> returnG (concat ass)
          | Some v \<Rightarrow> bindG (if True then redactValue v else sanitizeText lm v False)
              (\<lambda>x. returnG (al_set ''value'' x (concat ass)))) r1 = Inr (bs, r')"
      and as: "as = disabled_attr el (checked_attr el bs)"
    using assms(1,2) by (auto simp: element_attributes_def preserveLiveFormState_def gen_Inr)
  have "(k, w) \<in> set bs" using state_attrs assms(3,4) unfolding as by blast
  then have "(k, w) \<in> set (concat ass) \<or> (\<exists>v r2. redactValue v r1 = Inr (w, r2))"
    using live by (auto simp: gen_Inr dest: in_al_set_value split: option.splits)
  then show ?thesis
  proof
    assume "(k, w) \<in> set (concat ass)"
    then obtain bs where "bs \<in> set ass" "(k, w) \<in> set bs" by auto
    then obtain j v r2 r3 where "sanitize_attribute lm True (j, v) r2 = Inr (bs, r3)" "k = js_toLowerCase j"
      using mapG_results [OF run] sanitize_attribute_name by (metis surj_pair)
    then show ?thesis using written_secret(2) [OF hid] assms(4) \<open>(k, w) \<in> set bs\<close> by blast
  next
    assume "\<exists>v r2. redactValue v r1 = Inr (w, r2)"
    then show ?thesis by (auto simp: redactValue_def gen_Inr split: if_splits)
  qed
qed


text \<open>So the evidence about the attributes is the same, too.\<close>

lemma js_map_values:
  "js_map (map (\<lambda>(k, v). (k, g k v)) kvs) = map (\<lambda>(k, v). (k, g k v)) (js_map kvs)"
proof -
  have set: "al_set k (g k v) (map (\<lambda>(k, v). (k, g k v)) acc) = map (\<lambda>(k, v). (k, g k v)) (al_set k v acc)" for k v acc
    by (induction acc) auto
  have "fold (\<lambda>(k, v) acc. al_set k v acc) (map (\<lambda>(k, v). (k, g k v)) kvs) (map (\<lambda>(k, v). (k, g k v)) acc)
      = map (\<lambda>(k, v). (k, g k v)) (fold (\<lambda>(k, v) acc. al_set k v acc) kvs acc)" for acc
    by (induction kvs arbitrary: acc) (auto simp: set)
  from this [of "[]"] show ?thesis by (simp add: js_map_def)
qed

lemma js_map_in: "map_of (js_map kvs) k = Some v \<Longrightarrow> (k, v) \<in> set kvs"
proof -
  have "map_of (fold (\<lambda>(k, v) acc. al_set k v acc) kvs acc) k = Some v \<Longrightarrow> (k, v) \<in> set kvs \<or> map_of acc k = Some v" for acc
  proof (induction kvs arbitrary: acc)
    case (Cons kv kvs)
    obtain a b where "kv = (a, b)" by (cases kv)
    then show ?case using Cons.IH [of "al_set a b acc"] Cons.prems by (auto split: if_splits)
  qed simp
  from this [of "[]"] show "map_of (js_map kvs) k = Some v \<Longrightarrow> (k, v) \<in> set kvs" by (simp add: js_map_def)
qed

lemma altered_names_values:
  assumes "\<And>k v. (k, v) \<in> set original \<Longrightarrow> map_of recorded k = Some (g k v) \<longleftrightarrow> map_of recorded k = Some v"
  shows "altered_names (map (\<lambda>(k, v). (k, g k v)) original) recorded = altered_names original recorded"
proof -
  have "map fst (filter (\<lambda>(k, v). map_of recorded k \<noteq> None \<and> map_of recorded k \<noteq> Some v) (map (\<lambda>(k, v). (k, g k v)) os))
      = map fst (filter (\<lambda>(k, v). map_of recorded k \<noteq> None \<and> map_of recorded k \<noteq> Some v) os)" if "set os \<subseteq> set original" for os
    using that assms by (induction os) auto
  moreover have "map_of (map (\<lambda>(k, v). (k, g k v)) original) k = None \<longleftrightarrow> map_of original k = None" for k
    by (induction original) auto
  ultimately show ?thesis unfolding altered_names_def by simp
qed

lemma disguised_evidence:
  assumes "hiding f" and "element_attributes lm el r = Inr (as, r')"
  shows "recordAttributeSanitization (disguised_element f el) as e = recordAttributeSanitization el as e"
proof (cases "isSensitiveElement el")
  case False
  then show ?thesis by (simp add: disguised_element_def)
next
  case True
  let ?g = "\<lambda>k v. if k \<in> set SECRET_ATTRIBUTES then f v else v"
  let ?low = "map (\<lambda>(k, v). (js_toLowerCase k, v)) (leAttrs el)"
  have "map (\<lambda>(k, v). (js_toLowerCase k, v)) (leAttrs (disguised_element f el)) = map (\<lambda>(k, v). (k, ?g k v)) ?low"
    using True by (auto simp: disguised_element_def disguise_secret_def)
  then have original: "js_map (map (\<lambda>(k, v). (js_toLowerCase k, v)) (leAttrs (disguised_element f el)))
      = map (\<lambda>(k, v). (k, ?g k v)) (js_map ?low)"
    by (simp only: js_map_values)
  have "map_of (js_map as) k = Some (?g k v) \<longleftrightarrow> map_of (js_map as) k = Some v" for k v
  proof (cases "k \<in> set SECRET_ATTRIBUTES \<and> map_of (js_map as) k \<noteq> None")
    case True
    then obtain w where w: "map_of (js_map as) k = Some w" by auto
    have "prefix w REDACTED_VALUE"
      using secret_attributes_written [OF \<open>isSensitiveElement el\<close> assms(2) js_map_in [OF w]] True by blast
    then show ?thesis using hiding_prefix [OF assms(1), of w v] True w by auto
  qed auto
  then have altered: "altered_names (map (\<lambda>(k, v). (k, ?g k v)) (js_map ?low)) (js_map as) = altered_names (js_map ?low) (js_map as)"
    by (intro altered_names_values)
  have "list_ex (\<lambda>(k, v). map_of (js_map as) k = None) (map (\<lambda>(k, v). (k, ?g k v)) os) \<longleftrightarrow> list_ex (\<lambda>(k, v). map_of (js_map as) k = None) os" for os
    by (induction os) auto
  then show ?thesis unfolding recordAttributeSanitization_def original Let_def altered by simp
qed


lemma disguised_text:
  assumes "hiding f"
  shows "serialize_node lm depth True rn (LiveText (f s)) r = serialize_node lm depth True rn (LiveText s) r"
proof (cases "normal_text s = []")
  case True
  then show ?thesis using hiding_blank(2) [OF assms] by simp
next
  case False
  then have blank: "normal_text (f s) \<noteq> []" using hiding_blank(2) [OF assms] by simp
  have normal: "normal_text (f s) = f s \<longleftrightarrow> normal_text s = s" using assms unfolding hiding_def by blast
  have forced: "sanitizeText lm (normal_text (f s)) True = sanitizeText lm (normal_text s) True"
    using False blank by (simp add: sanitizeText_def)
  have "text_evidence (f s) (normal_text (f s)) out = text_evidence s (normal_text s) out"
    if "sanitizeText lm (normal_text s) True r1 = Inr (out, r2)" for out r1 r2
  proof -
    have "prefix out REDACTED_VALUE"
      using that False by (auto simp: sanitizeText_def cut_to_limit_def gen_Inr take_is_prefix split: if_splits option.splits)
    then have "normal_text (f s) = out \<longleftrightarrow> normal_text s = out" by (rule hiding_normal [OF assms])
    then show ?thesis using normal unfolding text_evidence_def Let_def by auto
  qed
  then show ?thesis
    using False blank unfolding serialize_node.simps Let_def forced
    by (simp only: if_False) (intro bindG_eq refl; simp split: if_splits; intro bindG_eq refl impI; simp add: returnG_def)
qed

lemma disguised_omit_all: "hiding f \<Longrightarrow> omit_all (map (disguised f b) cs) e = omit_all cs e"
  unfolding omit_all_def by (induction cs arbitrary: e) simp_all

lemma disguised_omit_missing: "hiding f \<Longrightarrow> omit_missing (zip (map (disguised f b) cs) xs) e = omit_missing (zip cs xs) e"
  unfolding omit_missing_def
proof (induction cs arbitrary: xs e)
  case (Cons c cs)
  then show ?case by (cases xs) (auto split: option.split)
qed simp

lemma disguised_node:
  assumes "hiding f"
  shows "serialize_node lm depth b rn (disguised f b n) r = serialize_node lm depth b rn n r"
proof (induction n arbitrary: depth b rn r)
  case (LiveText s)
  then show ?case using disguised_text [OF assms] by (cases b) simp_all
next
  case (LiveElement el cs)
  have nodes: "serialize_nodes lm d sen rend (map (disguised f sen) cs) r = serialize_nodes lm d sen rend cs r" for d sen rend r
    using LiveElement.IH by (induction cs arbitrary: r) (auto intro!: bindG_eq)
  have deep: "too_deep lm depth (map (disguised f sen) cs) = too_deep lm depth cs" for sen
    using assms by (induction cs) (auto simp: too_deep_def split: option.split)
  have bare: "bare_element (disguised_element f el) as rend = bare_element el as rend"
    if "element_attributes lm el r1 = Inr (as, r2)" for as rend r1 r2
    using disguised_evidence [OF assms that] by (simp add: bare_element_def)
  show ?case
    unfolding disguised.simps serialize_node.simps disguised_tag disguised_sensitive disguised_rendered Let_def deep
      disguised_omit_all [OF assms] disguised_omit_missing [OF assms]
  proof (cases "js_toLowerCase (leTag el) \<in> set SKIPPED_TAGS", simp_all only: if_True if_False, intro bindG_eq refl, goal_cases)
    case (1 ok r1)
    show ?case
    proof (cases ok, simp_all only: not_True_eq_False not_False_eq_True if_True if_False,
        intro bindG_eq disguised_attributes [OF assms], goal_cases)
      case (1 as r2)
      have same: "bare_element (disguised_element f el) as rend = bare_element el as rend" for rend
        by (rule bare) (use 1 in \<open>simp add: disguised_attributes [OF assms]\<close>)
      show ?case unfolding same
        by (simp split del: if_split cong: if_cong) (auto intro!: bindG_eq nodes)
    qed
  qed
qed simp_all

text \<open>C30. The semantic tree of a page and its report do not depend on the secrets in it: changing the values,
  placeholders and titles of the sensitive elements, the live ones of their fields and the texts right
  below them changes nothing.\<close>

theorem serialization_hides_secrets:
  assumes "hiding f"
  shows "serializeDomWithReport lm ancestors (Some (disguised f False n)) = serializeDomWithReport lm ancestors (Some n)"
  by (simp add: serializeDomWithReport_def disguised_node [OF assms])

section \<open>A login form\<close>

definition live_el :: "string \<Rightarrow> (string \<times> string) list \<Rightarrow> form_state \<Rightarrow> live_element" where
  "live_el tag as form = \<lparr>leTag = tag, leAttrs = as, leStyle = NoView, leForm = form, leDisabled = False\<rparr>"

definition login_form :: live_node where
  "login_form = LiveElement (live_el ''FORM'' [(''action'', ''/login?token=abc'')] NoField)
     [LiveText '' Sign  in '', LiveComment,
      LiveElement (live_el ''INPUT'' [(''type'', ''password''), (''value'', [])] (InputField ''hunter2'' False)) [],
      LiveElement (live_el ''SCRIPT'' [] NoField) [LiveText ''var x'']]"

definition page_limits :: ser_limits where
  "page_limits = \<lparr>limNodes = Some 10, limDepth = Some 5, limText = Some 200, limAttrs = DEFAULT_ALLOWED_ATTRS, limStrict = False\<rparr>"

definition other_password :: "string \<Rightarrow> string" where
  "other_password s = (if s = ''hunter2'' then ''swordfish'' else s)"

lemma other_password_hides: "hiding other_password"
proof -
  have "\<not> prefix ''hunter2'' REDACTED_VALUE" "\<not> prefix ''swordfish'' REDACTED_VALUE" "normal_text ''hunter2'' = ''hunter2''"
    "normal_text ''swordfish'' = ''swordfish''" "js_trim ''hunter2'' \<noteq> []" "js_trim ''swordfish'' \<noteq> []"
    by code_simp+
  then show ?thesis unfolding hiding_def other_password_def by (simp split: if_split)
qed

lemma login_tree:
  "serializeDomWithReport page_limits [] (Some login_form) = Inr (
     Some (SemElement \<lparr>seTag = ''form'', seAttrs = [(''action'', ''/login?[REDACTED]'')], seRendered = True,
         seEvidence = \<lparr>markupAltered = True, contentOmitted = True, alteredAttributes = [''action'']\<rparr>, seFrame = no_frame\<rparr>
       [SemText ''Sign in'' (mergeSanitization no_evidence markup_altered),
        SemElement \<lparr>seTag = ''input'', seAttrs = [(''type'', ''password''), (''value'', ''[REDACTED]'')], seRendered = True,
          seEvidence = \<lparr>markupAltered = True, contentOmitted = False, alteredAttributes = [''value'']\<rparr>, seFrame = no_frame\<rparr> []]),
     \<lparr>repNodes = 3, repRedactions = 2, repRemoved = 2, repTruncated = False\<rparr>)"
  by code_simp

theorem report_counts_nodes_witness:
  "\<exists>t rep. serializeDomWithReport page_limits [] (Some login_form) = Inr (Some t, rep) \<and> repNodes rep = estimateNodeCount t
     \<and> estimateNodeCount t \<le> 10"
  using report_counts_nodes [OF login_tree] login_tree by (auto simp: page_limits_def)

theorem serialization_hides_secrets_witness:
  "serializeDomWithReport page_limits [] (Some (disguised other_password False login_form))
     = serializeDomWithReport page_limits [] (Some login_form)
   \<and> disguised other_password False login_form \<noteq> login_form"
proof
  show "serializeDomWithReport page_limits [] (Some (disguised other_password False login_form))
     = serializeDomWithReport page_limits [] (Some login_form)"
    by (rule serialization_hides_secrets [OF other_password_hides])
  show "disguised other_password False login_form \<noteq> login_form" by code_simp
qed

text \<open>
  What is not hidden: the pattern of assigned secrets takes the scheme of an authorization header for the
  secret, so the token behind it stays; and the text of an element inside a sensitive one is not forced.
\<close>

lemma bearer_token_kept: "redactSensitiveText ''Authorization: Bearer s3cr3t'' = ''[REDACTED] s3cr3t''"
  by code_simp

lemma nested_secret_kept:
  "serializeDomWithReport page_limits [] (Some (LiveElement (live_el ''div'' [(''id'', ''password'')] NoField)
       [LiveText ''hunter2'', LiveElement (live_el ''b'' [] NoField) [LiveText ''hunter2'']]))
   = Inr (Some (SemElement (bare_element (live_el ''div'' [(''id'', ''password'')] NoField) [(''id'', ''password'')] True)
       [SemText ''[REDACTED]'' (mergeSanitization no_evidence content_omitted),
        SemElement (bare_element (live_el ''b'' [] NoField) [] True) [SemText ''hunter2'' no_evidence]]),
     \<lparr>repNodes = 4, repRedactions = 1, repRemoved = 0, repTruncated = False\<rparr>)"
  by code_simp

end
