(* ===== verification/Replay_Runner_Laws.thy ===== *)
theory Replay_Runner_Laws
  imports Replay_Runner Worker_Page_Laws Dom_Serializer_Laws
begin

text \<open>
  Properties of the replay runner: a replay that starts reports one completion as its last message and
  leaves nothing behind; the final marker of the engine is not sent; a checkpoint lets the replay go on in a
  page of another origin, whose storage is empty; and the snapshots it sends are bounded and do not
  depend on the secrets of the page.
\<close>

section \<open>What the environment may send\<close>

definition progress_ok :: "jval \<Rightarrow> bool" where
  "progress_ok v \<longleftrightarrow> \<not> (get_prop v ''type'' = JStr ''result'' \<and> truthy (get_prop v ''payload'') \<and> truthy (get_prop (get_prop v ''payload'') ''__final''))"

locale replay_discipline = world_discipline R for R :: "nat \<Rightarrow> 'p runner \<Rightarrow> 'p runner \<Rightarrow> bool" +
  assumes blind: "R 0 w (w\<lparr>rnPage := p\<rparr>)"
    and told: "progress_ok v \<Longrightarrow> R 0 w (w\<lparr>rnSent := rnSent w @ [runtime_message ''REPLAY_PROGRESS'' v], rnPage := p\<rparr>)"
begin

lemma eff_on_page: "eff R 0 (on_replay_page m)"
  unfolding eff_def on_replay_page_def using blind by (auto split: prod.splits)

lemma eff_postProgress: "progress_ok v \<Longrightarrow> eff R 0 (postProgress ops v)"
  unfolding eff_def postProgress_def tell_def using told blind stay
  by (auto split: prod.splits option.splits if_splits)

lemma eff_sendResult: "eff R 0 (replay_sendResult ops v i)"
  unfolding replay_sendResult_def
  by (auto intro!: eff_postProgress eff_pure simp: progress_ok_def progress_of_def obj_get_def)

lemma other_progress: "k \<noteq> ''result'' \<Longrightarrow> progress_ok (progress_of k fs)"
  by (simp add: progress_ok_def progress_of_def obj_get_def)

lemma env_free_replay: "env_free R (replay_env ops rl)"
proof -
  have snap: "eff R 0 (replay_sendSnapshot ops v)" for v
  proof -
    have "eff R 0 (postProgress ops (progress_of ''snapshot'' fs))" for fs by (intro eff_postProgress other_progress) simp
    then show ?thesis unfolding replay_sendSnapshot_def eff_def by blast
  qed
  have logs: "eff R 0 (replay_sendLog ops l m x)" "eff R 0 (replay_sendStatus ops l m)" for l m x
    unfolding replay_sendLog_def replay_sendStatus_def by (intro eff_postProgress other_progress; simp)+
  show ?thesis
    unfolding env_free_def services_free_def lookups_free_def replay_env_def Let_def
    by (auto simp: eff_on_page eff_sendResult snap logs eff_pure)
qed

end

definition message_kind :: "jval \<Rightarrow> jval" where
  "message_kind m = get_prop m ''action''"

lemma message_kind [simp]: "message_kind (runtime_message k v) = JStr k"
  by (simp add: message_kind_def runtime_message_def obj_get_def)

text \<open>How many completions were sent, and whether a final marker was\<close>

definition completed_count :: "'p runner \<Rightarrow> nat" where
  "completed_count w = length (filter (\<lambda>m. message_kind m = JStr ''REPLAY_COMPLETE'') (rnSent w))"

definition no_final_sent :: "'p runner \<Rightarrow> bool" where
  "no_final_sent w \<longleftrightarrow> list_all (\<lambda>m. message_kind m = JStr ''REPLAY_PROGRESS'' \<longrightarrow> progress_ok (get_prop m ''payload'')) (rnSent w)"

interpretation replay_completing: replay_discipline "keeps completed_count"
  by unfold_locales (auto simp: keeps_def completed_count_def)

interpretation replay_markers: replay_discipline "preserves no_final_sent"
  by unfold_locales (auto simp: preserves_def no_final_sent_def runtime_message_def obj_get_def)

lemma tell_sent:
  assumes "tell ops k v w = (x, w')"
  shows "rnSent w' = rnSent w \<or> rnSent w' = rnSent w @ [runtime_message k v]"
    and "rnSession w' = rnSession w" and "rnActive w' = rnActive w"
  using assms by (auto simp: tell_def split: prod.splits option.splits if_splits)

lemma context_no_complete: "message_kind (runtime_message ''REPLAY_CONTEXT'' v) \<noteq> JStr ''REPLAY_COMPLETE''"
  by simp

lemma checkpoint_sent:
  assumes "replay_onCheckpoint ops base_st cp s = (r, s')"
  shows "\<exists>ms. rnSent (inner (snd s')) = rnSent (inner (snd s)) @ ms \<and> list_all (\<lambda>m. message_kind m = JStr ''REPLAY_CONTEXT'') ms"
proof -
  obtain c rw where s: "s = (c, rw)" by force
  show ?thesis
  proof (cases "replay_expectation ops cp (rnPage (inner rw))")
    case None
    then show ?thesis using assms s by (auto simp: replay_onCheckpoint_def)
  next
    case (Some x)
    let ?w = "(inner rw)\<lparr>rnSession := save_state replay_keys (checkpoint_control base_st cp x) (rnSession (inner rw))\<rparr>"
    let ?v = "context_message (wsTaskId (checkpoint_control base_st cp x)) cp (checkpoint_control base_st cp x)"
    have "inner (snd s') = snd (tell ops ''REPLAY_CONTEXT'' ?v ?w)"
      using assms s Some by (auto simp: replay_onCheckpoint_def keep_checkpoint_def)
    then have "rnSent (inner (snd s')) = rnSent ?w \<or> rnSent (inner (snd s')) = rnSent ?w @ [runtime_message ''REPLAY_CONTEXT'' ?v]"
      using tell_sent(1) [of ops "''REPLAY_CONTEXT''" ?v ?w] by (metis prod.collapse)
    then show ?thesis using s by fastforce
  qed
qed

lemma failure_sent: "replay_onStepFailure tid p s = (r, s') \<Longrightarrow> rnSent (inner (snd s')) = rnSent (inner (snd s))"
  by (cases s) (auto simp: replay_onStepFailure_def split: option.splits)

lemma replay_callbacks_complete: "callbacks_within (keeps completed_count) (replay_options ops pl isResume prior ctx base_st)"
  unfolding callbacks_within_def replay_options_def
  by (auto simp: eff_def within_world_def keeps_def completed_count_def dest!: checkpoint_sent failure_sent)
    (auto simp: list_all_iff filter_empty_conv)

lemma replay_callbacks_markers: "callbacks_within (preserves no_final_sent) (replay_options ops pl isResume prior ctx base_st)"
  unfolding callbacks_within_def replay_options_def
  by (auto simp: eff_def within_world_def preserves_def no_final_sent_def dest!: checkpoint_sent failure_sent)
    (auto simp: list_all_iff)


section \<open>One completion for each replay\<close>

definition channel_open :: "'p replay_ops \<Rightarrow> bool" where
  "channel_open ops \<longleftrightarrow> (\<forall>p. runtimeUp ops p) \<and> (\<forall>m p. fst (runtimeSend ops m p) = None)"

lemma tell_open:
  assumes "channel_open ops"
  shows "rnSent (snd (tell ops k v w)) = rnSent w @ [runtime_message k v]"
    "rnSession (snd (tell ops k v w)) = rnSession w" "rnActive (snd (tell ops k v w)) = rnActive w"
proof -
  obtain p where "runtimeSend ops (runtime_message k v) (rnPage w) = (None, p)"
    using assms unfolding channel_open_def by (metis prod.collapse)
  then show "rnSent (snd (tell ops k v w)) = rnSent w @ [runtime_message k v]"
    "rnSession (snd (tell ops k v w)) = rnSession w" "rnActive (snd (tell ops k v w)) = rnActive w"
    using assms by (simp_all add: tell_def channel_open_def)
qed

lemma replay_runs:
  obtains r c rw where "runRule exec (replay_env ops (plRule pl)) (replay_options ops pl isResume prior ctx base_st)
       (if isResume then w else w\<lparr>rnSession := save_state replay_keys base_st (rnSession w)\<rparr>) = (r, (c, rw))"
    and "execute_replay ops exec pl isResume prior ctx base_st w = end_replay (plTaskId pl) (report_replay ops (plTaskId pl) r (inner rw))"
proof -
  obtain r c rw where "runRule exec (replay_env ops (plRule pl)) (replay_options ops pl isResume prior ctx base_st)
       (if isResume then w else w\<lparr>rnSession := save_state replay_keys base_st (rnSession w)\<rparr>) = (r, (c, rw))"
    by (metis prod.exhaust)
  then show thesis using that unfolding execute_replay_def Let_def by simp
qed

lemma replay_option_rule: "optRule (replay_options ops pl isResume prior ctx base_st) = plRule pl"
  by (simp add: replay_options_def)

definition completion_sent :: "string \<Rightarrow> 'p runner \<Rightarrow> 'p runner \<Rightarrow> bool" where
  "completion_sent tid w w' \<longleftrightarrow> completed_count w' = completed_count w + 1
     \<and> (\<exists>fs. last (rnSent w') = runtime_message ''REPLAY_COMPLETE'' (task_payload tid fs))"

lemma completed_by_sent: "rnSent w = rnSent w' \<Longrightarrow> completed_count w = completed_count w'"
  by (simp add: completed_count_def)

lemma execute_replay_completes:
  assumes "channel_open ops"
    and "handler_costs (within_world (keeps completed_count)) 0 (exec (run_env (plRule pl) (replay_env ops (plRule pl))))"
    and w': "execute_replay ops exec pl isResume prior ctx base_st w = w'"
  shows "completion_sent (plTaskId pl) w w' \<and> rnActive w' = None
     \<and> (storageOpen (rnSession w') \<longrightarrow> load_state replay_keys (plTaskId pl) (rnSession w') = None)"
proof -
  let ?w0 = "if isResume then w else w\<lparr>rnSession := save_state replay_keys base_st (rnSession w)\<rparr>"
  obtain r c rw where run: "runRule exec (replay_env ops (plRule pl)) (replay_options ops pl isResume prior ctx base_st) ?w0 = (r, (c, rw))"
    and ends: "execute_replay ops exec pl isResume prior ctx base_st w = end_replay (plTaskId pl) (report_replay ops (plTaskId pl) r (inner rw))"
    by (rule replay_runs)
  have "keeps completed_count 0 ?w0 (inner (snd (c, rw)))"
    by (rule world_keeping.runRule_respects [OF replay_completing.env_free_replay _ replay_callbacks_complete run])
      (simp only: replay_option_rule, rule assms(2))
  then have "completed_count (inner rw) = completed_count w" by (simp add: keeps_def completed_count_def split: if_splits)
  then show ?thesis
    unfolding w' [symmetric] ends end_replay_def report_replay_def postReplayComplete_def completion_sent_def
    using replay_store.load_cleared by (auto simp: completed_count_def tell_open [OF assms(1)])
qed

text \<open>C35. A replay that starts ends with one completion, sent as its last message, whether it was refused, failed
  or succeeded; it is ready for another one, and unless it was refused its state is gone from the storage.
  A resume for which there is no running state says nothing.\<close>

theorem replay_completes_once:
  assumes "rnActive w \<noteq> Some (plTaskId pl)" and "channel_open ops"
    and "\<forall>p. replayParse ops (replayHref ops p) \<noteq> None"
    and "handler_costs (within_world (keeps completed_count)) 0 (exec (run_env (plRule pl) (replay_env ops (plRule pl))))"
    and "runReplay ops exec pl isResume ctx w = (r, w')"
  shows "r = Ret () \<and> rnActive w' = None
     \<and> (if isResume \<and> no_running (replay_prior pl isResume ctx (rnSession w)) then rnSent w' = rnSent w
        else completion_sent (plTaskId pl) w w'
          \<and> (replay_refusal ops pl (replay_prior pl isResume ctx (rnSession w)) ctx (rnPage w) = None \<longrightarrow> storageOpen (rnSession w')
               \<longrightarrow> load_state replay_keys (plTaskId pl) (rnSession w') = None))"
proof -
  let ?prior = "replay_prior pl isResume ctx (rnSession w)"
  let ?w1 = "seed_state (plTaskId pl) ?prior (w\<lparr>rnActive := Some (plTaskId pl)\<rparr>)"
  have seeded: "rnSent ?w1 = rnSent w" "rnPage ?w1 = rnPage w" by (simp_all add: seed_state_def split: option.split)
  show ?thesis
  proof (cases "isResume \<and> no_running ?prior")
    case True
    have "isResume" by (rule conjunct1 [OF True])
    moreover have "no_running ?prior" by (rule conjunct2 [OF True])
    ultimately have "runReplay ops exec pl isResume ctx w = (Ret (), w\<lparr>rnActive := None\<rparr>)"
      using assms(1) unfolding runReplay_def Let_def by (simp only: if_False simp_thms if_True)
    then have "r = Ret ()" "rnActive w' = None" "rnSent w' = rnSent w" using assms(5) by auto
    then show ?thesis unfolding if_P [OF True] by blast
  next
    case running: False
    show ?thesis
    proof (cases "replay_refusal ops pl ?prior ctx (rnPage w)")
      case (Some m)
      then have "r = Ret ()" "w' = (postReplayComplete ops (plTaskId pl) (failure_fields m) ?w1)\<lparr>rnActive := None\<rparr>"
        using assms(1,5) running seeded by (auto simp: runReplay_def Let_def)
      moreover have "completion_sent (plTaskId pl) w (postReplayComplete ops (plTaskId pl) (failure_fields m) ?w1\<lparr>rnActive := None\<rparr>)"
        by (simp add: completion_sent_def postReplayComplete_def completed_count_def tell_open [OF assms(2)] seeded) blast
      ultimately show ?thesis unfolding if_not_P [OF running] using Some by simp
    next
      case None
      obtain z where "replayParse ops (replayHref ops (rnPage ?w1)) = Some z" using assms(3) by blast
      then obtain here where here: "normalizeRunUrl (replayParse ops) (replayHref ops (rnPage ?w1)) = Some here"
        by (simp add: normalizeRunUrl_def)
      have "r = Ret ()" "w' = execute_replay ops exec pl isResume ?prior ctx (base_state pl here) ?w1"
        using assms(1,5) running None here seeded(2) by (auto simp: runReplay_def Let_def)
      moreover have "completed_count ?w1 = completed_count w" by (rule completed_by_sent [OF seeded(1)])
      ultimately show ?thesis
        unfolding if_not_P [OF running]
        using execute_replay_completes [where exec = exec, OF assms(2,4) refl] by (auto simp: completion_sent_def)
    qed
  qed
qed

text \<open>The final marker of the engine, which would race the completion, is never sent as progress.\<close>

lemma replay_sends_no_final:
  assumes "no_final_sent w"
    and "handler_costs (within_world (preserves no_final_sent)) 0 (exec (run_env (plRule pl) (replay_env ops (plRule pl))))"
  shows "no_final_sent (execute_replay ops exec pl isResume prior ctx base_st w)"
proof -
  let ?w0 = "if isResume then w else w\<lparr>rnSession := save_state replay_keys base_st (rnSession w)\<rparr>"
  obtain r c rw where run: "runRule exec (replay_env ops (plRule pl)) (replay_options ops pl isResume prior ctx base_st) ?w0 = (r, (c, rw))"
    and ends: "execute_replay ops exec pl isResume prior ctx base_st w = end_replay (plTaskId pl) (report_replay ops (plTaskId pl) r (inner rw))"
    by (rule replay_runs)
  have "preserves no_final_sent 0 ?w0 (inner (snd (c, rw)))"
    by (rule world_preserving.runRule_respects [OF replay_markers.env_free_replay _ replay_callbacks_markers run])
      (simp only: replay_option_rule, rule assms(2))
  moreover have "no_final_sent ?w0" using assms(1) by (simp add: no_final_sent_def)
  ultimately have "no_final_sent (inner rw)" by (simp add: preserves_def)
  moreover obtain fs where "report_replay ops (plTaskId pl) r (inner rw)
      = snd (tell ops ''REPLAY_COMPLETE'' (task_payload (plTaskId pl) fs) (inner rw))"
    by (simp add: report_replay_def postReplayComplete_def)
  moreover have "rnSent (snd (tell ops ''REPLAY_COMPLETE'' (task_payload (plTaskId pl) fs) (inner rw))) = rnSent (inner rw)
      \<or> rnSent (snd (tell ops ''REPLAY_COMPLETE'' (task_payload (plTaskId pl) fs) (inner rw)))
          = rnSent (inner rw) @ [runtime_message ''REPLAY_COMPLETE'' (task_payload (plTaskId pl) fs)]"
    using tell_sent(1) by (metis prod.collapse)
  ultimately show ?thesis by (auto simp: ends end_replay_def no_final_sent_def)
qed


section \<open>Across origins\<close>

lemma hook_read_back [simp]: "hook_of_value (JStr (hook_word h)) = Some h"
  by (cases h) (simp_all add: hook_of_value_def hook_word_def string_of_value_def)

lemma hooks_read_back: "those (map (\<lambda>h. hook_of_value (JStr (hook_word h))) hs) = Some hs"
  by (induction hs) simp_all

text \<open>What the background gives back of a checkpoint is what the runner sent.\<close>

lemma context_read_back:
  "context_of_payload (context_message tid cp st) = Some \<lparr>rcLastCompleted = lastCompletedStepPath cp, rcExtracted = csExtracted cp,
     rcEvaluated = csEvaluated cp, rcCaptured = csCaptured cp, rcControl = Some st, rcHooks = Some (hooksCompletedAt cp)\<rparr>"
  using hooks_read_back [of "hooksCompletedAt cp"]
  by (simp add: context_of_payload_def context_message_def obj_get_def object_of_value_def state_read_back comp_def)

lemma resume_accepted:
  assumes "replayParse ops (wsExpectedUrl st) = Some e" "wsExpectedUrl st \<noteq> []" "replayParse ops (replayHref ops p) = Some a"
    and "host a = host e" "protocol a = protocol e" "wsSameOrigin st \<or> pathnameMatches (pathname a) (pathname e)"
    and "\<And>x. ctx = Some x \<Longrightarrow> 0 \<le> comparePath (rcLastCompleted x) (wsLastCompleted st)"
  shows "resume_refusal ops st ctx p = None"
  using assms by (auto simp: resume_refusal_def stale_context_def not_less split: option.split)

text \<open>C36. A replay survives a change of origin: the last message of a checkpoint before a navigation carries a
  context with which the next page, whose storage knows nothing of the replay, goes on behind the
  last completed step with the data collected so far.\<close>

theorem replay_crosses_origins:
  assumes "replay_onCheckpoint ops base_st cp (c, rw) = (Ret (), s')" and "channel_open ops"
    and "navigation cp = Some nav" and "replayParseFrom ops (replayHref ops (rnPage (inner rw))) (expectedUrl nav) = Some u"
    and "reduced_reads_back (replayParse ops) u"
    and "wsTaskId base_st = plTaskId pl" and "wsRuleId base_st = ruleIdOf (plRule pl)" and "wsStatus base_st = Running"
    and "rnActive w2 = None" and "load_state replay_keys (plTaskId pl) (rnSession w2) = None"
    and "read_active_state replay_keys (rnSession w2) = None"
    and "replayParse ops (replayHref ops (rnPage w2)) = Some a" and "host a = host u" and "protocol a = protocol u"
    and "urlPolicy nav = SameOrigin \<or> pathnameMatches (pathname a) (pathname u)"
    and "preflightRule (replayParse ops) (plRule pl) = []" and "invalid_domains (plRule pl) = []"
    and "hostMatchesDomain (replayHostname ops (rnPage w2)) (domain (plRule pl))"
  shows "\<exists>v ctx st. last (rnSent (inner (snd s'))) = runtime_message ''REPLAY_CONTEXT'' v \<and> context_of_payload v = Some ctx
     \<and> replay_autoResume ops exec (Some pl) (Some ctx) w2 =
         (Ret (), execute_replay ops exec pl True (Some st) (Some ctx) (base_state pl (origin a @ pathname a))
            (w2\<lparr>rnActive := Some (plTaskId pl), rnSession := save_state replay_keys st (rnSession w2)\<rparr>))
     \<and> resumeStepPath (replay_options ops pl True (Some st) (Some ctx) b) = Some (nextPendingPath (lastCompletedStepPath cp))
     \<and> initialContext (replay_options ops pl True (Some st) (Some ctx) b) = Some (Some (csExtracted cp), Some (csEvaluated cp), Some (csCaptured cp))
     \<and> initialHooksCompleted (replay_options ops pl True (Some st) (Some ctx) b) = Some (hooksCompletedAt cp)"
proof -
  let ?st = "checkpoint_control base_st cp (origin u @ pathname u, urlPolicy nav = SameOrigin)"
  let ?v = "context_message (plTaskId pl) cp ?st"
  let ?ctx = "\<lparr>rcLastCompleted = lastCompletedStepPath cp, rcExtracted = csExtracted cp, rcEvaluated = csEvaluated cp,
     rcCaptured = csCaptured cp, rcControl = Some ?st, rcHooks = Some (hooksCompletedAt cp)\<rparr>"
  have "replayUrl ops (rnPage (inner rw)) (expectedUrl nav) = Some (origin u @ pathname u)"
    using assms(4) by (simp add: replayUrl_def normalizeRunUrl_def)
  then have "replay_expectation ops cp (rnPage (inner rw)) = Some (origin u @ pathname u, urlPolicy nav = SameOrigin)"
    using assms(1,3) by (auto simp: replay_expectation_def replay_onCheckpoint_def split: option.splits)
  then have sent: "last (rnSent (inner (snd s'))) = runtime_message ''REPLAY_CONTEXT'' ?v"
    using assms(1,6) by (auto simp: replay_onCheckpoint_def keep_checkpoint_def tell_open [OF assms(2)] checkpoint_control_def)
  obtain u' where u': "replayParse ops (origin u @ pathname u) = Some u'" "host u' = host u" "protocol u' = protocol u"
    "pathname u' = pathname u" "origin u \<noteq> []"
    using assms(5) by (auto simp: reduced_reads_back_def)
  have st: "wsTaskId ?st = plTaskId pl" "wsRuleId ?st = ruleIdOf (plRule pl)" "wsStatus ?st = Running"
    "wsExpectedUrl ?st = origin u @ pathname u" "wsSameOrigin ?st = (urlPolicy nav = SameOrigin)" "wsLastCompleted ?st = lastCompletedStepPath cp"
    using assms(6-8) by (simp_all add: checkpoint_control_def)
  have "resume_refusal ops ?st (Some ?ctx) (rnPage w2) = None"
    by (rule resume_accepted [where e = u', OF _ _ assms(12)]) (use u' st assms(13-15) in \<open>auto simp: path.cmp_self\<close>)
  then have go: "replay_refusal ops pl (Some ?st) (Some ?ctx) (rnPage w2) = None"
    using assms(16-18) by (simp add: replay_refusal_def)
  have prior: "replay_prior pl True (Some ?ctx) (rnSession w2) = Some ?st"
    using assms(10) st by (simp add: replay_prior_def persisted_prior_def first_of_def)
  have "replay_autoResume ops exec (Some pl) (Some ?ctx) w2 = runReplay ops exec pl True (Some ?ctx) w2"
    using assms(11) st by (simp add: replay_autoResume_def first_of_def)
  also have "\<dots> = (Ret (), execute_replay ops exec pl True (Some ?st) (Some ?ctx) (base_state pl (origin a @ pathname a))
            (w2\<lparr>rnActive := Some (plTaskId pl), rnSession := save_state replay_keys ?st (rnSession w2)\<rparr>))"
    using assms(9,10,12) st prior go by (simp add: runReplay_def no_running_def seed_state_def normalizeRunUrl_def Let_def)
  finally show ?thesis
    using sent context_read_back st
    by (intro exI [of _ ?v] exI [of _ ?ctx] exI [of _ ?st]) (simp add: replay_options_def resume_point_def)
qed

text \<open>
  A refused resume leaves its state in the storage of its origin. Another replay that comes to this origin
  finds it there before its own context, and its resume ends without a word.
\<close>

lemma refused_resume_keeps_state:
  assumes "rnActive w \<noteq> Some (plTaskId pl)" "load_state replay_keys (plTaskId pl) (rnSession w) = Some st" "wsStatus st = Running"
    and "replay_refusal ops pl (Some st) ctx (rnPage w) = Some m" "channel_open ops"
  shows "rnSession (snd (runReplay ops exec pl True ctx w)) = rnSession w"
  using assms by (simp add: runReplay_def replay_prior_def first_of_def no_running_def seed_state_def postReplayComplete_def tell_open)

lemma stale_state_blocks_resume:
  assumes "read_active_state replay_keys (rnSession w) = Some st" "wsTaskId st \<noteq> plTaskId pl"
  shows "replay_autoResume ops exec (Some pl) ctx w = (Ret (), w)"
  using assms by (simp add: replay_autoResume_def first_of_def)


section \<open>Snapshots\<close>

text \<open>What a replay sends of a page depends neither on the literal page of the environment nor on the
  secrets in the document.\<close>

theorem replay_snapshot_hides_secrets:
  assumes "hiding f"
  shows "safeReplaySnapshot (x\<lparr>snapData := d\<rparr>) (Some (disguised f False n)) = safeReplaySnapshot x (Some n)"
proof -
  have "snapshot_head (x\<lparr>snapData := d\<rparr>) = snapshot_head x" by (simp add: snapshot_head_def)
  moreover from this have "failed_artifact (x\<lparr>snapData := d\<rparr>) = failed_artifact x"
    "oversized_artifact (x\<lparr>snapData := d\<rparr>) k r = oversized_artifact x k r" for k r
    by (simp_all add: failed_artifact_def oversized_artifact_def)
  ultimately show ?thesis
    by (simp add: safeReplaySnapshot_def serializeDomWithReport_def disguised_node [OF assms] Let_def split: sum.split)
qed

text \<open>The tree of a snapshot is bounded by its bytes, or left out.\<close>

lemma replay_snapshot_bounded:
  "json_size (snapData (safeReplaySnapshot x live)) \<le> MAX_REPLAY_SNAPSHOT_BYTES
   \<or> (\<exists>n r. snapData (safeReplaySnapshot x live) = text_of_value (oversized_artifact x n r))
   \<or> snapData (safeReplaySnapshot x live) = text_of_value (failed_artifact x)"
  by (auto simp: safeReplaySnapshot_def Let_def split: sum.split prod.split)

end
