(* ===== verification/Demo_Replay.thy ===== *)
theory Demo_Replay
  imports Demo_Page Replay_Runner_Laws
begin

text \<open>
  A concrete page on which the properties of the replay runner are evaluated. The shop starts on one host
  and, once its clock has moved, is on another; the background takes every message.
\<close>

definition shop_replay_ops :: "demo replay_ops" where
  "shop_replay_ops = \<lparr>replayHref = (\<lambda>p. if clock p = 0 then ''https://shop.example.com/list'' else ''https://pay.example.com/cart''),
     replayHostname = (\<lambda>p. if clock p = 0 then ''shop.example.com'' else ''pay.example.com''),
     replayParse = simple_url, replayParseFrom = (\<lambda>_. simple_url), runtimeUp = (\<lambda>_. True), runtimeSend = (\<lambda>m p. (None, p)),
     abortSeen = cancelled, documentElement = (\<lambda>_. None), replayHalf = demo_env\<rparr>"

definition shop_runner :: "int \<Rightarrow> demo runner" where
  "shop_runner t = \<lparr>rnSession = \<lparr>storedItems = [], storageOpen = True, storageRoom = 5000\<rparr>, rnActive = None, rnSent = [],
     rnPage = \<lparr>events = [], clock = t, cancelled = False, completed = []\<rparr>\<rparr>"

lemma shop_channel: "channel_open shop_replay_ops"
  by (simp add: channel_open_def shop_replay_ops_def)

lemma replay_urls:
  "simple_url ''https://pay.example.com/cart'' = Some \<lparr>protocol = ''https:'', host = ''pay.example.com'', hostname = ''pay.example.com'',
     pathname = ''/cart'', origin = ''https://pay.example.com''\<rparr>"
  by code_simp

theorem replay_completes_once_witness:
  "\<exists>w'. runReplay shop_replay_ops sending_exec shop_payload False None (shop_runner 0) = (Ret (), w') \<and> rnActive w' = None
     \<and> completion_sent ''t1'' (shop_runner 0) w'"
proof -
  obtain r w' where run: "runReplay shop_replay_ops sending_exec shop_payload False None (shop_runner 0) = (r, w')"
    by (metis prod.exhaust)
  have located: "\<forall>p. replayParse shop_replay_ops (replayHref shop_replay_ops p) \<noteq> None"
    using shop_location replay_urls by (simp add: shop_replay_ops_def)
  have "handler_costs (within_world (keeps completed_count)) 0
      (sending_exec (run_env (plRule shop_payload) (replay_env shop_replay_ops (plRule shop_payload))))"
    by (intro sending_costs world_keeping.env_free_run_env replay_completing.env_free_replay)
  moreover have "rnActive (shop_runner 0) \<noteq> Some (plTaskId shop_payload)" by (simp add: shop_runner_def)
  ultimately show ?thesis
    using replay_completes_once [OF _ shop_channel located _ run] run by (simp add: shop_payload_def)
qed

definition cart_checkpoint :: checkpoint_state where
  "cart_checkpoint = \<lparr>lastCompletedStepPath = [TopFrame 0], csExtracted = [(''title'', JStr ''x'')], csEvaluated = [], csCaptured = [],
     hooksCompletedAt = [BeforeAll],
     navigation = Some \<lparr>phase = BeforeNavigation, expectedUrl = ''https://pay.example.com/cart'', urlPolicy = ExpectedPath\<rparr>\<rparr>"

definition replay_world :: "demo runner run_world" where
  "replay_world = \<lparr>inner = shop_runner 0, buffer = fresh_buffer None,
     locals = initial_locals (replay_options shop_replay_ops shop_payload False None None shop_base)\<rparr>"

lemma cart_checkpointed: "fst (replay_onCheckpoint shop_replay_ops shop_base cart_checkpoint (blank_context, replay_world)) = Ret ()"
  by code_simp

lemma cart_page:
  "load_state replay_keys (plTaskId shop_payload) (rnSession (shop_runner 1)) = None"
  "read_active_state replay_keys (rnSession (shop_runner 1)) = None"
  "preflightRule (replayParse shop_replay_ops) (plRule shop_payload) = []"
  "invalid_domains (plRule shop_payload) = []"
  "hostMatchesDomain (replayHostname shop_replay_ops (rnPage (shop_runner 1))) (domain (plRule shop_payload))"
  "pathnameMatches ''/cart'' ''/cart''"
  by code_simp+

theorem replay_crosses_origins_witness:
  "\<exists>v ctx st w. context_of_payload v = Some ctx
     \<and> replay_autoResume shop_replay_ops sending_exec (Some shop_payload) (Some ctx) (shop_runner 1) = (Ret (), w)
     \<and> resumeStepPath (replay_options shop_replay_ops shop_payload True (Some st) (Some ctx) shop_base) = Some [TopFrame 1]"
proof -
  let ?nav = "\<lparr>phase = BeforeNavigation, expectedUrl = ''https://pay.example.com/cart'', urlPolicy = ExpectedPath\<rparr>"
  let ?u = "\<lparr>protocol = ''https:'', host = ''pay.example.com'', hostname = ''pay.example.com'', pathname = ''/cart'', origin = ''https://pay.example.com''\<rparr>"
  obtain s' where cp: "replay_onCheckpoint shop_replay_ops shop_base cart_checkpoint (blank_context, replay_world) = (Ret (), s')"
    using cart_checkpointed by (cases "replay_onCheckpoint shop_replay_ops shop_base cart_checkpoint (blank_context, replay_world)") auto
  have "\<exists>v ctx st. last (rnSent (inner (snd s'))) = runtime_message ''REPLAY_CONTEXT'' v \<and> context_of_payload v = Some ctx
     \<and> replay_autoResume shop_replay_ops sending_exec (Some shop_payload) (Some ctx) (shop_runner 1) =
         (Ret (), execute_replay shop_replay_ops sending_exec shop_payload True (Some st) (Some ctx) (base_state shop_payload (origin ?u @ pathname ?u))
            ((shop_runner 1)\<lparr>rnActive := Some (plTaskId shop_payload), rnSession := save_state replay_keys st (rnSession (shop_runner 1))\<rparr>))
     \<and> resumeStepPath (replay_options shop_replay_ops shop_payload True (Some st) (Some ctx) shop_base) = Some (nextPendingPath (lastCompletedStepPath cart_checkpoint))
     \<and> initialContext (replay_options shop_replay_ops shop_payload True (Some st) (Some ctx) shop_base)
         = Some (Some (csExtracted cart_checkpoint), Some (csEvaluated cart_checkpoint), Some (csCaptured cart_checkpoint))
     \<and> initialHooksCompleted (replay_options shop_replay_ops shop_payload True (Some st) (Some ctx) shop_base) = Some (hooksCompletedAt cart_checkpoint)"
  proof (rule replay_crosses_origins [OF cp shop_channel, where nav = ?nav and u = ?u])
    show "navigation cart_checkpoint = Some ?nav" by (simp add: cart_checkpoint_def)
    show "replayParseFrom shop_replay_ops (replayHref shop_replay_ops (rnPage (inner replay_world))) (expectedUrl ?nav) = Some ?u"
      using replay_urls by (simp add: shop_replay_ops_def)
    show "reduced_reads_back (replayParse shop_replay_ops) ?u"
      using replay_urls by (simp add: reduced_reads_back_def shop_replay_ops_def)
    show "replayParse shop_replay_ops (replayHref shop_replay_ops (rnPage (shop_runner 1))) = Some ?u"
      using replay_urls by (simp add: shop_replay_ops_def shop_runner_def)
    show "rnActive (shop_runner 1) = None" by (simp add: shop_runner_def)
  qed (simp_all add: cart_page shop_base_def base_state_def)
  moreover have "nextPendingPath (lastCompletedStepPath cart_checkpoint) = [TopFrame 1]" by code_simp
  ultimately show ?thesis by metis
qed

definition page_shot :: snapshot where
  "page_shot = \<lparr>snapName = ''after'', snapType = ''html'', snapData = []\<rparr>"

theorem replay_snapshot_hides_secrets_witness:
  "safeReplaySnapshot (page_shot\<lparr>snapData := ''<html>''\<rparr>) (Some (disguised other_password False login_form))
     = safeReplaySnapshot page_shot (Some login_form)"
  by (rule replay_snapshot_hides_secrets [OF other_password_hides])

end
