(* ===== verification/Rule_Generator.thy ===== *)
theory Rule_Generator
  imports Recording_Types Json
begin

text \<open>
  Model of \<open>src/rule-generator/converter\<close>: \<open>selector-optimizer.ts\<close>, \<open>selector-resolver.ts\<close>,
  \<open>event-mappers.ts\<close>, \<open>pattern-analyzer.ts\<close>, \<open>annotated-converter.ts\<close>, \<open>variable-guesser.ts\<close> and
  \<open>PageAgentToDslConverter.ts\<close>, which turn a recording into a rule. The regular expressions are
  written out as scans; the characters of the model are below 256, so the class of the Chinese
  characters in one of them has no member. Literal texts beyond that are given as their UTF-8 bytes.
\<close>

section \<open>Selectors\<close>

definition name_char :: "char \<Rightarrow> bool" where
  "name_char c \<longleftrightarrow> alnum c \<or> c = CHR ''_'' \<or> c = CHR ''-''"

text \<open>\<open>replace(/\[[^\]]*\]/g, '')\<close>\<close>

function strip_brackets :: "string \<Rightarrow> string" where
  "strip_brackets [] = []"
| "strip_brackets (c # cs) =
     (if c = CHR ''['' \<and> dropWhile (\<lambda>x. x \<noteq> CHR '']'') cs \<noteq> []
      then strip_brackets (tl (dropWhile (\<lambda>x. x \<noteq> CHR '']'') cs))
      else c # strip_brackets cs)"
  by pat_completeness auto
termination
  by (relation "measure length") (auto simp: less_Suc_eq_le intro: order_trans [OF diff_le_self length_dropWhile_le])

text \<open>The names after a marker character, in order: the matches of \<open>/#([\w-]+)/\<close> and of \<open>/\.([\w-]+)/g\<close>\<close>

function names_after :: "char \<Rightarrow> string \<Rightarrow> string list" where
  "names_after m [] = []"
| "names_after m (c # cs) =
     (if c = m \<and> takeWhile name_char cs \<noteq> []
      then takeWhile name_char cs # names_after m (dropWhile name_char cs)
      else names_after m cs)"
  by pat_completeness auto
termination
  by (relation "measure (\<lambda>(m, s). length s)") (auto simp: le_imp_less_Suc length_dropWhile_le)

text \<open>The first value of an attribute test: the match of \<open>/\[data-testid="([^"]+)"\]/\<close>\<close>

fun attribute_test :: "string \<Rightarrow> string \<Rightarrow> string option" where
  "attribute_test k [] = None"
| "attribute_test k (c # cs) =
     (let head = CHR ''['' # k @ [CHR ''='', CHR 0x22]; s = c # cs; rest = drop (length head) s;
          v = takeWhile (\<lambda>x. x \<noteq> CHR 0x22) rest
      in if prefix head s \<and> v \<noteq> [] \<and> prefix [CHR 0x22, CHR '']''] (drop (length v) rest) then Some v
         else attribute_test k cs)"

definition quoted :: "string \<Rightarrow> string" where
  "quoted s = CHR 0x22 # s @ [CHR 0x22]"

definition attribute_selector :: "string \<Rightarrow> string \<Rightarrow> string" where
  "attribute_selector k v = ''['' @ k @ ''='' @ quoted v @ '']''"

definition extractClasses :: "string \<Rightarrow> string list" where
  "extractClasses sel = names_after CHR ''.'' sel"

definition hasAllClasses :: "string \<Rightarrow> string list \<Rightarrow> bool" where
  "hasAllClasses sel cs = list_all (\<lambda>c. c \<in> set (extractClasses sel)) cs"

definition present :: "string option \<Rightarrow> string option" where
  "present x = (case x of None \<Rightarrow> None | Some s \<Rightarrow> if s = [] then None else Some s)"

text \<open>The later strategies, once no id and no test attribute was found\<close>

definition unique_classes :: "element_info \<Rightarrow> string list \<Rightarrow> string option" where
  "unique_classes info sels =
     (let cs = extractClasses (eiSelector info) in
      if cs \<noteq> [] \<and> length (filter (\<lambda>s. hasAllClasses s cs) sels) = 1
      then Some (CHR ''.'' # join_strings ''.'' cs) else None)"

definition optimizeSelector :: "element_info \<Rightarrow> string list \<Rightarrow> string" where
  "optimizeSelector info sels =
     (case names_after CHR ''#'' (strip_brackets (eiSelector info)) of
        i # _ \<Rightarrow> CHR ''#'' # i
      | [] \<Rightarrow>
    (case attribute_test ''data-testid'' (eiSelector info) of
       Some v \<Rightarrow> attribute_selector ''data-testid'' v
     | None \<Rightarrow>
    (case attribute_test ''data-qa'' (eiSelector info) of
       Some v \<Rightarrow> attribute_selector ''data-qa'' v
     | None \<Rightarrow>
    (case attribute_test ''data-automation-id'' (eiSelector info) of
       Some v \<Rightarrow> attribute_selector ''data-automation-id'' v
     | None \<Rightarrow>
    (case present (eiName info) of
       Some n \<Rightarrow> js_toLowerCase (eiTagName info) @ attribute_selector ''name'' n
     | None \<Rightarrow>
    (case present (eiAriaLabel info) of
       Some l \<Rightarrow> attribute_selector ''aria-label'' l
     | None \<Rightarrow>
    (case unique_classes info sels of
       Some s \<Rightarrow> s
     | None \<Rightarrow>
    (case present (eiPlaceholder info) of
       Some p \<Rightarrow> js_toLowerCase (eiTagName info) @ attribute_selector ''placeholder'' p
     | None \<Rightarrow> eiSelector info))))))))"


section \<open>Aliases\<close>

definition REDACTED :: string where
  "REDACTED = ''[REDACTED]''"

definition unredacted :: "string option \<Rightarrow> string option" where
  "unredacted x = (case present x of None \<Rightarrow> None | Some s \<Rightarrow> if s = REDACTED then None else Some s)"

definition TEXT_ENTRY_TAGS :: "string list" where
  "TEXT_ENTRY_TAGS = [''input'', ''textarea'', ''select'']"

definition TEXT_ENTRY_ROLES :: "string list" where
  "TEXT_ENTRY_ROLES = [''combobox'', ''textbox'', ''searchbox'', ''spinbutton'']"

definition stableTargetText :: "element_info \<Rightarrow> string option" where
  "stableTargetText info =
     (if js_toLowerCase (js_trim (eiTagName info)) \<in> set TEXT_ENTRY_TAGS
         \<or> (case eiRole info of None \<Rightarrow> False | Some r \<Rightarrow> js_toLowerCase (js_trim r) \<in> set TEXT_ENTRY_ROLES)
      then None else unredacted (eiText info))"

definition or_empty_text :: "string option \<Rightarrow> string" where
  "or_empty_text x = (case x of None \<Rightarrow> [] | Some s \<Rightarrow> s)"

text \<open>\<open>Math.round(c / 5) * 5\<close>\<close>

definition bucket :: "rat \<Rightarrow> int" where
  "bucket c = \<lfloor>c / 5 + 1 / 2\<rfloor> * 5"

definition center_x :: "rect \<Rightarrow> rat" where
  "center_x r = rectX r + rectW r / 2"

definition center_y :: "rect \<Rightarrow> rat" where
  "center_y r = rectY r + rectH r / 2"

definition quantizePosition :: "rect \<Rightarrow> string" where
  "quantizePosition r = show_int (bucket (center_x r)) @ '','' @ show_int (bucket (center_y r))"

definition KEY_SEP :: char where
  "KEY_SEP = CHR 0x1F"

definition compositeKey :: "string \<Rightarrow> element_info \<Rightarrow> string" where
  "compositeKey sel info =
     sel @ [KEY_SEP] @ or_empty_text (unredacted (eiAriaLabel info)) @ [KEY_SEP]
       @ or_empty_text (unredacted (eiRole info)) @ [KEY_SEP] @ or_empty_text (stableTargetText info) @ [KEY_SEP]
       @ (case eiRect info of None \<Rightarrow> [] | Some r \<Rightarrow> quantizePosition r)"

definition when_present :: "string \<Rightarrow> string option \<Rightarrow> jobj" where
  "when_present k x = (case x of None \<Rightarrow> [] | Some s \<Rightarrow> [(k, JStr s)])"

definition buildTarget :: "string \<Rightarrow> element_info \<Rightarrow> target" where
  "buildTarget sel info =
     (let label = unredacted (eiAriaLabel info); role = unredacted (eiRole info); text = stableTargetText info in
      [(''selector'', JStr sel)] @ when_present ''ariaLabel'' label
      @ (case role of None \<Rightarrow> [] | Some r \<Rightarrow> (''role'', JStr r) # when_present ''roleName'' text)
      @ when_present ''text'' text
      @ (case eiRect info of
           Some r \<Rightarrow>
             if label = None \<and> role = None \<and> text = None
             then [(''position'', JObj [(''x'', JNum (Fin (center_x r))), (''y'', JNum (Fin (center_y r)))])] else []
         | None \<Rightarrow> []))"

record alias_registry =
  aliasEntries :: "(string \<times> (string \<times> target)) list"
  aliasCounter :: nat

definition empty_registry :: alias_registry where
  "empty_registry = \<lparr>aliasEntries = [], aliasCounter = 0\<rparr>"

definition alias_name :: "nat \<Rightarrow> string" where
  "alias_name n = ''el'' @ show_int (int n)"

definition getAlias :: "string \<Rightarrow> element_info \<Rightarrow> (alias_registry, string) gen" where
  "getAlias sel info = (\<lambda>g.
     let key = compositeKey sel info in
     case map_of (aliasEntries g) key of
       Some (al, _) \<Rightarrow> Inr (al, g)
     | None \<Rightarrow>
         (let n = aliasCounter g + 1; al = alias_name n in
          Inr (al, g\<lparr>aliasEntries := al_set key (al, buildTarget sel info) (aliasEntries g), aliasCounter := n\<rparr>)))"

definition getAliases :: "alias_registry \<Rightarrow> jobj" where
  "getAliases g = fold (\<lambda>(k, al, t) acc. al_set al (JObj t) acc) (aliasEntries g) []"

text \<open>The binary search of \<open>findSnapshot\<close>: the indices that are left, and the best one so far\<close>

function search_snapshot :: "rec_snapshot list \<Rightarrow> int \<Rightarrow> int \<Rightarrow> int \<Rightarrow> int \<Rightarrow> int" where
  "search_snapshot ss t lo hi best =
     (if hi < lo then best
      else (let mid = (lo + hi) div 2 in
        if rsTime (ss ! nat mid) \<le> t then search_snapshot ss t (mid + 1) hi mid
        else search_snapshot ss t lo (mid - 1) best))"
  by pat_completeness auto
termination
  by (relation "measure (\<lambda>(ss, t, lo, hi, best). nat (hi - lo + 1))") auto

declare search_snapshot.simps [simp del]

definition findSnapshot :: "rec_snapshot list \<Rightarrow> int \<Rightarrow> rec_snapshot option" where
  "findSnapshot ss t =
     (if ss = [] then None
      else (let best = search_snapshot ss t 0 (int (length ss) - 1) (-1) in
        if 0 \<le> best then Some (ss ! nat best) else None))"

definition exact_before :: "int \<Rightarrow> int \<Rightarrow> rec_snapshot \<Rightarrow> bool" where
  "exact_before i t s \<longleftrightarrow> rsTime s = t \<and> rsPhase s = Some ''before-action'' \<and> map_of (rsSelectorMap s) i \<noteq> None"

definition findEventSnapshot :: "page_agent_recording \<Rightarrow> int \<Rightarrow> int \<Rightarrow> string + rec_snapshot option" where
  "findEventSnapshot rc i t =
     (case filter (exact_before i t) (recSnapshots rc) of
        [] \<Rightarrow> Inr (findSnapshot (recSnapshots rc) t)
      | [s] \<Rightarrow> Inr (Some s)
      | _ \<Rightarrow> Inl (''Ambiguous before-action snapshots for index='' @ show_int i @ '', timestamp='' @ show_int t))"

definition ref_target :: "string \<Rightarrow> target" where
  "ref_target al = [(''$ref'', JStr al)]"

definition resolveEventTarget :: "page_agent_recording \<Rightarrow> bool \<Rightarrow> int \<Rightarrow> int \<Rightarrow> (alias_registry, target) gen" where
  "resolveEventTarget rc optimize i t =
     (case findEventSnapshot rc i t of
        Inl m \<Rightarrow> throwG m
      | Inr None \<Rightarrow> throwG (''No snapshot found for timestamp='' @ show_int t)
      | Inr (Some snap) \<Rightarrow>
          (case map_of (rsSelectorMap snap) i of
             None \<Rightarrow> throwG (''Element not found in recording snapshots: index='' @ show_int i @ '', timestamp='' @ show_int t)
           | Some info \<Rightarrow>
               bindG (getAlias (if optimize then optimizeSelector info (map (\<lambda>e. eiSelector (snd e)) (rsSelectorMap snap))
                                else eiSelector info) info)
                 (\<lambda>al. returnG (ref_target al))))"


section \<open>Events to actions\<close>

type_synonym resolver = "int \<Rightarrow> int \<Rightarrow> (alias_registry, target) gen"

definition plain :: "string \<Rightarrow> jobj \<Rightarrow> action" where
  "plain t fs = Leaf empty_base t fs []"

definition navigate_action :: "string \<Rightarrow> action" where
  "navigate_action url = plain ''navigate'' [(''url'', JStr url), (''waitUntil'', JStr ''load'')]"

definition mapClick :: "resolver \<Rightarrow> int \<Rightarrow> int \<Rightarrow> string option \<Rightarrow> bool \<Rightarrow> (alias_registry, action list) gen" where
  "mapClick resolve t i dest newTab =
     (case present dest of
        Some url \<Rightarrow>
          if newTab then returnG [navigate_action url]
          else bindG (resolve i t) (\<lambda>tg. returnG [plain ''click'' [(''target'', JObj tg)]])
      | None \<Rightarrow> bindG (resolve i t) (\<lambda>tg. returnG [plain ''click'' [(''target'', JObj tg)]]))"

definition mapInputText :: "resolver \<Rightarrow> int \<Rightarrow> int \<Rightarrow> string \<Rightarrow> bool \<Rightarrow> (alias_registry, action list) gen" where
  "mapInputText resolve t i text submit =
     bindG (resolve i t) (\<lambda>tg. returnG [plain ''type''
       ([(''target'', JObj tg), (''value'', JStr text)] @ (if submit then [(''submit'', JBool True)] else []))])"

definition mapSubmitForm :: "resolver \<Rightarrow> int \<Rightarrow> int option \<Rightarrow> (alias_registry, action list) gen" where
  "mapSubmitForm resolve t submitter =
     (case submitter of
        Some i \<Rightarrow> bindG (resolve i t) (\<lambda>tg. returnG [plain ''click'' [(''target'', JObj tg)]])
      | None \<Rightarrow> returnG [plain ''pressKey'' [(''keys'', JArr [JStr ''Enter''])]])"

definition mapScroll :: "resolver \<Rightarrow> int \<Rightarrow> scroll_direction \<Rightarrow> int \<Rightarrow> bool \<Rightarrow> int option \<Rightarrow> (alias_registry, action list) gen" where
  "mapScroll resolve t dir amount pages idx =
     (let fs = [(''direction'', JStr (direction_string dir)), (''distance'', jint amount)] in
      if pages then returnG [plain ''scrollBy'' (fs @ [(''unit'', JStr ''pages'')])]
      else (case idx of
        None \<Rightarrow> returnG [plain ''scrollBy'' fs]
      | Some i \<Rightarrow> bindG (resolve i t) (\<lambda>tg. returnG [plain ''scrollBy'' (fs @ [(''target'', JObj tg)])])))"

definition mapExtract :: "resolver \<Rightarrow> int \<Rightarrow> int \<Rightarrow> string \<Rightarrow> extract_mode \<Rightarrow> string option \<Rightarrow> (alias_registry, action list) gen" where
  "mapExtract resolve t i name mode attr =
     bindG (resolve i t) (\<lambda>tg. returnG
       [case mode of
          TextMode \<Rightarrow> plain ''extractText'' [(''name'', JStr name), (''target'', JObj tg)]
        | HtmlMode \<Rightarrow> plain ''extractHtml'' [(''name'', JStr name), (''target'', JObj tg)]
        | AttributeMode \<Rightarrow> plain ''extractAttribute''
            [(''name'', JStr name), (''target'', JObj tg), (''attr'', JStr (or_empty_text attr))]])"

text \<open>A recorded script, like an unknown event, is skipped; the warning and the telemetry hook are not modelled.\<close>

definition mapEvent :: "resolver \<Rightarrow> rec_event \<Rightarrow> (alias_registry, action list) gen" where
  "mapEvent resolve ev =
     (case ev of
        NavigateEvent t url _ \<Rightarrow> returnG [navigate_action url]
      | ClickEvent t i dest newTab _ \<Rightarrow> mapClick resolve t i dest newTab
      | InputTextEvent t i text submit \<Rightarrow> mapInputText resolve t i text submit
      | SubmitFormEvent t _ submitter \<Rightarrow> mapSubmitForm resolve t submitter
      | SelectOptionEvent t i text \<Rightarrow>
          bindG (resolve i t) (\<lambda>tg. returnG [plain ''select'' [(''target'', JObj tg), (''value'', JStr text), (''by'', JStr ''text'')]])
      | ScrollEvent t dir amount pages idx \<Rightarrow> mapScroll resolve t dir amount pages idx
      | ExecuteJavascriptEvent _ _ \<Rightarrow> returnG []
      | WaitEvent t d \<Rightarrow> returnG [plain ''waitForTimeout'' [(''ms'', jint d)]]
      | ExtractEvent t i name mode attr _ \<Rightarrow> mapExtract resolve t i name mode attr
      | UnknownEvent _ _ \<Rightarrow> returnG [])"

definition mapEvents :: "resolver \<Rightarrow> rec_event list \<Rightarrow> (alias_registry, action list) gen" where
  "mapEvents resolve evs = bindG (mapG (mapEvent resolve) evs) (\<lambda>ass. returnG (concat ass))"

end
