(* ===== verification/Rule_Converter.thy ===== *)
theory Rule_Converter
  imports Rule_Generator Interpolation
begin

text \<open>
  The second half of \<open>src/rule-generator/converter\<close>: \<open>pattern-analyzer.ts\<close>, \<open>annotated-converter.ts\<close>,
  \<open>variable-guesser.ts\<close> and \<open>PageAgentToDslConverter.ts\<close>. The name of a rule and its \<open>enabled\<close> flag,
  which the engine does not read, are left out of the rule.
\<close>

section \<open>Patterns\<close>

record extract_group =
  egType :: annotation
  egEvents :: "rec_event list"
  egStart :: nat
  egEnd :: nat

record analyzed =
  extractGroups :: "extract_group list"
  pagination :: "(nat \<times> rec_event) list"
  auth :: "(nat \<times> annotation) list"

definition extract_annotation :: "rec_event \<Rightarrow> annotation option" where
  "extract_annotation ev = (case ev of ExtractEvent _ _ _ _ _ an \<Rightarrow> an | _ \<Rightarrow> None)"

definition click_annotation :: "rec_event \<Rightarrow> annotation option" where
  "click_annotation ev = (case ev of ClickEvent _ _ _ _ an \<Rightarrow> an | _ \<Rightarrow> None)"

text \<open>\<open>collectExtractGroup\<close>: the events behind the first that are extractions of the same annotation\<close>

definition same_group :: "annotation \<Rightarrow> rec_event list \<Rightarrow> rec_event list" where
  "same_group an evs = takeWhile (\<lambda>e. extract_annotation e = Some an) evs"

definition collectExtractGroup :: "nat \<Rightarrow> rec_event \<Rightarrow> annotation \<Rightarrow> rec_event list \<Rightarrow> extract_group" where
  "collectExtractGroup i ev an rest = \<lparr>egType = an, egEvents = ev # same_group an rest, egStart = i,
     egEnd = i + length (same_group an rest)\<rparr>"

definition add_pagination :: "nat \<Rightarrow> rec_event \<Rightarrow> analyzed \<Rightarrow> analyzed" where
  "add_pagination i ev p = p\<lparr>pagination := (i, ev) # pagination p\<rparr>"

definition add_auth :: "nat \<Rightarrow> annotation \<Rightarrow> analyzed \<Rightarrow> analyzed" where
  "add_auth i an p = p\<lparr>auth := (i, an) # auth p\<rparr>"

definition add_group :: "extract_group \<Rightarrow> analyzed \<Rightarrow> analyzed" where
  "add_group g p = p\<lparr>extractGroups := g # extractGroups p\<rparr>"

function analyze_from :: "nat \<Rightarrow> rec_event list \<Rightarrow> analyzed" where
  "analyze_from i [] = \<lparr>extractGroups = [], pagination = [], auth = []\<rparr>"
| "analyze_from i (ev # rest) =
     (case click_annotation ev of
        Some NextPage \<Rightarrow> add_pagination i ev (analyze_from (Suc i) rest)
      | Some Login \<Rightarrow> add_auth i Login (analyze_from (Suc i) rest)
      | Some Captcha \<Rightarrow> add_auth i Captcha (analyze_from (Suc i) rest)
      | _ \<Rightarrow>
          (case extract_annotation ev of
             Some an \<Rightarrow>
               add_group (collectExtractGroup i ev an rest)
                 (analyze_from (Suc (i + length (same_group an rest))) (drop (length (same_group an rest)) rest))
           | None \<Rightarrow> analyze_from (Suc i) rest))"
  by pat_completeness auto
termination by (relation "measure (\<lambda>(i, evs). length evs)") auto

declare analyze_from.simps [simp del]

definition analyzePatterns :: "rec_event list \<Rightarrow> analyzed" where
  "analyzePatterns evs = analyze_from 0 evs"


section \<open>Annotated recordings\<close>

definition annotated :: "rec_event \<Rightarrow> bool" where
  "annotated ev \<longleftrightarrow> click_annotation ev \<noteq> None \<or> extract_annotation ev \<noteq> None"

definition hasAnnotations :: "rec_event list \<Rightarrow> bool" where
  "hasAnnotations evs = list_ex annotated evs"

definition extract_field :: "extract_mode \<Rightarrow> string option \<Rightarrow> jval" where
  "extract_field mode attr =
     JObj (case mode of
        TextMode \<Rightarrow> [(''type'', JStr ''text'')]
      | HtmlMode \<Rightarrow> [(''type'', JStr ''html'')]
      | AttributeMode \<Rightarrow> [(''type'', JStr ''attr''), (''attr'', JStr (case attr of None \<Rightarrow> ''href'' | Some a \<Rightarrow> a))])"

definition add_extract_field :: "jobj \<Rightarrow> rec_event \<Rightarrow> jobj" where
  "add_extract_field fs ev =
     (case ev of ExtractEvent _ _ name mode attr _ \<Rightarrow> al_set name (extract_field mode attr) fs | _ \<Rightarrow> fs)"

definition group_fields :: "extract_group \<Rightarrow> jobj" where
  "group_fields g = fold (\<lambda>ev fs. add_extract_field fs ev) (egEvents g) []"

definition event_index :: "rec_event \<Rightarrow> int" where
  "event_index ev = (case ev of ExtractEvent _ i _ _ _ _ \<Rightarrow> i | ClickEvent _ i _ _ _ \<Rightarrow> i | _ \<Rightarrow> 0)"

definition buildExtractAction :: "resolver \<Rightarrow> extract_group \<Rightarrow> (alias_registry, action) gen" where
  "buildExtractAction resolve g =
     bindG (resolve (event_index (hd (egEvents g))) (eventTime (hd (egEvents g))))
       (\<lambda>tg. returnG (plain ''extract''
          [(''name'', JStr (if egType g = ListItem then ''items'' else ''fields'')), (''target'', JObj tg),
           (''multiple'', JBool (egType g = ListItem)), (''fields'', JObj (group_fields g)), (''onEmpty'', JStr ''sendEmpty'')]))"

definition in_group :: "analyzed \<Rightarrow> nat \<Rightarrow> bool" where
  "in_group p i = list_ex (\<lambda>g. egStart g \<le> i \<and> i \<le> egEnd g) (extractGroups p)"

definition set_aside :: "analyzed \<Rightarrow> nat \<Rightarrow> bool" where
  "set_aside p i \<longleftrightarrow> list_ex (\<lambda>(k, _). k = i) (pagination p) \<or> list_ex (\<lambda>(k, _). k = i) (auth p)"

text \<open>The events before the first pattern, and those from there on, with their indices\<close>

definition leading_events :: "analyzed \<Rightarrow> (nat \<times> rec_event) list \<Rightarrow> (nat \<times> rec_event) list" where
  "leading_events p ies = takeWhile (\<lambda>(i, ev). \<not> in_group p i \<and> \<not> set_aside p i) ies"

function post_actions :: "resolver \<Rightarrow> analyzed \<Rightarrow> (nat \<times> rec_event) list \<Rightarrow> (alias_registry, action list) gen" where
  "post_actions resolve p [] = returnG []"
| "post_actions resolve p ((i, ev) # rest) =
     (if set_aside p i then post_actions resolve p rest
      else (case find (\<lambda>g. egStart g = i) (extractGroups p) of
         Some g \<Rightarrow>
           bindG (buildExtractAction resolve g)
             (\<lambda>a. bindG (post_actions resolve p (drop (egEnd g - i) rest)) (\<lambda>as. returnG (a # as)))
       | None \<Rightarrow>
           bindG (mapEvent resolve ev) (\<lambda>as. bindG (post_actions resolve p rest) (\<lambda>bs. returnG (as @ bs)))))"
  by pat_completeness auto
termination by (relation "measure (\<lambda>(resolve, p, ies). length ies)") auto

declare post_actions.simps [simp del]

definition element_exists :: "target \<Rightarrow> rule_condition" where
  "element_exists tg = \<lparr>condType = ''elementExists'', condTarget = Some tg, condText = JUndef, condPattern = JUndef,
     condValue = JUndef, condScript = None, condTimeout = None, idleTime = None\<rparr>"

text \<open>The prompt is Chinese for: please continue after the login.\<close>

definition LOGIN_PROMPT :: string where
  "LOGIN_PROMPT = map char_of ([232, 175, 183, 229, 174, 140, 230, 136, 144, 231, 153, 187, 229, 189, 149, 229, 144, 142, 231, 187,
     167, 231, 187, 173] :: nat list)"

definition auth_action :: "annotation \<Rightarrow> target \<Rightarrow> action" where
  "auth_action an tg =
     IfA empty_base (element_exists tg)
       [if an = Captcha then plain ''solveCaptcha'' [(''target'', JObj tg), (''fallbackToHuman'', JBool True)]
        else Leaf (empty_base\<lparr>timeout := Some 300000\<rparr>) ''requestHuman'' [(''type'', JStr ''generic''), (''prompt'', JStr LOGIN_PROMPT)] []]
       (Some [])"

definition build_auth :: "resolver \<Rightarrow> rec_event list \<Rightarrow> nat \<times> annotation \<Rightarrow> (alias_registry, action) gen" where
  "build_auth resolve evs ia =
     bindG (resolve (event_index (evs ! fst ia)) (eventTime (evs ! fst ia))) (\<lambda>tg. returnG (auth_action (snd ia) tg))"

definition next_page_loop :: "target \<Rightarrow> action list \<Rightarrow> action" where
  "next_page_loop tg body =
     LoopA empty_base (WhileElementExists (Some tg)) (Some 100)
       (body @ [plain ''click'' [(''target'', JObj tg)], plain ''waitForTimeout'' [(''ms'', jint 1000)]])"

definition buildAnnotatedActions :: "resolver \<Rightarrow> rec_event list \<Rightarrow> (alias_registry, action list) gen" where
  "buildAnnotatedActions resolve evs =
     (let p = analyzePatterns evs; ies = zip [0..<length evs] evs; lead = leading_events p ies in
      bindG (mapEvents resolve (map snd lead))
        (\<lambda>first. bindG (post_actions resolve p (drop (length lead) ies))
        (\<lambda>post. bindG
           (case (pagination p, extractGroups p) of
              ((_, ev) # _, _ # _) \<Rightarrow>
                bindG (resolve (event_index ev) (eventTime ev)) (\<lambda>tg. returnG (first @ [next_page_loop tg post]))
            | _ \<Rightarrow> returnG (first @ post))
        (\<lambda>main. bindG (mapG (build_auth resolve evs) (auth p)) (\<lambda>auths. returnG (main @ auths))))))"


section \<open>Variables\<close>

definition SEARCH_PARAM_NAMES :: "string list" where
  "SEARCH_PARAM_NAMES = [''q'', ''wd'', ''keyword'', ''query'', ''search'', ''kw'', ''k'']"

text \<open>
  \<open>SENSITIVE_PARAM_RE\<close>, which has no anchors and ignores case: a name matches when it contains one of
  these. The alternatives with a longer form of a shorter one are covered by it.
\<close>

definition SENSITIVE_WORDS :: "string list" where
  "SENSITIVE_WORDS = [''password'', ''passwd'', ''pwd'', ''secret'', ''token'', ''apikey'', ''api-key'', ''api_key'', ''auth'', ''cookie'',
     ''credential'', ''session'', ''sid'', ''jwt'', ''code'', ''otp'']"

definition sensitive_param :: "string \<Rightarrow> bool" where
  "sensitive_param k = list_ex (\<lambda>w. js_includes (js_toLowerCase k) w) SENSITIVE_WORDS"

definition variable_char :: "char \<Rightarrow> bool" where
  "variable_char c \<longleftrightarrow> alnum c \<or> c \<in> set ''_-@.''"

definition looksLikeVariable :: "string \<Rightarrow> bool" where
  "looksLikeVariable v \<longleftrightarrow> 1 \<le> length v \<and> length v \<le> 50
     \<and> list_all (\<lambda>w. w \<noteq> [] \<and> list_all variable_char w) (js_split CHR '' '' v)"

definition letter :: "char \<Rightarrow> bool" where
  "letter c \<longleftrightarrow> alnum c \<and> \<not> digit_char c"

definition isSafeVariableName :: "string \<Rightarrow> bool" where
  "isSafeVariableName n \<longleftrightarrow> n \<noteq> [] \<and> letter (hd n) \<and> list_all (\<lambda>c. alnum c \<or> c = CHR ''_'') (tl n)"

definition search_param :: "string \<times> string \<Rightarrow> bool" where
  "search_param kv \<longleftrightarrow> \<not> sensitive_param (fst kv) \<and> snd kv \<noteq> [] \<and> js_toLowerCase (fst kv) \<in> set SEARCH_PARAM_NAMES
     \<and> looksLikeVariable (snd kv)"

definition business_param :: "string \<times> string \<Rightarrow> bool" where
  "business_param kv \<longleftrightarrow> \<not> sensitive_param (fst kv) \<and> snd kv \<noteq> [] \<and> js_toLowerCase (fst kv) \<notin> set SEARCH_PARAM_NAMES
     \<and> looksLikeVariable (snd kv) \<and> 3 \<le> length (fst kv) \<and> 3 \<le> length (snd kv) \<and> isSafeVariableName (fst kv)"

definition extractUrlParams :: "full_url_parser \<Rightarrow> string \<Rightarrow> (string \<times> string) list" where
  "extractUrlParams parse url =
     (case parse url of
        None \<Rightarrow> []
      | Some u \<Rightarrow> map (\<lambda>kv. (''keyword'', snd kv)) (filter search_param (puParams u)) @ filter business_param (puParams u))"

definition tally :: "string list \<Rightarrow> (string \<times> nat) list" where
  "tally xs = fold (\<lambda>x acc. al_set x (Suc (case map_of acc x of None \<Rightarrow> 0 | Some n \<Rightarrow> n)) acc) xs []"

definition better :: "string \<times> nat \<Rightarrow> (string option \<times> nat) \<Rightarrow> string option \<times> nat" where
  "better it best = (if snd best < snd it then (Some (fst it), snd it) else best)"

definition findMostCommon :: "string list \<Rightarrow> string option" where
  "findMostCommon xs = fst (fold better (tally xs) (None, 0))"

definition input_texts :: "rec_event list \<Rightarrow> string list" where
  "input_texts evs = filter (\<lambda>t. t \<noteq> []) (concat (map (\<lambda>ev. case ev of InputTextEvent _ _ t _ \<Rightarrow> [t] | _ \<Rightarrow> []) evs))"

type_synonym guessed = "(string \<times> string) list"

definition url_variables :: "full_url_parser \<Rightarrow> string \<Rightarrow> guessed" where
  "url_variables parse url = fold (\<lambda>(k, v) acc. al_set k v acc) (extractUrlParams parse url) []"

definition guessVariables :: "full_url_parser \<Rightarrow> page_agent_recording \<Rightarrow> guessed" where
  "guessVariables parse rc =
     (let vs = url_variables parse (startUrl (recMeta rc)) in
      case findMostCommon (input_texts (recEvents rc)) of
        Some t \<Rightarrow> if looksLikeVariable t then al_set ''keyword'' t vs else vs
      | None \<Rightarrow> vs)"

text \<open>\<open>text.split(pat).join(r)\<close>\<close>

function replace_all :: "string \<Rightarrow> string \<Rightarrow> string \<Rightarrow> string" where
  "replace_all pat r [] = []"
| "replace_all pat r (c # cs) =
     (if pat \<noteq> [] \<and> prefix pat (c # cs) then r @ replace_all pat r (drop (length pat) (c # cs))
      else c # replace_all pat r cs)"
  by pat_completeness auto
termination by (relation "measure (\<lambda>(pat, r, s). length s)") auto

declare replace_all.simps [simp del]

definition placeholder :: "string \<Rightarrow> string" where
  "placeholder n = ''{{'' @ n @ ''}}''"

definition form_encoded :: "string \<Rightarrow> string" where
  "form_encoded v = replace_all ''%20'' ''+'' (encodeURIComponent v)"

definition by_length :: "guessed \<Rightarrow> guessed" where
  "by_length vs = sort_key (\<lambda>(k, v). - int (length v)) vs"

definition replace_variable :: "string \<Rightarrow> string \<Rightarrow> string \<Rightarrow> string" where
  "replace_variable n v text =
     fold (\<lambda>c t. replace_all c (placeholder n) t) (rev (remdups (rev [v, encodeURIComponent v, form_encoded v]))) text"

primrec templatize_with :: "guessed \<Rightarrow> string \<Rightarrow> string" where
  "templatize_with [] text = text"
| "templatize_with (kv # vs) text =
     (if text = snd kv then placeholder (fst kv) else templatize_with vs (replace_variable (fst kv) (snd kv) text))"

definition templatize :: "guessed \<Rightarrow> string \<Rightarrow> string" where
  "templatize vs text = templatize_with (by_length vs) text"


section \<open>The conversion\<close>

record convert_options =
  optimizeSelectors :: bool
  guessVariablesOpt :: bool
  defaultHumanize :: "jval option"
  ruleIdPrefix :: "string option"

definition DEFAULT_HUMANIZE :: jval where
  "DEFAULT_HUMANIZE = JObj [(''preDelay'', JArr [jint 100, jint 300]), (''postDelay'', JArr [jint 100, jint 300])]"

text \<open>The three loops build a result that is read at its end, here kept in reverse.\<close>

definition merge_submit :: "rec_event list \<Rightarrow> rec_event \<Rightarrow> rec_event list" where
  "merge_submit acc ev =
     (case ev of
        SubmitFormEvent _ i _ \<Rightarrow>
          (case acc of
             InputTextEvent t j x _ # rest \<Rightarrow> if j = i then InputTextEvent t j x True # rest else ev # acc
           | _ \<Rightarrow> ev # acc)
      | _ \<Rightarrow> ev # acc)"

definition mergeSubmitFormEvents :: "rec_event list \<Rightarrow> rec_event list" where
  "mergeSubmitFormEvents evs = rev (foldl merge_submit [] evs)"

text \<open>The new text goes on from the previous one of the same control, which was not submitted.\<close>

definition continues_input :: "rec_event \<Rightarrow> rec_event \<Rightarrow> bool" where
  "continues_input prev ev =
     (case (prev, ev) of
        (InputTextEvent _ j x sub, InputTextEvent _ i y _) \<Rightarrow> j = i \<and> length x < length y \<and> prefix x y \<and> \<not> sub
      | _ \<Rightarrow> False)"

definition coalesce_input :: "rec_event list \<Rightarrow> rec_event \<Rightarrow> rec_event list" where
  "coalesce_input acc ev = (case acc of prev # rest \<Rightarrow> if continues_input prev ev then ev # rest else ev # acc | [] \<Rightarrow> [ev])"

definition coalesceIncrementalInputTextEvents :: "rec_event list \<Rightarrow> rec_event list" where
  "coalesceIncrementalInputTextEvents evs = rev (foldl coalesce_input [] evs)"

definition opens_tab :: "rec_event \<Rightarrow> rec_event \<Rightarrow> bool" where
  "opens_tab ev nxt =
     (case (ev, nxt) of
        (ClickEvent _ _ dest newTab _, NavigateEvent _ url viaTab) \<Rightarrow> newTab \<and> present dest = Some url \<and> viaTab
      | _ \<Rightarrow> False)"

fun collapseOpenedTabTransition :: "rec_event list \<Rightarrow> rec_event list" where
  "collapseOpenedTabTransition (ev # nxt # rest) =
     (if opens_tab ev nxt then ev # collapseOpenedTabTransition rest else ev # collapseOpenedTabTransition (nxt # rest))"
| "collapseOpenedTabTransition evs = evs"

definition normalize_events :: "rec_event list \<Rightarrow> rec_event list" where
  "normalize_events evs = collapseOpenedTabTransition (mergeSubmitFormEvents (coalesceIncrementalInputTextEvents evs))"

definition LOOPBACK_HOSTS :: "string list" where
  "LOOPBACK_HOSTS = [''localhost'', ''127.0.0.1'', ''[::1]'']"

definition recorded_host :: "full_url_parser \<Rightarrow> string \<Rightarrow> string option" where
  "recorded_host parse raw =
     (if js_trim raw = [] then None
      else (case parse raw of
         None \<Rightarrow> None
       | Some u \<Rightarrow>
           if (puProtocol u \<noteq> ''https:'' \<and> \<not> (puProtocol u = ''http:'' \<and> puHostname u \<in> set LOOPBACK_HOSTS))
              \<or> puUsername u \<noteq> [] \<or> puPassword u \<noteq> []
           then None else present (Some (js_toLowerCase (puHostname u)))))"

definition event_urls :: "rec_event \<Rightarrow> string list" where
  "event_urls ev =
     (case ev of
        NavigateEvent _ url _ \<Rightarrow> [url]
      | ClickEvent _ _ (Some dest) newTab _ \<Rightarrow> if newTab then [dest] else []
      | _ \<Rightarrow> [])"

definition recorded_urls :: "page_agent_recording \<Rightarrow> string list" where
  "recorded_urls rc = startUrl (recMeta rc) # concat (map event_urls (recEvents rc)) @ map rsUrl (recSnapshots rc)"

definition add_new :: "string option \<Rightarrow> string list \<Rightarrow> string list" where
  "add_new h ds = (case h of None \<Rightarrow> ds | Some d \<Rightarrow> if d \<in> set ds then ds else ds @ [d])"

text \<open>A single domain is a string of the rule, here the list of it.\<close>

definition recordedHttpsDomains :: "full_url_parser \<Rightarrow> page_agent_recording \<Rightarrow> string list" where
  "recordedHttpsDomains parse rc =
     (let ds = fold (\<lambda>raw. add_new (recorded_host parse raw)) (recorded_urls rc) [] in
      if ds = [] then [recDomain (recMeta rc)] else ds)"

definition isSafeRecordedEntry :: "full_url_parser \<Rightarrow> string \<Rightarrow> bool" where
  "isSafeRecordedEntry parse raw \<longleftrightarrow> js_trim raw \<noteq> [] \<and>
     (case parse raw of
        None \<Rightarrow> False
      | Some u \<Rightarrow> (puProtocol u = ''http:'' \<or> puProtocol u = ''https:'') \<and> puUsername u = [] \<and> puPassword u = [] \<and> puHostname u \<noteq> [])"

definition entry_candidates :: "page_agent_recording \<Rightarrow> (int \<times> string) list" where
  "entry_candidates rc =
     concat (map (\<lambda>ev. case ev of NavigateEvent t url _ \<Rightarrow> [(t, url)] | _ \<Rightarrow> []) (recEvents rc))
     @ map (\<lambda>s. (rsTime s, rsUrl s)) (recSnapshots rc)"

text \<open>The sort is by time and then by position, which is the stable sort by time.\<close>

definition recordedEntry :: "full_url_parser \<Rightarrow> page_agent_recording \<Rightarrow> string" where
  "recordedEntry parse rc =
     (if isSafeRecordedEntry parse (startUrl (recMeta rc)) then startUrl (recMeta rc)
      else (case find (\<lambda>(t, url). isSafeRecordedEntry parse url) (sort_key fst (entry_candidates rc)) of
         Some (_, url) \<Rightarrow> url
       | None \<Rightarrow> startUrl (recMeta rc)))"

definition templatize_field :: "(string \<Rightarrow> string) \<Rightarrow> string \<Rightarrow> jobj \<Rightarrow> jobj" where
  "templatize_field f k fs = (case obj_get fs k of JStr s \<Rightarrow> al_set k (JStr (f s)) fs | _ \<Rightarrow> fs)"

text \<open>Only the actions at the top are visited.\<close>

definition templatize_action :: "(string \<Rightarrow> string) \<Rightarrow> action \<Rightarrow> action" where
  "templatize_action f a =
     (case a of
        Leaf b t fs nested \<Rightarrow>
          Leaf b t (if t = ''navigate'' then templatize_field f ''url'' fs
                    else if t = ''type'' \<or> t = ''select'' then templatize_field f ''value'' fs else fs) nested
      | _ \<Rightarrow> a)"

definition error_hook :: rule_hooks where
  "error_hook = \<lparr>beforeAll = None, afterAll = None,
     onErrorHook = Some [plain ''saveSnapshot'' [(''name'', JStr ''errorSnapshot'')], plain ''flushResults'' []], cleanupHook = None\<rparr>"

text \<open>Whether there are marks is asked of the events as they were recorded.\<close>

definition event_actions :: "resolver \<Rightarrow> bool \<Rightarrow> rec_event list \<Rightarrow> (alias_registry, action list) gen" where
  "event_actions resolve marked evs = (if marked then buildAnnotatedActions resolve evs else mapEvents resolve evs)"

definition generated_id :: "convert_options \<Rightarrow> page_agent_recording \<Rightarrow> int \<Rightarrow> string" where
  "generated_id opts rc now =
     (case present (ruleIdPrefix opts) of
        Some p \<Rightarrow> p @ ''-'' @ show_int now
      | None \<Rightarrow> ''recorded-'' @ recDomain (recMeta rc) @ ''-'' @ show_int now)"

definition convert :: "full_url_parser \<Rightarrow> int \<Rightarrow> page_agent_recording \<Rightarrow> convert_options \<Rightarrow> exn + rule" where
  "convert parse now rc opts =
     (let evs = normalize_events (recEvents rc) in
      case event_actions (resolveEventTarget rc (optimizeSelectors opts)) (hasAnnotations (recEvents rc)) evs empty_registry of
        Inl e \<Rightarrow> Inl e
      | Inr (actions, reg) \<Rightarrow>
          (let vs = (if guessVariablesOpt opts then guessVariables parse (rc\<lparr>recEvents := evs\<rparr>) else []);
               f = (if guessVariablesOpt opts then templatize vs else id)
           in Inr \<lparr>ruleIdOf = generated_id opts rc now, version = ''1.0.0'', domain = recordedHttpsDomains parse rc,
                entry = Some (recordedEntry parse rc), ruleVariables = map (\<lambda>(k, v). (k, JStr v)) vs,
                selectors = getAliases reg, ruleHumanize = Some (case defaultHumanize opts of None \<Rightarrow> DEFAULT_HUMANIZE | Some h \<Rightarrow> h),
                ruleRetry = None, screenshotOnError = False, outputSchema = None, outputOnInvalid = None, sendPolicy = None,
                ruleTimeout = None, maxRetries = None, hooks = error_hook, steps = map (templatize_action f) actions\<rparr>))"

end
