(* ===== verification/Rule_Generator_Laws.thy ===== *)
theory Rule_Generator_Laws
  imports Rule_Converter Preflight
begin

text \<open>
  How events are resolved: the snapshot an event is resolved against is the last one before it, and the
  registry of the aliases only grows and describes recorded elements. The locale \<open>resolving\<close> is what
  the mappers of the events need of their resolver; under it every action they make refers to known
  aliases only and carries no script.
\<close>

section \<open>The snapshot of an event\<close>

lemma search_snapshot_steps:
  shows "hi < lo \<Longrightarrow> search_snapshot ss t lo hi best = best"
    and "\<not> hi < lo \<Longrightarrow> rsTime (ss ! nat ((lo + hi) div 2)) \<le> t \<Longrightarrow>
      search_snapshot ss t lo hi best = search_snapshot ss t ((lo + hi) div 2 + 1) hi ((lo + hi) div 2)"
    and "\<not> hi < lo \<Longrightarrow> \<not> rsTime (ss ! nat ((lo + hi) div 2)) \<le> t \<Longrightarrow>
      search_snapshot ss t lo hi best = search_snapshot ss t lo ((lo + hi) div 2 - 1) best"
  by (simp_all add: search_snapshot.simps [of ss t lo hi best] Let_def)

text \<open>What the binary search has found: everything before \<open>lo\<close> is not later than \<open>t\<close>, everything behind \<open>hi\<close> is.\<close>

lemma search_snapshot_spec:
  assumes "sorted (map rsTime ss)" and "0 \<le> lo" and "hi < int (length ss)" and "lo \<le> hi + 1" and "best = lo - 1"
    and "\<forall>i < nat lo. rsTime (ss ! i) \<le> t" and "\<forall>i. nat (hi + 1) \<le> i \<and> i < length ss \<longrightarrow> t < rsTime (ss ! i)"
  shows "\<exists>k \<le> length ss. search_snapshot ss t lo hi best = int k - 1
     \<and> (\<forall>i < k. rsTime (ss ! i) \<le> t) \<and> (\<forall>i. k \<le> i \<and> i < length ss \<longrightarrow> t < rsTime (ss ! i))"
  using assms
proof (induction ss t lo hi best rule: search_snapshot.induct)
  case (1 ss t lo hi best)
  show ?case
  proof (cases "hi < lo")
    case True
    then have found: "search_snapshot ss t lo hi best = best" by (rule search_snapshot_steps(1))
    have "lo = hi + 1" using True 1(6) by simp
    then show ?thesis using 1(4-9) found by (intro exI [of _ "nat lo"]) auto
  next
    case False
    let ?mid = "(lo + hi) div 2"
    have mid: "lo \<le> ?mid" "?mid \<le> hi" using False by auto
    then have in_range: "nat ?mid < length ss" using 1(4,5) by linarith
    have sorted: "i \<le> j \<Longrightarrow> j < length ss \<Longrightarrow> rsTime (ss ! i) \<le> rsTime (ss ! j)" for i j
      using sorted_nth_mono [OF 1(3), of i j] by simp
    show ?thesis
    proof (cases "rsTime (ss ! nat ?mid) \<le> t")
      case True
      have "\<forall>i < nat (?mid + 1). rsTime (ss ! i) \<le> t"
      proof (intro allI impI)
        fix i assume "i < nat (?mid + 1)"
        then have "i \<le> nat ?mid" using mid 1(4) by linarith
        then show "rsTime (ss ! i) \<le> t" using sorted [OF _ in_range] True by (meson order_trans)
      qed
      then show ?thesis
        using 1(1) [OF False refl True] 1(3,4,5,9) mid by (simp add: search_snapshot_steps(2) [OF False True])
    next
      case later: False
      have "\<forall>i. nat (?mid - 1 + 1) \<le> i \<and> i < length ss \<longrightarrow> t < rsTime (ss ! i)"
        using sorted [of "nat ?mid"] later by (auto intro: less_le_trans simp: not_le)
      then show ?thesis
        using 1(2) [OF False refl later] 1(3-8) mid unfolding search_snapshot_steps(3) [OF False later] by simp
    qed
  qed
qed

lemma filter_prefix:
  assumes "k \<le> length xs" and "\<forall>i < k. P (xs ! i)" and "\<forall>i. k \<le> i \<and> i < length xs \<longrightarrow> \<not> P (xs ! i)"
  shows "filter P xs = take k xs"
proof -
  have "filter P (take k xs) = take k xs"
    using assms(1,2) by (auto simp: filter_id_conv in_set_conv_nth)
  moreover have "filter P (drop k xs) = []"
    using assms(1,3) by (auto simp: filter_empty_conv in_set_conv_nth)
  ultimately show ?thesis
    using filter_append [of P "take k xs" "drop k xs"] by simp
qed

text \<open>The reference: the last of the snapshots that are not later\<close>

definition last_not_later :: "rec_snapshot list \<Rightarrow> int \<Rightarrow> rec_snapshot option" where
  "last_not_later ss t =
     (case rev (filter (\<lambda>s. rsTime s \<le> t) ss) of [] \<Rightarrow> None | s # _ \<Rightarrow> Some s)"

text \<open>In snapshots taken in the order of their times, the binary search finds the last one that is not later than the event.\<close>

theorem findSnapshot_last_not_later:
  assumes "sorted (map rsTime ss)"
  shows "findSnapshot ss t = last_not_later ss t"
proof (cases "ss = []")
  case True
  then show ?thesis by (simp add: findSnapshot_def last_not_later_def)
next
  case False
  have "\<exists>k \<le> length ss. search_snapshot ss t 0 (int (length ss) - 1) (-1) = int k - 1
     \<and> (\<forall>i < k. rsTime (ss ! i) \<le> t) \<and> (\<forall>i. k \<le> i \<and> i < length ss \<longrightarrow> t < rsTime (ss ! i))"
    by (rule search_snapshot_spec [OF assms]) simp_all
  then obtain k where k: "k \<le> length ss" "search_snapshot ss t 0 (int (length ss) - 1) (-1) = int k - 1"
      "\<forall>i < k. rsTime (ss ! i) \<le> t" "\<forall>i. k \<le> i \<and> i < length ss \<longrightarrow> \<not> rsTime (ss ! i) \<le> t"
    unfolding not_le by blast
  have kept: "filter (\<lambda>s. rsTime s \<le> t) ss = take k ss" by (rule filter_prefix [OF k(1,3,4)])
  show ?thesis
  proof (cases k)
    case 0
    then show ?thesis using False k(2) kept by (simp add: findSnapshot_def last_not_later_def)
  next
    case (Suc n)
    then have "take k ss = take n ss @ [ss ! n]" using k(1) by (simp add: take_Suc_conv_app_nth)
    then show ?thesis using False k(2) kept Suc by (simp add: findSnapshot_def last_not_later_def)
  qed
qed

lemma search_snapshot_range:
  "0 \<le> lo \<Longrightarrow> hi < int (length ss) \<Longrightarrow> best < int (length ss) \<Longrightarrow> search_snapshot ss t lo hi best < int (length ss)"
proof (induction ss t lo hi best rule: search_snapshot.induct)
  case (1 ss t lo hi best)
  show ?case
  proof (cases "hi < lo")
    case True
    then show ?thesis using 1(5) by (simp add: search_snapshot_steps(1))
  next
    case False
    then have mid: "lo \<le> (lo + hi) div 2" "(lo + hi) div 2 \<le> hi" by auto
    show ?thesis
    proof (cases "rsTime (ss ! nat ((lo + hi) div 2)) \<le> t")
      case True
      then show ?thesis
        using 1(1) [OF False refl True] 1(3-5) mid unfolding search_snapshot_steps(2) [OF False True] by simp
    next
      case later: False
      then show ?thesis
        using 1(2) [OF False refl later] 1(3-5) mid unfolding search_snapshot_steps(3) [OF False later] by simp
    qed
  qed
qed

lemma findSnapshot_in: "findSnapshot ss t = Some s \<Longrightarrow> s \<in> set ss"
  using search_snapshot_range [of 0 "int (length ss) - 1" ss "-1" t]
  by (auto simp: findSnapshot_def Let_def split: if_splits intro!: nth_mem)

lemma findEventSnapshot_in: "findEventSnapshot rc i t = Inr (Some s) \<Longrightarrow> s \<in> set (recSnapshots rc)"
  by (auto simp: findEventSnapshot_def findSnapshot_in split: list.splits
      dest!: arg_cong [of "filter _ _" _ set])

definition three_snapshots :: "rec_snapshot list" where
  "three_snapshots = map (\<lambda>t. \<lparr>rsTime = t, rsUrl = [], rsPhase = None, rsSelectorMap = []\<rparr>) [10, 20, 30]"

theorem findSnapshot_last_not_later_witness:
  "findSnapshot three_snapshots 25 = last_not_later three_snapshots 25
   \<and> map_option rsTime (last_not_later three_snapshots 25) = Some 20"
proof -
  have "sorted (map rsTime three_snapshots)" by (simp add: three_snapshots_def)
  moreover have "map_option rsTime (last_not_later three_snapshots 25) = Some 20"
    by (simp add: three_snapshots_def last_not_later_def)
  ultimately show ?thesis using findSnapshot_last_not_later by blast
qed


section \<open>What a conversion leaves in the registry\<close>

definition recorded_element :: "page_agent_recording \<Rightarrow> element_info \<Rightarrow> bool" where
  "recorded_element rc info \<longleftrightarrow> (\<exists>s \<in> set (recSnapshots rc). \<exists>i. map_of (rsSelectorMap s) i = Some info)"

text \<open>The selector is the recorded one, or the one the optimiser makes of it.\<close>

definition selector_for :: "element_info \<Rightarrow> string \<Rightarrow> bool" where
  "selector_for info sel \<longleftrightarrow> sel = eiSelector info \<or> (\<exists>sels. sel = optimizeSelector info sels)"

definition describes_element :: "page_agent_recording \<Rightarrow> target \<Rightarrow> bool" where
  "describes_element rc tg \<longleftrightarrow> (\<exists>info sel. tg = buildTarget sel info \<and> recorded_element rc info \<and> selector_for info sel)"

text \<open>Every key has its own alias, numbered from 1, and every entry describes a recorded element.\<close>

definition registry_ok :: "page_agent_recording \<Rightarrow> alias_registry \<Rightarrow> bool" where
  "registry_ok rc g \<longleftrightarrow> al_wf (aliasEntries g) \<and>
     map (\<lambda>(k, al, t). al) (aliasEntries g) = map (\<lambda>n. alias_name (Suc n)) [0..<aliasCounter g]
     \<and> list_all (\<lambda>(k, al, t). describes_element rc t) (aliasEntries g)"

definition grows_to :: "alias_registry \<Rightarrow> alias_registry \<Rightarrow> bool" where
  "grows_to g g' \<longleftrightarrow> (\<forall>k x. map_of (aliasEntries g) k = Some x \<longrightarrow> map_of (aliasEntries g') k = Some x)"

definition known_alias :: "alias_registry \<Rightarrow> string \<Rightarrow> bool" where
  "known_alias g al \<longleftrightarrow> (\<exists>k t. map_of (aliasEntries g) k = Some (al, t))"

definition known_target :: "alias_registry \<Rightarrow> target \<Rightarrow> bool" where
  "known_target g tg \<longleftrightarrow> (\<exists>al. tg = ref_target al \<and> known_alias g al)"

lemma grows_to_refl: "grows_to g g"
  by (simp add: grows_to_def)

lemma grows_to_trans: "grows_to g g' \<Longrightarrow> grows_to g' g'' \<Longrightarrow> grows_to g g''"
  by (simp add: grows_to_def)

lemma registry_ok_empty: "registry_ok rc empty_registry"
  by (simp add: registry_ok_def empty_registry_def)

lemma al_set_new: "map_of es k = None \<Longrightarrow> al_set k v es = es @ [(k, v)]"
  by (induction es) (auto split: if_splits)

text \<open>
  A computation of the generator is growing when it keeps the registry well formed and only adds to it;
  it yields \<open>Q\<close> when its result satisfies \<open>Q\<close> in every registry that the later steps may reach.
\<close>

definition growing :: "page_agent_recording \<Rightarrow> (alias_registry, 'a) gen \<Rightarrow> bool" where
  "growing rc m \<longleftrightarrow> (\<forall>g a g'. registry_ok rc g \<and> m g = Inr (a, g') \<longrightarrow> registry_ok rc g' \<and> grows_to g g')"

definition yields :: "page_agent_recording \<Rightarrow> (alias_registry \<Rightarrow> 'a \<Rightarrow> bool) \<Rightarrow> (alias_registry, 'a) gen \<Rightarrow> bool" where
  "yields rc Q m \<longleftrightarrow> (\<forall>g a g' e. registry_ok rc g \<and> m g = Inr (a, g') \<and> grows_to g' e \<longrightarrow> Q e a)"

lemma growing_return: "growing rc (returnG a)"
  by (auto simp: growing_def gen_Inr grows_to_refl)

lemma growing_throw: "growing rc (throwG m)"
  by (simp add: growing_def throwG_Inr)

lemma growing_bind: "growing rc m \<Longrightarrow> (\<And>a. growing rc (k a)) \<Longrightarrow> growing rc (bindG m k)"
  unfolding growing_def bindG_Inr by (blast intro: grows_to_trans)

lemma growing_map: "(\<And>x. growing rc (f x)) \<Longrightarrow> growing rc (mapG f xs)"
  by (induction xs) (simp_all add: growing_return growing_bind)

lemma yields_return: "(\<And>e. Q e a) \<Longrightarrow> yields rc Q (returnG a)"
  by (auto simp: yields_def gen_Inr)

lemma yields_throw: "yields rc Q (throwG m)"
  by (simp add: yields_def throwG_Inr)

lemma yields_mono: "yields rc Q m \<Longrightarrow> (\<And>e a. Q e a \<Longrightarrow> R e a) \<Longrightarrow> yields rc R m"
  unfolding yields_def by blast

lemma yields_bind:
  assumes "growing rc m" and "yields rc Q m" and grow: "\<And>a. growing rc (k a)"
    and "\<And>a. yields rc (\<lambda>e b. Q e a \<longrightarrow> R e b) (k a)"
  shows "yields rc R (bindG m k)"
  unfolding yields_def bindG_Inr
proof (intro allI impI, elim conjE exE)
  fix g b g' e a g1
  assume "registry_ok rc g" and "grows_to g' e" and first: "m g = Inr (a, g1)" and second: "k a g1 = Inr (b, g')"
  moreover have "registry_ok rc g1" using calculation(1) first assms(1) unfolding growing_def by blast
  moreover have "grows_to g1 e"
    using calculation(2,5) second grow unfolding growing_def by (blast intro: grows_to_trans)
  ultimately have "Q e a" and "Q e a \<longrightarrow> R e b" using assms(2,4) unfolding yields_def by blast+
  then show "R e b" by blast
qed

lemma yields_returned: "(\<And>e. Q e a \<Longrightarrow> R e b) \<Longrightarrow> yields rc (\<lambda>e b. Q e a \<longrightarrow> R e b) (returnG b)"
  by (rule yields_return) blast

lemma yields_under: "yields rc R m \<Longrightarrow> yields rc (\<lambda>e b. P e \<longrightarrow> R e b) m"
  unfolding yields_def by blast

lemma yields_map:
  assumes "\<And>x. growing rc (f x)" and "\<And>x. yields rc Q (f x)"
  shows "yields rc (\<lambda>e. list_all (Q e)) (mapG f xs)"
proof (induction xs)
  case Nil
  then show ?case by (simp add: yields_return)
next
  case (Cons x xs)
  show ?case
    unfolding mapG.simps
    by (intro yields_bind [OF assms] growing_bind growing_map assms(1) growing_return
        yields_bind [OF growing_map [OF assms(1)], where Q = "\<lambda>e. list_all (Q e)"] yields_return Cons.IH) simp
qed


lemma known_alias_grows: "known_alias g al \<Longrightarrow> grows_to g e \<Longrightarrow> known_alias e al"
  unfolding known_alias_def grows_to_def by blast

lemma getAlias_ok:
  assumes "recorded_element rc info" and "selector_for info sel"
  shows "growing rc (getAlias sel info)" and "yields rc known_alias (getAlias sel info)"
proof -
  have both: "registry_ok rc g' \<and> grows_to g g' \<and> known_alias g' al"
    if ok: "registry_ok rc g" and run: "getAlias sel info g = Inr (al, g')" for g al g'
  proof (cases "map_of (aliasEntries g) (compositeKey sel info)")
    case (Some x)
    then obtain t where "g' = g" "map_of (aliasEntries g) (compositeKey sel info) = Some (al, t)"
      using run by (cases x) (auto simp: getAlias_def Let_def)
    then show ?thesis using ok unfolding known_alias_def by (auto simp: grows_to_refl)
  next
    case None
    let ?al = "alias_name (Suc (aliasCounter g))" and ?t = "buildTarget sel info"
    have g': "al = ?al" "aliasCounter g' = Suc (aliasCounter g)"
        "aliasEntries g' = aliasEntries g @ [(compositeKey sel info, ?al, ?t)]"
      using run None by (auto simp: getAlias_def Let_def al_set_new)
    have "describes_element rc ?t" using assms unfolding describes_element_def by blast
    moreover have "compositeKey sel info \<notin> fst ` set (aliasEntries g)"
      using None by (simp add: map_of_eq_None_iff)
    ultimately have "registry_ok rc g'"
      using ok unfolding registry_ok_def g' by (auto simp: al_wf_def)
    moreover have "grows_to g g'" using None unfolding grows_to_def g' by (auto simp: map_add_def split: option.splits)
    moreover have "map_of (aliasEntries g') (compositeKey sel info) = Some (al, ?t)"
      using None unfolding g' by (simp add: map_add_def)
    ultimately show ?thesis unfolding known_alias_def by blast
  qed
  then show "growing rc (getAlias sel info)" unfolding growing_def by blast
  from both show "yields rc known_alias (getAlias sel info)"
    unfolding yields_def using known_alias_grows by blast
qed

lemma selector_for_resolved:
  "selector_for info (if b then optimizeSelector info sels else eiSelector info)"
  unfolding selector_for_def by auto

lemma resolveEventTarget_ok:
  "growing rc (resolveEventTarget rc opt i t)" "yields rc known_target (resolveEventTarget rc opt i t)"
proof -
  have "growing rc (resolveEventTarget rc opt i t) \<and> yields rc known_target (resolveEventTarget rc opt i t)"
  proof (cases "\<exists>snap info. findEventSnapshot rc i t = Inr (Some snap) \<and> map_of (rsSelectorMap snap) i = Some info")
    case True
    then obtain snap info where found: "findEventSnapshot rc i t = Inr (Some snap)"
        "map_of (rsSelectorMap snap) i = Some info" by blast
    then have "recorded_element rc info" unfolding recorded_element_def using findEventSnapshot_in by blast
    note known = getAlias_ok [OF this selector_for_resolved]
    show ?thesis unfolding resolveEventTarget_def found sum.case option.case
      by (intro conjI growing_bind yields_bind [OF known] known growing_return yields_return)
        (auto simp: known_target_def)
  next
    case False
    then have "\<exists>m. resolveEventTarget rc opt i t = throwG m"
      unfolding resolveEventTarget_def by (auto split: sum.splits option.splits)
    then show ?thesis using growing_throw yields_throw by metis
  qed
  then show "growing rc (resolveEventTarget rc opt i t)" and "yields rc known_target (resolveEventTarget rc opt i t)" by auto
qed


section \<open>The steps of a generated rule\<close>

definition condition_targets :: "rule_condition option \<Rightarrow> target list" where
  "condition_targets c = (case c of None \<Rightarrow> [] | Some x \<Rightarrow> (case condTarget x of None \<Rightarrow> [] | Some tg \<Rightarrow> [tg]))"

definition action_targets :: "action \<Rightarrow> target list" where
  "action_targets a =
     condition_targets (step_condition a)
     @ (case a of
          Leaf _ _ fs _ \<Rightarrow> (case obj_get fs ''target'' of JObj tg \<Rightarrow> [tg] | _ \<Rightarrow> [])
        | LoopA _ (WhileElementExists (Some tg)) _ _ \<Rightarrow> [tg]
        | LoopA _ (WhileElementNotExists (Some tg)) _ _ \<Rightarrow> [tg]
        | _ \<Rightarrow> [])"

definition everywhere :: "(action \<Rightarrow> bool) \<Rightarrow> action \<Rightarrow> bool" where
  "everywhere P a \<longleftrightarrow> (\<forall>cs b ds. occurs_in a cs b ds \<longrightarrow> P b)"

text \<open>The containers around a step do not matter for what stands below it.\<close>

lemma occurs_in_elsewhere: "occurs_in x cs b ds \<Longrightarrow> \<exists>ds'. occurs_in x cs' b ds'"
proof (induction arbitrary: cs' rule: occurs_in.induct)
  case (here a cs)
  show ?case using occurs_in.here by blast
next
  case (deeper k xs a x cs b ds)
  show ?case using deeper.IH [of "cs' @ k"] deeper.hyps(1,2) occurs_in.deeper by blast
qed

lemma everywhere_unfold: "everywhere P a \<longleftrightarrow> P a \<and> (\<forall>(k, xs) \<in> set (bodies a). list_all (everywhere P) xs)"
proof
  assume all: "everywhere P a"
  then have "P a" unfolding everywhere_def using occurs_in.here by blast
  moreover have "everywhere P x" if "(k, xs) \<in> set (bodies a)" "x \<in> set xs" for k xs x
    unfolding everywhere_def
  proof (intro allI impI)
    fix cs b ds assume "occurs_in x cs b ds"
    then obtain ds' where "occurs_in x ([] @ k) b ds'" using occurs_in_elsewhere by blast
    then show "P b" using all occurs_in.deeper [OF that] unfolding everywhere_def by blast
  qed
  ultimately show "P a \<and> (\<forall>(k, xs) \<in> set (bodies a). list_all (everywhere P) xs)"
    by (auto simp: list_all_iff)
next
  assume top: "P a \<and> (\<forall>(k, xs) \<in> set (bodies a). list_all (everywhere P) xs)"
  show "everywhere P a" unfolding everywhere_def
  proof (intro allI impI)
    fix cs b ds assume "occurs_in a cs b ds"
    then show "P b" using top by (cases rule: occurs_in.cases) (fastforce simp: list_all_iff everywhere_def)+
  qed
qed

lemma everywhere_simps:
  "everywhere P (Leaf b t fs []) \<longleftrightarrow> P (Leaf b t fs [])"
  "everywhere P (IfA b c th el) \<longleftrightarrow> P (IfA b c th el) \<and> list_all (everywhere P) th
     \<and> (case el of None \<Rightarrow> True | Some as \<Rightarrow> list_all (everywhere P) as)"
  "everywhere P (LoopA b k n as) \<longleftrightarrow> P (LoopA b k n as) \<and> list_all (everywhere P) as"
  by (simp_all only: everywhere_unfold [of P "Leaf b t fs []"] everywhere_unfold [of P "IfA b c th el"]
      everywhere_unfold [of P "LoopA b k n as"] bodies.simps)
    (auto simp: named_array_def split: option.splits)

text \<open>Targets are known aliases, and there is no script and no history navigation.\<close>

definition unscripted :: "action \<Rightarrow> bool" where
  "unscripted a \<longleftrightarrow> \<not> scripted a \<and> map_option condType (step_condition a) \<noteq> Some ''jsTruthy''
     \<and> actionType a \<notin> {''goBack'', ''goForward''}"

definition step_fit :: "alias_registry \<Rightarrow> action \<Rightarrow> bool" where
  "step_fit g a \<longleftrightarrow> list_all (known_target g) (action_targets a) \<and> unscripted a"

abbreviation fit :: "alias_registry \<Rightarrow> action \<Rightarrow> bool" where
  "fit g \<equiv> everywhere (step_fit g)"


lemma plain_fit:
  "t \<notin> {''evaluate'', ''waitForFunction'', ''goBack'', ''goForward''} \<Longrightarrow>
   (case obj_get fs ''target'' of JObj tg \<Rightarrow> known_target e tg | _ \<Rightarrow> True) \<Longrightarrow> fit e (plain t fs)"
  by (auto simp: plain_def everywhere_simps step_fit_def unscripted_def scripted_def action_targets_def condition_targets_def
      step_condition_def empty_base_def split: jval.splits)

text \<open>
  What the mappers need of a resolver: it only adds to the registry, and the target it answers is an
  alias that the registry knows.
\<close>

locale resolving =
  fixes rc :: page_agent_recording and resolve :: resolver
  assumes grows: "growing rc (resolve i t)" and knows: "yields rc known_target (resolve i t)"
begin

lemma targeted:
  assumes "\<And>e tg. known_target e tg \<Longrightarrow> list_all (fit e) (f tg)"
  shows "growing rc (bindG (resolve i t) (\<lambda>tg. returnG (f tg)))"
    and "yields rc (\<lambda>e. list_all (fit e)) (bindG (resolve i t) (\<lambda>tg. returnG (f tg)))"
  by (intro growing_bind grows growing_return yields_bind [OF grows knows] yields_returned assms; assumption)+

lemma mapEvent_ok:
  "growing rc (mapEvent resolve ev) \<and> yields rc (\<lambda>e. list_all (fit e)) (mapEvent resolve ev)"
  by (cases ev)
    (auto simp: mapEvent_def mapClick_def mapInputText_def mapSubmitForm_def mapScroll_def mapExtract_def Let_def
      navigate_action_def obj_get_def intro!: growing_return yields_return targeted plain_fit
      split: option.splits extract_mode.splits)

lemma mapEvents_ok:
  "growing rc (mapEvents resolve evs)" "yields rc (\<lambda>e. list_all (fit e)) (mapEvents resolve evs)"
proof -
  have g: "growing rc (mapEvent resolve ev)" and y: "yields rc (\<lambda>e. list_all (fit e)) (mapEvent resolve ev)" for ev
    using mapEvent_ok by auto
  show "growing rc (mapEvents resolve evs)"
    unfolding mapEvents_def by (intro growing_bind growing_map g growing_return)
  show "yields rc (\<lambda>e. list_all (fit e)) (mapEvents resolve evs)"
    unfolding mapEvents_def
    by (rule yields_bind [OF growing_map [OF g] yields_map [OF g y]]; intro growing_return yields_returned)
      (auto simp: list_all_iff)
qed

lemma buildExtractAction_ok:
  "growing rc (buildExtractAction resolve gr)" "yields rc fit (buildExtractAction resolve gr)"
  unfolding buildExtractAction_def
  by (intro growing_bind grows growing_return)
    (intro yields_bind [OF grows knows] growing_return yields_returned plain_fit; simp add: obj_get_def)

lemma post_actions_ok:
  "growing rc (post_actions resolve p ies) \<and> yields rc (\<lambda>e. list_all (fit e)) (post_actions resolve p ies)"
proof (induction "length ies" arbitrary: ies rule: less_induct)
  case less
  show ?case
  proof (cases ies)
    case Nil
    then show ?thesis by (simp add: post_actions.simps growing_return yields_return)
  next
    case (Cons x rest)
    obtain i ev where x: "x = (i, ev)" by (cases x)
    have later: "growing rc (post_actions resolve p (drop n rest))"
        "yields rc (\<lambda>e. list_all (fit e)) (post_actions resolve p (drop n rest))" for n
      using less.hyps [of "drop n rest"] Cons by auto
    note rest = later [of 0, unfolded drop_0]
    note event = mapEvent_ok [of ev, THEN conjunct1] mapEvent_ok [of ev, THEN conjunct2]
    show ?thesis
      unfolding Cons x post_actions.simps
    proof (cases "set_aside p i"; cases "find (\<lambda>g. egStart g = i) (extractGroups p)", simp_all only: if_True if_False option.case)
      show "growing rc (post_actions resolve p rest) \<and> yields rc (\<lambda>e. list_all (fit e)) (post_actions resolve p rest)"
        using rest by blast
      show "growing rc (post_actions resolve p rest) \<and> yields rc (\<lambda>e. list_all (fit e)) (post_actions resolve p rest)"
        using rest by blast
      show "growing rc (bindG (mapEvent resolve ev) (\<lambda>as. bindG (post_actions resolve p rest) (\<lambda>bs. returnG (as @ bs))))
        \<and> yields rc (\<lambda>e. list_all (fit e)) (bindG (mapEvent resolve ev) (\<lambda>as. bindG (post_actions resolve p rest) (\<lambda>bs. returnG (as @ bs))))"
        by (intro conjI growing_bind event(1) rest(1) growing_return yields_bind [OF event] yields_bind [OF rest] yields_return) simp
      show "growing rc (bindG (buildExtractAction resolve g)
             (\<lambda>a. bindG (post_actions resolve p (drop (egEnd g - i) rest)) (\<lambda>as. returnG (a # as))))
        \<and> yields rc (\<lambda>e. list_all (fit e)) (bindG (buildExtractAction resolve g)
             (\<lambda>a. bindG (post_actions resolve p (drop (egEnd g - i) rest)) (\<lambda>as. returnG (a # as))))" for g
        by (intro conjI growing_bind buildExtractAction_ok(1) later(1) growing_return yields_bind [OF buildExtractAction_ok]
            yields_bind [OF later] yields_return) simp
    qed
  qed
qed

lemma build_auth_ok:
  "growing rc (build_auth resolve evs ia)" "yields rc fit (build_auth resolve evs ia)"
  unfolding build_auth_def
  by (intro growing_bind grows growing_return)
    (intro yields_bind [OF grows knows] growing_return yields_returned;
     auto simp: auth_action_def everywhere_simps step_fit_def unscripted_def scripted_def action_targets_def condition_targets_def
       step_condition_def element_exists_def plain_def obj_get_def empty_base_def)

lemma next_page_loop_fit: "known_target e tg \<Longrightarrow> list_all (fit e) body \<Longrightarrow> fit e (next_page_loop tg body)"
  by (auto simp: next_page_loop_def everywhere_simps step_fit_def unscripted_def scripted_def action_targets_def condition_targets_def
      step_condition_def plain_def obj_get_def empty_base_def)

lemma paginated_ok:
  fixes choice :: "(alias_registry, action list) gen"
  assumes "choice = (case (pgs, grs) of
      ((_, ev) # _, _ # _) \<Rightarrow>
        bindG (resolve (event_index ev) (eventTime ev)) (\<lambda>tg. returnG (first @ [next_page_loop tg post]))
    | _ \<Rightarrow> returnG (first @ post))"
  shows "growing rc choice"
    and "yields rc (\<lambda>e as. list_all (fit e) post \<longrightarrow> list_all (fit e) first \<longrightarrow> list_all (fit e) as) choice"
proof -
  consider (plain) "choice = returnG (first @ post)"
    | (loop) ev where "choice = bindG (resolve (event_index ev) (eventTime ev)) (\<lambda>tg. returnG (first @ [next_page_loop tg post]))"
    using assms by (auto split: list.splits)
  then have "growing rc choice \<and> yields rc (\<lambda>e as. list_all (fit e) post \<longrightarrow> list_all (fit e) first \<longrightarrow> list_all (fit e) as) choice"
  proof cases
    case plain
    then show ?thesis by (auto intro!: growing_return yields_return)
  next
    case loop
    show ?thesis unfolding loop
      by (intro conjI growing_bind grows growing_return yields_bind [OF grows knows] yields_return)
        (simp add: next_page_loop_fit)
  qed
  then show "growing rc choice"
    and "yields rc (\<lambda>e as. list_all (fit e) post \<longrightarrow> list_all (fit e) first \<longrightarrow> list_all (fit e) as) choice" by blast+
qed

lemma buildAnnotatedActions_ok:
  "growing rc (buildAnnotatedActions resolve evs)"
  "yields rc (\<lambda>e. list_all (fit e)) (buildAnnotatedActions resolve evs)"
proof -
  have post: "growing rc (post_actions resolve p ies)" "yields rc (\<lambda>e. list_all (fit e)) (post_actions resolve p ies)" for p ies
    using post_actions_ok by blast+
  show "growing rc (buildAnnotatedActions resolve evs)"
    unfolding buildAnnotatedActions_def Let_def
    by (intro growing_bind mapEvents_ok(1) post(1) growing_map build_auth_ok(1) growing_return paginated_ok(1) [OF refl])
  show "yields rc (\<lambda>e. list_all (fit e)) (buildAnnotatedActions resolve evs)"
    unfolding buildAnnotatedActions_def Let_def
  proof (rule yields_bind [OF mapEvents_ok], goal_cases)
    case 1
    show ?case
      by (intro growing_bind post(1) growing_map build_auth_ok(1) growing_return paginated_ok(1) [OF refl])
  next
    case (2 first)
    show ?case
    proof (rule yields_bind [OF post], goal_cases)
      case 1
      show ?case by (intro growing_bind growing_map build_auth_ok(1) growing_return paginated_ok(1) [OF refl])
    next
      case (2 post)
      show ?case
      proof (rule yields_bind [OF paginated_ok [OF refl]], goal_cases)
        case 1
        show ?case by (intro growing_bind growing_map build_auth_ok(1) growing_return)
      next
        case (2 main)
        show ?case
          by (rule yields_bind [OF growing_map [OF build_auth_ok(1)] yields_map [OF build_auth_ok]])
            (auto intro!: growing_return yields_return)
      qed
    qed
  qed
qed

end


interpretation recorded: resolving rc "resolveEventTarget rc opt" for rc opt
  by unfold_locales (rule resolveEventTarget_ok(1), rule resolveEventTarget_ok(2))

end
