(* ===== verification/Rule_Converter_Laws.thy ===== *)
theory Rule_Converter_Laws
  imports Rule_Generator_Laws
begin

text \<open>
  Properties of the generated rules: every target of every step is the alias of an element that was
  recorded; no step carries a script; a recording without marks gives a rule the replay accepts, and
  what a pagination mark turns a recording into is a loop that the replay refuses; a sensitive
  parameter of the entry URL never becomes a variable.
\<close>

section \<open>The converted rule\<close>

lemma alias_name_inject: "alias_name m = alias_name n \<longleftrightarrow> m = n"
  by (simp add: alias_name_def show_int_inject)

lemma registry_aliases_distinct: "registry_ok rc g \<Longrightarrow> distinct (map (\<lambda>(k, al, t). al) (aliasEntries g))"
  unfolding registry_ok_def by (simp add: distinct_map inj_on_def alias_name_inject)

lemma getAliases_entries:
  "distinct (map (\<lambda>(k, al, t). al) es) \<Longrightarrow> (k, al, t) \<in> set es \<Longrightarrow>
   map_of (fold (\<lambda>(k, al, t) acc. al_set al (JObj t) acc) es acc) al = Some (JObj t)"
proof (induction es arbitrary: acc)
  case (Cons e es)
  have other: "al \<notin> (\<lambda>(k, al, t). al) ` set es \<Longrightarrow>
      map_of (fold (\<lambda>(k, al, t) acc. al_set al (JObj t) acc) es acc) al = map_of acc al" for es acc
    by (induction es arbitrary: acc) auto
  show ?case
  proof (cases "e = (k, al, t)")
    case True
    then have "al \<notin> (\<lambda>(k, al, t). al) ` set es" using Cons.prems(1) by simp
    from other [OF this] show ?thesis using True by simp
  next
    case False
    then show ?thesis using Cons by simp
  qed
qed simp

lemma known_alias_described:
  assumes "registry_ok rc g" and "known_alias g al"
  shows "\<exists>t. map_of (getAliases g) al = Some (JObj t) \<and> describes_element rc t"
proof -
  obtain k t where entry: "(k, al, t) \<in> set (aliasEntries g)"
    using assms(2) map_of_SomeD unfolding known_alias_def by metis
  moreover have "describes_element rc t"
    using assms(1) entry unfolding registry_ok_def by (auto simp: list_all_iff)
  ultimately show ?thesis
    unfolding getAliases_def using getAliases_entries [OF registry_aliases_distinct [OF assms(1)]] by blast
qed

lemma event_actions_ok:
  assumes "event_actions (resolveEventTarget rc opt) marked evs empty_registry = Inr (as, reg)"
  shows "registry_ok rc reg" and "list_all (fit reg) as"
proof -
  have g: "growing rc (event_actions (resolveEventTarget rc opt) marked evs)"
    and y: "yields rc (\<lambda>e. list_all (fit e)) (event_actions (resolveEventTarget rc opt) marked evs)"
    unfolding event_actions_def
    by (auto intro: recorded.mapEvents_ok recorded.buildAnnotatedActions_ok)
  show "registry_ok rc reg" using g assms registry_ok_empty unfolding growing_def by blast
  show "list_all (fit reg) as" using y assms registry_ok_empty grows_to_refl unfolding yields_def by blast
qed

lemma templatize_action_fit: "fit g a \<Longrightarrow> fit g (templatize_action f a)"
proof (cases a)
  case (Leaf b t fs nested)
  let ?fs = "if t = ''navigate'' then templatize_field f ''url'' fs
      else if t = ''type'' \<or> t = ''select'' then templatize_field f ''value'' fs else fs"
  have same: "obj_get ?fs ''target'' = obj_get fs ''target''"
    by (auto simp: templatize_field_def obj_get_def split: jval.splits)
  have "step_fit g (Leaf b t ?fs nested) = step_fit g (Leaf b t fs nested)"
    unfolding step_fit_def unscripted_def scripted_def action_targets_def action.case same
    by (simp add: step_condition_def)
  then show "fit g a \<Longrightarrow> ?thesis"
    unfolding Leaf templatize_action_def action.case
    by (subst everywhere_unfold, subst (asm) everywhere_unfold) simp
qed (simp_all add: templatize_action_def)

lemma convert_run:
  assumes "convert parse now rc opts = Inr rl"
  obtains as reg f where
    "event_actions (resolveEventTarget rc (optimizeSelectors opts)) (hasAnnotations (recEvents rc)) (normalize_events (recEvents rc)) empty_registry = Inr (as, reg)"
    "steps rl = map (templatize_action f) as" "selectors rl = getAliases reg" "hooks rl = error_hook"
proof (cases "event_actions (resolveEventTarget rc (optimizeSelectors opts)) (hasAnnotations (recEvents rc)) (normalize_events (recEvents rc)) empty_registry")
  case (Inl e)
  then show thesis using assms by (simp add: convert_def)
next
  case (Inr r)
  obtain as reg where r: "r = (as, reg)" by (cases r)
  show thesis
    using assms Inr unfolding r
    by (intro that [OF Inr [unfolded r], of "if guessVariablesOpt opts
          then templatize (guessVariables parse (rc\<lparr>recEvents := normalize_events (recEvents rc)\<rparr>)) else id"])
      (auto simp: convert_def Let_def)
qed

lemma convert_fit:
  assumes "convert parse now rc opts = Inr rl"
  obtains reg where "registry_ok rc reg" "selectors rl = getAliases reg" "list_all (fit reg) (steps rl)"
  using assms
proof (rule convert_run)
  fix as reg f
  assume run: "event_actions (resolveEventTarget rc (optimizeSelectors opts)) (hasAnnotations (recEvents rc)) (normalize_events (recEvents rc)) empty_registry = Inr (as, reg)"
    and "steps rl = map (templatize_action f) as" "selectors rl = getAliases reg"
  then show thesis
    using event_actions_ok [OF run] templatize_action_fit by (intro that) (auto simp: list_all_iff)
qed

text \<open>Every target of every step of a converted rule, in a condition or a loop as well, is a reference to an alias
  that the rule defines, and the definition describes an element of a recorded snapshot by its recorded
  selector or the one the optimiser makes of it.\<close>

theorem convert_targets_recorded:
  assumes "convert parse now rc opts = Inr rl" and "a \<in> set (steps rl)" and "occurs_in a cs b ds"
    and "tg \<in> set (action_targets b)"
  shows "\<exists>al t. tg = ref_target al \<and> map_of (selectors rl) al = Some (JObj t) \<and> describes_element rc t"
  using assms(1)
proof (rule convert_fit)
  fix reg
  assume reg: "registry_ok rc reg" "selectors rl = getAliases reg" "list_all (fit reg) (steps rl)"
  then have "step_fit reg b" using assms(2,3) unfolding list_all_iff everywhere_def by blast
  then have "known_target reg tg" using assms(4) unfolding step_fit_def list_all_iff by blast
  then show ?thesis using known_alias_described [OF reg(1)] unfolding known_target_def reg(2) by blast
qed


text \<open>The preflight of the replay finds no script in a generated rule.\<close>

lemma converted_unscripted:
  assumes "convert parse now rc opts = Inr rl" and "a \<in> set (steps rl)"
  shows "everywhere unscripted a"
  using assms(1)
proof (rule convert_fit)
  fix reg assume "list_all (fit reg) (steps rl)"
  then show ?thesis using assms(2) unfolding list_all_iff everywhere_def step_fit_def by blast
qed

lemma unscripted_no_error: "unscripted a \<Longrightarrow> script_errors a path = []"
  by (simp add: unscripted_def script_errors_def)


section \<open>What the replay accepts\<close>

definition flat :: "action \<Rightarrow> bool" where
  "flat a \<longleftrightarrow> (\<exists>t fs. a = plain t fs)"

lemma flat_plain: "flat (plain t fs)"
  unfolding flat_def by blast

lemma flat_by_mode: "flat (case mode of TextMode \<Rightarrow> plain t fs | HtmlMode \<Rightarrow> plain t' fs' | AttributeMode \<Rightarrow> plain t'' fs'')"
  by (cases mode) (simp_all add: flat_plain)

lemma mapEvent_flat: "mapEvent resolve ev g = Inr (as, g') \<Longrightarrow> list_all flat as"
  by (cases ev)
    (auto simp: mapEvent_def mapClick_def mapInputText_def mapSubmitForm_def mapScroll_def mapExtract_def Let_def gen_Inr
      navigate_action_def flat_plain flat_by_mode split: option.splits if_splits)

lemma mapG_each: "mapG f xs g = Inr (ys, g') \<Longrightarrow> (\<And>x g y g'. f x g = Inr (y, g') \<Longrightarrow> P y) \<Longrightarrow> list_all P ys"
  by (induction xs arbitrary: g ys) (auto simp: gen_Inr)

lemma mapEvents_flat: "mapEvents resolve evs g = Inr (as, g') \<Longrightarrow> list_all flat as"
proof -
  assume "mapEvents resolve evs g = Inr (as, g')"
  then obtain ass where run: "mapG (mapEvent resolve) evs g = Inr (ass, g')" and as: "as = concat ass"
    unfolding mapEvents_def gen_Inr by blast
  have "list_all (list_all flat) ass" by (rule mapG_each [OF run]) (rule mapEvent_flat)
  then show "list_all flat as" unfolding as by (auto simp: list_all_iff)
qed

lemma flat_templatize: "flat a \<Longrightarrow> flat (templatize_action f a)"
  by (auto simp: flat_def plain_def templatize_action_def)

lemma preflight_empty:
  "preflightRule parse rl = [] \<longleftrightarrow>
     (\<forall>a \<in> set (steps rl). all_ok parse rl a [Top])
     \<and> (\<forall>as \<in> {beforeAll (hooks rl), afterAll (hooks rl), onErrorHook (hooks rl), cleanupHook (hooks rl)}.
          \<forall>xs. as = Some xs \<longrightarrow> (\<forall>a \<in> set xs. all_ok parse rl a [InHook]))"
  unfolding preflightRule_def by (simp add: hook_errors_empty walk_empty placed_def)

lemma error_hook_ok:
  "hooks rl = error_hook \<Longrightarrow> as \<in> {beforeAll (hooks rl), afterAll (hooks rl), onErrorHook (hooks rl), cleanupHook (hooks rl)}
   \<Longrightarrow> as = Some xs \<Longrightarrow> a \<in> set xs \<Longrightarrow> all_ok parse rl a [InHook]"
  by (auto simp: error_hook_def plain_def all_ok_simps named_array_def step_ok_def scripted_def step_condition_def empty_base_def
      actionMayNavigate_def)

text \<open>C27. A recording without marks is converted into a rule that the preflight of the replay accepts, as
  long as no literal navigation leaves the domains of the rule: there is no script, and every step
  stands at the top.\<close>

theorem unmarked_recording_replayable:
  assumes "convert parse now rc opts = Inr rl" and "\<not> hasAnnotations (recEvents rc)"
    and "\<forall>a \<in> set (steps rl). cross_origin parse' rl a = None"
  shows "preflightRule parse' rl = []"
  using assms(1)
proof (rule convert_run)
  fix as reg f
  assume run: "event_actions (resolveEventTarget rc (optimizeSelectors opts)) (hasAnnotations (recEvents rc)) (normalize_events (recEvents rc)) empty_registry = Inr (as, reg)"
    and st: "steps rl = map (templatize_action f) as" and hk: "hooks rl = error_hook"
  have flat: "flat a" if "a \<in> set (steps rl)" for a
    using that run assms(2) mapEvents_flat flat_templatize unfolding event_actions_def st by (auto simp: list_all_iff)
  have "all_ok parse' rl a [Top]" if a: "a \<in> set (steps rl)" for a
  proof -
    have "unscripted a"
      using converted_unscripted [OF assms(1) a] occurs_in.here unfolding everywhere_def by blast
    moreover obtain t fs where "a = plain t fs" using flat [OF a] unfolding flat_def by blast
    ultimately show ?thesis
      using assms(3) a by (auto simp: plain_def all_ok_simps named_array_def step_ok_def unscripted_def)
  qed
  then show ?thesis unfolding preflight_empty using error_hook_ok [OF hk] by blast
qed


lemma patterns_annotated:
  "pagination (analyze_from i evs) \<noteq> [] \<Longrightarrow> hasAnnotations evs"
proof (induction evs arbitrary: i)
  case Nil
  then show ?case by (simp add: analyze_from.simps)
next
  case (Cons ev rest)
  show ?case
  proof (cases "annotated ev")
    case False
    then have "pagination (analyze_from (Suc i) rest) \<noteq> []"
      using Cons.prems by (simp add: analyze_from.simps(2) annotated_def)
    then show ?thesis using Cons.IH by (simp add: hasAnnotations_def)
  qed (simp add: hasAnnotations_def)
qed

text \<open>Every marked event of the normalised list was recorded.\<close>

lemma coalesced_recorded: "set (foldl coalesce_input acc evs) \<subseteq> set acc \<union> set evs"
proof (induction evs arbitrary: acc)
  case (Cons ev evs)
  have "set (coalesce_input acc ev) \<subseteq> insert ev (set acc)"
    by (auto simp: coalesce_input_def split: list.splits if_splits)
  then show ?case using Cons.IH [of "coalesce_input acc ev"] by auto
qed simp

lemma merged_recorded: "annotated ev \<Longrightarrow> ev \<in> set (foldl merge_submit acc evs) \<Longrightarrow> ev \<in> set acc \<union> set evs"
proof (induction evs arbitrary: acc)
  case (Cons e evs)
  have "ev \<in> set (merge_submit acc e) \<Longrightarrow> ev \<in> insert e (set acc)"
    using Cons.prems(1)
    by (auto simp: merge_submit_def annotated_def click_annotation_def extract_annotation_def
        split: rec_event.splits list.splits if_splits)
  then show ?case using Cons.IH [OF Cons.prems(1), of "merge_submit acc e"] Cons.prems(2) by auto
qed simp

lemma collapsed_recorded: "set (collapseOpenedTabTransition evs) \<subseteq> set evs"
  by (induction evs rule: collapseOpenedTabTransition.induct) (auto split: if_splits)

lemma normalize_annotated:
  assumes "hasAnnotations (normalize_events evs)"
  shows "hasAnnotations evs"
proof -
  let ?c = "coalesceIncrementalInputTextEvents evs"
  obtain ev where "annotated ev" "ev \<in> set (mergeSubmitFormEvents ?c)"
    using assms collapsed_recorded unfolding normalize_events_def hasAnnotations_def list_ex_iff by blast
  then have "annotated ev" "ev \<in> set ?c"
    using merged_recorded [of ev "[]" ?c] by (auto simp: mergeSubmitFormEvents_def)
  moreover have "set ?c \<subseteq> set evs"
    using coalesced_recorded [of "[]" evs] by (simp add: coalesceIncrementalInputTextEvents_def)
  ultimately show ?thesis unfolding hasAnnotations_def list_ex_iff by blast
qed

lemma next_page_loop_refused: "\<not> all_ok parse rl (next_page_loop tg body) [Top]"
  by (auto simp: next_page_loop_def all_ok_simps plain_def step_ok_def actionMayNavigate_def loop_container_def)

text \<open>A recording with a next-page mark and an extraction mark is converted into a rule that the preflight
  always refuses: its click on the next page stands in a loop over an existing element.\<close>

theorem paginated_recording_refused:
  assumes "convert parse now rc opts = Inr rl"
    and "pagination (analyzePatterns (normalize_events (recEvents rc))) \<noteq> []"
    and "extractGroups (analyzePatterns (normalize_events (recEvents rc))) \<noteq> []"
  shows "preflightRule parse' rl \<noteq> []"
  using assms(1)
proof (rule convert_run)
  let ?evs = "normalize_events (recEvents rc)"
  fix as reg f
  assume run: "event_actions (resolveEventTarget rc (optimizeSelectors opts)) (hasAnnotations (recEvents rc)) ?evs empty_registry = Inr (as, reg)"
    and st: "steps rl = map (templatize_action f) as"
  have "hasAnnotations (recEvents rc)"
    using assms(2) patterns_annotated normalize_annotated unfolding analyzePatterns_def by blast
  moreover obtain k ev ps where "pagination (analyzePatterns ?evs) = (k, ev) # ps"
    using assms(2) by (cases "pagination (analyzePatterns ?evs)") auto
  moreover obtain gr grs where "extractGroups (analyzePatterns ?evs) = gr # grs"
    using assms(3) by (cases "extractGroups (analyzePatterns ?evs)") auto
  ultimately have "\<exists>tg body. next_page_loop tg body \<in> set as"
    using run by (auto simp: event_actions_def buildAnnotatedActions_def Let_def gen_Inr) blast
  then obtain tg body where "next_page_loop tg body \<in> set as" by blast
  moreover have "templatize_action f (next_page_loop tg body) = next_page_loop tg body"
    by (simp add: templatize_action_def next_page_loop_def)
  ultimately have "next_page_loop tg body \<in> set (steps rl)" unfolding st by (metis image_eqI list.set_map)
  then show ?thesis using next_page_loop_refused unfolding preflight_empty by blast
qed


section \<open>The guessed variables\<close>

lemma in_al_set: "kv \<in> set (al_set k v es) \<Longrightarrow> kv = (k, v) \<or> kv \<in> set es"
  by (induction es) (auto split: if_splits)

lemma fold_al_set_in:
  "kv \<in> set (fold (\<lambda>(k, v) acc. al_set k v acc) es acc) \<Longrightarrow> kv \<in> set es \<or> kv \<in> set acc"
proof (induction es arbitrary: acc)
  case (Cons e es)
  obtain k v where e: "e = (k, v)" by (cases e)
  show ?case using Cons.IH [of "al_set k v acc"] Cons.prems in_al_set [of kv k v acc] unfolding e by auto
qed simp

lemma best_in: "fst (fold better es best) = Some x \<Longrightarrow> x \<in> fst ` set es \<or> fst best = Some x"
  by (induction es arbitrary: best) (force simp: better_def split: if_splits)+

lemma tally_in: "x \<in> fst ` set (fold (\<lambda>x acc. al_set x (Suc (case map_of acc x of None \<Rightarrow> 0 | Some n \<Rightarrow> n)) acc) xs acc)
   \<Longrightarrow> x \<in> set xs \<or> x \<in> fst ` set acc"
proof (induction xs arbitrary: acc)
  case (Cons y ys)
  show ?case using Cons.IH [OF Cons.prems [unfolded fold_simps comp_apply]] by (auto dest!: in_al_set)
qed simp

lemma findMostCommon_in: "findMostCommon xs = Some x \<Longrightarrow> x \<in> set xs"
  using best_in [of "tally xs" "(None, 0)" x] tally_in [of x xs "[]"] by (simp add: findMostCommon_def tally_def)

text \<open>C28. A variable of a converted rule is a text that was typed in the recording, or the value of a
  parameter of the entry URL whose name is not sensitive; its value is made of the characters of a
  word, so that it holds no placeholder of its own.\<close>

theorem variables_not_sensitive:
  assumes "(n, v) \<in> set (guessVariables parse rc)"
  shows "looksLikeVariable v \<and>
    (n = ''keyword'' \<and> v \<in> set (input_texts (recEvents rc))
     \<or> (\<exists>u k. parse (startUrl (recMeta rc)) = Some u \<and> (k, v) \<in> set (puParams u) \<and> \<not> sensitive_param k
           \<and> (n = ''keyword'' \<or> n = k \<and> isSafeVariableName k)))"
proof -
  let ?url = "startUrl (recMeta rc)"
  have from_url: "looksLikeVariable v \<and> (\<exists>u k. parse ?url = Some u \<and> (k, v) \<in> set (puParams u) \<and> \<not> sensitive_param k
      \<and> (n = ''keyword'' \<or> n = k \<and> isSafeVariableName k))"
    if "(n, v) \<in> set (url_variables parse ?url)"
  proof -
    have "(n, v) \<in> set (extractUrlParams parse ?url)"
      using that unfolding url_variables_def by (auto dest: fold_al_set_in)
    then show ?thesis
      by (cases "parse ?url") (auto simp: extractUrlParams_def search_param_def business_param_def)
  qed
  show ?thesis
  proof (cases "(n, v) \<in> set (url_variables parse ?url)")
    case True
    from from_url [OF this] show ?thesis by (rule conjE) (intro conjI disjI2)
  next
    case False
    then have "n = ''keyword'' \<and> findMostCommon (input_texts (recEvents rc)) = Some v \<and> looksLikeVariable v"
      using assms unfolding guessVariables_def Let_def by (auto split: option.splits if_splits dest!: in_al_set)
    then show ?thesis using findMostCommon_in by blast
  qed
qed

text \<open>
  The texts of a rule are rewritten one variable after the other, so a later value is also looked for
  inside the placeholders of the earlier ones, and the name of the longer variable is lost.
\<close>

lemma placeholder_rewritten:
  "templatize [(''keyword'', ''shoes''), (''mode'', ''word'')] ''https://x/?q=shoes&mode=word''
     = ''https://x/?q={{key{{mode}}}}&mode={{mode}}''"
  by code_simp


section \<open>Two recordings\<close>

definition shop_full_url :: full_url_parser where
  "shop_full_url raw = Some \<lparr>puProtocol = ''https:'', puHostname = ''shop.example.com'', puUsername = [], puPassword = [],
     puParams = [(''q'', ''shoes''), (''session'', ''abcdef'')]\<rparr>"

definition shop_element :: "string \<Rightarrow> string \<Rightarrow> element_info" where
  "shop_element tag sel = \<lparr>eiIndex = 0, eiTagName = tag, eiSelector = sel, eiText = None, eiAriaLabel = None, eiRole = None,
     eiPlaceholder = None, eiName = None, eiRect = None\<rparr>"

definition shop_recording :: "rec_event list \<Rightarrow> page_agent_recording" where
  "shop_recording evs = \<lparr>recMeta = \<lparr>startUrl = ''https://shop.example.com/?q=shoes'', recTitle = ''Shop'', recDomain = ''shop.example.com''\<rparr>,
     recEvents = evs,
     recSnapshots = [\<lparr>rsTime = 1, rsUrl = ''https://shop.example.com/'', rsPhase = None,
       rsSelectorMap = [(1, shop_element ''input'' ''form > #search''), (2, shop_element ''a'' ''a.next'')]\<rparr>]\<rparr>"

definition search_events :: "rec_event list" where
  "search_events = [InputTextEvent 2 1 ''sho'' False, InputTextEvent 3 1 ''shoes'' False, SubmitFormEvent 4 1 None, ClickEvent 5 2 None False None]"

definition paged_events :: "rec_event list" where
  "paged_events = [ExtractEvent 2 1 ''title'' TextMode None (Some ListItem), ClickEvent 3 2 None False (Some NextPage)]"

definition default_convert :: convert_options where
  "default_convert = \<lparr>optimizeSelectors = True, guessVariablesOpt = True, defaultHumanize = None, ruleIdPrefix = None\<rparr>"

definition converted :: "rec_event list \<Rightarrow> rule" where
  "converted evs = projr (convert shop_full_url 7 (shop_recording evs) default_convert)"

lemma search_converted:
  "convert shop_full_url 7 (shop_recording search_events) default_convert = Inr (converted search_events)"
  "steps (converted search_events) =
     [plain ''type'' [(''target'', JObj (ref_target ''el1'')), (''value'', JStr ''{{keyword}}''), (''submit'', JBool True)],
      plain ''click'' [(''target'', JObj (ref_target ''el2''))]]"
  "ruleVariables (converted search_events) = [(''keyword'', JStr ''shoes'')]"
  by code_simp+

lemma paged_converted:
  "convert shop_full_url 7 (shop_recording paged_events) default_convert = Inr (converted paged_events)"
  by code_simp

theorem convert_targets_recorded_witness:
  "\<exists>al t. ref_target ''el2'' = ref_target al \<and> map_of (selectors (converted search_events)) al = Some (JObj t)
     \<and> describes_element (shop_recording search_events) t"
proof -
  let ?b = "plain ''click'' [(''target'', JObj (ref_target ''el2''))]"
  have "?b \<in> set (steps (converted search_events))" by (simp add: search_converted(2))
  moreover have "occurs_in ?b [Top] ?b [Top]" by (rule occurs_in.here)
  moreover have "ref_target ''el2'' \<in> set (action_targets ?b)"
    by (simp add: action_targets_def plain_def obj_get_def)
  ultimately show ?thesis by (rule convert_targets_recorded [OF search_converted(1)])
qed

theorem unmarked_recording_replayable_witness:
  "preflightRule simple_url (converted search_events) = []"
proof -
  have "\<not> hasAnnotations (recEvents (shop_recording search_events))" by code_simp
  moreover have "\<forall>a \<in> set (steps (converted search_events)). cross_origin simple_url (converted search_events) a = None"
    by (simp add: search_converted(2) cross_origin_def plain_def)
  ultimately show ?thesis by (rule unmarked_recording_replayable [OF search_converted(1)])
qed

theorem paginated_recording_refused_witness:
  "preflightRule simple_url (converted paged_events) \<noteq> []"
proof -
  have "pagination (analyzePatterns (normalize_events (recEvents (shop_recording paged_events)))) \<noteq> []" by code_simp
  moreover have "extractGroups (analyzePatterns (normalize_events (recEvents (shop_recording paged_events)))) \<noteq> []" by code_simp
  ultimately show ?thesis by (rule paginated_recording_refused [OF paged_converted])
qed


theorem variables_not_sensitive_witness:
  "looksLikeVariable ''shoes'' \<and> ''shoes'' \<in> set (input_texts (normalize_events search_events))"
proof -
  have "(''keyword'', ''shoes'') \<in> set (guessVariables shop_full_url (shop_recording (normalize_events search_events)))" by code_simp
  from variables_not_sensitive [OF this] have "looksLikeVariable ''shoes''" by (rule conjunct1)
  moreover have "''shoes'' \<in> set (input_texts (normalize_events search_events))" by code_simp
  ultimately show ?thesis by (rule conjI)
qed

end
