(* ===== verification/Frame_Aggregator.thy ===== *)
theory Frame_Aggregator
  imports Dom_Serializer Url_Policy
begin

text \<open>
  Model of \<open>extension/src/recording/frame-aggregator.ts\<close>: the frames of a tab are arranged in a tree, the
  content script of each frame is asked for its semantic tree, and the trees of the inner frames are put
  in the place of the iframe placeholders they match. The URL parser of the platform, the list of frames
  the browser knows and the answers of the content scripts are parameters.
\<close>

section \<open>The tree of frames\<close>

record frame_entry =
  feId :: int
  feParent :: int
  feUrl :: string

record frame_fields =
  ftId :: int
  ftParent :: "int option"
  ftUrl :: string
  ftDom :: semantic_node
  ftStatus :: "frame_status option"
  ftError :: "string option"
  ftReport :: "ser_report option"

datatype frame_tree = FrameTree (ftFields: frame_fields) (ftChildren: "frame_tree list")

definition html_node :: "(string \<times> string) list \<Rightarrow> semantic_node" where
  "html_node as = SemElement \<lparr>seTag = ''html'', seAttrs = as, seRendered = True, seEvidence = no_evidence, seFrame = no_frame\<rparr> []"

definition root_entry :: "frame_entry list \<Rightarrow> frame_entry option" where
  "root_entry fs = find (\<lambda>f. feParent f = -1 \<or> feParent f = feId f) fs"

definition children_of :: "frame_entry list \<Rightarrow> int \<Rightarrow> frame_entry list" where
  "children_of fs p = filter (\<lambda>f. feParent f = p \<and> feId f \<noteq> p) fs"

definition unavailable_frame :: "frame_entry \<Rightarrow> frame_fields" where
  "unavailable_frame f = \<lparr>ftId = feId f, ftParent = Some (feParent f), ftUrl = sanitizeRecordingUrl (feUrl f), ftDom = html_node [],
     ftStatus = Some FrameUnavailable, ftError = None, ftReport = None\<rparr>"

text \<open>The recursion is not structural: \<open>None\<close> is a recursion deeper than the fuel.\<close>

primrec build_frames :: "frame_entry list \<Rightarrow> nat \<Rightarrow> int \<Rightarrow> frame_tree list option" where
  "build_frames fs 0 p = None"
| "build_frames fs (Suc n) p =
     those (map (\<lambda>f. map_option (FrameTree (unavailable_frame f)) (build_frames fs n (feId f))) (children_of fs p))"

text \<open>A recursion deeper than the number of frames never ends (lemma \<open>build_frames_stuck\<close>), so it exhausts the stack.\<close>

definition buildFrameTree :: "frame_entry list \<Rightarrow> exn + frame_tree" where
  "buildFrameTree fs =
     (case root_entry fs of
        None \<Rightarrow> Inl (Error ''Frame list has no root frame'')
      | Some r \<Rightarrow>
          (case build_frames fs (Suc (length fs)) (feId r) of
             None \<Rightarrow> Inl (JsError ''RangeError'' ''Maximum call stack size exceeded'')
           | Some ts \<Rightarrow> Inr (FrameTree (unavailable_frame r) ts)))"


section \<open>Merging\<close>

definition src_of :: "semantic_element \<Rightarrow> string" where
  "src_of el = (case map_of (seAttrs el) ''src'' of None \<Rightarrow> [] | Some v \<Rightarrow> v)"

text \<open>\<open>parseAt\<close> is \<open>new URL\<close> with a base.\<close>

type_synonym base_parser = "string \<Rightarrow> string \<Rightarrow> url option"

definition scoreIframeMatch :: "base_parser \<Rightarrow> url_parser \<Rightarrow> semantic_element \<Rightarrow> frame_fields \<Rightarrow> string \<Rightarrow> int" where
  "scoreIframeMatch parseAt parse el f parentUrl =
     (case (parseAt (src_of el) parentUrl, parse (ftUrl f)) of
        (Some pu, Some fu) \<Rightarrow>
          if origin pu \<noteq> origin fu then -1
          else if pathname pu = pathname fu then 100
          else if js_startsWith (pathname pu) (pathname fu @ ''/'') then 50
          else if js_startsWith (pathname fu) (pathname pu @ ''/'') then 25
          else 0
      | _ \<Rightarrow> 0)"

definition better_match ::
  "base_parser \<Rightarrow> url_parser \<Rightarrow> semantic_element \<Rightarrow> string \<Rightarrow> int list \<Rightarrow> frame_tree \<Rightarrow> frame_tree option \<times> int \<Rightarrow> frame_tree option \<times> int" where
  "better_match parseAt parse el parentUrl used t best =
     (if ftId (ftFields t) \<in> set used then best
      else let s = scoreIframeMatch parseAt parse el (ftFields t) parentUrl in if snd best < s then (Some t, s) else best)"

definition findMatchingFrame ::
  "base_parser \<Rightarrow> url_parser \<Rightarrow> semantic_element \<Rightarrow> frame_tree \<Rightarrow> int list \<Rightarrow> frame_tree option" where
  "findMatchingFrame parseAt parse el ft used =
     (case fold (better_match parseAt parse el (ftUrl (ftFields ft)) used) (ftChildren ft) (None, 0) of
        (best, s) \<Rightarrow> if 20 \<le> s then best else None)"

definition inferFrameOrigin :: "base_parser \<Rightarrow> url_parser \<Rightarrow> semantic_element \<Rightarrow> string \<Rightarrow> frame_origin" where
  "inferFrameOrigin parseAt parse el parentUrl =
     (case (parseAt (src_of el) parentUrl, parse parentUrl) of
        (Some pu, Some qu) \<Rightarrow> if origin pu = origin qu then FrameSameOrigin else FrameCrossOrigin
      | _ \<Rightarrow> FrameCrossOrigin)"

definition matched_status :: "frame_tree \<Rightarrow> frame_status" where
  "matched_status m = (case ftStatus (ftFields m) of None \<Rightarrow> FrameCaptured | Some st \<Rightarrow> st)"

definition matched_element ::
  "base_parser \<Rightarrow> url_parser \<Rightarrow> semantic_element \<Rightarrow> frame_tree \<Rightarrow> frame_tree \<Rightarrow> semantic_element" where
  "matched_element parseAt parse el ft m = el\<lparr>seFrame := (seFrame el)
     \<lparr>framePlaceholder := False,
      frameStatus := Some (matched_status m),
      frameOrigin := Some (inferFrameOrigin parseAt parse el (ftUrl (ftFields ft))),
      frameMatched := Some (matched_status m = FrameCaptured),
      frameError := ftError (ftFields m)\<rparr>\<rparr>"

definition unmatched_element :: "semantic_element \<Rightarrow> semantic_element" where
  "unmatched_element el = el\<lparr>seFrame := (seFrame el)
     \<lparr>frameStatus := Some FrameUnavailable, frameMatched := Some False, frameError := Some ''frame-not-matched''\<rparr>\<rparr>"

definition is_placeholder :: "semantic_element \<Rightarrow> bool" where
  "is_placeholder el \<longleftrightarrow> seTag el = ''iframe'' \<and> framePlaceholder (seFrame el)"

lemma fold_better_in:
  "fst (fold (better_match pa p el parentUrl used) ts best) = Some m \<Longrightarrow> fst best = Some m \<or> m \<in> set ts \<and> ftId (ftFields m) \<notin> set used"
proof (induction ts arbitrary: best)
  case (Cons t ts)
  from Cons.IH [of "better_match pa p el parentUrl used t best"] Cons.prems show ?case
    by (auto simp: better_match_def Let_def split: if_splits)
qed simp

lemma findMatchingFrame_in:
  "findMatchingFrame pa p el ft used = Some m \<Longrightarrow> m \<in> set (ftChildren ft) \<and> ftId (ftFields m) \<notin> set used"
  using fold_better_in [of pa p el "ftUrl (ftFields ft)" used "ftChildren ft" "(None, 0)" m]
  by (auto simp: findMatchingFrame_def split: prod.splits if_splits)

lemma size_frame_child: "m \<in> set (ftChildren ft) \<Longrightarrow> size m < size ft"
  by (cases ft) (use size_list_estimation' [of m "ftChildren ft" "size m" size] in simp)

lemma size_matching: "findMatchingFrame pa p el ft used = Some m \<Longrightarrow> size m < size ft"
  using findMatchingFrame_in size_frame_child by blast

text \<open>
  The nodes are values here, so the clone the code makes first is the tree itself. The frames that have
  found their place are threaded through the tree; inside a frame none of its own has yet.
\<close>

function merge_node :: "base_parser \<Rightarrow> url_parser \<Rightarrow> frame_tree \<Rightarrow> int list \<Rightarrow> semantic_node \<Rightarrow> semantic_node \<times> int list"
  and merge_nodes :: "base_parser \<Rightarrow> url_parser \<Rightarrow> frame_tree \<Rightarrow> int list \<Rightarrow> semantic_node list \<Rightarrow> semantic_node list \<times> int list" where
  "merge_node parseAt parse ft used (SemText s e) = (SemText s e, used)"
| "merge_node parseAt parse ft used (SemElement el cs) =
     (if is_placeholder el
      then (case findMatchingFrame parseAt parse el ft used of
              Some m \<Rightarrow>
                (SemElement (matched_element parseAt parse el ft m)
                   (if matched_status m = FrameCaptured then [fst (merge_node parseAt parse m [] (ftDom (ftFields m)))] else cs),
                 ftId (ftFields m) # used)
            | None \<Rightarrow> (SemElement (unmatched_element el) cs, used))
      else (case merge_nodes parseAt parse ft used cs of (cs', used') \<Rightarrow> (SemElement el cs', used')))"
| "merge_nodes parseAt parse ft used [] = ([], used)"
| "merge_nodes parseAt parse ft used (c # cs) =
     (case merge_node parseAt parse ft used c of
        (c', used') \<Rightarrow> (case merge_nodes parseAt parse ft used' cs of (cs', used'') \<Rightarrow> (c' # cs', used'')))"
  by pat_completeness auto
termination
  by (relation "inv_image (less_than <*lex*> less_than)
      (\<lambda>x. case x of Inl (pa, p, ft, used, n) \<Rightarrow> (size ft, size n) | Inr (pa, p, ft, used, ns) \<Rightarrow> (size ft, size_list size ns))")
    (auto dest: size_matching)

declare merge_node.simps(2) [simp del]

definition mergeFrameTreeIntoDom :: "base_parser \<Rightarrow> url_parser \<Rightarrow> semantic_node \<Rightarrow> frame_tree \<Rightarrow> semantic_node" where
  "mergeFrameTreeIntoDom parseAt parse tree ft = fst (merge_node parseAt parse ft [] tree)"


section \<open>Capture\<close>

datatype capture_answer =
    CaptureThrows string
  | CaptureEmpty
  | CaptureDom semantic_node "ser_report option"

definition errorNode :: "string \<Rightarrow> semantic_node" where
  "errorNode code = html_node [(''data-capture-status'', ''unavailable''), (''data-capture-error'', code)]"

definition line_char :: "char \<Rightarrow> bool" where
  "line_char c \<longleftrightarrow> c \<noteq> CHR 0x0A \<and> c \<noteq> CHR 0x0D"

definition no_receiver :: rx where
  "no_receiver = rx_any [rx_word ''receiving end'', rx_word ''could not establish'', rx_word ''no tab with id'',
     rx_cat [rx_word ''frame'', any_of line_char, rx_word ''not found'']]"

definition classifyFrameError :: "string \<Rightarrow> frame_status \<times> string" where
  "classifyFrameError msg =
     (if rx_test no_receiver msg then (FrameUnavailable, ''content-script-unavailable'')
      else if rx_test (rx_word ''timeout'') msg then (FrameError, ''capture-timeout'')
      else (FrameError, ''capture-failed''))"

definition failed_capture :: "frame_status \<Rightarrow> string \<Rightarrow> frame_fields \<Rightarrow> frame_fields" where
  "failed_capture st code f = f\<lparr>ftDom := errorNode code, ftStatus := Some st, ftError := Some code\<rparr>"

definition capture_fields :: "capture_answer \<Rightarrow> frame_fields \<Rightarrow> frame_fields" where
  "capture_fields a f =
     (case a of
        CaptureDom tree rep \<Rightarrow> f\<lparr>ftDom := tree, ftReport := rep, ftStatus := Some FrameCaptured\<rparr>
      | CaptureEmpty \<Rightarrow> failed_capture FrameError ''empty-capture'' f
      | CaptureThrows msg \<Rightarrow> failed_capture (fst (classifyFrameError msg)) (snd (classifyFrameError msg)) f)"

primrec capture_frames :: "(int \<Rightarrow> capture_answer) \<Rightarrow> frame_tree \<Rightarrow> frame_tree" where
  "capture_frames answer (FrameTree f cs) = FrameTree (capture_fields (answer (ftId f)) f) (map (capture_frames answer) cs)"

text \<open>\<open>None\<close> for the frames where the browser has no such interface; the inner \<open>None\<close> is a list that is missing.\<close>

definition aggregateFrameDom ::
  "(exn + frame_entry list option) option \<Rightarrow> (int \<Rightarrow> capture_answer) \<Rightarrow> exn + frame_tree option" where
  "aggregateFrameDom frames answer =
     (case frames of
        None \<Rightarrow> Inr None
      | Some (Inl e) \<Rightarrow> Inl e
      | Some (Inr None) \<Rightarrow> Inr None
      | Some (Inr (Some fs)) \<Rightarrow>
          if fs = [] then Inr None
          else (case buildFrameTree fs of Inl e \<Rightarrow> Inl e | Inr t \<Rightarrow> Inr (Some (capture_frames answer t))))"

record frame_capture_report =
  frId :: int
  frParent :: int
  frUrl :: string
  frStatus :: frame_status
  frError :: "string option"

definition frame_report :: "frame_fields \<Rightarrow> frame_capture_report" where
  "frame_report f = \<lparr>frId = ftId f, frParent = (case ftParent f of None \<Rightarrow> -1 | Some p \<Rightarrow> p), frUrl = ftUrl f,
     frStatus = (case ftStatus f of None \<Rightarrow> FrameCaptured | Some st \<Rightarrow> st), frError = ftError f\<rparr>"

primrec visit_frames :: "frame_tree \<Rightarrow> frame_capture_report list" where
  "visit_frames (FrameTree f cs) = frame_report f # concat (map visit_frames cs)"

definition collectFrameReports :: "frame_tree option \<Rightarrow> frame_capture_report list" where
  "collectFrameReports t = (case t of None \<Rightarrow> [] | Some ft \<Rightarrow> visit_frames ft)"

end
