(* ===== verification/Frame_Aggregator_Laws.thy ===== *)
theory Frame_Aggregator_Laws
  imports Frame_Aggregator Dom_Serializer_Laws
begin

text \<open>
  Properties of the frames of a page: the recursion over the list of frames ends or is deeper than any
  stack, with distinct frame ids it ends and reaches every connected frame once; a merge puts every frame
  in at most one place and settles every placeholder.
\<close>

section \<open>Building the tree\<close>

lemma those_is_None: "those xs = None \<longleftrightarrow> None \<in> set xs"
  by (induction xs) (auto split: option.splits)

lemma those_is_Some: "those xs = Some ys \<longleftrightarrow> xs = map Some ys"
  by (induction xs arbitrary: ys) (auto split: option.splits)

lemma build_frames_None:
  "build_frames fs (Suc n) p = None \<longleftrightarrow> (\<exists>f \<in> set (children_of fs p). build_frames fs n (feId f) = None)"
  by (auto simp: those_is_None image_iff)

lemma build_frames_more: "build_frames fs n p = Some ts \<Longrightarrow> build_frames fs (Suc n) p = Some ts"
proof (induction n arbitrary: p ts)
  case (Suc n)
  have "build_frames fs (Suc n) (feId f) = build_frames fs n (feId f)" if "f \<in> set (children_of fs p)" for f
  proof -
    have "build_frames fs n (feId f) \<noteq> None" using Suc.prems that build_frames_None [of fs n p] by auto
    then show ?thesis using Suc.IH by force
  qed
  then have same: "map (\<lambda>f. map_option (FrameTree (unavailable_frame f)) (build_frames fs (Suc n) (feId f))) (children_of fs p)
      = map (\<lambda>f. map_option (FrameTree (unavailable_frame f)) (build_frames fs n (feId f))) (children_of fs p)"
    by (intro map_cong) simp_all
  have "build_frames fs (Suc (Suc n)) p = build_frames fs (Suc n) p"
    by (simp only: build_frames.simps(2) [of fs "Suc n" p] same build_frames.simps(2) [of fs n p])
  then show ?case using Suc.prems by simp
qed simp

lemma build_frames_enough: "build_frames fs n p = Some ts \<Longrightarrow> n \<le> m \<Longrightarrow> build_frames fs m p = Some ts"
  by (induction m) (auto simp: le_Suc_eq simp del: build_frames.simps intro: build_frames_more)

text \<open>The least fuel of a frame that needs \<open>n + 1\<close> is one more than that of one of its children.\<close>

definition needs :: "frame_entry list \<Rightarrow> nat \<Rightarrow> int \<Rightarrow> bool" where
  "needs fs n p \<longleftrightarrow> build_frames fs n p = None \<and> build_frames fs (Suc n) p \<noteq> None"

lemma needs_unique: "needs fs n p \<Longrightarrow> needs fs m p \<Longrightarrow> n = m"
proof (rule ccontr)
  assume "needs fs n p" "needs fs m p" "n \<noteq> m"
  then show False using build_frames_enough [of fs "Suc n" p _ m] build_frames_enough [of fs "Suc m" p _ n]
    by (cases "n < m") (auto simp: needs_def simp del: build_frames.simps)
qed

lemma needs_child:
  assumes "needs fs (Suc n) p"
  shows "\<exists>f \<in> set fs. needs fs n (feId f)"
proof -
  obtain f where "f \<in> set (children_of fs p)" "build_frames fs n (feId f) = None"
    using assms build_frames_None [of fs n p] by (auto simp: needs_def)
  moreover have "build_frames fs (Suc n) (feId f) \<noteq> None"
    using assms calculation(1) build_frames_None [of fs "Suc n" p] by (auto simp: needs_def)
  ultimately show ?thesis by (auto simp: needs_def children_of_def)
qed

lemma needs_below: "needs fs n p \<Longrightarrow> \<forall>m < n. \<exists>f \<in> set fs. needs fs m (feId f)"
proof (induction n arbitrary: p)
  case (Suc n)
  obtain f where "f \<in> set fs" "needs fs n (feId f)" using needs_child [OF Suc.prems] by blast
  then show ?case using Suc.IH by (metis less_Suc_eq)
qed simp

lemma needs_bounded:
  assumes "needs fs n p"
  shows "n \<le> length fs"
proof -
  obtain g where g: "\<And>m. m < n \<Longrightarrow> g m \<in> set fs \<and> needs fs m (feId (g m))"
    using needs_below [OF assms] by metis
  have "inj_on g {..<n}" using g needs_unique by (metis inj_onI lessThan_iff)
  then have "card (g ` {..<n}) = n" by (simp add: card_image)
  moreover have "card (g ` {..<n}) \<le> card (set fs)" using g by (intro card_mono) auto
  ultimately show ?thesis using card_length [of fs] by linarith
qed

text \<open>A recursion deeper than the number of frames never ends.\<close>

lemma build_frames_stuck:
  assumes "build_frames fs (Suc (length fs)) p = None"
  shows "build_frames fs n p = None"
proof (induction n)
  case (Suc n)
  show ?case
  proof (rule ccontr)
    assume "build_frames fs (Suc n) p \<noteq> None"
    moreover from this have "n \<le> length fs" using Suc.IH needs_bounded by (simp add: needs_def del: build_frames.simps)
    ultimately show False using assms build_frames_enough [of fs "Suc n" p _ "Suc (length fs)"] by (auto simp del: build_frames.simps)
  qed
qed simp


section \<open>Chains of frames\<close>

fun chain :: "frame_entry list \<Rightarrow> int \<Rightarrow> frame_entry list \<Rightarrow> bool" where
  "chain fs p [] \<longleftrightarrow> True"
| "chain fs p (f # xs) \<longleftrightarrow> f \<in> set (children_of fs p) \<and> chain fs (feId f) xs"

definition end_of :: "int \<Rightarrow> frame_entry list \<Rightarrow> int" where
  "end_of p xs = (if xs = [] then p else feId (List.last xs))"

lemma end_of_Cons [simp]: "end_of p (f # xs) = end_of (feId f) xs"
  by (simp add: end_of_def)

lemma chain_append: "chain fs p (xs @ ys) \<longleftrightarrow> chain fs p xs \<and> chain fs (end_of p xs) ys"
  by (induction xs arbitrary: p) (auto simp: end_of_def)

lemma chain_subset: "chain fs p xs \<Longrightarrow> set xs \<subseteq> set fs"
  by (induction xs arbitrary: p) (auto simp: children_of_def)

lemma stuck_chain: "build_frames fs n p = None \<Longrightarrow> \<exists>xs. chain fs p xs \<and> length xs = n"
proof (induction n arbitrary: p)
  case (Suc n)
  obtain f where "f \<in> set (children_of fs p)" "build_frames fs n (feId f) = None"
    using Suc.prems build_frames_None [of fs n p] by blast
  moreover obtain xs where "chain fs (feId f) xs" "length xs = n" using Suc.IH calculation(2) by blast
  ultimately show ?case by (intro exI [of _ "f # xs"]) simp
qed simp

text \<open>What the browser promises: every frame has its own id, and none has the id that marks the root.\<close>

definition proper_frames :: "frame_entry list \<Rightarrow> bool" where
  "proper_frames fs \<longleftrightarrow> distinct (map feId fs) \<and> -1 \<notin> feId ` set fs"

lemma entry_unique: "proper_frames fs \<Longrightarrow> f \<in> set fs \<Longrightarrow> g \<in> set fs \<Longrightarrow> feId f = feId g \<Longrightarrow> f = g"
  unfolding proper_frames_def by (meson distinct_map inj_onD)

lemma root_entryD: "root_entry fs = Some r \<Longrightarrow> r \<in> set fs \<and> (feParent r = -1 \<or> feParent r = feId r)"
  by (auto simp: root_entry_def find_Some_iff)

lemma root_not_child:
  assumes "proper_frames fs" "root_entry fs = Some r" "p \<in> feId ` set fs"
  shows "r \<notin> set (children_of fs p)"
  using assms root_entryD [OF assms(2)] by (auto simp: children_of_def proper_frames_def)

lemma end_in: "chain fs (feId r) xs \<Longrightarrow> r \<in> set fs \<Longrightarrow> end_of (feId r) xs \<in> feId ` set fs"
  using chain_subset [of fs "feId r" xs] by (auto simp: end_of_def intro!: imageI subsetD [of "set xs" "set fs"])

lemma root_not_in_chain:
  assumes "proper_frames fs" "root_entry fs = Some r" "chain fs (feId r) xs"
  shows "r \<notin> set xs"
  using assms(3)
proof (induction xs rule: rev_induct)
  case (snoc f xs)
  then have "f \<in> set (children_of fs (end_of (feId r) xs))" "chain fs (feId r) xs" by (simp_all add: chain_append)
  moreover from this have "r \<notin> set (children_of fs (end_of (feId r) xs))"
    using root_not_child [OF assms(1,2)] end_in root_entryD [OF assms(2)] by blast
  ultimately show ?case using snoc.IH by auto
qed simp

text \<open>A frame is reached in one way only.\<close>

lemma chain_unique:
  assumes "proper_frames fs" "root_entry fs = Some r"
  shows "chain fs (feId r) xs \<Longrightarrow> chain fs (feId r) ys \<Longrightarrow> end_of (feId r) xs = end_of (feId r) ys \<Longrightarrow> xs = ys"
proof (induction xs arbitrary: ys rule: rev_induct)
  case Nil
  show ?case
  proof (rule ccontr)
    assume "[] \<noteq> ys"
    then have "List.last ys \<in> set fs" "feId (List.last ys) = feId r"
      using Nil chain_subset [OF Nil(2)] by (auto simp: end_of_def)
    then have "List.last ys = r" using entry_unique assms root_entryD by blast
    then show False using root_not_in_chain [OF assms Nil(2)] \<open>[] \<noteq> ys\<close> by (metis last_in_set)
  qed
next
  case (snoc f xs)
  have f: "f \<in> set (children_of fs (end_of (feId r) xs))" "chain fs (feId r) xs" "f \<in> set fs"
    using snoc.prems(1) by (auto simp: chain_append children_of_def)
  have "ys \<noteq> []"
  proof
    assume "ys = []"
    then have "feId f = feId r" using snoc.prems(3) by (simp add: end_of_def)
    then have "f = r" using entry_unique [OF assms(1) f(3)] root_entryD [OF assms(2)] by blast
    then show False using root_not_in_chain [OF assms snoc.prems(1)] by simp
  qed
  then obtain g zs where ys: "ys = zs @ [g]" by (metis append_butlast_last_id)
  have g: "g \<in> set (children_of fs (end_of (feId r) zs))" "chain fs (feId r) zs" "g \<in> set fs"
    using snoc.prems(2) by (auto simp: ys chain_append children_of_def)
  have "f = g" using entry_unique [OF assms(1) f(3) g(3)] snoc.prems(3) by (simp add: ys end_of_def)
  then have "end_of (feId r) xs = end_of (feId r) zs" using f(1) g(1) by (auto simp: children_of_def)
  then show ?case using snoc.IH [OF f(2) g(2)] ys \<open>f = g\<close> by simp
qed

lemma chain_distinct:
  assumes "proper_frames fs" "root_entry fs = Some r" "chain fs (feId r) xs"
  shows "distinct xs"
  using assms(3)
proof (induction xs rule: rev_induct)
  case (snoc f xs)
  have "f \<notin> set xs"
  proof
    assume "f \<in> set xs"
    then obtain as bs where xs: "xs = as @ f # bs" by (meson split_list)
    have "chain fs (feId r) (as @ [f])" using snoc.prems by (simp add: xs chain_append)
    from chain_unique [OF assms(1,2) this snoc.prems] show False by (simp add: xs end_of_def)
  qed
  then show ?case using snoc by (simp add: chain_append)
qed simp

lemma build_frames_returns:
  assumes "proper_frames fs" "root_entry fs = Some r"
  shows "build_frames fs (Suc (length fs)) (feId r) \<noteq> None"
proof
  assume "build_frames fs (Suc (length fs)) (feId r) = None"
  then obtain xs where xs: "chain fs (feId r) xs" "length xs = Suc (length fs)" using stuck_chain by blast
  have "card (set xs) \<le> card (set fs)" using chain_subset [OF xs(1)] by (intro card_mono) auto
  then show False
    using distinct_card [OF chain_distinct [OF assms xs(1)]] xs(2) card_length [of fs] by simp
qed


section \<open>The frames of the tree\<close>

primrec tree_ids :: "frame_tree \<Rightarrow> int list" where
  "tree_ids (FrameTree f cs) = ftId f # concat (map tree_ids cs)"

lemma built_tree: "build_frames fs (Suc n) p = Some ts \<Longrightarrow>
    \<exists>tss. ts = map (\<lambda>f. FrameTree (unavailable_frame f) (tss f)) (children_of fs p)
      \<and> (\<forall>f \<in> set (children_of fs p). build_frames fs n (feId f) = Some (tss f))"
proof -
  assume built: "build_frames fs (Suc n) p = Some ts"
  have some: "build_frames fs n (feId f) = Some (the (build_frames fs n (feId f)))" if "f \<in> set (children_of fs p)" for f
    using that built build_frames_None [of fs n p] by fastforce
  have "map Some ts = map (\<lambda>f. map_option (FrameTree (unavailable_frame f)) (build_frames fs n (feId f))) (children_of fs p)"
    using built by (simp add: those_is_Some)
  also have "\<dots> = map Some (map (\<lambda>f. FrameTree (unavailable_frame f) (the (build_frames fs n (feId f)))) (children_of fs p))"
    using some by (auto simp del: build_frames.simps intro!: map_cong)
  finally have "ts = map (\<lambda>f. FrameTree (unavailable_frame f) (the (build_frames fs n (feId f)))) (children_of fs p)"
    by (metis (no_types, lifting) inj_Some map_injective)
  then show ?thesis using some by (intro exI [of _ "\<lambda>f. the (build_frames fs n (feId f))"]) simp
qed

definition forest_ids :: "frame_tree list \<Rightarrow> int list" where
  "forest_ids ts = concat (map tree_ids ts)"

lemma ftId_unavailable [simp]: "ftId (unavailable_frame f) = feId f"
  by (simp add: unavailable_frame_def)

lemma forest_reached:
  "build_frames fs n p = Some ts \<Longrightarrow> set (forest_ids ts) = {end_of p ys | ys. chain fs p ys \<and> ys \<noteq> []}"
proof (induction n arbitrary: p ts)
  case (Suc n)
  obtain tss where ts: "ts = map (\<lambda>f. FrameTree (unavailable_frame f) (tss f)) (children_of fs p)"
      and sub: "\<And>f. f \<in> set (children_of fs p) \<Longrightarrow> build_frames fs n (feId f) = Some (tss f)"
    using built_tree [OF Suc.prems] by blast
  have "set (forest_ids ts) = (\<Union>f \<in> set (children_of fs p). insert (feId f) (set (forest_ids (tss f))))"
    by (simp add: ts forest_ids_def)
  also have "\<dots> = (\<Union>f \<in> set (children_of fs p). {end_of (feId f) ys | ys. chain fs (feId f) ys})"
  proof (intro SUP_cong refl)
    fix f
    assume f: "f \<in> set (children_of fs p)"
    have "insert (feId f) {end_of (feId f) ys | ys. chain fs (feId f) ys \<and> ys \<noteq> []} = {end_of (feId f) ys | ys. chain fs (feId f) ys}"
      by (auto simp: end_of_def intro: exI [of _ "[]"])
    then show "insert (feId f) (set (forest_ids (tss f))) = {end_of (feId f) ys | ys. chain fs (feId f) ys}"
      using Suc.IH [OF sub [OF f]] by simp
  qed
  also have "\<dots> = {end_of p ys | ys. chain fs p ys \<and> ys \<noteq> []}"
  proof (intro subset_antisym subsetI)
    fix x
    assume "x \<in> (\<Union>f \<in> set (children_of fs p). {end_of (feId f) ys | ys. chain fs (feId f) ys})"
    then obtain f ys where "f \<in> set (children_of fs p)" "chain fs (feId f) ys" "x = end_of (feId f) ys" by blast
    then show "x \<in> {end_of p ys | ys. chain fs p ys \<and> ys \<noteq> []}" by (intro CollectI exI [of _ "f # ys"]) simp
  next
    fix x
    assume "x \<in> {end_of p ys | ys. chain fs p ys \<and> ys \<noteq> []}"
    then obtain ys where "x = end_of p ys" "chain fs p ys" "ys \<noteq> []" by blast
    then show "x \<in> (\<Union>f \<in> set (children_of fs p). {end_of (feId f) ys | ys. chain fs (feId f) ys})"
      by (cases ys) auto
  qed
  finally show ?case .
qed simp

lemma distinct_forest:
  assumes "proper_frames fs" "root_entry fs = Some r"
  shows "build_frames fs n p = Some ts \<Longrightarrow> chain fs (feId r) xs \<Longrightarrow> end_of (feId r) xs = p \<Longrightarrow> distinct (forest_ids ts)"
proof (induction n arbitrary: p ts xs)
  case (Suc n)
  obtain tss where ts: "ts = map (\<lambda>f. FrameTree (unavailable_frame f) (tss f)) (children_of fs p)"
      and sub: "\<And>f. f \<in> set (children_of fs p) \<Longrightarrow> build_frames fs n (feId f) = Some (tss f)"
    using built_tree [OF Suc.prems(1)] by blast
  let ?ids = "\<lambda>f. feId f # forest_ids (tss f)"
  have path: "\<exists>ys. chain fs (feId r) (xs @ f # ys) \<and> end_of (feId r) (xs @ f # ys) = x \<and> (x \<noteq> feId f \<longrightarrow> ys \<noteq> []) \<and> (x \<in> set (forest_ids (tss f)) \<longrightarrow> ys \<noteq> [])"
    if "f \<in> set (children_of fs p)" "x \<in> set (?ids f)" for f x
  proof -
    have reached: "set (forest_ids (tss f)) = {end_of (feId f) ys | ys. chain fs (feId f) ys \<and> ys \<noteq> []}"
      by (rule forest_reached [OF sub [OF that(1)]])
    show ?thesis
    proof (cases "x \<in> set (forest_ids (tss f))")
      case True
      then obtain ys where "chain fs (feId f) ys" "ys \<noteq> []" "x = end_of (feId f) ys" using reached by auto
      then show ?thesis using that(1) Suc.prems(2,3) by (intro exI [of _ ys]) (auto simp: chain_append end_of_def)
    next
      case False
      then show ?thesis using that Suc.prems(2,3) by (intro exI [of _ "[]"]) (auto simp: chain_append end_of_def)
    qed
  qed
  have own: "distinct (?ids f)" if f: "f \<in> set (children_of fs p)" for f
  proof -
    have here: "chain fs (feId r) (xs @ [f])" "end_of (feId r) (xs @ [f]) = feId f"
      using f Suc.prems(2,3) by (auto simp: chain_append end_of_def)
    have "distinct (forest_ids (tss f))" by (rule Suc.IH [OF sub [OF f] here])
    moreover have "feId f \<notin> set (forest_ids (tss f))"
    proof
      assume "feId f \<in> set (forest_ids (tss f))"
      then obtain ys where "chain fs (feId r) (xs @ f # ys)" "end_of (feId r) (xs @ f # ys) = feId f" "ys \<noteq> []"
        using path [OF f, of "feId f"] by auto
      then show False using chain_unique [OF assms here(1), of "xs @ f # ys"] here(2) by simp
    qed
    ultimately show ?thesis by simp
  qed
  have apart: "set (?ids f) \<inter> set (?ids g) = {}" if fg: "f \<in> set (children_of fs p)" "g \<in> set (children_of fs p)" "f \<noteq> g" for f g
  proof (rule ccontr)
    assume "set (?ids f) \<inter> set (?ids g) \<noteq> {}"
    then obtain x where "x \<in> set (?ids f)" "x \<in> set (?ids g)" by blast
    then obtain ys zs where "chain fs (feId r) (xs @ f # ys)" "end_of (feId r) (xs @ f # ys) = x"
        "chain fs (feId r) (xs @ g # zs)" "end_of (feId r) (xs @ g # zs) = x"
      using path [OF fg(1)] path [OF fg(2)] by meson
    then show False using chain_unique [OF assms, of "xs @ f # ys" "xs @ g # zs"] fg(3) by simp
  qed
  have "distinct (concat (map ?ids gs))" if "distinct gs" "set gs \<subseteq> set (children_of fs p)" for gs
    using that
  proof (induction gs)
    case (Cons g gs)
    then show ?case using own [of g] apart [of g] by (auto simp: disjoint_iff)
  qed simp
  moreover have "distinct (children_of fs p)"
    using assms(1) by (simp add: proper_frames_def children_of_def distinct_map)
  moreover have "forest_ids ts = concat (map ?ids (children_of fs p))"
    by (simp add: ts forest_ids_def comp_def)
  ultimately show ?case by simp
qed simp

lemma capture_tree_ids [simp]: "tree_ids (capture_frames answer t) = tree_ids t"
proof (induction t)
  case (FrameTree f cs)
  then have "concat (map (tree_ids \<circ> capture_frames answer) cs) = concat (map tree_ids cs)"
    by (simp add: comp_def cong: map_cong)
  then show ?case by (simp add: capture_fields_def failed_capture_def del: map_eq_conv split: capture_answer.split)
qed

lemma reported_ids: "map frId (collectFrameReports (Some t)) = tree_ids t"
proof -
  have "map frId (visit_frames t) = tree_ids t"
    by (induction t) (simp add: frame_report_def map_concat comp_def cong: map_cong)
  then show ?thesis by (simp add: collectFrameReports_def)
qed

lemma aggregate_builds:
  assumes "fs \<noteq> []" "buildFrameTree fs = Inr t"
  shows "aggregateFrameDom (Some (Inr (Some fs))) answer = Inr (Some (capture_frames answer t))"
  using assms by (simp add: aggregateFrameDom_def)

text \<open>C31. When the browser names every frame once, the frames of a tab are always captured, and the
  reports name exactly the frames that are connected to the root, each of them once.\<close>

theorem connected_frames_reported_once:
  assumes "proper_frames fs" "root_entry fs = Some r"
  shows "\<exists>t. aggregateFrameDom (Some (Inr (Some fs))) answer = Inr (Some t)
     \<and> distinct (map frId (collectFrameReports (Some t)))
     \<and> set (map frId (collectFrameReports (Some t))) = {end_of (feId r) ys | ys. chain fs (feId r) ys}"
proof -
  obtain ts where ts: "build_frames fs (Suc (length fs)) (feId r) = Some ts"
    using build_frames_returns [OF assms] by blast
  let ?t = "FrameTree (unavailable_frame r) ts"
  have built: "buildFrameTree fs = Inr ?t" using ts by (simp add: buildFrameTree_def assms(2) del: build_frames.simps)
  have reached: "set (forest_ids ts) = {end_of (feId r) ys | ys. chain fs (feId r) ys \<and> ys \<noteq> []}"
    by (rule forest_reached [OF ts])
  have "distinct (forest_ids ts)" by (rule distinct_forest [OF assms ts, of "[]"]) (simp_all add: end_of_def)
  moreover have "feId r \<notin> set (forest_ids ts)"
  proof
    assume "feId r \<in> set (forest_ids ts)"
    then obtain ys where "chain fs (feId r) ys" "ys \<noteq> []" "end_of (feId r) ys = feId r" unfolding reached by auto
    then show False using chain_unique [OF assms, of "[]" ys] by (simp add: end_of_def)
  qed
  moreover have "insert (feId r) (set (forest_ids ts)) = {end_of (feId r) ys | ys. chain fs (feId r) ys}"
    unfolding reached by (auto simp: end_of_def intro: exI [of _ "[]"])
  ultimately have "distinct (tree_ids ?t)" "set (tree_ids ?t) = {end_of (feId r) ys | ys. chain fs (feId r) ys}"
    by (simp_all add: forest_ids_def)
  moreover have "fs \<noteq> []" using root_entryD [OF assms(2)] by auto
  ultimately show ?thesis
    using aggregate_builds [OF \<open>fs \<noteq> []\<close> built]
    by (intro exI [of _ "capture_frames answer ?t"] conjI) (simp_all only: reported_ids capture_tree_ids)
qed


section \<open>Placing the frames\<close>

primrec frame_nodes :: "frame_tree \<Rightarrow> nat" where
  "frame_nodes (FrameTree f cs) = estimateNodeCount (ftDom f) + sum_list (map frame_nodes cs)"

text \<open>The nodes of the inner frames that have no place yet\<close>

definition open_nodes :: "frame_tree \<Rightarrow> int list \<Rightarrow> nat" where
  "open_nodes ft used = sum_list (map frame_nodes (filter (\<lambda>c. ftId (ftFields c) \<notin> set used) (ftChildren ft)))"

lemma frame_nodes_eq: "frame_nodes ft = estimateNodeCount (ftDom (ftFields ft)) + open_nodes ft []"
  by (cases ft) (simp add: open_nodes_def)

lemma open_nodes_place:
  assumes "m \<in> set (ftChildren ft)" "ftId (ftFields m) \<notin> set used"
  shows "open_nodes ft (ftId (ftFields m) # used) + frame_nodes m \<le> open_nodes ft used"
proof -
  have "sum_list (map frame_nodes (filter (\<lambda>c. ftId (ftFields c) \<notin> set (ftId (ftFields m) # used)) cs))
      + (if m \<in> set cs then frame_nodes m else 0)
      \<le> sum_list (map frame_nodes (filter (\<lambda>c. ftId (ftFields c) \<notin> set used) cs))" for cs
  proof (induction cs)
    case (Cons c cs)
    then show ?case using assms(2) by (cases "c = m") (simp_all split: if_splits)
  qed simp
  from this [of "ftChildren ft"] show ?thesis using assms(1) by (simp add: open_nodes_def)
qed

lemma merge_counts:
  "estimateNodeCount (fst (merge_node pa p ft used n)) + open_nodes ft (snd (merge_node pa p ft used n))
     \<le> estimateNodeCount n + open_nodes ft used"
  "sum_list (map estimateNodeCount (fst (merge_nodes pa p ft used ns))) + open_nodes ft (snd (merge_nodes pa p ft used ns))
     \<le> sum_list (map estimateNodeCount ns) + open_nodes ft used"
proof (induction pa p ft used n and pa p ft used ns rule: merge_node_merge_nodes.induct)
  case (2 pa p ft used el cs)
  show ?case
  proof (cases "is_placeholder el")
    case True
    show ?thesis
    proof (cases "findMatchingFrame pa p el ft used")
      case None
      then show ?thesis using True by (simp add: merge_node.simps)
    next
      case (Some m)
      have placed: "open_nodes ft (ftId (ftFields m) # used) + frame_nodes m \<le> open_nodes ft used"
        using findMatchingFrame_in [OF Some] by (intro open_nodes_place) simp_all
      show ?thesis
      proof (cases "matched_status m = FrameCaptured")
        case True
        from 2(1) [OF \<open>is_placeholder el\<close> Some True] have "estimateNodeCount (fst (merge_node pa p m [] (ftDom (ftFields m)))) \<le> frame_nodes m"
          by (simp add: frame_nodes_eq)
        then show ?thesis using placed Some True \<open>is_placeholder el\<close> by (simp add: merge_node.simps)
      next
        case False
        then show ?thesis using placed Some \<open>is_placeholder el\<close> by (simp add: merge_node.simps)
      qed
    qed
  next
    case False
    then show ?thesis using 2(2) by (cases "merge_nodes pa p ft used cs") (simp add: merge_node.simps)
  qed
qed (auto split: prod.splits)

text \<open>A merge puts every frame in at most one place.\<close>

lemma merged_within: "estimateNodeCount (mergeFrameTreeIntoDom pa p (ftDom (ftFields t)) t) \<le> frame_nodes t"
  using merge_counts(1) [of pa p t "[]" "ftDom (ftFields t)"] by (simp add: mergeFrameTreeIntoDom_def frame_nodes_eq)

primrec all_frames :: "(frame_fields \<Rightarrow> bool) \<Rightarrow> frame_tree \<Rightarrow> bool" where
  "all_frames P (FrameTree f cs) \<longleftrightarrow> P f \<and> list_all (all_frames P) cs"

lemma sum_list_each: "list_all (\<lambda>c. f c \<le> m * g c) cs \<Longrightarrow> sum_list (map f cs) \<le> m * sum_list (map g cs)" for m :: nat
  by (induction cs) (auto simp: add_mult_distrib2)

lemma nodes_of_frames:
  "all_frames (\<lambda>f. estimateNodeCount (ftDom f) \<le> m) t \<Longrightarrow> frame_nodes t \<le> m * length (visit_frames t)"
proof (induction t)
  case (FrameTree f cs)
  then have "list_all (\<lambda>c. frame_nodes c \<le> m * length (visit_frames c)) cs" by (auto simp: list_all_iff)
  from sum_list_each [OF this] show ?case using FrameTree.prems by (simp add: length_concat comp_def)
qed

lemma all_captured: "(\<And>f. P (capture_fields (answer (ftId f)) f)) \<Longrightarrow> all_frames P (capture_frames answer t)"
  by (induction t) (auto simp: list_all_iff)

lemma aggregate_captures:
  assumes "aggregateFrameDom fs answer = Inr (Some t)" "\<And>f. P (capture_fields (answer (ftId f)) f)"
  shows "all_frames P t"
  using assms by (auto simp: aggregateFrameDom_def intro: all_captured split: option.splits sum.splits if_splits)

text \<open>The page put together from the frames of a tab has at most as many nodes as its frames are
  allowed together, when the content script of every frame answers with a tree of the serialiser under the limit.\<close>

theorem merged_page_bounded:
  assumes "aggregateFrameDom fs answer = Inr (Some t)" "1 \<le> m"
    and "\<And>i tree rep. answer i = CaptureDom tree rep \<Longrightarrow> \<exists>lm above live rep'. limNodes lm = Some m
           \<and> serializeDomWithReport lm above (Some live) = Inr (Some tree, rep')"
  shows "estimateNodeCount (mergeFrameTreeIntoDom pa p (ftDom (ftFields t)) t) \<le> m * length (collectFrameReports (Some t))"
proof -
  have "estimateNodeCount tree \<le> m" if captured: "answer i = CaptureDom tree rep" for i tree rep
  proof -
    obtain lm above live rep' where lm: "limNodes lm = Some m" "serializeDomWithReport lm above (Some live) = Inr (Some tree, rep')"
      using assms(3) [OF captured] by blast
    have "counted lm empty_report (node_count (Some tree)) rep'"
      using lm(2) serialize_node_count by (simp add: serializeDomWithReport_def)
    then show ?thesis using lm(1) by (simp add: counted_def node_count_def empty_report_def)
  qed
  then have "all_frames (\<lambda>f. estimateNodeCount (ftDom f) \<le> m) t"
    using assms(2) by (intro aggregate_captures [OF assms(1)])
      (auto simp: capture_fields_def failed_capture_def errorNode_def html_node_def split: capture_answer.split)
  from nodes_of_frames [OF this] show ?thesis
    using merged_within [of pa p t] by (simp add: collectFrameReports_def)
qed


section \<open>Every placeholder is settled\<close>

text \<open>The children of a placeholder are not looked at; the serialiser gives it none.\<close>

primrec bare_marks :: "semantic_node \<Rightarrow> bool" where
  "bare_marks (SemText s e) \<longleftrightarrow> True"
| "bare_marks (SemElement el cs) \<longleftrightarrow> (is_placeholder el \<longrightarrow> cs = []) \<and> list_all bare_marks cs"

primrec settled :: "semantic_node \<Rightarrow> bool" where
  "settled (SemText s e) \<longleftrightarrow> True"
| "settled (SemElement el cs) \<longleftrightarrow>
     (is_placeholder el \<longrightarrow> frameMatched (seFrame el) = Some False \<and> frameStatus (seFrame el) = Some FrameUnavailable
        \<and> frameError (seFrame el) = Some ''frame-not-matched'')
     \<and> list_all settled cs"

lemma matched_not_placeholder: "\<not> is_placeholder (matched_element pa p el ft m)"
  by (simp add: is_placeholder_def matched_element_def)

lemma all_frames_child: "all_frames P ft \<Longrightarrow> m \<in> set (ftChildren ft) \<Longrightarrow> all_frames P m"
  by (cases ft) (simp add: list_all_iff)

lemma all_frames_own: "all_frames P m \<Longrightarrow> P (ftFields m)"
  by (cases m) simp

lemma merge_settles:
  "all_frames (\<lambda>f. bare_marks (ftDom f)) ft \<Longrightarrow> bare_marks n \<Longrightarrow> settled (fst (merge_node pa p ft used n))"
  "all_frames (\<lambda>f. bare_marks (ftDom f)) ft \<Longrightarrow> list_all bare_marks ns \<Longrightarrow> list_all settled (fst (merge_nodes pa p ft used ns))"
proof (induction pa p ft used n and pa p ft used ns rule: merge_node_merge_nodes.induct)
  case (2 pa p ft used el cs)
  show ?case
  proof (cases "is_placeholder el")
    case True
    show ?thesis
    proof (cases "findMatchingFrame pa p el ft used")
      case None
      then show ?thesis using True 2(4) by (simp add: merge_node.simps unmatched_element_def)
    next
      case (Some m)
      have m: "all_frames (\<lambda>f. bare_marks (ftDom f)) m"
        using all_frames_child [OF 2(3)] findMatchingFrame_in [OF Some] by blast
      show ?thesis
        using 2(1) [OF True Some _ m all_frames_own [OF m]] True Some 2(4)
        by (auto simp: merge_node.simps matched_not_placeholder)
    qed
  next
    case False
    then show ?thesis using 2 by (auto simp: merge_node.simps split: prod.split)
  qed
qed (auto split: prod.splits)

lemma serialize_nodes_each:
  assumes "\<And>c depth b rn r x r'. c \<in> set cs \<Longrightarrow> serialize_node lm depth b rn c r = Inr (x, r') \<Longrightarrow> P x"
  shows "serialize_nodes lm depth b rn cs r = Inr (xs, r') \<Longrightarrow> list_all P xs"
  using assms
proof (induction cs arbitrary: r xs)
  case (Cons c cs)
  obtain x r1 ys where first: "serialize_node lm depth b rn c r = Inr (x, r1)"
      and rest: "serialize_nodes lm depth b rn cs r1 = Inr (ys, r')" "xs = x # ys"
    using Cons.prems(1) by (auto simp: gen_Inr)
  moreover have "list_all P ys" by (rule Cons.IH [OF rest(1)]) (rule Cons.prems(2); simp)
  ultimately show ?case using Cons.prems(2) [OF _ first] by simp
qed (simp add: gen_Inr)

lemma serialized_bare: "serialize_node lm depth b rn n r = Inr (x, r') \<Longrightarrow> case x of None \<Rightarrow> True | Some t \<Rightarrow> bare_marks t"
proof (induction n arbitrary: depth b rn r x r')
  case (LiveText raw)
  then show ?case by (auto simp: gen_Inr Let_def split: if_splits)
next
  case (LiveElement el cs)
  have kept: "list_all (\<lambda>x. case x of None \<Rightarrow> True | Some t \<Rightarrow> bare_marks t) xs \<Longrightarrow>
      list_all bare_marks (concat (map (\<lambda>x. case x of None \<Rightarrow> [] | Some y \<Rightarrow> [y]) xs))" for xs
    by (induction xs) (auto split: option.splits)
  from LiveElement.prems show ?case
  proof (cases rule: serialize_element_cases)
    case (inner r1 r2 as e xs)
    have "list_all (\<lambda>x. case x of None \<Rightarrow> True | Some t \<Rightarrow> bare_marks t) xs"
      by (rule serialize_nodes_each [OF _ inner(4)]) (rule LiveElement.IH)
    then show ?thesis using inner(5,6) kept by (simp add: is_placeholder_def no_frame_def)
  qed simp_all
qed (auto simp: gen_Inr)


section \<open>A page with two frames\<close>

definition tab_frames :: "frame_entry list" where
  "tab_frames = [\<lparr>feId = 0, feParent = -1, feUrl = ''/''\<rparr>, \<lparr>feId = 3, feParent = 0, feUrl = ''/in''\<rparr>, \<lparr>feId = 8, feParent = 5, feUrl = ''/x''\<rparr>]"

definition main_page :: live_node where
  "main_page = LiveElement (live_el ''body'' [] NoField)
     [LiveElement (live_el ''iframe'' [(''src'', ''/in'')] NoField) [], LiveElement (live_el ''iframe'' [(''src'', ''/in'')] NoField) []]"

definition inner_page :: live_node where
  "inner_page = LiveElement (live_el ''p'' [] NoField) [LiveText ''hi'']"

definition iframe_in :: "frame_info \<Rightarrow> semantic_node list \<Rightarrow> semantic_node" where
  "iframe_in fr cs = SemElement ((bare_element (live_el ''iframe'' [(''src'', ''/in'')] NoField) [(''src'', ''/in'')] True)\<lparr>seFrame := fr\<rparr>) cs"

definition main_tree :: semantic_node where
  "main_tree = SemElement (bare_element (live_el ''body'' [] NoField) [] True)
     [iframe_in (iframe_of [(''src'', ''/in'')]) [], iframe_in (iframe_of [(''src'', ''/in'')]) []]"

definition inner_tree :: semantic_node where
  "inner_tree = SemElement (bare_element (live_el ''p'' [] NoField) [] True) [SemText ''hi'' no_evidence]"

lemma page_trees:
  "serializeDomWithReport page_limits [] (Some main_page) = Inr (Some main_tree, \<lparr>repNodes = 3, repRedactions = 0, repRemoved = 0, repTruncated = False\<rparr>)"
  "serializeDomWithReport page_limits [] (Some inner_page) = Inr (Some inner_tree, \<lparr>repNodes = 2, repRedactions = 0, repRemoved = 0, repTruncated = False\<rparr>)"
  by code_simp+

definition tab_answer :: "int \<Rightarrow> capture_answer" where
  "tab_answer i = CaptureDom (if i = 0 then main_tree else inner_tree) None"

lemma tab_answers_serialized:
  assumes "tab_answer i = CaptureDom tree rep"
  shows "\<exists>lm above live rep'. limNodes lm = Some 10 \<and> serializeDomWithReport lm above (Some live) = Inr (Some tree, rep')"
proof -
  have "limNodes page_limits = Some 10" by (simp add: page_limits_def)
  then show ?thesis using assms page_trees by (auto simp: tab_answer_def split: if_splits)
qed

definition tab_url :: url_parser where
  "tab_url s = Some \<lparr>protocol = ''https:'', host = ''a.de'', hostname = ''a.de'', pathname = s, origin = ''https://a.de''\<rparr>"

definition tab_tree :: frame_tree where
  "tab_tree = FrameTree (capture_fields (tab_answer 0) (unavailable_frame (tab_frames ! 0)))
     [FrameTree (capture_fields (tab_answer 3) (unavailable_frame (tab_frames ! 1))) []]"

lemma tab_captured: "aggregateFrameDom (Some (Inr (Some tab_frames))) tab_answer = Inr (Some tab_tree)"
  by (simp add: aggregateFrameDom_def buildFrameTree_def root_entry_def tab_frames_def children_of_def tab_tree_def)

theorem connected_frames_reported_once_witness:
  "\<exists>t. aggregateFrameDom (Some (Inr (Some tab_frames))) tab_answer = Inr (Some t)
     \<and> distinct (map frId (collectFrameReports (Some t)))
     \<and> set (map frId (collectFrameReports (Some t))) = {end_of 0 ys | ys. chain tab_frames 0 ys}"
  using connected_frames_reported_once [of tab_frames "tab_frames ! 0" tab_answer]
  by (simp add: proper_frames_def root_entry_def tab_frames_def)

text \<open>The frame that two placeholders name is put in the place of the first.\<close>

lemma tab_merged:
  "mergeFrameTreeIntoDom (\<lambda>s b. tab_url s) tab_url (ftDom (ftFields tab_tree)) tab_tree =
     SemElement (bare_element (live_el ''body'' [] NoField) [] True)
       [iframe_in \<lparr>framePlaceholder = False, frameSrc = Some ''/in'', frameStatus = Some FrameCaptured, frameOrigin = Some FrameSameOrigin,
          frameMatched = Some True, frameError = None\<rparr> [inner_tree],
        iframe_in \<lparr>framePlaceholder = True, frameSrc = Some ''/in'', frameStatus = Some FrameUnavailable, frameOrigin = None,
          frameMatched = Some False, frameError = Some ''frame-not-matched''\<rparr> []]"
  by code_simp

theorem merged_page_bounded_witness:
  "estimateNodeCount (mergeFrameTreeIntoDom (\<lambda>s b. tab_url s) tab_url (ftDom (ftFields tab_tree)) tab_tree)
     \<le> 10 * length (collectFrameReports (Some tab_tree))"
  by (rule merged_page_bounded [OF tab_captured _ tab_answers_serialized]) simp_all


end
