(* ===== verification/Preprocessor.thy ===== *)
theory Preprocessor
  imports Dom_Serializer_Laws
begin

text \<open>
  Model of \<open>extension/src/recording/preprocessor.ts\<close>, which makes a recording small before a model reads it:
  repeated clicks and runs of scrolling are folded into one event, selector maps are cut, and the semantic
  trees are pruned to a budget of nodes, a depth and a length of texts. The laws say that the budgets
  hold, that scrolling is not lost, and that a tree that shows no mark of omission is the whole tree.
\<close>

section \<open>Events\<close>

definition is_scroll :: "rec_event \<Rightarrow> bool" where
  "is_scroll e = (case e of ScrollEvent _ _ _ _ _ \<Rightarrow> True | _ \<Rightarrow> False)"

definition is_click :: "rec_event \<Rightarrow> bool" where
  "is_click e = (case e of ClickEvent _ _ _ _ _ \<Rightarrow> True | _ \<Rightarrow> False)"

definition repeated_click :: "int \<Rightarrow> rec_event option \<Rightarrow> rec_event \<Rightarrow> bool" where
  "repeated_click radius prev e =
     (case (prev, e) of
        (Some (ClickEvent t i _ _ _), ClickEvent t' i' _ _ _) \<Rightarrow> i' = i \<and> t' - t < radius
      | _ \<Rightarrow> False)"

text \<open>All fields but the amount are those of the first event.\<close>

definition merged_scroll :: "rec_event option \<Rightarrow> rec_event \<Rightarrow> rec_event option" where
  "merged_scroll prev e =
     (case (prev, e) of
        (Some (ScrollEvent t d n pages i), ScrollEvent _ d' n' _ _) \<Rightarrow>
          if d' = d then Some (ScrollEvent t d (n + n') pages i) else None
      | _ \<Rightarrow> None)"

text \<open>The last event written is also the one the next is compared with; the output is kept in reverse.\<close>

fun dedupe_from :: "int \<Rightarrow> rec_event list \<Rightarrow> rec_event list \<Rightarrow> rec_event list" where
  "dedupe_from radius out [] = rev out"
| "dedupe_from radius out (e # es) =
     (let prev = (case out of [] \<Rightarrow> None | p # _ \<Rightarrow> Some p) in
      if repeated_click radius prev e then dedupe_from radius out es
      else (case merged_scroll prev e of
              Some m \<Rightarrow> dedupe_from radius (m # tl out) es
            | None \<Rightarrow> dedupe_from radius (e # out) es))"

definition dedupeEvents :: "rec_event list \<Rightarrow> int \<Rightarrow> rec_event list" where
  "dedupeEvents es radius = dedupe_from radius [] es"


section \<open>Trees\<close>

record prune_options =
  maxNodes :: nat
  maxDepth :: nat
  maxTextLength :: nat

definition markContentOmitted :: "sanitization \<Rightarrow> sanitization" where
  "markContentOmitted e = e\<lparr>markupAltered := True, contentOmitted := True\<rparr>"

definition mark_if :: "bool \<Rightarrow> sanitization \<Rightarrow> sanitization" where
  "mark_if b e = (if b then markContentOmitted e else e)"

text \<open>The copy does not take over the health of a frame.\<close>

definition copy_element :: "semantic_element \<Rightarrow> semantic_element" where
  "copy_element el = el\<lparr>seFrame := (seFrame el)\<lparr>frameStatus := None, frameError := None\<rparr>\<rparr>"

definition mark_element :: "bool \<Rightarrow> semantic_element \<Rightarrow> semantic_element" where
  "mark_element b el = el\<lparr>seEvidence := mark_if b (seEvidence el)\<rparr>"

text \<open>The budget of nodes is threaded through the tree; the loop over the children ends with it.\<close>

fun pruneDomTree :: "prune_options \<Rightarrow> nat \<Rightarrow> semantic_node \<Rightarrow> nat \<Rightarrow> semantic_node option \<times> nat"
  and prune_children :: "prune_options \<Rightarrow> nat \<Rightarrow> semantic_node list \<Rightarrow> nat \<Rightarrow> semantic_node list \<times> bool \<times> nat" where
  "pruneDomTree opts depth (SemText s e) remaining =
     (if remaining = 0 then (None, 0)
      else (Some (SemText (take (maxTextLength opts) s) (mark_if (maxTextLength opts < length s) e)), remaining - 1))"
| "pruneDomTree opts depth (SemElement el cs) remaining =
     (if remaining = 0 then (None, 0)
      else if depth < maxDepth opts \<and> cs \<noteq> []
      then (case prune_children opts (depth + 1) cs (remaining - 1) of
              (ts, missed, remaining') \<Rightarrow>
                (Some (SemElement (mark_element (missed \<or> length ts < length cs) (copy_element el)) ts), remaining'))
      else (Some (SemElement (mark_element (cs \<noteq> []) (copy_element el)) []), remaining - 1))"
| "prune_children opts depth [] remaining = ([], False, remaining)"
| "prune_children opts depth (c # cs) remaining =
     (case pruneDomTree opts depth c remaining of
        (x, remaining') \<Rightarrow>
          let got = (case x of None \<Rightarrow> [] | Some t \<Rightarrow> [t]) in
          if remaining' = 0 then (got, x = None, 0)
          else (case prune_children opts depth cs remaining' of (ts, missed, r) \<Rightarrow> (got @ ts, x = None \<or> missed, r)))"


section \<open>Recordings\<close>

record full_snapshot = rec_snapshot +
  fsTree :: "semantic_node option"

record preprocess_options =
  dedupeClickRadiusMs :: int
  maxSnapshotNodes :: nat
  maxSnapshotText :: nat
  treeOptions :: prune_options

definition default_options :: preprocess_options where
  "default_options = \<lparr>dedupeClickRadiusMs = 500, maxSnapshotNodes = 500, maxSnapshotText = 200,
     treeOptions = \<lparr>maxNodes = 1000, maxDepth = 20, maxTextLength = 100\<rparr>\<rparr>"

text \<open>Properties with integer names are enumerated in ascending order.\<close>

definition cut_selector_map :: "preprocess_options \<Rightarrow> (int \<times> element_info) list \<Rightarrow> (int \<times> element_info) list" where
  "cut_selector_map opts m =
     map (\<lambda>(i, info). (i, info\<lparr>eiText := map_option (take (maxSnapshotText opts)) (eiText info)\<rparr>))
       (take (maxSnapshotNodes opts) (sort_key fst m))"

definition dehydrateSnapshot :: "preprocess_options \<Rightarrow> full_snapshot \<Rightarrow> full_snapshot" where
  "dehydrateSnapshot opts s =
     \<lparr>rsTime = rsTime s, rsUrl = rsUrl s, rsPhase = None, rsSelectorMap = cut_selector_map opts (rsSelectorMap s),
      fsTree = (case fsTree s of
                  None \<Rightarrow> None
                | Some t \<Rightarrow> fst (pruneDomTree (treeOptions opts) 0 t (maxNodes (treeOptions opts))))\<rparr>"

record full_recording =
  frMeta :: rec_meta
  frEvents :: "rec_event list"
  frSnapshots :: "full_snapshot list"

definition preprocess :: "full_recording \<Rightarrow> preprocess_options \<Rightarrow> full_recording" where
  "preprocess rec opts = \<lparr>frMeta = frMeta rec, frEvents = dedupeEvents (frEvents rec) (dedupeClickRadiusMs opts),
     frSnapshots = map (dehydrateSnapshot opts) (frSnapshots rec)\<rparr>"


section \<open>What deduplication keeps\<close>

definition scrolled :: "scroll_direction \<Rightarrow> rec_event \<Rightarrow> int" where
  "scrolled d e = (case e of ScrollEvent _ d' n _ _ \<Rightarrow> if d' = d then n else 0 | _ \<Rightarrow> 0)"

lemma merged_scrollD:
  assumes "merged_scroll prev e = Some m"
  shows "\<exists>p. prev = Some p \<and> is_scroll p \<and> is_scroll e \<and> is_scroll m \<and> (\<forall>d. scrolled d m = scrolled d p + scrolled d e)"
  using assms by (auto simp: merged_scroll_def is_scroll_def scrolled_def split: option.splits rec_event.splits if_splits)

lemma repeated_clickD:
  "repeated_click radius prev e \<Longrightarrow> \<exists>p. prev = Some p \<and> is_click p \<and> is_click e \<and> eventTime e - eventTime p < radius"
  by (auto simp: repeated_click_def is_click_def split: option.splits rec_event.splits)

lemma click_no_scroll: "is_click e \<Longrightarrow> scrolled d e = 0 \<and> \<not> is_scroll e"
  by (simp add: is_click_def scrolled_def is_scroll_def split: rec_event.splits)

lemma head_of: "(case out of [] \<Rightarrow> None | p # _ \<Rightarrow> Some p) = Some p \<Longrightarrow> out = p # tl out"
  by (cases out) simp_all

lemma dedupe_scrolled:
  "sum_list (map (scrolled d) (dedupe_from radius out es)) = sum_list (map (scrolled d) out) + sum_list (map (scrolled d) es)"
proof (induction radius out es rule: dedupe_from.induct)
  case (1 radius out)
  then show ?case by (simp flip: rev_map)
next
  case (2 radius out e es)
  let ?prev = "case out of [] \<Rightarrow> None | p # _ \<Rightarrow> Some p"
  show ?case
  proof (cases "repeated_click radius ?prev e")
    case True
    then show ?thesis using 2(1) repeated_clickD [OF True] click_no_scroll by force
  next
    case False
    show ?thesis
    proof (cases "merged_scroll ?prev e")
      case None
      then show ?thesis using 2(2) [OF refl False None] False None by simp
    next
      case (Some m)
      obtain p where p: "out = p # tl out" "scrolled d m = scrolled d p + scrolled d e"
        using merged_scrollD [OF Some] head_of by metis
      have "sum_list (map (scrolled d) out) = scrolled d p + sum_list (map (scrolled d) (tl out))"
        by (subst p(1)) simp
      then show ?thesis using 2(3) [OF refl False Some] False Some p(2) by simp
    qed
  qed
qed

lemma dedupe_others:
  "filter (\<lambda>e. \<not> is_scroll e \<and> \<not> is_click e) (dedupe_from radius out es)
     = rev (filter (\<lambda>e. \<not> is_scroll e \<and> \<not> is_click e) out) @ filter (\<lambda>e. \<not> is_scroll e \<and> \<not> is_click e) es"
proof (induction radius out es rule: dedupe_from.induct)
  case (2 radius out e es)
  let ?prev = "case out of [] \<Rightarrow> None | p # _ \<Rightarrow> Some p"
  show ?case
  proof (cases "repeated_click radius ?prev e")
    case True
    then show ?thesis using 2(1) repeated_clickD [OF True] by auto
  next
    case False
    show ?thesis
    proof (cases "merged_scroll ?prev e")
      case None
      then show ?thesis using 2(2) [OF refl False None] False None by simp
    next
      case (Some m)
      obtain p where p: "out = p # tl out" "is_scroll p" "is_scroll e" "is_scroll m"
        using merged_scrollD [OF Some] head_of by metis
      have "filter (\<lambda>e. \<not> is_scroll e \<and> \<not> is_click e) out = filter (\<lambda>e. \<not> is_scroll e \<and> \<not> is_click e) (tl out)"
        by (subst p(1)) (simp add: p(2))
      then show ?thesis using 2(3) [OF refl False Some] False Some p(3,4) by simp
    qed
  qed
qed (simp add: rev_filter)

text \<open>Two neighbours of the result are neither scrolled in one direction nor repeated clicks.\<close>

fun no_repeats :: "int \<Rightarrow> rec_event list \<Rightarrow> bool" where
  "no_repeats radius (e # p # out) \<longleftrightarrow> \<not> repeated_click radius (Some p) e \<and> merged_scroll (Some p) e = None \<and> no_repeats radius (p # out)"
| "no_repeats radius out \<longleftrightarrow> True"

lemma merged_like:
  assumes "merged_scroll (Some p) e = Some m"
  shows "merged_scroll (Some q) m = None \<longleftrightarrow> merged_scroll (Some q) p = None" "\<not> repeated_click radius (Some q) m"
  using assms by (auto simp: merged_scroll_def repeated_click_def split: rec_event.splits if_splits)

lemma dedupe_no_repeats: "no_repeats radius out \<Longrightarrow> no_repeats radius (rev (dedupe_from radius out es))"
proof (induction radius out es rule: dedupe_from.induct)
  case (2 radius out e es)
  let ?prev = "case out of [] \<Rightarrow> None | p # _ \<Rightarrow> Some p"
  show ?case
  proof (cases "repeated_click radius ?prev e")
    case True
    then show ?thesis using 2 by simp
  next
    case False
    show ?thesis
    proof (cases "merged_scroll ?prev e")
      case None
      have "no_repeats radius (e # out)" using 2(4) False None by (cases out) auto
      then show ?thesis using 2(2) [OF refl False None] False None by simp
    next
      case (Some m)
      then obtain p rest where out: "out = p # rest" "merged_scroll (Some p) e = Some m" by (cases out) (auto simp: merged_scroll_def)
      have "no_repeats radius (m # rest)"
        using 2(4) merged_like [OF out(2)] unfolding out(1) by (cases rest) auto
      then show ?thesis using 2(3) [OF refl False Some] False Some out(1) by simp
    qed
  qed
qed simp



section \<open>What pruning keeps\<close>

fun all_nodes :: "(semantic_node \<Rightarrow> bool) \<Rightarrow> semantic_node \<Rightarrow> bool" where
  "all_nodes P (SemText s e) \<longleftrightarrow> P (SemText s e)"
| "all_nodes P (SemElement el cs) \<longleftrightarrow> P (SemElement el cs) \<and> list_all (all_nodes P) cs"

definition node_marked :: "semantic_node \<Rightarrow> bool" where
  "node_marked n = (case n of SemText s e \<Rightarrow> contentOmitted e | SemElement el cs \<Rightarrow> contentOmitted (seEvidence el))"

definition short_text :: "nat \<Rightarrow> semantic_node \<Rightarrow> bool" where
  "short_text m n = (case n of SemText s e \<Rightarrow> length s \<le> m | SemElement el cs \<Rightarrow> True)"

lemma short_text_simps [simp]: "short_text m (SemText s e) \<longleftrightarrow> length s \<le> m" "short_text m (SemElement el cs)"
  by (simp_all add: short_text_def)

fun levels :: "semantic_node \<Rightarrow> nat" where
  "levels (SemText s e) = 1"
| "levels (SemElement el cs) = 1 + foldr max (map levels cs) 0"

lemma foldr_max_le: "foldr max ns (0::nat) \<le> m \<longleftrightarrow> list_all (\<lambda>n. n \<le> m) ns"
  by (induction ns) auto

lemma prune_counts:
  "pruneDomTree opts depth n r = (x, r') \<Longrightarrow> node_count x + r' = r"
  "prune_children opts depth ns r = (ts, missed, r') \<Longrightarrow> sum_list (map estimateNodeCount ts) + r' = r"
proof (induction opts depth n r and opts depth ns r arbitrary: x r' and ts missed r' rule: pruneDomTree_prune_children.induct)
  case (2 opts depth el cs remaining)
  obtain us m s where inner: "prune_children opts (depth + 1) cs (remaining - 1) = (us, m, s)" by (metis prod_cases3)
  show ?case using 2 inner by (auto simp: node_count_def split: if_splits)
next
  case (4 opts depth c cs remaining)
  obtain y s where first: "pruneDomTree opts depth c remaining = (y, s)" by force
  obtain us m s' where rest: "prune_children opts depth cs s = (us, m, s')" by (metis prod_cases3)
  show ?case using 4 first rest by (fastforce simp: node_count_def Let_def split: if_splits option.splits)
qed (auto simp: node_count_def split: if_splits)

lemma prune_short:
  "pruneDomTree opts depth n r = (Some t, r') \<Longrightarrow> depth \<le> maxDepth opts \<Longrightarrow>
     all_nodes (short_text (maxTextLength opts)) t \<and> depth + levels t \<le> maxDepth opts + 1"
  "prune_children opts depth ns r = (ts, missed, r') \<Longrightarrow> depth \<le> maxDepth opts \<Longrightarrow>
     list_all (\<lambda>t. all_nodes (short_text (maxTextLength opts)) t \<and> depth + levels t \<le> maxDepth opts + 1) ts"
proof (induction opts depth n r and opts depth ns r arbitrary: t r' and ts missed r' rule: pruneDomTree_prune_children.induct)
  case (1 opts depth s e remaining)
  then show ?case by (auto split: if_splits)
next
  case (2 opts depth el cs remaining)
  obtain us m s where inner: "prune_children opts (depth + 1) cs (remaining - 1) = (us, m, s)" by (metis prod_cases3)
  show ?case
  proof (cases "depth < maxDepth opts \<and> cs \<noteq> []")
    case True
    then have "list_all (\<lambda>t. all_nodes (short_text (maxTextLength opts)) t \<and> depth + 1 + levels t \<le> maxDepth opts + 1) us"
      using 2(1) [OF _ True inner] 2(2) by (auto split: if_splits)
    moreover from this have "depth + foldr max (map levels us) 0 \<le> maxDepth opts"
      using foldr_max_le [of "map levels us" "maxDepth opts - depth"] True by (auto simp: list_all_iff)
    ultimately show ?thesis using 2(2) True inner by (auto simp: list_all_iff split: if_splits)
  next
    case False
    then show ?thesis using 2(2,3) by (auto split: if_splits)
  qed
next
  case (4 opts depth c cs remaining)
  obtain y s where first: "pruneDomTree opts depth c remaining = (y, s)" by force
  obtain us m s' where rest: "prune_children opts depth cs s = (us, m, s')" by (metis prod_cases3)
  show ?case using 4 first rest by (auto simp: Let_def split: if_splits option.splits)
qed simp

text \<open>A pruned tree has at most the nodes of its budget, no text beyond the limit, and at most one level
  more than the depth.\<close>

theorem pruned_tree_bounded:
  assumes "fst (pruneDomTree opts 0 n (maxNodes opts)) = Some t"
  shows "estimateNodeCount t \<le> maxNodes opts \<and> all_nodes (short_text (maxTextLength opts)) t \<and> levels t \<le> maxDepth opts + 1"
proof -
  obtain r' where "pruneDomTree opts 0 n (maxNodes opts) = (Some t, r')" using assms by (metis eq_fst_iff)
  from prune_counts(1) [OF this] prune_short(1) [OF this] show ?thesis by (simp add: node_count_def)
qed

fun without_health :: "semantic_node \<Rightarrow> semantic_node" where
  "without_health (SemText s e) = SemText s e"
| "without_health (SemElement el cs) = SemElement (copy_element el) (map without_health cs)"

lemma marked_mark: "node_marked (SemText s (mark_if b e)) \<longleftrightarrow> b \<or> contentOmitted e"
  "node_marked (SemElement (mark_element b el) ts) \<longleftrightarrow> b \<or> contentOmitted (seEvidence el)"
  by (simp_all add: node_marked_def mark_if_def markContentOmitted_def mark_element_def)

lemma mark_none [simp]: "mark_if False e = e" "mark_element False el = el"
  by (simp_all add: mark_if_def mark_element_def)

lemma prune_length: "prune_children opts depth ns r = (ts, missed, r') \<Longrightarrow> length ts \<le> length ns"
  by (induction ns arbitrary: r ts missed r') (fastforce simp: Let_def split: prod.splits if_splits option.splits)+

lemma prune_exact:
  "pruneDomTree opts depth n r = (Some t, r') \<Longrightarrow> all_nodes (\<lambda>x. \<not> node_marked x) t \<Longrightarrow> t = without_health n"
  "prune_children opts depth ns r = (ts, missed, r') \<Longrightarrow> list_all (all_nodes (\<lambda>x. \<not> node_marked x)) ts \<Longrightarrow>
     \<not> missed \<Longrightarrow> length ts = length ns \<Longrightarrow> ts = map without_health ns"
proof (induction opts depth n r and opts depth ns r arbitrary: t r' and ts missed r' rule: pruneDomTree_prune_children.induct)
  case (1 opts depth s e remaining)
  then show ?case by (auto simp: marked_mark split: if_splits)
next
  case (2 opts depth el cs remaining)
  obtain us m s where inner: "prune_children opts (depth + 1) cs (remaining - 1) = (us, m, s)" by (metis prod_cases3)
  show ?case using 2 inner prune_length [OF inner] by (auto simp: marked_mark copy_element_def split: if_splits)
next
  case (4 opts depth c cs remaining)
  obtain y s where first: "pruneDomTree opts depth c remaining = (y, s)" by force
  obtain us m s' where rest: "prune_children opts depth cs s = (us, m, s')" by (metis prod_cases3)
  show ?case using 4 first rest by (auto simp: Let_def split: if_splits option.splits)
qed simp

text \<open>C34. Pruning leaves its mark: a pruned tree in which no node says that content was omitted is the whole
  tree, but for the health of its frames.\<close>

theorem unmarked_pruning_exact:
  assumes "fst (pruneDomTree opts 0 n (maxNodes opts)) = Some t" "all_nodes (\<lambda>x. \<not> node_marked x) t"
  shows "t = without_health n"
  using assms prune_exact(1) by (metis eq_fst_iff)

section \<open>Examples\<close>

definition news_tree :: semantic_node where
  "news_tree = SemElement (bare_element (live_el ''div'' [] NoField) [] True)
     [SemText ''headline'' no_evidence, SemElement (bare_element (live_el ''p'' [] NoField) [] True) [SemText ''body'' no_evidence]]"

definition tight :: prune_options where
  "tight = \<lparr>maxNodes = 3, maxDepth = 2, maxTextLength = 4\<rparr>"

definition roomy :: prune_options where
  "roomy = \<lparr>maxNodes = 9, maxDepth = 3, maxTextLength = 20\<rparr>"

lemma news_pruned:
  "fst (pruneDomTree tight 0 news_tree (maxNodes tight)) = Some (SemElement (bare_element (live_el ''div'' [] NoField) [] True)
     [SemText ''head'' (markContentOmitted no_evidence),
      SemElement (mark_element True (bare_element (live_el ''p'' [] NoField) [] True)) []])"
  "fst (pruneDomTree roomy 0 news_tree (maxNodes roomy)) = Some news_tree"
  by code_simp+

theorem pruned_tree_bounded_witness:
  "\<exists>t. fst (pruneDomTree tight 0 news_tree (maxNodes tight)) = Some t \<and> estimateNodeCount t \<le> 3
     \<and> all_nodes (short_text 4) t \<and> levels t \<le> 3"
proof -
  have "maxNodes tight = 3" "maxTextLength tight = 4" "maxDepth tight = 2" by (simp_all add: tight_def)
  then show ?thesis using pruned_tree_bounded [OF news_pruned(1)] news_pruned(1) by auto
qed

theorem unmarked_pruning_exact_witness: "news_tree = without_health news_tree"
  by (rule unmarked_pruning_exact [OF news_pruned(2)]) code_simp

text \<open>Runs of scrolling are folded although their units and their containers differ.\<close>

lemma pages_added_to_pixels:
  "dedupeEvents [ScrollEvent 0 ScrollDown 2 True None, ScrollEvent 9 ScrollDown 300 False (Some 4)] 500 = [ScrollEvent 0 ScrollDown 302 True None]"
  by (simp add: dedupeEvents_def repeated_click_def merged_scroll_def)

end
