(* ===== verification/Replay_Session.thy ===== *)
theory Replay_Session
  imports Replay_Runner
begin

text \<open>
  Model of the replay session of \<open>extension/src/background.ts\<close>: the service worker opens a tab for a rule,
  injects the runner, injects it again after every navigation, watches it with alarms, and reports its
  end once. Its memory is lost when the browser evicts the worker; what it needs to go on is kept in the
  session storage of the extension. Each handler is one step here: the handlers are asynchronous, and
  what can happen between two of their storage operations is not modelled. The storage operations
  succeed, but for those whose failure the code handles, which are told by the event. The texts for
  the user are named by constructors.
\<close>

section \<open>The session\<close>

definition REPLAY_TOTAL_TIMEOUT_MS :: int where
  "REPLAY_TOTAL_TIMEOUT_MS = 30 * 60 * 1000"

definition REPLAY_IDLE_TIMEOUT_MS :: int where
  "REPLAY_IDLE_TIMEOUT_MS = 120000"

definition REPLAY_HOP_LIMIT :: int where
  "REPLAY_HOP_LIMIT = 50"

definition RETAINED_TAB_TTL_MS :: int where
  "RETAINED_TAB_TTL_MS = 30 * 60 * 1000"

definition MAX_RESULT_ROWS :: nat where
  "MAX_RESULT_ROWS = 5000"

record replay_session =
  psTab :: int
  psRule :: string
  psTask :: string
  psStarted :: int
  psHops :: int
  psLastProgress :: int
  psDomains :: "string list"

record retained_tab =
  rtTab :: int
  rtTask :: string
  rtSince :: int

datatype end_status = EndSuccess | EndFailure | EndCancelled

datatype end_reason =
    DomainLeft string
  | HopsExceeded
  | PayloadMissing
  | InjectionFailed string
  | TabWasClosed
  | RetentionFailed
  | TotalTimeout
  | IdleTimeout
  | Superseded
  | UserCancelled
  | ReplayEnded
  | RunnerSaid string

text \<open>What the worker does to the world, in order\<close>

datatype bg_effect =
    Progressed jval
  | Broadcast end_status end_reason
  | Relayed "int option" jval
  | AbortRunner int
  | CloseTab int
  | BootRunner int string page_payload
  | ResumeRunner int string page_payload "jval option"
  | CompleteOnServer string string end_status end_reason "jval list option"

text \<open>Listeners are bound exactly while a session is active, so they need no field of their own.\<close>

record background =
  bgActive :: "replay_session option"
  bgRows :: "(string \<times> jval list) list"
  bgWizard :: bool
  bgStored :: "replay_session option"
  bgPayloads :: "(string \<times> page_payload) list"
  bgContexts :: "(string \<times> jval) list"
  bgStoredRows :: "(string \<times> jval list) list"
  bgRetained :: "retained_tab option"
  bgDsl :: "(string \<times> string) option"
  bgAlarms :: "(bool \<times> string) list"
  bgDone :: "bg_effect list"

definition bg_perform :: "bg_effect list \<Rightarrow> background \<Rightarrow> background" where
  "bg_perform es b = b\<lparr>bgDone := bgDone b @ es\<rparr>"


section \<open>The end of a session\<close>

definition clearReplayStorage :: "string \<Rightarrow> background \<Rightarrow> background" where
  "clearReplayStorage task b = b\<lparr>bgStored := None, bgPayloads := al_remove task (bgPayloads b), bgContexts := al_remove task (bgContexts b)\<rparr>"

definition rows_of :: "(string \<times> jval list) list \<Rightarrow> string \<Rightarrow> jval list" where
  "rows_of m task = (case map_of m task of None \<Rightarrow> [] | Some rs \<Rightarrow> rs)"

text \<open>The rows of arrays are spread, and only objects are rows.\<close>

definition output_rows :: "jval list \<Rightarrow> jval list" where
  "output_rows rws = take MAX_RESULT_ROWS
     (filter (\<lambda>v. case v of JObj _ \<Rightarrow> True | _ \<Rightarrow> False) (concat (map (\<lambda>r. case r of JArr vs \<Rightarrow> vs | _ \<Rightarrow> [r]) rws)))"

definition collected_rows :: "string \<Rightarrow> background \<Rightarrow> jval list" where
  "collected_rows task b = (if rows_of (bgRows b) task = [] then rows_of (bgStoredRows b) task else rows_of (bgRows b) task)"

text \<open>Without a wizard page the server is told of the end directly, with the rows of a success.\<close>

definition completion_output :: "string \<Rightarrow> end_status \<Rightarrow> background \<Rightarrow> jval list option" where
  "completion_output task st b =
     (if st = EndSuccess \<and> collected_rows task b \<noteq> [] then Some (output_rows (collected_rows task b)) else None)"

definition server_completion :: "string \<Rightarrow> end_status \<Rightarrow> end_reason \<Rightarrow> background \<Rightarrow> bg_effect list" where
  "server_completion task st why b =
     (if bgWizard b then []
      else (case bgDsl b of
              None \<Rightarrow> []
            | Some (flow, rid) \<Rightarrow>
                if flow = [] \<or> rid = [] then []
                else [CompleteOnServer flow rid st why (completion_output task st b)]))"

text \<open>
  A session handed over by an alarm was read from the storage, so it is another object than the active
  one, which then stays active with its listeners.
\<close>

definition cleanupReplaySession ::
  "end_status \<Rightarrow> end_reason \<Rightarrow> bool \<Rightarrow> bool \<Rightarrow> replay_session option \<Rightarrow> background \<Rightarrow> background" where
  "cleanupReplaySession st why abort close given b =
     (case first_of given (bgActive b) of
        None \<Rightarrow> b
      | Some s \<Rightarrow>
          let b1 = (case given of None \<Rightarrow> b\<lparr>bgActive := None\<rparr> | Some _ \<Rightarrow> b);
              b2 = b1\<lparr>bgAlarms := filter (\<lambda>(_, t). t \<noteq> psTask s) (bgAlarms b1)\<rparr>;
              b3 = clearReplayStorage (psTask s) (bg_perform (if abort then [AbortRunner (psTab s)] else []) b2);
              b4 = bg_perform ((if close then [CloseTab (psTab s)] else []) @ [Broadcast st why]) b3;
              b5 = bg_perform (server_completion (psTask s) st why b4) b4
          in b5\<lparr>bgRows := al_remove (psTask s) (bgRows b5), bgStoredRows := al_remove (psTask s) (bgStoredRows b5)\<rparr>)"

definition retainSuccessfulReplayTab :: "int \<Rightarrow> string \<Rightarrow> int \<Rightarrow> background \<Rightarrow> background" where
  "retainSuccessfulReplayTab tab task now b = b\<lparr>bgRetained := Some \<lparr>rtTab = tab, rtTask = task, rtSince = now\<rparr>\<rparr>"

definition closeRetainedReplayTab :: "background \<Rightarrow> background" where
  "closeRetainedReplayTab b =
     (case bgRetained b of None \<Rightarrow> b | Some r \<Rightarrow> bg_perform [CloseTab (rtTab r)] (b\<lparr>bgRetained := None\<rparr>))"


section \<open>Messages of the runner\<close>

text \<open>Only the tab of the active session is listened to.\<close>

definition from_replay_tab :: "int option \<Rightarrow> background \<Rightarrow> replay_session option" where
  "from_replay_tab tab b = (case bgActive b of None \<Rightarrow> None | Some s \<Rightarrow> if tab = Some (psTab s) then Some s else None)"

definition persist :: "replay_session \<Rightarrow> background \<Rightarrow> background" where
  "persist s b = b\<lparr>bgActive := Some s, bgStored := Some s\<rparr>"

definition last_rows :: "jval list \<Rightarrow> jval list" where
  "last_rows rs = drop (length rs - MAX_RESULT_ROWS) rs"

definition add_row :: "string \<Rightarrow> jval \<Rightarrow> background \<Rightarrow> background" where
  "add_row task v b =
     (let rs = last_rows (rows_of (bgRows b) task @ [v]) in
      b\<lparr>bgRows := al_set task rs (bgRows b), bgStoredRows := al_set task rs (bgStoredRows b)\<rparr>)"

definition on_progress :: "int option \<Rightarrow> jval \<Rightarrow> int \<Rightarrow> background \<Rightarrow> background" where
  "on_progress tab v now b =
     (case from_replay_tab tab b of
        None \<Rightarrow> b
      | Some s \<Rightarrow>
          let b1 = (if get_prop v ''type'' = JStr ''result'' then add_row (psTask s) (get_prop v ''payload'') b else b)
          in bg_perform [Progressed v] (persist (s\<lparr>psLastProgress := now, psHops := max 0 (psHops s - 10)\<rparr>) b1))"

definition on_context :: "int option \<Rightarrow> jval \<Rightarrow> background \<Rightarrow> background" where
  "on_context tab v b =
     (case from_replay_tab tab b of
        None \<Rightarrow> b
      | Some s \<Rightarrow> if truthy v then b\<lparr>bgContexts := al_set (psTask s) v (bgContexts b)\<rparr> else b)"

definition replayTaskMatches :: "jval \<Rightarrow> string \<Rightarrow> bool" where
  "replayTaskMatches reported task \<longleftrightarrow> reported = JUndef \<or> reported = JStr task"

definition said_success :: "jval \<Rightarrow> bool" where
  "said_success v \<longleftrightarrow> get_prop v ''status'' = JStr ''success''"

definition said_status :: "jval \<Rightarrow> end_status" where
  "said_status v = (if said_success v then EndSuccess else if get_prop v ''status'' = JStr ''cancelled'' then EndCancelled else EndFailure)"

definition said_reason :: "jval \<Rightarrow> end_reason" where
  "said_reason v = (if is_nullish v then ReplayEnded else RunnerSaid (string_or_empty (get_prop v ''message'')))"

text \<open>A worker that was evicted authorises the end against the stored session.\<close>

definition complete_stored :: "int \<Rightarrow> jval \<Rightarrow> int \<Rightarrow> background \<Rightarrow> background" where
  "complete_stored tab v now b =
     (if map_option rtTab (bgRetained b) = Some tab then b
      else (case bgStored b of
              None \<Rightarrow> bg_perform [CloseTab tab] b
            | Some s \<Rightarrow>
                if psTab s \<noteq> tab \<or> \<not> replayTaskMatches (get_prop v ''taskId'') (psTask s) then bg_perform [CloseTab tab] b
                else bg_perform [Relayed (Some tab) v]
                  ((if said_success v then retainSuccessfulReplayTab tab (psTask s) now b else bg_perform [CloseTab tab] b)\<lparr>bgStored := None\<rparr>)))"

definition on_complete :: "int option \<Rightarrow> jval \<Rightarrow> bool \<Rightarrow> int \<Rightarrow> background \<Rightarrow> background" where
  "on_complete tab v retains now b =
     (case from_replay_tab tab b of
        Some s \<Rightarrow>
          if \<not> replayTaskMatches (get_prop v ''taskId'') (psTask s) then b
          else if said_success v
          then (if retains
                then cleanupReplaySession EndSuccess (said_reason v) False False None (retainSuccessfulReplayTab (psTab s) (psTask s) now b)
                else cleanupReplaySession EndFailure RetentionFailed False True None b)
          else cleanupReplaySession (said_status v) (said_reason v) False True None b
      | None \<Rightarrow>
          (case tab of
             None \<Rightarrow> bg_perform [Relayed None v] b
           | Some t \<Rightarrow> if bgActive b \<noteq> None then bg_perform [CloseTab t] b else complete_stored t v now b))"


section \<open>Tabs\<close>

text \<open>What the browser says of a tab that has loaded: it is gone, hides its URL, or is at one\<close>

datatype tab_view = TabGone | TabBlank | TabAt string

definition inject_again :: "replay_session \<Rightarrow> string \<Rightarrow> string option \<Rightarrow> background \<Rightarrow> background" where
  "inject_again s u fails b =
     (case map_of (bgPayloads b) (psTask s) of
        None \<Rightarrow> cleanupReplaySession EndFailure PayloadMissing True True None b
      | Some pl \<Rightarrow>
          (case fails of
             Some m \<Rightarrow> cleanupReplaySession EndFailure (InjectionFailed m) True True None b
           | None \<Rightarrow> bg_perform [ResumeRunner (psTab s) u pl (map_of (bgContexts b) (psTask s))] b))"

definition on_tab_loaded :: "url_parser \<Rightarrow> int \<Rightarrow> tab_view \<Rightarrow> string option \<Rightarrow> background \<Rightarrow> background" where
  "on_tab_loaded parse tab view fails b =
     (case from_replay_tab (Some tab) b of
        None \<Rightarrow> b
      | Some s \<Rightarrow>
          (case view of
             TabAt u \<Rightarrow>
               if u = [] then b
               else (case parse u of
                 None \<Rightarrow> b
               | Some loc \<Rightarrow>
                   if \<not> hostMatchesDomain (hostname loc) (psDomains s)
                   then cleanupReplaySession EndFailure (DomainLeft (hostname loc)) True True None b
                   else let s' = s\<lparr>psHops := psHops s + 1\<rparr> in
                     if REPLAY_HOP_LIMIT < psHops s' then cleanupReplaySession EndFailure HopsExceeded True True None b
                     else inject_again s' u fails (persist s' b))
           | _ \<Rightarrow> b))"

definition on_tab_removed :: "int \<Rightarrow> background \<Rightarrow> background" where
  "on_tab_removed tab b =
     (if from_replay_tab (Some tab) b = None then b else cleanupReplaySession EndFailure TabWasClosed False False None b)"


section \<open>Alarms\<close>

text \<open>The watchdog trusts the stored session only.\<close>

definition on_alarm :: "bool \<Rightarrow> string \<Rightarrow> int \<Rightarrow> background \<Rightarrow> background" where
  "on_alarm whole task now b =
     (case bgStored b of
        None \<Rightarrow> b
      | Some s \<Rightarrow>
          if psTask s \<noteq> task then b
          else if whole then cleanupReplaySession EndFailure TotalTimeout True True (Some s) b
          else if REPLAY_IDLE_TIMEOUT_MS < now - psLastProgress s
          then cleanupReplaySession EndFailure IdleTimeout True True (Some s) b
          else b)"

definition arm_alarms :: "string \<Rightarrow> background \<Rightarrow> background" where
  "arm_alarms task b = b\<lparr>bgAlarms := filter (\<lambda>(_, t). t \<noteq> task) (bgAlarms b) @ [(True, task), (False, task)]\<rparr>"


section \<open>Starting and stopping\<close>

datatype start_answer =
    NoRule
  | NoEntry
  | EntryRefused
  | NoTab
  | NotPersisted string
  | Started string

text \<open>\<open>assertHttpUrl\<close> and \<open>assertEntryUrlDomain\<close>\<close>

definition entry_accepted :: "url_parser \<Rightarrow> string \<Rightarrow> rule \<Rightarrow> bool" where
  "entry_accepted parse u rl =
     (case parse u of
        None \<Rightarrow> False
      | Some loc \<Rightarrow> http_protocol loc \<and> list_all isValidDomainEntry (ruleDomainList rl) \<and> hostMatchesDomain (hostname loc) (ruleDomainList rl))"

definition new_session :: "int \<Rightarrow> rule \<Rightarrow> string \<Rightarrow> int \<Rightarrow> replay_session" where
  "new_session tab rl task now = \<lparr>psTab = tab, psRule = ruleIdOf rl, psTask = task, psStarted = now, psHops = 0,
     psLastProgress = now, psDomains = ruleDomainList rl\<rparr>"

definition start_payload :: "rule \<Rightarrow> jobj option \<Rightarrow> string \<Rightarrow> page_payload" where
  "start_payload rl vars task = \<lparr>plRule = rl, plVariables = Some (case vars of None \<Rightarrow> [] | Some vs \<Rightarrow> vs), plTaskId = task,
     plWorkerId = ''replay-worker''\<rparr>"

definition begin_session :: "replay_session \<Rightarrow> page_payload \<Rightarrow> string \<Rightarrow> background \<Rightarrow> background" where
  "begin_session s pl u b =
     bg_perform [BootRunner (psTab s) u pl]
       (arm_alarms (psTask s) (persist s (b\<lparr>bgPayloads := al_set (psTask s) pl (bgPayloads b)\<rparr>)))"

text \<open>The identifier, the tab the browser opens and the failure of the storage are answers of the platform.\<close>

definition start_replay ::
  "url_parser \<Rightarrow> rule option \<Rightarrow> jobj option \<Rightarrow> string \<Rightarrow> int option \<Rightarrow> string option \<Rightarrow> int \<Rightarrow> background \<Rightarrow> start_answer \<times> background" where
  "start_replay parse rl vars task tab fails now b =
     (case rl of
        None \<Rightarrow> (NoRule, b)
      | Some r \<Rightarrow>
          (case entry r of
             None \<Rightarrow> (NoEntry, b)
           | Some u \<Rightarrow>
               if u = [] then (NoEntry, b)
               else if \<not> entry_accepted parse u r then (EntryRefused, b)
               else let b1 = cleanupReplaySession EndFailure Superseded True True None (closeRetainedReplayTab b) in
                 (case tab of
                    None \<Rightarrow> (NoTab, b1)
                  | Some t \<Rightarrow>
                      (case fails of
                         Some m \<Rightarrow> (NotPersisted m, bg_perform [CloseTab t] b1)
                       | None \<Rightarrow> (Started task, begin_session (new_session t r task now) (start_payload r vars task) u b1)))))"

definition on_boot_failed :: "int \<Rightarrow> string \<Rightarrow> background \<Rightarrow> background" where
  "on_boot_failed tab m b =
     (if from_replay_tab (Some tab) b = None then b else cleanupReplaySession EndFailure (InjectionFailed m) True True None b)"

definition abort_replay :: "background \<Rightarrow> bool \<times> background" where
  "abort_replay b =
     (if bgActive b = None then (bgRetained b \<noteq> None, closeRetainedReplayTab b)
      else (True, cleanupReplaySession EndCancelled UserCancelled True True None b))"


section \<open>Eviction and recovery\<close>

text \<open>The memory of the worker is lost; its port to a wizard closes with it.\<close>

definition evict :: "background \<Rightarrow> background" where
  "evict b = b\<lparr>bgActive := None, bgRows := [], bgWizard := False\<rparr>"

definition release_retained :: "int \<Rightarrow> background \<Rightarrow> background" where
  "release_retained now b =
     (case bgRetained b of
        None \<Rightarrow> b
      | Some r \<Rightarrow> if RETAINED_TAB_TTL_MS < now - rtSince r then closeRetainedReplayTab b else b)"

text \<open>The view of the tab is \<open>None\<close> when the tab was closed, and says whether it has loaded.\<close>

definition recover_session ::
  "url_parser \<Rightarrow> int \<Rightarrow> (bool \<times> tab_view) option \<Rightarrow> string option \<Rightarrow> background \<Rightarrow> background" where
  "recover_session parse now tab fails b =
     (if bgActive b \<noteq> None then b
      else let b1 = release_retained now b in
        (case bgStored b1 of
           None \<Rightarrow> b1
         | Some s \<Rightarrow>
             if REPLAY_TOTAL_TIMEOUT_MS < now - psStarted s then clearReplayStorage (psTask s) b1
             else (case tab of
               None \<Rightarrow> clearReplayStorage (psTask s) b1
             | Some (loaded, view) \<Rightarrow>
                 if psDomains s = [] then clearReplayStorage (psTask s) b1
                 else let b2 = arm_alarms (psTask s) (b1\<lparr>bgActive := Some s\<rparr>) in
                   if loaded then on_tab_loaded parse (psTab s) view fails b2 else b2)))"


section \<open>The machine\<close>

datatype bg_event =
    StartReplay "rule option" "jobj option" string "int option" "string option" int
  | BootFailed int string
  | AbortReplay
  | Progress "int option" jval int
  | SendContext "int option" jval
  | Complete "int option" jval bool int
  | TabLoaded int tab_view "string option"
  | TabRemoved int
  | Alarm bool string int
  | WizardPort bool
  | DslSession "(string \<times> string) option"
  | Evict
  | Recover int "(bool \<times> tab_view) option" "string option"

text \<open>An alarm that is not set does not ring, and that of the total time rings once.\<close>

definition rung :: "bool \<Rightarrow> string \<Rightarrow> background \<Rightarrow> background" where
  "rung whole task b = (if whole then b\<lparr>bgAlarms := filter (\<lambda>a. a \<noteq> (True, task)) (bgAlarms b)\<rparr> else b)"

definition bg_step :: "url_parser \<Rightarrow> background \<Rightarrow> bg_event \<Rightarrow> background" where
  "bg_step parse b e =
     (case e of
        StartReplay rl vars task tab fails now \<Rightarrow> snd (start_replay parse rl vars task tab fails now b)
      | BootFailed tab m \<Rightarrow> on_boot_failed tab m b
      | AbortReplay \<Rightarrow> snd (abort_replay b)
      | Progress tab v now \<Rightarrow> on_progress tab v now b
      | SendContext tab v \<Rightarrow> on_context tab v b
      | Complete tab v retains now \<Rightarrow> on_complete tab v retains now b
      | TabLoaded tab view fails \<Rightarrow> on_tab_loaded parse tab view fails b
      | TabRemoved tab \<Rightarrow> on_tab_removed tab b
      | Alarm whole task now \<Rightarrow> if (whole, task) \<in> set (bgAlarms b) then on_alarm whole task now (rung whole task b) else b
      | WizardPort up \<Rightarrow> b\<lparr>bgWizard := up\<rparr>
      | DslSession d \<Rightarrow> b\<lparr>bgDsl := d\<rparr>
      | Evict \<Rightarrow> evict b
      | Recover now tab fails \<Rightarrow> recover_session parse now tab fails b)"

definition fresh_background :: background where
  "fresh_background = \<lparr>bgActive = None, bgRows = [], bgWizard = False, bgStored = None, bgPayloads = [], bgContexts = [],
     bgStoredRows = [], bgRetained = None, bgDsl = None, bgAlarms = [], bgDone = []\<rparr>"

end
