(* ===== verification/Replay_Session_Laws.thy ===== *)
theory Replay_Session_Laws
  imports Replay_Session
begin

text \<open>
  What the replay session keeps over every run of its events: the pages the runner is injected into
  belong to the rule, a redirect loop ends, a replay that can go on is watched by its alarms, a replay
  is reported once, and an eviction loses neither the session nor its watch. Two runs show what the
  code does not keep: a replay ended by its watchdog is reported again, and the rows collected
  before an eviction are dropped by the first row after it.
\<close>

section \<open>The invariant\<close>

definition at_domain :: "url_parser \<Rightarrow> string \<Rightarrow> string list \<Rightarrow> bool" where
  "at_domain parse u ds = (case parse u of None \<Rightarrow> False | Some loc \<Rightarrow> hostMatchesDomain (hostname loc) ds)"

definition authorised :: "url_parser \<Rightarrow> bg_effect \<Rightarrow> bool" where
  "authorised parse e = (case e of
       BootRunner _ u pl \<Rightarrow> entry_accepted parse u (plRule pl)
     | ResumeRunner _ u pl _ \<Rightarrow> at_domain parse u (ruleDomainList (plRule pl))
     | _ \<Rightarrow> True)"

definition matching_session :: "background \<Rightarrow> replay_session \<Rightarrow> bool" where
  "matching_session b s \<longleftrightarrow> psDomains s \<noteq> [] \<and> 0 \<le> psHops s \<and> psHops s \<le> REPLAY_HOP_LIMIT
     \<and> (case map_of (bgPayloads b) (psTask s) of
          None \<Rightarrow> True
        | Some pl \<Rightarrow> plTaskId pl = psTask s \<and> ruleDomainList (plRule pl) = psDomains s)"

definition current_session :: "background \<Rightarrow> replay_session option" where
  "current_session b = first_of (bgActive b) (bgStored b)"

definition count_done :: "(bg_effect \<Rightarrow> bool) \<Rightarrow> background \<Rightarrow> int" where
  "count_done p b = int (length (filter p (bgDone b)))"

definition is_boot_effect :: "bg_effect \<Rightarrow> bool" where
  "is_boot_effect e = (case e of BootRunner _ _ _ \<Rightarrow> True | _ \<Rightarrow> False)"

definition is_resume_effect :: "bg_effect \<Rightarrow> bool" where
  "is_resume_effect e = (case e of ResumeRunner _ _ _ _ \<Rightarrow> True | _ \<Rightarrow> False)"

definition is_progress_effect :: "bg_effect \<Rightarrow> bool" where
  "is_progress_effect e = (case e of Progressed _ \<Rightarrow> True | _ \<Rightarrow> False)"

definition hops_left :: "replay_session option \<Rightarrow> int" where
  "hops_left s = (case s of None \<Rightarrow> 0 | Some t \<Rightarrow> REPLAY_HOP_LIMIT - psHops t)"

definition watched :: "background \<Rightarrow> replay_session \<Rightarrow> bool" where
  "watched b s \<longleftrightarrow> map_of (bgPayloads b) (psTask s) = None
     \<or> (True, psTask s) \<in> set (bgAlarms b) \<and> (False, psTask s) \<in> set (bgAlarms b)"

definition bg_inv :: "url_parser \<Rightarrow> background \<Rightarrow> bool" where
  "bg_inv parse b \<longleftrightarrow> list_all (authorised parse) (bgDone b)
     \<and> pred_option (matching_session b) (bgActive b)
     \<and> pred_option (matching_session b) (bgStored b)
     \<and> (bgActive b = None \<or> bgStored b = None \<or> bgActive b = bgStored b)
     \<and> (bgStored b = None \<longrightarrow> pred_option (\<lambda>s. map_of (bgPayloads b) (psTask s) = None) (bgActive b))
     \<and> pred_option (watched b) (current_session b)
     \<and> count_done is_resume_effect b + hops_left (current_session b) \<le> 50 * count_done is_boot_effect b + 10 * count_done is_progress_effect b"

text \<open>Effects that neither inject the runner nor answer it\<close>

definition quiet_effect :: "bg_effect \<Rightarrow> bool" where
  "quiet_effect e \<longleftrightarrow> \<not> is_boot_effect e \<and> \<not> is_resume_effect e \<and> \<not> is_progress_effect e"

lemmas effect_kinds = is_boot_effect_def is_resume_effect_def is_progress_effect_def

named_theorems bg_simps \<open>the fields of the background after its primitives\<close>

lemma bg_perform_fields [bg_simps]:
  "bgActive (bg_perform es b) = bgActive b" "bgStored (bg_perform es b) = bgStored b" "bgPayloads (bg_perform es b) = bgPayloads b"
  "bgAlarms (bg_perform es b) = bgAlarms b" "bgDone (bg_perform es b) = bgDone b @ es" "bgRetained (bg_perform es b) = bgRetained b"
  "bgContexts (bg_perform es b) = bgContexts b" "bgRows (bg_perform es b) = bgRows b" "bgStoredRows (bg_perform es b) = bgStoredRows b"
  "bgWizard (bg_perform es b) = bgWizard b" "bgDsl (bg_perform es b) = bgDsl b"
  by (simp_all add: bg_perform_def)

lemma clear_fields [bg_simps]:
  "bgActive (clearReplayStorage t b) = bgActive b" "bgStored (clearReplayStorage t b) = None"
  "bgPayloads (clearReplayStorage t b) = al_remove t (bgPayloads b)" "bgAlarms (clearReplayStorage t b) = bgAlarms b"
  "bgDone (clearReplayStorage t b) = bgDone b"
  by (simp_all add: clearReplayStorage_def)

lemma server_completion_form:
  "server_completion t st why b = [] \<or> (\<exists>flow rid out. server_completion t st why b = [CompleteOnServer flow rid st why out])"
  by (simp add: server_completion_def split: option.split prod.split)

lemma cleanup_fields:
  assumes "first_of given (bgActive b) = Some s"
  shows "bgActive (cleanupReplaySession st why abort close given b) = (if given = None then None else bgActive b)"
    and "bgStored (cleanupReplaySession st why abort close given b) = None"
    and "bgPayloads (cleanupReplaySession st why abort close given b) = al_remove (psTask s) (bgPayloads b)"
    and "bgAlarms (cleanupReplaySession st why abort close given b) = filter (\<lambda>(_, t). t \<noteq> psTask s) (bgAlarms b)"
    and "\<exists>es. bgDone (cleanupReplaySession st why abort close given b)
            = bgDone b @ (if abort then [AbortRunner (psTab s)] else []) @ (if close then [CloseTab (psTab s)] else []) @ [Broadcast st why] @ es
          \<and> (es = [] \<or> (\<exists>flow rid out. es = [CompleteOnServer flow rid st why out]))"
proof -
  let ?b = "cleanupReplaySession st why abort close given b"
  show "bgActive ?b = (if given = None then None else bgActive b)" "bgStored ?b = None"
    "bgPayloads ?b = al_remove (psTask s) (bgPayloads b)" "bgAlarms ?b = filter (\<lambda>(_, t). t \<noteq> psTask s) (bgAlarms b)"
    using assms by (simp_all add: cleanupReplaySession_def Let_def bg_simps split: option.split)
  obtain es where "bgDone ?b
            = bgDone b @ (if abort then [AbortRunner (psTab s)] else []) @ (if close then [CloseTab (psTab s)] else []) @ [Broadcast st why] @ es"
      and "es = server_completion (psTask s) st why (bg_perform ((if close then [CloseTab (psTab s)] else []) @ [Broadcast st why])
            (clearReplayStorage (psTask s) (bg_perform (if abort then [AbortRunner (psTab s)] else [])
              ((case given of None \<Rightarrow> b\<lparr>bgActive := None\<rparr> | Some _ \<Rightarrow> b)\<lparr>bgAlarms := filter (\<lambda>(_, t). t \<noteq> psTask s)
                (bgAlarms (case given of None \<Rightarrow> b\<lparr>bgActive := None\<rparr> | Some _ \<Rightarrow> b))\<rparr>))))"
    using assms by (cases given) (simp_all add: cleanupReplaySession_def Let_def bg_simps)
  then show "\<exists>es. bgDone ?b
            = bgDone b @ (if abort then [AbortRunner (psTab s)] else []) @ (if close then [CloseTab (psTab s)] else []) @ [Broadcast st why] @ es
          \<and> (es = [] \<or> (\<exists>flow rid out. es = [CompleteOnServer flow rid st why out]))"
    using server_completion_form by blast
qed

lemma cleanup_nothing [simp]:
  "first_of given (bgActive b) = None \<Longrightarrow> cleanupReplaySession st why abort close given b = b"
  by (simp add: cleanupReplaySession_def)

lemma count_done_append: "bgDone b' = bgDone b @ es \<Longrightarrow> count_done p b' = count_done p b + int (length (filter p es))"
  by (simp add: count_done_def)

lemma quiet_filters:
  "list_all quiet_effect es \<Longrightarrow> filter is_resume_effect es = []"
  "list_all quiet_effect es \<Longrightarrow> filter is_boot_effect es = []"
  "list_all quiet_effect es \<Longrightarrow> filter is_progress_effect es = []"
  by (induction es) (auto simp: quiet_effect_def)

lemma quiet_authorised: "list_all quiet_effect es \<Longrightarrow> list_all (authorised parse) es"
  by (induction es) (auto simp: quiet_effect_def authorised_def effect_kinds split: bg_effect.splits)

lemma pred_option_iff: "pred_option P x \<longleftrightarrow> (\<forall>s. x = Some s \<longrightarrow> P s)"
  by (cases x) auto

lemma current_in: "current_session b = Some s \<Longrightarrow> bgActive b = Some s \<or> bgStored b = Some s"
  by (auto simp: current_session_def first_of_def split: option.splits)

lemma hops_left_nonneg: "pred_option (matching_session b) s \<Longrightarrow> 0 \<le> hops_left s"
  by (cases s) (auto simp: hops_left_def matching_session_def)

lemma matching_smaller:
  "matching_session b s \<Longrightarrow> (\<And>t. map_of (bgPayloads b') t = None \<or> map_of (bgPayloads b') t = map_of (bgPayloads b) t) \<Longrightarrow> matching_session b' s"
  by (metis (no_types, lifting) matching_session_def option.case(1))

text \<open>A step that only gives a session up, or forgets a copy of it\<close>

lemma bg_inv_shrink:
  assumes inv: "bg_inv parse b"
    and acts: "bgActive b' = None \<or> bgActive b' = bgActive b" and stored: "bgStored b' = None \<or> bgStored b' = bgStored b"
    and over: "\<And>s. bgStored b' = None \<Longrightarrow> bgActive b' = Some s \<Longrightarrow> map_of (bgPayloads b') (psTask s) = None"
    and pls: "\<And>t. map_of (bgPayloads b') t = None \<or> map_of (bgPayloads b') t = map_of (bgPayloads b) t"
    and alarms: "\<And>w t. map_of (bgPayloads b') t \<noteq> None \<Longrightarrow> (w, t) \<in> set (bgAlarms b) \<Longrightarrow> (w, t) \<in> set (bgAlarms b')"
    and runs: "bgDone b' = bgDone b @ es" "list_all quiet_effect es"
  shows "bg_inv parse b'"
proof -
  have cur: "current_session b' = None \<or> current_session b' = current_session b"
  proof -
    have "bgActive b = None \<or> bgStored b = None \<or> bgActive b = bgStored b" using inv by (simp add: bg_inv_def)
    with acts stored show ?thesis by (cases "bgActive b"; cases "bgStored b") (auto simp: current_session_def first_of_def)
  qed
  have m: "matching_session b' s" if "matching_session b s" for s
    using matching_smaller [OF that pls] .
  have w: "watched b' s" if "watched b s" for s
    using that pls [of "psTask s"] alarms [of "psTask s"] by (auto simp: watched_def)
  have "0 \<le> hops_left (current_session b)"
    using inv by (intro hops_left_nonneg [of b]) (auto simp: bg_inv_def current_session_def first_of_def split: option.splits)
  then have h: "hops_left (current_session b') \<le> hops_left (current_session b)"
    using cur by (auto simp: hops_left_def)
  have "pred_option (matching_session b') (bgActive b')" "pred_option (matching_session b') (bgStored b')"
    using inv acts stored m by (auto simp: bg_inv_def pred_option_iff)
  moreover have "pred_option (watched b') (current_session b')"
    using inv cur w by (auto simp: bg_inv_def pred_option_iff)
  moreover have "bgActive b' = None \<or> bgStored b' = None \<or> bgActive b' = bgStored b'"
    using inv acts stored unfolding bg_inv_def by metis
  moreover have "list_all (authorised parse) (bgDone b')"
    using inv quiet_authorised [OF runs(2)] by (simp add: bg_inv_def runs(1))
  ultimately show ?thesis
    using inv h over quiet_filters [OF runs(2)] by (simp add: pred_option_iff bg_inv_def count_done_append [OF runs(1)])
qed


lemma bg_inv_same:
  assumes inv: "bg_inv parse b"
    and same: "bgActive b' = bgActive b" "bgStored b' = bgStored b" "bgPayloads b' = bgPayloads b" "bgAlarms b' = bgAlarms b"
    and runs: "bgDone b' = bgDone b @ es" "list_all quiet_effect es"
  shows "bg_inv parse b'"
  by (rule bg_inv_shrink [OF inv _ _ _ _ _ runs]) (use inv same in \<open>auto simp: bg_inv_def pred_option_iff\<close>)

lemma bg_inv_perform: "bg_inv parse b \<Longrightarrow> list_all quiet_effect es \<Longrightarrow> bg_inv parse (bg_perform es b)"
  by (rule bg_inv_same [of parse b _ es]) (simp_all add: bg_simps)

lemma quiet_effects [simp]:
  "quiet_effect (AbortRunner t)" "quiet_effect (CloseTab t)" "quiet_effect (Broadcast st why)" "quiet_effect (Relayed o' v)"
  "quiet_effect (CompleteOnServer f r st why out)"
  by (simp_all add: quiet_effect_def effect_kinds)

lemma bg_inv_given_up:
  assumes inv: "bg_inv parse b" and s: "bgStored b = Some s \<or> bgStored b = None \<and> bgActive b = Some s"
    and b': "bgActive b' = None \<or> bgActive b' = bgActive b" "bgStored b' = None" "bgPayloads b' = al_remove (psTask s) (bgPayloads b)"
    and alarms: "\<And>w t. t \<noteq> psTask s \<Longrightarrow> (w, t) \<in> set (bgAlarms b) \<Longrightarrow> (w, t) \<in> set (bgAlarms b')"
    and runs: "bgDone b' = bgDone b @ es" "list_all quiet_effect es"
  shows "bg_inv parse b'"
proof (rule bg_inv_shrink [OF inv])
  show "map_of (bgPayloads b') (psTask u) = None" if "bgActive b' = Some u" for u
    using that inv s b' unfolding bg_inv_def pred_option_iff by fastforce
  show "(w, t) \<in> set (bgAlarms b')" if "map_of (bgPayloads b') t \<noteq> None" "(w, t) \<in> set (bgAlarms b)" for w t
    using that alarms [of t w] b'(3) by (auto split: if_splits)
qed (use b' runs in auto)

lemma bg_inv_cleanup:
  assumes inv: "bg_inv parse b" and given: "given = None \<or> given = bgStored b"
  shows "bg_inv parse (cleanupReplaySession st why abort close given b)"
proof (cases "first_of given (bgActive b)")
  case (Some s)
  note fields = cleanup_fields [OF Some, of st why abort close]
  have s: "bgStored b = Some s \<or> bgStored b = None \<and> bgActive b = Some s"
  proof -
    have "bgActive b = None \<or> bgStored b = None \<or> bgActive b = bgStored b" using inv by (simp add: bg_inv_def)
    with given Some show ?thesis by (cases "bgActive b"; cases "bgStored b") (auto simp: first_of_def)
  qed
  obtain es where "bgDone (cleanupReplaySession st why abort close given b) = bgDone b @ es" "list_all quiet_effect es"
    using fields(5) by (elim exE conjE disjE) (simp_all add: list_all_def ball_Un)
  then show ?thesis
    by (rule bg_inv_given_up [OF inv s, rotated 4]) (auto simp: fields)
qed (use inv in simp)


text \<open>A step of the active session that keeps its task and its domains\<close>

lemma bg_inv_update:
  assumes inv: "bg_inv parse b" and s: "bgActive b = Some s"
    and s': "psTask s' = psTask s" "psDomains s' = psDomains s" "0 \<le> psHops s'" "psHops s' \<le> REPLAY_HOP_LIMIT"
    and b': "bgActive b' = Some s'" "bgStored b' = Some s'" "bgPayloads b' = bgPayloads b" "bgAlarms b' = bgAlarms b"
    and runs: "bgDone b' = bgDone b @ es" "list_all (authorised parse) es"
    and hops: "int (length (filter is_resume_effect es)) + psHops s
      \<le> 50 * int (length (filter is_boot_effect es)) + 10 * int (length (filter is_progress_effect es)) + psHops s'"
  shows "bg_inv parse b'"
proof -
  have cur: "current_session b = Some s" "current_session b' = Some s'" using s b' by (simp_all add: current_session_def first_of_def)
  have "matching_session b s" "watched b s" using inv s cur by (simp_all add: bg_inv_def)
  then have "matching_session b' s'" "watched b' s'" using s' b' by (simp_all add: matching_session_def watched_def split: option.splits)
  then show ?thesis
    using inv s b' cur hops runs by (simp add: bg_inv_def hops_left_def count_done_append [OF runs(1)])
qed

lemma persist_fields [bg_simps]:
  "bgActive (persist s b) = Some s" "bgStored (persist s b) = Some s" "bgPayloads (persist s b) = bgPayloads b"
  "bgAlarms (persist s b) = bgAlarms b" "bgDone (persist s b) = bgDone b" "bgContexts (persist s b) = bgContexts b"
  "bgRetained (persist s b) = bgRetained b"
  by (simp_all add: persist_def)

lemma add_row_fields [bg_simps]:
  "bgActive (add_row t v b) = bgActive b" "bgStored (add_row t v b) = bgStored b" "bgPayloads (add_row t v b) = bgPayloads b"
  "bgAlarms (add_row t v b) = bgAlarms b" "bgDone (add_row t v b) = bgDone b"
  by (simp_all add: add_row_def Let_def)

lemma active_matches: "bg_inv parse b \<Longrightarrow> bgActive b = Some s \<Longrightarrow> matching_session b s"
  by (simp add: bg_inv_def)

lemma from_replay_tabD: "from_replay_tab tab b = Some s \<Longrightarrow> bgActive b = Some s \<and> tab = Some (psTab s)"
  by (auto simp: from_replay_tab_def split: option.splits if_splits)

lemma bg_inv_progress:
  assumes inv: "bg_inv parse b"
  shows "bg_inv parse (on_progress tab v now b)"
proof (cases "from_replay_tab tab b")
  case (Some s)
  then have s: "bgActive b = Some s" using from_replay_tabD by blast
  then have "0 \<le> psHops s" "psHops s \<le> REPLAY_HOP_LIMIT" using active_matches [OF inv] by (simp_all add: matching_session_def)
  then show ?thesis
    by (intro bg_inv_update [OF inv s, of "s\<lparr>psLastProgress := now, psHops := max 0 (psHops s - 10)\<rparr>" _ "[Progressed v]"])
      (auto simp: on_progress_def Some Let_def bg_simps authorised_def effect_kinds)
qed (use inv in \<open>simp add: on_progress_def\<close>)

lemma bg_inv_context: "bg_inv parse b \<Longrightarrow> bg_inv parse (on_context tab v b)"
  by (rule bg_inv_same [of parse b _ "[]"]) (simp_all add: on_context_def split: option.split)

lemma bg_inv_retain: "bg_inv parse b \<Longrightarrow> bg_inv parse (retainSuccessfulReplayTab tab task now b)"
  by (rule bg_inv_same [of parse b _ "[]"]) (simp_all add: retainSuccessfulReplayTab_def)

lemma release_fields [bg_simps]:
  "bgActive (closeRetainedReplayTab b) = bgActive b" "bgStored (closeRetainedReplayTab b) = bgStored b"
  by (simp_all add: closeRetainedReplayTab_def bg_simps split: option.split)

lemma bg_inv_release: "bg_inv parse b \<Longrightarrow> bg_inv parse (closeRetainedReplayTab b)"
  by (rule bg_inv_same [of parse b _ "case bgRetained b of None \<Rightarrow> [] | Some r \<Rightarrow> [CloseTab (rtTab r)]"])
    (simp_all add: closeRetainedReplayTab_def bg_simps split: option.split)

lemma bg_inv_forget: "bg_inv parse b \<Longrightarrow> bgActive b = None \<Longrightarrow> bg_inv parse (b\<lparr>bgStored := None\<rparr>)"
  by (rule bg_inv_shrink [of parse b _ "[]"]) auto

lemma bg_inv_clear: "bg_inv parse b \<Longrightarrow> bgActive b = None \<Longrightarrow> bg_inv parse (clearReplayStorage t b)"
  by (rule bg_inv_shrink [of parse b _ "[]"]) (auto simp: bg_simps split: if_splits)

lemma retain_fields [bg_simps]:
  "bgActive (retainSuccessfulReplayTab tab task now b) = bgActive b" "bgStored (retainSuccessfulReplayTab tab task now b) = bgStored b"
  "bgDone (retainSuccessfulReplayTab tab task now b) = bgDone b"
  by (simp_all add: retainSuccessfulReplayTab_def)

lemma bg_inv_complete_stored:
  assumes "bg_inv parse b" and "bgActive b = None"
  shows "bg_inv parse (complete_stored tab v now b)"
  using assms by (auto simp: complete_stored_def bg_simps split: option.split
      intro!: bg_inv_perform bg_inv_forget bg_inv_retain)

lemma bg_inv_complete: "bg_inv parse b \<Longrightarrow> bg_inv parse (on_complete tab v retains now b)"
  by (auto simp: on_complete_def split: option.split
      intro!: bg_inv_perform bg_inv_cleanup bg_inv_retain bg_inv_complete_stored)


text \<open>The page that has loaded is the one the runner is resumed on.\<close>

lemma bg_inv_inject:
  assumes inv: "bg_inv parse b" and s: "bgActive b = Some s" and hop: "psHops s + 1 \<le> REPLAY_HOP_LIMIT"
    and at: "at_domain parse u (psDomains s)"
  shows "bg_inv parse (inject_again (s\<lparr>psHops := psHops s + 1\<rparr>) u fails (persist (s\<lparr>psHops := psHops s + 1\<rparr>) b))"
proof -
  let ?s = "s\<lparr>psHops := psHops s + 1\<rparr>"
  have m: "matching_session b s" by (rule active_matches [OF inv s])
  then have le: "0 \<le> psHops s" by (simp add: matching_session_def)
  have kept: "bg_inv parse (persist ?s b)"
    by (rule bg_inv_update [OF inv s, of ?s _ "[]"]) (use le hop in \<open>simp_all add: bg_simps\<close>)
  show ?thesis
  proof (cases "map_of (bgPayloads b) (psTask s)")
    case None
    then show ?thesis by (simp add: inject_again_def bg_simps bg_inv_cleanup [OF kept])
  next
    case (Some pl)
    then have pl: "ruleDomainList (plRule pl) = psDomains s" using m by (simp add: matching_session_def)
    let ?r = "ResumeRunner (psTab s) u pl (map_of (bgContexts b) (psTask s))"
    have "bg_inv parse (bg_perform [?r] (persist ?s b))"
      by (rule bg_inv_update [OF inv s, of ?s _ "[?r]"])
        (use le hop at pl in \<open>simp_all add: bg_simps authorised_def effect_kinds\<close>)
    then show ?thesis
      using Some by (cases fails) (simp_all add: inject_again_def bg_simps bg_inv_cleanup [OF kept])
  qed
qed

lemma bg_inv_loaded:
  assumes inv: "bg_inv parse b"
  shows "bg_inv parse (on_tab_loaded parse tab view fails b)"
proof (cases "from_replay_tab (Some tab) b")
  case (Some s)
  then have s: "bgActive b = Some s" using from_replay_tabD by blast
  have "bg_inv parse (inject_again (s\<lparr>psHops := psHops s + 1\<rparr>) u fails (persist (s\<lparr>psHops := psHops s + 1\<rparr>) b))"
    if "\<not> REPLAY_HOP_LIMIT < psHops s + 1" "parse u = Some loc" "hostMatchesDomain (hostname loc) (psDomains s)" for u loc
    using that by (intro bg_inv_inject [OF inv s]) (simp_all add: at_domain_def)
  then show ?thesis
    using inv by (auto simp: on_tab_loaded_def Some Let_def bg_inv_cleanup split: tab_view.split option.split)
qed (use inv in \<open>simp add: on_tab_loaded_def\<close>)

lemma bg_inv_removed: "bg_inv parse b \<Longrightarrow> bg_inv parse (on_tab_removed tab b)"
  by (simp add: on_tab_removed_def bg_inv_cleanup)

lemma bg_inv_boot_failed: "bg_inv parse b \<Longrightarrow> bg_inv parse (on_boot_failed tab m b)"
  by (simp add: on_boot_failed_def bg_inv_cleanup)

lemma bg_inv_abort: "bg_inv parse b \<Longrightarrow> bg_inv parse (snd (abort_replay b))"
  by (simp add: abort_replay_def bg_inv_cleanup bg_inv_release)

lemma bg_inv_alarm:
  assumes inv: "bg_inv parse b"
  shows "bg_inv parse (on_alarm whole task now (rung whole task b))"
proof -
  have rung: "bgActive (rung whole task b) = bgActive b" "bgStored (rung whole task b) = bgStored b"
    "bgPayloads (rung whole task b) = bgPayloads b" "bgDone (rung whole task b) = bgDone b"
    and alarms: "\<And>w t. t \<noteq> task \<Longrightarrow> (w, t) \<in> set (bgAlarms b) \<Longrightarrow> (w, t) \<in> set (bgAlarms (rung whole task b))"
    by (auto simp: rung_def)
  have ended: "bg_inv parse (cleanupReplaySession EndFailure why True True (Some s) (rung whole task b))"
    if s: "bgStored b = Some s" "psTask s = task" for s why
  proof -
    have "first_of (Some s) (bgActive (rung whole task b)) = Some s" by (simp add: first_of_def)
    note fields = cleanup_fields [OF this, of EndFailure why True True]
    obtain es where "bgDone (cleanupReplaySession EndFailure why True True (Some s) (rung whole task b)) = bgDone b @ es" "list_all quiet_effect es"
      using fields(5) unfolding rung by (elim exE conjE disjE) (simp_all add: list_all_def ball_Un)
    then show ?thesis
      by (rule bg_inv_given_up [OF inv disjI1 [OF s(1)], rotated 4]) (use s(2) alarms in \<open>auto simp: fields rung\<close>)
  qed
  have kept: "bg_inv parse (rung whole task b)" if other: "\<And>s. bgStored b = Some s \<Longrightarrow> psTask s \<noteq> task"
  proof -
    have "watched (rung whole task b) s" if "current_session b = Some s" for s
    proof (cases "bgStored b")
      case None
      then show ?thesis using inv current_in [OF that] by (simp add: bg_inv_def watched_def rung)
    next
      case (Some u)
      then have "u = s" using inv that by (auto simp: bg_inv_def current_session_def first_of_def split: option.splits)
      then show ?thesis using inv that other [OF Some] alarms by (auto simp: bg_inv_def watched_def rung)
    qed
    then show ?thesis
      using inv unfolding bg_inv_def pred_option_iff current_session_def count_done_def matching_session_def rung by blast
  qed
  show ?thesis
  proof (cases "bgStored b")
    case None
    then show ?thesis using kept by (simp add: on_alarm_def rung)
  next
    case (Some s)
    show ?thesis
    proof (cases "psTask s = task")
      case True
      moreover have "rung whole task b = b" if "\<not> whole" using that by (simp add: rung_def)
      ultimately show ?thesis using ended [OF Some] inv by (auto simp: on_alarm_def rung Some)
    qed (use kept Some in \<open>simp add: on_alarm_def rung\<close>)
  qed
qed


lemma arm_fields [bg_simps]:
  "bgActive (arm_alarms t b) = bgActive b" "bgStored (arm_alarms t b) = bgStored b" "bgPayloads (arm_alarms t b) = bgPayloads b"
  "bgDone (arm_alarms t b) = bgDone b" "(w, t') \<in> set (bgAlarms (arm_alarms t b)) \<longleftrightarrow> t' = t \<or> (w, t') \<in> set (bgAlarms b)"
  "bgContexts (arm_alarms t b) = bgContexts b" "bgStoredRows (arm_alarms t b) = bgStoredRows b" "bgRetained (arm_alarms t b) = bgRetained b"
  by (auto simp: arm_alarms_def)

lemma bg_inv_begin:
  assumes inv: "bg_inv parse b" and s: "psHops s = 0" "plTaskId pl = psTask s" "ruleDomainList (plRule pl) = psDomains s"
    and entry: "entry_accepted parse u (plRule pl)"
  shows "bg_inv parse (begin_session s pl u b)"
proof -
  let ?b = "begin_session s pl u b"
  have b': "bgActive ?b = Some s" "bgStored ?b = Some s" "bgPayloads ?b = al_set (psTask s) pl (bgPayloads b)"
    "bgDone ?b = bgDone b @ [BootRunner (psTab s) u pl]"
    by (simp_all add: begin_session_def bg_simps)
  have alarms: "(w, psTask s) \<in> set (bgAlarms ?b)" for w
    by (simp add: begin_session_def bg_simps)
  have "0 \<le> hops_left (current_session b)"
    using inv by (intro hops_left_nonneg [of b]) (auto simp: bg_inv_def pred_option_iff dest: current_in)
  moreover have "current_session ?b = Some s" by (simp add: current_session_def first_of_def b')
  moreover have "psDomains s \<noteq> []"
    using entry s by (auto simp: entry_accepted_def hostMatchesDomain_def split: option.splits)
  ultimately show ?thesis
    using inv s entry alarms
    by (simp add: bg_inv_def b' matching_session_def watched_def hops_left_def authorised_def effect_kinds
        count_done_append [OF b'(4)] REPLAY_HOP_LIMIT_def)
qed

lemma bg_inv_start:
  assumes inv: "bg_inv parse b"
  shows "bg_inv parse (snd (start_replay parse rl vars task tab fails now b))"
proof -
  let ?b = "cleanupReplaySession EndFailure Superseded True True None (closeRetainedReplayTab b)"
  have base: "bg_inv parse ?b" by (rule bg_inv_cleanup [OF bg_inv_release [OF inv]]) simp
  have "bg_inv parse (begin_session (new_session t r task now) (start_payload r vars task) u ?b)" if "entry_accepted parse u r" for t r u
    by (rule bg_inv_begin [OF base]) (use that in \<open>simp_all add: new_session_def start_payload_def\<close>)
  moreover have "bg_inv parse (bg_perform [CloseTab t] ?b)" for t by (rule bg_inv_perform [OF base]) simp
  ultimately show ?thesis
    using inv base by (simp add: start_replay_def Let_def split: option.split)
qed

lemma bg_inv_revive:
  assumes inv: "bg_inv parse b" and none: "bgActive b = None" and s: "bgStored b = Some s"
  shows "bg_inv parse (arm_alarms (psTask s) (b\<lparr>bgActive := Some s\<rparr>))"
proof -
  let ?b = "arm_alarms (psTask s) (b\<lparr>bgActive := Some s\<rparr>)"
  have cur: "current_session b = Some s" "current_session ?b = Some s" by (simp_all add: current_session_def first_of_def none s bg_simps)
  have "watched ?b s" by (simp add: watched_def bg_simps)
  then show ?thesis
    using inv cur s by (simp add: bg_inv_def bg_simps matching_session_def count_done_def)
qed

lemma bg_inv_release_old: "bg_inv parse b \<Longrightarrow> bg_inv parse (release_retained now b)"
  by (simp add: release_retained_def bg_inv_release split: option.split)

lemma release_old_fields [bg_simps]:
  "bgActive (release_retained now b) = bgActive b" "bgStored (release_retained now b) = bgStored b"
  by (simp_all add: release_retained_def bg_simps split: option.split)

lemma bg_inv_recover:
  assumes inv: "bg_inv parse b"
  shows "bg_inv parse (recover_session parse now tab fails b)"
proof (cases "bgActive b")
  case None
  let ?b = "release_retained now b"
  have base: "bg_inv parse ?b" by (rule bg_inv_release_old [OF inv])
  have cleared: "bg_inv parse (clearReplayStorage t ?b)" for t by (rule bg_inv_clear [OF base]) (simp add: bg_simps None)
  have revived: "bg_inv parse (arm_alarms (psTask s) (?b\<lparr>bgActive := Some s\<rparr>))" if "bgStored b = Some s" for s
    by (rule bg_inv_revive [OF base]) (simp_all add: bg_simps None that)
  show ?thesis
    using base cleared revived bg_inv_loaded [OF revived]
    by (simp add: recover_session_def None Let_def bg_simps split: option.split prod.split)
qed (use inv in \<open>simp add: recover_session_def\<close>)

lemma bg_inv_evict: "bg_inv parse b \<Longrightarrow> bg_inv parse (evict b)"
  by (rule bg_inv_shrink [of parse b _ "[]"]) (auto simp: evict_def)

lemma bg_step_inv:
  assumes inv: "bg_inv parse b"
  shows "bg_inv parse (bg_step parse b e)"
proof (cases e)
  case (WizardPort up)
  then show ?thesis by (simp add: bg_step_def) (rule bg_inv_same [OF inv, of _ "[]"], simp_all)
next
  case (DslSession d)
  then show ?thesis by (simp add: bg_step_def) (rule bg_inv_same [OF inv, of _ "[]"], simp_all)
qed (use inv in \<open>simp_all add: bg_step_def bg_inv_start bg_inv_boot_failed bg_inv_abort bg_inv_progress bg_inv_context
      bg_inv_complete bg_inv_loaded bg_inv_removed bg_inv_alarm bg_inv_evict bg_inv_recover\<close>)

interpretation replaying: event_machine "bg_step parse" "bg_inv parse" for parse
  by unfold_locales (rule bg_step_inv)

lemma fresh_inv: "bg_inv parse fresh_background"
  by (simp add: bg_inv_def fresh_background_def current_session_def first_of_def count_done_def hops_left_def)


section \<open>What every run keeps\<close>



section \<open>One report\<close>

definition ends_reported :: "bg_effect \<Rightarrow> bool" where
  "ends_reported e = (case e of Broadcast _ _ \<Rightarrow> True | Relayed (Some _) _ \<Rightarrow> True | _ \<Rightarrow> False)"

definition is_server_effect :: "bg_effect \<Rightarrow> bool" where
  "is_server_effect e = (case e of CompleteOnServer _ _ _ _ _ \<Rightarrow> True | _ \<Rightarrow> False)"

lemmas report_kinds = ends_reported_def is_server_effect_def is_boot_effect_def

definition open_replays :: "background \<Rightarrow> int" where
  "open_replays b = (if current_session b = None then 0 else 1)"

definition report_inv :: "background \<Rightarrow> bool" where
  "report_inv b \<longleftrightarrow> count_done ends_reported b + open_replays b \<le> count_done is_boot_effect b
     \<and> count_done is_server_effect b \<le> count_done ends_reported b"

text \<open>An alarm hands over a session read from the storage; its runs are looked at apart.\<close>

definition not_alarm :: "bg_event \<Rightarrow> bool" where
  "not_alarm e = (case e of Alarm _ _ _ \<Rightarrow> False | _ \<Rightarrow> True)"

definition silent_effect :: "bg_effect \<Rightarrow> bool" where
  "silent_effect e \<longleftrightarrow> \<not> ends_reported e \<and> \<not> is_server_effect e \<and> \<not> is_boot_effect e"

lemma silent_filters:
  "list_all silent_effect es \<Longrightarrow> filter ends_reported es = []"
  "list_all silent_effect es \<Longrightarrow> filter is_server_effect es = []"
  "list_all silent_effect es \<Longrightarrow> filter is_boot_effect es = []"
  by (induction es) (auto simp: silent_effect_def)

lemma silent_effects [simp]:
  "silent_effect (AbortRunner t)" "silent_effect (CloseTab t)" "silent_effect (Progressed v)" "silent_effect (Relayed None v)"
  "silent_effect (ResumeRunner t u pl c)"
  by (simp_all add: silent_effect_def report_kinds)

lemma report_inv_silent:
  assumes inv: "report_inv b" and cur: "current_session b = None \<Longrightarrow> current_session b' = None"
    and runs: "bgDone b' = bgDone b @ es" "list_all silent_effect es"
  shows "report_inv b'"
  using inv cur silent_filters [OF runs(2)] by (auto simp: report_inv_def open_replays_def count_done_append [OF runs(1)] split: if_splits)

lemma report_inv_cleanup:
  assumes inv: "report_inv b"
  shows "report_inv (cleanupReplaySession st why abort close None b)"
proof (cases "bgActive b")
  case (Some s)
  then have f: "first_of None (bgActive b) = Some s" by (simp add: first_of_def)
  let ?b = "cleanupReplaySession st why abort close None b"
  have cur: "current_session ?b = None" "current_session b \<noteq> None"
    using Some by (simp_all add: current_session_def first_of_def cleanup_fields [OF f])
  obtain es es' where es: "bgDone ?b = bgDone b @ es" "es = (if abort then [AbortRunner (psTab s)] else []) @ (if close then [CloseTab (psTab s)] else []) @ [Broadcast st why] @ es'"
    "es' = [] \<or> (\<exists>flow rid out. es' = [CompleteOnServer flow rid st why out])"
    using cleanup_fields(5) [OF f, of st why abort close] by blast
  have "filter ends_reported es = [Broadcast st why]" "filter is_boot_effect es = []" "length (filter is_server_effect es) \<le> 1"
    using es(3) by (auto simp: es(2) report_kinds)
  then show ?thesis
    using inv cur by (simp add: report_inv_def open_replays_def count_done_append [OF es(1)])
qed (use inv in \<open>simp add: first_of_def\<close>)


lemma report_inv_same:
  assumes inv: "report_inv b" and same: "bgActive b' = bgActive b" "bgStored b' = bgStored b"
    and runs: "bgDone b' = bgDone b @ es" "list_all silent_effect es"
  shows "report_inv b'"
  by (rule report_inv_silent [OF inv _ runs]) (simp add: current_session_def same)

lemma report_inv_perform: "report_inv b \<Longrightarrow> list_all silent_effect es \<Longrightarrow> report_inv (bg_perform es b)"
  by (rule report_inv_same [of b _ es]) (simp_all add: bg_simps)

lemma report_inv_persist: "report_inv b \<Longrightarrow> bgActive b \<noteq> None \<Longrightarrow> report_inv (persist s b)"
  by (rule report_inv_silent [of b _ "[]"]) (auto simp: bg_simps current_session_def first_of_def)

lemma report_inv_add_row: "report_inv b \<Longrightarrow> report_inv (add_row t v b)"
  by (rule report_inv_same [of b _ "[]"]) (simp_all add: bg_simps)

lemma report_inv_progress: "report_inv b \<Longrightarrow> report_inv (on_progress tab v now b)"
  by (auto simp: on_progress_def Let_def bg_simps report_inv_add_row split: option.split dest!: from_replay_tabD
      intro!: report_inv_perform report_inv_persist)

lemma report_inv_context: "report_inv b \<Longrightarrow> report_inv (on_context tab v b)"
  by (rule report_inv_same [of b _ "[]"]) (simp_all add: on_context_def split: option.split)

lemma report_inv_retain: "report_inv b \<Longrightarrow> report_inv (retainSuccessfulReplayTab tab task now b)"
  by (rule report_inv_same [of b _ "[]"]) (simp_all add: bg_simps)

lemma report_inv_release: "report_inv b \<Longrightarrow> report_inv (closeRetainedReplayTab b)"
  by (rule report_inv_same [of b _ "case bgRetained b of None \<Rightarrow> [] | Some r \<Rightarrow> [CloseTab (rtTab r)]"])
    (simp_all add: closeRetainedReplayTab_def bg_simps split: option.split)

text \<open>The relayed end of a replay whose worker was evicted uses up the stored session.\<close>

lemma report_inv_relayed:
  assumes inv: "report_inv b" and cur: "bgActive b = None" "bgStored b = Some s"
    and b': "bgActive b' = None" "bgStored b' = None" "bgDone b' = bgDone b @ es @ [Relayed (Some t) v]" "list_all silent_effect es"
  shows "report_inv b'"
proof -
  have "current_session b \<noteq> None" "current_session b' = None" by (simp_all add: current_session_def first_of_def cur b')
  then show ?thesis
    using inv silent_filters [OF b'(4)]
    by (auto simp: report_inv_def open_replays_def count_done_append [OF b'(3)] report_kinds)
qed

lemma report_inv_complete_stored:
  assumes inv: "report_inv b" and none: "bgActive b = None"
  shows "report_inv (complete_stored tab v now b)"
proof -
  have "report_inv (bg_perform [CloseTab tab] b)" by (rule report_inv_perform [OF inv]) simp
  moreover have "report_inv (bg_perform [Relayed (Some tab) v] ((if said_success v then retainSuccessfulReplayTab tab (psTask s) now b
      else bg_perform [CloseTab tab] b)\<lparr>bgStored := None\<rparr>))" if "bgStored b = Some s" for s
    by (rule report_inv_relayed [OF inv none that, of _ "if said_success v then [] else [CloseTab tab]" tab v])
      (simp_all add: bg_simps none)
  ultimately show ?thesis using inv by (simp add: complete_stored_def split: option.split)
qed

lemma report_inv_complete: "report_inv b \<Longrightarrow> report_inv (on_complete tab v retains now b)"
  by (auto simp: on_complete_def split: option.split
      intro!: report_inv_perform report_inv_cleanup report_inv_retain report_inv_complete_stored)

lemma report_inv_inject: "report_inv b \<Longrightarrow> report_inv (inject_again s u fails b)"
  by (auto simp: inject_again_def report_inv_cleanup split: option.split intro: report_inv_perform)

lemma report_inv_loaded: "report_inv b \<Longrightarrow> report_inv (on_tab_loaded parse tab view fails b)"
  by (auto simp: on_tab_loaded_def Let_def report_inv_cleanup split: tab_view.split option.split dest!: from_replay_tabD
      intro!: report_inv_inject report_inv_persist)

lemma report_inv_begin:
  assumes inv: "report_inv b"
  shows "report_inv (begin_session s pl u b)"
proof -
  let ?b = "begin_session s pl u b"
  have d: "bgDone ?b = bgDone b @ [BootRunner (psTab s) u pl]" by (simp add: begin_session_def bg_simps)
  have "open_replays ?b = 1" by (simp add: open_replays_def current_session_def first_of_def begin_session_def bg_simps)
  moreover have "0 \<le> open_replays b" by (simp add: open_replays_def)
  ultimately show ?thesis using inv by (simp add: report_inv_def count_done_append [OF d] report_kinds)
qed

lemma report_inv_start: "report_inv b \<Longrightarrow> report_inv (snd (start_replay parse rl vars task tab fails now b))"
  by (simp add: start_replay_def Let_def report_inv_begin report_inv_cleanup report_inv_release report_inv_perform split: option.split)

lemma report_inv_recover:
  assumes inv: "report_inv b"
  shows "report_inv (recover_session parse now tab fails b)"
proof -
  let ?b = "release_retained now b"
  have base: "report_inv ?b" using inv by (simp add: release_retained_def report_inv_release split: option.split)
  have "report_inv (clearReplayStorage t ?b)" if "bgActive b = None" for t
    by (rule report_inv_silent [OF base, of _ "[]"]) (simp_all add: bg_simps current_session_def first_of_def that)
  moreover have "report_inv (arm_alarms t (?b\<lparr>bgActive := Some s\<rparr>))" if "bgActive b = None" "bgStored b = Some s" for s t
    by (rule report_inv_silent [OF base, of _ "[]"]) (simp_all add: bg_simps current_session_def first_of_def that)
  ultimately show ?thesis
    using inv base by (simp add: recover_session_def Let_def bg_simps report_inv_loaded split: option.split prod.split)
qed

lemma report_inv_evict: "report_inv b \<Longrightarrow> report_inv (evict b)"
  by (rule report_inv_silent [of b _ "[]"]) (auto simp: evict_def current_session_def first_of_def split: option.splits)

lemma report_inv_step:
  assumes inv: "report_inv b"
  shows "report_inv (if not_alarm e then bg_step parse b e else b)"
proof (cases e)
  case (WizardPort up)
  then show ?thesis by (simp add: bg_step_def not_alarm_def) (rule report_inv_same [OF inv, of _ "[]"], simp_all)
next
  case (DslSession d)
  then show ?thesis by (simp add: bg_step_def not_alarm_def) (rule report_inv_same [OF inv, of _ "[]"], simp_all)
qed (use inv in \<open>simp_all add: bg_step_def not_alarm_def report_inv_start on_boot_failed_def abort_replay_def report_inv_cleanup
      report_inv_release report_inv_progress report_inv_context report_inv_complete report_inv_loaded on_tab_removed_def
      report_inv_evict report_inv_recover\<close>)

interpretation reporting: event_machine "\<lambda>b e. if not_alarm e then bg_step parse b e else b" report_inv for parse
  by unfold_locales (rule report_inv_step)

lemma run_without_alarms:
  "list_all not_alarm es \<Longrightarrow> run_events (\<lambda>b e. if not_alarm e then bg_step parse b e else b) b es = run_events (bg_step parse) b es"
  by (induction es arbitrary: b) auto

text \<open>C39. A replay is reported once: as long as no alarm rings, the ends told to the wizard, of the worker
  itself or relayed from a tab, are at most the replays that were started, less the one still going
  on; and the server is never told of an end the wizard was not told of.\<close>

theorem replay_reported_once:
  assumes "list_all not_alarm es"
  shows "(let b = run_events (bg_step parse) fresh_background es in
     count_done ends_reported b + open_replays b \<le> count_done is_boot_effect b
     \<and> count_done is_server_effect b \<le> count_done ends_reported b)"
proof -
  have "report_inv fresh_background"
    by (simp add: report_inv_def fresh_background_def open_replays_def current_session_def first_of_def count_done_def)
  from reporting.run_inv [OF this, of parse es] show ?thesis
    by (simp add: run_without_alarms [OF assms] report_inv_def Let_def)
qed


section \<open>The watchdog\<close>



section \<open>Eviction\<close>

definition new_effects :: "background \<Rightarrow> background \<Rightarrow> bg_effect list" where
  "new_effects b b' = drop (length (bgDone b)) (bgDone b')"

lemma new_effects_none [simp]: "new_effects b b = []"
  by (simp add: new_effects_def)

lemma cleanup_no_resume: "filter is_resume_effect (new_effects b (cleanupReplaySession st why abort close given b)) = []"
proof (cases "first_of given (bgActive b)")
  case (Some s)
  show ?thesis using cleanup_fields(5) [OF Some, of st why abort close] by (auto simp: new_effects_def effect_kinds)
qed (simp add: new_effects_def)

lemma new_effects_persisted: "new_effects b (f (persist s b)) = new_effects (persist s b) (f (persist s b))"
  by (simp add: new_effects_def bg_simps)

text \<open>What a loaded tab injects depends on the session, its payload and its context only.\<close>

lemma loaded_resumes:
  assumes s: "bgActive b = Some s"
  shows "filter is_resume_effect (new_effects b (on_tab_loaded parse tab view fails b)) =
    (case view of TabAt u \<Rightarrow>
       (if tab = psTab s \<and> u \<noteq> [] \<and> at_domain parse u (psDomains s) \<and> psHops s < REPLAY_HOP_LIMIT \<and> fails = None
        then (case map_of (bgPayloads b) (psTask s) of
                None \<Rightarrow> []
              | Some pl \<Rightarrow> [ResumeRunner (psTab s) u pl (map_of (bgContexts b) (psTask s))])
        else [])
     | _ \<Rightarrow> [])"
proof -
  have "filter is_resume_effect (new_effects b (inject_again s' u fails (persist s' b))) =
      (if fails = None then (case map_of (bgPayloads b) (psTask s') of None \<Rightarrow> []
         | Some pl \<Rightarrow> [ResumeRunner (psTab s') u pl (map_of (bgContexts b) (psTask s'))]) else [])" for s' u
    unfolding new_effects_persisted [of b "inject_again s' u fails"]
    by (simp add: inject_again_def bg_simps cleanup_no_resume split: option.split) (simp add: new_effects_def bg_simps effect_kinds)
  then show ?thesis
    using s
    by (cases view) (auto simp: cleanup_no_resume on_tab_loaded_def from_replay_tab_def at_domain_def Let_def split: option.split)
qed



section \<open>Runs\<close>

definition shop_start :: "bg_event list" where
  "shop_start = [DslSession (Some (''w'', ''r'')), StartReplay (Some shop_rule) None ''t1'' (Some 7) None 0,
     TabLoaded 7 (TabAt ''https://shop.example.com/list'') None]"

definition row_event :: "string \<Rightarrow> bg_event" where
  "row_event n = Progress (Some 7) (JObj [(''type'', JStr ''result''), (''payload'', JObj [(''title'', JStr n)])]) 5"

definition success_event :: bg_event where
  "success_event = Complete (Some 7) (JObj [(''status'', JStr ''success''), (''taskId'', JStr ''t1'')]) True 9"

definition replay_run :: "bg_event list \<Rightarrow> background" where
  "replay_run es = run_events (bg_step simple_url) fresh_background (shop_start @ es)"

theorem replay_reported_once_witness:
  "list_all not_alarm (shop_start @ [row_event ''a'', success_event])
   \<and> (let b = run_events (bg_step simple_url) fresh_background (shop_start @ [row_event ''a'', success_event]) in
        count_done ends_reported b + open_replays b \<le> count_done is_boot_effect b \<and> count_done is_server_effect b \<le> count_done ends_reported b)"
proof -
  have quiet: "list_all not_alarm (shop_start @ [row_event ''a'', success_event])"
    by (simp add: shop_start_def row_event_def success_event_def not_alarm_def)
  show ?thesis using quiet replay_reported_once [OF quiet] by blast
qed

definition shop_session :: replay_session where
  "shop_session = \<lparr>psTab = 7, psRule = ''r1'', psTask = ''t1'', psStarted = 0, psHops = 1, psLastProgress = 0, psDomains = [''example.com'']\<rparr>"

lemma shop_running: "bgStored (replay_run []) = Some shop_session" "bgActive (replay_run []) = Some shop_session"
  "map_of (bgPayloads (replay_run [])) (psTask shop_session) \<noteq> None"
  by code_simp+



text \<open>A replay ended by its watchdog is reported again when its tab, closed by the watchdog, is gone: the
  session the watchdog ended was read from the storage, and the one in memory stayed active.\<close>

lemma watchdog_reported_twice:
  "filter ends_reported (bgDone (replay_run [Alarm True ''t1'' 1800000, TabRemoved 7]))
     = [Broadcast EndFailure TotalTimeout, Broadcast EndFailure TabWasClosed]"
  "count_done is_boot_effect (replay_run [Alarm True ''t1'' 1800000, TabRemoved 7]) = 1"
  by code_simp+

text \<open>The rows collected before an eviction are lost with the first row after it, in the storage as well.\<close>

definition sent_rows :: "background \<Rightarrow> jval list option list" where
  "sent_rows b = concat (map (\<lambda>e. case e of CompleteOnServer _ _ _ _ out \<Rightarrow> [out] | _ \<Rightarrow> []) (bgDone b))"

lemma rows_lost_by_eviction:
  "sent_rows (replay_run [row_event ''a'', row_event ''b'', success_event])
     = [Some [JObj [(''title'', JStr ''a'')], JObj [(''title'', JStr ''b'')]]]"
  "sent_rows (replay_run [row_event ''a'', Evict, Recover 6 (Some (False, TabBlank)) None, row_event ''b'', success_event])
     = [Some [JObj [(''title'', JStr ''b'')]]]"
  by code_simp+

text \<open>An end that finds the worker evicted is relayed to the wizard, but the server is not told of it,
  wizard or not.\<close>

lemma evicted_end_not_sent:
  "filter is_server_effect (new_effects b (complete_stored tab v now b)) = []"
  by (auto simp: complete_stored_def new_effects_def bg_simps is_server_effect_def split: option.split)

end
