(* ===== verification/Spec2Isabelle.thy ===== *)
theory Spec2Isabelle
  imports Resume_Laws Trail_Laws Step_Errors Executor_Laws Driver_Laws Worker_Laws Slots Preflight Snapshot_Delta Action_Data_Laws Handler_Laws Demo_Replay Rule_Converter_Laws Frame_Aggregator_Laws Preprocessor Replay_Session_Laws
begin

text \<open>
  \<^bold>\<open>The program.\<close> AegisCrawler replays approved collection rules in web pages. A rule is a tree of
  steps; an engine (\<open>src/scriptcat-engine\<close>) interprets it, checkpoints its position and its data, and
  sends rows, logs and status messages through a transport. On a worker machine a host process
  (\<open>src/worker\<close>, \<open>src/worker-host\<close>) claims tasks from the server, opens a page for each, injects the
  engine (\<open>src/worker-page\<close>) and answers its calls over a bridge; when the page navigates, the engine
  dies with it and is resumed from the checkpoint in the next page. A recorder
  (\<open>extension/src/recording\<close>) captures page snapshots as deltas.

  \<^bold>\<open>Values and effects.\<close> \<open>Js_Value\<close> models JavaScript values (objects as association lists in
  insertion order, numbers as exact rationals with the three special values, strings as lists of code
  units below 256), \<open>Json\<close> the text form the bridge and the idempotency keys use. \<open>Runtime\<close> has the
  context, the errors and the control signals; an \<open>async\<close> function is a function from the state (the
  context and the world behind the environment) to an outcome, \<open>Ret\<close> or \<open>Throw\<close>, and the next state.
  \<open>Prelude\<close> holds the rule collections, association-list facts and the interfaces \<open>keyed_store\<close>,
  \<open>total_compare\<close> and \<open>event_machine\<close>; \<open>Effects\<close> the two disciplines with which counting, invariance and
  preservation proofs go through the whole interpreter once.

  \<^bold>\<open>The engine.\<close> \<open>Rule_Types\<close> (\<open>rule-engine/types/action.ts\<close>), \<open>Interpolation\<close> (\<open>utils.ts\<close>), \<open>Step_Path\<close>
  (\<open>step-path.ts\<close>), \<open>Executor_Utils\<close> (\<open>executor-utils.ts\<close>: \<open>runSteps\<close>, retries, timeouts, loops,
  switches), \<open>Output_Validation\<close>, \<open>Buffering_Transport\<close> (and the tag transport), \<open>Executor\<close>
  (\<open>executor.ts\<close>: \<open>runRule\<close>), \<open>Preflight\<close> (\<open>rule-preflight.ts\<close>). \<open>Step_Laws\<close>, \<open>Resume_Laws\<close>: a resumed run is
  the rest of the interrupted one. \<open>Trail_Laws\<close>: positions increase. \<open>Step_Errors\<close>: bounds on attempts
  and iterations, shape of errors, cancellation. \<open>Executor_Laws\<close>: status, output, hooks.

  \<^bold>\<open>The leaf actions.\<close> \<open>Selectors\<close> (\<open>selectors.ts\<close>, \<open>aria-roles.ts\<close>, the search loops of
  \<open>BrowserEnvironment.ts\<close>) over a record of what the document answers; \<open>Action_Data\<close>, \<open>Circuit_Breaker\<close>,
  \<open>Quota\<close>, \<open>Browser\<close>, \<open>Handlers_Extract\<close>, \<open>Handlers_Input\<close>, \<open>Handlers_Page\<close> and \<open>Execute_Action\<close> are
  \<open>actions/index.ts\<close>: one definition per handler over a record of the operations of the page, and
  \<open>executeAction\<close>, which is the handler the interpreter is run with. \<open>Polling\<close> has computations that may
  not return, with the loops that wait for the page. \<open>Execute_Laws\<close>: the recursion through nested steps
  is well founded. \<open>Action_Effects\<close>: a property of the world kept by the operations of the page is kept
  by every rule, and locations are only assigned to http and https URLs. \<open>Handler_Laws\<close>: missing
  elements and waits. \<open>Selector_Laws\<close>, \<open>Action_Data_Laws\<close>: the searches and the data actions.

  \<^bold>\<open>The worker.\<close> \<open>Http_Transport\<close> (\<open>HttpTransport.ts\<close>) over a network parameter, \<open>Worker\<close>
  (\<open>Worker.ts\<close>), \<open>Page_Driver\<close> (\<open>page-driver.ts\<close>, an event machine), \<open>Bridge_Protocol\<close>
  (\<open>bridge-protocol.ts\<close>), \<open>Url_Policy\<close> (\<open>url-policy.ts\<close>, \<open>resume-guard.ts\<close>), \<open>Slots\<close> (\<open>slots.ts\<close>); their
  laws are in \<open>Http_Laws\<close>, \<open>Worker_Laws\<close> and \<open>Driver_Laws\<close>.

  \<^bold>\<open>The page of a worker.\<close> \<open>Worker_Page\<close> (\<open>worker-page/entry.ts\<close>, \<open>bridge-transport.ts\<close>) runs a payload with
  the engine over a record of what the browser does; \<open>Session_Store\<close> is its storage, a locale that holds
  for the keys of the replay of the extension too, with the text form read back by \<open>Json_Parse\<close>;
  \<open>Worker_Snapshot\<close> (\<open>snapshot.ts\<close>) bounds what a snapshot carries. \<open>Executor_World\<close> takes a discipline
  on the world behind the engine through a whole run; \<open>Worker_Page_Laws\<close> uses it: one completion per
  run, no internal marker on the bridge, and a resume goes on behind its checkpoint.

  \<^bold>\<open>The replay runner.\<close> \<open>Replay_Runner\<close> (\<open>extension/src/intent/replay-runner.ts\<close>, \<open>replay-transport.ts\<close>) drives the
  engine in a page for the extension, with messages that are not answered; \<open>Replay_Runner_Laws\<close> runs the
  same disciplines through it: one completion for each replay, no final marker among the progress, and a
  resume in another origin from the context of the last checkpoint.

  \<^bold>\<open>The replay session.\<close> \<open>Replay_Session\<close> (\<open>extension/src/background.ts\<close>) is the part of the extension's worker
  that starts the runner in a tab, injects it again after each navigation, watches it with alarms and
  reports its end; \<open>bg_step\<close> is one step per handler over what the worker remembers, what it stores, its
  alarms and what it has done. \<open>Replay_Session_Laws\<close> keeps one invariant over all runs, evictions included.

  \<^bold>\<open>The rule generator.\<close> \<open>Recording_Types\<close> (\<open>rule-generator/types.ts\<close>), \<open>Rule_Generator\<close> (selectors, aliases,
  mapping of events) and \<open>Rule_Converter\<close> (marks, variables, \<open>convert\<close>) turn a recording into a rule.
  \<open>Rule_Generator_Laws\<close> follows the registry of aliases through a conversion, \<open>Rule_Converter_Laws\<close> says
  what the converted rule refers to and which recordings give rules the preflight accepts.

  \<^bold>\<open>The recorder.\<close> \<open>Json_Patch\<close>, \<open>Json_Patch_Laws\<close> and \<open>Snapshot_Delta\<close> (\<open>recording/snapshot-delta.ts\<close>).
  \<open>Dom_Serializer\<close> (\<open>recording/dom-serializer.ts\<close>) makes the semantic tree of a page, with its regular
  expressions run by the backtracking matcher of \<open>Js_Regex\<close>; \<open>Dom_Serializer_Laws\<close> counts its nodes and shows
  that secrets do not reach it. \<open>Frame_Aggregator\<close> (\<open>recording/frame-aggregator.ts\<close>) puts the trees of the inner
  frames into the page: every connected frame is reported once, every placeholder settled. \<open>Preprocessor\<close>
  (\<open>recording/preprocessor.ts\<close>) folds events and prunes trees, and marks what it leaves out.

  \<^bold>\<open>Parameters.\<close> The network, the URL parser, the regular-expression engine, the browser environment,
  the clock and the random source are arguments of the definitions that use them. Laws assumed of them
  are premises of the theorems that need them, and every such theorem has a witness on the concrete
  instances of \<open>Demo_Env\<close>, \<open>Demo_Host\<close>, \<open>Http_Demo\<close>, \<open>Demo_Page\<close> and \<open>Demo_Replay\<close>.

  \<^bold>\<open>Bounds.\<close> A loop that waits on the outside world takes fuel: polls of a human decision, claims of
  the worker, rounds of a flush. The theorems give a fuel that is enough. The loops of the handlers that
  watch the page are partial functions, of which it is proved when they return; \<open>executeAction\<close> takes
  the size of its action as fuel, and more changes nothing. All other recursion is structural or has a
  measure.

  \<^bold>\<open>Not modelled.\<close> React pages and popup views, the message plumbing of the extension beside the replay
  session, the interleavings inside a handler of its worker, the browser's own part of selector queries (a
  parameter), script evaluation, build and qualification scripts and the Go server: they are effects on a browser or an
  operating system, or in another language.
\<close>

end
